(* ===== verification/Prelude.thy ===== *)
theory Prelude
  imports "HOL-Library.Word"
begin

text \<open>
  Prelude of the development: the machine-integer types of the firmware, the
  result monad in which every C function that can go wrong is written, the named
  collections the component theories extend, and the generic lemmas on lists and
  words they share.
\<close>

unbundle bit_operations_syntax

text \<open>Offsets into buffers are kept as sums, not as towers of \<^const>\<open>Suc\<close>.\<close>

declare add_2_eq_Suc [simp del] add_2_eq_Suc' [simp del]

section \<open>Machine integers\<close>

type_synonym u8 = "8 word"
type_synonym u16 = "16 word"
type_synonym u32 = "32 word"
type_synonym u64 = "64 word"

section \<open>Faults and the result monad\<close>

text \<open>
  A fault is behaviour the C program has no defined result for: it stops the
  model. Return codes of the C functions are ordinary values, not faults.
\<close>

datatype fault =
    Null_Deref     \<comment> \<open>access through a null pointer\<close>
  | Out_Of_Bounds  \<comment> \<open>access outside the object pointed to\<close>
  | Dangling       \<comment> \<open>access to an object that was freed\<close>
  | Bad_Free       \<comment> \<open>free of something that is not the start of a live block\<close>
  | Div_By_Zero    \<comment> \<open>integer division by zero\<close>
  | Signed_Overflow  \<comment> \<open>overflow of signed integer arithmetic\<close>
  | Diverges       \<comment> \<open>a loop that used up the fuel of the model\<close>
  | Uninitialised  \<comment> \<open>use of a local variable that was never assigned\<close>
  | Bad_Shift      \<comment> \<open>shift by a negative number of positions or by the width of the type\<close>
  | Bad_Cast       \<comment> \<open>conversion of a floating-point number that does not fit the integer type\<close>
  | Blocks         \<comment> \<open>a task waits for a semaphore without a timeout and nobody can give it\<close>

type_synonym ('s, 'a) cm = "'s \<Rightarrow> fault + ('a \<times> 's)"

definition returnm :: "'a \<Rightarrow> ('s, 'a) cm" where
  "returnm a = (\<lambda>s. Inr (a, s))"

definition failm :: "fault \<Rightarrow> ('s, 'a) cm" where
  "failm e = (\<lambda>s. Inl e)"

definition bindm :: "('s, 'a) cm \<Rightarrow> ('a \<Rightarrow> ('s, 'b) cm) \<Rightarrow> ('s, 'b) cm" where
  "bindm m f = (\<lambda>s. case m s of Inl e \<Rightarrow> Inl e | Inr (a, s') \<Rightarrow> f a s')"

definition getm :: "('s \<Rightarrow> 'a) \<Rightarrow> ('s, 'a) cm" where
  "getm f = (\<lambda>s. Inr (f s, s))"

definition modifym :: "('s \<Rightarrow> 's) \<Rightarrow> ('s, unit) cm" where
  "modifym f = (\<lambda>s. Inr ((), f s))"

named_theorems run_simps \<open>symbolic execution of the result monad and of the operations of the components\<close>

lemma returnm_run [run_simps]: "returnm a s = Inr (a, s)"
  by (simp add: returnm_def)

lemma failm_run [run_simps]: "failm e s = Inl e"
  by (simp add: failm_def)

lemma getm_run [run_simps]: "getm f s = Inr (f s, s)"
  by (simp add: getm_def)

lemma modifym_run [run_simps]: "modifym f s = Inr ((), f s)"
  by (simp add: modifym_def)

text \<open>
  A bind is executed only once its first computation has been: the two rules have
  the outcome of the first computation as a premise, so that the simplifier runs
  a function statement by statement.
\<close>

lemma bindm_Inr: "m s = Inr (a, s') \<Longrightarrow> bindm m f s = f a s'"
  by (simp add: bindm_def)

lemma bindm_Inl: "m s = Inl e \<Longrightarrow> bindm m f s = Inl e"
  by (simp add: bindm_def)

lemma bindm_unfold: "bindm m f s = (case m s of Inl e \<Rightarrow> Inl e | Inr r \<Rightarrow> f (fst r) (snd r))"
  by (simp add: bindm_def split: sum.split prod.split)

lemma bindm_Inr_iff:
  "bindm m f s = Inr r \<longleftrightarrow> (\<exists>a s'. m s = Inr (a, s') \<and> f a s' = Inr r)"
  by (auto simp: bindm_def split: sum.split)

lemma bindm_InrE:
  assumes "bindm m f s = Inr r" obtains a s' where "m s = Inr (a, s')" "f a s' = Inr r"
  using assms by (auto simp: bindm_Inr_iff)

lemma modifym_Inr: "modifym f \<sigma> = Inr (a, \<sigma>') \<longleftrightarrow> a = () \<and> \<sigma>' = f \<sigma>"
  by (auto simp: modifym_def)

lemma returnm_Inr: "returnm x \<sigma> = Inr (a, \<sigma>') \<longleftrightarrow> a = x \<and> \<sigma>' = \<sigma>"
  by (auto simp: returnm_def)

lemma map_upd_inject: "m(b \<mapsto> d) = m(b \<mapsto> d') \<longleftrightarrow> d = d'"
  by (metis fun_upd_same option.inject)

lemma bindm_Inl_iff:
  "bindm m f s = Inl e \<longleftrightarrow> m s = Inl e \<or> (\<exists>a s'. m s = Inr (a, s') \<and> f a s' = Inl e)"
  by (auto simp: bindm_def split: sum.split)

lemma bindm_assoc: "bindm (bindm m f) g = bindm m (\<lambda>a. bindm (f a) g)"
  by (rule ext) (auto simp: bindm_def split: sum.split)

lemma bindm_returnm [simp]: "bindm m returnm = m"
  by (rule ext) (auto simp: bindm_def returnm_def split: sum.split)

lemma returnm_bindm [simp]: "bindm (returnm a) f = f a"
  by (rule ext) (simp add: bindm_def returnm_def)

text \<open>A bounded loop \<open>for (i = a; i < a + n; i++) body(i)\<close>.\<close>

primrec form :: "nat \<Rightarrow> nat \<Rightarrow> (nat \<Rightarrow> ('s, unit) cm) \<Rightarrow> ('s, unit) cm" where
  "form a 0 body = returnm ()"
| "form a (Suc n) body = bindm (body a) (\<lambda>_. form (Suc a) n body)"

text \<open>
  The loop rule: an indexed invariant, kept by every round, holds after the loop
  and no round faults.
\<close>

lemma form_invariant:
  assumes step: "\<And>i s. a \<le> i \<Longrightarrow> i < a + n \<Longrightarrow> I i s \<Longrightarrow> \<exists>s'. body i s = Inr ((), s') \<and> I (Suc i) s'"
    and start: "I a s"
  shows "\<exists>s'. form a n body s = Inr ((), s') \<and> I (a + n) s'"
  using step start
proof (induction n arbitrary: a s)
  case 0
  then show ?case by (simp add: run_simps)
next
  case (Suc n)
  from Suc.prems(1)[of a s] Suc.prems(2) obtain s1 where
    s1: "body a s = Inr ((), s1)" "I (Suc a) s1" by auto
  have "\<exists>s'. form (Suc a) n body s1 = Inr ((), s') \<and> I (Suc a + n) s'"
    by (rule Suc.IH) (use Suc.prems(1) s1 in auto)
  with s1 show ?case by (auto simp: bindm_def)
qed

section \<open>Return codes\<close>

text \<open>
  The drivers return 0 or an error code, and pass on the code of the call that failed
  (\<open>if (ret) return ret;\<close>). Such a function is a computation of \<open>int + 'a\<close>: the error code,
  or the value of its out-parameter.
\<close>

definition okr :: "'a \<Rightarrow> ('s, int + 'a) cm" where
  "okr a = returnm (Inr a)"

definition errr :: "int \<Rightarrow> ('s, int + 'a) cm" where
  "errr e = returnm (Inl e)"

definition bindr :: "('s, int + 'a) cm \<Rightarrow> ('a \<Rightarrow> ('s, int + 'b) cm) \<Rightarrow> ('s, int + 'b) cm" where
  "bindr m f = bindm m (\<lambda>r. case r of Inl e \<Rightarrow> errr e | Inr a \<Rightarrow> f a)"

text \<open>The outcome of a call that only returns a code.\<close>

definition checked :: "('s, int) cm \<Rightarrow> ('s, int + unit) cm" where
  "checked m = bindm m (\<lambda>ret. if ret = 0 then okr () else errr ret)"

lemma okr_run [run_simps]: "okr a s = Inr (Inr a, s)"
  by (simp add: okr_def run_simps)

lemma errr_run [run_simps]: "errr e s = Inr (Inl e, s)"
  by (simp add: errr_def run_simps)

lemma bindr_Inr: "m s = Inr (Inr a, s') \<Longrightarrow> bindr m f s = f a s'"
  by (simp add: bindr_def bindm_def)

lemma bindr_errr: "m s = Inr (Inl e, s') \<Longrightarrow> bindr m f s = Inr (Inl e, s')"
  by (simp add: bindr_def bindm_def run_simps)

lemma bindr_Inl: "m s = Inl e \<Longrightarrow> bindr m f s = Inl e"
  by (simp add: bindr_def bindm_def)

definition EINVAL :: int where "EINVAL = 22"
definition ENOMEM :: int where "ENOMEM = 12"
definition EAGAIN :: int where "EAGAIN = 11"
definition EBUSY :: int where "EBUSY = 16"
definition ENOSYS :: int where "ENOSYS = 88"
definition EIO :: int where "EIO = 5"
definition ETIME :: int where "ETIME = 62"
definition EFAULT :: int where "EFAULT = 14"
definition ENODEV :: int where "ENODEV = 19"
definition ETIMEDOUT :: int where "ETIMEDOUT = 116"

lemmas errno_defs = EINVAL_def ENOMEM_def EAGAIN_def EBUSY_def ENOSYS_def EIO_def ETIME_def EFAULT_def
  ENODEV_def ETIMEDOUT_def

section \<open>Lists updated in place\<close>

text \<open>Overwriting the bytes of an array from an index on (\<open>memcpy\<close>, \<open>memset\<close>).\<close>

definition upd_bytes :: "'a list \<Rightarrow> nat \<Rightarrow> 'a list \<Rightarrow> 'a list" where
  "upd_bytes bs i xs = take i bs @ xs @ drop (i + length xs) bs"

lemma length_upd_bytes [simp]:
  "i + length xs \<le> length bs \<Longrightarrow> length (upd_bytes bs i xs) = length bs"
  by (simp add: upd_bytes_def)

lemma upd_bytes_Nil [simp]: "upd_bytes bs i [] = bs"
  by (simp add: upd_bytes_def)

lemma nth_upd_bytes:
  "i + length xs \<le> length bs \<Longrightarrow> j < length bs \<Longrightarrow>
   upd_bytes bs i xs ! j = (if i \<le> j \<and> j < i + length xs then xs ! (j - i) else bs ! j)"
  by (auto simp: upd_bytes_def nth_append min_def)

lemma take_upd_bytes [simp]:
  "i \<le> length bs \<Longrightarrow> k \<le> i \<Longrightarrow> take k (upd_bytes bs i xs) = take k bs"
  by (simp add: upd_bytes_def min_def)

lemma take_drop_upd_bytes [simp]:
  "i + length xs \<le> length bs \<Longrightarrow> take (length xs) (drop i (upd_bytes bs i xs)) = xs"
  by (simp add: upd_bytes_def min_def)

lemma upd_bytes_same: "i + n \<le> length bs \<Longrightarrow> upd_bytes bs i (take n (drop i bs)) = bs"
  by (metis append_take_drop_id drop_drop add.commute length_drop length_take min.absorb2
      le_diff_conv2 add_leD1 upd_bytes_def)

lemma upd_bytes_all: "length xs = length bs \<Longrightarrow> upd_bytes bs 0 xs = xs"
  by (simp add: upd_bytes_def)

lemma upd_bytes_single: "i < length bs \<Longrightarrow> upd_bytes bs i [v] = bs[i := v]"
  by (simp add: upd_bytes_def upd_conv_take_nth_drop)

lemma drop_upd_bytes:
  "i + length xs \<le> length bs \<Longrightarrow> i + length xs \<le> k \<Longrightarrow> drop k (upd_bytes bs i xs) = drop k bs"
  by (simp add: upd_bytes_def min_absorb2)

lemma upd_bytes_upd_bytes:
  assumes "i + length xs \<le> length bs"
  shows "upd_bytes (upd_bytes bs i xs) (i + length xs) ys = upd_bytes bs i (xs @ ys)"
proof -
  have "take (i + length xs) (upd_bytes bs i xs) = take i bs @ xs"
    using assms by (simp add: upd_bytes_def min_absorb2)
  moreover have "drop (i + length xs + length ys) (upd_bytes bs i xs) = drop (i + length xs + length ys) bs"
    using assms by (simp add: drop_upd_bytes)
  ultimately show ?thesis
    unfolding upd_bytes_def[of "upd_bytes bs i xs"] by (simp add: upd_bytes_def add.assoc)
qed

lemma upd_bytes_overwrite:
  "i + length xs \<le> length bs \<Longrightarrow> length ys = length xs \<Longrightarrow> upd_bytes (upd_bytes bs i xs) i ys = upd_bytes bs i ys"
  by (rule nth_equalityI) (auto simp: nth_upd_bytes)

text \<open>Writing in front of bytes already written.\<close>

lemma upd_bytes_prepend:
  "i + length xs + length ys \<le> length bs \<Longrightarrow>
   upd_bytes (upd_bytes bs (i + length xs) ys) i xs = upd_bytes bs i (xs @ ys)"
  by (rule nth_equalityI) (auto simp: nth_upd_bytes nth_append)

lemma upd_bytes_replace_tail:
  "i + length xs + length ys \<le> length bs \<Longrightarrow> length zs = length ys \<Longrightarrow>
   upd_bytes (upd_bytes bs i (xs @ ys)) (i + length xs) zs = upd_bytes bs i (xs @ zs)"
  by (rule nth_equalityI) (auto simp: nth_upd_bytes nth_append)

lemma upd_bytes_pair:
  "Suc i < length bs \<Longrightarrow> bs[i := x, Suc i := y] = upd_bytes bs i [x, y]"
  by (rule nth_equalityI) (auto simp: nth_upd_bytes nth_list_update nth_Cons split: nat.splits)

text \<open>Swapping the two bytes of every 16-bit element.\<close>

fun swap_pairs :: "'a list \<Rightarrow> 'a list" where
  "swap_pairs (x # y # zs) = y # x # swap_pairs zs"
| "swap_pairs zs = zs"

lemma length_swap_pairs [simp]: "length (swap_pairs xs) = length xs"
  by (induction xs rule: swap_pairs.induct) auto

lemma swap_pairs_swap_pairs [simp]: "swap_pairs (swap_pairs xs) = xs"
  by (induction xs rule: swap_pairs.induct) auto

lemma swap_pairs_append: "even (length xs) \<Longrightarrow> swap_pairs (xs @ ys) = swap_pairs xs @ swap_pairs ys"
  by (induction xs rule: swap_pairs.induct) auto

lemma take_swap_pairs: "take (2 * n) (swap_pairs xs) = swap_pairs (take (2 * n) xs)"
proof (induction xs arbitrary: n rule: swap_pairs.induct)
  case (1 x y zs)
  then show ?case by (cases n) (simp_all add: add_2_eq_Suc)
qed (auto simp: take_Cons' )

lemma drop_upd_bytes_at:
  "i + length xs \<le> length bs \<Longrightarrow> drop i (upd_bytes bs i xs) = xs @ drop (i + length xs) bs"
  by (simp add: upd_bytes_def min_absorb2)

lemma swap_pairs_replicate [simp]: "swap_pairs (replicate n x) = replicate n x"
proof (induction n rule: less_induct)
  case (less n)
  then show ?case
    by (cases n; cases "n - 1") (auto simp: numeral_2_eq_2)
qed

section \<open>Words\<close>

lemma unat_u8_less [simp]: "unat (x :: u8) < 256"
  using unsigned_less[of x] by simp

lemma unat_u16_less [simp]: "unat (x :: u16) < 65536"
  using unsigned_less[of x] by simp

lemma unat_u32_less [simp]: "unat (x :: u32) < 4294967296"
  using unsigned_less[of x] by simp

text \<open>Reading and writing a 16-bit value as two bytes, the arithmetic behind every codec.\<close>

lemma ucast_low_byte_u16: "unat (ucast (w :: u16) :: u8) = unat w mod 256"
  by (simp add: unsigned_ucast_eq take_bit_eq_mod)

lemma unat_drop_bit_8_u16: "unat (drop_bit 8 (w :: u16)) = unat w div 256"
  by (simp add: unsigned_drop_bit_eq drop_bit_eq_div take_bit_eq_mod unat_div_distrib)

lemma unat_u16_div_256: "unat (w :: u16) div 256 < 256"
  using unat_u16_less[of w] by (simp add: less_mult_imp_div_less del: unat_u16_less)

lemma ucast_high_byte_u16: "unat (ucast (drop_bit 8 (w :: u16)) :: u8) = unat w div 256"
  by (simp add: unsigned_ucast_eq take_bit_eq_mod unat_drop_bit_8_u16 unat_u16_div_256 mod_less
      del: unsigned_drop_bit_eq)

text \<open>Splitting a 16-bit word in two bytes and joining them again.\<close>

lemma unat_ucast_u8_u16: "unat (ucast (b :: u8) :: u16) = unat b"
  using unat_u8_less[of b] by (simp add: unsigned_ucast_eq take_bit_eq_mod del: unat_u8_less)

lemma join_split_u16: "push_bit 8 (ucast (ucast (drop_bit 8 (w :: u16)) :: u8)) + ucast (ucast w :: u8) = w"
proof -
  have "unat (push_bit 8 (ucast (ucast (drop_bit 8 w) :: u8)) + ucast (ucast w :: u8) :: u16) =
      (256 * (unat w div 256) mod 65536 + unat w mod 256) mod 65536"
    by (simp only: unat_plus_simple push_bit_eq_mult unat_word_ariths(1,2) unat_ucast_u8_u16
        ucast_low_byte_u16[of w] ucast_high_byte_u16[of w]) (simp add: mult.commute mod_simps)
  then have "unat (push_bit 8 (ucast (ucast (drop_bit 8 w) :: u8)) + ucast (ucast w :: u8) :: u16) = unat w"
    by (simp add: mod_simps)
  then show ?thesis by (simp only: word_unat_eq_iff)
qed

section \<open>Codecs\<close>

text \<open>
  The interface of a fixed-size binary encoding: decoding what was encoded gives the
  value back, whatever follows it, and encoding what was decoded gives the bytes
  back. The byte orders of \<open>no_os_util.c\<close> and the MBAP header are instances.
\<close>

locale codec =
  fixes enc :: "'v \<Rightarrow> 'b list"
    and dec :: "'b list \<Rightarrow> 'v"
    and size_of :: nat
  assumes length_enc: "length (enc v) = size_of"
    and dec_enc: "dec (enc v @ rest) = v"
    and enc_dec: "length bs = size_of \<Longrightarrow> enc (dec bs) = bs"
begin

lemma enc_inject: "enc v = enc w \<longleftrightarrow> v = w"
  by (metis dec_enc)

lemma enc_prefix_inject: "enc v @ r = enc w @ r' \<longleftrightarrow> v = w \<and> r = r'"
  by (metis append_eq_append_conv dec_enc length_enc)

lemma dec_inject: "length bs = size_of \<Longrightarrow> length bs' = size_of \<Longrightarrow> dec bs = dec bs' \<longleftrightarrow> bs = bs'"
  by (metis enc_dec)

lemma enc_surj: "length bs = size_of \<Longrightarrow> \<exists>v. bs = enc v"
  by (metis enc_dec)

lemma dec_prefix: "size_of \<le> length bs \<Longrightarrow> dec bs = dec (take size_of bs)"
proof -
  assume "size_of \<le> length bs"
  then have "length (take size_of bs) = size_of" by simp
  then obtain v where v: "take size_of bs = enc v" using enc_surj by blast
  then have "bs = enc v @ drop size_of bs" by (metis append_take_drop_id)
  then show ?thesis using v by (metis dec_enc append_Nil2)
qed

lemma enc_dec_prefix: "size_of \<le> length bs \<Longrightarrow> enc (dec bs) = take size_of bs"
  using dec_prefix[of bs] enc_dec[of "take size_of bs"] by simp

text \<open>Writing a value into an array and reading it back at the same place.\<close>

lemma dec_upd_bytes:
  assumes "i + size_of \<le> length bs"
  shows "dec (drop i (upd_bytes bs i (enc v))) = v"
  using assms length_enc[of v] by (simp add: upd_bytes_def min_absorb2 dec_enc)

lemma dec_concat: "dec (concat (map enc (v # vs))) = v"
  by (simp add: dec_enc)

end

end
