(* ===== verification/CMem.thy ===== *)
theory CMem
  imports Prelude
begin

text \<open>
  The memory the C code runs on, at the level the code relies on: a store of
  separate blocks of bytes, addressed by a block number and an offset, with
  \<open>NULL\<close>. Reading or writing outside a block, through \<open>NULL\<close> or in a freed
  block is a fault, and so is freeing anything but the start of a live block (the
  \<open>configASSERT\<close>s of \<open>vPortFree\<close> stop the firmware there).

  The FreeRTOS allocator is a parameter: the field \<^term>\<open>grants\<close> says whether the
  k-th allocation, of a given size, succeeds, and \<^term>\<open>junk\<close> what a new block
  holds before it is written (\<open>pvPortMalloc\<close> does not clear it). Every theorem
  holds for all such functions, so it holds for every state of the real heap.

  The theory also models \<open>freertos_alloc.c\<close> of no-OS, the wrapper the drivers
  allocate through.
\<close>

section \<open>Blocks and pointers\<close>

datatype ptr = NULL | Ptr nat nat

record cmem =
  blocks :: "nat \<Rightarrow> u8 list option"
  next_block :: nat
  grants :: "nat \<Rightarrow> nat \<Rightarrow> bool"
  junk :: "nat \<Rightarrow> nat \<Rightarrow> u8"

fun ptr_add :: "ptr \<Rightarrow> nat \<Rightarrow> ptr" where
  "ptr_add NULL n = NULL"
| "ptr_add (Ptr b i) n = Ptr b (i + n)"

definition set_block :: "nat \<Rightarrow> u8 list \<Rightarrow> 'z cmem_scheme \<Rightarrow> 'z cmem_scheme" where
  "set_block b bs \<sigma> = \<sigma>\<lparr>blocks := (blocks \<sigma>)(b \<mapsto> bs)\<rparr>"

definition read_bytes :: "ptr \<Rightarrow> nat \<Rightarrow> ('z cmem_scheme, u8 list) cm" where
  "read_bytes p n \<sigma> =
     (case p of
        NULL \<Rightarrow> Inl Null_Deref
      | Ptr b i \<Rightarrow>
          (case blocks \<sigma> b of
             None \<Rightarrow> Inl Dangling
           | Some bs \<Rightarrow> if i + n \<le> length bs then Inr (take n (drop i bs), \<sigma>) else Inl Out_Of_Bounds))"

definition write_bytes :: "ptr \<Rightarrow> u8 list \<Rightarrow> ('z cmem_scheme, unit) cm" where
  "write_bytes p xs \<sigma> =
     (case p of
        NULL \<Rightarrow> Inl Null_Deref
      | Ptr b i \<Rightarrow>
          (case blocks \<sigma> b of
             None \<Rightarrow> Inl Dangling
           | Some bs \<Rightarrow> if i + length xs \<le> length bs then Inr ((), set_block b (upd_bytes bs i xs) \<sigma>)
                       else Inl Out_Of_Bounds))"

definition load8 :: "ptr \<Rightarrow> ('z cmem_scheme, u8) cm" where
  "load8 p = bindm (read_bytes p 1) (\<lambda>xs. returnm (hd xs))"

definition store8 :: "ptr \<Rightarrow> u8 \<Rightarrow> ('z cmem_scheme, unit) cm" where
  "store8 p v = write_bytes p [v]"

definition memcpy :: "ptr \<Rightarrow> ptr \<Rightarrow> nat \<Rightarrow> ('z cmem_scheme, unit) cm" where
  "memcpy dst src n = bindm (read_bytes src n) (\<lambda>xs. write_bytes dst xs)"

definition memset :: "ptr \<Rightarrow> u8 \<Rightarrow> nat \<Rightarrow> ('z cmem_scheme, unit) cm" where
  "memset p v n = write_bytes p (replicate n v)"

definition pvPortMalloc :: "nat \<Rightarrow> ('z cmem_scheme, ptr) cm" where
  "pvPortMalloc n \<sigma> =
     (let b = next_block \<sigma> in
      if 0 < n \<and> grants \<sigma> b n
      then Inr (Ptr b 0, \<sigma>\<lparr>blocks := (blocks \<sigma>)(b \<mapsto> map (junk \<sigma> b) [0..<n]), next_block := Suc b\<rparr>)
      else Inr (NULL, \<sigma>\<lparr>next_block := Suc b\<rparr>))"

definition vPortFree :: "ptr \<Rightarrow> ('z cmem_scheme, unit) cm" where
  "vPortFree p \<sigma> =
     (case p of
        NULL \<Rightarrow> Inr ((), \<sigma>)
      | Ptr b i \<Rightarrow> if i = 0 \<and> blocks \<sigma> b \<noteq> None then Inr ((), \<sigma>\<lparr>blocks := (blocks \<sigma>)(b := None)\<rparr>)
                   else Inl Bad_Free)"

text \<open>
  A local variable whose address is taken lives in a block of its own, which exists
  while the function runs.
\<close>

definition stack_alloc :: "u8 list \<Rightarrow> ('z cmem_scheme, ptr) cm" where
  "stack_alloc bs \<sigma> =
     Inr (Ptr (next_block \<sigma>) 0,
          (set_block (next_block \<sigma>) bs \<sigma>)\<lparr>next_block := Suc (next_block \<sigma>)\<rparr>)"

definition with_local :: "u8 list \<Rightarrow> (ptr \<Rightarrow> ('z cmem_scheme, 'a) cm) \<Rightarrow> ('z cmem_scheme, 'a) cm" where
  "with_local bs body =
     bindm (stack_alloc bs) (\<lambda>p.
     bindm (body p) (\<lambda>r.
     bindm (vPortFree p) (\<lambda>_. returnm r)))"

definition with_uninit :: "nat \<Rightarrow> (ptr \<Rightarrow> ('z cmem_scheme, 'a) cm) \<Rightarrow> ('z cmem_scheme, 'a) cm" where
  "with_uninit n body =
     bindm (getm (\<lambda>\<sigma>. map (junk \<sigma> (next_block \<sigma>)) [0..<n])) (\<lambda>bs. with_local bs body)"

text \<open>16-bit objects, stored with the low byte first as on the Cortex-M4.\<close>

definition le16 :: "u16 \<Rightarrow> u8 list" where
  "le16 w = [ucast w, ucast (drop_bit 8 w)]"

definition be16 :: "u16 \<Rightarrow> u8 list" where
  "be16 w = [ucast (drop_bit 8 w), ucast w]"

definition mk16 :: "u8 \<Rightarrow> u8 \<Rightarrow> u16" where
  "mk16 hi lo = push_bit 8 (ucast hi) + ucast lo"

definition load16 :: "ptr \<Rightarrow> ('z cmem_scheme, u16) cm" where
  "load16 p = bindm (read_bytes p 2) (\<lambda>xs. returnm (mk16 (xs ! 1) (xs ! 0)))"

section \<open>no-OS allocation wrapper (\<open>freertos_alloc.c\<close>)\<close>

definition no_os_malloc :: "nat \<Rightarrow> ('z cmem_scheme, ptr) cm" where
  "no_os_malloc sz = pvPortMalloc sz"

definition no_os_calloc :: "nat \<Rightarrow> nat \<Rightarrow> ('z cmem_scheme, ptr) cm" where
  "no_os_calloc nitems sz =
     (let n = nitems * sz mod 2 ^ 32 in
      bindm (pvPortMalloc n) (\<lambda>p_ret.
      if p_ret \<noteq> NULL then bindm (memset p_ret 0 n) (\<lambda>_. returnm p_ret)
      else returnm p_ret))"

definition no_os_free :: "ptr \<Rightarrow> ('z cmem_scheme, unit) cm" where
  "no_os_free p = vPortFree p"

section \<open>Objects of a type\<close>

text \<open>
  Objects the code only uses through the fields of their type (descriptors, kernel
  objects) live in a map of their own, from block numbers to records; \<open>new_obj\<close> allocates
  a block number for one, \<open>deref\<close> reads one through a pointer.
\<close>

definition new_obj :: "nat \<Rightarrow> (nat \<Rightarrow> 'z cmem_scheme \<Rightarrow> 'z cmem_scheme) \<Rightarrow> ('z cmem_scheme, ptr) cm" where
  "new_obj sz put \<sigma> =
     (let b = next_block \<sigma> in
      if grants \<sigma> b sz then Inr (Ptr b 0, put b (\<sigma>\<lparr>next_block := Suc b\<rparr>))
      else Inr (NULL, \<sigma>\<lparr>next_block := Suc b\<rparr>))"

definition deref :: "('s \<Rightarrow> nat \<Rightarrow> 'o option) \<Rightarrow> ptr \<Rightarrow> ('s, 'o) cm" where
  "deref heap p \<sigma> =
     (case p of
        NULL \<Rightarrow> Inl Null_Deref
      | Ptr b i \<Rightarrow> (case heap \<sigma> b of
          None \<Rightarrow> Inl Dangling
        | Some obj \<Rightarrow> if i = 0 then Inr (obj, \<sigma>) else Inl Out_Of_Bounds))"

fun block_of :: "ptr \<Rightarrow> nat" where
  "block_of NULL = 0"
| "block_of (Ptr b i) = b"

lemma deref_ok [run_simps]: "heap \<sigma> b = Some obj \<Longrightarrow> deref heap (Ptr b 0) \<sigma> = Inr (obj, \<sigma>)"
  by (simp add: deref_def)

lemma deref_gone: "heap \<sigma> b = None \<Longrightarrow> deref heap (Ptr b i) \<sigma> = Inl Dangling"
  by (simp add: deref_def)

lemma deref_NULL [run_simps]: "deref heap NULL \<sigma> = Inl Null_Deref"
  by (simp add: deref_def)

lemma deref_Inr: "deref heap p \<sigma> = Inr (obj, \<sigma>') \<longleftrightarrow> (\<exists>b. p = Ptr b 0 \<and> heap \<sigma> b = Some obj \<and> \<sigma>' = \<sigma>)"
  by (auto simp: deref_def split: ptr.splits option.splits if_splits)

lemma new_obj_ok:
  "grants \<sigma> (next_block \<sigma>) sz \<Longrightarrow>
   new_obj sz put \<sigma> = Inr (Ptr (next_block \<sigma>) 0, put (next_block \<sigma>) (\<sigma>\<lparr>next_block := Suc (next_block \<sigma>)\<rparr>))"
  by (simp add: new_obj_def Let_def)

lemma new_obj_refused:
  "\<not> grants \<sigma> (next_block \<sigma>) sz \<Longrightarrow> new_obj sz put \<sigma> = Inr (NULL, \<sigma>\<lparr>next_block := Suc (next_block \<sigma>)\<rparr>)"
  by (simp add: new_obj_def Let_def)

section \<open>Byte order\<close>

lemma unat_mk16: "unat (mk16 hi lo) = 256 * unat hi + unat lo"
proof -
  have "256 * unat hi + unat lo < 65536"
    using unat_u8_less[of hi] unat_u8_less[of lo] by linarith
  then show ?thesis
    by (simp add: mk16_def unat_word_ariths push_bit_eq_mult unat_ucast_u8_u16 mult.commute)
qed

lemma mk16_hi [simp]: "ucast (drop_bit 8 (mk16 hi lo)) = hi"
  by (rule word_unat_eq_iff[THEN iffD2]) (simp add: ucast_high_byte_u16 unat_mk16)

lemma mk16_lo [simp]: "ucast (mk16 hi lo) = lo"
  by (rule word_unat_eq_iff[THEN iffD2]) (simp add: ucast_low_byte_u16 unat_mk16)

lemma mk16_split [simp]: "mk16 (ucast (drop_bit 8 w)) (ucast w) = w"
  unfolding mk16_def by (rule join_split_u16)

lemma length_16 [simp]: "length (le16 w) = 2" "length (be16 w) = 2"
  by (simp_all add: le16_def be16_def)

lemma nth_be16 [simp]: "be16 w ! 0 = ucast (drop_bit 8 w)" "be16 w ! Suc 0 = ucast w"
  by (simp_all add: be16_def)

lemma nth_le16 [simp]: "le16 w ! 0 = ucast w" "le16 w ! Suc 0 = ucast (drop_bit 8 w)"
  by (simp_all add: le16_def)

lemma swap_le16: "swap_pairs (le16 w) = be16 w"
  by (simp add: le16_def be16_def)

lemma swap_concat_le16: "swap_pairs (concat (map le16 ws)) = concat (map be16 ws)"
  by (induction ws) (simp_all add: swap_pairs_append swap_le16)

lemma swap_concat_be16: "swap_pairs (concat (map be16 ws)) = concat (map le16 ws)"
  by (metis swap_concat_le16 swap_pairs_swap_pairs)

section \<open>Running the memory operations\<close>

lemma set_block_simps [simp]:
  "blocks (set_block b bs \<sigma>) = (blocks \<sigma>)(b \<mapsto> bs)"
  "next_block (set_block b bs \<sigma>) = next_block \<sigma>"
  "grants (set_block b bs \<sigma>) = grants \<sigma>"
  "junk (set_block b bs \<sigma>) = junk \<sigma>"
  "cmem.more (set_block b bs \<sigma>) = cmem.more \<sigma>"
  by (simp_all add: set_block_def)

lemma set_block_set_block [simp]: "set_block b bs (set_block b bs' \<sigma>) = set_block b bs \<sigma>"
  by (simp add: set_block_def)

lemma set_block_same: "blocks \<sigma> b = Some bs \<Longrightarrow> set_block b bs \<sigma> = \<sigma>"
  by (simp add: set_block_def fun_upd_idem)

lemma read_bytes_ok:
  "blocks \<sigma> b = Some bs \<Longrightarrow> i + n \<le> length bs \<Longrightarrow>
   read_bytes (Ptr b i) n \<sigma> = Inr (take n (drop i bs), \<sigma>)"
  by (simp add: read_bytes_def)

lemma write_bytes_ok:
  "blocks \<sigma> b = Some bs \<Longrightarrow> i + length xs \<le> length bs \<Longrightarrow>
   write_bytes (Ptr b i) xs \<sigma> = Inr ((), set_block b (upd_bytes bs i xs) \<sigma>)"
  by (simp add: write_bytes_def)

lemma write_bytes_out:
  "blocks \<sigma> b = Some bs \<Longrightarrow> length bs < i + length xs \<Longrightarrow>
   write_bytes (Ptr b i) xs \<sigma> = Inl Out_Of_Bounds"
  by (simp add: write_bytes_def)

lemma read_bytes_out:
  "blocks \<sigma> b = Some bs \<Longrightarrow> length bs < i + n \<Longrightarrow> read_bytes (Ptr b i) n \<sigma> = Inl Out_Of_Bounds"
  by (simp add: read_bytes_def)

lemma access_NULL [run_simps]:
  "read_bytes NULL n \<sigma> = Inl Null_Deref"
  "write_bytes NULL xs \<sigma> = Inl Null_Deref"
  by (simp_all add: read_bytes_def write_bytes_def)

lemma load8_ok:
  "blocks \<sigma> b = Some bs \<Longrightarrow> i < length bs \<Longrightarrow> load8 (Ptr b i) \<sigma> = Inr (bs ! i, \<sigma>)"
  by (simp add: load8_def bindm_Inr[OF read_bytes_ok] returnm_def hd_drop_conv_nth)

lemma store8_ok:
  "blocks \<sigma> b = Some bs \<Longrightarrow> i < length bs \<Longrightarrow>
   store8 (Ptr b i) v \<sigma> = Inr ((), set_block b (bs[i := v]) \<sigma>)"
  by (simp add: store8_def write_bytes_ok upd_bytes_single)

lemma store8_out:
  "blocks \<sigma> b = Some bs \<Longrightarrow> length bs \<le> i \<Longrightarrow> store8 (Ptr b i) v \<sigma> = Inl Out_Of_Bounds"
  by (simp add: store8_def write_bytes_out)

lemma memcpy_ok:
  "blocks \<sigma> d = Some ds \<Longrightarrow> blocks \<sigma> s = Some ss \<Longrightarrow> j + n \<le> length ss \<Longrightarrow> i + n \<le> length ds \<Longrightarrow>
   memcpy (Ptr d i) (Ptr s j) n \<sigma> = Inr ((), set_block d (upd_bytes ds i (take n (drop j ss))) \<sigma>)"
  by (simp add: memcpy_def bindm_Inr[OF read_bytes_ok] write_bytes_ok)

lemma memset_ok:
  "blocks \<sigma> b = Some bs \<Longrightarrow> i + n \<le> length bs \<Longrightarrow>
   memset (Ptr b i) v n \<sigma> = Inr ((), set_block b (upd_bytes bs i (replicate n v)) \<sigma>)"
  by (simp add: memset_def write_bytes_ok)

lemma load16_ok:
  "blocks \<sigma> b = Some bs \<Longrightarrow> i + 2 \<le> length bs \<Longrightarrow>
   load16 (Ptr b i) \<sigma> = Inr (mk16 (bs ! Suc i) (bs ! i), \<sigma>)"
  by (simp add: load16_def bindm_Inr[OF read_bytes_ok] returnm_def)

lemma load16_out:
  "blocks \<sigma> b = Some bs \<Longrightarrow> length bs < i + 2 \<Longrightarrow> load16 (Ptr b i) \<sigma> = Inl Out_Of_Bounds"
  by (simp add: load16_def bindm_Inl[OF read_bytes_out])

lemma stack_alloc_run:
  "stack_alloc bs \<sigma> = Inr (Ptr (next_block \<sigma>) 0,
     (set_block (next_block \<sigma>) bs \<sigma>)\<lparr>next_block := Suc (next_block \<sigma>)\<rparr>)"
  by (simp add: stack_alloc_def)

text \<open>A granted allocation is a new block; a refused one is \<open>NULL\<close>.\<close>

definition new_block :: "nat \<Rightarrow> 'z cmem_scheme \<Rightarrow> u8 list" where
  "new_block n \<sigma> = map (junk \<sigma> (next_block \<sigma>)) [0..<n]"

lemma length_new_block [simp]: "length (new_block n \<sigma>) = n"
  by (simp add: new_block_def)

lemma nth_new_block [simp]: "i < n \<Longrightarrow> new_block n \<sigma> ! i = junk \<sigma> (next_block \<sigma>) i"
  by (simp add: new_block_def)

definition after_malloc :: "nat \<Rightarrow> 'z cmem_scheme \<Rightarrow> 'z cmem_scheme" where
  "after_malloc n \<sigma> =
     (set_block (next_block \<sigma>) (new_block n \<sigma>) \<sigma>)\<lparr>next_block := Suc (next_block \<sigma>)\<rparr>"

lemma after_malloc_simps [simp]:
  "blocks (after_malloc n \<sigma>) = (blocks \<sigma>)(next_block \<sigma> \<mapsto> new_block n \<sigma>)"
  "next_block (after_malloc n \<sigma>) = Suc (next_block \<sigma>)"
  "grants (after_malloc n \<sigma>) = grants \<sigma>"
  "junk (after_malloc n \<sigma>) = junk \<sigma>"
  by (simp_all add: after_malloc_def)

lemma pvPortMalloc_ok:
  "grants \<sigma> (next_block \<sigma>) n \<Longrightarrow> 0 < n \<Longrightarrow>
   pvPortMalloc n \<sigma> = Inr (Ptr (next_block \<sigma>) 0, after_malloc n \<sigma>)"
  by (simp add: pvPortMalloc_def Let_def after_malloc_def set_block_def new_block_def)

lemma pvPortMalloc_refused:
  "\<not> grants \<sigma> (next_block \<sigma>) n \<Longrightarrow>
   pvPortMalloc n \<sigma> = Inr (NULL, \<sigma>\<lparr>next_block := Suc (next_block \<sigma>)\<rparr>)"
  by (simp add: pvPortMalloc_def Let_def)

lemma vPortFree_NULL [run_simps]: "vPortFree NULL \<sigma> = Inr ((), \<sigma>)"
  by (simp add: vPortFree_def)

lemma vPortFree_ok:
  "blocks \<sigma> b = Some bs \<Longrightarrow> vPortFree (Ptr b 0) \<sigma> = Inr ((), \<sigma>\<lparr>blocks := (blocks \<sigma>)(b := None)\<rparr>)"
  by (simp add: vPortFree_def)

lemma vPortFree_inner: "0 < i \<Longrightarrow> vPortFree (Ptr b i) \<sigma> = Inl Bad_Free"
  by (simp add: vPortFree_def)

lemma no_os_calloc_ok:
  assumes "grants \<sigma> (next_block \<sigma>) (k * n)" and "0 < k * n" and "k * n < 2 ^ 32"
  shows "no_os_calloc k n \<sigma> =
    Inr (Ptr (next_block \<sigma>) 0, set_block (next_block \<sigma>) (replicate (k * n) 0) (after_malloc (k * n) \<sigma>))"
proof -
  have "memset (Ptr (next_block \<sigma>) 0) 0 (k * n) (after_malloc (k * n) \<sigma>) =
      Inr ((), set_block (next_block \<sigma>) (replicate (k * n) 0) (after_malloc (k * n) \<sigma>))"
    by (subst memset_ok) (auto simp: upd_bytes_all)
  with assms show ?thesis
    by (simp add: no_os_calloc_def Let_def bindm_Inr[OF pvPortMalloc_ok] bindm_Inr returnm_def)
qed

section \<open>Well-formed memories\<close>

text \<open>Blocks are numbered in the order they are allocated; numbers to come are unused.\<close>

definition wf_mem :: "'z cmem_scheme \<Rightarrow> bool" where
  "wf_mem \<sigma> \<longleftrightarrow> (\<forall>b. next_block \<sigma> \<le> b \<longrightarrow> blocks \<sigma> b = None)"

lemma wf_mem_next [simp]: "wf_mem \<sigma> \<Longrightarrow> blocks \<sigma> (next_block \<sigma>) = None"
  by (simp add: wf_mem_def)

lemma wf_mem_after_malloc: "wf_mem \<sigma> \<Longrightarrow> wf_mem (after_malloc n \<sigma>)"
  by (simp add: wf_mem_def)

lemma wf_mem_set_block: "wf_mem \<sigma> \<Longrightarrow> blocks \<sigma> b = Some bs \<Longrightarrow> wf_mem (set_block b bs' \<sigma>)"
  by (auto simp: wf_mem_def)

lemma wf_mem_write_bytes:
  "wf_mem \<sigma> \<Longrightarrow> write_bytes p xs \<sigma> = Inr ((), \<sigma>') \<Longrightarrow> wf_mem \<sigma>'"
  by (auto simp: write_bytes_def wf_mem_def split: ptr.splits option.splits if_splits)

lemma wf_mem_pvPortMalloc: "wf_mem \<sigma> \<Longrightarrow> pvPortMalloc n \<sigma> = Inr (p, \<sigma>') \<Longrightarrow> wf_mem \<sigma>'"
  by (auto simp: pvPortMalloc_def wf_mem_def Let_def split: if_splits)

lemma wf_mem_vPortFree: "wf_mem \<sigma> \<Longrightarrow> vPortFree p \<sigma> = Inr ((), \<sigma>') \<Longrightarrow> wf_mem \<sigma>'"
  by (auto simp: vPortFree_def wf_mem_def split: ptr.splits if_splits)

end
