(* ===== verification/Modbus_Pdu.thy ===== *)
theory Modbus_Pdu
  imports CMem
begin

text \<open>
  General Modbus protocol handling (\<open>Libraries/modbus/src/modbus.c\<close>): one
  definition per function, statement by statement, over the memory of
  \<open>CMem\<close>. The out-parameters \<open>*output_buffer\<close> and \<open>*output_size\<close> are the local
  variables of the only caller, \<open>modbus_tcp_handle_request\<close>; they are the fields
  \<open>obuf\<close> and \<open>osize\<close> of the state, and the pointer to the first of them is a
  value of \<open>bufref\<close>, because \<open>modbus_handle_request\<close> overwrites that pointer
  with \<open>NULL\<close>.
\<close>

section \<open>State, callbacks, constants\<close>

record 'a mbstate = cmem +
  obuf :: ptr
  osize :: u16
  sent :: "(int \<times> u8 list) list"
  app :: 'a

datatype bufref = NullRef | OutRef

text \<open>The application's callbacks, any of which may be \<open>NULL\<close>.\<close>

type_synonym 'a data_cb = "u8 \<Rightarrow> u8 \<Rightarrow> u16 \<Rightarrow> u16 \<Rightarrow> ptr \<Rightarrow> ('a mbstate, u8) cm"
type_synonym 'a other_cb = "u8 \<Rightarrow> ptr \<Rightarrow> u32 \<Rightarrow> ptr \<Rightarrow> u8 \<Rightarrow> u8 \<Rightarrow> ('a mbstate, u8) cm"

record 'a ModbusCallbacks =
  read_bits :: "'a data_cb option"
  write_bits :: "'a data_cb option"
  read_words :: "'a data_cb option"
  write_words :: "'a data_cb option"
  other_functions :: "'a other_cb option"

abbreviation (input) "MODBUS_READ_COILS_FC \<equiv> (0x01 :: u8)"
abbreviation (input) "MODBUS_READ_DISCRETE_INPUTS_FC \<equiv> (0x02 :: u8)"
abbreviation (input) "MODBUS_READ_HOLDING_REGISTERS_FC \<equiv> (0x03 :: u8)"
abbreviation (input) "MODBUS_READ_INPUT_REGISTERS_FC \<equiv> (0x04 :: u8)"
abbreviation (input) "MODBUS_WRITE_SINGLE_COIL_FC \<equiv> (0x05 :: u8)"
abbreviation (input) "MODBUS_WRITE_SINGLE_REGISTER_FC \<equiv> (0x06 :: u8)"
abbreviation (input) "MODBUS_WRITE_MULTIPLE_COILS_FC \<equiv> (0x0F :: u8)"
abbreviation (input) "MODBUS_WRITE_MULTIPLE_REGISTERS_FC \<equiv> (0x10 :: u8)"
abbreviation (input) "MODBUS_READ_WRITE_MULTIPLE_REGISTERS_FC \<equiv> (0x17 :: u8)"

abbreviation (input) "MODBUS_DATA_TABLE_DISCRETES_INPUT \<equiv> (0x01 :: u8)"
abbreviation (input) "MODBUS_DATA_TABLE_COILS \<equiv> (0x02 :: u8)"
abbreviation (input) "MODBUS_DATA_TABLE_INPUT_REGISTERS \<equiv> (0x03 :: u8)"
abbreviation (input) "MODBUS_DATA_TABLE_HOLDING_REGISTERS \<equiv> (0x04 :: u8)"

abbreviation (input) "MODBUS_ERROR_OK \<equiv> (0x00 :: u8)"
abbreviation (input) "MODBUS_ERROR_ILLEGAL_FUNCTION \<equiv> (0x01 :: u8)"
abbreviation (input) "MODBUS_ERROR_SERVER_DEVICE_FAILURE \<equiv> (0x04 :: u8)"

section \<open>Out-parameters\<close>

definition set_obuf :: "bufref \<Rightarrow> ptr \<Rightarrow> ('a mbstate, unit) cm" where
  "set_obuf r p = (case r of NullRef \<Rightarrow> failm Null_Deref | OutRef \<Rightarrow> modifym (\<lambda>\<sigma>. \<sigma>\<lparr>obuf := p\<rparr>))"

definition get_obuf :: "bufref \<Rightarrow> ('a mbstate, ptr) cm" where
  "get_obuf r = (case r of NullRef \<Rightarrow> failm Null_Deref | OutRef \<Rightarrow> getm obuf)"

definition set_osize :: "u16 \<Rightarrow> ('a mbstate, unit) cm" where
  "set_osize n = modifym (\<lambda>\<sigma>. \<sigma>\<lparr>osize := n\<rparr>)"

text \<open>
  \<open>*size = n; *buffer = pvPortMalloc(*size);\<close>, the two statements every handler
  starts its response with. The result is the new value of \<open>*buffer\<close>.
\<close>

definition alloc_response :: "bufref \<Rightarrow> u16 \<Rightarrow> ('a mbstate, ptr) cm" where
  "alloc_response r n =
     bindm (set_osize n) (\<lambda>_.
     bindm (pvPortMalloc (unat n)) (\<lambda>p.
     bindm (set_obuf r p) (\<lambda>_.
     get_obuf r)))"

section \<open>The functions of \<open>modbus.c\<close>\<close>

definition modbus_create_error_response ::
  "bufref \<Rightarrow> u8 \<Rightarrow> u8 \<Rightarrow> u8 \<Rightarrow> u8 \<Rightarrow> ('a mbstate, unit) cm" where
  "modbus_create_error_response send_buffer function_code error_code prepend_size append_size =
     bindm (alloc_response send_buffer (2 + ucast prepend_size + ucast append_size)) (\<lambda>buf.
     if buf = NULL then set_osize 0
     else
       let cursor = ptr_add buf (unat prepend_size) in
       bindm (store8 cursor (function_code + 0x80)) (\<lambda>_.
       store8 (ptr_add cursor 1) error_code))"

definition flip_bits :: "u8 \<Rightarrow> u8" where
  "flip_bits b = fold (\<lambda>i flipped. flipped OR push_bit (7 - i) (drop_bit i b AND 1)) [0..<8] 0"

definition modbus_flip_byte_bits :: "ptr \<Rightarrow> ('z cmem_scheme, unit) cm" where
  "modbus_flip_byte_bits p = bindm (load8 p) (\<lambda>b. store8 p (flip_bits b))"

definition modbus_flip_word :: "ptr \<Rightarrow> ('z cmem_scheme, unit) cm" where
  "modbus_flip_word p =
     bindm (load16 p) (\<lambda>tmp.
     bindm (store8 p (ucast (drop_bit 8 tmp))) (\<lambda>_.
     store8 (ptr_add p 1) (ucast tmp)))"

text \<open>The function code and the two 16-bit fields every request starts with.\<close>

definition load_be16 :: "ptr \<Rightarrow> ('z cmem_scheme, u16) cm" where
  "load_be16 p =
     bindm (load8 p) (\<lambda>hi.
     bindm (load8 (ptr_add p 1)) (\<lambda>lo. returnm (mk16 hi lo)))"

definition request_fields :: "ptr \<Rightarrow> ('z cmem_scheme, u8 \<times> u16 \<times> u16) cm" where
  "request_fields req =
     bindm (load8 req) (\<lambda>fc.
     bindm (load_be16 (ptr_add req 1)) (\<lambda>address.
     bindm (load_be16 (ptr_add req 3)) (\<lambda>quantity.
     returnm (fc, address, quantity))))"

definition modbus_write_request_handler ::
  "'a ModbusCallbacks \<Rightarrow> ptr \<Rightarrow> bufref \<Rightarrow> u8 \<Rightarrow> u8 \<Rightarrow> ('a mbstate, u8) cm" where
  "modbus_write_request_handler callbacks request_data send_buffer prepend_size append_size =
     bindm (request_fields request_data) (\<lambda>(function_code, output_address, output_value0).
     with_local (le16 output_value0) (\<lambda>output_value.
     bindm
       (if function_code = MODBUS_WRITE_SINGLE_COIL_FC \<and> write_bits callbacks \<noteq> None then
          bindm (load16 output_value) (\<lambda>v.
          with_local [if v = 0 then 0 else 1] (\<lambda>coil_data.
            the (write_bits callbacks) function_code MODBUS_DATA_TABLE_COILS output_address 1 coil_data))
        else if function_code = MODBUS_WRITE_SINGLE_REGISTER_FC \<and> write_words callbacks \<noteq> None then
          the (write_words callbacks) function_code MODBUS_DATA_TABLE_HOLDING_REGISTERS
            output_address 1 output_value
        else returnm MODBUS_ERROR_ILLEGAL_FUNCTION) (\<lambda>ret.
     if ret = MODBUS_ERROR_OK then
       bindm (alloc_response send_buffer (5 + ucast prepend_size + ucast append_size)) (\<lambda>buf.
       if buf = NULL then returnm MODBUS_ERROR_SERVER_DEVICE_FAILURE
       else
         bindm (store8 buf function_code) (\<lambda>_.
         bindm (store8 (ptr_add buf 1) (ucast (drop_bit 8 output_address))) (\<lambda>_.
         bindm (store8 (ptr_add buf 2) (ucast output_address)) (\<lambda>_.
         bindm (load16 output_value) (\<lambda>v.
         bindm (store8 (ptr_add buf 3) (ucast (drop_bit 8 v))) (\<lambda>_.
         bindm (load16 output_value) (\<lambda>v.
         bindm (store8 (ptr_add buf 4) (ucast v)) (\<lambda>_.
         returnm ret))))))))
     else returnm ret)))"

text \<open>The data table a read addresses, chosen by the function code.\<close>

definition word_table :: "u8 \<Rightarrow> u8" where
  "word_table function_code =
     (if function_code = MODBUS_READ_HOLDING_REGISTERS_FC
      then MODBUS_DATA_TABLE_HOLDING_REGISTERS else MODBUS_DATA_TABLE_INPUT_REGISTERS)"

definition bit_table :: "u8 \<Rightarrow> u8" where
  "bit_table function_code =
     (if function_code = MODBUS_READ_COILS_FC
      then MODBUS_DATA_TABLE_COILS else MODBUS_DATA_TABLE_DISCRETES_INPUT)"

definition modbus_read_word_request_handler ::
  "'a ModbusCallbacks \<Rightarrow> ptr \<Rightarrow> bufref \<Rightarrow> u8 \<Rightarrow> u8 \<Rightarrow> ('a mbstate, u8) cm" where
  "modbus_read_word_request_handler callbacks input_buffer output_buffer prepend_size append_size =
     bindm (request_fields input_buffer) (\<lambda>(function_code, starting_address, quantity_of_registers).
     let byte_count = (ucast (2 * quantity_of_registers) :: u8) in
     bindm (alloc_response output_buffer
              (2 + ucast byte_count + ucast prepend_size + ucast append_size)) (\<lambda>buf.
     if buf = NULL then returnm MODBUS_ERROR_SERVER_DEVICE_FAILURE
     else
       let register_value = ptr_add buf (unat prepend_size + 2) in
       bindm (memset register_value 0 (unat byte_count)) (\<lambda>_.
       bindm
         (case read_words callbacks of
            Some cb \<Rightarrow>
              cb function_code (word_table function_code)
                starting_address quantity_of_registers register_value
          | None \<Rightarrow> returnm MODBUS_ERROR_ILLEGAL_FUNCTION) (\<lambda>ret.
       if ret \<noteq> MODBUS_ERROR_OK then returnm ret
       else
         bindm (get_obuf output_buffer) (\<lambda>buf.
         let cursor = ptr_add buf (unat prepend_size) in
         bindm (store8 cursor function_code) (\<lambda>_.
         bindm (store8 (ptr_add cursor 1) byte_count) (\<lambda>_.
         bindm (form 0 (unat quantity_of_registers)
                  (\<lambda>i. modbus_flip_word (ptr_add register_value (2 * i)))) (\<lambda>_.
         returnm ret))))))))"

definition modbus_read_bit_request_handler ::
  "'a ModbusCallbacks \<Rightarrow> ptr \<Rightarrow> bufref \<Rightarrow> u8 \<Rightarrow> u8 \<Rightarrow> ('a mbstate, u8) cm" where
  "modbus_read_bit_request_handler callbacks request_data output_buffer prepend_size append_size =
     bindm (request_fields request_data) (\<lambda>(function_code, starting_address, quantity_of_inputs).
     let byte_count = (ucast (quantity_of_inputs div 8 + (if quantity_of_inputs mod 8 = 0 then 0 else 1)) :: u8) in
     bindm (alloc_response output_buffer
              (2 + ucast byte_count + ucast prepend_size + ucast append_size)) (\<lambda>buf.
     if buf = NULL then returnm MODBUS_ERROR_SERVER_DEVICE_FAILURE
     else
       let input_status = ptr_add buf (unat prepend_size + 2) in
       bindm (memset input_status 0 (unat byte_count)) (\<lambda>_.
       bindm
         (case read_bits callbacks of
            Some cb \<Rightarrow>
              cb function_code (bit_table function_code)
                starting_address quantity_of_inputs input_status
          | None \<Rightarrow> returnm MODBUS_ERROR_ILLEGAL_FUNCTION) (\<lambda>ret.
       if ret \<noteq> MODBUS_ERROR_OK then returnm ret
       else
         bindm (get_obuf output_buffer) (\<lambda>buf.
         let cursor = ptr_add buf (unat prepend_size) in
         bindm (store8 cursor function_code) (\<lambda>_.
         bindm (store8 (ptr_add cursor 1) byte_count) (\<lambda>_.
         bindm (form 0 (unat byte_count)
                  (\<lambda>i. modbus_flip_byte_bits (ptr_add cursor (2 + i)))) (\<lambda>_.
         returnm ret))))))))"

definition modbus_write_multiple_registers_request_handler ::
  "'a ModbusCallbacks \<Rightarrow> ptr \<Rightarrow> bufref \<Rightarrow> u8 \<Rightarrow> u8 \<Rightarrow> ('a mbstate, u8) cm" where
  "modbus_write_multiple_registers_request_handler callbacks input_buffer output_buffer prepend_size append_size =
     (case write_words callbacks of
        None \<Rightarrow> returnm MODBUS_ERROR_ILLEGAL_FUNCTION
      | Some cb \<Rightarrow>
          bindm (request_fields input_buffer) (\<lambda>(function_code, starting_address, quantity_of_registers).
          bindm (load8 (ptr_add input_buffer 5)) (\<lambda>byte_count.
          bindm (alloc_response output_buffer (5 + ucast prepend_size + ucast append_size)) (\<lambda>buf.
          if buf = NULL then returnm MODBUS_ERROR_SERVER_DEVICE_FAILURE
          else
            let registers_value = ptr_add input_buffer 6 in
            bindm (form 0 (unat byte_count)
                     (\<lambda>i. modbus_flip_word (ptr_add registers_value (2 * i)))) (\<lambda>_.
            bindm (cb function_code MODBUS_DATA_TABLE_HOLDING_REGISTERS
                     starting_address quantity_of_registers registers_value) (\<lambda>ret.
            bindm (get_obuf output_buffer) (\<lambda>buf.
            bindm (memcpy (ptr_add buf (unat prepend_size)) input_buffer 5) (\<lambda>_.
            returnm ret))))))))"

definition modbus_write_multiple_coils_request_handler ::
  "'a ModbusCallbacks \<Rightarrow> ptr \<Rightarrow> bufref \<Rightarrow> u8 \<Rightarrow> u8 \<Rightarrow> ('a mbstate, u8) cm" where
  "modbus_write_multiple_coils_request_handler callbacks input_buffer output_buffer prepend_size append_size =
     (case write_bits callbacks of
        None \<Rightarrow> returnm MODBUS_ERROR_ILLEGAL_FUNCTION
      | Some cb \<Rightarrow>
          bindm (request_fields input_buffer) (\<lambda>(function_code, starting_address, quantity_of_outputs).
          bindm (load8 (ptr_add input_buffer 5)) (\<lambda>byte_count.
          bindm (alloc_response output_buffer (5 + ucast prepend_size + ucast append_size)) (\<lambda>buf.
          if buf = NULL then returnm MODBUS_ERROR_SERVER_DEVICE_FAILURE
          else
            let outputs_value = ptr_add input_buffer 6 in
            bindm (form 0 (unat byte_count)
                     (\<lambda>i. modbus_flip_byte_bits (ptr_add outputs_value i))) (\<lambda>_.
            bindm (cb function_code MODBUS_DATA_TABLE_COILS
                     starting_address quantity_of_outputs outputs_value) (\<lambda>ret.
            bindm (get_obuf output_buffer) (\<lambda>buf.
            bindm (set_obuf output_buffer (ptr_add buf (unat prepend_size))) (\<lambda>_.
            bindm (get_obuf output_buffer) (\<lambda>buf.
            bindm (memcpy buf input_buffer 5) (\<lambda>_.
            returnm ret))))))))))"

definition modbus_read_write_multiple_registers_request_handler ::
  "'a ModbusCallbacks \<Rightarrow> ptr \<Rightarrow> bufref \<Rightarrow> u8 \<Rightarrow> u8 \<Rightarrow> ('a mbstate, u8) cm" where
  "modbus_read_write_multiple_registers_request_handler callbacks input_buffer output_buffer prepend_size append_size =
     (if read_words callbacks = None \<or> write_words callbacks = None
      then returnm MODBUS_ERROR_ILLEGAL_FUNCTION
      else
        bindm (modbus_write_multiple_coils_request_handler
                 callbacks input_buffer output_buffer prepend_size append_size) (\<lambda>ret.
        bindm (get_obuf output_buffer) (\<lambda>buf.
        bindm (if buf \<noteq> NULL then vPortFree buf else returnm ()) (\<lambda>_.
        if ret \<noteq> MODBUS_ERROR_OK then returnm ret
        else modbus_read_word_request_handler
               callbacks input_buffer output_buffer prepend_size append_size))))"

definition modbus_other_functions_request_handler ::
  "'a ModbusCallbacks \<Rightarrow> u8 \<Rightarrow> ptr \<Rightarrow> u32 \<Rightarrow> bufref \<Rightarrow> u8 \<Rightarrow> u8 \<Rightarrow> ('a mbstate, u8) cm" where
  "modbus_other_functions_request_handler callbacks function_code input_buffer input_size
       output_buffer prepend_size append_size =
     (case other_functions callbacks of
        None \<Rightarrow> returnm MODBUS_ERROR_ILLEGAL_FUNCTION
      | Some cb \<Rightarrow>
          bindm (get_obuf output_buffer) (\<lambda>buf.
          cb function_code input_buffer input_size buf prepend_size append_size))"

text \<open>
  The dispatcher. On an error it frees the response the handler left, sets both
  \<open>*output_buffer\<close> and \<open>output_buffer\<close> itself to \<open>NULL\<close>, and builds the error
  response through \<open>output_buffer\<close>.
\<close>

definition modbus_dispatch ::
  "'a ModbusCallbacks \<Rightarrow> ptr \<Rightarrow> u8 \<Rightarrow> bufref \<Rightarrow> u8 \<Rightarrow> u8 \<Rightarrow> ('a mbstate, u8) cm" where
  "modbus_dispatch callbacks input_buffer function_code output_buffer prepend_size append_size =
     (if function_code = MODBUS_READ_COILS_FC \<or> function_code = MODBUS_READ_DISCRETE_INPUTS_FC then
        modbus_read_bit_request_handler callbacks input_buffer output_buffer prepend_size append_size
      else if function_code = MODBUS_READ_HOLDING_REGISTERS_FC
              \<or> function_code = MODBUS_READ_INPUT_REGISTERS_FC then
        modbus_read_word_request_handler callbacks input_buffer output_buffer prepend_size append_size
      else if function_code = MODBUS_WRITE_SINGLE_COIL_FC
              \<or> function_code = MODBUS_WRITE_SINGLE_REGISTER_FC then
        modbus_write_request_handler callbacks input_buffer output_buffer prepend_size append_size
      else if function_code = MODBUS_WRITE_MULTIPLE_REGISTERS_FC then
        modbus_write_multiple_registers_request_handler
          callbacks input_buffer output_buffer prepend_size append_size
      else if function_code = MODBUS_WRITE_MULTIPLE_COILS_FC then
        modbus_write_multiple_coils_request_handler
          callbacks input_buffer output_buffer prepend_size append_size
      else if function_code = MODBUS_READ_WRITE_MULTIPLE_REGISTERS_FC then
        modbus_read_write_multiple_registers_request_handler
          callbacks input_buffer output_buffer prepend_size append_size
      else returnm MODBUS_ERROR_ILLEGAL_FUNCTION)"

definition modbus_handle_request ::
  "ptr \<Rightarrow> 'a ModbusCallbacks \<Rightarrow> bufref \<Rightarrow> u8 \<Rightarrow> u8 \<Rightarrow> ('a mbstate, u8) cm" where
  "modbus_handle_request input_buffer callbacks output_buffer prepend_size append_size =
     bindm (load8 input_buffer) (\<lambda>function_code.
     bindm (modbus_dispatch callbacks input_buffer function_code output_buffer prepend_size append_size) (\<lambda>ret.
     if ret \<noteq> MODBUS_ERROR_OK then
       bindm (get_obuf output_buffer) (\<lambda>buf.
       bindm
         (if buf \<noteq> NULL then
            bindm (vPortFree buf) (\<lambda>_.
            bindm (set_obuf output_buffer NULL) (\<lambda>_.
            returnm NullRef))
          else returnm output_buffer) (\<lambda>output_buffer.
       bindm (modbus_create_error_response output_buffer function_code ret prepend_size append_size) (\<lambda>_.
       returnm MODBUS_ERROR_OK)))
     else returnm MODBUS_ERROR_OK))"

section \<open>Running the primitive operations\<close>

lemma out_param_run [run_simps]:
  "set_obuf OutRef p \<sigma> = Inr ((), \<sigma>\<lparr>obuf := p\<rparr>)"
  "set_obuf NullRef p \<sigma> = Inl Null_Deref"
  "get_obuf OutRef \<sigma> = Inr (obuf \<sigma>, \<sigma>)"
  "get_obuf NullRef \<sigma> = Inl Null_Deref"
  "set_osize n \<sigma> = Inr ((), \<sigma>\<lparr>osize := n\<rparr>)"
  by (simp_all add: set_obuf_def get_obuf_def set_osize_def run_simps)

lemma load_be16_ok:
  "blocks \<sigma> b = Some bs \<Longrightarrow> Suc i < length bs \<Longrightarrow>
   load_be16 (Ptr b i) \<sigma> = Inr (mk16 (bs ! i) (bs ! Suc i), \<sigma>)"
  by (simp add: load_be16_def bindm_unfold load8_ok returnm_run)

lemma request_fields_ok:
  assumes "blocks \<sigma> b = Some bs" and "i + 5 \<le> length bs"
  shows "request_fields (Ptr b i) \<sigma> =
    Inr ((bs ! i, mk16 (bs ! (i + 1)) (bs ! (i + 2)), mk16 (bs ! (i + 3)) (bs ! (i + 4))), \<sigma>)"
  using assms
  by (simp add: request_fields_def bindm_unfold load8_ok load_be16_ok returnm_run numeral_eq_Suc)

text \<open>The state after the first two statements of a response, when memory is granted.\<close>

definition after_alloc :: "u16 \<Rightarrow> 'a mbstate \<Rightarrow> 'a mbstate" where
  "after_alloc n \<sigma> = (after_malloc (unat n) \<sigma>)\<lparr>obuf := Ptr (next_block \<sigma>) 0, osize := n\<rparr>"

lemma alloc_response_ok:
  "grants \<sigma> (next_block \<sigma>) (unat n) \<Longrightarrow> n \<noteq> 0 \<Longrightarrow>
   alloc_response OutRef n \<sigma> = Inr (Ptr (next_block \<sigma>) 0, after_alloc n \<sigma>)"
  by (simp add: alloc_response_def bindm_unfold run_simps pvPortMalloc_ok after_alloc_def
      after_malloc_def set_block_def new_block_def unat_gt_0)

lemma alloc_response_refused:
  "\<not> grants \<sigma> (next_block \<sigma>) (unat n) \<Longrightarrow>
   alloc_response OutRef n \<sigma> =
     Inr (NULL, \<sigma>\<lparr>next_block := Suc (next_block \<sigma>), obuf := NULL, osize := n\<rparr>)"
  by (simp add: alloc_response_def bindm_unfold run_simps pvPortMalloc_refused)

lemma alloc_response_NullRef: "alloc_response NullRef n \<sigma> = Inl Null_Deref"
  by (simp add: alloc_response_def bindm_unfold run_simps pvPortMalloc_def Let_def)

lemma modbus_create_error_response_NullRef:
  "modbus_create_error_response NullRef fc ec pre apd \<sigma> = Inl Null_Deref"
  by (simp add: modbus_create_error_response_def bindm_unfold alloc_response_NullRef)

section \<open>Byte and bit order\<close>

lemma modbus_flip_word_ok:
  assumes "blocks \<sigma> b = Some bs" and "Suc i < length bs"
  shows "modbus_flip_word (Ptr b i) \<sigma> = Inr ((), set_block b (upd_bytes bs i [bs ! Suc i, bs ! i]) \<sigma>)"
  using assms
  by (simp add: modbus_flip_word_def bindm_unfold load16_ok store8_ok upd_bytes_pair)

text \<open>\<open>modbus_flip_byte_bits\<close> reverses the bits of a byte.\<close>

lemma bit_push_bit_0_one: "bit (push_bit k (drop_bit i (b :: u8) AND 1)) j \<longleftrightarrow> k < 8 \<and> j = k \<and> bit b i"
  by (auto simp: bit_simps bit_1_iff)

lemma bit_flip_loop:
  "bit (fold (\<lambda>i flipped. flipped OR push_bit (7 - i) (drop_bit i b AND 1)) [0..<n] (0 :: u8)) j
     \<longleftrightarrow> (\<exists>i<n. j = 7 - i \<and> j < 8 \<and> bit b i)"
  by (induction n) (auto simp: bit_or_iff bit_push_bit_0_one less_Suc_eq simp del: push_bit_and)

lemma bit_flip_bits: "j < 8 \<Longrightarrow> bit (flip_bits b) j \<longleftrightarrow> bit b (7 - j)"
proof -
  assume j: "j < 8"
  have "bit (flip_bits b) j \<longleftrightarrow> (\<exists>i<8. j = 7 - i \<and> j < 8 \<and> bit b i)"
    unfolding flip_bits_def by (rule bit_flip_loop)
  also have "\<dots> \<longleftrightarrow> bit b (7 - j)"
    using j by (auto intro!: exI[of _ "7 - j"])
  finally show ?thesis .
qed

lemma flip_bits_involution [simp]: "flip_bits (flip_bits b) = b"
  by (rule bit_word_eqI) (simp add: bit_flip_bits)

lemma flip_bits_0 [simp]: "flip_bits 0 = 0"
  by (rule bit_word_eqI) (simp add: bit_flip_bits)

lemma modbus_flip_byte_bits_ok:
  "blocks \<sigma> b = Some bs \<Longrightarrow> i < length bs \<Longrightarrow>
   modbus_flip_byte_bits (Ptr b i) \<sigma> = Inr ((), set_block b (upd_bytes bs i [flip_bits (bs ! i)]) \<sigma>)"
  by (simp add: modbus_flip_byte_bits_def bindm_unfold load8_ok store8_ok upd_bytes_single)

section \<open>The byte-order loops\<close>

text \<open>
  The loops over the registers and over the bytes of bits: inside the block they
  swap or reverse exactly the elements they run over, and a loop that runs past the
  end of the block is a fault.
\<close>

lemma take_Suc_Suc_drop:
  "Suc k < length bs \<Longrightarrow> take (2 * Suc n) (drop k bs) = bs ! k # bs ! Suc k # take (2 * n) (drop (Suc (Suc k)) bs)"
  by (simp add: Cons_nth_drop_Suc[symmetric] Suc_lessD add_2_eq_Suc)

lemma flip_words_run:
  assumes "blocks \<sigma> b = Some bs" and "k + 2 * j + 2 * n \<le> length bs"
  shows "form j n (\<lambda>i. modbus_flip_word (Ptr b (k + 2 * i))) \<sigma> =
    Inr ((), set_block b (upd_bytes bs (k + 2 * j) (swap_pairs (take (2 * n) (drop (k + 2 * j) bs)))) \<sigma>)"
  using assms
proof (induction n arbitrary: j \<sigma> bs)
  case 0
  then show ?case by (simp add: run_simps set_block_same)
next
  case (Suc n)
  let ?o = "k + 2 * j"
  let ?bs1 = "upd_bytes bs ?o [bs ! Suc ?o, bs ! ?o]"
  have fits: "Suc ?o < length bs" using Suc.prems(2) by simp
  then have step: "modbus_flip_word (Ptr b ?o) \<sigma> = Inr ((), set_block b ?bs1 \<sigma>)"
    by (rule modbus_flip_word_ok[OF Suc.prems(1)])
  have len1: "length ?bs1 = length bs" using fits by simp
  have "form (Suc j) n (\<lambda>i. modbus_flip_word (Ptr b (k + 2 * i))) (set_block b ?bs1 \<sigma>) =
      Inr ((), set_block b (upd_bytes ?bs1 (k + 2 * Suc j)
        (swap_pairs (take (2 * n) (drop (k + 2 * Suc j) ?bs1)))) (set_block b ?bs1 \<sigma>))"
    by (rule Suc.IH) (use Suc.prems(2) len1 in simp_all)
  moreover have "drop (k + 2 * Suc j) ?bs1 = drop (Suc (Suc ?o)) bs"
    using fits by (simp add: drop_upd_bytes add_2_eq_Suc)
  moreover have "upd_bytes ?bs1 (k + 2 * Suc j) ys = upd_bytes bs ?o ([bs ! Suc ?o, bs ! ?o] @ ys)" for ys
    using upd_bytes_upd_bytes[of ?o "[bs ! Suc ?o, bs ! ?o]" bs ys] fits
    by (simp add: add_2_eq_Suc add_2_eq_Suc')
  ultimately show ?case
    using step fits by (simp add: bindm_unfold take_Suc_Suc_drop del: mult_Suc_right)
qed

lemma flip_words_out:
  assumes "blocks \<sigma> b = Some bs" and "k + 2 * j \<le> length bs" and "length bs < k + 2 * j + 2 * n"
  shows "form j n (\<lambda>i. modbus_flip_word (Ptr b (k + 2 * i))) \<sigma> = Inl Out_Of_Bounds"
  using assms
proof (induction n arbitrary: j \<sigma> bs)
  case 0
  then show ?case by simp
next
  case (Suc n)
  let ?o = "k + 2 * j"
  show ?case
  proof (cases "Suc ?o < length bs")
    case True
    let ?bs1 = "upd_bytes bs ?o [bs ! Suc ?o, bs ! ?o]"
    have "form (Suc j) n (\<lambda>i. modbus_flip_word (Ptr b (k + 2 * i))) (set_block b ?bs1 \<sigma>) = Inl Out_Of_Bounds"
      by (rule Suc.IH[where bs = ?bs1]) (use Suc.prems True in simp_all)
    with True show ?thesis
      by (simp add: bindm_unfold modbus_flip_word_ok[OF Suc.prems(1)])
  next
    case False
    then have "modbus_flip_word (Ptr b ?o) \<sigma> = Inl Out_Of_Bounds"
      using Suc.prems by (simp add: modbus_flip_word_def bindm_unfold load16_out)
    then show ?thesis by (simp add: bindm_unfold)
  qed
qed

lemma flip_bytes_run:
  assumes "blocks \<sigma> b = Some bs" and "k + j + n \<le> length bs"
  shows "form j n (\<lambda>i. modbus_flip_byte_bits (Ptr b (k + i))) \<sigma> =
    Inr ((), set_block b (upd_bytes bs (k + j) (map flip_bits (take n (drop (k + j) bs)))) \<sigma>)"
  using assms
proof (induction n arbitrary: j \<sigma> bs)
  case 0
  then show ?case by (simp add: run_simps set_block_same)
next
  case (Suc n)
  let ?o = "k + j"
  let ?bs1 = "upd_bytes bs ?o [flip_bits (bs ! ?o)]"
  have fits: "?o < length bs" using Suc.prems(2) by simp
  have "form (Suc j) n (\<lambda>i. modbus_flip_byte_bits (Ptr b (k + i))) (set_block b ?bs1 \<sigma>) =
      Inr ((), set_block b (upd_bytes ?bs1 (k + Suc j)
        (map flip_bits (take n (drop (k + Suc j) ?bs1)))) (set_block b ?bs1 \<sigma>))"
    by (rule Suc.IH) (use Suc.prems(2) fits in simp_all)
  moreover have "drop (k + Suc j) ?bs1 = drop (Suc ?o) bs"
    using fits by (simp add: drop_upd_bytes)
  moreover have "upd_bytes ?bs1 (k + Suc j) ys = upd_bytes bs ?o (flip_bits (bs ! ?o) # ys)" for ys
    using upd_bytes_upd_bytes[of ?o "[flip_bits (bs ! ?o)]" bs ys] fits by simp
  moreover have "take (Suc n) (drop ?o bs) = bs ! ?o # take n (drop (Suc ?o) bs)"
    using fits by (simp add: Cons_nth_drop_Suc[symmetric])
  ultimately show ?case
    using fits by (simp add: bindm_unfold modbus_flip_byte_bits_ok[OF Suc.prems(1)])
qed

section \<open>Reading words: the contract of the callback\<close>

lemma set_block_mbstate [simp]:
  "obuf (set_block b bs \<sigma>) = obuf \<sigma>"
  "osize (set_block b bs \<sigma>) = osize \<sigma>"
  "sent (set_block b bs \<sigma>) = sent \<sigma>"
  "app (set_block b bs \<sigma>) = app \<sigma>"
  by (simp_all add: set_block_def)

lemma after_alloc_simps [simp]:
  "blocks (after_alloc n \<sigma>) = (blocks \<sigma>)(next_block \<sigma> \<mapsto> new_block (unat n) \<sigma>)"
  "next_block (after_alloc n \<sigma>) = Suc (next_block \<sigma>)"
  "grants (after_alloc n \<sigma>) = grants \<sigma>"
  "obuf (after_alloc n \<sigma>) = Ptr (next_block \<sigma>) 0"
  "osize (after_alloc n \<sigma>) = n"
  "sent (after_alloc n \<sigma>) = sent \<sigma>"
  "app (after_alloc n \<sigma>) = app \<sigma>"
  by (simp_all add: after_alloc_def after_malloc_def set_block_def)

text \<open>
  What a read handler needs of its callback: given a buffer of \<open>bytes q\<close> bytes it
  may change these bytes, and nothing else, and returns a code. The words handler
  passes two bytes per register, the bits handler one byte per eight bits.
\<close>

locale data_reader =
  fixes cb :: "'a data_cb"
    and bytes :: "u16 \<Rightarrow> nat"
    and result :: "'a \<Rightarrow> u8 \<Rightarrow> u16 \<Rightarrow> u16 \<Rightarrow> u8"
    and content :: "'a \<Rightarrow> u8 \<Rightarrow> u16 \<Rightarrow> u16 \<Rightarrow> u8 list \<Rightarrow> u8 list"
  assumes cb_run: "blocks \<sigma> b = Some bs \<Longrightarrow> i + bytes q \<le> length bs \<Longrightarrow>
      cb fc tbl a q (Ptr b i) \<sigma> =
        Inr (result (app \<sigma>) tbl a q,
             set_block b (upd_bytes bs i (content (app \<sigma>) tbl a q (take (bytes q) (drop i bs)))) \<sigma>)"
    and content_length: "length old = bytes q \<Longrightarrow> length (content s tbl a q old) = bytes q"
begin

lemma cb_on_zeroed:
  assumes b: "blocks \<sigma> b = Some (upd_bytes bs i (replicate (bytes q) 0))" and "i + bytes q \<le> length bs"
  shows "cb fc tbl a q (Ptr b i) \<sigma> =
    Inr (result (app \<sigma>) tbl a q,
         set_block b (upd_bytes bs i (content (app \<sigma>) tbl a q (replicate (bytes q) 0))) \<sigma>)"
  using assms take_drop_upd_bytes[of i "replicate (bytes q) 0" bs]
  by (subst cb_run[OF b]) (simp_all add: upd_bytes_overwrite content_length)

end

locale word_reader = data_reader cb "\<lambda>q. 2 * unat q" result content
  for cb :: "'a data_cb" and result content

locale bit_reader = data_reader cb "\<lambda>q. (unat q + 7) div 8" result content
  for cb :: "'a data_cb" and result content

lemma unat_byte_count: "unat (q :: u16) \<le> 127 \<Longrightarrow> unat (ucast (2 * q) :: u8) = 2 * unat q"
  by (simp add: unsigned_ucast_eq take_bit_eq_mod unat_word_ariths)

lemma unat_response_size:
  "unat (2 + ucast (bc :: u8) + ucast (pre :: u8) + ucast (apd :: u8) :: u16) = 2 + unat bc + unat pre + unat apd"
proof -
  have "2 + unat bc + unat pre + unat apd < 65536"
    using unat_u8_less[of bc] unat_u8_less[of pre] unat_u8_less[of apd] by linarith
  then show ?thesis
    by (simp add: unat_word_ariths unat_ucast_u8_u16 mod_simps)
qed

lemma unat_echo_size:
  "unat (5 + ucast (pre :: u8) + ucast (apd :: u8) :: u16) = 5 + unat pre + unat apd"
proof -
  have "5 + unat pre + unat apd < 65536"
    using unat_u8_less[of pre] unat_u8_less[of apd] by linarith
  then show ?thesis
    by (simp add: unat_word_ariths unat_ucast_u8_u16 mod_simps)
qed

context word_reader
begin

lemma read_word_request_run:
  fixes pre apd :: u8
  assumes req: "blocks \<sigma> b = Some bs" "i + 5 \<le> length bs" "bs ! i = fc"
      "mk16 (bs ! (i + 1)) (bs ! (i + 2)) = a" "mk16 (bs ! (i + 3)) (bs ! (i + 4)) = q"
    and fits: "unat q \<le> 127"
    and grant: "grants \<sigma> (next_block \<sigma>) (2 + 2 * unat q + unat pre + unat apd)"
    and cbs: "read_words cbs = Some cb"
    and ok: "result (app \<sigma>) (word_table fc) a q = 0"
  defines "n \<equiv> (2 + ucast (ucast (2 * q) :: u8) + ucast pre + ucast apd :: u16)"
  shows "modbus_read_word_request_handler cbs (Ptr b i) OutRef pre apd \<sigma> =
    Inr (0, set_block (next_block \<sigma>)
       (upd_bytes (new_block (unat n) \<sigma>) (unat pre)
          ([fc, ucast (2 * q)] @ swap_pairs (content (app \<sigma>) (word_table fc) a q (replicate (2 * unat q) 0))))
       (after_alloc n \<sigma>))"
proof -
  let ?nb = "next_block \<sigma>" and ?m = "2 * unat q"
  let ?new = "new_block (unat n) \<sigma>"
  let ?c = "content (app \<sigma>) (word_table fc) a q (replicate ?m 0)"
  have bc: "unat (ucast (2 * q) :: u8) = ?m" using fits by (rule unat_byte_count)
  have n: "unat n = 2 + ?m + unat pre + unat apd"
    unfolding n_def by (simp only: unat_response_size bc)
  have n0: "n \<noteq> 0" using n by (metis add_is_0 unat_0 zero_neq_numeral)
  have len: "length ?c = ?m" by (rule content_length) simp
  have alloc: "alloc_response OutRef n \<sigma> = Inr (Ptr ?nb 0, after_alloc n \<sigma>)"
    by (rule alloc_response_ok) (use grant n n0 in simp_all)
  let ?o = "unat pre + 2"
  let ?\<sigma>n = "after_alloc n \<sigma>"
  let ?B = "\<lambda>xs. upd_bytes ?new ?o xs"
  let ?H = "[fc, ucast (2 * q)]"
  have fits_new: "?o + ?m \<le> length ?new" using n by simp
  have zeroed: "memset (Ptr ?nb ?o) 0 ?m ?\<sigma>n = Inr ((), set_block ?nb (?B (replicate ?m 0)) ?\<sigma>n)"
    by (rule memset_ok) (use fits_new in auto)
  have called: "cb fc (word_table fc) a q (Ptr ?nb ?o) (set_block ?nb (?B (replicate ?m 0)) ?\<sigma>n) =
      Inr (0, set_block ?nb (?B ?c) ?\<sigma>n)"
    using fits_new ok by (subst cb_on_zeroed[where bs = ?new]) simp_all
  have header: "(?B ?c)[unat pre := fc, Suc (unat pre) := ucast (2 * q)] = upd_bytes ?new (unat pre) (?H @ ?c)"
    using fits_new len upd_bytes_prepend[of "unat pre" ?H ?c ?new]
    by (subst upd_bytes_pair) (simp_all add: numeral_2_eq_2)
  have flipped: "form 0 (unat q) (\<lambda>i. modbus_flip_word (Ptr ?nb (?o + 2 * i)))
      (set_block ?nb (upd_bytes ?new (unat pre) (?H @ ?c)) ?\<sigma>n) =
      Inr ((), set_block ?nb (upd_bytes ?new (unat pre) (?H @ swap_pairs ?c)) ?\<sigma>n)"
  proof -
    let ?X = "upd_bytes ?new (unat pre) (?H @ ?c)"
    have "take ?m (drop ?o ?X) = ?c"
      using fits_new len by (simp add: upd_bytes_def)
    moreover have "upd_bytes ?X ?o (swap_pairs ?c) = upd_bytes ?new (unat pre) (?H @ swap_pairs ?c)"
      using fits_new len upd_bytes_replace_tail[of "unat pre" ?H ?c ?new "swap_pairs ?c"]
      by (simp add: numeral_2_eq_2)
    ultimately show ?thesis
      using fits_new len by (subst flip_words_run[where bs = ?X]) simp_all
  qed
  show ?thesis
    using req cbs fits_new len
    by (simp add: modbus_read_word_request_handler_def bindm_unfold request_fields_ok Let_def
        n_def[symmetric] alloc run_simps bc zeroed called store8_ok header[simplified] flipped[simplified])
qed

text \<open>If the callback reports an error the handler returns it at once, the response allocated.\<close>

lemma read_word_request_failed_run:
  fixes pre apd :: u8
  assumes req: "blocks \<sigma> b = Some bs" "i + 5 \<le> length bs" "bs ! i = fc"
      "mk16 (bs ! (i + 1)) (bs ! (i + 2)) = a" "mk16 (bs ! (i + 3)) (bs ! (i + 4)) = q"
    and fits: "unat q \<le> 127"
    and grant: "grants \<sigma> (next_block \<sigma>) (2 + 2 * unat q + unat pre + unat apd)"
    and cbs: "read_words cbs = Some cb"
    and failed: "result (app \<sigma>) (word_table fc) a q \<noteq> 0"
  shows "\<exists>\<sigma>1. modbus_read_word_request_handler cbs (Ptr b i) OutRef pre apd \<sigma> =
      Inr (result (app \<sigma>) (word_table fc) a q, \<sigma>1) \<and>
    obuf \<sigma>1 = Ptr (next_block \<sigma>) 0 \<and> blocks \<sigma>1 (next_block \<sigma>) \<noteq> None"
proof -
  let ?nb = "next_block \<sigma>" and ?m = "2 * unat q"
  define n :: u16 where "n = 2 + ucast (ucast (2 * q) :: u8) + ucast pre + ucast apd"
  let ?new = "new_block (unat n) \<sigma>" and ?o = "unat pre + 2" and ?\<sigma>n = "after_alloc n \<sigma>"
  have bc: "unat (ucast (2 * q) :: u8) = ?m" using fits by (rule unat_byte_count)
  have n: "unat n = 2 + ?m + unat pre + unat apd"
    unfolding n_def by (simp only: unat_response_size bc)
  have n0: "n \<noteq> 0" using n by (metis add_is_0 unat_0 zero_neq_numeral)
  have alloc: "alloc_response OutRef n \<sigma> = Inr (Ptr ?nb 0, ?\<sigma>n)"
    by (rule alloc_response_ok) (use grant n n0 in simp_all)
  let ?B = "\<lambda>xs. upd_bytes ?new ?o xs"
  have fits_new: "?o + ?m \<le> length ?new" using n by simp
  have zeroed: "memset (Ptr ?nb ?o) 0 ?m ?\<sigma>n = Inr ((), set_block ?nb (?B (replicate ?m 0)) ?\<sigma>n)"
    by (rule memset_ok) (use fits_new in auto)
  have called: "cb fc (word_table fc) a q (Ptr ?nb ?o) (set_block ?nb (?B (replicate ?m 0)) ?\<sigma>n) =
      Inr (result (app \<sigma>) (word_table fc) a q,
        set_block ?nb (?B (content (app \<sigma>) (word_table fc) a q (replicate ?m 0))) ?\<sigma>n)"
    using fits_new by (subst cb_on_zeroed[where bs = ?new]) simp_all
  show ?thesis
    using req cbs failed
    by (simp add: modbus_read_word_request_handler_def bindm_unfold request_fields_ok Let_def
        n_def[symmetric] alloc run_simps bc zeroed called)
qed

end

lemma unat_bit_byte_count:
  fixes q :: u16
  assumes "unat q \<le> 2040"
  shows "unat (ucast (q div 8 + (if q mod 8 = 0 then 0 else 1)) :: u8) = (unat q + 7) div 8"
proof -
  have "q mod 8 = 0 \<longleftrightarrow> unat q mod 8 = 0"
    by (simp add: word_unat_eq_iff unat_mod_distrib)
  then have "unat (q div 8 + (if q mod 8 = 0 then 0 else 1)) =
      (unat q div 8 + (if unat q mod 8 = 0 then 0 else 1)) mod 65536"
    by (simp add: unat_word_ariths unat_div_distrib mod_Suc_eq)
  also have "\<dots> = (unat q + 7) div 8"
    using assms by (simp add: mod_less) presburger
  finally show ?thesis
    using assms by (simp add: unsigned_ucast_eq take_bit_eq_mod mod_less)
qed

context bit_reader
begin

lemma read_bit_request_run:
  fixes pre apd :: u8
  assumes req: "blocks \<sigma> b = Some bs" "i + 5 \<le> length bs" "bs ! i = fc"
      "mk16 (bs ! (i + 1)) (bs ! (i + 2)) = a" "mk16 (bs ! (i + 3)) (bs ! (i + 4)) = q"
    and fits: "unat q \<le> 2040"
    and grant: "grants \<sigma> (next_block \<sigma>) (2 + (unat q + 7) div 8 + unat pre + unat apd)"
    and cbs: "read_bits cbs = Some cb"
    and ok: "result (app \<sigma>) (bit_table fc) a q = 0"
  defines "bc \<equiv> (ucast (q div 8 + (if q mod 8 = 0 then 0 else 1)) :: u8)"
  defines "n \<equiv> (2 + ucast bc + ucast pre + ucast apd :: u16)"
  shows "modbus_read_bit_request_handler cbs (Ptr b i) OutRef pre apd \<sigma> =
    Inr (0, set_block (next_block \<sigma>)
       (upd_bytes (new_block (unat n) \<sigma>) (unat pre)
          ([fc, bc] @ map flip_bits (content (app \<sigma>) (bit_table fc) a q (replicate ((unat q + 7) div 8) 0))))
       (after_alloc n \<sigma>))"
proof -
  let ?nb = "next_block \<sigma>" and ?m = "(unat q + 7) div 8"
  let ?new = "new_block (unat n) \<sigma>" and ?o = "unat pre + 2" and ?\<sigma>n = "after_alloc n \<sigma>"
  let ?c = "content (app \<sigma>) (bit_table fc) a q (replicate ?m 0)"
  let ?B = "\<lambda>xs. upd_bytes ?new ?o xs" and ?H = "[fc, bc]"
  have bc: "unat bc = ?m" unfolding bc_def by (rule unat_bit_byte_count[OF fits])
  have n: "unat n = 2 + ?m + unat pre + unat apd"
    unfolding n_def by (simp only: unat_response_size bc)
  have n0: "n \<noteq> 0" using n by (metis add_is_0 unat_0 zero_neq_numeral)
  have len: "length ?c = ?m" by (rule content_length) simp
  have alloc: "alloc_response OutRef n \<sigma> = Inr (Ptr ?nb 0, ?\<sigma>n)"
    by (rule alloc_response_ok) (use grant n n0 in simp_all)
  have fits_new: "?o + ?m \<le> length ?new" using n by simp
  have zeroed: "memset (Ptr ?nb ?o) 0 ?m ?\<sigma>n = Inr ((), set_block ?nb (?B (replicate ?m 0)) ?\<sigma>n)"
    by (rule memset_ok) (use fits_new in auto)
  have called: "cb fc (bit_table fc) a q (Ptr ?nb ?o) (set_block ?nb (?B (replicate ?m 0)) ?\<sigma>n) =
      Inr (0, set_block ?nb (?B ?c) ?\<sigma>n)"
    using fits_new ok by (subst cb_on_zeroed[where bs = ?new]) simp_all
  have header: "(?B ?c)[unat pre := fc, Suc (unat pre) := bc] = upd_bytes ?new (unat pre) (?H @ ?c)"
    using fits_new len upd_bytes_prepend[of "unat pre" ?H ?c ?new]
    by (subst upd_bytes_pair) (simp_all add: numeral_2_eq_2)
  have flipped: "form 0 ?m (\<lambda>i. modbus_flip_byte_bits (Ptr ?nb (?o + i)))
      (set_block ?nb (upd_bytes ?new (unat pre) (?H @ ?c)) ?\<sigma>n) =
      Inr ((), set_block ?nb (upd_bytes ?new (unat pre) (?H @ map flip_bits ?c)) ?\<sigma>n)"
  proof -
    let ?X = "upd_bytes ?new (unat pre) (?H @ ?c)"
    have "take ?m (drop ?o ?X) = ?c"
      using fits_new len by (simp add: upd_bytes_def)
    moreover have "upd_bytes ?X ?o (map flip_bits ?c) = upd_bytes ?new (unat pre) (?H @ map flip_bits ?c)"
      using fits_new len upd_bytes_replace_tail[of "unat pre" ?H ?c ?new "map flip_bits ?c"]
      by (simp add: numeral_2_eq_2)
    ultimately show ?thesis
      using fits_new len by (subst flip_bytes_run[where bs = ?X]) simp_all
  qed
  show ?thesis
    using req cbs fits_new len
    by (simp add: modbus_read_bit_request_handler_def bindm_unfold request_fields_ok Let_def
        bc_def[symmetric] n_def[symmetric] alloc run_simps bc zeroed called store8_ok
        header[simplified] flipped[simplified] add.assoc[symmetric])
qed

end

section \<open>Exception responses\<close>

lemma modbus_create_error_response_ok:
  fixes pre apd :: u8
  assumes "grants \<sigma> (next_block \<sigma>) (2 + unat pre + unat apd)"
  defines "n \<equiv> (2 + ucast pre + ucast apd :: u16)"
  shows "modbus_create_error_response OutRef fc ec pre apd \<sigma> =
    Inr ((), set_block (next_block \<sigma>)
      (upd_bytes (new_block (unat n) \<sigma>) (unat pre) [fc + 0x80, ec]) (after_alloc n \<sigma>))"
proof -
  have n: "unat n = 2 + unat pre + unat apd"
    unfolding n_def using unat_response_size[of 0 pre apd] by simp
  have n0: "n \<noteq> 0" using n by (metis add_is_0 unat_0 zero_neq_numeral)
  have "alloc_response OutRef n \<sigma> = Inr (Ptr (next_block \<sigma>) 0, after_alloc n \<sigma>)"
    by (rule alloc_response_ok) (use assms n n0 in simp_all)
  then show ?thesis
    using n by (simp add: modbus_create_error_response_def bindm_unfold n_def[symmetric] Let_def
        store8_ok upd_bytes_pair)
qed

lemma modbus_create_error_response_refused:
  assumes "\<not> grants \<sigma> (next_block \<sigma>) (2 + unat pre + unat apd)"
  shows "modbus_create_error_response OutRef fc ec pre apd \<sigma> =
    Inr ((), \<sigma>\<lparr>next_block := Suc (next_block \<sigma>), obuf := NULL, osize := 0\<rparr>)"
proof -
  have "unat (2 + ucast pre + ucast apd :: u16) = 2 + unat pre + unat apd"
    using unat_response_size[of 0 pre apd] by simp
  with assms show ?thesis
    by (simp add: modbus_create_error_response_def bindm_unfold alloc_response_refused run_simps)
qed

text \<open>
  A handler that fails before it has allocated a response (\<open>*output_buffer\<close> still
  \<open>NULL\<close>) leads to the exception response; one that fails after it leads to a write
  through the \<open>NULL\<close> pointer the dispatcher has just made.
\<close>

lemma handle_request_error_clean:
  assumes "load8 inp \<sigma> = Inr (fc, \<sigma>)"
    and "modbus_dispatch cbs inp fc OutRef pre apd \<sigma> = Inr (ec, \<sigma>')" and "ec \<noteq> 0"
    and "obuf \<sigma>' = NULL"
  shows "modbus_handle_request inp cbs OutRef pre apd \<sigma> =
    bindm (modbus_create_error_response OutRef fc ec pre apd) (\<lambda>_. returnm 0) \<sigma>'"
  using assms by (simp add: modbus_handle_request_def bindm_unfold run_simps)

lemma handle_request_error_crash:
  assumes "load8 inp \<sigma> = Inr (fc, \<sigma>)"
    and "modbus_dispatch cbs inp fc OutRef pre apd \<sigma> = Inr (ec, \<sigma>')" and "ec \<noteq> 0"
    and "obuf \<sigma>' = Ptr b 0" and "blocks \<sigma>' b \<noteq> None"
  shows "modbus_handle_request inp cbs OutRef pre apd \<sigma> = Inl Null_Deref"
  using assms
  by (auto simp: modbus_handle_request_def bindm_unfold run_simps vPortFree_ok
      modbus_create_error_response_NullRef)

lemma handle_request_ok:
  assumes "load8 inp \<sigma> = Inr (fc, \<sigma>)"
    and "modbus_dispatch cbs inp fc OutRef pre apd \<sigma> = Inr (0, \<sigma>')"
  shows "modbus_handle_request inp cbs OutRef pre apd \<sigma> = Inr (0, \<sigma>')"
  using assms by (simp add: modbus_handle_request_def bindm_unfold run_simps)

lemma handle_request_fault:
  assumes "load8 inp \<sigma> = Inr (fc, \<sigma>)"
    and "modbus_dispatch cbs inp fc OutRef pre apd \<sigma> = Inl e"
  shows "modbus_handle_request inp cbs OutRef pre apd \<sigma> = Inl e"
  using assms by (simp add: modbus_handle_request_def bindm_unfold)

section \<open>Writing: the contract of the callback\<close>

text \<open>
  A write callback reads the \<open>bytes q\<close> bytes it is given, may change the state of
  the application, and returns a code.
\<close>

locale data_writer =
  fixes cb :: "'a data_cb"
    and bytes :: "u16 \<Rightarrow> nat"
    and result :: "'a \<Rightarrow> u8 \<Rightarrow> u16 \<Rightarrow> u16 \<Rightarrow> u8 list \<Rightarrow> u8"
    and stored :: "'a \<Rightarrow> u8 \<Rightarrow> u16 \<Rightarrow> u16 \<Rightarrow> u8 list \<Rightarrow> 'a"
  assumes cb_run: "blocks \<sigma> b = Some bs \<Longrightarrow> i + bytes q \<le> length bs \<Longrightarrow>
      cb fc tbl a q (Ptr b i) \<sigma> =
        Inr (result (app \<sigma>) tbl a q (take (bytes q) (drop i bs)),
             \<sigma>\<lparr>app := stored (app \<sigma>) tbl a q (take (bytes q) (drop i bs))\<rparr>)"

context data_writer
begin

text \<open>Writing several registers (function 16): the callback is given the request's bytes, swapped in pairs.\<close>

lemma write_multiple_registers_run:
  fixes pre apd :: u8
  assumes req: "blocks \<sigma> b = Some bs" "bs ! i = fc"
      "mk16 (bs ! (i + 1)) (bs ! (i + 2)) = a" "mk16 (bs ! (i + 3)) (bs ! (i + 4)) = q"
      "bs ! (i + 5) = bc"
    and fits: "i + 6 + 2 * unat bc \<le> length bs" and enough: "bytes q \<le> 2 * unat bc"
    and wf: "wf_mem \<sigma>"
    and grant: "grants \<sigma> (next_block \<sigma>) (5 + unat pre + unat apd)"
    and cbs: "write_words cbs = Some cb"
  defines "n \<equiv> (5 + ucast pre + ucast apd :: u16)"
  defines "bs' \<equiv> upd_bytes bs (i + 6) (swap_pairs (take (2 * unat bc) (drop (i + 6) bs)))"
  defines "d \<equiv> take (bytes q) (swap_pairs (take (2 * unat bc) (drop (i + 6) bs)))"
  shows "modbus_write_multiple_registers_request_handler cbs (Ptr b i) OutRef pre apd \<sigma> =
    Inr (result (app \<sigma>) 4 a q d,
      set_block (next_block \<sigma>) (upd_bytes (new_block (unat n) \<sigma>) (unat pre) (take 5 (drop i bs)))
        (set_block b bs' (after_alloc n \<sigma>)\<lparr>app := stored (app \<sigma>) 4 a q d\<rparr>))"
proof -
  let ?nb = "next_block \<sigma>" and ?new = "new_block (unat n) \<sigma>" and ?\<sigma>n = "after_alloc n \<sigma>"
  let ?data = "take (bytes q) (drop (i + 6) bs')"
  have other: "?nb \<noteq> b" using wf req(1) wf_mem_next[OF wf] by auto
  have n: "unat n = 5 + unat pre + unat apd" unfolding n_def by (rule unat_echo_size)
  have n0: "n \<noteq> 0" using n by (metis add_is_0 unat_0 zero_neq_numeral)
  have alloc: "alloc_response OutRef n \<sigma> = Inr (Ptr ?nb 0, ?\<sigma>n)"
    by (rule alloc_response_ok) (use grant n n0 in simp_all)
  have b1: "blocks ?\<sigma>n b = Some bs" using other req(1) by simp
  have flipped: "form 0 (unat bc) (\<lambda>k. modbus_flip_word (Ptr b (i + 6 + 2 * k))) ?\<sigma>n =
      Inr ((), set_block b bs' ?\<sigma>n)"
    unfolding bs'_def by (subst flip_words_run[OF b1]) (use fits in simp_all)
  have len': "length bs' = length bs" unfolding bs'_def using fits by simp
  have d: "?data = d"
    unfolding bs'_def d_def using fits enough
    by (simp add: drop_upd_bytes_at min_absorb2)
  have called: "cb fc 4 a q (Ptr b (i + 6)) (set_block b bs' ?\<sigma>n) =
      Inr (result (app \<sigma>) 4 a q d, set_block b bs' ?\<sigma>n\<lparr>app := stored (app \<sigma>) 4 a q d\<rparr>)"
    using fits enough len' d by (subst cb_run[where bs = bs']) simp_all
  have echo: "take 5 (drop i bs') = take 5 (drop i bs)"
    unfolding bs'_def by (rule nth_equalityI) (use fits in \<open>auto simp: nth_upd_bytes\<close>)
  show ?thesis
    using req fits other n len'
    by (simp add: modbus_write_multiple_registers_request_handler_def cbs bindm_unfold request_fields_ok
        load8_ok Let_def n_def[symmetric] alloc run_simps flipped called memcpy_ok echo)
qed

text \<open>
  Writing several coils (functions 15 and 23): the handler stores the advanced pointer
  back into \<open>*output_buffer\<close>, so that the caller no longer has the start of the block.
\<close>

lemma write_multiple_coils_run:
  fixes pre apd :: u8
  assumes req: "blocks \<sigma> b = Some bs" "i + 6 \<le> length bs"
      "mk16 (bs ! (i + 3)) (bs ! (i + 4)) = q" "bs ! (i + 5) = bc"
    and fits: "i + 6 + unat bc \<le> length bs" "i + 6 + bytes q \<le> length bs"
    and wf: "wf_mem \<sigma>"
    and grant: "grants \<sigma> (next_block \<sigma>) (5 + unat pre + unat apd)"
    and cbs: "write_bits cbs = Some cb"
  shows "\<exists>r \<sigma>1 out. modbus_write_multiple_coils_request_handler cbs (Ptr b i) OutRef pre apd \<sigma> = Inr (r, \<sigma>1) \<and>
    obuf \<sigma>1 = Ptr (next_block \<sigma>) (unat pre) \<and> blocks \<sigma>1 (next_block \<sigma>) = Some out \<and>
    length out = 5 + unat pre + unat apd"
proof -
  let ?nb = "next_block \<sigma>"
  define n :: u16 where "n = 5 + ucast pre + ucast apd"
  let ?\<sigma>n = "after_alloc n \<sigma>"
  have other: "?nb \<noteq> b" using wf req(1) wf_mem_next[OF wf] by auto
  have n: "unat n = 5 + unat pre + unat apd" unfolding n_def by (rule unat_echo_size)
  have n0: "n \<noteq> 0" using n by (metis add_is_0 unat_0 zero_neq_numeral)
  have alloc: "alloc_response OutRef n \<sigma> = Inr (Ptr ?nb 0, ?\<sigma>n)"
    by (rule alloc_response_ok) (use grant n n0 in simp_all)
  have b1: "blocks ?\<sigma>n b = Some bs" using other req(1) by simp
  define bs' where "bs' = upd_bytes bs (i + 6) (map flip_bits (take (unat bc) (drop (i + 6) bs)))"
  have len': "length bs' = length bs" unfolding bs'_def using fits by simp
  have flipped: "form 0 (unat bc) (\<lambda>k. modbus_flip_byte_bits (Ptr b (i + 6 + k))) ?\<sigma>n =
      Inr ((), set_block b bs' ?\<sigma>n)"
    unfolding bs'_def by (subst flip_bytes_run[OF b1]) (use fits in simp_all)
  define d where "d = take (bytes q) (drop (i + 6) bs')"
  have called: "cb fc 2 a q (Ptr b (i + 6)) (set_block b bs' ?\<sigma>n) =
      Inr (result (app \<sigma>) 2 a q d, set_block b bs' ?\<sigma>n\<lparr>app := stored (app \<sigma>) 2 a q d\<rparr>)" for fc a
    using fits len' unfolding d_def by (subst cb_run[where bs = bs']) simp_all
  show ?thesis
    using req fits other n len'
    by (simp add: modbus_write_multiple_coils_request_handler_def cbs bindm_unfold request_fields_ok
        load8_ok Let_def n_def[symmetric] alloc run_simps flipped called memcpy_ok)
qed

text \<open>
  Writing one register (function 6): the response is written at the start of the
  block, not after the \<open>prepend_size\<close> bytes the caller reserved for its header.
\<close>

lemma write_single_register_run:
  fixes pre apd :: u8
  assumes req: "blocks \<sigma> b = Some bs" "i + 5 \<le> length bs" "bs ! i = 6"
      "mk16 (bs ! (i + 1)) (bs ! (i + 2)) = a" "mk16 (bs ! (i + 3)) (bs ! (i + 4)) = v"
    and wf: "wf_mem \<sigma>"
    and grant: "grants \<sigma> (Suc (next_block \<sigma>)) (5 + unat pre + unat apd)"
    and cbs: "write_words cbs = Some cb" and two: "bytes 1 \<le> 2"
    and ok: "result (app \<sigma>) 4 a 1 (take (bytes 1) (le16 v)) = 0"
  defines "n \<equiv> (5 + ucast pre + ucast apd :: u16)"
  shows "\<exists>\<sigma>'. modbus_write_request_handler cbs (Ptr b i) OutRef pre apd \<sigma> = Inr (0, \<sigma>') \<and>
    blocks \<sigma>' = (blocks \<sigma>)(Suc (next_block \<sigma>) \<mapsto>
      upd_bytes (map (junk \<sigma> (Suc (next_block \<sigma>))) [0..<unat n]) 0 (6 # be16 a @ be16 v)) \<and>
    next_block \<sigma>' = next_block \<sigma> + 2 \<and> obuf \<sigma>' = Ptr (Suc (next_block \<sigma>)) 0 \<and> osize \<sigma>' = n \<and>
    sent \<sigma>' = sent \<sigma> \<and> app \<sigma>' = stored (app \<sigma>) 4 a 1 (take (bytes 1) (le16 v))"
proof -
  let ?l = "next_block \<sigma>" and ?r = "Suc (next_block \<sigma>)"
  let ?\<sigma>l = "(set_block ?l (le16 v) \<sigma>)\<lparr>next_block := ?r\<rparr>"
  let ?\<sigma>c = "?\<sigma>l\<lparr>app := stored (app \<sigma>) 4 a 1 (take (bytes 1) (le16 v))\<rparr>"
  let ?new = "map (junk \<sigma> ?r) [0..<unat n]"
  have n: "unat n = 5 + unat pre + unat apd" unfolding n_def by (rule unat_echo_size)
  have n0: "n \<noteq> 0" using n by (metis add_is_0 unat_0 zero_neq_numeral)
  have called: "cb 6 4 a 1 (Ptr ?l 0) ?\<sigma>l = Inr (0, ?\<sigma>c)"
    using ok two by (subst cb_run[where bs = "le16 v"]) (simp_all add: set_block_def)
  have alloc: "alloc_response OutRef n ?\<sigma>c = Inr (Ptr ?r 0, after_alloc n ?\<sigma>c)"
    using alloc_response_ok[of ?\<sigma>c n] grant n n0 by simp
  have new: "new_block (unat n) ?\<sigma>c = ?new" by (simp add: new_block_def)
  have echo: "?new[0 := 6, Suc 0 := ucast (drop_bit 8 a), 2 := ucast a, 3 := ucast (drop_bit 8 v), 4 := ucast v] =
      upd_bytes ?new 0 (6 # be16 a @ be16 v)"
    using n by (intro nth_equalityI) (auto simp: nth_upd_bytes nth_list_update be16_def nth_Cons' )
  have clean: "(blocks \<sigma>)(?r := X, ?l := None) = (blocks \<sigma>)(?r := X)" for X
    using wf by (simp add: fun_upd_idem)
  have big: "5 \<le> unat n" using n by simp
  show ?thesis
    using req big cbs
    by (simp add: modbus_write_request_handler_def bindm_unfold request_fields_ok with_local_def
        stack_alloc_run called n_def[symmetric] alloc run_simps store8_ok load16_ok new vPortFree_ok
        echo[simplified] fun_upd_twist[of ?l ?r] clean)
qed

end

locale word_writer = data_writer cb "\<lambda>q. 2 * unat q" result stored
  for cb :: "'a data_cb" and result stored

end
