(* ===== verification/Modbus_Tcp.thy ===== *)
theory Modbus_Tcp
  imports Modbus_Pdu
begin

text \<open>
  Modbus over TCP (\<open>Libraries/modbus/src/modbus_tcp.c\<close>): the MBAP header, the
  handling of one received buffer, the loop of a connection, and the application's
  callbacks (\<open>Application/modbus_app.c\<close>). What the code hands to \<open>lwip_send\<close> is
  appended to the field \<open>sent\<close>, and what \<open>lwip_recv\<close> returns is the input of the
  connection loop.
\<close>

section \<open>The MBAP header\<close>

record MBAPHeader =
  transaction_id :: u16
  protocol_id :: u16
  mbap_length :: u16
  unit_id :: u8

definition modbus_mbap_fill_struct :: "ptr \<Rightarrow> ('z cmem_scheme, MBAPHeader) cm" where
  "modbus_mbap_fill_struct data =
     bindm (load_be16 data) (\<lambda>tid.
     bindm (load_be16 (ptr_add data 2)) (\<lambda>pid.
     bindm (load_be16 (ptr_add data 4)) (\<lambda>len.
     bindm (load8 (ptr_add data 6)) (\<lambda>uid.
     returnm \<lparr>transaction_id = tid, protocol_id = pid, mbap_length = len, unit_id = uid\<rparr>))))"

definition modbus_mbap_fill_from_struct :: "ptr \<Rightarrow> MBAPHeader \<Rightarrow> ('z cmem_scheme, unit) cm" where
  "modbus_mbap_fill_from_struct data header =
     bindm (store8 data (ucast (drop_bit 8 (transaction_id header)))) (\<lambda>_.
     bindm (store8 (ptr_add data 1) (ucast (transaction_id header))) (\<lambda>_.
     bindm (store8 (ptr_add data 2) (ucast (drop_bit 8 (protocol_id header)))) (\<lambda>_.
     bindm (store8 (ptr_add data 3) (ucast (protocol_id header))) (\<lambda>_.
     bindm (store8 (ptr_add data 4) (ucast (drop_bit 8 (mbap_length header)))) (\<lambda>_.
     bindm (store8 (ptr_add data 5) (ucast (mbap_length header))) (\<lambda>_.
     store8 (ptr_add data 6) (unit_id header)))))))"

text \<open>The header as bytes, in the order of the protocol.\<close>

definition mbap_bytes :: "MBAPHeader \<Rightarrow> u8 list" where
  "mbap_bytes h = be16 (transaction_id h) @ be16 (protocol_id h) @ be16 (mbap_length h) @ [unit_id h]"

lemma length_mbap_bytes [simp]: "length (mbap_bytes h) = 7"
  by (simp add: mbap_bytes_def)

definition mbap_of :: "u8 list \<Rightarrow> MBAPHeader" where
  "mbap_of bs = \<lparr>transaction_id = mk16 (bs ! 0) (bs ! 1), protocol_id = mk16 (bs ! 2) (bs ! 3),
     mbap_length = mk16 (bs ! 4) (bs ! 5), unit_id = bs ! 6\<rparr>"

section \<open>Handling one request\<close>

definition lwip_send :: "int \<Rightarrow> ptr \<Rightarrow> u16 \<Rightarrow> ('a mbstate, unit) cm" where
  "lwip_send sock buf n =
     bindm (read_bytes buf (unat n)) (\<lambda>bs. modifym (\<lambda>\<sigma>. \<sigma>\<lparr>sent := sent \<sigma> @ [(sock, bs)]\<rparr>))"

definition modbus_tcp_handle_request ::
  "ptr \<Rightarrow> int \<Rightarrow> 'a ModbusCallbacks \<Rightarrow> int \<Rightarrow> ('a mbstate, u8) cm" where
  "modbus_tcp_handle_request data data_size callbacks client_socket =
     (if data_size < 8 then returnm 3
      else
        bindm (modifym (\<lambda>\<sigma>. \<sigma>\<lparr>obuf := NULL, osize := 0\<rparr>)) (\<lambda>_.
        bindm (modbus_mbap_fill_struct data) (\<lambda>mbap_header.
        bindm (modbus_handle_request (ptr_add data 7) callbacks OutRef 7 0) (\<lambda>ret.
        bindm (getm obuf) (\<lambda>send_buffer.
        bindm (getm osize) (\<lambda>send_size.
        if send_buffer \<noteq> NULL then
          bindm (modbus_mbap_fill_from_struct send_buffer
                   (mbap_header\<lparr>mbap_length := send_size - 7 + 1\<rparr>)) (\<lambda>_.
          bindm (lwip_send client_socket send_buffer send_size) (\<lambda>_.
          bindm (vPortFree send_buffer) (\<lambda>_.
          bindm (modifym (\<lambda>\<sigma>. \<sigma>\<lparr>obuf := NULL\<rparr>)) (\<lambda>_.
          returnm ret))))
        else returnm ret))))))"

section \<open>The loop of a connection\<close>

text \<open>
  \<open>inbox\<close> lists what the successive calls of \<open>lwip_recv\<close> return: the bytes
  received (at most 64 are taken), or \<open>[]\<close> for a result that is not positive; the
  end of the list is such a result too.
\<close>

fun connection_loop ::
  "'a ModbusCallbacks \<Rightarrow> int \<Rightarrow> ptr \<Rightarrow> int \<Rightarrow> u8 list list \<Rightarrow> ('a mbstate, unit) cm" where
  "connection_loop callbacks sock buffer ret [] = returnm ()"
| "connection_loop callbacks sock buffer ret (received # inbox) =
     (if ret = 0xC0 \<or> received = [] then returnm ()
      else
        bindm (write_bytes buffer (take 64 received)) (\<lambda>_.
        bindm (modbus_tcp_handle_request buffer (int (length (take 64 received))) callbacks sock) (\<lambda>r.
        connection_loop callbacks sock buffer (uint r) inbox)))"

definition modbus_tcp_connection_handle ::
  "'a ModbusCallbacks \<Rightarrow> int \<Rightarrow> u8 list list \<Rightarrow> ('a mbstate, unit) cm" where
  "modbus_tcp_connection_handle callbacks sock inbox =
     with_uninit 64 (\<lambda>buffer. connection_loop callbacks sock buffer 0 inbox)"

section \<open>The application (\<open>modbus_app.c\<close>, \<open>main.c\<close>)\<close>

definition modbus_read_words_callback :: "'a data_cb" where
  "modbus_read_words_callback function_code data_table_type starting_address quantity_of_registers data =
     returnm MODBUS_ERROR_OK"

definition modbus_write_words_callback :: "'a data_cb" where
  "modbus_write_words_callback function_code data_table_type starting_address quantity_of_registers data =
     returnm MODBUS_ERROR_OK"

text \<open>The callbacks \<open>start_modbus_task\<close> installs: the other members are \<open>NULL\<close>.\<close>

definition app_callbacks :: "'a ModbusCallbacks" where
  "app_callbacks = \<lparr>read_bits = None, write_bits = None,
     read_words = Some modbus_read_words_callback, write_words = Some modbus_write_words_callback,
     other_functions = None\<rparr>"

text \<open>The application's callbacks meet the contracts the handlers rely on.\<close>

interpretation app_reader: word_reader modbus_read_words_callback "\<lambda>_ _ _ _. 0" "\<lambda>_ _ _ _ old. old"
  by unfold_locales
    (auto simp: modbus_read_words_callback_def run_simps upd_bytes_same set_block_same)

interpretation app_bits: bit_reader modbus_read_words_callback "\<lambda>_ _ _ _. 0" "\<lambda>_ _ _ _ old. old"
  by unfold_locales
    (auto simp: modbus_read_words_callback_def run_simps upd_bytes_same set_block_same)

interpretation app_writer: data_writer modbus_write_words_callback "\<lambda>_. 0" "\<lambda>_ _ _ _ _. 0" "\<lambda>s _ _ _ _. s"
  by unfold_locales (simp add: modbus_write_words_callback_def run_simps)

interpretation app_word_writer: word_writer modbus_write_words_callback "\<lambda>_ _ _ _ _. 0" "\<lambda>s _ _ _ _. s"
  by unfold_locales (simp add: modbus_write_words_callback_def run_simps)

section \<open>The header on the wire\<close>

interpretation mbap: codec mbap_bytes mbap_of 7
proof
  show "mbap_bytes (mbap_of bs) = bs" if "length bs = 7" for bs
  proof -
    from that obtain b0 b1 b2 b3 b4 b5 b6 where "bs = [b0, b1, b2, b3, b4, b5, b6]"
      by (auto simp: numeral_eq_Suc length_Suc_conv)
    then show ?thesis by (simp add: mbap_bytes_def mbap_of_def be16_def)
  qed
qed (simp_all add: mbap_bytes_def mbap_of_def be16_def)

lemma modbus_mbap_fill_struct_ok:
  "blocks \<sigma> b = Some bs \<Longrightarrow> i + 7 \<le> length bs \<Longrightarrow>
   modbus_mbap_fill_struct (Ptr b i) \<sigma> = Inr (mbap_of (drop i bs), \<sigma>)"
  by (simp add: modbus_mbap_fill_struct_def bindm_unfold load_be16_ok load8_ok run_simps mbap_of_def
      numeral_eq_Suc)

lemma modbus_mbap_fill_from_struct_ok:
  assumes "blocks \<sigma> b = Some bs" and "i + 7 \<le> length bs"
  shows "modbus_mbap_fill_from_struct (Ptr b i) h \<sigma> =
    Inr ((), set_block b (upd_bytes bs i (mbap_bytes h)) \<sigma>)"
proof -
  have "bs[i := ucast (drop_bit 8 (transaction_id h)), Suc i := ucast (transaction_id h),
        i + 2 := ucast (drop_bit 8 (protocol_id h)), i + 3 := ucast (protocol_id h),
        i + 4 := ucast (drop_bit 8 (mbap_length h)), i + 5 := ucast (mbap_length h), i + 6 := unit_id h] =
      upd_bytes bs i (mbap_bytes h)"
    using assms(2)
    by (intro nth_equalityI)
      (auto simp: nth_upd_bytes mbap_bytes_def be16_def nth_list_update nth_Cons')
  with assms show ?thesis
    by (simp add: modbus_mbap_fill_from_struct_def bindm_unfold store8_ok)
qed

section \<open>From a response to what is sent\<close>

lemma lwip_send_ok:
  "blocks \<sigma> b = Some bs \<Longrightarrow> i + unat n \<le> length bs \<Longrightarrow>
   lwip_send sock (Ptr b i) n \<sigma> =
     Inr ((), \<sigma>\<lparr>sent := sent \<sigma> @ [(sock, take (unat n) (drop i bs))]\<rparr>)"
  by (simp add: lwip_send_def bindm_unfold read_bytes_ok run_simps)

abbreviation (input) "fresh_locals \<sigma> \<equiv> \<sigma>\<lparr>obuf := NULL, osize := 0\<rparr>"

text \<open>
  If the request handler leaves a response block, the header is written over its
  first seven bytes, \<open>osize\<close> bytes are sent, and the block is freed.
\<close>

lemma tcp_handle_reply:
  assumes "8 \<le> data_size" and "blocks \<sigma> b = Some bs" and "7 \<le> length bs"
    and handled: "modbus_handle_request (Ptr b 7) cbs OutRef 7 0 (fresh_locals \<sigma>) = Inr (r, \<sigma>1)"
    and out: "obuf \<sigma>1 = Ptr nb 0" "blocks \<sigma>1 nb = Some out" "osize \<sigma>1 = n"
      "7 \<le> length out" "unat n \<le> length out"
  shows "modbus_tcp_handle_request (Ptr b 0) data_size cbs sock \<sigma> =
    Inr (r, \<sigma>1\<lparr>blocks := (blocks \<sigma>1)(nb := None),
               sent := sent \<sigma>1 @ [(sock, take (unat n) (upd_bytes out 0 (mbap_bytes ((mbap_of bs)\<lparr>mbap_length := n - 6\<rparr>))))],
               obuf := NULL\<rparr>)"
  using assms
  by (simp add: modbus_tcp_handle_request_def bindm_unfold run_simps modbus_mbap_fill_struct_ok
      modbus_mbap_fill_from_struct_ok lwip_send_ok vPortFree_ok set_block_def)

lemma tcp_handle_silent:
  assumes "8 \<le> data_size" and "blocks \<sigma> b = Some bs" and "7 \<le> length bs"
    and handled: "modbus_handle_request (Ptr b 7) cbs OutRef 7 0 (fresh_locals \<sigma>) = Inr (r, \<sigma>1)"
    and out: "obuf \<sigma>1 = NULL"
  shows "modbus_tcp_handle_request (Ptr b 0) data_size cbs sock \<sigma> = Inr (r, \<sigma>1)"
  using assms
  by (simp add: modbus_tcp_handle_request_def bindm_unfold run_simps modbus_mbap_fill_struct_ok)

lemma tcp_handle_fault:
  assumes "8 \<le> data_size" and "blocks \<sigma> b = Some bs" and "7 \<le> length bs"
    and "modbus_handle_request (Ptr b 7) cbs OutRef 7 0 (fresh_locals \<sigma>) = Inl e"
  shows "modbus_tcp_handle_request (Ptr b 0) data_size cbs sock \<sigma> = Inl e"
  using assms
  by (simp add: modbus_tcp_handle_request_def bindm_unfold run_simps modbus_mbap_fill_struct_ok)

end
