(* ===== verification/Modbus_Theorems.thy ===== *)
theory Modbus_Theorems
  imports Modbus_Tcp
begin

text \<open>
  What a Modbus client sees: for each kind of request, what
  \<open>modbus_tcp_handle_request\<close> sends, what it does to memory and to the application,
  and which requests make the firmware leave defined behaviour.
\<close>

section \<open>Requests in the receive buffer\<close>

definition request_at :: "'z cmem_scheme \<Rightarrow> nat \<Rightarrow> MBAPHeader \<Rightarrow> u8 list \<Rightarrow> bool" where
  "request_at \<sigma> b h pdu =
     (case blocks \<sigma> b of None \<Rightarrow> False | Some bs \<Rightarrow> take (7 + length pdu) bs = mbap_bytes h @ pdu)"

lemma request_atE:
  assumes "request_at \<sigma> b h pdu"
  obtains bs where "blocks \<sigma> b = Some bs" "7 + length pdu \<le> length bs" "mbap_of bs = h"
    "take (length pdu) (drop 7 bs) = pdu"
proof -
  from assms obtain bs where bs: "blocks \<sigma> b = Some bs" "take (7 + length pdu) bs = mbap_bytes h @ pdu"
    by (auto simp: request_at_def split: option.splits)
  from bs(2) have "length (take (7 + length pdu) bs) = 7 + length pdu" by simp
  then have len: "7 + length pdu \<le> length bs" by simp
  from bs(2) have "bs = mbap_bytes h @ pdu @ drop (7 + length pdu) bs"
    by (metis append.assoc append_take_drop_id)
  then have "mbap_of bs = h" by (metis mbap.dec_enc)
  moreover have "take (length pdu) (drop 7 bs) = pdu"
    using bs(2) by (metis add.commute append_eq_conv_conj length_mbap_bytes take_drop)
  ultimately show thesis using that bs(1) len by blast
qed

lemma nth_drop_take_eq:
  "take n (drop k bs) = xs \<Longrightarrow> k + n \<le> length bs \<Longrightarrow> i < n \<Longrightarrow> bs ! (k + i) = xs ! i"
  by auto

text \<open>The five bytes every request starts with, read back from the buffer.\<close>

lemma request_head:
  assumes "request_at \<sigma> b h (fc # be16 a @ be16 q @ rest)"
  obtains bs where "blocks \<sigma> b = Some bs" "12 + length rest \<le> length bs" "mbap_of bs = h"
    "bs ! 7 = fc" "mk16 (bs ! 8) (bs ! 9) = a" "mk16 (bs ! 10) (bs ! 11) = q"
    "take (length rest) (drop 12 bs) = rest" "take 5 (drop 7 bs) = fc # be16 a @ be16 q"
proof -
  let ?pdu = "fc # be16 a @ be16 q @ rest"
  from assms obtain bs where bs: "blocks \<sigma> b = Some bs" "7 + length ?pdu \<le> length bs" "mbap_of bs = h"
    "take (length ?pdu) (drop 7 bs) = ?pdu" by (rule request_atE)
  have at: "bs ! (7 + i) = ?pdu ! i" if "i < length ?pdu" for i
    by (rule nth_drop_take_eq[OF bs(4)]) (use bs(2) that in auto)
  have "take 5 (take (length ?pdu) (drop 7 bs)) = fc # be16 a @ be16 q"
    unfolding bs(4) by (simp add: be16_def)
  then have five: "take 5 (drop 7 bs) = fc # be16 a @ be16 q"
    by (simp add: min_def)
  have "drop 5 (take (length ?pdu) (drop 7 bs)) = rest"
    unfolding bs(4) by (simp add: be16_def)
  then have rest: "take (length rest) (drop 12 bs) = rest"
    by (simp add: drop_take)
  show thesis
    by (rule that[OF bs(1) _ bs(3) _ _ _ rest five])
      (use bs(2) at[of 0] at[of 1] at[of 2] at[of 3] at[of 4] in \<open>simp_all add: be16_def\<close>)
qed

lemma handle_request_dispatch:
  assumes "blocks \<sigma> b = Some bs" and "7 < length bs" and "bs ! 7 = fc"
  shows "load8 (Ptr b 7) (fresh_locals \<sigma>) = Inr (fc, fresh_locals \<sigma>)"
  using assms by (simp add: load8_ok)

section \<open>Reading registers (functions 3 and 4)\<close>

lemma words_of_count: "unat (q :: u16) \<le> 127 \<Longrightarrow> (2 + ucast (ucast (2 * q) :: u8) + 7 + 0 :: u16) - 6 = 3 + 2 * q"
proof -
  assume "unat q \<le> 127"
  then have "unat (ucast (ucast (2 * q) :: u8) :: u16) = unat (2 * q)"
    by (simp only: unat_ucast_u8_u16 unat_byte_count) (simp add: unat_word_ariths)
  then have "(ucast (ucast (2 * q) :: u8) :: u16) = 2 * q"
    by (simp only: word_unat_eq_iff)
  then show ?thesis by simp
qed

section \<open>What a handled request leaves behind\<close>

text \<open>
  The two clean outcomes of a handler, seen from the state \<open>\<sigma>\<close> before it: a response
  in one new block, whose size is \<open>osize\<close>, or nothing. The receive buffer \<open>b\<close> may
  have been changed in place, no other block has.
\<close>

definition leaves_response :: "nat \<Rightarrow> 'a mbstate \<Rightarrow> 'a mbstate \<Rightarrow> bool" where
  "leaves_response b \<sigma> \<sigma>1 \<longleftrightarrow> (\<exists>nb bs' out.
     obuf \<sigma>1 = Ptr nb 0 \<and> nb \<noteq> b \<and> blocks \<sigma> nb = None \<and> nb < next_block \<sigma>1 \<and>
     blocks \<sigma>1 = (blocks \<sigma>)(b \<mapsto> bs', nb \<mapsto> out) \<and> length bs' = length (the (blocks \<sigma> b)) \<and>
     7 \<le> length out \<and> unat (osize \<sigma>1) = length out \<and> wf_mem \<sigma>1)"

definition leaves_nothing :: "'a mbstate \<Rightarrow> 'a mbstate \<Rightarrow> bool" where
  "leaves_nothing \<sigma> \<sigma>1 \<longleftrightarrow> obuf \<sigma>1 = NULL \<and> blocks \<sigma>1 = blocks \<sigma> \<and> wf_mem \<sigma>1"

text \<open>The state after a request has been answered or ignored: only the receive buffer may differ.\<close>

definition served :: "nat \<Rightarrow> 'a mbstate \<Rightarrow> 'a mbstate \<Rightarrow> bool" where
  "served b \<sigma> \<sigma>' \<longleftrightarrow> wf_mem \<sigma>' \<and>
     (\<exists>bs'. blocks \<sigma>' = (blocks \<sigma>)(b \<mapsto> bs') \<and> length bs' = length (the (blocks \<sigma> b)))"

lemma leaves_fresh_locals [simp]:
  "leaves_response b (fresh_locals \<sigma>) \<sigma>1 = leaves_response b \<sigma> \<sigma>1"
  "leaves_nothing (fresh_locals \<sigma>) \<sigma>1 = leaves_nothing \<sigma> \<sigma>1"
  by (simp_all add: leaves_response_def leaves_nothing_def)

lemma leaves_responseI:
  assumes "obuf \<sigma>1 = Ptr nb 0" "nb \<noteq> b" "blocks \<sigma> nb = None" "nb < next_block \<sigma>1"
    "blocks \<sigma>1 = (blocks \<sigma>)(b \<mapsto> bs', nb \<mapsto> out)" "length bs' = length (the (blocks \<sigma> b))"
    "7 \<le> length out" "unat (osize \<sigma>1) = length out" "wf_mem \<sigma>1"
  shows "leaves_response b \<sigma> \<sigma>1"
  unfolding leaves_response_def by (intro exI[of _ nb] exI[of _ bs'] exI[of _ out]) (use assms in simp)

lemma create_error_response_outcome:
  assumes "wf_mem \<sigma>" and "blocks \<sigma> b = Some bs"
  shows "\<exists>\<sigma>1. modbus_create_error_response OutRef fc ec 7 0 \<sigma> = Inr ((), \<sigma>1) \<and>
    (leaves_response b \<sigma> \<sigma>1 \<or> leaves_nothing \<sigma> \<sigma>1)"
proof (cases "grants \<sigma> (next_block \<sigma>) 9")
  case True
  have other: "next_block \<sigma> \<noteq> b" using assms wf_mem_next[of \<sigma>] by auto
  have 9: "(2 + ucast (7 :: u8) + ucast (0 :: u8) :: u16) = 9" by simp
  let ?\<sigma>1 = "set_block (next_block \<sigma>) (upd_bytes (new_block 9 \<sigma>) 7 [fc + 0x80, ec]) (after_alloc 9 \<sigma>)"
  have "modbus_create_error_response OutRef fc ec 7 0 \<sigma> = Inr ((), ?\<sigma>1)"
    using modbus_create_error_response_ok[of \<sigma> 7 0 fc ec] True unfolding 9 by simp
  moreover have "leaves_response b \<sigma> ?\<sigma>1"
    by (rule leaves_responseI[where nb = "next_block \<sigma>" and bs' = bs])
      (use assms other in \<open>auto simp: wf_mem_def fun_upd_idem\<close>)
  ultimately show ?thesis by blast
next
  case False
  then show ?thesis
    using modbus_create_error_response_refused[of \<sigma> 7 0 fc ec] assms
    by (auto simp: leaves_nothing_def wf_mem_def)
qed

text \<open>From the outcome of the handler to that of \<open>modbus_tcp_handle_request\<close>.\<close>

lemma tcp_served_response:
  assumes "8 \<le> data_size" and "blocks \<sigma> b = Some bs" and "7 \<le> length bs"
    and handled: "modbus_handle_request (Ptr b 7) cbs OutRef 7 0 (fresh_locals \<sigma>) = Inr (r, \<sigma>1)"
    and out: "leaves_response b \<sigma> \<sigma>1"
  shows "\<exists>\<sigma>'. modbus_tcp_handle_request (Ptr b 0) data_size cbs sock \<sigma> = Inr (r, \<sigma>') \<and> served b \<sigma> \<sigma>' \<and>
    length (sent \<sigma>') = Suc (length (sent \<sigma>1))"
proof -
  from out obtain nb bs' out where o: "obuf \<sigma>1 = Ptr nb 0" "nb \<noteq> b" "blocks \<sigma> nb = None"
    "nb < next_block \<sigma>1" "blocks \<sigma>1 = (blocks \<sigma>)(b \<mapsto> bs', nb \<mapsto> out)"
    "length bs' = length (the (blocks \<sigma> b))" "7 \<le> length out" "unat (osize \<sigma>1) = length out" "wf_mem \<sigma>1"
    unfolding leaves_response_def by blast
  have "(blocks \<sigma>)(b \<mapsto> bs', nb := None) = (blocks \<sigma>)(b \<mapsto> bs')"
    using o(2,3) by (simp add: fun_upd_idem)
  then show ?thesis
    using tcp_handle_reply[OF assms(1-3) handled o(1) _ _ o(7), of "osize \<sigma>1" sock] o
    by (auto simp: served_def wf_mem_def)
qed

lemma tcp_served_nothing:
  assumes "8 \<le> data_size" and "blocks \<sigma> b = Some bs" and "7 \<le> length bs"
    and handled: "modbus_handle_request (Ptr b 7) cbs OutRef 7 0 (fresh_locals \<sigma>) = Inr (r, \<sigma>1)"
    and out: "leaves_nothing \<sigma> \<sigma>1"
  shows "\<exists>\<sigma>'. modbus_tcp_handle_request (Ptr b 0) data_size cbs sock \<sigma> = Inr (r, \<sigma>') \<and> served b \<sigma> \<sigma>'"
  using tcp_handle_silent[OF assms(1-4)] out assms(2)
  by (auto simp: leaves_nothing_def served_def intro!: exI[of _ bs])

lemma tcp_served:
  assumes "8 \<le> data_size" and b: "blocks \<sigma> b = Some bs" and "8 \<le> length bs" and "wf_mem \<sigma>"
    and run: "modbus_dispatch cbs (Ptr b 7) (bs ! 7) OutRef 7 0 (fresh_locals \<sigma>) = Inr (r, \<sigma>1)"
    and out: "r = 0 \<and> leaves_response b \<sigma> \<sigma>1 \<or> r \<noteq> 0 \<and> leaves_nothing \<sigma> \<sigma>1"
  shows "\<exists>\<sigma>'. modbus_tcp_handle_request (Ptr b 0) data_size cbs sock \<sigma> = Inr (0, \<sigma>') \<and> served b \<sigma> \<sigma>'"
  using out
proof
  have ld: "load8 (Ptr b 7) (fresh_locals \<sigma>) = Inr (bs ! 7, fresh_locals \<sigma>)"
    by (rule handle_request_dispatch[OF b]) (use assms in simp_all)
  { assume "r = 0 \<and> leaves_response b \<sigma> \<sigma>1"
    then show ?thesis
      using tcp_served_response[OF assms(1) b _ handle_request_ok[OF ld]] run assms(3) by fastforce }
  assume r: "r \<noteq> 0 \<and> leaves_nothing \<sigma> \<sigma>1"
  then have \<sigma>1: "wf_mem \<sigma>1" "obuf \<sigma>1 = NULL" "blocks \<sigma>1 = blocks \<sigma>" by (auto simp: leaves_nothing_def)
  obtain \<sigma>2 where \<sigma>2: "modbus_create_error_response OutRef (bs ! 7) r 7 0 \<sigma>1 = Inr ((), \<sigma>2)"
    "leaves_response b \<sigma>1 \<sigma>2 \<or> leaves_nothing \<sigma>1 \<sigma>2"
    using create_error_response_outcome[OF \<sigma>1(1), of b bs "bs ! 7" r] \<sigma>1(3) b by auto
  have handled: "modbus_handle_request (Ptr b 7) cbs OutRef 7 0 (fresh_locals \<sigma>) = Inr (0, \<sigma>2)"
    using handle_request_error_clean[OF ld run _ \<sigma>1(2)] r \<sigma>2(1) by (simp add: bindm_unfold run_simps)
  have "leaves_response b \<sigma> \<sigma>2 \<or> leaves_nothing \<sigma> \<sigma>2"
    using \<sigma>2(2) \<sigma>1(3) by (simp add: leaves_response_def leaves_nothing_def)
  then show ?thesis
    using tcp_served_response[OF assms(1) b _ handled] tcp_served_nothing[OF assms(1) b _ handled] assms(3)
    by fastforce
qed

section \<open>The shipped application\<close>

text \<open>
  Which requests the shipped application handles without leaving defined behaviour,
  as a condition on the 64 bytes of the receive buffer: not a bit read, no register
  read of 128 or more registers, and no register write with a byte count above 25.
\<close>

definition safe_request :: "u8 list \<Rightarrow> bool" where
  "safe_request bs \<longleftrightarrow>
     bs ! 7 \<noteq> MODBUS_READ_COILS_FC \<and> bs ! 7 \<noteq> MODBUS_READ_DISCRETE_INPUTS_FC \<and>
     (bs ! 7 = MODBUS_READ_HOLDING_REGISTERS_FC \<or> bs ! 7 = MODBUS_READ_INPUT_REGISTERS_FC \<longrightarrow>
        mk16 (bs ! 10) (bs ! 11) \<le> 127) \<and>
     (bs ! 7 = MODBUS_WRITE_MULTIPLE_REGISTERS_FC \<longrightarrow> bs ! 12 \<le> 25)"

lemma app_callbacks_simps [simp]:
  "read_bits app_callbacks = None" "write_bits app_callbacks = None"
  "read_words app_callbacks = Some modbus_read_words_callback"
  "write_words app_callbacks = Some modbus_write_words_callback"
  "other_functions app_callbacks = None"
  by (simp_all add: app_callbacks_def)

text \<open>Refused allocations: every handler reports a server failure and leaves nothing.\<close>

lemma read_words_app_refused:
  assumes "blocks \<sigma> b = Some bs" and "i + 5 \<le> length bs"
    and "\<not> grants \<sigma> (next_block \<sigma>)
      (unat (2 + ucast (ucast (2 * mk16 (bs ! (i + 3)) (bs ! (i + 4))) :: u8) + ucast pre + ucast apd :: u16))"
  shows "\<exists>\<sigma>1. modbus_read_word_request_handler cbs (Ptr b i) OutRef pre apd \<sigma> = Inr (4, \<sigma>1) \<and>
    obuf \<sigma>1 = NULL \<and> blocks \<sigma>1 = blocks \<sigma> \<and> next_block \<sigma>1 = Suc (next_block \<sigma>)"
  using assms
  by (simp add: modbus_read_word_request_handler_def bindm_unfold request_fields_ok Let_def
      alloc_response_refused run_simps)

lemma write_words_app_refused:
  assumes "blocks \<sigma> b = Some bs" and "i + 6 \<le> length bs" and "write_words cbs = Some cb"
    and "\<not> grants \<sigma> (next_block \<sigma>) (unat (5 + ucast pre + ucast apd :: u16))"
  shows "\<exists>\<sigma>1. modbus_write_multiple_registers_request_handler cbs (Ptr b i) OutRef pre apd \<sigma> = Inr (4, \<sigma>1) \<and>
    obuf \<sigma>1 = NULL \<and> blocks \<sigma>1 = blocks \<sigma> \<and> next_block \<sigma>1 = Suc (next_block \<sigma>)"
  using assms
  by (simp add: modbus_write_multiple_registers_request_handler_def bindm_unfold request_fields_ok load8_ok
      alloc_response_refused run_simps)

lemma write_register_app_refused:
  assumes "blocks \<sigma> b = Some bs" and "i + 5 \<le> length bs" and "bs ! i = 6" and "wf_mem \<sigma>"
    and "\<not> grants \<sigma> (Suc (next_block \<sigma>)) (unat (5 + ucast pre + ucast apd :: u16))"
  shows "\<exists>\<sigma>1. modbus_write_request_handler app_callbacks (Ptr b i) OutRef pre apd \<sigma> = Inr (4, \<sigma>1) \<and>
    obuf \<sigma>1 = NULL \<and> blocks \<sigma>1 = blocks \<sigma> \<and> next_block \<sigma>1 = Suc (Suc (next_block \<sigma>))"
  using assms
  by (simp add: modbus_write_request_handler_def bindm_unfold request_fields_ok with_local_def
      stack_alloc_run modbus_write_words_callback_def alloc_response_refused run_simps vPortFree_ok
      fun_upd_idem)

lemma write_coil_app:
  assumes "blocks \<sigma> b = Some bs" and "i + 5 \<le> length bs" and "bs ! i \<noteq> 6" and "wf_mem \<sigma>"
  shows "\<exists>\<sigma>1. modbus_write_request_handler app_callbacks (Ptr b i) OutRef pre apd \<sigma> = Inr (1, \<sigma>1) \<and>
    obuf \<sigma>1 = obuf \<sigma> \<and> blocks \<sigma>1 = blocks \<sigma> \<and> next_block \<sigma>1 = Suc (next_block \<sigma>)"
  using assms
  by (simp add: modbus_write_request_handler_def bindm_unfold request_fields_ok with_local_def
      stack_alloc_run run_simps vPortFree_ok fun_upd_idem)

text \<open>The outcome of each handler of the shipped application on a safe request.\<close>

definition clean_outcome :: "nat \<Rightarrow> 'a mbstate \<Rightarrow> fault + (u8 \<times> 'a mbstate) \<Rightarrow> bool" where
  "clean_outcome b \<sigma> res \<longleftrightarrow> (\<exists>r \<sigma>1. res = Inr (r, \<sigma>1) \<and>
     (r = 0 \<and> leaves_response b \<sigma> \<sigma>1 \<or> r \<noteq> 0 \<and> leaves_nothing \<sigma> \<sigma>1))"

lemma clean_outcome_nothing:
  assumes "\<exists>\<sigma>1. res = Inr (r, \<sigma>1) \<and> obuf \<sigma>1 = NULL \<and> blocks \<sigma>1 = blocks \<sigma> \<and> next_block \<sigma> \<le> next_block \<sigma>1"
    and "r \<noteq> 0" and "wf_mem \<sigma>"
  shows "clean_outcome b \<sigma> res"
  using assms by (auto simp: clean_outcome_def leaves_nothing_def wf_mem_def)

lemma read_words_app_outcome:
  fixes \<sigma> :: "'a mbstate"
  assumes b: "blocks \<sigma> b = Some bs" and len: "12 \<le> length bs" and wf: "wf_mem \<sigma>"
    and q: "mk16 (bs ! 10) (bs ! 11) \<le> 127"
  shows "clean_outcome b \<sigma> (modbus_read_word_request_handler app_callbacks (Ptr b 7) OutRef 7 0 \<sigma>)"
proof -
  let ?q = "mk16 (bs ! 10) (bs ! 11)"
  let ?n = "2 + ucast (ucast (2 * ?q) :: u8) + ucast (7 :: u8) + ucast (0 :: u8) :: u16"
  have uq: "unat ?q \<le> 127" using q by (simp add: word_le_nat_alt)
  have n: "unat ?n = 2 + 2 * unat ?q + 7"
    using unat_response_size[of "ucast (2 * ?q)" 7 0] unat_byte_count[OF uq] by simp
  have other: "next_block \<sigma> \<noteq> b" using b wf_mem_next[OF wf] by auto
  show ?thesis
  proof (cases "grants \<sigma> (next_block \<sigma>) (unat ?n)")
    case True
    then have "grants \<sigma> (next_block \<sigma>) (2 + 2 * unat ?q + unat (7 :: u8) + unat (0 :: u8))"
      unfolding n by simp
    from app_reader.read_word_request_run[OF b _ refl refl refl, of 7 7 0 app_callbacks] uq this len
    have run: "modbus_read_word_request_handler app_callbacks (Ptr b 7) OutRef 7 0 \<sigma> =
      Inr (0, set_block (next_block \<sigma>) (upd_bytes (new_block (unat ?n) \<sigma>) 7
        ([bs ! 7, ucast (2 * ?q)] @ replicate (2 * unat ?q) 0)) (after_alloc ?n \<sigma>))"
      by simp
    have "leaves_response b \<sigma> (set_block (next_block \<sigma>) (upd_bytes (new_block (unat ?n) \<sigma>) 7
        ([bs ! 7, ucast (2 * ?q)] @ replicate (2 * unat ?q) 0)) (after_alloc ?n \<sigma>))"
      by (rule leaves_responseI[where nb = "next_block \<sigma>" and bs' = bs]) (use b wf other n in \<open>auto simp: wf_mem_def fun_upd_idem\<close>)
    then show ?thesis unfolding run clean_outcome_def by blast
  next
    case False
    then show ?thesis
      using read_words_app_refused[of \<sigma> b bs 7 7 0 app_callbacks] b len wf
      by (intro clean_outcome_nothing[where r = 4]) fastforce+
  qed
qed

lemma write_words_app_outcome:
  fixes \<sigma> :: "'a mbstate"
  assumes b: "blocks \<sigma> b = Some bs" and len: "13 + 2 * unat (bs ! 12) \<le> length bs" and wf: "wf_mem \<sigma>"
  shows "clean_outcome b \<sigma> (modbus_write_multiple_registers_request_handler app_callbacks (Ptr b 7) OutRef 7 0 \<sigma>)"
proof -
  let ?n = "5 + ucast (7 :: u8) + ucast (0 :: u8) :: u16"
  have other: "next_block \<sigma> \<noteq> b" using b wf_mem_next[OF wf] by auto
  show ?thesis
  proof (cases "grants \<sigma> (next_block \<sigma>) 12")
    case True
    let ?bs' = "upd_bytes bs 13 (swap_pairs (take (2 * unat (bs ! 12)) (drop 13 bs)))"
    let ?\<sigma>1 = "set_block (next_block \<sigma>) (upd_bytes (new_block 12 \<sigma>) 7 (take 5 (drop 7 bs)))
      (set_block b ?bs' (after_alloc 12 \<sigma>))"
    from app_writer.write_multiple_registers_run[OF b refl refl refl refl, of 7 7 0 app_callbacks] len wf True
    have run: "modbus_write_multiple_registers_request_handler app_callbacks (Ptr b 7) OutRef 7 0 \<sigma> = Inr (0, ?\<sigma>1)"
      by simp
    have "leaves_response b \<sigma> ?\<sigma>1"
      by (rule leaves_responseI[where nb = "next_block \<sigma>" and bs' = ?bs'])
        (use b wf other len in \<open>auto simp: wf_mem_def fun_upd_twist\<close>)
    then show ?thesis unfolding run clean_outcome_def by blast
  next
    case False
    then show ?thesis
      using write_words_app_refused[of \<sigma> b bs 7 app_callbacks _ 7 0] b len wf
      by (intro clean_outcome_nothing[where r = 4]) fastforce+
  qed
qed

lemma write_single_app_outcome:
  fixes \<sigma> :: "'a mbstate"
  assumes b: "blocks \<sigma> b = Some bs" and len: "12 \<le> length bs" and wf: "wf_mem \<sigma>" and out: "obuf \<sigma> = NULL"
  shows "clean_outcome b \<sigma> (modbus_write_request_handler app_callbacks (Ptr b 7) OutRef 7 0 \<sigma>)"
proof (cases "bs ! 7 = 6")
  case True
  have b': "b < next_block \<sigma>" using b wf by (metis wf_mem_def not_less option.distinct(1))
  show ?thesis
  proof (cases "grants \<sigma> (Suc (next_block \<sigma>)) 12")
    case grant: True
    let ?v = "mk16 (bs ! 10) (bs ! 11)" and ?a = "mk16 (bs ! 8) (bs ! 9)"
    let ?out = "upd_bytes (map (junk \<sigma> (Suc (next_block \<sigma>))) [0..<12]) 0 (6 # be16 ?a @ be16 ?v)"
    obtain \<sigma>1 where run: "modbus_write_request_handler app_callbacks (Ptr b 7) OutRef 7 0 \<sigma> = Inr (0, \<sigma>1)"
      and s: "blocks \<sigma>1 = (blocks \<sigma>)(Suc (next_block \<sigma>) \<mapsto> ?out)" "next_block \<sigma>1 = next_block \<sigma> + 2"
        "obuf \<sigma>1 = Ptr (Suc (next_block \<sigma>)) 0" "osize \<sigma>1 = 12"
      using app_word_writer.write_single_register_run[OF b _ _ refl refl wf, of 7 7 0 app_callbacks] len True grant
      by auto
    have "leaves_response b \<sigma> \<sigma>1"
      by (rule leaves_responseI[where nb = "Suc (next_block \<sigma>)" and bs' = bs and out = ?out])
        (use b b' wf s in \<open>auto simp: wf_mem_def fun_upd_idem\<close>)
    then show ?thesis unfolding run clean_outcome_def by blast
  next
    case False
    then show ?thesis
      using write_register_app_refused[of \<sigma> b bs 7 7 0] b len wf True
      by (intro clean_outcome_nothing[where r = 4]) fastforce+
  qed
next
  case False
  then show ?thesis
    using write_coil_app[of \<sigma> b bs 7 7 0] b len wf out
    by (intro clean_outcome_nothing[where r = 1]) fastforce+
qed

lemma dispatch_app_outcome:
  fixes \<sigma> :: "'a mbstate"
  assumes b: "blocks \<sigma> b = Some bs" and len: "length bs = 64" and wf: "wf_mem \<sigma>" and out: "obuf \<sigma> = NULL"
    and safe: "safe_request bs"
  shows "clean_outcome b \<sigma> (modbus_dispatch app_callbacks (Ptr b 7) (bs ! 7) OutRef 7 0 \<sigma>)"
proof -
  have "clean_outcome b \<sigma> (Inr (1, \<sigma>))"
    by (rule clean_outcome_nothing[where r = 1]) (use out wf in auto)
  moreover have "clean_outcome b \<sigma> (modbus_write_multiple_coils_request_handler app_callbacks (Ptr b 7) OutRef 7 0 \<sigma>)"
    "clean_outcome b \<sigma> (modbus_read_write_multiple_registers_request_handler app_callbacks (Ptr b 7) OutRef 7 0 \<sigma>)"
    using calculation out
    by (simp_all add: modbus_read_write_multiple_registers_request_handler_def
        modbus_write_multiple_coils_request_handler_def bindm_unfold run_simps)
  ultimately show ?thesis
    using safe read_words_app_outcome[OF b _ wf] write_words_app_outcome[OF b _ wf]
      write_single_app_outcome[OF b _ wf out] len
    unfolding modbus_dispatch_def safe_request_def by (auto simp: returnm_run word_le_nat_alt)
qed

lemma safe_request_served:
  assumes b: "blocks \<sigma> b = Some bs" and "length bs = 64" and "wf_mem \<sigma>" and "safe_request bs"
  shows "\<exists>r \<sigma>'. modbus_tcp_handle_request (Ptr b 0) data_size app_callbacks sock \<sigma> = Inr (r, \<sigma>') \<and>
    r \<in> {0, 3} \<and> served b \<sigma> \<sigma>'"
proof (cases "data_size < 8")
  case True
  then show ?thesis
    using assms by (auto simp: modbus_tcp_handle_request_def returnm_run served_def fun_upd_idem intro!: exI[of _ bs])
next
  case False
  have "clean_outcome b (fresh_locals \<sigma>)
      (modbus_dispatch app_callbacks (Ptr b 7) (bs ! 7) OutRef 7 0 (fresh_locals \<sigma>))"
    by (rule dispatch_app_outcome) (use assms in \<open>simp_all add: wf_mem_def\<close>)
  then obtain r \<sigma>1 where "modbus_dispatch app_callbacks (Ptr b 7) (bs ! 7) OutRef 7 0 (fresh_locals \<sigma>) = Inr (r, \<sigma>1)"
    "r = 0 \<and> leaves_response b \<sigma> \<sigma>1 \<or> r \<noteq> 0 \<and> leaves_nothing \<sigma> \<sigma>1"
    unfolding clean_outcome_def by auto
  then show ?thesis
    using tcp_served[OF _ b, of data_size app_callbacks r \<sigma>1 sock] False assms by auto
qed

section \<open>Requests that leave defined behaviour\<close>

text \<open>A bit read without a callback: the response has been allocated when the handler gives up.\<close>

lemma read_bits_missing_crashes:
  assumes b: "blocks \<sigma> b = Some bs" and len: "12 \<le> length bs" and wf: "wf_mem \<sigma>"
    and fc: "bs ! 7 = 1 \<or> bs ! 7 = 2" and size8: "8 \<le> data_size"
    and grant: "\<forall>n. grants \<sigma> (next_block \<sigma>) n" and cbs: "read_bits cbs = None"
  shows "modbus_tcp_handle_request (Ptr b 0) data_size cbs sock \<sigma> = Inl Null_Deref"
proof -
  let ?\<sigma> = "fresh_locals \<sigma>" and ?q = "mk16 (bs ! 10) (bs ! 11)"
  define bc :: u8 where "bc = ucast (?q div 8 + (if ?q mod 8 = 0 then 0 else 1))"
  define n :: u16 where "n = 2 + ucast bc + ucast (7 :: u8) + ucast (0 :: u8)"
  have n: "unat n = 2 + unat bc + 7" unfolding n_def using unat_response_size[of bc 7 0] by simp
  have n0: "n \<noteq> 0" using n by (metis add_is_0 unat_0 zero_neq_numeral)
  have alloc: "alloc_response OutRef n ?\<sigma> = Inr (Ptr (next_block \<sigma>) 0, after_alloc n ?\<sigma>)"
    using alloc_response_ok[of ?\<sigma> n] grant n0 by simp
  define zs where "zs = upd_bytes (new_block (unat n) ?\<sigma>) 9 (replicate (unat bc) 0)"
  have zeroed: "memset (Ptr (next_block \<sigma>) 9) 0 (unat bc) (after_alloc n ?\<sigma>) =
      Inr ((), set_block (next_block \<sigma>) zs (after_alloc n ?\<sigma>))"
    unfolding zs_def by (rule memset_ok) (use n in auto)
  have n': "9 + ucast bc = n" by (simp add: n_def)
  have run: "modbus_dispatch cbs (Ptr b 7) (bs ! 7) OutRef 7 0 ?\<sigma> =
      Inr (1, set_block (next_block \<sigma>) zs (after_alloc n ?\<sigma>))"
    using fc b len cbs
    by (auto simp: modbus_dispatch_def modbus_read_bit_request_handler_def bindm_unfold request_fields_ok
        Let_def bc_def[symmetric] n' alloc zeroed run_simps)
  have "modbus_handle_request (Ptr b 7) cbs OutRef 7 0 ?\<sigma> = Inl Null_Deref"
    by (rule handle_request_error_crash[OF handle_request_dispatch[OF b _ refl] run, where b = "next_block \<sigma>"])
      (use len in simp_all)
  then show ?thesis
    by (rule tcp_handle_fault[OF size8 b, rotated]) (use len in simp)
qed

text \<open>A register read of 128 or more registers: the byte count is cut to 8 bits, the swap loop is not.\<close>

lemma read_words_many_out_of_bounds:
  fixes \<sigma> :: "'a mbstate"
  assumes b: "blocks \<sigma> b = Some bs" and len: "12 \<le> length bs" and wf: "wf_mem \<sigma>"
    and fc: "bs ! 7 = 3 \<or> bs ! 7 = 4" and size8: "8 \<le> data_size"
    and grant: "\<forall>n. grants \<sigma> (next_block \<sigma>) n" and many: "127 < unat (mk16 (bs ! 10) (bs ! 11))"
  shows "modbus_tcp_handle_request (Ptr b 0) data_size app_callbacks sock \<sigma> = Inl Out_Of_Bounds"
proof -
  let ?\<sigma> = "fresh_locals \<sigma>" and ?q = "mk16 (bs ! 10) (bs ! 11)"
  define bc :: u8 where "bc = ucast (2 * ?q)"
  define n :: u16 where "n = 2 + ucast bc + ucast (7 :: u8) + ucast (0 :: u8)"
  have n: "unat n = 2 + unat bc + 7" unfolding n_def using unat_response_size[of bc 7 0] by simp
  have n0: "n \<noteq> 0" using n by (metis add_is_0 unat_0 zero_neq_numeral)
  have alloc: "alloc_response OutRef n ?\<sigma> = Inr (Ptr (next_block \<sigma>) 0, after_alloc n ?\<sigma>)"
    using alloc_response_ok[of ?\<sigma> n] grant n0 by simp
  define zs where "zs = upd_bytes (new_block (unat n) ?\<sigma>) 9 (replicate (unat bc) 0)"
  let ?\<sigma>z = "set_block (next_block \<sigma>) zs (after_alloc n ?\<sigma>)"
  have zeroed: "memset (Ptr (next_block \<sigma>) 9) 0 (unat bc) (after_alloc n ?\<sigma>) = Inr ((), ?\<sigma>z)"
    unfolding zs_def by (rule memset_ok) (use n in auto)
  have lz: "length zs = 9 + unat bc" unfolding zs_def using n by simp
  let ?hs = "zs[7 := bs ! 7, 8 := bc]"
  have out: "form 0 (unat ?q) (\<lambda>i. modbus_flip_word (Ptr (next_block \<sigma>) (9 + 2 * i)))
      (set_block (next_block \<sigma>) ?hs (after_alloc n ?\<sigma>)) = Inl Out_Of_Bounds"
    by (rule flip_words_out[where bs = ?hs]) (use lz many unat_u8_less[of bc] in \<open>simp_all del: unat_u8_less\<close>)
  have n': "9 + ucast bc = n" by (simp add: n_def)
  have "modbus_dispatch app_callbacks (Ptr b 7) (bs ! 7) OutRef 7 0 ?\<sigma> = Inl Out_Of_Bounds"
    using fc b len lz out
    by (auto simp: modbus_dispatch_def modbus_read_word_request_handler_def bindm_unfold request_fields_ok
        Let_def bc_def[symmetric] n' alloc zeroed run_simps modbus_read_words_callback_def store8_ok)
  then have "modbus_handle_request (Ptr b 7) app_callbacks OutRef 7 0 ?\<sigma> = Inl Out_Of_Bounds"
    by (rule handle_request_fault[OF handle_request_dispatch[OF b _ refl], rotated]) (use len in simp)
  then show ?thesis
    by (rule tcp_handle_fault[OF size8 b, rotated]) (use len in simp)
qed

text \<open>A register write swaps one word for every byte of its byte count.\<close>

lemma write_words_many_out_of_bounds:
  fixes \<sigma> :: "'a mbstate"
  assumes b: "blocks \<sigma> b = Some bs" and len: "13 \<le> length bs" and wf: "wf_mem \<sigma>"
    and fc: "bs ! 7 = 16" and size8: "8 \<le> data_size"
    and grant: "\<forall>n. grants \<sigma> (next_block \<sigma>) n" and many: "length bs < 13 + 2 * unat (bs ! 12)"
    and cbs: "write_words cbs = Some cb"
  shows "modbus_tcp_handle_request (Ptr b 0) data_size cbs sock \<sigma> = Inl Out_Of_Bounds"
proof -
  let ?\<sigma> = "fresh_locals \<sigma>"
  have alloc: "alloc_response OutRef 12 ?\<sigma> = Inr (Ptr (next_block \<sigma>) 0, after_alloc 12 ?\<sigma>)"
    using alloc_response_ok[of ?\<sigma> 12] grant by simp
  have other: "next_block \<sigma> \<noteq> b" using b wf_mem_next[OF wf] by auto
  have out: "form 0 (unat (bs ! 12)) (\<lambda>i. modbus_flip_word (Ptr b (13 + 2 * i))) (after_alloc 12 ?\<sigma>) = Inl Out_Of_Bounds"
    by (rule flip_words_out[where bs = bs]) (use b other many len in simp_all)
  have "modbus_dispatch cbs (Ptr b 7) (bs ! 7) OutRef 7 0 ?\<sigma> = Inl Out_Of_Bounds"
    using fc b len out cbs
    by (auto simp: modbus_dispatch_def modbus_write_multiple_registers_request_handler_def bindm_unfold
        request_fields_ok load8_ok alloc run_simps)
  then have "modbus_handle_request (Ptr b 7) cbs OutRef 7 0 ?\<sigma> = Inl Out_Of_Bounds"
    by (rule handle_request_fault[OF handle_request_dispatch[OF b _ refl], rotated]) (use len in simp)
  then show ?thesis
    by (rule tcp_handle_fault[OF size8 b, rotated]) (use len in simp)
qed

section \<open>Properties\<close>

text \<open>A concrete state for the witnesses: the receive buffer is block 0, and the heap grants everything.\<close>

definition test_state :: "u8 list \<Rightarrow> 'a \<Rightarrow> 'a mbstate" where
  "test_state bs s = \<lparr>blocks = [0 \<mapsto> bs], next_block = 1, grants = \<lambda>_ _. True, junk = \<lambda>_ _. 0xA5,
     obuf = NULL, osize = 0, sent = [], app = s\<rparr>"

lemma test_state_simps [simp]:
  "blocks (test_state bs s) = [0 \<mapsto> bs]" "next_block (test_state bs s) = 1"
  "grants (test_state bs s) b n" "junk (test_state bs s) b i = 0xA5" "sent (test_state bs s) = []"
  "app (test_state bs s) = s" "wf_mem (test_state bs s)"
  by (simp_all add: test_state_def wf_mem_def)

text \<open>The header of the requests of the witnesses.\<close>

definition test_header :: MBAPHeader where
  "test_header = \<lparr>transaction_id = 0x0102, protocol_id = 0, mbap_length = 6, unit_id = 1\<rparr>"

lemma request_at_test_state:
  "take (7 + length pdu) bs = mbap_bytes h @ pdu \<Longrightarrow> request_at (test_state bs s) 0 h pdu"
  by (simp add: request_at_def)

text \<open>C3: A request to read registers (function 3 or 4) of at most 127 registers is
  answered with the request's transaction, protocol and unit identifiers, the length
  of what follows, the function code, the byte count and the registers the callback
  left in the buffer, each with its high byte first; the response block is freed, no
  other memory and no application state changes.\<close>

theorem read_registers_reply:
  assumes cb: "word_reader cb result content" "read_words cbs = Some cb"
    and req: "request_at \<sigma> b h (fc # be16 a @ be16 q)" "fc = 3 \<or> fc = 4" "unat q \<le> 127" "8 \<le> data_size"
    and mem: "wf_mem \<sigma>" "grants \<sigma> (next_block \<sigma>) (9 + 2 * unat q)"
    and ok: "result (app \<sigma>) (word_table fc) a q = 0"
  shows "\<exists>\<sigma>'. modbus_tcp_handle_request (Ptr b 0) data_size cbs sock \<sigma> = Inr (0, \<sigma>') \<and>
    sent \<sigma>' = sent \<sigma> @ [(sock, mbap_bytes (h\<lparr>mbap_length := 3 + 2 * q\<rparr>) @ [fc, ucast (2 * q)] @
      swap_pairs (content (app \<sigma>) (word_table fc) a q (replicate (2 * unat q) 0)))] \<and>
    blocks \<sigma>' = blocks \<sigma> \<and> app \<sigma>' = app \<sigma>"
proof -
  from req(1) obtain bs where bs: "blocks \<sigma> b = Some bs" "12 \<le> length bs" "mbap_of bs = h" "bs ! 7 = fc"
    "mk16 (bs ! 8) (bs ! 9) = a" "mk16 (bs ! 10) (bs ! 11) = q"
    using request_head[of \<sigma> b h fc a q "[]"] by auto
  let ?\<sigma> = "fresh_locals \<sigma>" and ?nb = "next_block \<sigma>"
  let ?c = "content (app \<sigma>) (word_table fc) a q (replicate (2 * unat q) 0)"
  let ?n = "2 + ucast (ucast (2 * q) :: u8) + ucast (7 :: u8) + ucast (0 :: u8) :: u16"
  let ?pdu = "[fc, ucast (2 * q)] @ swap_pairs ?c"
  let ?out = "upd_bytes (new_block (unat ?n) ?\<sigma>) 7 ?pdu"
  have len: "length ?c = 2 * unat q"
    using cb(1) by (simp add: word_reader_def data_reader.content_length)
  have n: "unat ?n = 9 + 2 * unat q"
    using unat_response_size[of "ucast (2 * q)" 7 0] unat_byte_count[OF req(3)] by simp
  have "modbus_read_word_request_handler cbs (Ptr b 7) OutRef 7 0 ?\<sigma> =
      Inr (0, set_block ?nb ?out (after_alloc ?n ?\<sigma>))"
    using word_reader.read_word_request_run[OF cb(1), of ?\<sigma> b bs 7 fc a q 7 0 cbs] bs cb(2) req(3) mem ok
    by (simp add: add.commute)
  then have handled: "modbus_handle_request (Ptr b 7) cbs OutRef 7 0 ?\<sigma> =
      Inr (0, set_block ?nb ?out (after_alloc ?n ?\<sigma>))"
    using req(2) by (intro handle_request_ok[OF handle_request_dispatch[OF bs(1) _ bs(4)]])
      (use bs(2) in \<open>auto simp: modbus_dispatch_def\<close>)
  have fits: "7 + length ?pdu = length (new_block (unat ?n) ?\<sigma>)" using n len by simp
  have frame: "upd_bytes (upd_bytes N 7 ?pdu) 0 (mbap_bytes h') = mbap_bytes h' @ ?pdu"
    if "length N = 9 + 2 * unat q" for h' N
    using that len by (simp add: upd_bytes_def)
  have clean: "(blocks \<sigma>)(?nb := None) = blocks \<sigma>" using mem(1) by (simp add: fun_upd_idem)
  note words = words_of_count[OF req(3)]
  show ?thesis
    using tcp_handle_reply[OF req(4) bs(1) _ handled, of ?nb ?out ?n sock] bs n fits clean words
    by (simp add: frame[simplified])
qed


theorem read_registers_reply_witness:
  "\<exists>\<sigma>'. modbus_tcp_handle_request (Ptr 0 0) 12 app_callbacks 5
      (test_state (mbap_bytes test_header @ [3, 0, 16, 0, 2]) ()) = Inr (0, \<sigma>') \<and>
    sent \<sigma>' = [(5, [1, 2, 0, 0, 0, 7, 1, 3, 4] @ replicate 4 0)]"
proof -
  have "request_at (test_state (mbap_bytes test_header @ [3, 0, 16, 0, 2]) ()) 0 test_header (3 # be16 16 @ be16 2)"
    by (rule request_at_test_state) (simp add: be16_def)
  from read_registers_reply[OF app_reader.word_reader_axioms app_callbacks_simps(3) this, of 12 5]
  show ?thesis by (auto simp: be16_def mbap_bytes_def test_header_def)
qed

text \<open>A request to read bits (function 1 or 2) of at most 2000 bits, with a bit
  callback installed, is answered with one byte per eight bits, each with its bits in
  reverse order of what the callback left, and the response block is freed.\<close>

theorem read_bits_reply:
  assumes cb: "bit_reader cb result content" "read_bits cbs = Some cb"
    and req: "request_at \<sigma> b h (fc # be16 a @ be16 q)" "fc = 1 \<or> fc = 2" "unat q \<le> 2000" "8 \<le> data_size"
    and mem: "wf_mem \<sigma>" "grants \<sigma> (next_block \<sigma>) (9 + (unat q + 7) div 8)"
    and ok: "result (app \<sigma>) (bit_table fc) a q = 0"
  shows "\<exists>\<sigma>' len bc. modbus_tcp_handle_request (Ptr b 0) data_size cbs sock \<sigma> = Inr (0, \<sigma>') \<and>
    sent \<sigma>' = sent \<sigma> @ [(sock, mbap_bytes (h\<lparr>mbap_length := len\<rparr>) @ [fc, bc] @
      map flip_bits (content (app \<sigma>) (bit_table fc) a q (replicate ((unat q + 7) div 8) 0)))] \<and>
    unat bc = (unat q + 7) div 8 \<and> unat len = 3 + unat bc \<and>
    blocks \<sigma>' = blocks \<sigma> \<and> app \<sigma>' = app \<sigma>"
proof -
  from req(1) obtain bs where bs: "blocks \<sigma> b = Some bs" "12 \<le> length bs" "mbap_of bs = h" "bs ! 7 = fc"
    "mk16 (bs ! 8) (bs ! 9) = a" "mk16 (bs ! 10) (bs ! 11) = q"
    using request_head[of \<sigma> b h fc a q "[]"] by auto
  let ?\<sigma> = "fresh_locals \<sigma>" and ?nb = "next_block \<sigma>" and ?m = "(unat q + 7) div 8"
  let ?c = "content (app \<sigma>) (bit_table fc) a q (replicate ?m 0)"
  define bc :: u8 where "bc = ucast (q div 8 + (if q mod 8 = 0 then 0 else 1))"
  define n :: u16 where "n = 2 + ucast bc + ucast (7 :: u8) + ucast (0 :: u8)"
  let ?pdu = "[fc, bc] @ map flip_bits ?c"
  let ?out = "upd_bytes (new_block (unat n) ?\<sigma>) 7 ?pdu"
  have q: "unat q \<le> 2040" using req(3) by simp
  have bc: "unat bc = ?m" unfolding bc_def by (rule unat_bit_byte_count[OF q])
  have len: "length ?c = ?m"
    using cb(1) by (simp add: bit_reader_def data_reader.content_length)
  have n: "unat n = 9 + ?m" unfolding n_def using unat_response_size[of bc 7 0] bc by simp
  have n6: "unat (n - 6) = 3 + ?m" using n by (simp add: unat_sub_if')
  have "modbus_read_bit_request_handler cbs (Ptr b 7) OutRef 7 0 ?\<sigma> =
      Inr (0, set_block ?nb ?out (after_alloc n ?\<sigma>))"
    using bit_reader.read_bit_request_run[OF cb(1), of ?\<sigma> b bs 7 fc a q 7 0 cbs] bs cb(2) q mem ok
    by (simp add: add.commute bc_def n_def)
  then have handled: "modbus_handle_request (Ptr b 7) cbs OutRef 7 0 ?\<sigma> =
      Inr (0, set_block ?nb ?out (after_alloc n ?\<sigma>))"
    using req(2) by (intro handle_request_ok[OF handle_request_dispatch[OF bs(1) _ bs(4)]])
      (use bs(2) in \<open>auto simp: modbus_dispatch_def\<close>)
  have fits: "7 + length ?pdu = length (new_block (unat n) ?\<sigma>)" using n len by simp
  have frame: "upd_bytes (upd_bytes N 7 ?pdu) 0 (mbap_bytes h') = mbap_bytes h' @ ?pdu"
    if "length N = 9 + ?m" for h' N
    using that len by (simp add: upd_bytes_def)
  have clean: "(blocks \<sigma>)(?nb := None) = blocks \<sigma>" using mem(1) by (simp add: fun_upd_idem)
  have "\<exists>\<sigma>'. modbus_tcp_handle_request (Ptr b 0) data_size cbs sock \<sigma> = Inr (0, \<sigma>') \<and>
      sent \<sigma>' = sent \<sigma> @ [(sock, mbap_bytes (h\<lparr>mbap_length := n - 6\<rparr>) @ ?pdu)] \<and>
      blocks \<sigma>' = blocks \<sigma> \<and> app \<sigma>' = app \<sigma>"
    using tcp_handle_reply[OF req(4) bs(1) _ handled, of ?nb ?out n sock] bs n fits clean
    by (simp add: frame[simplified])
  moreover have "unat (n - 6) = 3 + unat bc" using n6 bc by simp
  ultimately show ?thesis using bc by auto
qed

theorem read_bits_reply_witness:
  "\<exists>\<sigma>' len bc. modbus_tcp_handle_request (Ptr 0 0) 12 (app_callbacks\<lparr>read_bits := Some modbus_read_words_callback\<rparr>) 5
      (test_state (mbap_bytes test_header @ [1, 0, 16, 0, 9]) ()) = Inr (0, \<sigma>') \<and>
    sent \<sigma>' = [(5, mbap_bytes (test_header\<lparr>mbap_length := len\<rparr>) @ [1, bc] @ replicate 2 0)] \<and>
    unat bc = 2 \<and> unat len = 5"
proof -
  have "request_at (test_state (mbap_bytes test_header @ [1, 0, 16, 0, 9]) ()) 0 test_header (1 # be16 16 @ be16 9)"
    by (rule request_at_test_state) (simp add: be16_def)
  from read_bits_reply[OF app_bits.bit_reader_axioms _ this,
      of "app_callbacks\<lparr>read_bits := Some modbus_read_words_callback\<rparr>" 12 5]
  show ?thesis by auto
qed

lemma illegal_function_reply:
  assumes req: "request_at \<sigma> b h (fc # rest)" "8 \<le> data_size"
    and run: "modbus_dispatch cbs (Ptr b 7) fc OutRef 7 0 (fresh_locals \<sigma>) = Inr (1, fresh_locals \<sigma>)"
    and mem: "wf_mem \<sigma>" "grants \<sigma> (next_block \<sigma>) 9"
  shows "\<exists>\<sigma>'. modbus_tcp_handle_request (Ptr b 0) data_size cbs sock \<sigma> = Inr (0, \<sigma>') \<and>
    sent \<sigma>' = sent \<sigma> @ [(sock, mbap_bytes (h\<lparr>mbap_length := 3\<rparr>) @ [fc + 0x80, 1])] \<and>
    blocks \<sigma>' = blocks \<sigma> \<and> app \<sigma>' = app \<sigma>"
proof -
  obtain bs where bs: "blocks \<sigma> b = Some bs" "7 + length (fc # rest) \<le> length bs" "mbap_of bs = h"
    "take (length (fc # rest)) (drop 7 bs) = fc # rest"
    using req(1) by (rule request_atE)
  then have fc7: "bs ! 7 = fc" using nth_drop_take_eq[OF bs(4), of 0] by simp
  let ?\<sigma> = "fresh_locals \<sigma>" and ?nb = "next_block \<sigma>"
  let ?\<sigma>1 = "set_block ?nb (upd_bytes (new_block 9 ?\<sigma>) 7 [fc + 0x80, 1]) (after_alloc 9 ?\<sigma>)"
  have err: "modbus_create_error_response OutRef fc 1 7 0 ?\<sigma> = Inr ((), ?\<sigma>1)"
    using modbus_create_error_response_ok[of ?\<sigma> 7 0 fc 1] mem(2) by simp
  have handled: "modbus_handle_request (Ptr b 7) cbs OutRef 7 0 ?\<sigma> = Inr (0, ?\<sigma>1)"
    using handle_request_error_clean[OF handle_request_dispatch[OF bs(1) _ fc7] run] bs(2)
    by (simp add: bindm_unfold err run_simps)
  have frame: "upd_bytes (upd_bytes N 7 [x, y]) 0 (mbap_bytes h') = mbap_bytes h' @ [x, y]"
    if "length N = 9" for N x y h' using that by (simp add: upd_bytes_def)
  have clean: "(blocks \<sigma>)(?nb := None) = blocks \<sigma>" using mem(1) by (simp add: fun_upd_idem)
  show ?thesis
    using tcp_handle_reply[OF req(2) bs(1) _ handled, of ?nb _ 9 sock] bs clean
    by (simp add: frame)
qed

text \<open>C5: A request for a function code the dispatcher does not know, or for coils when no bit
  callback for writing is installed, is answered with the exception code 1 (illegal
  function), the function code with its top bit added, and the memory is as before.\<close>

theorem unsupported_function_exception:
  assumes req: "request_at \<sigma> b h (fc # rest)" "8 \<le> data_size"
    and fc: "fc \<notin> {1, 2, 3, 4, 5, 6, 16, 23}" "fc = 15 \<longrightarrow> write_bits cbs = None"
    and mem: "wf_mem \<sigma>" "grants \<sigma> (next_block \<sigma>) 9"
  shows "\<exists>\<sigma>'. modbus_tcp_handle_request (Ptr b 0) data_size cbs sock \<sigma> = Inr (0, \<sigma>') \<and>
    sent \<sigma>' = sent \<sigma> @ [(sock, mbap_bytes (h\<lparr>mbap_length := 3\<rparr>) @ [fc + 0x80, 1])] \<and>
    blocks \<sigma>' = blocks \<sigma> \<and> app \<sigma>' = app \<sigma>"
proof -
  have "modbus_dispatch cbs (Ptr b 7) fc OutRef 7 0 (fresh_locals \<sigma>) = Inr (1, fresh_locals \<sigma>)"
    using fc by (auto simp: modbus_dispatch_def modbus_write_multiple_coils_request_handler_def run_simps)
  from illegal_function_reply[OF req this mem] show ?thesis .
qed

theorem unsupported_function_exception_witness:
  "\<exists>\<sigma>'. modbus_tcp_handle_request (Ptr 0 0) 8 app_callbacks 5
      (test_state (mbap_bytes test_header @ [0x2B]) ()) = Inr (0, \<sigma>') \<and>
    sent \<sigma>' = [(5, mbap_bytes (test_header\<lparr>mbap_length := 3\<rparr>) @ [0xAB, 1])]"
proof -
  have "request_at (test_state (mbap_bytes test_header @ [0x2B]) ()) 0 test_header (0x2B # [])"
    by (rule request_at_test_state) simp
  from unsupported_function_exception[OF this, of 8 app_callbacks 5] show ?thesis by auto
qed

text \<open>C4: A request to write registers (function 16) whose data fits the receive buffer
  twice over hands the callback the register values in the byte order of the
  processor, whatever the byte order of the request; if the callback returns 0 its
  state change is kept and the answer echoes the function code, the address and the
  quantity.\<close>

theorem write_registers_reply:
  assumes cb: "word_writer cb result stored" "write_words cbs = Some cb"
    and req: "request_at \<sigma> b h (16 # be16 a @ be16 q @ bc # concat (map be16 ws))"
      "unat bc = 2 * length ws" "unat q = length ws" "8 \<le> data_size"
      "blocks \<sigma> b = Some bs" "13 + 2 * unat bc \<le> length bs"
    and mem: "wf_mem \<sigma>" "grants \<sigma> (next_block \<sigma>) 12"
    and ok: "result (app \<sigma>) 4 a q (concat (map le16 ws)) = 0"
  shows "\<exists>\<sigma>'. modbus_tcp_handle_request (Ptr b 0) data_size cbs sock \<sigma> = Inr (0, \<sigma>') \<and>
    app \<sigma>' = stored (app \<sigma>) 4 a q (concat (map le16 ws)) \<and>
    sent \<sigma>' = sent \<sigma> @ [(sock, mbap_bytes (h\<lparr>mbap_length := 6\<rparr>) @ 16 # be16 a @ be16 q)] \<and>
    served b \<sigma> \<sigma>'"
proof -
  let ?ws = "concat (map be16 ws)"
  have lws: "length ?ws = 2 * length ws" by (induction ws) simp_all
  obtain bs0 where "blocks \<sigma> b = Some bs0" "12 + length (bc # ?ws) \<le> length bs0" "mbap_of bs0 = h" "bs0 ! 7 = 16"
    "mk16 (bs0 ! 8) (bs0 ! 9) = a" "mk16 (bs0 ! 10) (bs0 ! 11) = q"
    "take (length (bc # ?ws)) (drop 12 bs0) = bc # ?ws" "take 5 (drop 7 bs0) = 16 # be16 a @ be16 q"
    using request_head[OF req(1)] by metis
  with req(5) have bs: "12 + length (bc # ?ws) \<le> length bs" "mbap_of bs = h" "bs ! 7 = 16"
    "mk16 (bs ! 8) (bs ! 9) = a" "mk16 (bs ! 10) (bs ! 11) = q"
    "take (length (bc # ?ws)) (drop 12 bs) = bc # ?ws" "take 5 (drop 7 bs) = 16 # be16 a @ be16 q" by auto
  have bc: "bs ! 12 = bc" using nth_drop_take_eq[OF bs(6), of 0] bs(1) by simp
  have "drop 1 (take (length (bc # ?ws)) (drop 12 bs)) = ?ws" unfolding bs(6) by simp
  then have ws: "take (2 * unat q) (drop 13 bs) = ?ws" using lws req(3) by (simp add: drop_take)
  let ?d = "swap_pairs (take (2 * unat bc) (drop 13 bs))"
  have d: "take (2 * unat q) ?d = concat (map le16 ws)"
    using ws req(2,3) by (simp add: take_swap_pairs min_absorb1 swap_concat_be16)
  let ?\<sigma> = "fresh_locals \<sigma>" and ?nb = "next_block \<sigma>"
  have other: "?nb \<noteq> b" using req(5) wf_mem_next[OF mem(1)] by auto
  let ?bs' = "upd_bytes bs 13 ?d" and ?out = "upd_bytes (new_block 12 ?\<sigma>) 7 (16 # be16 a @ be16 q)"
  let ?\<sigma>1 = "set_block ?nb ?out (set_block b ?bs' (after_alloc 12 ?\<sigma>)\<lparr>app := stored (app \<sigma>) 4 a q (concat (map le16 ws))\<rparr>)"
  have w: "data_writer cb (\<lambda>q. 2 * unat q) result stored" using cb(1) by (simp add: word_writer_def)
  have run: "modbus_write_multiple_registers_request_handler cbs (Ptr b 7) OutRef 7 0 ?\<sigma> = Inr (0, ?\<sigma>1)"
    using data_writer.write_multiple_registers_run[OF w, of ?\<sigma> b bs 7 16 a q bc 7 0 cbs] bs(3-5,7) bc req cb(2) mem d ok
    by (simp add: wf_mem_def)
  have handled: "modbus_handle_request (Ptr b 7) cbs OutRef 7 0 ?\<sigma> = Inr (0, ?\<sigma>1)"
    by (rule handle_request_ok[OF handle_request_dispatch[OF req(5) _ bs(3)]])
      (use bs(1) run in \<open>simp_all add: modbus_dispatch_def\<close>)
  have frame: "upd_bytes (upd_bytes N 7 (16 # be16 a @ be16 q)) 0 (mbap_bytes h') = mbap_bytes h' @ 16 # be16 a @ be16 q"
    if "length N = 12" for h' N using that by (simp add: upd_bytes_def)
  let ?reply = "take (unat (12 :: u16)) (upd_bytes ?out 0 (mbap_bytes ((mbap_of bs)\<lparr>mbap_length := 12 - 6\<rparr>)))"
  let ?\<sigma>' = "?\<sigma>1\<lparr>blocks := (blocks ?\<sigma>1)(?nb := None), sent := sent ?\<sigma>1 @ [(sock, ?reply)], obuf := NULL\<rparr>"
  have R: "modbus_tcp_handle_request (Ptr b 0) data_size cbs sock \<sigma> = Inr (0, ?\<sigma>')"
    by (rule tcp_handle_reply[OF req(4) req(5) _ handled]) (use bs(1) in simp_all)
  have "blocks ?\<sigma>' = (blocks \<sigma>)(b \<mapsto> ?bs')"
    using mem(1) other by (auto simp: fun_eq_iff)
  then have "served b \<sigma> ?\<sigma>'"
    unfolding served_def using mem(1) req(5,6) other by (auto simp: wf_mem_def)
  moreover have "?reply = mbap_bytes (h\<lparr>mbap_length := 6\<rparr>) @ 16 # be16 a @ be16 q"
    by (simp add: frame bs(2))
  ultimately show ?thesis
    using R by (intro exI[of _ ?\<sigma>']) simp
qed

theorem write_registers_reply_witness:
  "\<exists>\<sigma>'. modbus_tcp_handle_request (Ptr 0 0) 17 app_callbacks 5
      (test_state (mbap_bytes test_header @ [16, 0, 1, 0, 2, 4, 0x12, 0x34, 0x56, 0x78] @ replicate 4 0) ()) = Inr (0, \<sigma>') \<and>
    sent \<sigma>' = [(5, mbap_bytes (test_header\<lparr>mbap_length := 6\<rparr>) @ [16, 0, 1, 0, 2])]"
proof -
  let ?bs = "mbap_bytes test_header @ [16, 0, 1, 0, 2, 4, 0x12, 0x34, 0x56, 0x78] @ replicate 4 0"
  have "request_at (test_state ?bs ()) 0 test_header
      (16 # be16 1 @ be16 2 @ 4 # concat (map be16 [0x1234, 0x5678]))"
    by (rule request_at_test_state) (simp add: be16_def)
  from write_registers_reply[OF app_word_writer.word_writer_axioms app_callbacks_simps(4) this, of 17 ?bs 5]
  show ?thesis by (auto simp: be16_def)
qed

text \<open>A request to write one register (function 6) is answered with a response whose
  five payload bytes are the uninitialised contents of the new heap block: the header
  overwrites the echo, which the handler wrote at the start of the block.\<close>

theorem write_register_reply_uninitialised:
  assumes cb: "word_writer cb result stored" "write_words cbs = Some cb"
    and req: "request_at \<sigma> b h (6 # be16 a @ be16 v)" "8 \<le> data_size"
    and mem: "wf_mem \<sigma>" "grants \<sigma> (Suc (next_block \<sigma>)) 12"
    and ok: "result (app \<sigma>) 4 a 1 (le16 v) = 0"
  shows "\<exists>\<sigma>'. modbus_tcp_handle_request (Ptr b 0) data_size cbs sock \<sigma> = Inr (0, \<sigma>') \<and>
    app \<sigma>' = stored (app \<sigma>) 4 a 1 (le16 v) \<and> blocks \<sigma>' = blocks \<sigma> \<and>
    sent \<sigma>' = sent \<sigma> @ [(sock, mbap_bytes (h\<lparr>mbap_length := 6\<rparr>) @ map (junk \<sigma> (Suc (next_block \<sigma>))) [7..<12])]"
proof -
  from req(1) obtain bs where bs: "blocks \<sigma> b = Some bs" "12 \<le> length bs" "mbap_of bs = h" "bs ! 7 = 6"
    "mk16 (bs ! 8) (bs ! 9) = a" "mk16 (bs ! 10) (bs ! 11) = v"
    using request_head[of \<sigma> b h 6 a v "[]"] by auto
  let ?\<sigma> = "fresh_locals \<sigma>" and ?r = "Suc (next_block \<sigma>)"
  let ?new = "map (junk \<sigma> ?r) [0..<12]"
  let ?out = "upd_bytes ?new 0 (6 # be16 a @ be16 v)"
  have w: "data_writer cb (\<lambda>q. 2 * unat q) result stored" using cb(1) by (simp add: word_writer_def)
  obtain \<sigma>1 where run: "modbus_write_request_handler cbs (Ptr b 7) OutRef 7 0 ?\<sigma> = Inr (0, \<sigma>1)"
    and s: "blocks \<sigma>1 = (blocks \<sigma>)(?r \<mapsto> ?out)" "obuf \<sigma>1 = Ptr ?r 0" "osize \<sigma>1 = 12" "sent \<sigma>1 = sent \<sigma>"
      "app \<sigma>1 = stored (app \<sigma>) 4 a 1 (le16 v)"
    using data_writer.write_single_register_run[OF w, of ?\<sigma> b bs 7 a v 7 0 cbs] bs mem cb(2) ok
    by (auto simp: wf_mem_def)
  have handled: "modbus_handle_request (Ptr b 7) cbs OutRef 7 0 ?\<sigma> = Inr (0, \<sigma>1)"
    by (rule handle_request_ok[OF handle_request_dispatch[OF bs(1) _ bs(4)]])
      (use bs(2) run in \<open>simp_all add: modbus_dispatch_def\<close>)
  have frame: "upd_bytes ?out 0 (mbap_bytes h') = mbap_bytes h' @ map (junk \<sigma> ?r) [7..<12]" for h'
    by (simp add: upd_bytes_def drop_map)
  have clean: "(blocks \<sigma>)(?r := None) = blocks \<sigma>" using mem(1) by (simp add: fun_upd_idem wf_mem_def)
  show ?thesis
    using tcp_handle_reply[OF req(2) bs(1) _ handled s(2), of ?out 12 sock] bs(2,3) s clean
    by (simp add: frame)
qed

theorem write_register_reply_uninitialised_witness:
  "\<exists>\<sigma>'. modbus_tcp_handle_request (Ptr 0 0) 12 app_callbacks 5
      (test_state (mbap_bytes test_header @ [6, 0, 1, 0x12, 0x34]) ()) = Inr (0, \<sigma>') \<and>
    sent \<sigma>' = [(5, mbap_bytes (test_header\<lparr>mbap_length := 6\<rparr>) @ map (\<lambda>_. 0xA5) [7..<12])]"
proof -
  have "request_at (test_state (mbap_bytes test_header @ [6, 0, 1, 0x12, 0x34]) ()) 0 test_header (6 # be16 1 @ be16 0x1234)"
    by (rule request_at_test_state) (simp add: be16_def)
  from write_register_reply_uninitialised[OF app_word_writer.word_writer_axioms app_callbacks_simps(4) this, of 12 5]
  show ?thesis by auto
qed

text \<open>C1: With the callbacks the application installs and memory available, a request
  makes the firmware leave defined behaviour exactly if it reads bits (a write through a
  null pointer), reads more than 127 registers (the byte-order loop leaves the response)
  or writes registers with a byte count above 25 (the loop leaves the receive buffer).\<close>

theorem app_request_faults_iff:
  assumes "blocks \<sigma> b = Some bs" and "length bs = 64" and "wf_mem \<sigma>" and "8 \<le> data_size"
    and "\<forall>n. grants \<sigma> (next_block \<sigma>) n"
  shows "(\<exists>e. modbus_tcp_handle_request (Ptr b 0) data_size app_callbacks sock \<sigma> = Inl e) \<longleftrightarrow> \<not> safe_request bs"
proof
  assume "\<exists>e. modbus_tcp_handle_request (Ptr b 0) data_size app_callbacks sock \<sigma> = Inl e"
  then show "\<not> safe_request bs"
    using safe_request_served[OF assms(1-3), of data_size sock] by auto
next
  assume "\<not> safe_request bs"
  then consider "bs ! 7 = 1 \<or> bs ! 7 = 2"
    | "bs ! 7 = 3 \<or> bs ! 7 = 4" "127 < unat (mk16 (bs ! 10) (bs ! 11))"
    | "bs ! 7 = 16" "25 < unat (bs ! 12)"
    unfolding safe_request_def by (auto simp: word_le_nat_alt not_le)
  then show "\<exists>e. modbus_tcp_handle_request (Ptr b 0) data_size app_callbacks sock \<sigma> = Inl e"
    using assms read_bits_missing_crashes[OF assms(1) _ assms(3) _ assms(4,5), of app_callbacks sock]
      read_words_many_out_of_bounds[OF assms(1) _ assms(3) _ assms(4,5), of sock]
      write_words_many_out_of_bounds[OF assms(1) _ assms(3) _ assms(4,5), of app_callbacks _ sock]
    by cases auto
qed

theorem app_request_faults_iff_witness:
  "\<exists>e. modbus_tcp_handle_request (Ptr 0 0) 12 app_callbacks 5
      (test_state (mbap_bytes test_header @ 1 # replicate 56 0) ()) = Inl e"
  using app_request_faults_iff[of "test_state (mbap_bytes test_header @ 1 # replicate 56 0) ()" 0
      "mbap_bytes test_header @ 1 # replicate 56 0" 12 5]
  by (simp add: safe_request_def nth_append)

text \<open>If the callback of a register read reports any error, no exception is sent: the
  dispatcher frees the response, clears its own pointer to the caller's variable and
  writes through it.\<close>

theorem read_callback_error_crashes:
  assumes cb: "word_reader cb result content" "read_words cbs = Some cb"
    and req: "request_at \<sigma> b h (fc # be16 a @ be16 q)" "fc = 3 \<or> fc = 4" "unat q \<le> 127" "8 \<le> data_size"
    and mem: "wf_mem \<sigma>" "grants \<sigma> (next_block \<sigma>) (9 + 2 * unat q)"
    and failed: "result (app \<sigma>) (word_table fc) a q \<noteq> 0"
  shows "modbus_tcp_handle_request (Ptr b 0) data_size cbs sock \<sigma> = Inl Null_Deref"
proof -
  from req(1) obtain bs where bs: "blocks \<sigma> b = Some bs" "12 \<le> length bs" "mbap_of bs = h" "bs ! 7 = fc"
    "mk16 (bs ! 8) (bs ! 9) = a" "mk16 (bs ! 10) (bs ! 11) = q"
    using request_head[of \<sigma> b h fc a q "[]"] by auto
  obtain \<sigma>1 where "modbus_read_word_request_handler cbs (Ptr b 7) OutRef 7 0 (fresh_locals \<sigma>) =
      Inr (result (app \<sigma>) (word_table fc) a q, \<sigma>1)"
    and \<sigma>1: "obuf \<sigma>1 = Ptr (next_block \<sigma>) 0" "blocks \<sigma>1 (next_block \<sigma>) \<noteq> None"
    using word_reader.read_word_request_failed_run[OF cb(1), of "fresh_locals \<sigma>" b bs 7 fc a q 7 0 cbs] bs cb(2) req(3) mem failed
    by (auto simp: add.commute)
  then have run: "modbus_dispatch cbs (Ptr b 7) fc OutRef 7 0 (fresh_locals \<sigma>) =
      Inr (result (app \<sigma>) (word_table fc) a q, \<sigma>1)"
    using req(2) by (auto simp: modbus_dispatch_def)
  have "modbus_handle_request (Ptr b 7) cbs OutRef 7 0 (fresh_locals \<sigma>) = Inl Null_Deref"
    by (rule handle_request_error_crash[OF handle_request_dispatch[OF bs(1) _ bs(4)] run failed \<sigma>1])
      (use bs(2) in simp)
  then show ?thesis
    by (rule tcp_handle_fault[OF req(4) bs(1), rotated]) (use bs(2) in simp)
qed

text \<open>A callback that refuses every address, to show that the hypotheses can hold.\<close>

definition refusing_callback :: "'a data_cb" where
  "refusing_callback function_code data_table_type starting_address quantity data = returnm 2"

lemma refusing_reader: "word_reader refusing_callback (\<lambda>_ _ _ _. 2) (\<lambda>_ _ _ _ old. old)"
  by unfold_locales (auto simp: refusing_callback_def run_simps upd_bytes_same set_block_same)

theorem read_callback_error_crashes_witness:
  "modbus_tcp_handle_request (Ptr 0 0) 12 (app_callbacks\<lparr>read_words := Some refusing_callback\<rparr>) 5
      (test_state (mbap_bytes test_header @ [3, 0, 16, 0, 2]) ()) = Inl Null_Deref"
proof -
  have "request_at (test_state (mbap_bytes test_header @ [3, 0, 16, 0, 2]) ()) 0 test_header (3 # be16 16 @ be16 2)"
    by (rule request_at_test_state) (simp add: be16_def)
  from read_callback_error_crashes[OF refusing_reader _ this,
      of "app_callbacks\<lparr>read_words := Some refusing_callback\<rparr>" 12 5]
  show ?thesis by simp
qed

text \<open>With a callback for writing bits installed, no request to write coils (function 15)
  is ever answered: the handler returns a pointer into the middle of its response, so
  that either the header is written past its end (success) or the block is freed through
  an inner pointer (error).\<close>

theorem write_coils_faults:
  assumes cb: "data_writer cb bytes result stored" "write_bits cbs = Some cb"
    and req: "request_at \<sigma> b h (15 # be16 a @ be16 q @ [bc])" "8 \<le> data_size"
      "blocks \<sigma> b = Some bs" "13 + unat bc \<le> length bs" "13 + bytes q \<le> length bs"
    and mem: "wf_mem \<sigma>" "grants \<sigma> (next_block \<sigma>) 12"
  shows "modbus_tcp_handle_request (Ptr b 0) data_size cbs sock \<sigma> \<in> {Inl Out_Of_Bounds, Inl Bad_Free}"
proof -
  obtain bs0 where "blocks \<sigma> b = Some bs0" "12 + length [bc] \<le> length bs0" "mbap_of bs0 = h" "bs0 ! 7 = 15"
    "mk16 (bs0 ! 10) (bs0 ! 11) = q" "take (length [bc]) (drop 12 bs0) = [bc]"
    using request_head[OF req(1)] by metis
  with req(3) have bs: "12 + length [bc] \<le> length bs" "bs ! 7 = 15" "mk16 (bs ! 10) (bs ! 11) = q"
    "take (length [bc]) (drop 12 bs) = [bc]" by auto
  have bc: "bs ! 12 = bc" using nth_drop_take_eq[OF bs(4), of 0] bs(1) by simp
  let ?\<sigma> = "fresh_locals \<sigma>" and ?nb = "next_block \<sigma>"
  obtain r \<sigma>1 out where run: "modbus_write_multiple_coils_request_handler cbs (Ptr b 7) OutRef 7 0 ?\<sigma> = Inr (r, \<sigma>1)"
    and \<sigma>1: "obuf \<sigma>1 = Ptr ?nb 7" "blocks \<sigma>1 ?nb = Some out" "length out = 12"
    using data_writer.write_multiple_coils_run[OF cb(1), of ?\<sigma> b bs 7 q bc 7 0 cbs] bs bc req cb(2) mem
    by (auto simp: wf_mem_def)
  have ld: "load8 (Ptr b 7) ?\<sigma> = Inr (15, ?\<sigma>)"
    by (rule handle_request_dispatch[OF req(3) _ bs(2)]) (use bs(1) in simp)
  have d: "modbus_dispatch cbs (Ptr b 7) 15 OutRef 7 0 ?\<sigma> = Inr (r, \<sigma>1)"
    using run by (simp add: modbus_dispatch_def)
  show ?thesis
  proof (cases "r = 0")
    case True
    then have "modbus_handle_request (Ptr b 7) cbs OutRef 7 0 ?\<sigma> = Inr (0, \<sigma>1)"
      using handle_request_ok[OF ld] d by simp
    then show ?thesis
      using req(2,3) bs(1) \<sigma>1
      by (simp add: modbus_tcp_handle_request_def bindm_unfold run_simps modbus_mbap_fill_struct_ok
          modbus_mbap_fill_from_struct_def store8_ok store8_out)
  next
    case False
    then have "modbus_handle_request (Ptr b 7) cbs OutRef 7 0 ?\<sigma> = Inl Bad_Free"
      using ld d \<sigma>1(1) by (simp add: modbus_handle_request_def bindm_unfold run_simps vPortFree_inner)
    then have "modbus_tcp_handle_request (Ptr b 0) data_size cbs sock \<sigma> = Inl Bad_Free"
      by (rule tcp_handle_fault[OF req(2,3), rotated]) (use bs(1) in simp)
    then show ?thesis by simp
  qed
qed

theorem write_coils_faults_witness:
  "modbus_tcp_handle_request (Ptr 0 0) 14 (app_callbacks\<lparr>write_bits := Some modbus_write_words_callback\<rparr>) 5
      (test_state (mbap_bytes test_header @ [15, 0, 1, 0, 3, 1, 5]) ()) \<in> {Inl Out_Of_Bounds, Inl Bad_Free}"
proof -
  let ?bs = "mbap_bytes test_header @ [15, 0, 1, 0, 3, 1, 5]"
  have "request_at (test_state ?bs ()) 0 test_header (15 # be16 1 @ be16 3 @ [1])"
    by (rule request_at_test_state) (simp add: be16_def)
  from write_coils_faults[OF app_writer.data_writer_axioms _ this,
      of "app_callbacks\<lparr>write_bits := Some modbus_write_words_callback\<rparr>" 14 ?bs 5]
  show ?thesis by simp
qed

text \<open>A combined read and write of registers (function 23) is refused as an illegal
  function although both register callbacks are installed, because the handler passes
  the write to the handler of coils, which finds no callback for bits.\<close>

theorem read_write_registers_refused:
  assumes req: "request_at \<sigma> b h (23 # rest)" "8 \<le> data_size" and cbs: "write_bits cbs = None"
    and mem: "wf_mem \<sigma>" "grants \<sigma> (next_block \<sigma>) 9"
  shows "\<exists>\<sigma>'. modbus_tcp_handle_request (Ptr b 0) data_size cbs sock \<sigma> = Inr (0, \<sigma>') \<and>
    sent \<sigma>' = sent \<sigma> @ [(sock, mbap_bytes (h\<lparr>mbap_length := 3\<rparr>) @ [0x97, 1])] \<and>
    blocks \<sigma>' = blocks \<sigma> \<and> app \<sigma>' = app \<sigma>"
proof -
  have "modbus_dispatch cbs (Ptr b 7) 23 OutRef 7 0 (fresh_locals \<sigma>) = Inr (1, fresh_locals \<sigma>)"
    using cbs by (simp add: modbus_dispatch_def modbus_read_write_multiple_registers_request_handler_def
        modbus_write_multiple_coils_request_handler_def bindm_unfold run_simps)
  from illegal_function_reply[OF req(1,2) this mem] show ?thesis by simp
qed

theorem read_write_registers_refused_witness:
  "\<exists>\<sigma>'. modbus_tcp_handle_request (Ptr 0 0) 8 app_callbacks 5
      (test_state (mbap_bytes test_header @ [23]) ()) = Inr (0, \<sigma>') \<and>
    sent \<sigma>' = [(5, mbap_bytes (test_header\<lparr>mbap_length := 3\<rparr>) @ [0x97, 1])]"
proof -
  have "request_at (test_state (mbap_bytes test_header @ [23]) ()) 0 test_header (23 # [])"
    by (rule request_at_test_state) simp
  from read_write_registers_refused[OF this, of 8 app_callbacks 5] show ?thesis by auto
qed

section \<open>Connections\<close>

lemma handle_request_returns_0:
  "modbus_handle_request inp cbs out pre apd \<sigma> = Inr (r, \<sigma>') \<Longrightarrow> r = 0"
  by (auto simp: modbus_handle_request_def bindm_Inr_iff run_simps split: if_splits)

text \<open>Whatever the request and the callbacks, the only codes
  \<open>modbus_tcp_handle_request\<close> returns are 0 and, for fewer than 8 bytes, 3: the code on
  which the connection loop would close the connection is never returned.\<close>

theorem tcp_return_codes:
  assumes "modbus_tcp_handle_request data data_size cbs sock \<sigma> = Inr (r, \<sigma>')"
  shows "r = (if data_size < 8 then 3 else 0)"
  using assms
  by (auto simp: modbus_tcp_handle_request_def bindm_Inr_iff run_simps handle_request_returns_0
      split: if_splits dest!: handle_request_returns_0)

theorem tcp_return_codes_witness:
  "modbus_tcp_handle_request (Ptr 0 0) 7 app_callbacks 5 (test_state (mbap_bytes test_header) ()) \<noteq>
    Inr (0xC0, test_state (mbap_bytes test_header) ())"
  using tcp_return_codes[of "Ptr 0 0" 7 app_callbacks 5 "test_state (mbap_bytes test_header) ()" "0xC0"] by auto

text \<open>A received segment the shipped application handles safely, whatever the buffer held before.\<close>

definition safe_segment :: "u8 list \<Rightarrow> bool" where
  "safe_segment received \<longleftrightarrow>
     (let m = take 64 received in length m < 8 \<or> 13 \<le> length m \<and> safe_request m)"

lemma safe_request_upd: "13 \<le> length m \<Longrightarrow> length m \<le> length bs \<Longrightarrow> safe_request (upd_bytes bs 0 m) = safe_request m"
  by (simp add: safe_request_def nth_upd_bytes)

lemma served_trans: "served b \<sigma> \<sigma>1 \<Longrightarrow> served b \<sigma>1 \<sigma>2 \<Longrightarrow> served b \<sigma> \<sigma>2"
  by (auto simp: served_def)

lemma tcp_short: "data_size < 8 \<Longrightarrow> modbus_tcp_handle_request data data_size cbs sock \<sigma> = Inr (3, \<sigma>)"
  by (simp add: modbus_tcp_handle_request_def run_simps)

lemma segment_served:
  assumes b: "blocks \<sigma> b = Some bs" "length bs = 64" and wf: "wf_mem \<sigma>" and safe: "safe_segment received"
  shows "\<exists>\<sigma>1 r \<sigma>2. write_bytes (Ptr b 0) (take 64 received) \<sigma> = Inr ((), \<sigma>1) \<and>
    modbus_tcp_handle_request (Ptr b 0) (int (length (take 64 received))) app_callbacks sock \<sigma>1 = Inr (r, \<sigma>2) \<and>
    r \<in> {0, 3} \<and> served b \<sigma> \<sigma>2"
proof -
  let ?m = "take 64 received" and ?bs = "upd_bytes bs 0 (take 64 received)"
  let ?\<sigma>1 = "set_block b ?bs \<sigma>"
  have w: "write_bytes (Ptr b 0) ?m \<sigma> = Inr ((), ?\<sigma>1)"
    by (rule write_bytes_ok[OF b(1)]) (simp add: b(2))
  have len: "length ?bs = 64" using b(2) by simp
  have s1: "served b \<sigma> ?\<sigma>1" using b len wf by (auto simp: served_def wf_mem_def)
  then have wf1: "wf_mem ?\<sigma>1" by (simp add: served_def)
  show ?thesis
  proof (cases "length ?m < 8")
    case True
    then have "modbus_tcp_handle_request (Ptr b 0) (int (length ?m)) app_callbacks sock ?\<sigma>1 = Inr (3, ?\<sigma>1)"
      by (intro tcp_short) simp
    with w s1 show ?thesis by blast
  next
    case False
    with safe have "13 \<le> length ?m" "safe_request ?m" by (auto simp: safe_segment_def Let_def)
    then have "safe_request ?bs" using b(2) by (subst safe_request_upd) auto
    then obtain r \<sigma>2 where "modbus_tcp_handle_request (Ptr b 0) (int (length ?m)) app_callbacks sock ?\<sigma>1 = Inr (r, \<sigma>2)"
      "r \<in> {0, 3}" "served b ?\<sigma>1 \<sigma>2"
      using safe_request_served[of ?\<sigma>1 b ?bs "int (length ?m)" sock] len wf1 by auto
    with w s1 served_trans show ?thesis by blast
  qed
qed

lemma connection_loop_served:
  assumes "blocks \<sigma> b = Some bs" "length bs = 64" "wf_mem \<sigma>" "\<forall>c\<in>set inbox. safe_segment c"
  shows "\<exists>\<sigma>'. connection_loop app_callbacks sock (Ptr b 0) ret inbox \<sigma> = Inr ((), \<sigma>') \<and> served b \<sigma> \<sigma>'"
  using assms
proof (induction inbox arbitrary: \<sigma> bs ret)
  case Nil
  then show ?case by (auto simp: run_simps served_def intro!: exI[of _ bs])
next
  case (Cons c inbox)
  obtain \<sigma>1 r \<sigma>2 where *: "write_bytes (Ptr b 0) (take 64 c) \<sigma> = Inr ((), \<sigma>1)"
    "modbus_tcp_handle_request (Ptr b 0) (int (length (take 64 c))) app_callbacks sock \<sigma>1 = Inr (r, \<sigma>2)"
    "served b \<sigma> \<sigma>2"
    using segment_served[OF Cons.prems(1-3), of c sock] Cons.prems(4) by auto
  obtain bs2 where "blocks \<sigma>2 b = Some bs2" "length bs2 = 64" "wf_mem \<sigma>2"
    using *(3) Cons.prems(1,2) by (auto simp: served_def)
  from Cons.IH[OF this, of "uint r"] Cons.prems(4) obtain \<sigma>'
    where "connection_loop app_callbacks sock (Ptr b 0) (uint r) inbox \<sigma>2 = Inr ((), \<sigma>')" "served b \<sigma>2 \<sigma>'" by auto
  moreover have "served b \<sigma> \<sigma>"
    using Cons.prems by (auto simp: served_def intro!: exI[of _ bs])
  ultimately show ?case
    using * served_trans by (auto simp: bindm_unfold returnm_run)
qed

text \<open>C2: A connection on which every received segment is either shorter than 8 bytes
  or a safe request of at least 13 bytes is served to its end with the shipped
  application, whatever the segments hold, however often memory is refused, and leaves
  the memory exactly as it was.\<close>

theorem connection_served:
  assumes "wf_mem \<sigma>" and "\<forall>c\<in>set inbox. safe_segment c"
  shows "\<exists>\<sigma>'. modbus_tcp_connection_handle app_callbacks sock inbox \<sigma> = Inr ((), \<sigma>') \<and>
    blocks \<sigma>' = blocks \<sigma> \<and> wf_mem \<sigma>'"
proof -
  let ?b = "next_block \<sigma>"
  let ?buf = "map (junk \<sigma> ?b) [0..<64]"
  let ?\<sigma>1 = "(set_block ?b ?buf \<sigma>)\<lparr>next_block := Suc ?b\<rparr>"
  obtain \<sigma>2 where \<sigma>2: "connection_loop app_callbacks sock (Ptr ?b 0) 0 inbox ?\<sigma>1 = Inr ((), \<sigma>2)" "served ?b ?\<sigma>1 \<sigma>2"
    using connection_loop_served[of ?\<sigma>1 ?b ?buf inbox sock 0] assms by (auto simp: wf_mem_def)
  then obtain buf' where "blocks \<sigma>2 = (blocks \<sigma>)(?b \<mapsto> buf')" "wf_mem \<sigma>2" by (auto simp: served_def)
  moreover from this have "\<forall>b'\<ge>next_block \<sigma>2. blocks \<sigma> b' = None"
    by (auto simp: wf_mem_def split: if_splits)
  ultimately show ?thesis
    using assms(1) \<sigma>2(1)
    by (simp add: modbus_tcp_connection_handle_def with_uninit_def with_local_def bindm_unfold run_simps
        stack_alloc_run vPortFree_ok fun_upd_idem wf_mem_def)
qed

theorem connection_served_witness:
  "\<exists>\<sigma>'. modbus_tcp_connection_handle app_callbacks 5
      [mbap_bytes test_header @ [16, 0, 1, 0, 1, 2, 0x12, 0x34], [1, 2, 3], mbap_bytes test_header @ 0x2B # replicate 9 0]
      (test_state [] ()) = Inr ((), \<sigma>') \<and> blocks \<sigma>' = [0 \<mapsto> []]"
  using connection_served[of "test_state [] ()"
      "[mbap_bytes test_header @ [16, 0, 1, 0, 1, 2, 0x12, 0x34], [1, 2, 3], mbap_bytes test_header @ 0x2B # replicate 9 0]" 5]
  by (auto simp: safe_segment_def safe_request_def mbap_bytes_def be16_def)

text \<open>Writing an MBAP header into a buffer and reading it back at the same place gives
  the same header, and the write changes only the seven bytes of the header.\<close>

theorem mbap_header_roundtrip:
  assumes "blocks \<sigma> b = Some bs" and "i + 7 \<le> length bs"
  shows "bindm (modbus_mbap_fill_from_struct (Ptr b i) h) (\<lambda>_. modbus_mbap_fill_struct (Ptr b i)) \<sigma> =
    Inr (h, set_block b (upd_bytes bs i (mbap_bytes h)) \<sigma>)"
  using assms by (simp add: bindm_unfold modbus_mbap_fill_from_struct_ok modbus_mbap_fill_struct_ok mbap.dec_upd_bytes)

theorem mbap_header_roundtrip_witness:
  "bindm (modbus_mbap_fill_from_struct (Ptr 0 1) test_header) (\<lambda>_. modbus_mbap_fill_struct (Ptr 0 1))
      (test_state (replicate 9 0) ()) =
    Inr (test_header, set_block 0 (upd_bytes (replicate 9 0) 1 (mbap_bytes test_header)) (test_state (replicate 9 0) ()))"
  using mbap_header_roundtrip[of "test_state (replicate 9 0) ()" 0 "replicate 9 0" 1 test_header] by simp

end
