(* ===== verification/Modbus_Server.thy ===== *)
theory Modbus_Server
  imports Prelude
begin

text \<open>
  The Modbus server (\<open>modbus_tcp_start\<close> and the end of
  \<open>modbus_tcp_connection_handle\<close> in \<open>Libraries/modbus/src/modbus_tcp.c\<close>): the table of
  clients, which the accepting task and the connection tasks share without a lock, as a
  step relation whose steps are the single assignments to the table. What the sockets
  return is the choice of the step.
\<close>

section \<open>State\<close>

record ModbusTCPClient =
  connected :: u8
  socket :: int
  time_start :: int
  has_callbacks :: bool

text \<open>Where a connection task is after its receive loop: the statements still to run.\<close>

datatype conn_phase = Serving | Socket_Closed | Slot_Released | Socket_Cleared

text \<open>
  Where the accepting task is: it waits in \<open>lwip_accept\<close>, or it has a socket and a slot
  and has yet to write the fields of the slot, in the order of the code.
\<close>

datatype server_pc =
    Accepting
  | Slot_Found int u16
  | Connected_Set int u16
  | Socket_Set u16
  | Time_Set u16
  | Callbacks_Set u16

record server =
  clients :: "ModbusTCPClient list"
  pc :: server_pc
  tasks :: "(nat \<times> conn_phase) list"
  open_sockets :: "int set"

section \<open>Setting the server up\<close>

text \<open>What \<open>modbus_tcp_start\<close> holds when it returns, or when it starts to accept.\<close>

record setup_result =
  accepting :: bool
  table_allocated :: bool
  listener_open :: bool

definition modbus_tcp_setup :: "bool \<Rightarrow> int \<Rightarrow> int \<Rightarrow> int \<Rightarrow> int \<Rightarrow> setup_result" where
  "modbus_tcp_setup table_granted sockfd pton bind_result listen_result =
     (if \<not> table_granted then \<lparr>accepting = False, table_allocated = False, listener_open = False\<rparr>
      else if sockfd < 0 then \<lparr>accepting = False, table_allocated = True, listener_open = False\<rparr>
      else if pton \<le> 0 then \<lparr>accepting = False, table_allocated = True, listener_open = True\<rparr>
      else if bind_result < 0 then \<lparr>accepting = False, table_allocated = True, listener_open = False\<rparr>
      else if listen_result < 0 then \<lparr>accepting = False, table_allocated = True, listener_open = False\<rparr>
      else \<lparr>accepting = True, table_allocated = True, listener_open = True\<rparr>)"

section \<open>Choosing a slot\<close>

fun find_free_from :: "ModbusTCPClient list \<Rightarrow> nat \<Rightarrow> int" where
  "find_free_from [] i = -1"
| "find_free_from (c # cs) i = (if connected c = 0 then int i else find_free_from cs (Suc i))"

text \<open>The result is an \<open>int16_t\<close>.\<close>

definition modbus_tcp_find_free_connection_slot :: "ModbusTCPClient list \<Rightarrow> u8 \<Rightarrow> 16 word" where
  "modbus_tcp_find_free_connection_slot modbus_tcp_clients max_clients =
     word_of_int (find_free_from (take (unat max_clients) modbus_tcp_clients) 0)"

text \<open>An assignment to a field of a slot: outside the table it is a write out of bounds.\<close>

definition write_slot ::
  "u16 \<Rightarrow> (ModbusTCPClient \<Rightarrow> ModbusTCPClient) \<Rightarrow> server_pc \<Rightarrow> server \<Rightarrow> fault + server" where
  "write_slot slot f next s =
     (if unat slot < length (clients s)
      then Inr (s\<lparr>clients := (clients s)[unat slot := f (clients s ! unat slot)], pc := next\<rparr>)
      else Inl Out_Of_Bounds)"

text \<open>
  An accepted socket: \<open>connection_slot\<close> is a \<open>uint16_t\<close>, which is compared with the
  \<open>int\<close> -1.
\<close>

definition accept_socket :: "u8 \<Rightarrow> int \<Rightarrow> server \<Rightarrow> server" where
  "accept_socket max_clients sock s =
     (let connection_slot = modbus_tcp_find_free_connection_slot (clients s) max_clients in
      if uint connection_slot \<noteq> -1
      then s\<lparr>pc := Slot_Found sock connection_slot, open_sockets := insert sock (open_sockets s)\<rparr>
      else s\<lparr>pc := Accepting\<rparr>)"

section \<open>Steps\<close>

text \<open>
  The accepting task. An accept that fails closes nothing and goes on; the task it
  creates at the end may be refused for lack of memory, which the code does not check.
\<close>

inductive server_step :: "u8 \<Rightarrow> server \<Rightarrow> fault + server \<Rightarrow> bool" for max_clients where
  accept_failed: "pc s = Accepting \<Longrightarrow> server_step max_clients s (Inr s)"
| accept: "pc s = Accepting \<Longrightarrow> 0 \<le> sock \<Longrightarrow> sock \<notin> open_sockets s \<Longrightarrow>
    server_step max_clients s (Inr (accept_socket max_clients sock s))"
| set_connected: "pc s = Slot_Found sock slot \<Longrightarrow>
    server_step max_clients s (write_slot slot (\<lambda>c. c\<lparr>connected := 1\<rparr>) (Connected_Set sock slot) s)"
| set_socket: "pc s = Connected_Set sock slot \<Longrightarrow>
    server_step max_clients s (write_slot slot (\<lambda>c. c\<lparr>socket := sock\<rparr>) (Socket_Set slot) s)"
| set_time: "pc s = Socket_Set slot \<Longrightarrow>
    server_step max_clients s (write_slot slot (\<lambda>c. c\<lparr>time_start := now\<rparr>) (Time_Set slot) s)"
| set_callbacks: "pc s = Time_Set slot \<Longrightarrow>
    server_step max_clients s (write_slot slot (\<lambda>c. c\<lparr>has_callbacks := True\<rparr>) (Callbacks_Set slot) s)"
| create_task: "pc s = Callbacks_Set slot \<Longrightarrow>
    server_step max_clients s (Inr (s\<lparr>pc := Accepting, tasks := (unat slot, Serving) # tasks s\<rparr>))"
| create_task_failed: "pc s = Callbacks_Set slot \<Longrightarrow>
    server_step max_clients s (Inr (s\<lparr>pc := Accepting\<rparr>))"

text \<open>The end of a connection task: close the socket, then clear the three fields.\<close>

inductive connection_step :: "server \<Rightarrow> server \<Rightarrow> bool" where
  close_socket: "tasks s = ts1 @ (i, Serving) # ts2 \<Longrightarrow>
    connection_step s (s\<lparr>tasks := ts1 @ (i, Socket_Closed) # ts2,
      open_sockets := open_sockets s - {socket (clients s ! i)}\<rparr>)"
| release_slot: "tasks s = ts1 @ (i, Socket_Closed) # ts2 \<Longrightarrow>
    connection_step s (s\<lparr>tasks := ts1 @ (i, Slot_Released) # ts2,
      clients := (clients s)[i := (clients s ! i)\<lparr>connected := 0\<rparr>]\<rparr>)"
| clear_socket: "tasks s = ts1 @ (i, Slot_Released) # ts2 \<Longrightarrow>
    connection_step s (s\<lparr>tasks := ts1 @ (i, Socket_Cleared) # ts2,
      clients := (clients s)[i := (clients s ! i)\<lparr>socket := 0\<rparr>]\<rparr>)"
| clear_time: "tasks s = ts1 @ (i, Socket_Cleared) # ts2 \<Longrightarrow>
    connection_step s (s\<lparr>tasks := ts1 @ ts2,
      clients := (clients s)[i := (clients s ! i)\<lparr>time_start := 0\<rparr>]\<rparr>)"

text \<open>Interleaving of the accepting task and the connection tasks, without a fault.\<close>

inductive system_step :: "u8 \<Rightarrow> server \<Rightarrow> server \<Rightarrow> bool" for max_clients where
  by_server: "server_step max_clients s (Inr s') \<Longrightarrow> system_step max_clients s s'"
| by_connection: "connection_step s s' \<Longrightarrow> system_step max_clients s s'"

text \<open>
  The table is not cleared when it is allocated: the server starts with any contents
  of the slots.
\<close>

definition server_init :: "u8 \<Rightarrow> server \<Rightarrow> bool" where
  "server_init max_clients s \<longleftrightarrow>
     length (clients s) = unat max_clients \<and> pc s = Accepting \<and> tasks s = []"

inductive reachable :: "u8 \<Rightarrow> server \<Rightarrow> bool" for max_clients where
  init: "server_init max_clients s \<Longrightarrow> reachable max_clients s"
| step: "reachable max_clients s \<Longrightarrow> system_step max_clients s s' \<Longrightarrow> reachable max_clients s'"

section \<open>The free slot\<close>

lemma find_free_from_None: "(\<forall>c\<in>set cs. connected c \<noteq> 0) \<Longrightarrow> find_free_from cs i = -1"
  by (induction cs arbitrary: i) auto

lemma find_free_from_cases:
  "find_free_from cs i = -1 \<and> (\<forall>c\<in>set cs. connected c \<noteq> 0) \<or>
   (\<exists>j<length cs. find_free_from cs i = int (i + j) \<and> connected (cs ! j) = 0 \<and> (\<forall>k<j. connected (cs ! k) \<noteq> 0))"
proof (induction cs arbitrary: i)
  case Nil
  then show ?case by simp
next
  case (Cons c cs)
  show ?case
  proof (cases "connected c = 0")
    case True
    then show ?thesis by (auto intro!: exI[of _ 0])
  next
    case False
    from Cons.IH[of "Suc i"] show ?thesis
    proof
      assume "find_free_from cs (Suc i) = -1 \<and> (\<forall>c\<in>set cs. connected c \<noteq> 0)"
      with False show ?thesis by auto
    next
      assume "\<exists>j<length cs. find_free_from cs (Suc i) = int (Suc i + j) \<and> connected (cs ! j) = 0 \<and>
        (\<forall>k<j. connected (cs ! k) \<noteq> 0)"
      then obtain j where j: "j < length cs" "find_free_from cs (Suc i) = int (Suc i + j)"
        "connected (cs ! j) = 0" "\<forall>k<j. connected (cs ! k) \<noteq> 0" by blast
      have "\<forall>k<Suc j. connected ((c # cs) ! k) \<noteq> 0"
        using j(4) False by (auto simp: less_Suc_eq_0_disj)
      with j False have "Suc j < length (c # cs) \<and> find_free_from (c # cs) i = int (i + Suc j) \<and>
        connected ((c # cs) ! Suc j) = 0 \<and> (\<forall>k<Suc j. connected ((c # cs) ! k) \<noteq> 0)" by simp
      then show ?thesis by blast
    qed
  qed
qed

lemma find_slot_free:
  assumes "length cs = unat max_clients" and "\<exists>c\<in>set cs. connected c = 0"
  obtains j where "j < length cs" "modbus_tcp_find_free_connection_slot cs max_clients = of_nat j"
    "connected (cs ! j) = 0" "\<forall>k<j. connected (cs ! k) \<noteq> 0"
  using find_free_from_cases[of cs 0] assms
  by (auto simp: modbus_tcp_find_free_connection_slot_def)

lemma find_slot_full:
  assumes "length cs = unat max_clients" and "\<forall>c\<in>set cs. connected c \<noteq> 0"
  shows "modbus_tcp_find_free_connection_slot cs max_clients = 65535"
  using assms by (simp add: modbus_tcp_find_free_connection_slot_def find_free_from_None)

lemma accept_always_taken:
  "accept_socket max_clients sock s =
     s\<lparr>pc := Slot_Found sock (modbus_tcp_find_free_connection_slot (clients s) max_clients),
       open_sockets := insert sock (open_sockets s)\<rparr>"
proof -
  have "uint (modbus_tcp_find_free_connection_slot (clients s) max_clients) \<noteq> -1"
    using uint_ge_0[of "modbus_tcp_find_free_connection_slot (clients s) max_clients"] by linarith
  then show ?thesis by (simp add: accept_socket_def Let_def)
qed

section \<open>Ownership of the slots\<close>

text \<open>
  A slot is owned by the accepting task from the assignment of \<open>connected\<close> until it
  creates the connection task, and by that task until it clears \<open>connected\<close>.
\<close>

fun owns :: "nat \<times> conn_phase \<Rightarrow> bool" where
  "owns (i, Serving) = True"
| "owns (i, Socket_Closed) = True"
| "owns (i, Slot_Released) = False"
| "owns (i, Socket_Cleared) = False"

fun pc_owned :: "server_pc \<Rightarrow> nat list" where
  "pc_owned Accepting = []"
| "pc_owned (Slot_Found sock j) = []"
| "pc_owned (Connected_Set sock j) = [unat j]"
| "pc_owned (Socket_Set j) = [unat j]"
| "pc_owned (Time_Set j) = [unat j]"
| "pc_owned (Callbacks_Set j) = [unat j]"

definition owned :: "server \<Rightarrow> nat list" where
  "owned s = pc_owned (pc s) @ map fst (filter owns (tasks s))"

fun chosen_slot :: "server_pc \<Rightarrow> nat option" where
  "chosen_slot (Slot_Found sock j) = Some (unat j)"
| "chosen_slot _ = None"

definition slots_inv :: "server \<Rightarrow> bool" where
  "slots_inv s \<longleftrightarrow> distinct (owned s) \<and>
     (\<forall>i\<in>set (owned s). i < length (clients s) \<and> connected (clients s ! i) \<noteq> 0) \<and>
     (\<forall>(i, ph)\<in>set (tasks s). i < length (clients s)) \<and>
     (\<forall>j. chosen_slot (pc s) = Some j \<longrightarrow> j < length (clients s) \<longrightarrow> connected (clients s ! j) = 0)"

lemma owned_parts:
  "pc s = p \<Longrightarrow> tasks s = ts1 @ t # ts2 \<Longrightarrow>
   owned s = pc_owned p @ map fst (filter owns ts1) @ (if owns t then [fst t] else []) @ map fst (filter owns ts2)"
  by (simp add: owned_def)

lemma write_slot_Inr:
  "write_slot slot f p s = Inr s' \<longleftrightarrow>
   unat slot < length (clients s) \<and>
   s' = s\<lparr>clients := (clients s)[unat slot := f (clients s ! unat slot)], pc := p\<rparr>"
  by (auto simp: write_slot_def)

lemma Inr_write_slot:
  "Inr s' = write_slot slot f p s \<longleftrightarrow>
   unat slot < length (clients s) \<and>
   s' = s\<lparr>clients := (clients s)[unat slot := f (clients s ! unat slot)], pc := p\<rparr>"
  by (auto simp: write_slot_def)

lemma write_slot_length: "write_slot slot f p s = Inr s' \<Longrightarrow> length (clients s') = length (clients s)"
  by (auto simp: write_slot_Inr)

text \<open>Assignments that leave \<open>connected\<close> alone keep the invariant.\<close>

lemma slots_inv_write:
  assumes "slots_inv s" and "write_slot slot f p s = Inr s'" and "\<And>c. connected (f c) = connected c"
    and "pc_owned p = pc_owned (pc s)" and "chosen_slot p = None"
  shows "slots_inv s'"
  using assms by (auto simp: slots_inv_def owned_def write_slot_Inr nth_list_update split: if_splits)

lemma slots_inv_accept:
  assumes "slots_inv s" and "pc s = Accepting" and "length (clients s) = unat max_clients"
  shows "slots_inv (accept_socket max_clients sock s)"
proof -
  let ?slot = "modbus_tcp_find_free_connection_slot (clients s) max_clients"
  have "connected (clients s ! unat ?slot) = 0" if "unat ?slot < length (clients s)"
  proof (cases "\<exists>c\<in>set (clients s). connected c = 0")
    case True
    then obtain j where j: "j < length (clients s)" "?slot = of_nat j" "connected (clients s ! j) = 0"
      using find_slot_free[OF assms(3)] by metis
    have "length (clients s) < 65536" using assms(3) unat_u8_less[of max_clients] by linarith
    with j have "unat ?slot = j" by (simp add: unat_of_nat)
    with j show ?thesis by simp
  next
    case False
    then have "?slot = 65535" using find_slot_full[OF assms(3)] by auto
    then have "unat ?slot = 65535" by simp
    with that have "65535 < unat max_clients" using assms(3) by simp
    then show ?thesis using unat_u8_less[of max_clients] by linarith
  qed
  with assms show ?thesis
    by (auto simp: accept_always_taken slots_inv_def owned_def)
qed

lemma slots_inv_server_step:
  assumes "server_step max_clients s (Inr s')" and "slots_inv s" and "length (clients s) = unat max_clients"
  shows "slots_inv s'"
  using assms(1)
proof cases
  case (accept sock)
  then show ?thesis using slots_inv_accept assms(2,3) by auto
next
  case (set_connected sock slot)
  then show ?thesis
    using assms(2) by (fastforce simp: slots_inv_def owned_def Inr_write_slot nth_list_update split: if_splits)
next
  case (set_socket sock slot)
  then show ?thesis using slots_inv_write[OF assms(2)] by force
next
  case (set_time slot now)
  then show ?thesis using slots_inv_write[OF assms(2)] by force
next
  case (set_callbacks slot)
  then show ?thesis using slots_inv_write[OF assms(2)] by force
qed (use assms(2) in \<open>auto simp: slots_inv_def owned_def\<close>)

lemma slots_inv_connection_step:
  assumes "connection_step s s'" and "slots_inv s"
  shows "slots_inv s'"
  using assms(1)
proof cases
  case (close_socket ts1 i ts2)
  then show ?thesis using assms(2) by (auto simp: slots_inv_def owned_def)
next
  case (release_slot ts1 i ts2)
  then show ?thesis
    using assms(2) by (auto simp: slots_inv_def owned_def nth_list_update split: if_splits)
next
  case (clear_socket ts1 i ts2)
  then show ?thesis
    using assms(2) by (auto simp: slots_inv_def owned_def nth_list_update split: if_splits)
next
  case (clear_time ts1 i ts2)
  then show ?thesis
    using assms(2) by (auto simp: slots_inv_def owned_def nth_list_update split: if_splits)
qed

lemma system_step_length: "system_step max_clients s s' \<Longrightarrow> length (clients s') = length (clients s)"
  by (auto elim!: system_step.cases server_step.cases connection_step.cases simp: accept_always_taken
      dest: write_slot_length[OF sym])

lemma reachable_inv: "reachable max_clients s \<Longrightarrow> slots_inv s \<and> length (clients s) = unat max_clients"
proof (induction rule: reachable.induct)
  case (init s)
  then show ?case by (simp add: server_init_def slots_inv_def owned_def)
next
  case (step s s')
  then show ?case
    using slots_inv_server_step slots_inv_connection_step system_step_length
    by (metis system_step.cases)
qed

lemma nth_update_here: "i < length xs \<Longrightarrow> xs[j := x] ! i = (if i = j then x else xs ! i)"
  by simp

text \<open>A connected slot nobody owns is never released, whatever runs later.\<close>

definition lost_slot :: "nat \<Rightarrow> server \<Rightarrow> bool" where
  "lost_slot i s \<longleftrightarrow> i < length (clients s) \<and> connected (clients s ! i) \<noteq> 0 \<and> i \<notin> set (owned s) \<and>
     chosen_slot (pc s) \<noteq> Some i"

lemma find_slot_connected:
  assumes "length (clients s) = unat max_clients" and "i < length (clients s)" and "connected (clients s ! i) \<noteq> 0"
  shows "unat (modbus_tcp_find_free_connection_slot (clients s) max_clients) \<noteq> i"
proof (cases "\<exists>c\<in>set (clients s). connected c = 0")
  case True
  then obtain j where j: "j < length (clients s)" "connected (clients s ! j) = 0"
    "modbus_tcp_find_free_connection_slot (clients s) max_clients = of_nat j"
    using find_slot_free[OF assms(1)] by metis
  then have "j < 65536" using assms(1) unat_u8_less[of max_clients] by linarith
  with j assms(3) show ?thesis by (auto simp: unat_of_nat)
next
  case False
  then have "modbus_tcp_find_free_connection_slot (clients s) max_clients = 65535"
    using find_slot_full[OF assms(1)] by auto
  moreover have "i < 256" using assms(1,2) unat_u8_less[of max_clients] by linarith
  ultimately show ?thesis by simp
qed

lemma lost_slot_server_step:
  assumes "server_step max_clients s (Inr s')" and "lost_slot i s" and "length (clients s) = unat max_clients"
  shows "lost_slot i s'"
  using assms(1)
proof cases
  case (accept sock)
  have "unat (modbus_tcp_find_free_connection_slot (clients s) max_clients) \<noteq> i"
    using find_slot_connected[OF assms(3)] assms(2) by (simp add: lost_slot_def)
  with accept assms(2) show ?thesis by (simp add: accept_always_taken lost_slot_def owned_def)
qed (use assms(2) in \<open>auto simp: lost_slot_def owned_def Inr_write_slot nth_list_update split: if_splits\<close>)

lemma lost_slot_connection_step:
  assumes "connection_step s s'" and "lost_slot i s"
  shows "lost_slot i s'"
  using assms(1)
  by cases (use assms(2) in \<open>auto simp: lost_slot_def owned_def nth_update_here split: if_splits\<close>)

lemma lost_slot_step:
  "system_step max_clients s s' \<Longrightarrow> lost_slot i s \<Longrightarrow> length (clients s) = unat max_clients \<Longrightarrow> lost_slot i s'"
  by (auto elim!: system_step.cases dest: lost_slot_server_step lost_slot_connection_step)

text \<open>Runs of a server with one slot.\<close>

abbreviation one_slot :: "ModbusTCPClient \<Rightarrow> server_pc \<Rightarrow> (nat \<times> conn_phase) list \<Rightarrow> int set \<Rightarrow> server" where
  "one_slot c p ts os \<equiv> \<lparr>clients = [c], pc = p, tasks = ts, open_sockets = os\<rparr>"

lemma reachable_server: "reachable m s \<Longrightarrow> server_step m s (Inr s') \<Longrightarrow> reachable m s'"
  by (rule reachable.step, assumption) (rule by_server)

lemma reachable_connection: "reachable m s \<Longrightarrow> connection_step s s' \<Longrightarrow> reachable m s'"
  by (rule reachable.step, assumption) (rule by_connection)

lemma one_open:
  assumes "reachable 1 (one_slot c Accepting ts os)" and "connected c = 0" and "0 \<le> so" and "so \<notin> os"
  shows "reachable 1 (one_slot (c\<lparr>connected := 1, socket := so\<rparr>) (Socket_Set 0) ts (insert so os))"
proof -
  have free: "modbus_tcp_find_free_connection_slot [c] 1 = 0"
    using assms(2) by (simp add: modbus_tcp_find_free_connection_slot_def)
  have "reachable 1 (one_slot c (Slot_Found so 0) ts (insert so os))"
    using reachable_server[OF assms(1) server_step.accept[of _ so]] assms(3,4)
    by (simp add: accept_always_taken free)
  from reachable_server[OF this, of "one_slot (c\<lparr>connected := 1\<rparr>) (Connected_Set so 0) ts (insert so os)"]
  have "reachable 1 (one_slot (c\<lparr>connected := 1\<rparr>) (Connected_Set so 0) ts (insert so os))"
    using server_step.set_connected[of "one_slot c (Slot_Found so 0) ts (insert so os)" so 0 1]
    by (simp add: write_slot_def)
  from reachable_server[OF this, of "one_slot (c\<lparr>connected := 1, socket := so\<rparr>) (Socket_Set 0) ts (insert so os)"]
  show ?thesis
    using server_step.set_socket[of "one_slot (c\<lparr>connected := 1\<rparr>) (Connected_Set so 0) ts (insert so os)" so 0 1]
    by (simp add: write_slot_def)
qed

lemma one_start:
  assumes "reachable 1 (one_slot c (Socket_Set 0) ts os)"
  shows "reachable 1 (one_slot (c\<lparr>time_start := now, has_callbacks := True\<rparr>) Accepting ((0, Serving) # ts) os)"
proof -
  from reachable_server[OF assms, of "one_slot (c\<lparr>time_start := now\<rparr>) (Time_Set 0) ts os"]
  have "reachable 1 (one_slot (c\<lparr>time_start := now\<rparr>) (Time_Set 0) ts os)"
    using server_step.set_time[of "one_slot c (Socket_Set 0) ts os" 0 1 now] by (simp add: write_slot_def)
  from reachable_server[OF this, of "one_slot (c\<lparr>time_start := now, has_callbacks := True\<rparr>) (Callbacks_Set 0) ts os"]
  have "reachable 1 (one_slot (c\<lparr>time_start := now, has_callbacks := True\<rparr>) (Callbacks_Set 0) ts os)"
    using server_step.set_callbacks[of "one_slot (c\<lparr>time_start := now\<rparr>) (Time_Set 0) ts os" 0 1]
    by (simp add: write_slot_def)
  from reachable_server[OF this server_step.create_task[of _ 0]] show ?thesis by simp
qed

lemma one_release:
  assumes "reachable 1 (one_slot c p [(0, Serving)] os)"
  shows "reachable 1 (one_slot (c\<lparr>connected := 0\<rparr>) p [(0, Slot_Released)] (os - {socket c}))"
proof -
  from reachable_connection[OF assms close_socket[of _ "[]" 0 "[]"]]
  have "reachable 1 (one_slot c p [(0, Socket_Closed)] (os - {socket c}))" by simp
  from reachable_connection[OF this release_slot[of _ "[]" 0 "[]"]] show ?thesis by simp
qed

lemma one_finish:
  assumes "reachable 1 (one_slot c p (ts @ [(0, Slot_Released)]) os)"
  shows "reachable 1 (one_slot (c\<lparr>socket := 0, time_start := 0\<rparr>) p ts os)"
proof -
  from reachable_connection[OF assms clear_socket[of _ ts 0 "[]"]]
  have "reachable 1 (one_slot (c\<lparr>socket := 0\<rparr>) p (ts @ [(0, Socket_Cleared)]) os)" by simp
  from reachable_connection[OF this clear_time[of _ ts 0 "[]"]] show ?thesis by simp
qed

section \<open>Properties\<close>



text \<open>C7: When every slot is in use, the server does not refuse the next connection: the
  -1 that stands for no free slot becomes 65535 and passes the comparison with -1, and
  the only step left to the accepting task writes outside the table.\<close>

theorem full_table_out_of_bounds:
  assumes "length (clients s) = unat max_clients" and "\<forall>c\<in>set (clients s). connected c \<noteq> 0"
    and "server_step max_clients (accept_socket max_clients sock s) r"
  shows "r = Inl Out_Of_Bounds"
proof -
  have "length (clients s) < 256" using assms(1) unat_u8_less[of max_clients] by linarith
  then show ?thesis
    using assms(3) find_slot_full[OF assms(1,2)]
    by (auto simp: accept_always_taken write_slot_def elim: server_step.cases)
qed

theorem full_table_out_of_bounds_witness:
  "\<forall>s'. \<not> server_step 1 (accept_socket 1 7
      (one_slot \<lparr>connected = 1, socket = 5, time_start = 0, has_callbacks = True\<rparr> Accepting [(0, Serving)] {5})) (Inr s')"
  using full_table_out_of_bounds[of
      "one_slot \<lparr>connected = 1, socket = 5, time_start = 0, has_callbacks = True\<rparr> Accepting [(0, Serving)] {5}" 1 7]
  by auto

text \<open>C8: A slot marked as connected that no task owns, as after a task creation that was
  refused or when the uninitialised table happened to hold a nonzero byte, is never
  released again: it stays marked and unowned in all later states.\<close>

theorem lost_slot_forever:
  assumes "(system_step max_clients)\<^sup>*\<^sup>* s s'" and "lost_slot i s" and "length (clients s) = unat max_clients"
  shows "lost_slot i s'"
proof -
  have "lost_slot i s' \<and> length (clients s') = unat max_clients"
    using assms by (induction rule: rtranclp_induct) (auto dest: lost_slot_step system_step_length)
  then show ?thesis by simp
qed

theorem lost_slot_forever_witness:
  "lost_slot 0 (one_slot \<lparr>connected = 0xA5, socket = 0, time_start = 0, has_callbacks = False\<rparr> Accepting [] {})"
  using lost_slot_forever[of 1 "one_slot \<lparr>connected = 0xA5, socket = 0, time_start = 0, has_callbacks = False\<rparr> Accepting [] {}"
      "one_slot \<lparr>connected = 0xA5, socket = 0, time_start = 0, has_callbacks = False\<rparr> Accepting [] {}" 0]
  by (simp add: lost_slot_def owned_def)

text \<open>A client can lose its socket to the task that served the slot before: for every
  two different sockets there is an interleaving after which the only connection task
  serves the slot of the second client, whose socket is open, while the slot holds the
  socket number 0 written by the first task.\<close>

theorem reused_slot_loses_socket:
  assumes "0 \<le> first" and "0 \<le> second" and "first \<noteq> second"
  shows "\<exists>s. reachable 1 s \<and> tasks s = [(0, Serving)] \<and> open_sockets s = {second} \<and>
    pc s = Accepting \<and> connected (clients s ! 0) = 1 \<and> socket (clients s ! 0) = 0"
proof -
  let ?c = "\<lambda>k so. \<lparr>connected = k, socket = so, time_start = 0, has_callbacks = True\<rparr>"
  have "reachable 1 (one_slot (?c 0 0) Accepting [] {})"
    by (rule reachable.init) (simp add: server_init_def)
  from one_start[OF one_open[OF this _ assms(1)], of 0]
  have "reachable 1 (one_slot (?c 1 first) Accepting [(0, Serving)] {first})" by simp
  from one_release[OF this]
  have "reachable 1 (one_slot (?c 0 first) Accepting [(0, Slot_Released)] {})" by simp
  from one_open[OF this _ assms(2)]
  have "reachable 1 (one_slot (?c 1 second) (Socket_Set 0) ([] @ [(0, Slot_Released)]) {second})" by simp
  from one_start[OF one_finish[OF this], of 0]
  have "reachable 1 (one_slot (?c 1 0) Accepting [(0, Serving)] {second})" by simp
  then show ?thesis by (intro exI conjI, assumption) simp_all
qed

theorem reused_slot_loses_socket_witness:
  "\<exists>s. reachable 1 s \<and> open_sockets s = {7} \<and> socket (clients s ! 0) = 0"
  using reused_slot_loses_socket[of 5 7] by auto

end
