(* ===== verification/NoOs_Util.thy ===== *)
theory NoOs_Util
  imports CMem "HOL-Library.Signed_Division"
begin

text \<open>
  The helper functions of no-OS (\<open>Libraries/noOS/src/no_os_util.c\<close> and the macros of
  \<open>no_os_util.h\<close>): bit searches and register fields, greatest common divisors,
  divisions, multiplications that keep 64 bits, unaligned byte orders and byte
  swapping. Loops over the bits of a word are recursive functions on that word. An
  array argument is a list, an out-parameter a further component of the result.
\<close>

section \<open>Searching bits\<close>

text \<open>The loop of \<open>no_os_find_first_set_bit\<close>, for both word sizes.\<close>

function first_set_loop :: "'a::len word \<Rightarrow> 'a word \<Rightarrow> 'a word \<Rightarrow> 'a word" where
  "first_set_loop dflt word first_set_bit =
     (if word = 0 then dflt
      else if word AND 1 \<noteq> 0 then first_set_bit
      else first_set_loop dflt (drop_bit 1 word) (first_set_bit + 1))"
  by auto

lemma unat_drop_bit_1: "unat (drop_bit 1 (w :: 'a::len word)) = unat w div 2"
  by (simp only: unat_drop_bit_eq) (simp add: drop_bit_eq_div)

lemma drop_bit_1_smaller: "w \<noteq> 0 \<Longrightarrow> unat (drop_bit 1 (w :: 'a::len word)) < unat w"
  by (simp only: unat_drop_bit_1) (simp add: unat_gt_0)

termination first_set_loop
  by (relation "measure (\<lambda>(_, w, _). unat w)") (auto intro: drop_bit_1_smaller simp del: One_nat_def)

declare first_set_loop.simps [simp del]

definition no_os_find_first_set_bit :: "u32 \<Rightarrow> u32" where
  "no_os_find_first_set_bit word = first_set_loop 32 word 0"

definition no_os_find_first_set_bit_u64 :: "u64 \<Rightarrow> u64" where
  "no_os_find_first_set_bit_u64 word = first_set_loop 64 word 0"

function last_set_loop :: "u32 \<Rightarrow> u32 \<Rightarrow> u32 \<Rightarrow> u32" where
  "last_set_loop word bit_no last_set_bit =
     (if word = 0 then last_set_bit
      else last_set_loop (drop_bit 1 word) (bit_no + 1)
             (if word AND 1 \<noteq> 0 then bit_no else last_set_bit))"
  by auto

termination last_set_loop
  by (relation "measure (\<lambda>(w, _, _). unat w)") (auto intro: drop_bit_1_smaller simp del: One_nat_def)

declare last_set_loop.simps [simp del]

definition no_os_find_last_set_bit :: "u32 \<Rightarrow> u32" where
  "no_os_find_last_set_bit word = last_set_loop word 0 32"

definition no_os_log_base_2 :: "u32 \<Rightarrow> u32" where
  "no_os_log_base_2 x = no_os_find_last_set_bit x"

text \<open>
  \<open>abs(x - y)\<close> of two \<open>int32_t\<close> values: undefined if the difference or its absolute
  value is not an \<open>int32_t\<close>.
\<close>

definition abs_diff32 :: "32 word \<Rightarrow> 32 word \<Rightarrow> fault + int" where
  "abs_diff32 x y =
     (let d = sint x - sint y in
      if \<bar>d\<bar> < 2 ^ 31 then Inr \<bar>d\<bar> else Inl Signed_Overflow)"

fun find_closest_loop :: "32 word \<Rightarrow> 32 word list \<Rightarrow> nat \<Rightarrow> nat \<Rightarrow> int \<Rightarrow> nat \<Rightarrow> fault + nat" where
  "find_closest_loop val array i 0 diff ret = Inr ret"
| "find_closest_loop val array i (Suc n) diff ret =
     (if length array \<le> i then Inl Out_Of_Bounds
      else case abs_diff32 (array ! i) val of
        Inl e \<Rightarrow> Inl e
      | Inr d \<Rightarrow> if d < diff then find_closest_loop val array (Suc i) n d i
                 else find_closest_loop val array (Suc i) n diff ret)"

definition no_os_find_closest :: "32 word \<Rightarrow> 32 word list \<Rightarrow> u32 \<Rightarrow> fault + nat" where
  "no_os_find_closest val array sz =
     (if array = [] then Inl Out_Of_Bounds
      else case abs_diff32 (array ! 0) val of
        Inl e \<Rightarrow> Inl e
      | Inr diff \<Rightarrow> find_closest_loop val array 1 (unat sz - 1) diff 0)"

section \<open>Register fields\<close>

text \<open>
  A shift by the whole width, which C leaves undefined, happens for the mask 0 only;
  the word of HOL gives 0 there, and the value is masked with 0 anyway.
\<close>

definition no_os_field_prep :: "u32 \<Rightarrow> u32 \<Rightarrow> u32" where
  "no_os_field_prep msk val = push_bit (unat (no_os_find_first_set_bit msk)) val AND msk"

definition no_os_field_prep_u64 :: "u64 \<Rightarrow> u64 \<Rightarrow> u64" where
  "no_os_field_prep_u64 msk val = push_bit (unat (no_os_find_first_set_bit_u64 msk)) val AND msk"

definition no_os_field_get :: "u32 \<Rightarrow> u32 \<Rightarrow> u32" where
  "no_os_field_get msk word = drop_bit (unat (no_os_find_first_set_bit msk)) (word AND msk)"

definition no_os_field_max :: "u32 \<Rightarrow> u32" where
  "no_os_field_max msk = drop_bit (unat (no_os_find_first_set_bit msk)) msk"

definition no_os_field_max_u64 :: "u64 \<Rightarrow> u64" where
  "no_os_field_max_u64 msk = drop_bit (unat (no_os_find_first_set_bit_u64 msk)) msk"

text \<open>The macros \<open>NO_OS_BIT\<close>, \<open>NO_OS_GENMASK\<close> and \<open>no_os_align\<close> on \<open>uint32_t\<close>.\<close>

definition NO_OS_BIT :: "nat \<Rightarrow> u32" where
  "NO_OS_BIT x = push_bit x 1"

definition NO_OS_GENMASK :: "nat \<Rightarrow> nat \<Rightarrow> u32" where
  "NO_OS_GENMASK h l = drop_bit (32 - (h + 1)) (push_bit (32 - (h - l + 1)) (NOT 0))"

definition no_os_align :: "u32 \<Rightarrow> u32 \<Rightarrow> u32" where
  "no_os_align x align = (x + (align - 1)) AND NOT (align - 1)"

section \<open>Common divisors\<close>

function gcd_loop :: "'a::len word \<Rightarrow> 'a word \<Rightarrow> 'a word" where
  "gcd_loop a b = (if b = 0 then a else gcd_loop b (a mod b))"
  by auto

termination gcd_loop
  by (relation "measure (\<lambda>(_, b). unat b)") (auto simp: unat_mod_distrib unat_gt_0)

declare gcd_loop.simps [simp del]

definition no_os_greatest_common_divisor :: "u32 \<Rightarrow> u32 \<Rightarrow> u32" where
  "no_os_greatest_common_divisor a b =
     (if a = 0 \<or> b = 0 then (if a > b then a else b) else gcd_loop a b)"

definition no_os_greatest_common_divisor_u64 :: "u64 \<Rightarrow> u64 \<Rightarrow> u64" where
  "no_os_greatest_common_divisor_u64 a b =
     (if a = 0 \<or> b = 0 then (if a > b then a else b) else gcd_loop a b)"

definition no_os_lowest_common_multiple :: "u32 \<Rightarrow> u32 \<Rightarrow> u32" where
  "no_os_lowest_common_multiple a b =
     (if a \<noteq> 0 \<and> b \<noteq> 0 then (a div no_os_greatest_common_divisor a b) * b else 0)"

text \<open>Both approximations are the same computation at two widths.\<close>

definition no_os_rational_best_approximation ::
  "u32 \<Rightarrow> u32 \<Rightarrow> u32 \<Rightarrow> u32 \<Rightarrow> fault + (u32 \<times> u32)" where
  "no_os_rational_best_approximation given_numerator given_denominator max_numerator max_denominator =
     (let g = no_os_greatest_common_divisor given_numerator given_denominator in
      if g = 0 then Inl Div_By_Zero
      else
        let best_numerator = given_numerator div g; best_denominator = given_denominator div g in
        if best_numerator > max_numerator \<or> best_denominator > max_denominator then Inr (0, 0)
        else Inr (best_numerator, best_denominator))"

definition no_os_rational_best_approximation_u64 ::
  "u64 \<Rightarrow> u64 \<Rightarrow> u64 \<Rightarrow> u64 \<Rightarrow> fault + (u64 \<times> u64)" where
  "no_os_rational_best_approximation_u64 given_numerator given_denominator max_numerator max_denominator =
     (let g = no_os_greatest_common_divisor_u64 given_numerator given_denominator in
      if g = 0 then Inl Div_By_Zero
      else
        let best_numerator = given_numerator div g; best_denominator = given_denominator div g in
        if best_numerator > max_numerator \<or> best_denominator > max_denominator then Inr (0, 0)
        else Inr (best_numerator, best_denominator))"

section \<open>Counting bits\<close>

function hweight_loop :: "u8 \<Rightarrow> u32 \<Rightarrow> u32" where
  "hweight_loop word count =
     (if word = 0 then count
      else hweight_loop (drop_bit 1 word) (if word AND 1 \<noteq> 0 then count + 1 else count))"
  by auto

termination hweight_loop
  by (relation "measure (\<lambda>(w, _). unat w)") (auto intro: drop_bit_1_smaller simp del: One_nat_def)

declare hweight_loop.simps [simp del]

definition no_os_hweight8 :: "u8 \<Rightarrow> u32" where
  "no_os_hweight8 word = hweight_loop word 0"

definition no_os_hweight16 :: "u16 \<Rightarrow> u32" where
  "no_os_hweight16 word = no_os_hweight8 (ucast (drop_bit 8 word)) + no_os_hweight8 (ucast word)"

definition no_os_hweight32 :: "u32 \<Rightarrow> u32" where
  "no_os_hweight32 word = no_os_hweight16 (ucast (drop_bit 16 word)) + no_os_hweight16 (ucast word)"

section \<open>Division\<close>

text \<open>\<open>no_os_do_div\<close> changes \<open>*n\<close> to the quotient and returns the remainder.\<close>

definition no_os_do_div :: "u64 \<Rightarrow> u64 \<Rightarrow> fault + (u64 \<times> u64)" where
  "no_os_do_div n base = (if base = 0 then Inl Div_By_Zero else Inr (n div base, n mod base))"

definition no_os_div64_u64_rem :: "u64 \<Rightarrow> u64 \<Rightarrow> fault + (u64 \<times> u64)" where
  "no_os_div64_u64_rem dividend divisor =
     (if divisor = 0 then Inl Div_By_Zero else Inr (dividend div divisor, dividend mod divisor))"

definition no_os_div_u64_rem :: "u64 \<Rightarrow> u32 \<Rightarrow> fault + (u64 \<times> u32)" where
  "no_os_div_u64_rem dividend divisor =
     (case no_os_do_div dividend (ucast divisor) of
        Inl e \<Rightarrow> Inl e
      | Inr (q, r) \<Rightarrow> Inr (q, ucast r))"

definition no_os_div_u64 :: "u64 \<Rightarrow> u32 \<Rightarrow> fault + u64" where
  "no_os_div_u64 dividend divisor =
     (case no_os_div_u64_rem dividend divisor of Inl e \<Rightarrow> Inl e | Inr (q, r) \<Rightarrow> Inr q)"

text \<open>Signed operands are words read with \<^const>\<open>sint\<close>; the division truncates.\<close>

definition no_os_div_s64_rem :: "u64 \<Rightarrow> u32 \<Rightarrow> fault + (u64 \<times> u32)" where
  "no_os_div_s64_rem dividend divisor =
     (if divisor = 0 then Inl Div_By_Zero
      else if sint dividend = - (2 ^ 63) \<and> sint divisor = -1 then Inl Signed_Overflow
      else Inr (word_of_int (sint dividend sdiv sint divisor), word_of_int (sint dividend smod sint divisor)))"

definition no_os_div_s64 :: "u64 \<Rightarrow> u32 \<Rightarrow> fault + u64" where
  "no_os_div_s64 dividend divisor =
     (case no_os_div_s64_rem dividend divisor of Inl e \<Rightarrow> Inl e | Inr (q, r) \<Rightarrow> Inr q)"

section \<open>Unaligned byte orders\<close>

definition no_os_put_unaligned_be16 :: "u16 \<Rightarrow> u8 list \<Rightarrow> u8 list" where
  "no_os_put_unaligned_be16 val buf = buf[1 := ucast (val AND 0xFF), 0 := ucast (drop_bit 8 val)]"

definition no_os_get_unaligned_be16 :: "u8 list \<Rightarrow> u16" where
  "no_os_get_unaligned_be16 buf = ucast (buf ! 1) OR push_bit 8 (ucast (buf ! 0))"

definition no_os_put_unaligned_le16 :: "u16 \<Rightarrow> u8 list \<Rightarrow> u8 list" where
  "no_os_put_unaligned_le16 val buf = buf[0 := ucast (val AND 0xFF), 1 := ucast (drop_bit 8 val)]"

definition no_os_get_unaligned_le16 :: "u8 list \<Rightarrow> u16" where
  "no_os_get_unaligned_le16 buf = ucast (buf ! 0) OR push_bit 8 (ucast (buf ! 1))"

definition no_os_put_unaligned_be24 :: "u32 \<Rightarrow> u8 list \<Rightarrow> u8 list" where
  "no_os_put_unaligned_be24 val buf =
     buf[2 := ucast (val AND 0xFF), 1 := ucast (drop_bit 8 val AND 0xFF), 0 := ucast (drop_bit 16 val)]"

definition no_os_get_unaligned_be24 :: "u8 list \<Rightarrow> u32" where
  "no_os_get_unaligned_be24 buf =
     ucast (buf ! 2) OR push_bit 8 (ucast (buf ! 1)) OR push_bit 16 (ucast (buf ! 0))"

definition no_os_put_unaligned_le24 :: "u32 \<Rightarrow> u8 list \<Rightarrow> u8 list" where
  "no_os_put_unaligned_le24 val buf =
     buf[0 := ucast (val AND 0xFF), 1 := ucast (drop_bit 8 val AND 0xFF), 2 := ucast (drop_bit 16 val)]"

definition no_os_get_unaligned_le24 :: "u8 list \<Rightarrow> u32" where
  "no_os_get_unaligned_le24 buf =
     ucast (buf ! 0) OR push_bit 8 (ucast (buf ! 1)) OR push_bit 16 (ucast (buf ! 2))"

definition no_os_put_unaligned_be32 :: "u32 \<Rightarrow> u8 list \<Rightarrow> u8 list" where
  "no_os_put_unaligned_be32 val buf =
     buf[3 := ucast (val AND 0xFF), 2 := ucast (drop_bit 8 val AND 0xFF),
         1 := ucast (drop_bit 16 val AND 0xFF), 0 := ucast (drop_bit 24 val)]"

definition no_os_get_unaligned_be32 :: "u8 list \<Rightarrow> u32" where
  "no_os_get_unaligned_be32 buf =
     ucast (buf ! 3) OR push_bit 8 (ucast (buf ! 2)) OR push_bit 16 (ucast (buf ! 1)) OR push_bit 24 (ucast (buf ! 0))"

definition no_os_put_unaligned_le32 :: "u32 \<Rightarrow> u8 list \<Rightarrow> u8 list" where
  "no_os_put_unaligned_le32 val buf =
     buf[0 := ucast (val AND 0xFF), 1 := ucast (drop_bit 8 val AND 0xFF),
         2 := ucast (drop_bit 16 val AND 0xFF), 3 := ucast (drop_bit 24 val)]"

definition no_os_get_unaligned_le32 :: "u8 list \<Rightarrow> u32" where
  "no_os_get_unaligned_le32 buf =
     ucast (buf ! 0) OR push_bit 8 (ucast (buf ! 1)) OR push_bit 16 (ucast (buf ! 2)) OR push_bit 24 (ucast (buf ! 3))"

text \<open>The first byte in memory of the \<open>uint16_t\<close> 0x0100.\<close>

definition no_os_is_big_endian :: bool where
  "no_os_is_big_endian \<longleftrightarrow> hd (le16 0x0100) \<noteq> 0"

section \<open>Signs and products\<close>

definition no_os_sign_extend16 :: "u16 \<Rightarrow> int \<Rightarrow> u16" where
  "no_os_sign_extend16 value index =
     (let shift = unat (word_of_int (15 - index) :: u8) in signed_drop_bit shift (push_bit shift value))"

definition no_os_sign_extend32 :: "u32 \<Rightarrow> int \<Rightarrow> u32" where
  "no_os_sign_extend32 value index =
     (let shift = unat (word_of_int (31 - index) :: u8) in signed_drop_bit shift (push_bit shift value))"

definition no_os_mul_u32_u32 :: "u32 \<Rightarrow> u32 \<Rightarrow> u64" where
  "no_os_mul_u32_u32 a b = ucast a * ucast b"

definition no_os_mul_u64_u32_shr :: "u64 \<Rightarrow> u32 \<Rightarrow> nat \<Rightarrow> u64" where
  "no_os_mul_u64_u32_shr a mul shift =
     (let al = (ucast a :: u32); ah = (ucast (drop_bit 32 a) :: u32);
          ret = drop_bit shift (no_os_mul_u32_u32 al mul) in
      if ah \<noteq> 0 then ret + push_bit (32 - shift) (no_os_mul_u32_u32 ah mul) else ret)"

text \<open>The 64 rounds of the shift-and-subtract division.\<close>

fun mul_div_loop :: "nat \<Rightarrow> u64 \<Rightarrow> u64 \<Rightarrow> u64 \<Rightarrow> u64 \<Rightarrow> u64" where
  "mul_div_loop 0 divisor rem low result = result"
| "mul_div_loop (Suc n) divisor rem low result =
     (let rem = push_bit 1 rem OR drop_bit 63 low;
          low = push_bit 1 low in
      if rem \<ge> divisor
      then mul_div_loop n divisor (rem - divisor) low (result OR push_bit n 1)
      else mul_div_loop n divisor rem low result)"

definition no_os_mul_u64_u32_div :: "u64 \<Rightarrow> u32 \<Rightarrow> u32 \<Rightarrow> u64" where
  "no_os_mul_u64_u32_div a mul divisor =
     (let a_high = (ucast (drop_bit 32 a) :: u32);
          a_low = (ucast (a AND 0xFFFFFFFF) :: u32);
          low_low = no_os_mul_u32_u32 a_low mul;
          high_low = no_os_mul_u32_u32 a_high mul;
          low = low_low + push_bit 32 (high_low AND 0xFFFFFFFF);
          high = drop_bit 32 high_low + drop_bit 32 low_low in
      mul_div_loop 64 (ucast divisor) high low 0)"

section \<open>Swapping bytes\<close>

text \<open>The inner loop: write \<open>temp[j - 1]\<close>, ..., \<open>temp[0]\<close> from index \<open>p\<close> on.\<close>

fun memswap_group :: "u8 list \<Rightarrow> nat \<Rightarrow> nat \<Rightarrow> u8 list \<Rightarrow> u8 list" where
  "memswap_group temp p 0 buf = buf"
| "memswap_group temp p (Suc j) buf = memswap_group temp (Suc p) j (buf[p := temp ! j])"

function memswap_loop :: "nat \<Rightarrow> nat \<Rightarrow> nat \<Rightarrow> u8 list \<Rightarrow> u8 list" where
  "memswap_loop bytes step i buf =
     (if i < bytes \<and> 0 < step
      then memswap_loop bytes step (i + step) (memswap_group (take step (drop i buf)) i step buf)
      else buf)"
  by auto

termination memswap_loop
  by (relation "measure (\<lambda>(bytes, step, i, buf). bytes - i)") auto

declare memswap_loop.simps [simp del]

definition no_os_memswap64 :: "u8 list \<Rightarrow> nat \<Rightarrow> nat \<Rightarrow> u8 list" where
  "no_os_memswap64 buf bytes step =
     (if step < 2 \<or> step > 8 \<or> bytes < step \<or> bytes mod step \<noteq> 0 then buf
      else memswap_loop bytes step 0 buf)"

section \<open>Bit searches, proved\<close>

lemma and_1_iff: "(w :: 'a::len word) AND 1 \<noteq> 0 \<longleftrightarrow> bit w 0"
  by (simp add: and_one_eq bit_0 odd_iff_mod_2_eq_one)

lemma bit_drop_1: "bit (drop_bit 1 (w :: 'a::len word)) n = bit w (Suc n)"
  by (simp add: bit_drop_bit_eq)

lemma first_set_loop_0 [simp]: "first_set_loop d 0 c = d"
  by (simp add: first_set_loop.simps)

text \<open>The loop counts up to the lowest set bit.\<close>

lemma first_set_loop_run:
  "bit w n \<Longrightarrow> (\<forall>m<n. \<not> bit w m) \<Longrightarrow> first_set_loop d w c = c + of_nat n"
proof (induction n arbitrary: w c)
  case 0
  then have "w \<noteq> 0" "w AND 1 \<noteq> 0" using and_1_iff by (metis bit_0_eq bot_apply bot_bool_def)+
  then show ?case by (subst first_set_loop.simps) simp
next
  case (Suc n)
  then have "w \<noteq> 0" "w AND 1 = 0" using and_1_iff[of w] by (metis bit_0_eq bot_apply bot_bool_def, blast)
  moreover have "first_set_loop d (drop_bit 1 w) (c + 1) = c + 1 + of_nat n"
    by (rule Suc.IH) (use Suc.prems in \<open>auto simp: bit_drop_bit_eq\<close>)
  ultimately show ?case
    by (subst first_set_loop.simps) (simp add: add.assoc del: One_nat_def)
qed

lemma lowest_bit:
  assumes "(w :: 'a::len word) \<noteq> 0"
  obtains n where "n < LENGTH('a)" "bit w n" "\<forall>m<n. \<not> bit w m"
proof -
  from assms obtain k where "bit w k" using bit_word_eqI[of w 0] by auto
  then have "bit w (LEAST n. bit w n)" by (rule LeastI)
  moreover have "\<forall>m<(LEAST n. bit w n). \<not> bit w m" using not_less_Least by blast
  moreover have "(LEAST n. bit w n) < LENGTH('a)" using calculation(1) bit_imp_le_length by blast
  ultimately show thesis using that by blast
qed

lemma find_first_set_bit_run:
  "n < 32 \<Longrightarrow> bit w n \<Longrightarrow> \<forall>m<n. \<not> bit w m \<Longrightarrow> no_os_find_first_set_bit w = of_nat n"
  by (simp add: no_os_find_first_set_bit_def first_set_loop_run)

lemma find_first_set_bit_0: "no_os_find_first_set_bit 0 = 32"
  by (simp add: no_os_find_first_set_bit_def)

lemma last_set_loop_0 [simp]: "last_set_loop 0 b l = l"
  by (simp add: last_set_loop.simps)

lemma last_set_loop_run:
  "bit w n \<Longrightarrow> (\<forall>m>n. \<not> bit w m) \<Longrightarrow> last_set_loop w b l = b + of_nat n"
proof (induction n arbitrary: w b l)
  case 0
  then have w: "w \<noteq> 0" "w AND 1 \<noteq> 0" using and_1_iff by (metis bit_0_eq bot_apply bot_bool_def)+
  have "drop_bit 1 w = 0" by (rule bit_word_eqI) (use 0 in \<open>auto simp: bit_drop_bit_eq\<close>)
  with w show ?case by (subst last_set_loop.simps) (simp del: One_nat_def)
next
  case (Suc n)
  then have "w \<noteq> 0" by (metis bit_0_eq bot_apply bot_bool_def)
  moreover have "last_set_loop (drop_bit 1 w) (b + 1) l' = b + 1 + of_nat n" for l'
    by (rule Suc.IH) (use Suc.prems in \<open>auto simp: bit_drop_bit_eq\<close>)
  ultimately show ?case
    by (subst last_set_loop.simps) (simp add: add.assoc del: One_nat_def)
qed

lemma highest_bit:
  assumes "(w :: 'a::len word) \<noteq> 0"
  obtains n where "n < LENGTH('a)" "bit w n" "\<forall>m>n. \<not> bit w m"
proof -
  let ?S = "{n. bit w n}"
  have fin: "finite ?S" by (rule finite_subset[of _ "{..<LENGTH('a)}"]) (auto dest: bit_imp_le_length)
  have ne: "?S \<noteq> {}" using assms bit_word_eqI[of w 0] by auto
  have "Max ?S \<in> ?S" by (rule Max_in[OF fin ne])
  moreover have "\<forall>m>Max ?S. \<not> bit w m" using Max_ge[OF fin] by (metis leD mem_Collect_eq)
  ultimately show thesis using that bit_imp_le_length by blast
qed

lemma find_last_set_bit_run:
  "bit w n \<Longrightarrow> \<forall>m>n. \<not> bit w m \<Longrightarrow> no_os_find_last_set_bit w = of_nat n"
  by (simp add: no_os_find_last_set_bit_def last_set_loop_run)

section \<open>Fields, proved\<close>

lemma bit_and_drop: "bit (drop_bit n (w :: 'a::len word)) i = bit w (n + i)"
  by (simp add: bit_drop_bit_eq)

text \<open>A field written and read back is the value, cut to the field.\<close>

lemma field_shift_roundtrip:
  fixes m v :: "'a::len word"
  assumes "\<forall>i<k. \<not> bit m i"
  shows "drop_bit k (push_bit k v AND m AND m) = v AND drop_bit k m"
    and "push_bit k (drop_bit k (v AND m)) AND m = v AND m"
proof -
  show "drop_bit k (push_bit k v AND m AND m) = v AND drop_bit k m"
    by (rule bit_word_eqI) (auto simp: bit_simps dest: bit_imp_le_length)
  have "k \<le> n" if "bit m n" for n using assms that not_less by blast
  then show "push_bit k (drop_bit k (v AND m)) AND m = v AND m"
    by (intro bit_word_eqI) (auto simp: bit_simps dest: bit_imp_le_length)
qed

section \<open>Common divisors, proved\<close>

lemma gcd_loop_gcd: "unat (gcd_loop a b) = gcd (unat a) (unat b)"
proof (induction a b rule: gcd_loop.induct)
  case (1 a b)
  show ?case
  proof (cases "b = 0")
    case True
    then show ?thesis by (simp add: gcd_loop.simps)
  next
    case False
    then have "unat (gcd_loop a b) = gcd (unat b) (unat a mod unat b)"
      using 1 by (subst gcd_loop.simps) (simp add: unat_mod_distrib)
    then show ?thesis by (simp add: gcd_red_nat[of "unat a" "unat b"])
  qed
qed

lemma unat_gcd: "unat (no_os_greatest_common_divisor a b) = gcd (unat a) (unat b)"
  by (auto simp: no_os_greatest_common_divisor_def gcd_loop_gcd word_less_nat_alt unat_gt_0)

lemma unat_gcd_u64: "unat (no_os_greatest_common_divisor_u64 a b) = gcd (unat a) (unat b)"
  by (auto simp: no_os_greatest_common_divisor_u64_def gcd_loop_gcd word_less_nat_alt unat_gt_0)

section \<open>Counting, proved\<close>

text \<open>The number of set bits of a word.\<close>

definition weight :: "'a::len word \<Rightarrow> nat" where
  "weight w = card {n. bit w n}"

lemma finite_bits: "finite {n. bit (w :: 'a::len word) n}"
  by (rule finite_subset[of _ "{..<LENGTH('a)}"]) (auto dest: bit_imp_le_length)

lemma weight_0 [simp]: "weight 0 = 0"
  by (simp add: weight_def)

lemma weight_step: "weight w = (if bit w 0 then 1 else 0) + weight (drop_bit 1 w)"
proof -
  have img: "Suc ` {n. bit (drop_bit 1 w) n} = {n. bit w n} - {0}"
  proof (intro set_eqI iffI)
    fix x assume "x \<in> {n. bit w n} - {0}"
    then have "bit w x" "x = Suc (x - 1)" by auto
    then show "x \<in> Suc ` {n. bit (drop_bit 1 w) n}" by (intro image_eqI[of _ _ "x - 1"]) (auto simp: bit_drop_bit_eq)
  qed (auto simp: bit_drop_bit_eq)
  have rest: "card ({n. bit w n} - {0}) = weight (drop_bit 1 w)"
    unfolding img[symmetric] weight_def by (rule card_image) simp
  show ?thesis
  proof (cases "bit w 0")
    case True
    then have "card {n. bit w n} = Suc (card ({n. bit w n} - {0}))"
      by (intro card.remove[OF finite_bits]) simp
    with True show ?thesis unfolding rest by (simp add: weight_def)
  next
    case False
    then have "{n. bit w n} - {0} = {n. bit w n}" by auto
    with False rest show ?thesis by (simp add: weight_def)
  qed
qed

lemma hweight_loop_0 [simp]: "hweight_loop 0 c = c"
  by (simp add: hweight_loop.simps)

lemma hweight_loop_weight: "hweight_loop w c = c + of_nat (weight w)"
proof (induction w c rule: hweight_loop.induct)
  case (1 w c)
  show ?case
  proof (cases "w = 0")
    case False
    then show ?thesis
      using 1[OF False] and_1_iff[of w] weight_step[of w]
      by (subst hweight_loop.simps) (auto simp: algebra_simps simp del: One_nat_def)
  qed simp
qed

lemma weight_split_u16: "weight (w :: u16) = weight (ucast (drop_bit 8 w) :: u8) + weight (ucast w :: u8)"
proof -
  have lo: "{n. bit w n \<and> n < 8} = {n. bit (ucast w :: u8) n}"
    by (auto simp: bit_simps dest: bit_imp_le_length)
  have hi: "{n. bit w n \<and> \<not> n < 8} = (\<lambda>n. 8 + n) ` {n. bit (ucast (drop_bit 8 w) :: u8) n}"
  proof (intro set_eqI iffI)
    fix x assume "x \<in> {n. bit w n \<and> \<not> n < 8}"
    then show "x \<in> (\<lambda>n. 8 + n) ` {n. bit (ucast (drop_bit 8 w) :: u8) n}"
      by (intro image_eqI[of _ _ "x - 8"]) (auto simp: bit_simps dest: bit_imp_le_length)
  qed (auto simp: bit_simps)
  have "weight w = card ({n. bit w n \<and> n < 8} \<union> {n. bit w n \<and> \<not> n < 8})"
    unfolding weight_def by (rule arg_cong[of _ _ card]) auto
  also have "\<dots> = card {n. bit w n \<and> n < 8} + card {n. bit w n \<and> \<not> n < 8}"
    by (rule card_Un_disjoint) (auto intro: finite_subset[OF _ finite_bits[of w]])
  finally show ?thesis
    unfolding lo hi by (simp add: weight_def card_image)
qed

lemma weight_split_u32: "weight (w :: u32) = weight (ucast (drop_bit 16 w) :: u16) + weight (ucast w :: u16)"
proof -
  have lo: "{n. bit w n \<and> n < 16} = {n. bit (ucast w :: u16) n}"
    by (auto simp: bit_simps dest: bit_imp_le_length)
  have hi: "{n. bit w n \<and> \<not> n < 16} = (\<lambda>n. 16 + n) ` {n. bit (ucast (drop_bit 16 w) :: u16) n}"
  proof (intro set_eqI iffI)
    fix x assume "x \<in> {n. bit w n \<and> \<not> n < 16}"
    then show "x \<in> (\<lambda>n. 16 + n) ` {n. bit (ucast (drop_bit 16 w) :: u16) n}"
      by (intro image_eqI[of _ _ "x - 16"]) (auto simp: bit_simps dest: bit_imp_le_length)
  qed (auto simp: bit_simps)
  have "weight w = card ({n. bit w n \<and> n < 16} \<union> {n. bit w n \<and> \<not> n < 16})"
    unfolding weight_def by (rule arg_cong[of _ _ card]) auto
  also have "\<dots> = card {n. bit w n \<and> n < 16} + card {n. bit w n \<and> \<not> n < 16}"
    by (rule card_Un_disjoint) (auto intro: finite_subset[OF _ finite_bits[of w]])
  finally show ?thesis
    unfolding lo hi by (simp add: weight_def card_image)
qed

lemma weight_le: "weight (w :: 'a::len word) \<le> LENGTH('a)"
proof -
  have "card {n. bit w n} \<le> card {..<LENGTH('a)}"
    by (rule card_mono) (auto dest: bit_imp_le_length)
  then show ?thesis by (simp add: weight_def)
qed

lemma hweight8_weight: "no_os_hweight8 w = of_nat (weight w)"
  by (simp add: no_os_hweight8_def hweight_loop_weight)

lemma hweight16_weight: "no_os_hweight16 w = of_nat (weight w)"
  by (simp add: no_os_hweight16_def hweight8_weight weight_split_u16[of w])

lemma hweight32_weight: "no_os_hweight32 w = of_nat (weight w)"
  by (simp add: no_os_hweight32_def hweight16_weight weight_split_u32[of w])

section \<open>Byte orders, proved\<close>

lemma byte_mask: "(0xFF :: 'a::len word) = mask 8"
  by (simp add: mask_eq_exp_minus_1)

lemma ucast_and_FF: "ucast (w AND 0xFF) = (ucast (w :: 'a::len word) :: u8)"
  unfolding byte_mask by (rule bit_word_eqI) (auto simp: bit_simps dest: bit_imp_le_length)

lemma length_2E: "length bs = 2 \<Longrightarrow> (\<And>b0 b1. bs = [b0, b1] \<Longrightarrow> P) \<Longrightarrow> P"
  by (auto simp: length_Suc_conv eval_nat_numeral)

lemma length_3E: "length bs = 3 \<Longrightarrow> (\<And>b0 b1 b2. bs = [b0, b1, b2] \<Longrightarrow> P) \<Longrightarrow> P"
  by (auto simp: length_Suc_conv eval_nat_numeral)

lemma length_4E: "length bs = 4 \<Longrightarrow> (\<And>b0 b1 b2 b3. bs = [b0, b1, b2, b3] \<Longrightarrow> P) \<Longrightarrow> P"
  by (auto simp: length_Suc_conv eval_nat_numeral)

text \<open>Bytes put in a word and taken out of it again.\<close>

lemma join_bytes_u16:
  "ucast (push_bit 8 (ucast (a :: u8)) OR ucast (b :: u8) :: u16) = b"
  "ucast (drop_bit 8 (push_bit 8 (ucast (a :: u8)) OR ucast (b :: u8) :: u16)) = a"
  "push_bit 8 (ucast (ucast (drop_bit 8 (w :: u16)) :: u8)) OR ucast (ucast w :: u8) = w"
  by (rule bit_word_eqI; auto simp: bit_simps not_less dest: bit_imp_le_length; fail)+

lemma join_bytes_u32:
  "ucast (ucast (b0 :: u8) OR push_bit 8 (ucast (b1 :: u8)) OR push_bit 16 (ucast (b2 :: u8)) OR push_bit 24 (ucast (b3 :: u8)) :: u32) = b0"
  "ucast (drop_bit 8 (ucast b0 OR push_bit 8 (ucast b1) OR push_bit 16 (ucast b2) OR push_bit 24 (ucast b3) :: u32)) = b1"
  "ucast (drop_bit 16 (ucast b0 OR push_bit 8 (ucast b1) OR push_bit 16 (ucast b2) OR push_bit 24 (ucast b3) :: u32)) = b2"
  "ucast (drop_bit 24 (ucast b0 OR push_bit 8 (ucast b1) OR push_bit 16 (ucast b2) OR push_bit 24 (ucast b3) :: u32)) = b3"
  by (rule bit_word_eqI; auto simp: bit_simps not_less dest: bit_imp_le_length; fail)+

lemma split_bytes_u32:
  "ucast (ucast (w :: u32) :: u8) OR push_bit 8 (ucast (ucast (drop_bit 8 w) :: u8)) OR
   push_bit 16 (ucast (ucast (drop_bit 16 w) :: u8)) OR push_bit 24 (ucast (ucast (drop_bit 24 w) :: u8)) = w"
proof (rule bit_word_eqI)
  fix n assume "n < LENGTH(32)"
  then have "n < 8 \<or> 8 \<le> n \<and> n < 16 \<or> 16 \<le> n \<and> n < 24 \<or> 24 \<le> n \<and> n < 32" by auto
  then show "bit (ucast (ucast w :: u8) OR push_bit 8 (ucast (ucast (drop_bit 8 w) :: u8)) OR
      push_bit 16 (ucast (ucast (drop_bit 16 w) :: u8)) OR push_bit 24 (ucast (ucast (drop_bit 24 w) :: u8)) :: u32) n = bit w n"
    by (elim disjE conjE) (auto simp: bit_simps)
qed

text \<open>The encoders and decoders on explicit bytes.\<close>

lemma unaligned16:
  "no_os_put_unaligned_be16 v (replicate 2 0) = [ucast (drop_bit 8 v), ucast v]"
  "no_os_put_unaligned_le16 v (replicate 2 0) = [ucast v, ucast (drop_bit 8 v)]"
  "no_os_get_unaligned_be16 (x # y # zs) = push_bit 8 (ucast x) OR ucast y"
  "no_os_get_unaligned_le16 (x # y # zs) = push_bit 8 (ucast y) OR ucast x"
  by (simp_all add: no_os_put_unaligned_be16_def no_os_put_unaligned_le16_def no_os_get_unaligned_be16_def
      no_os_get_unaligned_le16_def eval_nat_numeral ucast_and_FF or.commute)

lemma unaligned32:
  "no_os_put_unaligned_be32 w (replicate 4 0) = [ucast (drop_bit 24 w), ucast (drop_bit 16 w), ucast (drop_bit 8 w), ucast w]"
  "no_os_put_unaligned_le32 w (replicate 4 0) = [ucast w, ucast (drop_bit 8 w), ucast (drop_bit 16 w), ucast (drop_bit 24 w)]"
  "no_os_get_unaligned_be32 (b0 # b1 # b2 # b3 # zs) =
     ucast b3 OR push_bit 8 (ucast b2) OR push_bit 16 (ucast b1) OR push_bit 24 (ucast b0)"
  "no_os_get_unaligned_le32 (b0 # b1 # b2 # b3 # zs) =
     ucast b0 OR push_bit 8 (ucast b1) OR push_bit 16 (ucast b2) OR push_bit 24 (ucast b3)"
  by (simp_all add: no_os_put_unaligned_be32_def no_os_put_unaligned_le32_def no_os_get_unaligned_be32_def
      no_os_get_unaligned_le32_def eval_nat_numeral ucast_and_FF)

interpretation be16: codec "\<lambda>v. no_os_put_unaligned_be16 v (replicate 2 0)" no_os_get_unaligned_be16 2
  by unfold_locales (auto elim!: length_2E simp only: unaligned16 join_bytes_u16 append_Cons list.size)

interpretation le16: codec "\<lambda>v. no_os_put_unaligned_le16 v (replicate 2 0)" no_os_get_unaligned_le16 2
  by unfold_locales (auto elim!: length_2E simp only: unaligned16 join_bytes_u16 append_Cons list.size)

interpretation be32: codec "\<lambda>v. no_os_put_unaligned_be32 v (replicate 4 0)" no_os_get_unaligned_be32 4
  by unfold_locales (auto elim!: length_4E simp only: unaligned32 join_bytes_u32 split_bytes_u32 append_Cons list.size)

interpretation le32: codec "\<lambda>v. no_os_put_unaligned_le32 v (replicate 4 0)" no_os_get_unaligned_le32 4
  by unfold_locales (auto elim!: length_4E simp only: unaligned32 join_bytes_u32 split_bytes_u32 append_Cons list.size)

section \<open>Products, proved\<close>

lemma unat_low_half: "unat (ucast (a :: u64) :: u32) = unat a mod 2 ^ 32"
  by (simp add: unsigned_ucast_eq take_bit_eq_mod)

lemma unat_mul_u32_u32: "unat (no_os_mul_u32_u32 a b) = unat a * unat b"
proof -
  have "unat a * unat b \<le> 4294967295 * 4294967295"
    by (rule mult_le_mono) (use unat_u32_less[of a] unat_u32_less[of b] in linarith)+
  moreover have "take_bit 64 (unat x) = unat x" for x :: u32
    by (rule take_bit_nat_eq_self) (rule less_trans[OF unat_u32_less], simp)
  ultimately show ?thesis
    by (simp add: no_os_mul_u32_u32_def unat_word_ariths unsigned_ucast_eq)
qed

lemma unat_u64_less: "unat (x :: u64) < 2 ^ 64"
  using unsigned_less[of x] by simp

lemma unat_high_half: "unat (ucast (drop_bit 32 (a :: u64)) :: u32) = unat a div 2 ^ 32"
proof -
  have "unat a div 2 ^ 32 < 2 ^ 32"
    using unat_u64_less[of a] by (simp add: less_mult_imp_div_less)
  then show ?thesis
    by (simp only: unsigned_ucast_eq take_bit_eq_mod unat_drop_bit_eq) (simp add: drop_bit_eq_div)
qed

lemma div_shift_add: "s \<le> 32 \<Longrightarrow> (x + y * 2 ^ 32) div 2 ^ s = x div 2 ^ s + y * 2 ^ (32 - s :: nat)" for x y :: nat
proof -
  assume "s \<le> 32"
  then have "(2 :: nat) ^ 32 = 2 ^ (32 - s) * 2 ^ s" by (metis le_add_diff_inverse2 power_add)
  then have "x + y * 2 ^ 32 = x + y * 2 ^ (32 - s) * 2 ^ s" by (simp only: mult.assoc)
  then show ?thesis by (simp only: div_mult_self1[OF power_not_zero[OF zero_neq_numeral[symmetric]]] add.commute)
qed

lemma unat_shift_in:
  assumes "unat rem < 2 ^ 63"
  shows "unat (push_bit 1 rem OR drop_bit 63 low :: u64) = 2 * unat rem + unat low div 2 ^ 63"
proof -
  have "push_bit 1 rem AND drop_bit 63 low = 0"
  proof (rule bit_word_eqI)
    fix n
    have "\<not> bit (push_bit 1 rem) 0" by (simp only: bit_push_bit_iff) simp
    moreover have "\<not> bit (drop_bit 63 low) n" if "0 < n"
      using that bit_imp_le_length[of low "63 + n"] by (auto simp: bit_drop_bit_eq)
    ultimately show "bit (push_bit 1 rem AND drop_bit 63 low) n = bit 0 n"
      by (cases "n = 0") (auto simp only: bit_and_iff bit_0_eq bot_apply bot_bool_def)
  qed
  then have "push_bit 1 rem OR drop_bit 63 low = push_bit 1 rem + drop_bit 63 low"
    by (simp only: disjunctive_add_eq_or)
  moreover have "unat (drop_bit 63 low) = unat low div 2 ^ 63"
    by (simp only: unat_drop_bit_eq) (simp add: drop_bit_eq_div)
  moreover have "unat low div 2 ^ 63 < 2"
    using unat_u64_less[of low] by (simp add: less_mult_imp_div_less)
  moreover have "unat (push_bit 1 rem) = 2 * unat rem"
    using assms by (simp add: push_bit_eq_mult unat_word_ariths)
  ultimately show ?thesis
    using assms by (simp only: unat_word_ariths) simp
qed

text \<open>One round of the shift-and-subtract division, on numbers.\<close>

lemma div_mod_bit:
  fixes N d n :: nat
  assumes "0 < d"
  defines "r \<equiv> 2 * (N div 2 ^ Suc n mod d) + N mod 2 ^ Suc n div 2 ^ n"
  shows "d \<le> r \<Longrightarrow> N div 2 ^ n div d = 2 * (N div 2 ^ Suc n div d) + 1 \<and> N div 2 ^ n mod d = r - d"
    and "r < d \<Longrightarrow> N div 2 ^ n div d = 2 * (N div 2 ^ Suc n div d) \<and> N div 2 ^ n mod d = r"
    and "r < 2 * d"
proof -
  let ?A = "N div 2 ^ Suc n"
  let ?b = "N mod 2 ^ Suc n div 2 ^ n"
  have b: "?b < 2"
    by (rule less_mult_imp_div_less) simp
  have A: "?A = N div 2 ^ n div 2" by (metis div_mult2_eq power_Suc2)
  have bb: "?b = N div 2 ^ n mod 2"
    by (simp add: div_mult2_eq mult.commute[of 2] mod_mult2_eq)
  have B: "N div 2 ^ n = 2 * ?A + ?b" unfolding A bb by simp
  have sp: "N div 2 ^ n = d * (2 * (?A div d)) + r"
    unfolding r_def B[symmetric]
    by (subst B, subst mult_div_mod_eq[of d ?A, symmetric]) (simp only: distrib_left mult.left_commute add.assoc)
  show r2: "r < 2 * d"
    using b mod_less_divisor[OF assms(1), of ?A] unfolding r_def by linarith
  show "d \<le> r \<Longrightarrow> N div 2 ^ n div d = 2 * (?A div d) + 1 \<and> N div 2 ^ n mod d = r - d"
  proof -
    assume "d \<le> r"
    define k where "k = 2 * (?A div d) + 1"
    have "N div 2 ^ n = d * k + (r - d)" using sp \<open>d \<le> r\<close> unfolding k_def by simp
    moreover have "r - d < d" using r2 \<open>d \<le> r\<close> by simp
    ultimately show ?thesis unfolding k_def[symmetric] by simp
  qed
  show "r < d \<Longrightarrow> N div 2 ^ n div d = 2 * (?A div d) \<and> N div 2 ^ n mod d = r"
    using sp by simp
qed

lemma unat_add_u64: "unat (a + b :: u64) = (unat a + unat b) mod 2 ^ 64"
  by (simp add: unat_word_ariths)

lemma or_next_bit: "unat (result :: u64) = q * 2 ^ Suc n \<Longrightarrow> n < 64 \<Longrightarrow> unat (result OR push_bit n 1) = (2 * q + 1) * 2 ^ n"
proof -
  assume q: "unat result = q * 2 ^ Suc n" and n: "n < 64"
  have "\<not> bit result n"
  proof -
    have "bit (unat result) n = bit result n" by (simp add: bit_unsigned_iff)
    moreover have "\<not> bit (unat result) n" unfolding q bit_iff_odd by simp
    ultimately show ?thesis by blast
  qed
  then have "result AND push_bit n 1 = 0"
    by (intro bit_word_eqI) (auto simp: bit_simps)
  then have orr: "result OR push_bit n 1 = result + push_bit n 1"
    by (simp only: disjunctive_add_eq_or)
  have pb: "unat (push_bit n 1 :: u64) = 2 ^ n"
  proof -
    have "unat (of_nat (2 ^ n) :: u64) = 2 ^ n mod 2 ^ 64" by (simp only: unat_of_nat) simp
    also have "\<dots> = 2 ^ n" by (rule mod_less) (rule power_strict_increasing[OF n], simp)
    finally show ?thesis by (simp add: push_bit_eq_mult)
  qed
  have small: "(2 * q + 1) * 2 ^ n < 2 ^ 64"
  proof -
    have "q * 2 ^ Suc n < 2 ^ (64 - Suc n) * 2 ^ Suc n"
      using q n unat_u64_less[of result] by (simp only: power_add[symmetric]) simp
    then have "q < 2 ^ (64 - Suc n)" by (simp only: mult_less_cancel2)
    moreover have "64 - n = Suc (64 - Suc n)" using n by simp
    ultimately have "2 * q + 1 < 2 ^ (64 - n)" by simp
    then have "(2 * q + 1) * 2 ^ n < 2 ^ (64 - n) * 2 ^ n" by (simp only: mult_less_cancel2) simp
    also have "(2 :: nat) ^ (64 - n) * 2 ^ n = 2 ^ 64" using n by (simp only: power_add[symmetric]) simp
    finally show ?thesis .
  qed
  have "q * 2 ^ Suc n + 2 ^ n = (2 * q + 1) * 2 ^ n" by simp
  then show ?thesis
    using small by (simp only: orr unat_add_u64 q pb mod_less)
qed

text \<open>
  With \<open>n\<close> rounds left, the remainder and the result describe the part of \<open>N\<close> above its
  last \<open>n\<close> bits, and \<open>low\<close> holds these at its top.
\<close>

lemma mul_div_loop_run:
  assumes "n \<le> 64" and "divisor \<noteq> 0" and "unat divisor < 2 ^ 32"
    and "unat rem = (N div 2 ^ n) mod unat divisor"
    and "unat low = (N mod 2 ^ n) * 2 ^ (64 - n)"
    and "unat result = (N div 2 ^ n) div unat divisor * 2 ^ n"
  shows "unat (mul_div_loop n divisor rem low result) = N div unat divisor"
  using assms
proof (induction n arbitrary: rem low result)
  case 0
  then show ?case by simp
next
  case (Suc n)
  let ?d = "unat divisor"
  let ?rem = "push_bit 1 rem OR drop_bit 63 low" and ?low = "push_bit 1 low"
  have d: "0 < ?d" using Suc.prems(2) by (simp add: unat_gt_0)
  have rl: "unat rem < ?d" using Suc.prems(4) d by simp
  have top: "unat low div 2 ^ 63 = N mod 2 ^ Suc n div 2 ^ n"
  proof -
    have e: "(2 :: nat) ^ 63 = 2 ^ n * 2 ^ (64 - Suc n)" using Suc.prems(1) by (simp add: power_add[symmetric])
    show ?thesis unfolding Suc.prems(5) e by (simp add: mult.commute[of "2 ^ n"])
  qed
  have rem: "unat ?rem = 2 * (N div 2 ^ Suc n mod ?d) + N mod 2 ^ Suc n div 2 ^ n"
    using unat_shift_in[of rem low] rl Suc.prems(3,4) top by simp
  have low: "unat ?low = (N mod 2 ^ n) * 2 ^ (64 - n)"
  proof -
    have "unat ?low = unat low * 2 mod 2 ^ 64"
      by (simp add: push_bit_eq_mult unat_word_ariths mult.commute)
    also have "\<dots> = (N mod 2 ^ Suc n) * 2 ^ (64 - n) mod 2 ^ 64"
    proof -
      have "(2 :: nat) ^ (64 - Suc n) * 2 = 2 ^ (64 - n)"
        using Suc.prems(1) by (simp only: power_Suc2[symmetric] Suc_diff_Suc Suc_le_eq)
      then show ?thesis unfolding Suc.prems(5) mult.assoc by simp
    qed
    also have "\<dots> = (N mod 2 ^ Suc n mod 2 ^ n) * 2 ^ (64 - n)"
    proof -
      have e: "(2 :: nat) ^ 64 = 2 ^ n * 2 ^ (64 - n)" using Suc.prems(1) by (simp add: power_add[symmetric])
      show ?thesis unfolding e by (simp only: mult_mod_right mult.commute)
    qed
    also have "N mod 2 ^ Suc n mod 2 ^ n = N mod 2 ^ n"
      by (rule mod_mod_cancel) (simp add: le_imp_power_dvd)
    finally show ?thesis .
  qed
  note step = div_mod_bit[OF d, of N n, folded rem]
  have q: "unat result = N div 2 ^ Suc n div ?d * 2 ^ Suc n" by (rule Suc.prems(6))
  show ?case
  proof (cases "divisor \<le> ?rem")
    case True
    then have le: "?d \<le> unat ?rem" by (simp only: word_le_nat_alt)
    have "unat (mul_div_loop n divisor (?rem - divisor) ?low (result OR push_bit n 1)) = N div ?d"
    proof (rule Suc.IH)
      show "unat (?rem - divisor) = N div 2 ^ n mod ?d"
        using step(1)[OF le] True by (simp only: unat_sub) 
      show "unat (result OR push_bit n 1) = N div 2 ^ n div ?d * 2 ^ n"
        using or_next_bit[OF q] Suc.prems(1) step(1)[OF le] by simp
    qed (use Suc.prems low in simp_all)
    with True show ?thesis by (simp only: mul_div_loop.simps Let_def if_True)
  next
    case False
    then have lt: "unat ?rem < ?d" by (simp only: word_le_nat_alt)
    have "unat (mul_div_loop n divisor ?rem ?low result) = N div ?d"
    proof (rule Suc.IH)
      show "unat ?rem = N div 2 ^ n mod ?d" using step(2)[OF lt] by simp
      show "unat result = N div 2 ^ n div ?d * 2 ^ n" using step(2)[OF lt] q by simp
    qed (use Suc.prems low in simp_all)
    with False show ?thesis by (simp only: mul_div_loop.simps Let_def if_False)
  qed
qed

lemma unat_mul_shr:
  assumes "s \<le> 32"
  shows "unat (no_os_mul_u64_u32_shr a mul s) = unat a * unat mul div 2 ^ s mod 2 ^ 64"
proof -
  let ?al = "ucast a :: u32" and ?ah = "ucast (drop_bit 32 a) :: u32"
  have split: "unat a = unat ?al + unat ?ah * 2 ^ 32"
    unfolding unat_high_half unfolding unat_low_half by presburger
  have lo: "unat (drop_bit s (no_os_mul_u32_u32 ?al mul)) = unat ?al * unat mul div 2 ^ s"
    by (simp only: unat_drop_bit_eq unat_mul_u32_u32) (simp add: drop_bit_eq_div)
  have hi: "unat (push_bit (32 - s) (no_os_mul_u32_u32 ?ah mul)) = unat ?ah * unat mul * 2 ^ (32 - s) mod 2 ^ 64"
  proof -
    have "unat (push_bit (32 - s) (no_os_mul_u32_u32 ?ah mul)) = take_bit 64 (push_bit (32 - s) (unat ?ah * unat mul))"
      by (simp only: unsigned_push_bit_eq unat_mul_u32_u32) simp
    then show ?thesis by (simp only: take_bit_eq_mod push_bit_eq_mult)
  qed
  have "unat a * unat mul div 2 ^ s = unat ?al * unat mul div 2 ^ s + unat ?ah * unat mul * 2 ^ (32 - s)"
    using div_shift_add[OF assms, of "unat ?al * unat mul" "unat ?ah * unat mul"] unfolding split
    by (simp only: distrib_right mult.assoc mult.commute[of "2 ^ 32"])
  moreover have "unat (no_os_mul_u64_u32_shr a mul s) =
      (unat ?al * unat mul div 2 ^ s + unat ?ah * unat mul * 2 ^ (32 - s)) mod 2 ^ 64"
  proof (cases "?ah = 0")
    case True
    then have "unat (no_os_mul_u64_u32_shr a mul s) = unat ?al * unat mul div 2 ^ s"
      unfolding no_os_mul_u64_u32_shr_def Let_def by (simp only: lo if_False simp_thms)
    then have "unat ?al * unat mul div 2 ^ s < 2 ^ 64" using unat_u64_less by metis
    with True \<open>unat (no_os_mul_u64_u32_shr a mul s) = _\<close> show ?thesis
      by (simp only: unat_0 mult_0 add_0_right mod_less)
  next
    case False
    then show ?thesis
      unfolding no_os_mul_u64_u32_shr_def Let_def
      by (simp only: not_False_eq_True if_True unat_add_u64 lo hi mod_add_right_eq)
  qed
  ultimately show ?thesis by (simp only:)
qed

section \<open>Sign extension and byte swapping, proved\<close>

lemma sign_extend16_bits:
  "0 \<le> i \<Longrightarrow> i \<le> 15 \<Longrightarrow> no_os_sign_extend16 v i = signed_take_bit (nat i) v"
proof -
  assume i: "0 \<le> i" "i \<le> 15"
  then obtain k where k: "i = int k" "k \<le> 15" by (metis nat_int of_nat_le_iff of_nat_numeral zero_le_imp_eq_int)
  have "15 - i = int (15 - k)" using k by simp
  then have "unat (word_of_int (15 - i) :: u8) = 15 - k" by (simp only: of_int_of_nat_eq unat_of_nat) simp
  then show ?thesis
    using k unfolding no_os_sign_extend16_def Let_def
    by (intro bit_word_eqI) (auto simp: bit_simps min_def not_le less_diff_conv2 less_Suc_eq)
qed

lemma sign_extend32_bits:
  "0 \<le> i \<Longrightarrow> i \<le> 31 \<Longrightarrow> no_os_sign_extend32 v i = signed_take_bit (nat i) v"
proof -
  assume i: "0 \<le> i" "i \<le> 31"
  then obtain k where k: "i = int k" "k \<le> 31" by (metis nat_int of_nat_le_iff of_nat_numeral zero_le_imp_eq_int)
  have "31 - i = int (31 - k)" using k by simp
  then have "unat (word_of_int (31 - i) :: u8) = 31 - k" by (simp only: of_int_of_nat_eq unat_of_nat) simp
  then show ?thesis
    using k unfolding no_os_sign_extend32_def Let_def
    by (intro bit_word_eqI) (auto simp: bit_simps min_def not_le less_diff_conv2 less_Suc_eq)
qed

lemma memswap_group_run:
  "j \<le> length temp \<Longrightarrow> p + j \<le> length buf \<Longrightarrow> memswap_group temp p j buf = upd_bytes buf p (rev (take j temp))"
proof (induction j arbitrary: p buf)
  case (Suc j)
  then have "memswap_group temp (Suc p) j (buf[p := temp ! j]) = upd_bytes (buf[p := temp ! j]) (Suc p) (rev (take j temp))"
    by simp
  also have "\<dots> = upd_bytes buf p (rev (take (Suc j) temp))"
    using Suc.prems upd_bytes_upd_bytes[of p "[temp ! j]" buf "rev (take j temp)"]
    by (simp add: upd_bytes_single take_Suc_conv_app_nth)
  finally show ?case by simp
qed simp

text \<open>The index a byte comes from: the mirror image in its group.\<close>

definition mirror :: "nat \<Rightarrow> nat \<Rightarrow> nat" where
  "mirror step m = m div step * step + (step - 1 - m mod step)"

lemma mirror_in_group:
  assumes "step dvd i" and "i \<le> m" and "m < i + step"
  shows "mirror step m = i + (step - 1 - (m - i))"
proof -
  from assms obtain k r where "i = k * step" "m = k * step + r" "r < step"
    by (metis add_less_cancel_left dvd_def le_Suc_ex mult.commute)
  then show ?thesis by (simp add: mirror_def)
qed

lemma mirror_above: "step dvd i \<Longrightarrow> 0 < step \<Longrightarrow> i \<le> m \<Longrightarrow> i \<le> mirror step m"
proof -
  assume "step dvd i" "0 < step" "i \<le> m"
  then have "i \<le> m div step * step" by (metis div_le_mono dvd_div_mult_self mult_le_mono1)
  then show ?thesis by (simp add: mirror_def)
qed

lemma mirror_below:
  assumes "0 < step" and "step dvd bytes" and "m < bytes"
  shows "mirror step m < bytes"
proof -
  from assms obtain k where k: "bytes = k * step" by (metis dvd_def mult.commute)
  with assms have "Suc (m div step) \<le> k" by (simp add: Suc_le_eq div_less_iff_less_mult)
  then have "m div step * step + step \<le> bytes" unfolding k by (metis add.commute mult_Suc mult_le_mono1)
  with assms(1) show ?thesis by (simp add: mirror_def)
qed

lemma memswap_loop_run:
  assumes "0 < step" and "step dvd i" and "step dvd bytes" and "bytes \<le> length buf"
  shows "length (memswap_loop bytes step i buf) = length buf \<and>
    (\<forall>m<length buf. memswap_loop bytes step i buf ! m = (if i \<le> m \<and> m < bytes then buf ! mirror step m else buf ! m))"
  using assms
proof (induction "bytes - i" arbitrary: i buf rule: less_induct)
  case less
  show ?case
  proof (cases "i < bytes")
    case False
    then show ?thesis by (auto simp: memswap_loop.simps[of bytes])
  next
    case True
    let ?g = "take step (drop i buf)"
    let ?buf1 = "upd_bytes buf i (rev ?g)"
    have fits: "i + step \<le> bytes"
      using less.prems True by (metis dvd_add_left_iff dvd_imp_le dvd_minus_self le_add_diff_inverse less_imp_le_nat
          add_le_cancel_left zero_less_diff dvd_diff_nat)
    have g: "memswap_group ?g i step buf = ?buf1"
      using fits less.prems(4) by (subst memswap_group_run) simp_all
    have len: "length ?buf1 = length buf" using fits less.prems(4) by simp
    have ih: "length (memswap_loop bytes step (i + step) ?buf1) = length ?buf1 \<and>
      (\<forall>m<length ?buf1. memswap_loop bytes step (i + step) ?buf1 ! m =
        (if i + step \<le> m \<and> m < bytes then ?buf1 ! mirror step m else ?buf1 ! m))"
      using less.prems True len by (intro less.hyps) simp_all
    have at: "?buf1 ! m = (if i \<le> m \<and> m < i + step then buf ! mirror step m else buf ! m)" if "m < length buf" for m
      using fits less.prems(2,4) that
      by (auto simp: nth_upd_bytes rev_nth mirror_in_group)
    have run: "memswap_loop bytes step i buf = memswap_loop bytes step (i + step) ?buf1"
      using True less.prems(1) by (subst memswap_loop.simps) (simp add: g)
    have "memswap_loop bytes step (i + step) ?buf1 ! m = (if i \<le> m \<and> m < bytes then buf ! mirror step m else buf ! m)"
      if m: "m < length buf" for m
    proof (cases "i + step \<le> m \<and> m < bytes")
      case hit: True
      then have "i + step \<le> mirror step m" using mirror_above[of step "i + step" m] less.prems(1,2) by simp
      moreover have "mirror step m < length buf" using mirror_below[OF less.prems(1,3)] hit less.prems(4) by force
      ultimately show ?thesis using ih at[of "mirror step m"] hit m len by simp
    next
      case miss: False
      then show ?thesis using ih at[OF m] m len fits by auto
    qed
    then show ?thesis using ih len run by simp
  qed
qed

section \<open>Properties\<close>

lemma first_set_below:
  "\<forall>i<unat (no_os_find_first_set_bit m). \<not> bit m i"
proof (cases "m = 0")
  case False
  then obtain n where n: "n < LENGTH(32)" "bit m n" "\<forall>i<n. \<not> bit m i" by (rule lowest_bit)
  then have "no_os_find_first_set_bit m = of_nat n" by (intro find_first_set_bit_run) simp_all
  then have "unat (no_os_find_first_set_bit m) = n" using n(1) by (simp add: unat_of_nat)
  with n(3) show ?thesis by simp
qed simp

lemma unat_of_small: "n < 32 \<Longrightarrow> unat (of_nat n :: u32) = n"
  by (simp add: unat_of_nat)


text \<open>The bit searches return the index of the lowest and of the highest set bit, 32
  for the word 0 (so the logarithm to base 2 of 0 is 32), and the logarithm brackets its
  argument between two powers of two.\<close>

theorem bit_searches:
  shows "w \<noteq> 0 \<Longrightarrow> bit w (unat (no_os_find_first_set_bit w)) \<and> (\<forall>i<unat (no_os_find_first_set_bit w). \<not> bit w i) \<and>
      bit w (unat (no_os_find_last_set_bit w)) \<and> (\<forall>i>unat (no_os_find_last_set_bit w). \<not> bit w i) \<and>
      2 ^ unat (no_os_log_base_2 w) \<le> unat w \<and> unat w < 2 ^ Suc (unat (no_os_log_base_2 w))"
proof -
  assume w: "w \<noteq> 0"
  from w obtain n where n: "n < LENGTH(32)" "bit w n" "\<forall>i<n. \<not> bit w i" by (rule lowest_bit)
  from w obtain k where k: "k < LENGTH(32)" "bit w k" "\<forall>i>k. \<not> bit w i" by (rule highest_bit)
  have fn: "unat (no_os_find_first_set_bit w) = n"
    using find_first_set_bit_run[of n w] n by (simp add: unat_of_small)
  have fk: "unat (no_os_find_last_set_bit w) = k"
    using find_last_set_bit_run[OF k(2,3)] k(1) by (simp add: unat_of_small)
  have bitk: "bit (unat w) k" using k(2) by (simp add: bit_unsigned_iff)
  then have "2 ^ k \<le> unat w" by (metis bit_iff_odd div_less even_zero not_le)
  moreover have "take_bit (Suc k) (unat w) = unat w"
    by (rule bit_eqI) (use k(3) in \<open>auto simp: bit_take_bit_iff bit_unsigned_iff not_less_eq\<close>)
  then have "unat w < 2 ^ Suc k" by (metis take_bit_nat_less_exp)
  ultimately show ?thesis using n k fn fk by (simp add: no_os_log_base_2_def)
qed

theorem bit_searches_witness:
  "bit (40 :: u32) (unat (no_os_find_first_set_bit 40)) \<and> 2 ^ unat (no_os_log_base_2 40) \<le> unat (40 :: u32)"
  using bit_searches[of 40] by simp


text \<open>The unaligned stores and loads of 16, 24 and 32 bits invert each other, in both
  byte orders; a 24-bit store keeps the low 24 bits.\<close>

theorem unaligned_roundtrip:
  "no_os_get_unaligned_be16 (no_os_put_unaligned_be16 h (replicate 2 0)) = h \<and>
   no_os_get_unaligned_le16 (no_os_put_unaligned_le16 h (replicate 2 0)) = h \<and>
   no_os_get_unaligned_be32 (no_os_put_unaligned_be32 w (replicate 4 0)) = w \<and>
   no_os_get_unaligned_le32 (no_os_put_unaligned_le32 w (replicate 4 0)) = w \<and>
   no_os_get_unaligned_be24 (no_os_put_unaligned_be24 w (replicate 3 0)) = w AND 0xFFFFFF \<and>
   no_os_get_unaligned_le24 (no_os_put_unaligned_le24 w (replicate 3 0)) = w AND 0xFFFFFF"
proof -
  have m: "(0xFFFFFF :: u32) = mask 24" by (simp add: mask_eq_exp_minus_1)
  have b: "ucast (ucast w :: u8) OR push_bit 8 (ucast (ucast (drop_bit 8 w) :: u8)) OR
      push_bit 16 (ucast (ucast (drop_bit 16 w) :: u8)) = w AND 0xFFFFFF"
    unfolding m
  proof (rule bit_word_eqI)
    fix n assume "n < LENGTH(32)"
    then have "n < 8 \<or> 8 \<le> n \<and> n < 16 \<or> 16 \<le> n \<and> n < 24 \<or> 24 \<le> n \<and> n < 32" by auto
    then show "bit (ucast (ucast w :: u8) OR push_bit 8 (ucast (ucast (drop_bit 8 w) :: u8)) OR
        push_bit 16 (ucast (ucast (drop_bit 16 w) :: u8)) :: u32) n = bit (w AND mask 24) n"
      by (elim disjE conjE) (auto simp: bit_simps)
  qed
  have "no_os_get_unaligned_be24 (no_os_put_unaligned_be24 w (replicate 3 0)) = w AND 0xFFFFFF"
    "no_os_get_unaligned_le24 (no_os_put_unaligned_le24 w (replicate 3 0)) = w AND 0xFFFFFF"
    unfolding b[symmetric]
    by (simp_all add: no_os_get_unaligned_be24_def no_os_put_unaligned_be24_def no_os_get_unaligned_le24_def
        no_os_put_unaligned_le24_def eval_nat_numeral ucast_and_FF)
  then show ?thesis
    using be16.dec_enc[of h "[]"] le16.dec_enc[of h "[]"] be32.dec_enc[of w "[]"] le32.dec_enc[of w "[]"] by simp
qed

text \<open>The multiplication with a right shift of at most 32 is exact modulo 2 to the 64.\<close>

theorem mul_shift_exact:
  assumes "shift \<le> 32"
  shows "unat (no_os_mul_u64_u32_shr a mul shift) = unat a * unat mul div 2 ^ shift mod 2 ^ 64"
  using assms by (rule unat_mul_shr)

theorem mul_shift_exact_witness:
  "unat (no_os_mul_u64_u32_shr 0x123456789A 7 4) = unat (0x123456789A :: u64) * unat (7 :: u32) div 2 ^ 4 mod 2 ^ 64"
  using mul_shift_exact[of 4 "0x123456789A" 7] by simp

text \<open>The multiplication with a division is exact when the products of both halves with
  the multiplier stay below 2 to the 32 and the divisor is not 0.\<close>

theorem mul_div_exact:
  assumes "unat a mod 2 ^ 32 * unat mul < 2 ^ 32" and "unat a div 2 ^ 32 * unat mul < 2 ^ 32" and "divisor \<noteq> 0"
  shows "unat (no_os_mul_u64_u32_div a mul divisor) = unat a * unat mul div unat divisor"
proof -
  let ?al = "ucast (a AND 0xFFFFFFFF) :: u32" and ?ah = "ucast (drop_bit 32 a) :: u32"
  let ?ll = "no_os_mul_u32_u32 ?al mul" and ?hl = "no_os_mul_u32_u32 ?ah mul"
  have m: "(0xFFFFFFFF :: u64) = mask 32" by (simp add: mask_eq_exp_minus_1)
  have "?al = ucast a" unfolding m by (rule bit_word_eqI) (auto simp: bit_simps)
  then have al: "unat ?al = unat a mod 2 ^ 32" using unat_low_half by simp
  have ll: "unat ?ll < 2 ^ 32" using assms(1) by (simp only: unat_mul_u32_u32 al)
  have hl: "unat ?hl < 2 ^ 32" using assms(2) by (simp only: unat_mul_u32_u32 unat_high_half)
  have small: "drop_bit 32 x = 0" "x AND 0xFFFFFFFF = x" if "unat x < 2 ^ 32" for x :: u64
  proof -
    have "unat (drop_bit 32 x) = unat (0 :: u64)"
      using that by (simp only: unat_drop_bit_eq) (simp add: drop_bit_eq_div)
    then show "drop_bit 32 x = 0" by (simp only: word_unat_eq_iff)
    have "unat (x AND mask 32) = unat x"
      using that by (simp only: take_bit_eq_mask[symmetric] unsigned_take_bit_eq take_bit_nat_eq_self)
    then show "x AND 0xFFFFFFFF = x" unfolding m by (simp only: word_unat_eq_iff)
  qed
  let ?low = "?ll + push_bit 32 ?hl"
  let ?N = "unat a * unat mul"
  have N: "unat ?ll + unat ?hl * 2 ^ 32 = ?N"
  proof -
    have "?N = (unat a mod 2 ^ 32 + unat a div 2 ^ 32 * 2 ^ 32) * unat mul" by (simp only: mod_div_mult_eq)
    then show ?thesis
      by (simp only: unat_mul_u32_u32 al unat_high_half distrib_right mult.assoc mult.commute[of "2 ^ 32"])
  qed
  have N64: "?N < 2 ^ 64"
  proof -
    have "unat ?ll + unat ?hl * 2 ^ 32 < 2 ^ 32 + (2 ^ 32 - 1) * 2 ^ 32"
      by (rule add_less_le_mono[OF ll]) (use hl in \<open>simp add: less_eq_Suc_le\<close>)
    then show ?thesis unfolding N by simp
  qed
  have "unat (push_bit 32 ?hl) = unat ?hl * 2 ^ 32 mod 2 ^ 64"
    by (simp only: unsigned_push_bit_eq) (simp add: take_bit_eq_mod push_bit_eq_mult)
  then have low: "unat ?low = ?N"
    using N N64 by (simp only: unat_add_u64 mod_add_right_eq) (simp only: mod_less)
  have run: "no_os_mul_u64_u32_div a mul divisor = mul_div_loop 64 (ucast divisor) 0 ?low 0"
    unfolding no_os_mul_u64_u32_div_def Let_def by (simp only: small[OF ll] small[OF hl]) simp
  have d: "unat (ucast divisor :: u64) = unat divisor"
    by (simp only: unsigned_ucast_eq) (rule take_bit_nat_eq_self, rule less_trans[OF unat_u32_less], simp)
  have "unat (mul_div_loop 64 (ucast divisor) 0 ?low 0) = ?N div unat (ucast divisor :: u64)"
  proof (rule mul_div_loop_run)
    show "(ucast divisor :: u64) \<noteq> 0" using assms(3) d by (metis unat_0 word_unat_eq_iff)
    show "unat (ucast divisor :: u64) < 2 ^ 32" unfolding d using unat_u32_less[of divisor] by simp
  qed (use N64 low in \<open>simp_all add: mod_less\<close>)
  then show ?thesis unfolding run d .
qed

theorem mul_div_exact_witness:
  "unat (no_os_mul_u64_u32_div 100000 1000 7) = 14285714"
  using mul_div_exact[of 100000 1000 7] by simp

text \<open>Outside these bounds the multiplication with a division is wrong even when the
  product fits 64 bits: the high half of the low product is counted twice.\<close>

theorem mul_div_double_count:
  "unat (0x100000 :: u64) * unat (0x10000 :: u32) < 2 ^ 64 \<and>
   no_os_mul_u64_u32_div 0x100000 0x10000 0x10000 = 0x10000000100000"
proof -
  have run: "no_os_mul_u64_u32_div 0x100000 0x10000 0x10000 = mul_div_loop 64 0x10000 16 0x1000000000 0"
    by (simp add: no_os_mul_u64_u32_div_def no_os_mul_u32_u32_def Let_def)
  have "unat (mul_div_loop 64 0x10000 16 0x1000000000 0) = (16 * 2 ^ 64 + 0x1000000000) div unat (0x10000 :: u64)"
    by (rule mul_div_loop_run) simp_all
  also have "\<dots> = unat (0x10000000100000 :: u64)" by simp
  finally show ?thesis unfolding run by (simp add: word_unat_eq_iff)
qed

text \<open>Swapping the bytes of a buffer in groups of 2 to 8 bytes mirrors every byte in its
  group, leaves the bytes after the given count alone, and undoes itself.\<close>

theorem memswap_mirrors:
  assumes "2 \<le> step" and "step \<le> 8" and "step dvd bytes" and "0 < bytes" and "bytes \<le> length buf"
  shows "length (no_os_memswap64 buf bytes step) = length buf \<and>
    (\<forall>m<length buf. no_os_memswap64 buf bytes step ! m = (if m < bytes then buf ! mirror step m else buf ! m)) \<and>
    no_os_memswap64 (no_os_memswap64 buf bytes step) bytes step = buf"
proof -
  have run: "no_os_memswap64 b bytes step = memswap_loop bytes step 0 b" for b
    using assms by (auto simp: no_os_memswap64_def dvd_imp_le dest: dvd_imp_le)
  have a: "0 < step" "step dvd 0" using assms by auto
  note r = memswap_loop_run[OF a assms(3)]
  let ?b1 = "memswap_loop bytes step 0 buf"
  have b1: "length ?b1 = length buf"
    "\<And>m. m < length buf \<Longrightarrow> ?b1 ! m = (if m < bytes then buf ! mirror step m else buf ! m)"
    using r[OF assms(5)] by auto
  have le1: "bytes \<le> length ?b1" using b1 assms(5) by simp
  have "memswap_loop bytes step 0 ?b1 = buf"
  proof (rule nth_equalityI)
    show len: "length (memswap_loop bytes step 0 ?b1) = length buf" using r[OF le1] b1 by simp
    fix m assume "m < length (memswap_loop bytes step 0 ?b1)"
    then have m: "m < length buf" using len by simp
    have mm: "mirror step (mirror step m) = m"
    proof -
      have "mirror step m = m div step * step + (step - 1 - m mod step)" by (simp add: mirror_def)
      moreover have "step - 1 - m mod step < step" using a by simp
      ultimately have "mirror step m div step = m div step" "mirror step m mod step = step - 1 - m mod step"
        using a by simp_all
      then have "mirror step (mirror step m) = m div step * step + (step - 1 - (step - 1 - m mod step))"
        by (simp add: mirror_def)
      moreover have "m mod step < step" using a by simp
      ultimately show ?thesis by (simp add: Suc_leI)
    qed
    show "memswap_loop bytes step 0 ?b1 ! m = buf ! m"
    proof (cases "m < bytes")
      case True
      then have "mirror step m < bytes" by (rule mirror_below[OF a(1) assms(3)])
      then show ?thesis using True m b1 r[OF le1] mm assms(5) by simp
    next
      case False
      then show ?thesis using m b1 r[OF le1] by simp
    qed
  qed
  then show ?thesis using b1 by (simp add: run)
qed

theorem memswap_mirrors_witness:
  "no_os_memswap64 (no_os_memswap64 [1, 2, 3, 4, 5, 6, 7] 6 3) 6 3 = [1, 2, 3, 4, 5, 6, 7]"
  using memswap_mirrors[of 3 6 "[1, 2, 3, 4, 5, 6, 7]"] by simp

end
