(* ===== verification/NoOs_Crc8.thy ===== *)
theory NoOs_Crc8
  imports Prelude
begin

text \<open>
  The CRC-8 of no-OS (\<open>Libraries/noOS/src/no_os_crc8.c\<close>): the generation of the lookup
  table for a polynomial and the table-driven checksum the ADIN1110 driver protects its
  SPI frames with.
\<close>

section \<open>The code\<close>

text \<open>One round of the inner loop on \<open>currByte\<close>.\<close>

definition crc_shift :: "u8 \<Rightarrow> u8 \<Rightarrow> u8" where
  "crc_shift polynomial currByte =
     (if currByte AND 0x80 \<noteq> 0 then push_bit 1 currByte XOR polynomial else push_bit 1 currByte)"

definition crc_byte :: "u8 \<Rightarrow> u8 \<Rightarrow> u8" where
  "crc_byte polynomial n = (crc_shift polynomial ^^ 8) n"

fun populate_loop :: "u8 \<Rightarrow> nat \<Rightarrow> nat \<Rightarrow> u8 list \<Rightarrow> u8 list" where
  "populate_loop polynomial n 0 table = table"
| "populate_loop polynomial n (Suc k) table =
     populate_loop polynomial (Suc n) k (table[n := crc_byte polynomial (of_nat n)])"

text \<open>The table argument, or no table for a null pointer.\<close>

definition no_os_crc8_populate_msb :: "u8 list option \<Rightarrow> u8 \<Rightarrow> u8 list option" where
  "no_os_crc8_populate_msb table polynomial =
     (case table of None \<Rightarrow> None | Some t \<Rightarrow> Some (populate_loop polynomial 0 256 t))"

fun no_os_crc8 :: "u8 list \<Rightarrow> u8 list \<Rightarrow> u8 \<Rightarrow> u8" where
  "no_os_crc8 table [] crc = crc"
| "no_os_crc8 table (b # pdata) crc = no_os_crc8 table pdata (table ! unat (crc XOR b) AND 0xFF)"

section \<open>The reference: a shift register fed bit by bit\<close>

text \<open>The bits of a byte, highest first, and the register that takes one message bit at a time.\<close>

definition msb_bits :: "u8 \<Rightarrow> bool list" where
  "msb_bits b = map (\<lambda>j. bit b (7 - j)) [0..<8]"

definition lfsr :: "u8 \<Rightarrow> u8 \<Rightarrow> bool \<Rightarrow> u8" where
  "lfsr polynomial crc message_bit =
     (if bit crc 7 \<noteq> message_bit then push_bit 1 crc XOR polynomial else push_bit 1 crc)"

definition crc_reference :: "u8 \<Rightarrow> u8 list \<Rightarrow> u8 \<Rightarrow> u8" where
  "crc_reference polynomial pdata crc = foldl (lfsr polynomial) crc (concat (map msb_bits pdata))"

section \<open>The table\<close>

lemma length_populate_loop [simp]: "length (populate_loop p n k t) = length t"
  by (induction k arbitrary: n t) auto

lemma nth_populate_loop:
  "n + k \<le> length t \<Longrightarrow> i < length t \<Longrightarrow>
   populate_loop p n k t ! i = (if n \<le> i \<and> i < n + k then crc_byte p (of_nat i) else t ! i)"
proof (induction k arbitrary: n t)
  case (Suc k)
  then have "populate_loop p (Suc n) k (t[n := crc_byte p (of_nat n)]) ! i =
      (if Suc n \<le> i \<and> i < Suc n + k then crc_byte p (of_nat i) else t[n := crc_byte p (of_nat n)] ! i)"
    by simp
  with Suc.prems show ?case by (auto simp: nth_list_update)
qed auto

text \<open>A table as the driver holds it: 256 bytes, filled for a polynomial.\<close>

definition crc_table_for :: "u8 \<Rightarrow> u8 list \<Rightarrow> bool" where
  "crc_table_for p t \<longleftrightarrow> length t = 256 \<and> (\<forall>i<256. t ! i = crc_byte p (of_nat i))"

lemma populate_table:
  "length t = 256 \<Longrightarrow> \<exists>t'. no_os_crc8_populate_msb (Some t) p = Some t' \<and> crc_table_for p t'"
  by (simp add: no_os_crc8_populate_msb_def crc_table_for_def nth_populate_loop)

lemma table_lookup: "crc_table_for p t \<Longrightarrow> t ! unat x AND 0xFF = crc_byte p x"
proof -
  assume "crc_table_for p t"
  then have "t ! unat x = crc_byte p x" by (simp add: crc_table_for_def)
  moreover have "(0xFF :: u8) = -1" by simp
  ultimately show ?thesis by (simp only: and.right_neutral)
qed

lemma crc8_Cons: "crc_table_for p t \<Longrightarrow> no_os_crc8 t (b # bs) c = no_os_crc8 t bs (crc_byte p (c XOR b))"
  by (simp add: table_lookup)

declare no_os_crc8.simps(2) [simp del]

lemma crc8_append: "no_os_crc8 t (xs @ ys) c = no_os_crc8 t ys (no_os_crc8 t xs c)"
  by (induction xs arbitrary: c) (simp_all add: no_os_crc8.simps(2))

section \<open>The register\<close>

lemma high_bit: "(x :: u8) AND 0x80 \<noteq> 0 \<longleftrightarrow> bit x 7"
proof -
  have e: "(0x80 :: u8) = push_bit 7 1" by simp
  have "x AND push_bit 7 1 = 0 \<longleftrightarrow> \<not> bit x 7"
  proof
    assume "x AND push_bit 7 1 = 0"
    then have "\<not> bit (x AND push_bit 7 1) 7" by simp
    then show "\<not> bit x 7" by (simp only: bit_and_iff bit_push_bit_iff) (simp add: bit_1_iff)
  next
    assume "\<not> bit x 7"
    then have "\<not> bit (x AND push_bit 7 1) n" for n
      by (cases "n = 7") (auto simp only: bit_and_iff bit_push_bit_iff bit_1_iff diff_is_0_eq dest: le_antisym)
    then show "x AND push_bit 7 1 = 0" by (intro bit_word_eqI) (simp only: bit_0_eq bot_apply bot_bool_def)
  qed
  then show ?thesis unfolding e by simp
qed

lemma crc_shift_lfsr: "crc_shift p x = lfsr p x False"
  by (simp add: crc_shift_def lfsr_def high_bit)

text \<open>
  Feeding the bits of a byte one by one is the same as adding the byte to the register
  first and shifting: after \<open>k\<close> rounds the two differ by the byte shifted by \<open>k\<close>.
\<close>

lemma crc_rounds:
  "k \<le> 8 \<Longrightarrow> (crc_shift p ^^ k) (c XOR b) = foldl (lfsr p) c (map (\<lambda>j. bit b (7 - j)) [0..<k]) XOR push_bit k b"
proof (induction k)
  case (Suc k)
  let ?S = "foldl (lfsr p) c (map (\<lambda>j. bit b (7 - j)) [0..<k])"
  have top: "bit (?S XOR push_bit k b) 7 \<longleftrightarrow> bit ?S 7 \<noteq> bit b (7 - k)"
    using Suc.prems by (auto simp: bit_xor_iff bit_push_bit_iff)
  have sh: "push_bit 1 (?S XOR push_bit k b) = push_bit 1 ?S XOR push_bit (Suc k) b"
    by (simp add: push_bit_xor push_bit_push_bit del: push_bit_Suc)
  have "(crc_shift p ^^ Suc k) (c XOR b) = crc_shift p (?S XOR push_bit k b)"
    using Suc by simp
  also have "\<dots> = lfsr p ?S (bit b (7 - k)) XOR push_bit (Suc k) b"
    unfolding crc_shift_lfsr lfsr_def top sh by (simp add: xor.assoc xor.commute xor.left_commute del: push_bit_Suc)
  finally show ?case by (simp del: push_bit_Suc)
qed simp

lemma crc_byte_bits: "crc_byte p (c XOR b) = foldl (lfsr p) c (msb_bits b)"
proof -
  have "push_bit 8 b = 0" by (rule bit_word_eqI) (simp add: bit_push_bit_iff)
  then show ?thesis
    using crc_rounds[of 8 p c b] by (simp add: crc_byte_def msb_bits_def del: push_bit_Suc)
qed

lemma crc8_reference: "crc_table_for p t \<Longrightarrow> no_os_crc8 t bs c = crc_reference p bs c"
  by (induction bs arbitrary: c) (simp_all add: crc8_Cons crc_byte_bits crc_reference_def)

lemma crc_byte_0 [simp]: "crc_byte p 0 = 0"
proof -
  have "(crc_shift p ^^ k) 0 = 0" for k
    by (induction k) (simp_all add: crc_shift_def)
  then show ?thesis by (simp add: crc_byte_def)
qed

text \<open>For a polynomial with a constant term a round loses no information.\<close>

lemma crc_shift_inj:
  assumes "bit p 0" and "crc_shift p x = crc_shift p y"
  shows "x = y"
proof -
  have b0: "bit (crc_shift p z) 0 = bit z 7" for z
    using assms(1) by (auto simp only: crc_shift_lfsr lfsr_def bit_xor_iff bit_push_bit_iff split: if_split)
  have top: "bit x 7 = bit y 7" using assms(2) b0[of x] b0[of y] by simp
  have e: "crc_shift p z = (if bit z 7 then push_bit 1 z XOR p else push_bit 1 z)" for z
    by (simp only: crc_shift_lfsr lfsr_def not_False_eq_True refl split: if_split) blast
  have "push_bit 1 x = push_bit 1 y"
  proof (cases "bit x 7")
    case True
    then have "(push_bit 1 x XOR p) XOR p = (push_bit 1 y XOR p) XOR p"
      using assms(2)[unfolded e] top by (simp only: if_True)
    then show ?thesis by (simp only: xor.assoc xor_self_eq xor.right_neutral)
  next
    case False
    then show ?thesis using assms(2)[unfolded e] top by (simp only: if_False)
  qed
  then have low: "bit x n = bit y n" if "n < 7" for n
  proof -
    have "bit (push_bit 1 x) (Suc n) = bit (push_bit 1 y) (Suc n)"
      using \<open>push_bit 1 x = push_bit 1 y\<close> by (rule arg_cong)
    then show ?thesis using that by (simp only: bit_push_bit_iff) simp
  qed
  show ?thesis
  proof (rule bit_word_eqI)
    fix n assume "n < LENGTH(8)"
    then show "bit x n = bit y n" using low[of n] top by (cases "n = 7") auto
  qed
qed

lemma crc_byte_inj: "bit p 0 \<Longrightarrow> crc_byte p x = crc_byte p y \<Longrightarrow> x = y"
proof -
  assume p: "bit p 0"
  have "(crc_shift p ^^ k) x = (crc_shift p ^^ k) y \<Longrightarrow> x = y" for k
    by (induction k) (auto dest: crc_shift_inj[OF p])
  then show "crc_byte p x = crc_byte p y \<Longrightarrow> x = y" by (simp add: crc_byte_def)
qed

lemma crc8_inj:
  assumes "crc_table_for p t" and "bit p 0" and "no_os_crc8 t bs c = no_os_crc8 t bs d"
  shows "c = d"
  using assms(3)
proof (induction bs arbitrary: c d)
  case (Cons b bs)
  then have "crc_byte p (c XOR b) = crc_byte p (d XOR b)" by (simp add: crc8_Cons[OF assms(1)])
  then have "c XOR b = d XOR b" by (rule crc_byte_inj[OF assms(2)])
  then have "(c XOR b) XOR b = (d XOR b) XOR b" by simp
  then show ?case by (simp only: xor.assoc xor_self_eq xor.right_neutral)
qed simp

lemma crc8_change:
  assumes "crc_table_for p t" and "bit p 0" and "b \<noteq> b'"
  shows "no_os_crc8 t (xs @ b # ys) c \<noteq> no_os_crc8 t (xs @ b' # ys) c"
proof
  assume "no_os_crc8 t (xs @ b # ys) c = no_os_crc8 t (xs @ b' # ys) c"
  then have "crc_byte p (no_os_crc8 t xs c XOR b) = crc_byte p (no_os_crc8 t xs c XOR b')"
    by (simp add: crc8_append crc8_Cons[OF assms(1)]) (rule crc8_inj[OF assms(1,2)])
  then have "no_os_crc8 t xs c XOR b = no_os_crc8 t xs c XOR b'" by (rule crc_byte_inj[OF assms(2)])
  then have "b = b'" by (metis xor.assoc xor.left_neutral xor_self_eq)
  with assms(3) show False ..
qed

section \<open>Properties\<close>

text \<open>C11: For every polynomial and every table of 256 bytes, the generated table makes the
  table-driven checksum equal to the shift register fed with the message bit by bit, and
  appending the checksum to a message gives the checksum 0.\<close>

theorem crc8_table_driven:
  assumes "length t = 256"
  shows "\<exists>t'. no_os_crc8_populate_msb (Some t) p = Some t' \<and>
    (\<forall>bs c. no_os_crc8 t' bs c = crc_reference p bs c) \<and>
    (\<forall>bs c. no_os_crc8 t' (bs @ [no_os_crc8 t' bs c]) c = 0)"
proof -
  obtain t' where t': "no_os_crc8_populate_msb (Some t) p = Some t'" "crc_table_for p t'"
    using populate_table[OF assms, of p] by blast
  then have "no_os_crc8 t' (bs @ [no_os_crc8 t' bs c]) c = 0" for bs c
    by (simp add: crc8_append crc8_Cons)
  with t' show ?thesis by (auto simp: crc8_reference)
qed

theorem crc8_table_driven_witness:
  "\<exists>t'. no_os_crc8_populate_msb (Some (replicate 256 0)) 0x07 = Some t' \<and>
    no_os_crc8 t' [0x31, 0x32] 0 = crc_reference 0x07 [0x31, 0x32] 0"
  using crc8_table_driven[of "replicate 256 0" "0x07"] by auto

text \<open>With a polynomial that has a constant term, as the one of the ADIN1110 has, the
  checksum of a message changes whenever one of its bytes changes.\<close>

theorem crc8_detects_changed_byte:
  assumes "crc_table_for p t" and "bit p 0" and "b \<noteq> b'"
  shows "no_os_crc8 t (xs @ b # ys) c \<noteq> no_os_crc8 t (xs @ b' # ys) c"
  using assms by (rule crc8_change)

theorem crc8_detects_changed_byte_witness:
  "no_os_crc8 (map (\<lambda>i. crc_byte 0x07 (of_nat i)) [0..<256]) ([1, 2] @ 3 # [4]) 0 \<noteq>
   no_os_crc8 (map (\<lambda>i. crc_byte 0x07 (of_nat i)) [0..<256]) ([1, 2] @ 7 # [4]) 0"
  using crc8_detects_changed_byte[of "0x07" "map (\<lambda>i. crc_byte 0x07 (of_nat i)) [0..<256]" 3 7 "[1, 2]" "[4]" 0]
  by (simp add: crc_table_for_def)

end
