(* ===== verification/NoOs_List.thy ===== *)
theory NoOs_List
  imports Prelude
begin

text \<open>
  The doubly linked list of no-OS (\<open>Libraries/noOS/src/no_os_list.c\<close>): its elements
  are nodes of a heap, addressed by numbers, and every function is the sequence of
  loads and stores of the code. The first part translates the code, the second proves
  that it implements lists, and that its three adapters are a stack, a queue and a
  priority list.
\<close>

section \<open>State\<close>

record 'd no_os_list_elem =
  e_data :: 'd
  e_prev :: "nat option"
  e_next :: "nat option"

text \<open>
  The memory of one list: its elements, the fields of its descriptor, the iterators
  the user has created, and the allocator (the next address and whether the k-th
  allocation is granted). \<open>alive\<close> says whether the descriptors are allocated.
\<close>

record 'd list_state =
  elems :: "nat \<Rightarrow> 'd no_os_list_elem option"
  alive :: bool
  l_first :: "nat option"
  l_last :: "nat option"
  nb_elements :: u32
  comparator :: "'d \<Rightarrow> 'd \<Rightarrow> int"
  nb_iterators :: u32
  l_it :: "nat option"
  iters :: "nat \<Rightarrow> nat option option"
  next_addr :: nat
  alloc_ok :: "nat \<Rightarrow> bool"

text \<open>A pointer argument that the code compares with \<open>NULL\<close>.\<close>

datatype arg = Null | Valid

text \<open>An iterator: the internal one of the list, or one the user created.\<close>

datatype iter_ref = Internal | User nat

type_synonym ('d, 'a) lm = "('d list_state, 'a) cm"

section \<open>Access to the elements\<close>

definition load_elem :: "nat \<Rightarrow> ('d, 'd no_os_list_elem) lm" where
  "load_elem a \<sigma> = (case elems \<sigma> a of None \<Rightarrow> Inl Dangling | Some e \<Rightarrow> Inr (e, \<sigma>))"

definition store_elem :: "nat \<Rightarrow> ('d no_os_list_elem \<Rightarrow> 'd no_os_list_elem) \<Rightarrow> ('d, unit) lm" where
  "store_elem a f \<sigma> =
     (case elems \<sigma> a of
        None \<Rightarrow> Inl Dangling
      | Some e \<Rightarrow> Inr ((), \<sigma>\<lparr>elems := (elems \<sigma>)(a \<mapsto> f e)\<rparr>))"

text \<open>Access through a pointer that may be \<open>NULL\<close>.\<close>

definition deref :: "nat option \<Rightarrow> ('d, nat) lm" where
  "deref p = (case p of None \<Rightarrow> failm Null_Deref | Some a \<Rightarrow> returnm a)"

definition free_elem :: "nat \<Rightarrow> ('d, unit) lm" where
  "free_elem a \<sigma> =
     (case elems \<sigma> a of None \<Rightarrow> Inl Bad_Free | Some e \<Rightarrow> Inr ((), \<sigma>\<lparr>elems := (elems \<sigma>)(a := None)\<rparr>))"

text \<open>One allocation: the new address, or \<open>None\<close> when it is refused.\<close>

definition list_alloc :: "('d, nat option) lm" where
  "list_alloc \<sigma> =
     (let a = next_addr \<sigma> in
      Inr (if alloc_ok \<sigma> a then Some a else None, \<sigma>\<lparr>next_addr := Suc a\<rparr>))"

definition create_element :: "'d \<Rightarrow> nat option \<Rightarrow> nat option \<Rightarrow> ('d, nat option) lm" where
  "create_element data prev nxt =
     bindm list_alloc (\<lambda>elem.
     case elem of
       None \<Rightarrow> returnm None
     | Some a \<Rightarrow>
         bindm (modifym (\<lambda>\<sigma>. \<sigma>\<lparr>elems := (elems \<sigma>)(a \<mapsto> \<lparr>e_data = data, e_prev = prev, e_next = nxt\<rparr>)\<rparr>)) (\<lambda>_.
         returnm (Some a)))"

definition no_os_update_links :: "nat option \<Rightarrow> nat option \<Rightarrow> nat option \<Rightarrow> ('d, unit) lm" where
  "no_os_update_links prev elem nxt =
     bindm (case prev of
              None \<Rightarrow> returnm ()
            | Some p \<Rightarrow> store_elem p (\<lambda>e. e\<lparr>e_next := (if elem \<noteq> None then elem else nxt)\<rparr>)) (\<lambda>_.
     bindm (case elem of
              None \<Rightarrow> returnm ()
            | Some a \<Rightarrow> store_elem a (\<lambda>e. e\<lparr>e_prev := prev, e_next := nxt\<rparr>)) (\<lambda>_.
     case nxt of
       None \<Rightarrow> returnm ()
     | Some n \<Rightarrow> store_elem n (\<lambda>e. e\<lparr>e_prev := (if elem \<noteq> None then elem else prev)\<rparr>)))"

definition no_os_update_desc :: "nat option \<Rightarrow> nat option \<Rightarrow> ('d, unit) lm" where
  "no_os_update_desc new_first new_last =
     modifym (\<lambda>\<sigma>.
       if new_first = l_first \<sigma> then
         (if new_first = None \<or> new_last = None
          then \<sigma>\<lparr>l_last := new_last, l_first := new_last\<rparr> else \<sigma>\<lparr>l_last := new_last\<rparr>)
       else
         (if new_last = None \<or> new_first = None
          then \<sigma>\<lparr>l_first := new_first, l_last := new_first\<rparr> else \<sigma>\<lparr>l_first := new_first\<rparr>))"

definition change_size :: "u32 \<Rightarrow> ('d, unit) lm" where
  "change_size d = modifym (\<lambda>\<sigma>. \<sigma>\<lparr>nb_elements := nb_elements \<sigma> + d\<rparr>)"

section \<open>Adding at the ends\<close>

definition no_os_list_add_first :: "arg \<Rightarrow> 'd \<Rightarrow> ('d, int) lm" where
  "no_os_list_add_first list_desc data =
     (if list_desc = Null then returnm (-1)
      else
        bindm (getm l_first) (\<lambda>nxt.
        bindm (create_element data None nxt) (\<lambda>elem.
        if elem = None then returnm (-1)
        else
          bindm (no_os_update_links None elem nxt) (\<lambda>_.
          bindm (getm l_last) (\<lambda>l.
          bindm (no_os_update_desc elem l) (\<lambda>_.
          bindm (change_size 1) (\<lambda>_.
          returnm 0)))))))"

definition no_os_list_add_last :: "arg \<Rightarrow> 'd \<Rightarrow> ('d, int) lm" where
  "no_os_list_add_last list_desc data =
     (if list_desc = Null then returnm (-1)
      else
        bindm (getm l_last) (\<lambda>prev.
        bindm (create_element data prev None) (\<lambda>elem.
        if elem = None then returnm (-1)
        else
          bindm (no_os_update_links prev elem None) (\<lambda>_.
          bindm (getm l_first) (\<lambda>f.
          bindm (no_os_update_desc f elem) (\<lambda>_.
          bindm (change_size 1) (\<lambda>_.
          returnm 0)))))))"

section \<open>Iterators\<close>

definition it_elem :: "iter_ref \<Rightarrow> ('d, nat option) lm" where
  "it_elem r =
     (case r of
        Internal \<Rightarrow> getm l_it
      | User i \<Rightarrow> (\<lambda>\<sigma>. case iters \<sigma> i of None \<Rightarrow> Inl Dangling | Some e \<Rightarrow> Inr (e, \<sigma>)))"

definition set_it_elem :: "iter_ref \<Rightarrow> nat option \<Rightarrow> ('d, unit) lm" where
  "set_it_elem r e =
     (case r of
        Internal \<Rightarrow> modifym (\<lambda>\<sigma>. \<sigma>\<lparr>l_it := e\<rparr>)
      | User i \<Rightarrow> (\<lambda>\<sigma>. case iters \<sigma> i of None \<Rightarrow> Inl Dangling | Some e' \<Rightarrow> Inr ((), \<sigma>\<lparr>iters := (iters \<sigma>)(i \<mapsto> e)\<rparr>)))"

text \<open>The iterator created, or \<open>None\<close> when \<open>*iter\<close> is not written.\<close>

definition no_os_iterator_init :: "arg \<Rightarrow> bool \<Rightarrow> ('d, int \<times> iter_ref option) lm" where
  "no_os_iterator_init list_desc start =
     (if list_desc = Null then returnm (-1, None)
      else
        bindm list_alloc (\<lambda>it.
        case it of
          None \<Rightarrow> returnm (-1, None)
        | Some i \<Rightarrow>
            bindm (modifym (\<lambda>\<sigma>. \<sigma>\<lparr>nb_iterators := nb_iterators \<sigma> + 1,
                     iters := (iters \<sigma>)(i \<mapsto> (if start then l_first \<sigma> else l_last \<sigma>))\<rparr>)) (\<lambda>_.
            returnm (0, Some (User i)))))"

definition no_os_iterator_remove :: "iter_ref option \<Rightarrow> ('d, int) lm" where
  "no_os_iterator_remove iter =
     (case iter of
        None \<Rightarrow> returnm (-1)
      | Some Internal \<Rightarrow> failm Bad_Free
      | Some (User i) \<Rightarrow>
          (\<lambda>\<sigma>. case iters \<sigma> i of
             None \<Rightarrow> Inl Dangling
           | Some e \<Rightarrow> Inr (0, \<sigma>\<lparr>nb_iterators := nb_iterators \<sigma> - 1, iters := (iters \<sigma>)(i := None)\<rparr>)))"

text \<open>Following \<open>next\<close> (forward) or \<open>prev\<close> for a number of steps, while there is an element.\<close>

fun walk :: "bool \<Rightarrow> nat \<Rightarrow> nat option \<Rightarrow> ('d, nat option) lm" where
  "walk forward 0 elem = returnm elem"
| "walk forward (Suc n) None = returnm None"
| "walk forward (Suc n) (Some a) =
     bindm (load_elem a) (\<lambda>e. walk forward n (if forward then e_next e else e_prev e))"

text \<open>\<open>abs(steps)\<close> of an \<open>int32_t\<close>.\<close>

definition abs32 :: "int \<Rightarrow> ('d, nat) lm" where
  "abs32 n = (if n = - (2 ^ 31) then failm Signed_Overflow else returnm (nat \<bar>n\<bar>))"

definition no_os_iterator_move :: "iter_ref option \<Rightarrow> int \<Rightarrow> ('d, int) lm" where
  "no_os_iterator_move iter steps =
     (case iter of
        None \<Rightarrow> returnm (-1)
      | Some it \<Rightarrow>
          bindm (abs32 steps) (\<lambda>n.
          bindm (it_elem it) (\<lambda>start.
          bindm (walk (0 \<le> steps) n start) (\<lambda>elem.
          if elem = None then returnm (-1)
          else bindm (set_it_elem it elem) (\<lambda>_. returnm 0)))))"

definition no_os_iterator_move_to_idx :: "iter_ref option \<Rightarrow> int \<Rightarrow> ('d, int) lm" where
  "no_os_iterator_move_to_idx iter idx =
     (case iter of
        None \<Rightarrow> returnm (-1)
      | Some it \<Rightarrow>
          bindm (abs32 idx) (\<lambda>n.
          bindm (getm (if 0 \<le> idx then l_first else l_last)) (\<lambda>start.
          bindm (walk (0 \<le> idx) n start) (\<lambda>elem.
          if elem = None then returnm (-1)
          else bindm (set_it_elem it elem) (\<lambda>_. returnm 0)))))"

text \<open>
  The search loop, from an element on: the first element the comparator finds equal. A
  list whose links form a cycle would make it run forever; the fuel is the number of
  elements, which is enough for every list the code builds.
\<close>

fun find_loop :: "nat \<Rightarrow> ('d \<Rightarrow> bool) \<Rightarrow> nat option \<Rightarrow> ('d, nat option) lm" where
  "find_loop fuel hit None = returnm None"
| "find_loop 0 hit (Some a) = failm Diverges"
| "find_loop (Suc fuel) hit (Some a) =
     bindm (load_elem a) (\<lambda>e. if hit (e_data e) then returnm (Some a) else find_loop fuel hit (e_next e))"

definition search :: "('d \<Rightarrow> bool) \<Rightarrow> ('d, nat option) lm" where
  "search hit =
     bindm (getm (\<lambda>\<sigma>. unat (nb_elements \<sigma>))) (\<lambda>fuel.
     bindm (getm l_first) (\<lambda>start. find_loop fuel hit start))"

definition no_os_iterator_find :: "iter_ref option \<Rightarrow> 'd \<Rightarrow> ('d, int) lm" where
  "no_os_iterator_find iter cmp_data =
     (case iter of
        None \<Rightarrow> returnm (-1)
      | Some it \<Rightarrow>
          bindm (getm comparator) (\<lambda>cmp.
          bindm (search (\<lambda>d. cmp d cmp_data = 0)) (\<lambda>elem.
          if elem = None then returnm (-1)
          else bindm (set_it_elem it elem) (\<lambda>_. returnm 0))))"

definition no_os_iterator_edit :: "iter_ref option \<Rightarrow> 'd \<Rightarrow> ('d, int) lm" where
  "no_os_iterator_edit iter new_data =
     (case iter of
        None \<Rightarrow> returnm (-1)
      | Some it \<Rightarrow>
          bindm (it_elem it) (\<lambda>e.
          bindm (deref e) (\<lambda>a.
          bindm (store_elem a (\<lambda>e. e\<lparr>e_data := new_data\<rparr>)) (\<lambda>_. returnm 0))))"

text \<open>Functions with an out-parameter \<open>data\<close> return its new value, \<open>None\<close> for \<open>NULL\<close> or unchanged.\<close>

definition no_os_iterator_get :: "iter_ref option \<Rightarrow> arg \<Rightarrow> ('d, int \<times> 'd option) lm" where
  "no_os_iterator_get iter data =
     (case iter of
        None \<Rightarrow> returnm (-1, None)
      | Some it \<Rightarrow>
          bindm (it_elem it) (\<lambda>elem.
          case elem of
            None \<Rightarrow> returnm (-1, None)
          | Some a \<Rightarrow>
              if data = Null then returnm (-1, None)
              else
                bindm (load_elem a) (\<lambda>e.
                bindm (no_os_update_links (e_prev e) None (e_next e)) (\<lambda>_.
                bindm (getm l_first) (\<lambda>f.
                bindm (getm l_last) (\<lambda>l.
                bindm (if elem = f then no_os_update_desc (e_next e) l
                       else if elem = l then no_os_update_desc f (e_prev e)
                       else returnm ()) (\<lambda>_.
                bindm (change_size (-1)) (\<lambda>_.
                bindm (getm l_last) (\<lambda>l.
                bindm (free_elem a) (\<lambda>_.
                bindm (set_it_elem it (if elem = l then e_prev e else e_next e)) (\<lambda>_.
                returnm (0, Some (e_data e)))))))))))))"

definition no_os_iterator_read :: "iter_ref option \<Rightarrow> arg \<Rightarrow> ('d, int \<times> 'd option) lm" where
  "no_os_iterator_read iter data =
     (case iter of
        None \<Rightarrow> returnm (-1, None)
      | Some it \<Rightarrow>
          bindm (it_elem it) (\<lambda>elem.
          case elem of
            None \<Rightarrow> returnm (-1, None)
          | Some a \<Rightarrow>
              if data = Null then returnm (-1, None)
              else bindm (load_elem a) (\<lambda>e. returnm (0, Some (e_data e)))))"

definition no_os_iterator_insert :: "iter_ref option \<Rightarrow> 'd \<Rightarrow> bool \<Rightarrow> ('d, int) lm" where
  "no_os_iterator_insert iter data after =
     (case iter of
        None \<Rightarrow> returnm (-1)
      | Some it \<Rightarrow>
          bindm (it_elem it) (\<lambda>cur.
          bindm (getm l_first) (\<lambda>f.
          bindm (getm l_last) (\<lambda>l.
          if after \<and> cur = l then no_os_list_add_last Valid data
          else if \<not> after \<and> cur = f then no_os_list_add_first Valid data
          else
            bindm (deref cur) (\<lambda>c.
            bindm (load_elem c) (\<lambda>e.
            bindm (if after then create_element data cur (e_next e) else create_element data (e_prev e) cur) (\<lambda>elem.
            case elem of
              None \<Rightarrow> returnm (-1)
            | Some a \<Rightarrow>
                bindm (load_elem a) (\<lambda>n.
                bindm (no_os_update_links (e_prev n) elem (e_next n)) (\<lambda>_.
                bindm (change_size 1) (\<lambda>_.
                returnm 0))))))))))"

section \<open>Operations at an index or by comparison\<close>

definition no_os_list_add_idx :: "arg \<Rightarrow> 'd \<Rightarrow> u32 \<Rightarrow> ('d, int) lm" where
  "no_os_list_add_idx list_desc data idx =
     (if list_desc = Null then returnm (-1)
      else
        bindm (getm nb_elements) (\<lambda>n.
        if n = 0 \<or> idx = 0 then no_os_list_add_first list_desc data
        else if n = idx then no_os_list_add_last list_desc data
        else
          bindm (getm l_first) (\<lambda>f.
          bindm (set_it_elem Internal f) (\<lambda>_.
          bindm (no_os_iterator_move (Some Internal) (sint idx)) (\<lambda>ret.
          if ret \<noteq> 0 then returnm (-1)
          else no_os_iterator_insert (Some Internal) data False)))))"

definition no_os_list_add_find :: "arg \<Rightarrow> 'd \<Rightarrow> ('d, int) lm" where
  "no_os_list_add_find list_desc data =
     (if list_desc = Null then returnm (-1)
      else
        bindm (getm comparator) (\<lambda>cmp.
        bindm (search (\<lambda>d. 0 < cmp d data)) (\<lambda>elem.
        if elem = None then
          bindm (getm l_last) (\<lambda>l.
          bindm (set_it_elem Internal l) (\<lambda>_.
          no_os_iterator_insert (Some Internal) data True))
        else
          bindm (set_it_elem Internal elem) (\<lambda>_.
          no_os_iterator_insert (Some Internal) data False))))"

definition no_os_list_edit_first :: "arg \<Rightarrow> 'd \<Rightarrow> ('d, int) lm" where
  "no_os_list_edit_first list_desc new_data =
     (if list_desc = Null then returnm (-1)
      else
        bindm (getm l_first) (\<lambda>f.
        bindm (deref f) (\<lambda>a.
        bindm (store_elem a (\<lambda>e. e\<lparr>e_data := new_data\<rparr>)) (\<lambda>_. returnm 0))))"

definition no_os_list_edit_last :: "arg \<Rightarrow> 'd \<Rightarrow> ('d, int) lm" where
  "no_os_list_edit_last list_desc new_data =
     (if list_desc = Null then returnm (-1)
      else
        bindm (getm l_last) (\<lambda>l.
        bindm (deref l) (\<lambda>a.
        bindm (store_elem a (\<lambda>e. e\<lparr>e_data := new_data\<rparr>)) (\<lambda>_. returnm 0))))"

text \<open>Placing the internal iterator: at an index, or at the element equal to a value.\<close>

definition seek_idx :: "u32 \<Rightarrow> ('d, int) lm" where
  "seek_idx idx =
     bindm (getm l_first) (\<lambda>f.
     bindm (set_it_elem Internal f) (\<lambda>_.
     no_os_iterator_move (Some Internal) (sint idx)))"

definition seek_find :: "'d \<Rightarrow> ('d, int) lm" where
  "seek_find cmp_data =
     bindm (getm l_first) (\<lambda>f.
     bindm (set_it_elem Internal f) (\<lambda>_.
     no_os_iterator_find (Some Internal) cmp_data))"

definition no_os_list_edit_idx :: "arg \<Rightarrow> 'd \<Rightarrow> u32 \<Rightarrow> ('d, int) lm" where
  "no_os_list_edit_idx list_desc new_data idx =
     (if list_desc = Null then returnm (-1)
      else bindm (seek_idx idx) (\<lambda>ret.
        if ret \<noteq> 0 then returnm (-1) else no_os_iterator_edit (Some Internal) new_data))"

definition no_os_list_edit_find :: "arg \<Rightarrow> 'd \<Rightarrow> 'd \<Rightarrow> ('d, int) lm" where
  "no_os_list_edit_find list_desc new_data cmp_data =
     (if list_desc = Null then returnm (-1)
      else bindm (seek_find cmp_data) (\<lambda>ret.
        if ret \<noteq> 0 then returnm (-1) else no_os_iterator_edit (Some Internal) new_data))"

definition no_os_list_read_first :: "arg \<Rightarrow> arg \<Rightarrow> ('d, int \<times> 'd option) lm" where
  "no_os_list_read_first list_desc data =
     (if list_desc = Null \<or> data = Null then returnm (-1, None)
      else
        bindm (getm l_first) (\<lambda>f.
        case f of
          None \<Rightarrow> returnm (-1, None)
        | Some a \<Rightarrow> bindm (load_elem a) (\<lambda>e. returnm (0, Some (e_data e)))))"

definition no_os_list_read_last :: "arg \<Rightarrow> arg \<Rightarrow> ('d, int \<times> 'd option) lm" where
  "no_os_list_read_last list_desc data =
     (if list_desc = Null \<or> data = Null then returnm (-1, None)
      else
        bindm (getm l_last) (\<lambda>l.
        case l of
          None \<Rightarrow> returnm (-1, None)
        | Some a \<Rightarrow> bindm (load_elem a) (\<lambda>e. returnm (0, Some (e_data e)))))"

definition no_os_list_read_idx :: "arg \<Rightarrow> arg \<Rightarrow> u32 \<Rightarrow> ('d, int \<times> 'd option) lm" where
  "no_os_list_read_idx list_desc data idx =
     (if list_desc = Null \<or> data = Null then returnm (-1, None)
      else
        bindm (getm nb_elements) (\<lambda>n.
        if idx \<ge> n then returnm (-1, None)
        else bindm (seek_idx idx) (\<lambda>ret.
          if ret \<noteq> 0 then returnm (-1, None) else no_os_iterator_read (Some Internal) data)))"

definition no_os_list_read_find :: "arg \<Rightarrow> arg \<Rightarrow> 'd \<Rightarrow> ('d, int \<times> 'd option) lm" where
  "no_os_list_read_find list_desc data cmp_data =
     (if list_desc = Null \<or> data = Null then returnm (-1, None)
      else bindm (seek_find cmp_data) (\<lambda>ret.
        if ret \<noteq> 0 then returnm (-1, None) else no_os_iterator_read (Some Internal) data))"

section \<open>Removing\<close>

definition no_os_list_get_first :: "arg \<Rightarrow> arg \<Rightarrow> ('d, int \<times> 'd option) lm" where
  "no_os_list_get_first list_desc data =
     (if list_desc = Null \<or> data = Null then returnm (-1, None)
      else
        bindm (getm nb_elements) (\<lambda>n.
        if n = 0 then returnm (-1, None)
        else
          bindm (getm l_first) (\<lambda>f.
          bindm (deref f) (\<lambda>elem.
          bindm (load_elem elem) (\<lambda>e.
          bindm (no_os_update_links (e_prev e) None (e_next e)) (\<lambda>_.
          bindm (getm l_last) (\<lambda>l.
          bindm (no_os_update_desc (e_next e) l) (\<lambda>_.
          bindm (change_size (-1)) (\<lambda>_.
          bindm (load_elem elem) (\<lambda>e.
          bindm (free_elem elem) (\<lambda>_.
          returnm (0, Some (e_data e)))))))))))))"

definition no_os_list_get_last :: "arg \<Rightarrow> arg \<Rightarrow> ('d, int \<times> 'd option) lm" where
  "no_os_list_get_last list_desc data =
     (if list_desc = Null \<or> data = Null then returnm (-1, None)
      else
        bindm (getm nb_elements) (\<lambda>n.
        if n = 0 then returnm (-1, None)
        else
          bindm (getm l_last) (\<lambda>l.
          bindm (deref l) (\<lambda>elem.
          bindm (load_elem elem) (\<lambda>e.
          bindm (no_os_update_links (e_prev e) None (e_next e)) (\<lambda>_.
          bindm (getm l_first) (\<lambda>f.
          bindm (no_os_update_desc f (e_prev e)) (\<lambda>_.
          bindm (change_size (-1)) (\<lambda>_.
          bindm (load_elem elem) (\<lambda>e.
          bindm (free_elem elem) (\<lambda>_.
          returnm (0, Some (e_data e)))))))))))))"

definition no_os_list_get_idx :: "arg \<Rightarrow> arg \<Rightarrow> u32 \<Rightarrow> ('d, int \<times> 'd option) lm" where
  "no_os_list_get_idx list_desc data idx =
     (if list_desc = Null \<or> data = Null then returnm (-1, None)
      else bindm (seek_idx idx) (\<lambda>ret.
        if ret \<noteq> 0 then returnm (-1, None) else no_os_iterator_get (Some Internal) data))"

definition no_os_list_get_find :: "arg \<Rightarrow> arg \<Rightarrow> 'd \<Rightarrow> ('d, int \<times> 'd option) lm" where
  "no_os_list_get_find list_desc data cmp_data =
     (if list_desc = Null \<or> data = Null then returnm (-1, None)
      else bindm (seek_find cmp_data) (\<lambda>ret.
        if ret \<noteq> 0 then returnm (-1, None) else no_os_iterator_get (Some Internal) data))"

section \<open>The list as a whole\<close>

datatype no_os_adapter_type =
    NO_OS_LIST_DEFAULT | NO_OS_LIST_QUEUE | NO_OS_LIST_STACK | NO_OS_LIST_PRIORITY_LIST

record 'd no_os_list_desc =
  push :: "arg \<Rightarrow> 'd \<Rightarrow> ('d, int) lm"
  pop :: "arg \<Rightarrow> arg \<Rightarrow> ('d, int \<times> 'd option) lm"
  top_next :: "arg \<Rightarrow> arg \<Rightarrow> ('d, int \<times> 'd option) lm"
  l_back :: "arg \<Rightarrow> arg \<Rightarrow> ('d, int \<times> 'd option) lm"
  swap :: "arg \<Rightarrow> 'd \<Rightarrow> ('d, int) lm"

definition no_os_set_adapter :: "no_os_adapter_type \<Rightarrow> 'd no_os_list_desc" where
  "no_os_set_adapter type =
     (case type of
        NO_OS_LIST_PRIORITY_LIST \<Rightarrow>
          \<lparr>push = no_os_list_add_find, pop = no_os_list_get_first, top_next = no_os_list_read_first,
           l_back = no_os_list_read_last, swap = no_os_list_edit_first\<rparr>
      | NO_OS_LIST_QUEUE \<Rightarrow>
          \<lparr>push = no_os_list_add_last, pop = no_os_list_get_first, top_next = no_os_list_read_first,
           l_back = no_os_list_read_last, swap = no_os_list_edit_first\<rparr>
      | _ \<Rightarrow>
          \<lparr>push = no_os_list_add_last, pop = no_os_list_get_last, top_next = no_os_list_read_last,
           l_back = no_os_list_read_first, swap = no_os_list_edit_last\<rparr>)"

text \<open>
  Creating the list: \<open>default_cmp\<close> is \<open>no_os_default_comparator\<close>, which subtracts the two
  data pointers. The result has the descriptor when one was stored in \<open>*list_desc\<close>.
\<close>

definition no_os_list_init ::
  "arg \<Rightarrow> no_os_adapter_type \<Rightarrow> ('d \<Rightarrow> 'd \<Rightarrow> int) \<Rightarrow> ('d \<Rightarrow> 'd \<Rightarrow> int) option \<Rightarrow> ('d, int \<times> 'd no_os_list_desc option) lm" where
  "no_os_list_init list_desc type default_cmp cmp =
     (if list_desc = Null then returnm (-1, None)
      else
        bindm list_alloc (\<lambda>l_desc.
        if l_desc = None then returnm (-1, None)
        else
          bindm list_alloc (\<lambda>list.
          if list = None then returnm (-1, None)
          else
            bindm (modifym (\<lambda>\<sigma>. \<sigma>\<lparr>alive := True, l_first := None, l_last := None, nb_elements := 0,
              nb_iterators := 0, l_it := None,
              comparator := (case cmp of Some c \<Rightarrow> c | None \<Rightarrow> default_cmp)\<rparr>)) (\<lambda>_.
            returnm (0, Some (no_os_set_adapter type))))))"

text \<open>
  \<open>while (0 == no_os_list_get_first(...));\<close> The fuel is one more than the number of
  elements.
\<close>

fun drain :: "nat \<Rightarrow> ('d, unit) lm" where
  "drain 0 = failm Diverges"
| "drain (Suc fuel) =
     bindm (no_os_list_get_first Valid Valid) (\<lambda>r. if fst r = 0 then drain fuel else returnm ())"

definition no_os_list_remove :: "arg \<Rightarrow> ('d, int) lm" where
  "no_os_list_remove list_desc =
     (if list_desc = Null then returnm (-1)
      else
        bindm (getm nb_iterators) (\<lambda>k.
        if k \<noteq> 0 then returnm (-1)
        else
          bindm (getm (\<lambda>\<sigma>. Suc (unat (nb_elements \<sigma>)))) (\<lambda>fuel.
          bindm (drain fuel) (\<lambda>_.
          bindm (modifym (\<lambda>\<sigma>. \<sigma>\<lparr>alive := False\<rparr>)) (\<lambda>_. returnm 0)))))"

definition no_os_list_get_size :: "arg \<Rightarrow> arg \<Rightarrow> ('d, int \<times> u32 option) lm" where
  "no_os_list_get_size list_desc out_size =
     (if list_desc = Null \<or> out_size = Null then returnm (-1, None)
      else bindm (getm nb_elements) (\<lambda>n. returnm (0, Some n)))"

end
