(* ===== verification/NoOs_List_Refine.thy ===== *)
theory NoOs_List_Refine
  imports NoOs_List "HOL-Library.Multiset"
begin

text \<open>
  The doubly linked list of \<open>NoOs_List\<close> implements lists: the representation
  predicate \<open>list_inv\<close> relates a state to the addresses and data of its elements, every
  operation keeps it and has the effect of its counterpart on lists, and the adapters
  are instances of one interface.
\<close>

section \<open>Linked segments of the heap\<close>

type_synonym 'd heap = "nat \<Rightarrow> 'd no_os_list_elem option"

definition heado :: "(nat \<times> 'd) list \<Rightarrow> nat option \<Rightarrow> nat option" where
  "heado ns n = (case ns of [] \<Rightarrow> n | x # xs \<Rightarrow> Some (fst x))"

definition lasto :: "nat option \<Rightarrow> (nat \<times> 'd) list \<Rightarrow> nat option" where
  "lasto p ns = (if ns = [] then p else Some (fst (last ns)))"

fun seg :: "'d heap \<Rightarrow> nat option \<Rightarrow> (nat \<times> 'd) list \<Rightarrow> nat option \<Rightarrow> bool" where
  "seg h p [] n = True"
| "seg h p (x # xs) n =
     (h (fst x) = Some \<lparr>e_data = snd x, e_prev = p, e_next = heado xs n\<rparr> \<and> seg h (Some (fst x)) xs n)"

lemma heado_simps [simp]: "heado [] n = n" "heado (x # xs) n = Some (fst x)"
  by (simp_all add: heado_def)

lemma lasto_simps [simp]: "lasto p [] = p" "lasto p (xs @ [x]) = Some (fst x)"
  "lasto p (x # xs) = lasto (Some (fst x)) xs"
  by (simp_all add: lasto_def)

lemma heado_append [simp]: "heado (xs @ ys) n = heado xs (heado ys n)"
  by (cases xs) simp_all

lemma lasto_append [simp]: "lasto p (xs @ ys) = lasto (lasto p xs) ys"
  by (induction xs arbitrary: p) simp_all

lemma lasto_in: "lasto None ns = Some a \<Longrightarrow> a \<in> fst ` set ns"
  by (auto simp: lasto_def split: if_splits)

lemma heado_in: "heado ns None = Some a \<Longrightarrow> a \<in> fst ` set ns"
  by (cases ns) auto

lemma heado_None [simp]: "heado ns None = None \<longleftrightarrow> ns = []"
  by (cases ns) auto

lemma lasto_None [simp]: "lasto None ns = None \<longleftrightarrow> ns = []"
  by (auto simp: lasto_def)

lemma seg_append: "seg h p (xs @ ys) n \<longleftrightarrow> seg h p xs (heado ys n) \<and> seg h (lasto p xs) ys n"
  by (induction xs arbitrary: p) simp_all

lemma seg_frame: "seg h p xs n \<Longrightarrow> (\<And>a. a \<in> fst ` set xs \<Longrightarrow> h' a = h a) \<Longrightarrow> seg h' p xs n"
  by (induction xs arbitrary: p) simp_all

lemma seg_lookup: "seg h p ns n \<Longrightarrow> x \<in> set ns \<Longrightarrow> \<exists>e. h (fst x) = Some e \<and> e_data e = snd x"
  by (induction ns arbitrary: p) auto

text \<open>The two assignments of \<open>no_os_update_links\<close> to the neighbours.\<close>

definition set_next_h :: "nat option \<Rightarrow> nat option \<Rightarrow> 'd heap \<Rightarrow> 'd heap" where
  "set_next_h p n h = (case p of None \<Rightarrow> h | Some a \<Rightarrow> h(a \<mapsto> (the (h a))\<lparr>e_next := n\<rparr>))"

definition set_prev_h :: "nat option \<Rightarrow> nat option \<Rightarrow> 'd heap \<Rightarrow> 'd heap" where
  "set_prev_h n p h = (case n of None \<Rightarrow> h | Some a \<Rightarrow> h(a \<mapsto> (the (h a))\<lparr>e_prev := p\<rparr>))"

lemma set_h_other [simp]:
  "p \<noteq> Some a \<Longrightarrow> set_next_h p n h a = h a"
  "n \<noteq> Some a \<Longrightarrow> set_prev_h n p h a = h a"
  by (auto simp: set_next_h_def set_prev_h_def split: option.splits)

lemma set_next_last:
  "seg h p xs n \<Longrightarrow> distinct (map fst xs) \<Longrightarrow> seg (set_next_h (lasto None xs) n' h) p xs n'"
proof (induction xs arbitrary: p)
  case (Cons x xs)
  show ?case
  proof (cases "xs = []")
    case True
    with Cons.prems show ?thesis by (simp add: set_next_h_def)
  next
    case False
    then have l: "lasto None (x # xs) = lasto None xs" by (simp add: lasto_def)
    have "fst x \<notin> fst ` set xs" using Cons.prems(2) by simp
    then have "lasto None xs \<noteq> Some (fst x)" using lasto_in by blast
    moreover have "heado xs n = heado xs n'" using False by (cases xs) simp_all
    ultimately show ?thesis
      using Cons.IH[of "Some (fst x)"] Cons.prems unfolding l by simp
  qed
qed simp

lemma set_prev_head:
  assumes "seg h p ys n" and "distinct (map fst ys)"
  shows "seg (set_prev_h (heado ys None) p' h) p' ys n"
proof (cases ys)
  case (Cons y zs)
  have y: "h (fst y) = Some \<lparr>e_data = snd y, e_prev = p, e_next = heado zs n\<rparr>" and zs: "seg h (Some (fst y)) zs n"
    and notin: "fst y \<notin> fst ` set zs"
    using assms unfolding Cons by simp_all
  have "seg (set_prev_h (Some (fst y)) p' h) (Some (fst y)) zs n"
    by (rule seg_frame[OF zs], rule set_h_other(2)) (use notin in auto)
  moreover have "set_prev_h (Some (fst y)) p' h (fst y) = Some \<lparr>e_data = snd y, e_prev = p', e_next = heado zs n\<rparr>"
    by (simp add: set_prev_h_def y)
  ultimately show ?thesis unfolding Cons by simp
qed simp

definition relink :: "nat option \<Rightarrow> nat option \<Rightarrow> nat option \<Rightarrow> nat option \<Rightarrow> 'd heap \<Rightarrow> 'd heap" where
  "relink p n' n p' h = set_prev_h n p' (set_next_h p n' h)"

lemma relink_seg:
  assumes "seg h None xs m" and "seg h q ys None" and "distinct (map fst (xs @ ys))"
  shows "seg (relink (lasto None xs) n' (heado ys None) p' h) None xs n'"
    and "seg (relink (lasto None xs) n' (heado ys None) p' h) p' ys None"
proof -
  let ?h1 = "set_next_h (lasto None xs) n' h"
  have disj: "fst ` set xs \<inter> fst ` set ys = {}" using assms(3) by simp
  have no: "lasto None xs \<noteq> Some a" if "a \<in> fst ` set ys" for a
    using lasto_in[of xs a] disj that by blast
  have no': "heado ys None \<noteq> Some a" if "a \<in> fst ` set xs" for a
    using heado_in[of ys a] disj that by blast
  have 1: "seg ?h1 None xs n'"
    by (rule set_next_last[OF assms(1)]) (use assms(3) in simp)
  have 2: "seg ?h1 q ys None"
    by (rule seg_frame[OF assms(2)]) (rule set_h_other(1)[OF no])
  show "seg (relink (lasto None xs) n' (heado ys None) p' h) None xs n'"
    unfolding relink_def
    by (rule seg_frame[OF 1]) (rule set_h_other(2)[OF no'])
  show "seg (relink (lasto None xs) n' (heado ys None) p' h) p' ys None"
    unfolding relink_def by (rule set_prev_head[OF 2]) (use assms(3) in simp)
qed

lemma relink_other:
  "a \<notin> fst ` set xs \<Longrightarrow> a \<notin> fst ` set ys \<Longrightarrow> relink (lasto None xs) n' (heado ys None) p' h a = h a"
  unfolding relink_def using lasto_in[of xs a] heado_in[of ys a] by (metis set_h_other)

lemma dom_relink:
  "(\<forall>a. p = Some a \<longrightarrow> a \<in> dom h) \<Longrightarrow> (\<forall>a. n = Some a \<longrightarrow> a \<in> dom h) \<Longrightarrow> dom (relink p n' n p' h) = dom h"
  by (auto simp: relink_def set_next_h_def set_prev_h_def split: option.splits if_splits)

section \<open>Running the primitive operations\<close>

lemma load_elem_ok: "elems \<sigma> a = Some e \<Longrightarrow> load_elem a \<sigma> = Inr (e, \<sigma>)"
  by (simp add: load_elem_def)

lemma store_elem_ok: "elems \<sigma> a = Some e \<Longrightarrow> store_elem a f \<sigma> = Inr ((), \<sigma>\<lparr>elems := (elems \<sigma>)(a \<mapsto> f e)\<rparr>)"
  by (simp add: store_elem_def)

lemma free_elem_ok: "elems \<sigma> a = Some e \<Longrightarrow> free_elem a \<sigma> = Inr ((), \<sigma>\<lparr>elems := (elems \<sigma>)(a := None)\<rparr>)"
  by (simp add: free_elem_def)

lemma deref_run [run_simps]: "deref (Some a) \<sigma> = Inr (a, \<sigma>)" "deref None \<sigma> = Inl Null_Deref"
  by (simp_all add: deref_def run_simps)

lemma it_elem_run [run_simps]:
  "it_elem Internal \<sigma> = Inr (l_it \<sigma>, \<sigma>)" "set_it_elem Internal e \<sigma> = Inr ((), \<sigma>\<lparr>l_it := e\<rparr>)"
  by (simp_all add: it_elem_def set_it_elem_def run_simps)

lemma change_size_run [run_simps]: "change_size d \<sigma> = Inr ((), \<sigma>\<lparr>nb_elements := nb_elements \<sigma> + d\<rparr>)"
  by (simp add: change_size_def run_simps)

lemma unlink_run:
  assumes "\<forall>a. p = Some a \<longrightarrow> a \<in> dom (elems \<sigma>)" and "\<forall>a. n = Some a \<longrightarrow> a \<in> dom (elems \<sigma>)"
  shows "no_os_update_links p None n \<sigma> = Inr ((), \<sigma>\<lparr>elems := relink p n n p (elems \<sigma>)\<rparr>)"
  using assms
  by (cases p; cases n)
    (auto simp: no_os_update_links_def relink_def set_next_h_def set_prev_h_def bindm_unfold run_simps
      store_elem_ok store_elem_def split: option.splits)

lemma link_run:
  assumes "\<forall>b. p = Some b \<longrightarrow> b \<in> dom (elems \<sigma>) \<and> b \<noteq> a" and "\<forall>b. n = Some b \<longrightarrow> b \<in> dom (elems \<sigma>) \<and> b \<noteq> a"
    and "elems \<sigma> a = Some \<lparr>e_data = d, e_prev = p, e_next = n\<rparr>"
  shows "no_os_update_links p (Some a) n \<sigma> = Inr ((), \<sigma>\<lparr>elems := relink p (Some a) n (Some a) (elems \<sigma>)\<rparr>)"
proof -
  have same: "h a = Some \<lparr>e_data = d, e_prev = p, e_next = n\<rparr> \<Longrightarrow>
      h(a \<mapsto> \<lparr>e_data = d, e_prev = p, e_next = n\<rparr>) = h" for h :: "'a heap"
    by (simp add: fun_upd_idem)
  show ?thesis
    using assms
    by (cases p; cases n)
      (auto simp: no_os_update_links_def relink_def set_next_h_def set_prev_h_def bindm_unfold run_simps
        store_elem_def fun_upd_twist[of _ a] fun_upd_idem split: option.splits)
qed

section \<open>The representation predicate\<close>

text \<open>
  The nodes \<open>ns\<close> (address and data, in order) make up the list of the state: they are
  linked in both directions, they are all the elements that are allocated, and the
  descriptor agrees with them.
\<close>

definition list_inv :: "'d list_state \<Rightarrow> (nat \<times> 'd) list \<Rightarrow> bool" where
  "list_inv \<sigma> ns \<longleftrightarrow>
     alive \<sigma> \<and> seg (elems \<sigma>) None ns None \<and> distinct (map fst ns) \<and> dom (elems \<sigma>) = fst ` set ns \<and>
     l_first \<sigma> = heado ns None \<and> l_last \<sigma> = lasto None ns \<and> nb_elements \<sigma> = of_nat (length ns) \<and>
     length ns < 2 ^ 31 \<and> (\<forall>a\<in>fst ` set ns. a < next_addr \<sigma>)"

definition holds :: "'d list_state \<Rightarrow> 'd list \<Rightarrow> bool" where
  "holds \<sigma> xs \<longleftrightarrow> (\<exists>ns. list_inv \<sigma> ns \<and> map snd ns = xs)"

text \<open>What no operation on the elements changes.\<close>

definition same_desc :: "'d list_state \<Rightarrow> 'd list_state \<Rightarrow> bool" where
  "same_desc \<sigma> \<sigma>' \<longleftrightarrow> comparator \<sigma>' = comparator \<sigma> \<and> nb_iterators \<sigma>' = nb_iterators \<sigma> \<and> alloc_ok \<sigma>' = alloc_ok \<sigma>"

lemma same_desc_refl [simp]: "same_desc \<sigma> \<sigma>"
  by (simp add: same_desc_def)

lemma same_desc_trans: "same_desc \<sigma> \<sigma>1 \<Longrightarrow> same_desc \<sigma>1 \<sigma>2 \<Longrightarrow> same_desc \<sigma> \<sigma>2"
  by (simp add: same_desc_def)

lemma nb_elements_0: "list_inv \<sigma> ns \<Longrightarrow> nb_elements \<sigma> = 0 \<longleftrightarrow> ns = []"
proof -
  assume inv: "list_inv \<sigma> ns"
  then have "unat (nb_elements \<sigma>) = length ns" by (simp add: list_inv_def unat_of_nat)
  then show ?thesis by (metis length_0_conv unat_0 unat_eq_0)
qed

lemma unat_nb_elements: "list_inv \<sigma> ns \<Longrightarrow> unat (nb_elements \<sigma>) = length ns"
  by (simp add: list_inv_def unat_of_nat)

lemma fresh_addr: "list_inv \<sigma> ns \<Longrightarrow> next_addr \<sigma> \<notin> fst ` set ns"
  by (auto simp: list_inv_def)

lemma list_inv_it [simp]: "list_inv (\<sigma>\<lparr>l_it := e\<rparr>) ns = list_inv \<sigma> ns" "same_desc (\<sigma>\<lparr>l_it := e\<rparr>) \<sigma>' = same_desc \<sigma> \<sigma>'"
  "same_desc \<sigma> (\<sigma>'\<lparr>l_it := e\<rparr>) = same_desc \<sigma> \<sigma>'"
  by (simp_all add: list_inv_def same_desc_def)

section \<open>Inserting\<close>

lemma create_element_ok:
  "alloc_ok \<sigma> (next_addr \<sigma>) \<Longrightarrow> create_element d p n \<sigma> = Inr (Some (next_addr \<sigma>),
     \<sigma>\<lparr>next_addr := Suc (next_addr \<sigma>), elems := (elems \<sigma>)(next_addr \<sigma> \<mapsto> \<lparr>e_data = d, e_prev = p, e_next = n\<rparr>)\<rparr>)"
  by (simp add: create_element_def list_alloc_def bindm_unfold run_simps Let_def)

lemma create_element_refused:
  "\<not> alloc_ok \<sigma> (next_addr \<sigma>) \<Longrightarrow> create_element d p n \<sigma> = Inr (None, \<sigma>\<lparr>next_addr := Suc (next_addr \<sigma>)\<rparr>)"
  by (simp add: create_element_def list_alloc_def bindm_unfold run_simps Let_def)

text \<open>The heap after a new element was created between \<open>xs\<close> and \<open>ys\<close> and linked.\<close>

definition linked_in :: "(nat \<times> 'd) list \<Rightarrow> 'd \<Rightarrow> (nat \<times> 'd) list \<Rightarrow> nat \<Rightarrow> 'd heap \<Rightarrow> 'd heap" where
  "linked_in xs d ys a h = relink (lasto None xs) (Some a) (heado ys None) (Some a)
     (h(a \<mapsto> \<lparr>e_data = d, e_prev = lasto None xs, e_next = heado ys None\<rparr>))"

lemma link_in_run:
  assumes inv: "list_inv \<sigma> (xs @ ys)" and a: "a = next_addr \<sigma>"
    and el: "elems \<sigma>1 = (elems \<sigma>)(a \<mapsto> \<lparr>e_data = d, e_prev = lasto None xs, e_next = heado ys None\<rparr>)"
  shows "no_os_update_links (lasto None xs) (Some a) (heado ys None) \<sigma>1 =
    Inr ((), \<sigma>1\<lparr>elems := linked_in xs d ys a (elems \<sigma>)\<rparr>)"
proof -
  have fresh: "a \<notin> fst ` set (xs @ ys)" using fresh_addr[OF inv] a by simp
  have A: "\<forall>b. lasto None xs = Some b \<longrightarrow> b \<in> dom (elems \<sigma>1) \<and> b \<noteq> a"
    using inv lasto_in[of xs] fresh el by (auto simp: list_inv_def)
  have B: "\<forall>b. heado ys None = Some b \<longrightarrow> b \<in> dom (elems \<sigma>1) \<and> b \<noteq> a"
    using inv heado_in[of ys] fresh el by (auto simp: list_inv_def)
  have C: "elems \<sigma>1 a = Some \<lparr>e_data = d, e_prev = lasto None xs, e_next = heado ys None\<rparr>" using el by simp
  show ?thesis using link_run[OF A B C] by (simp only: linked_in_def el)
qed

lemma linked_in_seg:
  assumes inv: "list_inv \<sigma> (xs @ ys)" and a: "a = next_addr \<sigma>"
  shows "seg (linked_in xs d ys a (elems \<sigma>)) None (xs @ (a, d) # ys) None"
    and "dom (linked_in xs d ys a (elems \<sigma>)) = insert a (fst ` set (xs @ ys))"
proof -
  let ?node = "\<lparr>e_data = d, e_prev = lasto None xs, e_next = heado ys None\<rparr>"
  let ?h = "(elems \<sigma>)(a \<mapsto> ?node)"
  have fresh: "a \<notin> fst ` set xs" "a \<notin> fst ` set ys" using fresh_addr[OF inv] a by auto
  have s: "seg (elems \<sigma>) None xs (heado ys None)" "seg (elems \<sigma>) (lasto None xs) ys None"
    and dist: "distinct (map fst (xs @ ys))" and dom: "dom (elems \<sigma>) = fst ` set (xs @ ys)"
    using inv by (auto simp: list_inv_def seg_append)
  have sx: "seg ?h None xs (heado ys None)" by (rule seg_frame[OF s(1)]) (use fresh in auto)
  have sy: "seg ?h (lasto None xs) ys None" by (rule seg_frame[OF s(2)]) (use fresh in auto)
  show "seg (linked_in xs d ys a (elems \<sigma>)) None (xs @ (a, d) # ys) None"
    using relink_seg[OF sx sy dist, of "Some a" "Some a"] relink_other[OF fresh, of "Some a" "Some a" ?h]
    by (simp add: linked_in_def seg_append)
  show "dom (linked_in xs d ys a (elems \<sigma>)) = insert a (fst ` set (xs @ ys))"
    unfolding linked_in_def
    by (subst dom_relink) (use dom lasto_in[of xs] heado_in[of ys] in auto)
qed

lemma list_inv_insert:
  assumes inv: "list_inv \<sigma> (xs @ ys)" and a: "a = next_addr \<sigma>" and room: "Suc (length (xs @ ys)) < 2 ^ 31"
    and \<sigma>': "alive \<sigma>'" "elems \<sigma>' = linked_in xs d ys a (elems \<sigma>)" "next_addr \<sigma>' = Suc a"
      "l_first \<sigma>' = heado (xs @ (a, d) # ys) None" "l_last \<sigma>' = lasto None (xs @ (a, d) # ys)"
      "nb_elements \<sigma>' = nb_elements \<sigma> + 1"
  shows "list_inv \<sigma>' (xs @ (a, d) # ys)"
proof -
  have "\<forall>b\<in>fst ` set (xs @ ys). b < a" "distinct (map fst (xs @ ys))" "nb_elements \<sigma> = of_nat (length (xs @ ys))"
    using inv a by (auto simp: list_inv_def)
  then show ?thesis
    using linked_in_seg[OF inv a, of d] fresh_addr[OF inv] a room \<sigma>'
    unfolding list_inv_def by (auto simp: image_Un less_Suc_eq)
qed

lemma add_first_run:
  assumes inv: "list_inv \<sigma> ns" and alloc: "alloc_ok \<sigma> (next_addr \<sigma>)" and room: "Suc (length ns) < 2 ^ 31"
  shows "\<exists>\<sigma>'. no_os_list_add_first Valid d \<sigma> = Inr (0, \<sigma>') \<and> list_inv \<sigma>' ((next_addr \<sigma>, d) # ns) \<and>
    same_desc \<sigma> \<sigma>' \<and> l_it \<sigma>' = l_it \<sigma>"
proof -
  let ?a = "next_addr \<sigma>"
  have desc: "l_first \<sigma> = heado ns None" "l_last \<sigma> = lasto None ns" "alive \<sigma>" using inv by (auto simp: list_inv_def)
  let ?\<sigma>1 = "\<sigma>\<lparr>next_addr := Suc ?a, elems := (elems \<sigma>)(?a \<mapsto> \<lparr>e_data = d, e_prev = None, e_next = heado ns None\<rparr>)\<rparr>"
  let ?\<sigma>2 = "?\<sigma>1\<lparr>elems := linked_in [] d ns ?a (elems \<sigma>)\<rparr>"
  have l: "no_os_update_links None (Some ?a) (heado ns None) ?\<sigma>1 = Inr ((), ?\<sigma>2)"
    using link_in_run[of \<sigma> "[]" ns ?a ?\<sigma>1 d] inv by simp
  have "Some ?a \<noteq> heado ns None" using heado_in[of ns ?a] fresh_addr[OF inv] by metis
  then have "\<exists>\<sigma>'. no_os_list_add_first Valid d \<sigma> = Inr (0, \<sigma>') \<and> elems \<sigma>' = linked_in [] d ns ?a (elems \<sigma>) \<and>
      alive \<sigma>' \<and> next_addr \<sigma>' = Suc ?a \<and> l_first \<sigma>' = Some ?a \<and>
      l_last \<sigma>' = (if ns = [] then Some ?a else lasto None ns) \<and> nb_elements \<sigma>' = nb_elements \<sigma> + 1 \<and>
      same_desc \<sigma> \<sigma>' \<and> l_it \<sigma>' = l_it \<sigma>"
    using desc by (simp add: no_os_list_add_first_def bindm_unfold run_simps create_element_ok[OF alloc] l
        no_os_update_desc_def same_desc_def)
  then obtain \<sigma>' where \<sigma>': "no_os_list_add_first Valid d \<sigma> = Inr (0, \<sigma>')"
    "elems \<sigma>' = linked_in [] d ns ?a (elems \<sigma>)" "alive \<sigma>'" "next_addr \<sigma>' = Suc ?a" "l_first \<sigma>' = Some ?a"
    "l_last \<sigma>' = (if ns = [] then Some ?a else lasto None ns)" "nb_elements \<sigma>' = nb_elements \<sigma> + 1"
    "same_desc \<sigma> \<sigma>'" "l_it \<sigma>' = l_it \<sigma>" by blast
  have "list_inv \<sigma>' ([] @ (?a, d) # ns)"
    by (rule list_inv_insert[of \<sigma>]) (use inv room \<sigma>' in \<open>auto simp: lasto_def\<close>)
  with \<sigma>' show ?thesis by simp
qed

lemma add_last_run:
  assumes inv: "list_inv \<sigma> ns" and alloc: "alloc_ok \<sigma> (next_addr \<sigma>)" and room: "Suc (length ns) < 2 ^ 31"
  shows "\<exists>\<sigma>'. no_os_list_add_last Valid d \<sigma> = Inr (0, \<sigma>') \<and> list_inv \<sigma>' (ns @ [(next_addr \<sigma>, d)]) \<and>
    same_desc \<sigma> \<sigma>' \<and> l_it \<sigma>' = l_it \<sigma>"
proof -
  let ?a = "next_addr \<sigma>"
  have desc: "l_first \<sigma> = heado ns None" "l_last \<sigma> = lasto None ns" "alive \<sigma>" using inv by (auto simp: list_inv_def)
  let ?\<sigma>1 = "\<sigma>\<lparr>next_addr := Suc ?a, elems := (elems \<sigma>)(?a \<mapsto> \<lparr>e_data = d, e_prev = lasto None ns, e_next = None\<rparr>)\<rparr>"
  let ?\<sigma>2 = "?\<sigma>1\<lparr>elems := linked_in ns d [] ?a (elems \<sigma>)\<rparr>"
  have l: "no_os_update_links (lasto None ns) (Some ?a) None ?\<sigma>1 = Inr ((), ?\<sigma>2)"
    using link_in_run[of \<sigma> ns "[]" ?a ?\<sigma>1 d] inv by simp
  then have "\<exists>\<sigma>'. no_os_list_add_last Valid d \<sigma> = Inr (0, \<sigma>') \<and> elems \<sigma>' = linked_in ns d [] ?a (elems \<sigma>) \<and>
      alive \<sigma>' \<and> next_addr \<sigma>' = Suc ?a \<and> l_last \<sigma>' = Some ?a \<and>
      l_first \<sigma>' = (if ns = [] then Some ?a else heado ns None) \<and> nb_elements \<sigma>' = nb_elements \<sigma> + 1 \<and>
      same_desc \<sigma> \<sigma>' \<and> l_it \<sigma>' = l_it \<sigma>"
    using desc by (simp add: no_os_list_add_last_def bindm_unfold run_simps create_element_ok[OF alloc]
        no_os_update_desc_def same_desc_def)
  then obtain \<sigma>' where \<sigma>': "no_os_list_add_last Valid d \<sigma> = Inr (0, \<sigma>')"
    "elems \<sigma>' = linked_in ns d [] ?a (elems \<sigma>)" "alive \<sigma>'" "next_addr \<sigma>' = Suc ?a" "l_last \<sigma>' = Some ?a"
    "l_first \<sigma>' = (if ns = [] then Some ?a else heado ns None)" "nb_elements \<sigma>' = nb_elements \<sigma> + 1"
    "same_desc \<sigma> \<sigma>'" "l_it \<sigma>' = l_it \<sigma>" by blast
  have "list_inv \<sigma>' (ns @ (?a, d) # [])"
    by (rule list_inv_insert[of \<sigma>]) (use inv room \<sigma>' in \<open>auto simp: heado_def split: if_splits list.splits\<close>)
  with \<sigma>' show ?thesis by simp
qed

text \<open>A refused allocation leaves the list as it was.\<close>

lemma add_refused:
  assumes inv: "list_inv \<sigma> ns" and no: "\<not> alloc_ok \<sigma> (next_addr \<sigma>)"
  shows "\<exists>\<sigma>'. no_os_list_add_first Valid d \<sigma> = Inr (-1, \<sigma>') \<and> list_inv \<sigma>' ns"
    and "\<exists>\<sigma>'. no_os_list_add_last Valid d \<sigma> = Inr (-1, \<sigma>') \<and> list_inv \<sigma>' ns"
  using inv
  by (auto simp: no_os_list_add_first_def no_os_list_add_last_def bindm_unfold run_simps
      create_element_refused[OF no] list_inv_def)

lemma list_inv_node:
  assumes "list_inv \<sigma> (xs @ x # ys)"
  shows "elems \<sigma> (fst x) = Some \<lparr>e_data = snd x, e_prev = lasto None xs, e_next = heado ys None\<rparr>"
  using assms by (simp add: list_inv_def seg_append)

lemma inner_not_first: "list_inv \<sigma> (xs @ x # ys) \<Longrightarrow> xs \<noteq> [] \<Longrightarrow> l_first \<sigma> \<noteq> Some (fst x)"
  by (cases xs) (auto simp: list_inv_def)

lemma inner_not_last: "list_inv \<sigma> (xs @ x # ys) \<Longrightarrow> ys \<noteq> [] \<Longrightarrow> l_last \<sigma> \<noteq> Some (fst x)"
  using lasto_in[of ys "fst x"] by (auto simp: list_inv_def lasto_def split: if_splits)

lemma insert_before_run:
  assumes inv: "list_inv \<sigma> (xs @ ys)" and cur: "l_it \<sigma> = heado ys None" "ys \<noteq> []"
    and alloc: "alloc_ok \<sigma> (next_addr \<sigma>)" and room: "Suc (length (xs @ ys)) < 2 ^ 31"
  shows "\<exists>\<sigma>'. no_os_iterator_insert (Some Internal) d False \<sigma> = Inr (0, \<sigma>') \<and>
    list_inv \<sigma>' (xs @ (next_addr \<sigma>, d) # ys) \<and> same_desc \<sigma> \<sigma>'"
proof (cases "xs = []")
  case True
  have "l_it \<sigma> = l_first \<sigma>" using inv cur True by (simp add: list_inv_def)
  then have "no_os_iterator_insert (Some Internal) d False \<sigma> = no_os_list_add_first Valid d \<sigma>"
    by (simp add: no_os_iterator_insert_def bindm_unfold run_simps)
  with add_first_run[OF inv alloc room, of d] True show ?thesis by auto
next
  case False
  obtain y zs where ys: "ys = y # zs" using cur(2) by (cases ys) auto
  let ?a = "next_addr \<sigma>"
  have inv': "list_inv \<sigma> (xs @ y # zs)" using inv ys by simp
  have node: "elems \<sigma> (fst y) = Some \<lparr>e_data = snd y, e_prev = lasto None xs, e_next = heado zs None\<rparr>"
    by (rule list_inv_node[OF inv'])
  have nf: "l_first \<sigma> \<noteq> Some (fst y)" by (rule inner_not_first[OF inv' False])
  let ?\<sigma>1 = "\<sigma>\<lparr>next_addr := Suc ?a, elems := (elems \<sigma>)(?a \<mapsto> \<lparr>e_data = d, e_prev = lasto None xs, e_next = Some (fst y)\<rparr>)\<rparr>"
  let ?\<sigma>2 = "?\<sigma>1\<lparr>elems := linked_in xs d ys ?a (elems \<sigma>)\<rparr>"
  have l: "no_os_update_links (lasto None xs) (Some ?a) (Some (fst y)) ?\<sigma>1 = Inr ((), ?\<sigma>2)"
    using link_in_run[OF inv refl, of ?\<sigma>1 d] ys by simp
  have run: "no_os_iterator_insert (Some Internal) d False \<sigma> = Inr (0, ?\<sigma>2\<lparr>nb_elements := nb_elements \<sigma> + 1\<rparr>)"
    using cur ys nf
    by (simp add: no_os_iterator_insert_def bindm_unfold run_simps node create_element_ok[OF alloc]
        load_elem_def l)
  have desc: "alive \<sigma>" "l_first \<sigma> = heado (xs @ ys) None" "l_last \<sigma> = lasto None (xs @ ys)"
    using inv by (auto simp: list_inv_def)
  have "list_inv (?\<sigma>2\<lparr>nb_elements := nb_elements \<sigma> + 1\<rparr>) (xs @ (?a, d) # ys)"
  proof (rule list_inv_insert[OF inv refl room])
    show "l_first (?\<sigma>2\<lparr>nb_elements := nb_elements \<sigma> + 1\<rparr>) = heado (xs @ (?a, d) # ys) None"
      using desc False by (cases xs) simp_all
    show "l_last (?\<sigma>2\<lparr>nb_elements := nb_elements \<sigma> + 1\<rparr>) = lasto None (xs @ (?a, d) # ys)"
      using desc ys by simp
  qed (use desc in simp_all)
  with run show ?thesis by (simp add: same_desc_def)
qed

section \<open>Walking and searching\<close>

lemma walk_forward:
  "seg (elems \<sigma>) p ns None \<Longrightarrow> walk True k (heado ns None) \<sigma> = Inr (heado (drop k ns) None, \<sigma>)"
proof (induction k arbitrary: p ns)
  case 0
  then show ?case by (simp add: run_simps)
next
  case (Suc k)
  show ?case
  proof (cases ns)
    case Nil
    then show ?thesis by (simp add: run_simps)
  next
    case (Cons x xs)
    with Suc.prems have "elems \<sigma> (fst x) = Some \<lparr>e_data = snd x, e_prev = p, e_next = heado xs None\<rparr>"
      "seg (elems \<sigma>) (Some (fst x)) xs None" by simp_all
    with Suc.IH[OF this(2)] Cons show ?thesis by (simp add: bindm_unfold load_elem_ok)
  qed
qed

lemma find_loop_run:
  "seg (elems \<sigma>) p ns None \<Longrightarrow> length ns \<le> fuel \<Longrightarrow>
   find_loop fuel hit (heado ns None) \<sigma> = Inr (heado (dropWhile (\<lambda>x. \<not> hit (snd x)) ns) None, \<sigma>)"
proof (induction ns arbitrary: p fuel)
  case Nil
  then show ?case by (simp add: run_simps)
next
  case (Cons x xs)
  then obtain f where "fuel = Suc f" by (cases fuel) auto
  with Cons show ?case by (auto simp: bindm_unfold load_elem_ok run_simps)
qed

lemma search_run:
  assumes inv: "list_inv \<sigma> ns"
  shows "search hit \<sigma> = Inr (heado (dropWhile (\<lambda>x. \<not> hit (snd x)) ns) None, \<sigma>)"
proof -
  have "seg (elems \<sigma>) None ns None" "l_first \<sigma> = heado ns None" using inv by (auto simp: list_inv_def)
  with unat_nb_elements[OF inv] find_loop_run[of \<sigma> None ns "length ns" hit] show ?thesis
    by (simp add: search_def bindm_unfold run_simps)
qed

lemma add_find_run:
  fixes \<sigma> :: "'d list_state" and d :: 'd
  assumes inv: "list_inv \<sigma> ns" and alloc: "alloc_ok \<sigma> (next_addr \<sigma>)" and room: "Suc (length ns) < 2 ^ 31"
  defines "small \<equiv> (\<lambda>x. \<not> 0 < comparator \<sigma> (snd x) d)"
  shows "\<exists>\<sigma>'. no_os_list_add_find Valid d \<sigma> = Inr (0, \<sigma>') \<and>
    list_inv \<sigma>' (takeWhile small ns @ (next_addr \<sigma>, d) # dropWhile small ns) \<and> same_desc \<sigma> \<sigma>'"
proof -
  let ?xs = "takeWhile small ns" and ?ys = "dropWhile small ns"
  have found: "search (\<lambda>x. 0 < comparator \<sigma> x d) \<sigma> = Inr (heado ?ys None, \<sigma>)"
    using search_run[OF inv, of "\<lambda>x. 0 < comparator \<sigma> x d"] by (simp add: small_def)
  show ?thesis
  proof (cases "?ys = []")
    case True
    let ?\<sigma>1 = "\<sigma>\<lparr>l_it := l_last \<sigma>\<rparr>"
    have "no_os_list_add_find Valid d \<sigma> = no_os_list_add_last Valid d ?\<sigma>1"
      using True by (simp add: no_os_list_add_find_def bindm_unfold run_simps found no_os_iterator_insert_def)
    moreover have "?xs @ (next_addr \<sigma>, d) # ?ys = ns @ [(next_addr \<sigma>, d)]"
      using True by (metis append_Nil2 takeWhile_dropWhile_id)
    moreover obtain \<sigma>' where "no_os_list_add_last Valid d ?\<sigma>1 = Inr (0, \<sigma>')"
      "list_inv \<sigma>' (ns @ [(next_addr \<sigma>, d)])" "same_desc \<sigma> \<sigma>'"
      using add_last_run[of ?\<sigma>1 ns d] inv alloc room by auto
    ultimately show ?thesis by (simp only:) blast
  next
    case False
    let ?\<sigma>1 = "\<sigma>\<lparr>l_it := heado ?ys None\<rparr>"
    have "no_os_list_add_find Valid d \<sigma> = no_os_iterator_insert (Some Internal) d False ?\<sigma>1"
      using False by (auto simp: no_os_list_add_find_def bindm_unfold run_simps found)
    moreover have "length (?xs @ ?ys) = length ns" by simp
    ultimately show ?thesis
      using insert_before_run[of ?\<sigma>1 ?xs ?ys d] inv alloc room False by simp
  qed
qed

section \<open>Removing\<close>

definition unlinked :: "(nat \<times> 'd) list \<Rightarrow> nat \<Rightarrow> (nat \<times> 'd) list \<Rightarrow> 'd heap \<Rightarrow> 'd heap" where
  "unlinked xs a ys h = relink (lasto None xs) (heado ys None) (heado ys None) (lasto None xs) h"

lemma unlink_ok:
  assumes inv: "list_inv \<sigma> (xs @ (a, d) # ys)"
  shows "no_os_update_links (lasto None xs) None (heado ys None) \<sigma> = Inr ((), \<sigma>\<lparr>elems := unlinked xs a ys (elems \<sigma>)\<rparr>)"
    and "unlinked xs a ys (elems \<sigma>) a = Some \<lparr>e_data = d, e_prev = lasto None xs, e_next = heado ys None\<rparr>"
proof -
  have dom: "\<forall>b. lasto None xs = Some b \<longrightarrow> b \<in> dom (elems \<sigma>)" "\<forall>b. heado ys None = Some b \<longrightarrow> b \<in> dom (elems \<sigma>)"
    using inv lasto_in[of xs] heado_in[of ys] by (auto simp: list_inv_def)
  show "no_os_update_links (lasto None xs) None (heado ys None) \<sigma> = Inr ((), \<sigma>\<lparr>elems := unlinked xs a ys (elems \<sigma>)\<rparr>)"
    using unlink_run[OF dom] by (simp add: unlinked_def)
  have "a \<notin> fst ` set xs" "a \<notin> fst ` set ys" using inv by (auto simp: list_inv_def)
  then show "unlinked xs a ys (elems \<sigma>) a = Some \<lparr>e_data = d, e_prev = lasto None xs, e_next = heado ys None\<rparr>"
    using list_inv_node[OF inv] by (simp add: unlinked_def relink_other)
qed

lemma list_inv_remove:
  assumes inv: "list_inv \<sigma> (xs @ (a, d) # ys)"
    and \<sigma>': "alive \<sigma>'" "elems \<sigma>' = (unlinked xs a ys (elems \<sigma>))(a := None)" "next_addr \<sigma>' = next_addr \<sigma>"
      "l_first \<sigma>' = heado (xs @ ys) None" "l_last \<sigma>' = lasto None (xs @ ys)" "nb_elements \<sigma>' = nb_elements \<sigma> - 1"
  shows "list_inv \<sigma>' (xs @ ys)"
proof -
  have s: "seg (elems \<sigma>) None xs (Some a)" "seg (elems \<sigma>) (Some a) ys None"
    using inv by (auto simp: list_inv_def seg_append)
  have dist: "distinct (map fst (xs @ ys))" and fresh: "a \<notin> fst ` set (xs @ ys)"
    using inv by (auto simp: list_inv_def)
  have "seg (unlinked xs a ys (elems \<sigma>)) None (xs @ ys) None"
    using relink_seg[OF s dist, of "heado ys None" "lasto None xs"] by (simp add: unlinked_def seg_append)
  then have "seg (elems \<sigma>') None (xs @ ys) None"
    by (rule seg_frame) (use fresh \<sigma>'(2) in auto)
  moreover have "dom (unlinked xs a ys (elems \<sigma>)) = dom (elems \<sigma>)"
    unfolding unlinked_def using inv lasto_in[of xs] heado_in[of ys]
    by (intro dom_relink) (auto simp: list_inv_def)
  then have "dom (elems \<sigma>') = fst ` set (xs @ ys)"
    using inv fresh \<sigma>'(2) by (auto simp: list_inv_def)
  moreover have "nb_elements \<sigma>' = of_nat (length (xs @ ys))"
    using inv \<sigma>'(6) by (simp add: list_inv_def)
  ultimately show ?thesis
    using inv \<sigma>' dist by (auto simp: list_inv_def)
qed

lemma get_first_run:
  assumes inv: "list_inv \<sigma> ((a, d) # ns)"
  shows "\<exists>\<sigma>'. no_os_list_get_first Valid Valid \<sigma> = Inr ((0, Some d), \<sigma>') \<and> list_inv \<sigma>' ns \<and> same_desc \<sigma> \<sigma>'"
proof -
  have inv': "list_inv \<sigma> ([] @ (a, d) # ns)" using inv by simp
  note u = unlink_ok[OF inv', simplified]
  have node: "elems \<sigma> a = Some \<lparr>e_data = d, e_prev = None, e_next = heado ns None\<rparr>" using list_inv_node[OF inv'] by simp
  have n0: "nb_elements \<sigma> \<noteq> 0" using nb_elements_0[OF inv] by simp
  have desc: "alive \<sigma>" "l_first \<sigma> = Some a" "l_last \<sigma> = lasto (Some a) ns" using inv by (auto simp: list_inv_def)
  have ne: "heado ns None \<noteq> Some a" using heado_in[of ns a] inv by (auto simp: list_inv_def)
  have "\<exists>\<sigma>'. no_os_list_get_first Valid Valid \<sigma> = Inr ((0, Some d), \<sigma>') \<and> alive \<sigma>' \<and>
      elems \<sigma>' = (unlinked [] a ns (elems \<sigma>))(a := None) \<and> next_addr \<sigma>' = next_addr \<sigma> \<and> l_first \<sigma>' = heado ns None \<and>
      l_last \<sigma>' = (if ns = [] then None else lasto (Some a) ns) \<and> nb_elements \<sigma>' = nb_elements \<sigma> - 1 \<and> same_desc \<sigma> \<sigma>'"
    using n0 desc ne
    by (auto simp: no_os_list_get_first_def bindm_unfold run_simps load_elem_def node u no_os_update_desc_def free_elem_def
        same_desc_def lasto_def)
  then obtain \<sigma>' where \<sigma>': "no_os_list_get_first Valid Valid \<sigma> = Inr ((0, Some d), \<sigma>')" "alive \<sigma>'"
    "elems \<sigma>' = (unlinked [] a ns (elems \<sigma>))(a := None)" "next_addr \<sigma>' = next_addr \<sigma>" "l_first \<sigma>' = heado ns None"
    "l_last \<sigma>' = (if ns = [] then None else lasto (Some a) ns)" "nb_elements \<sigma>' = nb_elements \<sigma> - 1" "same_desc \<sigma> \<sigma>'"
    by blast
  have "list_inv \<sigma>' ([] @ ns)"
    by (rule list_inv_remove[OF inv']) (use \<sigma>' in \<open>auto simp: lasto_def\<close>)
  with \<sigma>' show ?thesis by auto
qed

lemma get_last_run:
  assumes inv: "list_inv \<sigma> (ns @ [(a, d)])"
  shows "\<exists>\<sigma>'. no_os_list_get_last Valid Valid \<sigma> = Inr ((0, Some d), \<sigma>') \<and> list_inv \<sigma>' ns \<and> same_desc \<sigma> \<sigma>'"
proof -
  note u = unlink_ok[OF inv, simplified]
  have node: "elems \<sigma> a = Some \<lparr>e_data = d, e_prev = lasto None ns, e_next = None\<rparr>" using list_inv_node[OF inv] by simp
  have n0: "nb_elements \<sigma> \<noteq> 0" using nb_elements_0[OF inv] by simp
  have desc: "alive \<sigma>" "l_first \<sigma> = heado ns (Some a)" "l_last \<sigma> = Some a" using inv by (auto simp: list_inv_def)
  have fs: "l_first \<sigma> = (if ns = [] then Some a else heado ns None)" using desc by (cases ns) auto
  have "\<exists>\<sigma>'. no_os_list_get_last Valid Valid \<sigma> = Inr ((0, Some d), \<sigma>') \<and> alive \<sigma>' \<and>
      elems \<sigma>' = (unlinked ns a [] (elems \<sigma>))(a := None) \<and> next_addr \<sigma>' = next_addr \<sigma> \<and> l_first \<sigma>' = heado ns None \<and>
      l_last \<sigma>' = lasto None ns \<and> nb_elements \<sigma>' = nb_elements \<sigma> - 1 \<and> same_desc \<sigma> \<sigma>'"
    using n0 fs desc(1,3)
    by (auto simp: no_os_list_get_last_def bindm_unfold run_simps load_elem_def node u no_os_update_desc_def free_elem_def
        same_desc_def)
  then obtain \<sigma>' where \<sigma>': "no_os_list_get_last Valid Valid \<sigma> = Inr ((0, Some d), \<sigma>')" "alive \<sigma>'"
    "elems \<sigma>' = (unlinked ns a [] (elems \<sigma>))(a := None)" "next_addr \<sigma>' = next_addr \<sigma>" "l_first \<sigma>' = heado ns None"
    "l_last \<sigma>' = lasto None ns" "nb_elements \<sigma>' = nb_elements \<sigma> - 1" "same_desc \<sigma> \<sigma>'"
    by blast
  have "list_inv \<sigma>' (ns @ [])"
    by (rule list_inv_remove[OF inv]) (use \<sigma>' in simp_all)
  with \<sigma>' show ?thesis by auto
qed

lemma get_empty:
  assumes "list_inv \<sigma> []"
  shows "no_os_list_get_first Valid Valid \<sigma> = Inr ((-1, None), \<sigma>)" "no_os_list_get_last Valid Valid \<sigma> = Inr ((-1, None), \<sigma>)"
  using nb_elements_0[OF assms]
  by (simp_all add: no_os_list_get_first_def no_os_list_get_last_def bindm_unfold run_simps)

section \<open>Iterators\<close>

definition iter_at :: "iter_ref \<Rightarrow> 'd list_state \<Rightarrow> nat option" where
  "iter_at it \<sigma> = (case it of Internal \<Rightarrow> l_it \<sigma> | User i \<Rightarrow> the (iters \<sigma> i))"

definition iter_live :: "iter_ref \<Rightarrow> 'd list_state \<Rightarrow> bool" where
  "iter_live it \<sigma> \<longleftrightarrow> (case it of Internal \<Rightarrow> True | User i \<Rightarrow> iters \<sigma> i \<noteq> None)"

lemma it_elem_live: "iter_live it \<sigma> \<Longrightarrow> it_elem it \<sigma> = Inr (iter_at it \<sigma>, \<sigma>)"
  by (auto simp: iter_live_def iter_at_def it_elem_def run_simps split: iter_ref.splits)

definition moved :: "iter_ref \<Rightarrow> nat option \<Rightarrow> 'd list_state \<Rightarrow> 'd list_state" where
  "moved it e \<sigma> = (case it of Internal \<Rightarrow> \<sigma>\<lparr>l_it := e\<rparr> | User i \<Rightarrow> \<sigma>\<lparr>iters := (iters \<sigma>)(i \<mapsto> e)\<rparr>)"

lemma set_it_elem_live: "iter_live it \<sigma> \<Longrightarrow> set_it_elem it e \<sigma> = Inr ((), moved it e \<sigma>)"
  by (auto simp: iter_live_def moved_def set_it_elem_def run_simps split: iter_ref.splits)

lemma moved_simps [simp]:
  "list_inv (moved it e \<sigma>) ns = list_inv \<sigma> ns" "same_desc \<sigma>0 (moved it e \<sigma>) = same_desc \<sigma>0 \<sigma>"
  "iter_at it (moved it e \<sigma>) = e"
  by (simp_all add: moved_def list_inv_def same_desc_def iter_at_def split: iter_ref.splits)

lemma moved_fields [simp]:
  "alive (moved it e \<sigma>) = alive \<sigma>" "elems (moved it e \<sigma>) = elems \<sigma>" "next_addr (moved it e \<sigma>) = next_addr \<sigma>"
  "l_first (moved it e \<sigma>) = l_first \<sigma>" "l_last (moved it e \<sigma>) = l_last \<sigma>"
  "nb_elements (moved it e \<sigma>) = nb_elements \<sigma>"
  by (simp_all add: moved_def split: iter_ref.splits)

lemma iterator_get_run:
  assumes inv: "list_inv \<sigma> (xs @ (a, d) # ys)" and it: "iter_live it \<sigma>" "iter_at it \<sigma> = Some a"
  shows "\<exists>\<sigma>'. no_os_iterator_get (Some it) Valid \<sigma> = Inr ((0, Some d), \<sigma>') \<and> list_inv \<sigma>' (xs @ ys) \<and>
    iter_at it \<sigma>' = heado ys None \<and> same_desc \<sigma> \<sigma>'"
proof -
  note u = unlink_ok[OF inv]
  have node: "elems \<sigma> a = Some \<lparr>e_data = d, e_prev = lasto None xs, e_next = heado ys None\<rparr>"
    using list_inv_node[OF inv] by simp
  have desc: "alive \<sigma>" "l_first \<sigma> = heado xs (Some a)" "l_last \<sigma> = lasto (Some a) ys"
    using inv by (auto simp: list_inv_def)
  have fs: "l_first \<sigma> = (if xs = [] then Some a else heado xs None)" using desc by (cases xs) auto
  have ls: "l_last \<sigma> = (if ys = [] then Some a else lasto None ys)" using desc by (simp add: lasto_def)
  have nx: "heado xs None \<noteq> Some a" "heado ys None \<noteq> Some a" "lasto None ys \<noteq> Some a" "lasto None xs \<noteq> Some a"
    using heado_in[of xs a] heado_in[of ys a] lasto_in[of ys a] lasto_in[of xs a] inv by (auto simp: list_inv_def)
  have e: "heado (xs @ ys) None = (if xs = [] then heado ys None else heado xs None)" by (cases xs) simp_all
  have e': "lasto None (xs @ ys) = (if ys = [] then lasto None xs else lasto None ys)" by (simp add: lasto_def)
  have set: "set_it_elem it q \<sigma>' = Inr ((), moved it q \<sigma>')" if "iters \<sigma>' = iters \<sigma>" for q \<sigma>'
    using it(1) that by (intro set_it_elem_live) (simp add: iter_live_def split: iter_ref.splits)
  have "\<exists>\<sigma>'. no_os_iterator_get (Some it) Valid \<sigma> = Inr ((0, Some d), \<sigma>') \<and> alive \<sigma>' \<and>
      elems \<sigma>' = (unlinked xs a ys (elems \<sigma>))(a := None) \<and> next_addr \<sigma>' = next_addr \<sigma> \<and>
      l_first \<sigma>' = heado (xs @ ys) None \<and> l_last \<sigma>' = lasto None (xs @ ys) \<and>
      nb_elements \<sigma>' = nb_elements \<sigma> - 1 \<and> iter_at it \<sigma>' = heado ys None \<and> same_desc \<sigma> \<sigma>'"
    unfolding e e' using fs ls nx desc(1) u
    by (auto simp: no_os_iterator_get_def bindm_unfold run_simps it_elem_live[OF it(1)] it(2) load_elem_def node
        no_os_update_desc_def free_elem_def set) (auto simp: same_desc_def)
  then obtain \<sigma>' where \<sigma>': "no_os_iterator_get (Some it) Valid \<sigma> = Inr ((0, Some d), \<sigma>')" "alive \<sigma>'"
      "elems \<sigma>' = (unlinked xs a ys (elems \<sigma>))(a := None)" "next_addr \<sigma>' = next_addr \<sigma>"
      "l_first \<sigma>' = heado (xs @ ys) None" "l_last \<sigma>' = lasto None (xs @ ys)"
      "nb_elements \<sigma>' = nb_elements \<sigma> - 1" "iter_at it \<sigma>' = heado ys None" "same_desc \<sigma> \<sigma>'" by blast
  have "list_inv \<sigma>' (xs @ ys)"
    by (rule list_inv_remove[OF inv]) (use \<sigma>' in simp_all)
  with \<sigma>' show ?thesis by blast
qed

section \<open>Operations at an index\<close>

lemma split_at: "k < length ns \<Longrightarrow> ns = take k ns @ (fst (ns ! k), snd (ns ! k)) # drop (Suc k) ns"
  by (simp add: Cons_nth_drop_Suc)

lemma sint_small:
  assumes "unat (idx :: u32) < 2 ^ 31"
  shows "sint idx = int (unat idx)"
proof -
  have "int (unat idx) < 2 ^ 31" using assms by (metis of_nat_less_iff of_nat_numeral of_nat_power)
  then have "uint idx < 2 ^ 31" by simp
  then have "signed_take_bit 31 (uint idx) = uint idx"
    by (intro signed_take_bit_int_eq_self) (use uint_ge_0[of idx] in linarith)+
  then show ?thesis by (simp add: sint_uint)
qed

lemma iterator_move_run:
  fixes idx :: u32
  assumes inv: "list_inv \<sigma> ns" and idx: "unat idx < 2 ^ 31" and it: "l_it \<sigma> = l_first \<sigma>"
  shows "no_os_iterator_move (Some Internal) (sint idx) \<sigma> =
    (if unat idx < length ns then Inr (0, \<sigma>\<lparr>l_it := Some (fst (ns ! unat idx))\<rparr>) else Inr (-1, \<sigma>))"
proof -
  have s: "sint idx = int (unat idx)" by (rule sint_small[OF idx])
  have inv': "seg (elems \<sigma>) None ns None" "l_first \<sigma> = heado ns None" using inv by (auto simp: list_inv_def)
  have w: "walk True (unat idx) (heado ns None) \<sigma> = Inr (heado (drop (unat idx) ns) None, \<sigma>)"
    by (rule walk_forward[OF inv'(1)])
  have h: "heado (drop (unat idx) ns) None = (if unat idx < length ns then Some (fst (ns ! unat idx)) else None)"
    by (simp add: Cons_nth_drop_Suc[symmetric])
  have "- (2 ^ 31) < int (unat idx)" by (rule less_le_trans[of _ 0], simp, rule of_nat_0_le_iff)
  then have i: "int (unat idx) \<noteq> - (2 ^ 31)" by (rule less_imp_neq[THEN not_sym])
  show ?thesis
    unfolding no_os_iterator_move_def s abs32_def
    using it inv'(2) w h i by (simp add: bindm_unfold run_simps)
qed

lemma seek_idx_run:
  assumes inv: "list_inv \<sigma> ns" and idx: "unat idx < 2 ^ 31"
  shows "\<exists>\<sigma>1. seek_idx idx \<sigma> = Inr (if unat idx < length ns then 0 else -1, \<sigma>1) \<and> list_inv \<sigma>1 ns \<and>
    same_desc \<sigma> \<sigma>1 \<and> next_addr \<sigma>1 = next_addr \<sigma> \<and>
    (unat idx < length ns \<longrightarrow> l_it \<sigma>1 = Some (fst (ns ! unat idx)))"
  using iterator_move_run[of "\<sigma>\<lparr>l_it := l_first \<sigma>\<rparr>" ns idx] inv idx
  by (auto simp: seek_idx_def bindm_unfold run_simps)

lemma list_inv_edit:
  assumes inv: "list_inv \<sigma> (xs @ (a, d) # ys)"
  shows "list_inv (\<sigma>\<lparr>elems := (elems \<sigma>)(a \<mapsto> (the (elems \<sigma> a))\<lparr>e_data := d'\<rparr>)\<rparr>) (xs @ (a, d') # ys)"
proof -
  let ?h = "(elems \<sigma>)(a \<mapsto> (the (elems \<sigma> a))\<lparr>e_data := d'\<rparr>)"
  have s: "seg (elems \<sigma>) None xs (Some a)" "seg (elems \<sigma>) (Some a) ys None"
    and n: "elems \<sigma> a = Some \<lparr>e_data = d, e_prev = lasto None xs, e_next = heado ys None\<rparr>"
    and fresh: "a \<notin> fst ` set xs" "a \<notin> fst ` set ys"
    using inv by (auto simp: list_inv_def seg_append)
  have "seg ?h None xs (Some a)" by (rule seg_frame[OF s(1)]) (use fresh in auto)
  moreover have "seg ?h (Some a) ys None" by (rule seg_frame[OF s(2)]) (use fresh in auto)
  ultimately show ?thesis
    using inv n by (auto simp: list_inv_def seg_append)
qed

lemma iterator_edit_run:
  assumes inv: "list_inv \<sigma> (xs @ (a, d) # ys)" and it: "l_it \<sigma> = Some a"
  shows "\<exists>\<sigma>'. no_os_iterator_edit (Some Internal) d' \<sigma> = Inr (0, \<sigma>') \<and> list_inv \<sigma>' (xs @ (a, d') # ys) \<and> same_desc \<sigma> \<sigma>'"
  using list_inv_edit[OF inv, of d'] list_inv_node[OF inv] it
  by (simp add: no_os_iterator_edit_def bindm_unfold run_simps store_elem_def same_desc_def)

lemma iterator_read_run:
  assumes inv: "list_inv \<sigma> (xs @ (a, d) # ys)" and it: "l_it \<sigma> = Some a"
  shows "no_os_iterator_read (Some Internal) Valid \<sigma> = Inr ((0, Some d), \<sigma>)"
  using list_inv_node[OF inv] it
  by (simp add: no_os_iterator_read_def bindm_unfold run_simps load_elem_def)

section \<open>The interface of the adapters\<close>

text \<open>
  A push and a pop that implement a collection, seen as the list \<open>xs\<close> of its elements
  in the order they will be popped: a push inserts at the place \<open>ins\<close> says, a pop
  takes the first, and pops nothing from an empty collection.
\<close>

locale list_adapter =
  fixes push_op :: "arg \<Rightarrow> 'd \<Rightarrow> ('d, int) lm"
    and pop_op :: "arg \<Rightarrow> arg \<Rightarrow> ('d, int \<times> 'd option) lm"
    and ins :: "('d \<Rightarrow> 'd \<Rightarrow> int) \<Rightarrow> 'd \<Rightarrow> 'd list \<Rightarrow> 'd list"
    and view :: "'d list_state \<Rightarrow> 'd list \<Rightarrow> bool"
  assumes push_run: "view \<sigma> xs \<Longrightarrow> alloc_ok \<sigma> (next_addr \<sigma>) \<Longrightarrow> Suc (length xs) < 2 ^ 31 \<Longrightarrow>
      \<exists>\<sigma>'. push_op Valid d \<sigma> = Inr (0, \<sigma>') \<and> view \<sigma>' (ins (comparator \<sigma>) d xs) \<and> same_desc \<sigma> \<sigma>'"
    and pop_run: "view \<sigma> (x # xs) \<Longrightarrow>
      \<exists>\<sigma>'. pop_op Valid Valid \<sigma> = Inr ((0, Some x), \<sigma>') \<and> view \<sigma>' xs \<and> same_desc \<sigma> \<sigma>'"
    and pop_empty: "view \<sigma> [] \<Longrightarrow> pop_op Valid Valid \<sigma> = Inr ((-1, None), \<sigma>)"
    and length_ins: "length (ins c d xs) = Suc (length xs)"

text \<open>Pushing a sequence of values, and popping a number of them.\<close>

fun push_all :: "(arg \<Rightarrow> 'd \<Rightarrow> ('d, int) lm) \<Rightarrow> 'd list \<Rightarrow> ('d, unit) lm" where
  "push_all push_op [] = returnm ()"
| "push_all push_op (d # ds) = bindm (push_op Valid d) (\<lambda>_. push_all push_op ds)"

fun pop_all :: "(arg \<Rightarrow> arg \<Rightarrow> ('d, int \<times> 'd option) lm) \<Rightarrow> nat \<Rightarrow> ('d, 'd option list) lm" where
  "pop_all pop_op 0 = returnm []"
| "pop_all pop_op (Suc n) =
     bindm (pop_op Valid Valid) (\<lambda>r. bindm (pop_all pop_op n) (\<lambda>rs. returnm (snd r # rs)))"

context list_adapter
begin

lemma push_all_run:
  "view \<sigma> xs \<Longrightarrow> \<forall>k. alloc_ok \<sigma> k \<Longrightarrow> length xs + length ds < 2 ^ 31 \<Longrightarrow>
   \<exists>\<sigma>'. push_all push_op ds \<sigma> = Inr ((), \<sigma>') \<and> view \<sigma>' (fold (ins (comparator \<sigma>)) ds xs) \<and> same_desc \<sigma> \<sigma>'"
proof (induction ds arbitrary: \<sigma> xs)
  case Nil
  then show ?case by (auto simp: run_simps)
next
  case (Cons d ds)
  obtain \<sigma>1 where \<sigma>1: "push_op Valid d \<sigma> = Inr (0, \<sigma>1)" "view \<sigma>1 (ins (comparator \<sigma>) d xs)" "same_desc \<sigma> \<sigma>1"
    using push_run[OF Cons.prems(1), of d] Cons.prems by auto
  have "\<exists>\<sigma>'. push_all push_op ds \<sigma>1 = Inr ((), \<sigma>') \<and>
      view \<sigma>' (fold (ins (comparator \<sigma>1)) ds (ins (comparator \<sigma>) d xs)) \<and> same_desc \<sigma>1 \<sigma>'"
    by (rule Cons.IH[OF \<sigma>1(2)]) (use Cons.prems \<sigma>1(3) in \<open>simp_all add: length_ins same_desc_def\<close>)
  then show ?case
    using \<sigma>1 same_desc_trans[OF \<sigma>1(3)] by (auto simp: bindm_unfold same_desc_def)
qed

lemma pop_all_run:
  "view \<sigma> (xs @ ys) \<Longrightarrow> \<exists>\<sigma>'. pop_all pop_op (length xs) \<sigma> = Inr (map Some xs, \<sigma>') \<and> view \<sigma>' ys \<and> same_desc \<sigma> \<sigma>'"
proof (induction xs arbitrary: \<sigma>)
  case Nil
  then show ?case by (auto simp: run_simps)
next
  case (Cons x xs)
  obtain \<sigma>1 where \<sigma>1: "pop_op Valid Valid \<sigma> = Inr ((0, Some x), \<sigma>1)" "view \<sigma>1 (xs @ ys)" "same_desc \<sigma> \<sigma>1"
    using pop_run[of \<sigma> x "xs @ ys"] Cons.prems by auto
  from Cons.IH[OF \<sigma>1(2)] \<sigma>1 same_desc_trans[OF \<sigma>1(3)] show ?case
    by (fastforce simp: bindm_unfold run_simps)
qed

lemma length_fold_ins: "length (fold (ins c) ds xs) = length ds + length xs"
  by (induction ds arbitrary: xs) (simp_all add: length_ins)

lemma push_then_pop:
  assumes "view \<sigma> []" and "\<forall>k. alloc_ok \<sigma> k" and "length ds < 2 ^ 31"
  shows "\<exists>\<sigma>'. bindm (push_all push_op ds) (\<lambda>_. pop_all pop_op (length ds)) \<sigma> =
      Inr (map Some (fold (ins (comparator \<sigma>)) ds []), \<sigma>') \<and> view \<sigma>' [] \<and> same_desc \<sigma> \<sigma>'"
proof -
  obtain \<sigma>1 where \<sigma>1: "push_all push_op ds \<sigma> = Inr ((), \<sigma>1)" "view \<sigma>1 (fold (ins (comparator \<sigma>)) ds [])" "same_desc \<sigma> \<sigma>1"
    using push_all_run[OF assms(1,2), of ds] assms(3) by auto
  with pop_all_run[of \<sigma>1 "fold (ins (comparator \<sigma>)) ds []" "[]"] same_desc_trans[OF \<sigma>1(3)] show ?thesis
    by (auto simp: bindm_unfold length_fold_ins)
qed

end

section \<open>The three adapters\<close>

lemma list_inv_map_Cons:
  "list_inv \<sigma> ns \<Longrightarrow> map snd ns = x # xs \<Longrightarrow> \<exists>a ms. ns = (a, x) # ms \<and> map snd ms = xs"
  by (cases ns) auto

interpretation queue: list_adapter no_os_list_add_last no_os_list_get_first "\<lambda>_ d xs. xs @ [d]" holds
proof
  fix \<sigma> :: "'a list_state" and xs d
  assume "holds \<sigma> xs" "alloc_ok \<sigma> (next_addr \<sigma>)" "Suc (length xs) < 2 ^ 31"
  then obtain ns where "list_inv \<sigma> ns" "map snd ns = xs" "Suc (length ns) < 2 ^ 31" by (auto simp: holds_def)
  with add_last_run[of \<sigma> ns d] \<open>alloc_ok \<sigma> (next_addr \<sigma>)\<close>
  show "\<exists>\<sigma>'. no_os_list_add_last Valid d \<sigma> = Inr (0, \<sigma>') \<and> holds \<sigma>' (xs @ [d]) \<and> same_desc \<sigma> \<sigma>'"
    by (fastforce simp: holds_def)
next
  fix \<sigma> :: "'a list_state" and x xs
  assume "holds \<sigma> (x # xs)"
  then obtain a ms where "list_inv \<sigma> ((a, x) # ms)" "map snd ms = xs"
    using list_inv_map_Cons by (fastforce simp: holds_def)
  with get_first_run[of \<sigma> a x ms]
  show "\<exists>\<sigma>'. no_os_list_get_first Valid Valid \<sigma> = Inr ((0, Some x), \<sigma>') \<and> holds \<sigma>' xs \<and> same_desc \<sigma> \<sigma>'"
    by (auto simp: holds_def)
qed (auto simp: holds_def get_empty)

interpretation stack: list_adapter no_os_list_add_last no_os_list_get_last "\<lambda>_ d xs. d # xs" "\<lambda>\<sigma> xs. holds \<sigma> (rev xs)"
proof
  fix \<sigma> :: "'a list_state" and xs d
  assume "holds \<sigma> (rev xs)" "alloc_ok \<sigma> (next_addr \<sigma>)" "Suc (length xs) < 2 ^ 31"
  then show "\<exists>\<sigma>'. no_os_list_add_last Valid d \<sigma> = Inr (0, \<sigma>') \<and> holds \<sigma>' (rev (d # xs)) \<and> same_desc \<sigma> \<sigma>'"
    using queue.push_run[of \<sigma> "rev xs" d] by simp
next
  fix \<sigma> :: "'a list_state" and x xs
  assume "holds \<sigma> (rev (x # xs))"
  then obtain ns where ns: "list_inv \<sigma> ns" "map snd ns = rev xs @ [x]" by (auto simp: holds_def)
  then obtain ms a where "ns = ms @ [(a, x)]" "map snd ms = rev xs"
    by (cases ns rule: rev_cases) auto
  with ns get_last_run[of \<sigma> ms a x]
  show "\<exists>\<sigma>'. no_os_list_get_last Valid Valid \<sigma> = Inr ((0, Some x), \<sigma>') \<and> holds \<sigma>' (rev xs) \<and> same_desc \<sigma> \<sigma>'"
    by (auto simp: holds_def)
qed (auto simp: holds_def get_empty)

text \<open>In front of the first element that the comparator finds greater.\<close>

definition insert_ordered :: "('d \<Rightarrow> 'd \<Rightarrow> int) \<Rightarrow> 'd \<Rightarrow> 'd list \<Rightarrow> 'd list" where
  "insert_ordered cmp d xs =
     takeWhile (\<lambda>x. \<not> 0 < cmp x d) xs @ d # dropWhile (\<lambda>x. \<not> 0 < cmp x d) xs"

lemma length_insert_ordered: "length (insert_ordered cmp d xs) = Suc (length xs)"
proof -
  have "length xs = length (takeWhile (\<lambda>x. \<not> 0 < cmp x d) xs) + length (dropWhile (\<lambda>x. \<not> 0 < cmp x d) xs)"
    by (metis length_append takeWhile_dropWhile_id)
  then show ?thesis by (simp add: insert_ordered_def)
qed

interpretation priority: list_adapter no_os_list_add_find no_os_list_get_first insert_ordered holds
proof
  fix \<sigma> :: "'a list_state" and xs d
  assume "holds \<sigma> xs" and alloc: "alloc_ok \<sigma> (next_addr \<sigma>)" and "Suc (length xs) < 2 ^ 31"
  then obtain ns where ns: "list_inv \<sigma> ns" "map snd ns = xs" "Suc (length ns) < 2 ^ 31" by (auto simp: holds_def)
  from add_find_run[OF ns(1) alloc ns(3), of d] obtain \<sigma>' where \<sigma>': "no_os_list_add_find Valid d \<sigma> = Inr (0, \<sigma>')"
    "list_inv \<sigma>' (takeWhile (\<lambda>x. \<not> 0 < comparator \<sigma> (snd x) d) ns @ (next_addr \<sigma>, d) #
      dropWhile (\<lambda>x. \<not> 0 < comparator \<sigma> (snd x) d) ns)" "same_desc \<sigma> \<sigma>'" by blast
  have "holds \<sigma>' (insert_ordered (comparator \<sigma>) d xs)"
    unfolding holds_def
    by (rule exI, rule conjI, rule \<sigma>'(2))
      (simp add: insert_ordered_def ns(2)[symmetric] takeWhile_map dropWhile_map comp_def)
  with \<sigma>' show "\<exists>\<sigma>'. no_os_list_add_find Valid d \<sigma> = Inr (0, \<sigma>') \<and>
      holds \<sigma>' (insert_ordered (comparator \<sigma>) d xs) \<and> same_desc \<sigma> \<sigma>'" by blast
next
  fix \<sigma> :: "'a list_state" and x xs
  assume "holds \<sigma> (x # xs)"
  then show "\<exists>\<sigma>'. no_os_list_get_first Valid Valid \<sigma> = Inr ((0, Some x), \<sigma>') \<and> holds \<sigma>' xs \<and> same_desc \<sigma> \<sigma>'"
    by (rule queue.pop_run)
qed (auto simp: queue.pop_empty length_insert_ordered)

section \<open>Properties\<close>

lemma list_init_run:
  assumes "elems \<sigma> = Map.empty" and "\<forall>k. alloc_ok \<sigma> k"
  shows "\<exists>\<sigma>1. no_os_list_init Valid type dflt cmp \<sigma> = Inr ((0, Some (no_os_set_adapter type)), \<sigma>1) \<and>
    holds \<sigma>1 [] \<and> (\<forall>k. alloc_ok \<sigma>1 k) \<and> comparator \<sigma>1 = (case cmp of Some c \<Rightarrow> c | None \<Rightarrow> dflt) \<and> nb_iterators \<sigma>1 = 0"
  using assms
  by (auto simp: no_os_list_init_def list_alloc_def bindm_unfold run_simps Let_def holds_def list_inv_def
      intro!: exI[of _ "[]"] split: option.splits)

lemma holds_Nil_elems: "holds \<sigma> [] \<Longrightarrow> elems \<sigma> = Map.empty"
  by (auto simp: holds_def list_inv_def)

lemma fold_snoc: "fold (\<lambda>d xs. xs @ [d]) ds ys = ys @ ds"
  by (induction ds arbitrary: ys) simp_all

lemma fold_Cons: "fold (\<lambda>d xs. d # xs) ds ys = rev ds @ ys"
  by (induction ds arbitrary: ys) simp_all

text \<open>C12: A new list with the queue adapter gives back the values pushed in the order they
  were pushed, one with the stack adapter, which is also the default, in reverse order;
  afterwards no element is left allocated.\<close>

theorem queue_and_stack:
  assumes "elems \<sigma> = Map.empty" and "\<forall>k. alloc_ok \<sigma> k" and "length ds < 2 ^ 31"
  shows "\<exists>desc \<sigma>1 \<sigma>2. no_os_list_init Valid type dflt cmp \<sigma> = Inr ((0, Some desc), \<sigma>1) \<and>
    (type \<noteq> NO_OS_LIST_PRIORITY_LIST \<longrightarrow>
      bindm (push_all (push desc) ds) (\<lambda>_. pop_all (pop desc) (length ds)) \<sigma>1 =
        Inr (map Some (if type = NO_OS_LIST_QUEUE then ds else rev ds), \<sigma>2) \<and> elems \<sigma>2 = Map.empty)"
proof -
  obtain \<sigma>1 where \<sigma>1: "no_os_list_init Valid type dflt cmp \<sigma> = Inr ((0, Some (no_os_set_adapter type)), \<sigma>1)"
    "holds \<sigma>1 []" "\<forall>k. alloc_ok \<sigma>1 k" using list_init_run[OF assms(1,2)] by blast
  have q: "\<exists>\<sigma>2. bindm (push_all no_os_list_add_last ds) (\<lambda>_. pop_all no_os_list_get_first (length ds)) \<sigma>1 =
      Inr (map Some ds, \<sigma>2) \<and> elems \<sigma>2 = Map.empty"
    using queue.push_then_pop[OF \<sigma>1(2,3) assms(3)] holds_Nil_elems by (auto simp: fold_snoc)
  have s: "\<exists>\<sigma>2. bindm (push_all no_os_list_add_last ds) (\<lambda>_. pop_all no_os_list_get_last (length ds)) \<sigma>1 =
      Inr (map Some (rev ds), \<sigma>2) \<and> elems \<sigma>2 = Map.empty"
    using stack.push_then_pop[of \<sigma>1 ds] \<sigma>1 assms(3) holds_Nil_elems by (auto simp: fold_Cons)
  show ?thesis
    using \<sigma>1(1) q s by (cases type) (simp_all add: no_os_set_adapter_def)
qed

definition test_list :: "nat list_state" where
  "test_list = \<lparr>elems = Map.empty, alive = False, l_first = None, l_last = None, nb_elements = 0,
     comparator = \<lambda>a b. int a - int b, nb_iterators = 0, l_it = None, iters = Map.empty, next_addr = 0,
     alloc_ok = \<lambda>_. True\<rparr>"

lemma test_list_simps: "elems test_list = Map.empty" "\<forall>k. alloc_ok test_list k"
  by (simp_all add: test_list_def)

theorem queue_and_stack_witness:
  "\<exists>desc \<sigma>1 \<sigma>2. no_os_list_init Valid NO_OS_LIST_STACK (\<lambda>_ _. 0) None test_list = Inr ((0, Some desc), \<sigma>1) \<and>
    bindm (push_all (push desc) [1, 2, 3]) (\<lambda>_. pop_all (pop desc) (length [1, 2, 3::nat])) \<sigma>1 = Inr (map Some [3, 2, 1], \<sigma>2)"
  using queue_and_stack[OF test_list_simps, of "[1, 2, 3]" NO_OS_LIST_STACK "\<lambda>_ _. 0" None]
  by (auto simp del: push_all.simps pop_all.simps)

text \<open>The insertion of the priority adapter, iterated, is a stable sort.\<close>

lemma insert_ordered_sorted:
  fixes key :: "'d \<Rightarrow> 'k::linorder"
  assumes c: "\<And>x y. 0 < cmp x y \<longleftrightarrow> key y < key x" and s: "sorted (map key xs)"
  shows "sorted (map key (insert_ordered cmp d xs))"
    and "mset (insert_ordered cmp d xs) = add_mset d (mset xs)"
    and "filter (\<lambda>x. key x = k) (insert_ordered cmp d xs) = filter (\<lambda>x. key x = k) xs @ (if key d = k then [d] else [])"
proof -
  let ?P = "\<lambda>x. \<not> key d < key x"
  have ins: "insert_ordered cmp d xs = takeWhile ?P xs @ d # dropWhile ?P xs"
    by (simp add: insert_ordered_def c)
  have split: "sorted (map key (takeWhile ?P xs))" "sorted (map key (dropWhile ?P xs))"
    using s sorted_append[of "map key (takeWhile ?P xs)" "map key (dropWhile ?P xs)"]
    by (simp_all add: map_append[symmetric] del: map_append)
  have dw: "key d < key x" if x: "x \<in> set (dropWhile ?P xs)" for x
  proof -
    obtain y ys where y: "dropWhile ?P xs = y # ys" using x by (cases "dropWhile ?P xs") simp_all
    then have "key d < key y" using hd_dropWhile[of ?P xs] by simp
    moreover have "key y \<le> key x" using split(2) x by (auto simp: y)
    ultimately show ?thesis by (rule less_le_trans)
  qed
  have tw: "key x \<le> key d" if "x \<in> set (takeWhile ?P xs)" for x
    using set_takeWhileD[OF that] by (simp add: not_less)
  have join: "sorted (map key (A @ d # B))" if "sorted (map key A)" "sorted (map key B)"
    "\<And>x. x \<in> set A \<Longrightarrow> key x \<le> key d" "\<And>x. x \<in> set B \<Longrightarrow> key d < key x" for A B
    using that by (fastforce simp: sorted_append intro: less_imp_le order_trans)
  show "sorted (map key (insert_ordered cmp d xs))"
    unfolding ins by (rule join[OF split tw dw])
  have "mset xs = mset (takeWhile ?P xs) + mset (dropWhile ?P xs)"
    by (simp only: mset_append[symmetric] takeWhile_dropWhile_id)
  then show "mset (insert_ordered cmp d xs) = add_mset d (mset xs)" unfolding ins by simp
  have f: "filter (\<lambda>x. key x = k) xs = filter (\<lambda>x. key x = k) (takeWhile ?P xs) @ filter (\<lambda>x. key x = k) (dropWhile ?P xs)"
    by (simp only: filter_append[symmetric] takeWhile_dropWhile_id)
  show "filter (\<lambda>x. key x = k) (insert_ordered cmp d xs) = filter (\<lambda>x. key x = k) xs @ (if key d = k then [d] else [])"
  proof (cases "key d = k")
    case True
    have "filter (\<lambda>x. key x = k) (dropWhile ?P xs) = []"
    proof (rule filter_False, rule ballI)
      fix x assume "x \<in> set (dropWhile ?P xs)"
      from dw[OF this] True show "key x \<noteq> k" by auto
    qed
    with True show ?thesis unfolding f ins by simp
  next
    case False
    then show ?thesis unfolding f ins by simp
  qed
qed

lemma fold_insert_ordered:
  fixes key :: "'d \<Rightarrow> 'k::linorder"
  assumes c: "\<And>x y. 0 < cmp x y \<longleftrightarrow> key y < key x"
  shows "fold (insert_ordered cmp) ds [] = sort_key key ds"
proof -
  have main: "sorted (map key xs) \<Longrightarrow> sorted (map key (fold (insert_ordered cmp) ds xs)) \<and>
      mset (fold (insert_ordered cmp) ds xs) = mset xs + mset ds \<and>
      filter (\<lambda>x. key x = k) (fold (insert_ordered cmp) ds xs) = filter (\<lambda>x. key x = k) xs @ filter (\<lambda>x. key x = k) ds"
    for xs k
  proof (induction ds arbitrary: xs)
    case (Cons d ds)
    from Cons.IH[OF insert_ordered_sorted(1)[OF c Cons.prems], of d] show ?case
      by (simp add: insert_ordered_sorted(2,3)[OF c Cons.prems])
  qed simp
  show ?thesis
  proof (rule sym[OF properties_for_sort_key])
    show "mset (fold (insert_ordered cmp) ds []) = mset ds" using main[of "[]"] by simp
    show "sorted (map key (fold (insert_ordered cmp) ds []))" using main[of "[]"] by simp
    show "filter (\<lambda>x. key k = key x) (fold (insert_ordered cmp) ds []) = filter (\<lambda>x. key k = key x) ds" for k
      using main[of "[]" "key k"] by (simp add: eq_commute[of "key k"])
  qed
qed

text \<open>C13: A list with the priority adapter and a comparator that compares a key gives back
  the values pushed sorted by the key, equal keys in the order they were pushed.\<close>

theorem priority_list_sorts:
  fixes key :: "'d \<Rightarrow> 'k::linorder"
  assumes "elems \<sigma> = Map.empty" and "\<forall>k. alloc_ok \<sigma> k" and "length ds < 2 ^ 31"
    and "\<And>x y. 0 < cmp x y \<longleftrightarrow> key y < key x"
  shows "\<exists>desc \<sigma>1 \<sigma>2. no_os_list_init Valid NO_OS_LIST_PRIORITY_LIST dflt (Some cmp) \<sigma> = Inr ((0, Some desc), \<sigma>1) \<and>
      bindm (push_all (push desc) ds) (\<lambda>_. pop_all (pop desc) (length ds)) \<sigma>1 =
        Inr (map Some (sort_key key ds), \<sigma>2) \<and> elems \<sigma>2 = Map.empty"
proof -
  obtain \<sigma>1 where \<sigma>1: "no_os_list_init Valid NO_OS_LIST_PRIORITY_LIST dflt (Some cmp) \<sigma> =
      Inr ((0, Some (no_os_set_adapter NO_OS_LIST_PRIORITY_LIST)), \<sigma>1)"
    "holds \<sigma>1 []" "\<forall>k. alloc_ok \<sigma>1 k" "comparator \<sigma>1 = cmp" using list_init_run[OF assms(1,2)] by fastforce
  have "\<exists>\<sigma>2. bindm (push_all no_os_list_add_find ds) (\<lambda>_. pop_all no_os_list_get_first (length ds)) \<sigma>1 =
      Inr (map Some (sort_key key ds), \<sigma>2) \<and> elems \<sigma>2 = Map.empty"
    using priority.push_then_pop[OF \<sigma>1(2,3) assms(3)] holds_Nil_elems
    by (auto simp: \<sigma>1(4) fold_insert_ordered[OF assms(4)])
  with \<sigma>1(1) show ?thesis by (simp add: no_os_set_adapter_def)
qed

theorem priority_list_sorts_witness:
  "\<exists>desc \<sigma>1 \<sigma>2. no_os_list_init Valid NO_OS_LIST_PRIORITY_LIST (\<lambda>_ _. 0) (Some (\<lambda>a b. int a - int b)) test_list =
      Inr ((0, Some desc), \<sigma>1) \<and>
    bindm (push_all (push desc) [3, 1, 2]) (\<lambda>_. pop_all (pop desc) (length [3, 1, 2::nat])) \<sigma>1 = Inr (map Some [1, 2, 3], \<sigma>2)"
  using priority_list_sorts[OF test_list_simps, of "[3, 1, 2]" "\<lambda>a b. int a - int b" "\<lambda>a. a" "\<lambda>_ _. 0"]
  by (auto simp del: push_all.simps pop_all.simps)

end
