(* ===== verification/NoOs_List_Theorems.thy ===== *)
theory NoOs_List_Theorems
  imports NoOs_List_Refine
begin

text \<open>
  Properties of the linked list that are not about its adapters: the operations at an
  index are those of HOL lists, removing through an iterator, removing the list, and the
  behaviour on empty lists and on indices that are negative as an \<open>int32_t\<close>.
\<close>

section \<open>Operations at an index\<close>

lemma list_inv_at:
  "list_inv \<sigma> ns \<Longrightarrow> k < length ns \<Longrightarrow> list_inv \<sigma> (take k ns @ (fst (ns ! k), snd (ns ! k)) # drop (Suc k) ns)"
  by (simp only: split_at[symmetric])

lemma read_idx_run:
  assumes inv: "list_inv \<sigma> ns" and idx: "unat idx < length ns"
  shows "\<exists>\<sigma>'. no_os_list_read_idx Valid Valid idx \<sigma> = Inr ((0, Some (snd (ns ! unat idx))), \<sigma>') \<and> list_inv \<sigma>' ns"
proof -
  have small: "unat idx < 2 ^ 31" using inv idx by (auto simp: list_inv_def)
  from seek_idx_run[OF inv small] idx obtain \<sigma>1 where \<sigma>1: "seek_idx idx \<sigma> = Inr (0, \<sigma>1)" "list_inv \<sigma>1 ns"
    "l_it \<sigma>1 = Some (fst (ns ! unat idx))" by auto
  have n: "\<not> nb_elements \<sigma> \<le> idx"
    using idx unat_nb_elements[OF inv] by (simp add: word_le_nat_alt)
  note r = iterator_read_run[OF list_inv_at[OF \<sigma>1(2) idx] \<sigma>1(3)]
  show ?thesis
    using \<sigma>1(1,2) n r by (simp add: no_os_list_read_idx_def bindm_unfold run_simps)
qed

lemma edit_idx_run:
  assumes inv: "list_inv \<sigma> ns" and idx: "unat idx < length ns"
  shows "\<exists>\<sigma>'. no_os_list_edit_idx Valid d idx \<sigma> = Inr (0, \<sigma>') \<and>
    list_inv \<sigma>' (ns[unat idx := (fst (ns ! unat idx), d)])"
proof -
  have small: "unat idx < 2 ^ 31" using inv idx by (auto simp: list_inv_def)
  from seek_idx_run[OF inv small] idx obtain \<sigma>1 where \<sigma>1: "seek_idx idx \<sigma> = Inr (0, \<sigma>1)" "list_inv \<sigma>1 ns"
    "l_it \<sigma>1 = Some (fst (ns ! unat idx))" by auto
  from iterator_edit_run[OF list_inv_at[OF \<sigma>1(2) idx] \<sigma>1(3), of d] show ?thesis
    using \<sigma>1(1) by (auto simp: no_os_list_edit_idx_def bindm_unfold run_simps upd_conv_take_nth_drop[OF idx])
qed

lemma get_idx_run:
  assumes inv: "list_inv \<sigma> ns" and idx: "unat idx < length ns"
  shows "\<exists>\<sigma>'. no_os_list_get_idx Valid Valid idx \<sigma> = Inr ((0, Some (snd (ns ! unat idx))), \<sigma>') \<and>
    list_inv \<sigma>' (take (unat idx) ns @ drop (Suc (unat idx)) ns)"
proof -
  have small: "unat idx < 2 ^ 31" using inv idx by (auto simp: list_inv_def)
  from seek_idx_run[OF inv small] idx obtain \<sigma>1 where \<sigma>1: "seek_idx idx \<sigma> = Inr (0, \<sigma>1)" "list_inv \<sigma>1 ns"
    "l_it \<sigma>1 = Some (fst (ns ! unat idx))" by auto
  from iterator_get_run[OF list_inv_at[OF \<sigma>1(2) idx], of Internal] \<sigma>1(1,3) show ?thesis
    by (auto simp: no_os_list_get_idx_def bindm_unfold run_simps iter_live_def iter_at_def)
qed

lemma add_idx_run:
  assumes inv: "list_inv \<sigma> ns" and idx: "unat idx \<le> length ns"
    and alloc: "\<forall>k. alloc_ok \<sigma> k" and room: "Suc (length ns) < 2 ^ 31"
  shows "\<exists>\<sigma>' a. no_os_list_add_idx Valid d idx \<sigma> = Inr (0, \<sigma>') \<and>
    list_inv \<sigma>' (take (unat idx) ns @ (a, d) # drop (unat idx) ns)"
proof -
  note alloc' = alloc[rule_format]
  consider "idx = 0" | "idx \<noteq> 0" "unat idx = length ns" | "idx \<noteq> 0" "unat idx < length ns"
    using idx by linarith
  then show ?thesis
  proof cases
    case 1
    with add_first_run[OF inv alloc' room, of d] show ?thesis
      by (auto simp: no_os_list_add_idx_def bindm_unfold run_simps)
  next
    case 2
    then have "nb_elements \<sigma> = idx" using unat_nb_elements[OF inv] by (simp add: word_unat_eq_iff)
    with 2 add_last_run[OF inv alloc' room, of d] show ?thesis
      by (auto simp: no_os_list_add_idx_def bindm_unfold run_simps)
  next
    case 3
    have small: "unat idx < 2 ^ 31" using inv idx by (auto simp: list_inv_def)
    from seek_idx_run[OF inv small] 3 obtain \<sigma>1 where \<sigma>1: "seek_idx idx \<sigma> = Inr (0, \<sigma>1)" "list_inv \<sigma>1 ns"
      "l_it \<sigma>1 = Some (fst (ns ! unat idx))" "same_desc \<sigma> \<sigma>1" by auto
    have n: "nb_elements \<sigma> \<noteq> 0" "nb_elements \<sigma> \<noteq> idx"
      using 3 unat_nb_elements[OF inv] by (auto simp: word_unat_eq_iff)
    have hd: "l_it \<sigma>1 = heado (drop (unat idx) ns) None" "drop (unat idx) ns \<noteq> []"
      using \<sigma>1(3) 3(2) by (simp_all add: Cons_nth_drop_Suc[symmetric])
    have "\<exists>\<sigma>'. no_os_iterator_insert (Some Internal) d False \<sigma>1 = Inr (0, \<sigma>') \<and>
        list_inv \<sigma>' (take (unat idx) ns @ (next_addr \<sigma>1, d) # drop (unat idx) ns) \<and> same_desc \<sigma>1 \<sigma>'"
      by (rule insert_before_run[OF _ hd]) (use \<sigma>1 alloc room in \<open>simp_all add: same_desc_def\<close>)
    with 3 n \<sigma>1(1) show ?thesis
      by (auto simp: no_os_list_add_idx_def seek_idx_def bindm_assoc bindm_unfold run_simps split: sum.splits)
  qed
qed

text \<open>On a list that holds \<open>xs\<close>, the operations at an index \<open>idx\<close> of the list do what
  they say: reading gives the element, editing replaces it, getting removes it and gives it
  back, and adding puts the new element in front of it, or at the end when \<open>idx\<close> is the
  number of elements.\<close>

theorem index_operations:
  assumes "holds \<sigma> xs" and "unat idx < length xs" and "unat pos \<le> length xs"
    and "\<forall>k. alloc_ok \<sigma> k" and "Suc (length xs) < 2 ^ 31"
  shows "(\<exists>\<sigma>'. no_os_list_read_idx Valid Valid idx \<sigma> = Inr ((0, Some (xs ! unat idx)), \<sigma>') \<and> holds \<sigma>' xs) \<and>
    (\<exists>\<sigma>'. no_os_list_edit_idx Valid d idx \<sigma> = Inr (0, \<sigma>') \<and> holds \<sigma>' (xs[unat idx := d])) \<and>
    (\<exists>\<sigma>'. no_os_list_get_idx Valid Valid idx \<sigma> = Inr ((0, Some (xs ! unat idx)), \<sigma>') \<and>
      holds \<sigma>' (take (unat idx) xs @ drop (Suc (unat idx)) xs)) \<and>
    (\<exists>\<sigma>'. no_os_list_add_idx Valid d pos \<sigma> = Inr (0, \<sigma>') \<and> holds \<sigma>' (take (unat pos) xs @ d # drop (unat pos) xs))"
proof -
  obtain ns where ns: "list_inv \<sigma> ns" "map snd ns = xs" using assms(1) by (auto simp: holds_def)
  have len: "unat idx < length ns" "unat pos \<le> length ns" "Suc (length ns) < 2 ^ 31"
    using ns(2) assms by auto
  have upd: "map snd (ns[unat idx := (fst (ns ! unat idx), d)]) = xs[unat idx := d]"
    using ns(2) by (auto simp: map_update)
  show ?thesis
    using read_idx_run[OF ns(1) len(1)] edit_idx_run[OF ns(1) len(1), of d] get_idx_run[OF ns(1) len(1)]
      add_idx_run[OF ns(1) len(2) assms(4) len(3), of d] len(1) upd
    unfolding holds_def
    by (intro conjI) (force simp: ns(2)[symmetric] take_map drop_map)+
qed

definition three :: "nat list_state" where
  "three = \<lparr>elems = [0 \<mapsto> \<lparr>e_data = 10, e_prev = None, e_next = Some 1\<rparr>,
       1 \<mapsto> \<lparr>e_data = 20, e_prev = Some 0, e_next = Some 2\<rparr>, 2 \<mapsto> \<lparr>e_data = 30, e_prev = Some 1, e_next = None\<rparr>],
     alive = True, l_first = Some 0, l_last = Some 2, nb_elements = 3, comparator = \<lambda>a b. int a - int b,
     nb_iterators = 0, l_it = Some 2, iters = Map.empty, next_addr = 3, alloc_ok = \<lambda>_. True\<rparr>"

lemma three_inv: "list_inv three [(0, 10), (1, 20), (2, 30)]"
  by (auto simp: list_inv_def three_def lasto_def)

lemma three_holds: "holds three [10, 20, 30]" "\<forall>k. alloc_ok three k" "Suc (length [10::nat, 20, 30]) < 2 ^ 31"
  using three_inv by (force simp: holds_def, simp_all add: three_def)

theorem index_operations_witness:
  "(\<exists>\<sigma>'. no_os_list_edit_idx Valid 25 1 three = Inr (0, \<sigma>') \<and> holds \<sigma>' [10, 25, 30]) \<and>
   (\<exists>\<sigma>'. no_os_list_add_idx Valid 25 2 three = Inr (0, \<sigma>') \<and> holds \<sigma>' [10, 20, 25, 30])"
  using index_operations[OF three_holds(1) _ _ three_holds(2,3), of 1 2 25] by simp

section \<open>Removing through an iterator\<close>

text \<open>Removing the element \<open>k\<close> through an iterator that stands on it gives back its
  value, takes exactly that element out of the list, and leaves the iterator on the element
  that followed it; after the last element the iterator stands on nothing.\<close>

theorem iterator_get_advances:
  assumes "list_inv \<sigma> ns" and "k < length ns" and "iter_live it \<sigma>" and "iter_at it \<sigma> = Some (fst (ns ! k))"
  shows "\<exists>\<sigma>'. no_os_iterator_get (Some it) Valid \<sigma> = Inr ((0, Some (snd (ns ! k))), \<sigma>') \<and>
    list_inv \<sigma>' (take k ns @ drop (Suc k) ns) \<and>
    iter_at it \<sigma>' = (if Suc k < length ns then Some (fst (ns ! Suc k)) else None)"
proof -
  have "heado (drop (Suc k) ns) None = (if Suc k < length ns then Some (fst (ns ! Suc k)) else None)"
    by (simp add: Cons_nth_drop_Suc[symmetric])
  with iterator_get_run[OF list_inv_at[OF assms(1,2)] assms(3,4)] show ?thesis by auto
qed

theorem iterator_get_advances_witness:
  "\<exists>\<sigma>'. no_os_iterator_get (Some Internal) Valid three = Inr ((0, Some 30), \<sigma>') \<and>
    list_inv \<sigma>' [(0, 10), (1, 20)] \<and> iter_at Internal \<sigma>' = None"
proof -
  have "iter_live Internal three" "iter_at Internal three = Some (fst ([(0, 10), (1, 20), (2::nat, 30::nat)] ! 2))"
    by (simp_all add: iter_live_def iter_at_def three_def)
  from iterator_get_advances[OF three_inv _ this] show ?thesis by (simp add: numeral_2_eq_2)
qed

section \<open>Removing the list\<close>

lemma drain_run:
  "list_inv \<sigma> ns \<Longrightarrow> \<exists>\<sigma>'. drain (Suc (length ns)) \<sigma> = Inr ((), \<sigma>') \<and> list_inv \<sigma>' [] \<and> same_desc \<sigma> \<sigma>'"
proof (induction ns arbitrary: \<sigma>)
  case Nil
  then show ?case by (auto simp: bindm_unfold run_simps get_empty)
next
  case (Cons n ns)
  obtain a d where n: "n = (a, d)" by (cases n)
  from get_first_run[of \<sigma> a d ns] Cons.prems obtain \<sigma>1 where
    \<sigma>1: "no_os_list_get_first Valid Valid \<sigma> = Inr ((0, Some d), \<sigma>1)" "list_inv \<sigma>1 ns" "same_desc \<sigma> \<sigma>1"
    unfolding n by auto
  from Cons.IH[OF \<sigma>1(2)] show ?case
    using \<sigma>1 same_desc_trans[OF \<sigma>1(3)] by (auto simp: bindm_unfold run_simps simp del: drain.simps(2) simp: drain.simps(2)[of "Suc (length ns)"])
qed

text \<open>Removing a list without iterators frees every element and the descriptors; while
  there is an iterator it is refused and nothing changes.\<close>

theorem list_remove_frees_all:
  assumes "holds \<sigma> xs"
  shows "\<exists>\<sigma>'. no_os_list_remove Valid \<sigma> = Inr (if nb_iterators \<sigma> = 0 then 0 else -1, \<sigma>') \<and>
    (if nb_iterators \<sigma> = 0 then elems \<sigma>' = Map.empty \<and> \<not> alive \<sigma>' else \<sigma>' = \<sigma>)"
proof -
  obtain ns where ns: "list_inv \<sigma> ns" using assms by (auto simp: holds_def)
  obtain \<sigma>1 where \<sigma>1: "drain (Suc (length ns)) \<sigma> = Inr ((), \<sigma>1)" "list_inv \<sigma>1 []"
    using drain_run[OF ns] by blast
  have "elems \<sigma>1 = Map.empty" using \<sigma>1(2) by (simp add: list_inv_def)
  with \<sigma>1(1) show ?thesis
    by (auto simp: no_os_list_remove_def bindm_unfold run_simps unat_nb_elements[OF ns] simp del: drain.simps)
qed

theorem list_remove_frees_all_witness:
  "\<exists>\<sigma>'. no_os_list_remove Valid three = Inr (0, \<sigma>') \<and> elems \<sigma>' = Map.empty \<and> \<not> alive \<sigma>'"
  using list_remove_frees_all[OF three_holds(1)] by (simp add: three_def)

section \<open>Where the list is not total\<close>

text \<open>Exchanging the next element of an empty list (the \<open>swap\<close> of every adapter)
  dereferences a null pointer, although reading and popping are refused there; and the
  operations at an index take the absolute value of \<open>INT32_MIN\<close> for the index
  \<open>0x80000000\<close>, whatever the list holds, unless the number of elements is tested first.\<close>

theorem list_partial_operations:
  assumes "list_inv \<sigma> ns"
  shows "(ns = [] \<longrightarrow> no_os_list_edit_first Valid d \<sigma> = Inl Null_Deref \<and> no_os_list_edit_last Valid d \<sigma> = Inl Null_Deref \<and>
      no_os_list_read_first Valid Valid \<sigma> = Inr ((-1, None), \<sigma>) \<and> no_os_list_get_first Valid Valid \<sigma> = Inr ((-1, None), \<sigma>)) \<and>
    no_os_list_edit_idx Valid d 0x80000000 \<sigma> = Inl Signed_Overflow \<and>
    no_os_list_get_idx Valid Valid 0x80000000 \<sigma> = Inl Signed_Overflow \<and>
    no_os_list_read_idx Valid Valid 0x80000000 \<sigma> = Inr ((-1, None), \<sigma>)"
proof -
  have s: "sint (0x80000000 :: u32) = - (2 ^ 31)" by simp
  have seek: "seek_idx 0x80000000 \<sigma> = Inl Signed_Overflow"
    by (simp add: seek_idx_def no_os_iterator_move_def abs32_def bindm_unfold run_simps s set_it_elem_def)
  have "unat (nb_elements \<sigma>) < unat (0x80000000 :: u32)"
    using assms unat_nb_elements[OF assms] by (simp add: list_inv_def)
  then have "nb_elements \<sigma> \<le> 0x80000000" by (simp add: word_le_nat_alt)
  moreover have "ns = [] \<Longrightarrow> l_first \<sigma> = None \<and> l_last \<sigma> = None" using assms by (simp add: list_inv_def)
  ultimately show ?thesis
    using seek get_empty[of \<sigma>] assms
    by (auto simp: no_os_list_edit_first_def no_os_list_edit_last_def no_os_list_read_first_def
        no_os_list_edit_idx_def no_os_list_get_idx_def no_os_list_read_idx_def bindm_unfold run_simps)
qed

theorem list_partial_operations_witness:
  "no_os_list_get_idx Valid Valid 0x80000000 three = Inl Signed_Overflow"
  using list_partial_operations[OF three_inv] by simp

end
