(* ===== verification/List_Heap.thy ===== *)
theory List_Heap
  imports NoOs_List_Theorems CMem
begin

text \<open>
  Lists of \<open>no_os_list.c\<close> in a larger program: a driver keeps a pointer to the descriptor of a
  list, and calls the functions of the list through it. Each list is a state of \<open>NoOs_List\<close> of
  its own; \<open>heap\<close> and \<open>put\<close> read and write the map from descriptors to lists in the state of
  the driver. A call on a descriptor that was freed is a fault; on a null descriptor the
  functions of the list decide themselves.
\<close>

definition blank_list :: "(nat \<Rightarrow> bool) \<Rightarrow> 'd list_state" where
  "blank_list ok = \<lparr>elems = Map.empty, alive = False, l_first = None, l_last = None, nb_elements = 0,
     comparator = \<lambda>_ _. 0, nb_iterators = 0, l_it = None, iters = Map.empty, next_addr = 0, alloc_ok = ok\<rparr>"

text \<open>\<open>cmp\<close> is the comparator of the list as it reads the state now.\<close>

definition run_list ::
  "('s \<Rightarrow> nat \<Rightarrow> 'd list_state option) \<Rightarrow> ((nat \<Rightarrow> 'd list_state option) \<Rightarrow> 's \<Rightarrow> 's) \<Rightarrow>
   ('s \<Rightarrow> 'd \<Rightarrow> 'd \<Rightarrow> int) \<Rightarrow> nat option \<Rightarrow> (arg \<Rightarrow> ('d, 'a) lm) \<Rightarrow> ('s, 'a) cm" where
  "run_list heap put cmp p f \<sigma> =
     (case p of
        None \<Rightarrow> map_sum id (\<lambda>(r, _). (r, \<sigma>)) (f Null (blank_list (\<lambda>_. True)))
      | Some k \<Rightarrow>
          (case heap \<sigma> k of
             None \<Rightarrow> Inl Dangling
           | Some l \<Rightarrow>
               if alive l
               then map_sum id (\<lambda>(r, l'). (r, put ((heap \<sigma>)(k \<mapsto> l')) \<sigma>)) (f Valid (l\<lparr>comparator := cmp \<sigma>\<rparr>))
               else Inl Dangling))"

lemma holds_comparator [simp]: "holds (l\<lparr>comparator := c\<rparr>) xs = holds l xs"
  by (simp add: holds_def list_inv_def)

lemma holds_alive: "holds l xs \<Longrightarrow> alive l"
  by (auto simp: holds_def list_inv_def)

text \<open>Pointer \<open>p\<close> leads to a list that holds \<open>xs\<close> and has no iterators of the user.\<close>

definition held :: "(nat \<Rightarrow> 'd list_state option) \<Rightarrow> (nat \<Rightarrow> nat \<Rightarrow> bool) \<Rightarrow> nat option \<Rightarrow> 'd list \<Rightarrow> bool" where
  "held h ok p xs \<longleftrightarrow>
     (\<exists>k l. p = Some k \<and> h k = Some l \<and> holds l xs \<and> nb_iterators l = 0 \<and> alloc_ok l = ok k)"

definition list_gone :: "(nat \<Rightarrow> 'd list_state option) \<Rightarrow> nat option \<Rightarrow> bool" where
  "list_gone h p \<longleftrightarrow> (\<exists>k l. p = Some k \<and> h k = Some l \<and> \<not> alive l)"

lemma run_list_gone: "list_gone (heap \<sigma>) p \<Longrightarrow> run_list heap put cmp p f \<sigma> = Inl Dangling"
  by (auto simp: list_gone_def run_list_def)

text \<open>An operation that keeps what the descriptor holds.\<close>

lemma run_list_ok:
  assumes "held (heap \<sigma>) ok p xs"
    and "\<And>l. holds l xs \<Longrightarrow> nb_iterators l = 0 \<Longrightarrow> comparator l = cmp \<sigma> \<Longrightarrow> alloc_ok l = ok (the p) \<Longrightarrow>
      \<exists>l'. f Valid l = Inr (r, l') \<and> holds l' xs' \<and> same_desc l l'"
  shows "\<exists>l'. run_list heap put cmp p f \<sigma> = Inr (r, put ((heap \<sigma>)(the p \<mapsto> l')) \<sigma>) \<and>
    held ((heap \<sigma>)(the p \<mapsto> l')) ok p xs'"
proof -
  obtain k l where l: "p = Some k" "heap \<sigma> k = Some l" "holds l xs" "nb_iterators l = 0" "alloc_ok l = ok k"
    using assms(1) by (auto simp: held_def)
  let ?l = "l\<lparr>comparator := cmp \<sigma>\<rparr>"
  have "\<exists>l'. f Valid ?l = Inr (r, l') \<and> holds l' xs' \<and> same_desc ?l l'"
    by (rule assms(2)) (use l in simp_all)
  then obtain l' where "f Valid ?l = Inr (r, l')" "holds l' xs'" "same_desc ?l l'" by blast
  then show ?thesis
    using l holds_alive[OF l(3)] by (auto simp: run_list_def held_def same_desc_def)
qed

lemma run_list_remove:
  assumes "held (heap \<sigma>) ok p xs"
  shows "\<exists>l'. run_list heap put cmp p no_os_list_remove \<sigma> = Inr (0, put ((heap \<sigma>)(the p \<mapsto> l')) \<sigma>) \<and>
    list_gone ((heap \<sigma>)(the p \<mapsto> l')) p"
proof -
  obtain k l where l: "p = Some k" "heap \<sigma> k = Some l" "holds l xs" "nb_iterators l = 0"
    using assms by (auto simp: held_def)
  let ?l = "l\<lparr>comparator := cmp \<sigma>\<rparr>"
  have "holds ?l xs" using l(3) by simp
  then obtain ns where ns: "list_inv ?l ns" by (auto simp: holds_def)
  from drain_run[OF ns] unat_nb_elements[OF ns] l(4) obtain l' where
    "no_os_list_remove Valid ?l = Inr (0, l'\<lparr>alive := False\<rparr>)"
    by (auto simp: no_os_list_remove_def bindm_unfold run_simps simp del: drain.simps)
  then show ?thesis
    using l holds_alive[OF l(3)] by (auto simp: run_list_def list_gone_def)
qed

section \<open>Creating a list\<close>

text \<open>\<open>no_os_list_init(&p, type, cmp)\<close>: the new value of \<open>p\<close>, which keeps its old one on failure.\<close>

definition new_list ::
  "('s \<Rightarrow> nat \<Rightarrow> 'd list_state option) \<Rightarrow> ((nat \<Rightarrow> 'd list_state option) \<Rightarrow> 's \<Rightarrow> 's) \<Rightarrow> ('s \<Rightarrow> nat) \<Rightarrow>
   (nat \<Rightarrow> 's \<Rightarrow> 's) \<Rightarrow> (nat \<Rightarrow> nat \<Rightarrow> bool) \<Rightarrow> no_os_adapter_type \<Rightarrow> ('d \<Rightarrow> 'd \<Rightarrow> int) \<Rightarrow> nat option \<Rightarrow>
   ('s, int \<times> nat option) cm" where
  "new_list heap put nxt set_nxt ok type cmp p \<sigma> =
     (let k = nxt \<sigma> in
      map_sum id (\<lambda>((ret, _), l).
        if ret = 0 then ((0, Some k), set_nxt (Suc k) (put ((heap \<sigma>)(k \<mapsto> l)) \<sigma>))
        else ((ret, p), set_nxt (Suc k) \<sigma>))
        (no_os_list_init Valid type cmp (Some cmp) (blank_list (ok k))))"

lemma new_list_ok:
  assumes "\<forall>i. ok (nxt \<sigma>) i"
  shows "\<exists>l. new_list heap put nxt set_nxt ok type cmp p \<sigma> =
      Inr ((0, Some (nxt \<sigma>)), set_nxt (Suc (nxt \<sigma>)) (put ((heap \<sigma>)(nxt \<sigma> \<mapsto> l)) \<sigma>)) \<and>
    held ((heap \<sigma>)(nxt \<sigma> \<mapsto> l)) ok (Some (nxt \<sigma>)) []"
proof -
  let ?l = "blank_list (ok (nxt \<sigma>)) :: 'b list_state"
  have "elems ?l = Map.empty" "\<forall>k. alloc_ok ?l k" using assms by (simp_all add: blank_list_def)
  from list_init_run[OF this, of type cmp "Some cmp"] obtain l where
    "no_os_list_init Valid type cmp (Some cmp) ?l = Inr ((0, Some (no_os_set_adapter type)), l)"
    "holds l []" "\<forall>k. alloc_ok l k" "nb_iterators l = 0" by blast
  moreover from this(3) assms have "alloc_ok l = ok (nxt \<sigma>)" by auto
  ultimately show ?thesis by (auto simp: new_list_def Let_def held_def)
qed

end
