(* ===== verification/Rtos.thy ===== *)
theory Rtos
  imports CMem
begin

text \<open>
  The FreeRTOS objects the drivers synchronise on, and the no-OS wrappers around them
  (\<open>freertos_mutex.c\<close>, \<open>freertos_semaphore.c\<close>). A binary semaphore is a \<open>Queue_t\<close> with item
  size 0 and length 1; its only state is \<open>uxMessagesWaiting\<close>, 0 or 1. Taking an empty
  semaphore with \<open>portMAX_DELAY\<close> suspends the task: in the model of one task that is the
  fault \<^const>\<open>Blocks\<close>; the interleaving of several tasks is the step relation \<open>task_step\<close>,
  in which a task that would block has no step. The kernel's critical sections make each
  operation on a semaphore one step.
\<close>

section \<open>State\<close>

record rtos = cmem +
  sems :: "nat \<Rightarrow> nat option"          \<comment> \<open>\<open>Queue_t\<close> objects: \<open>uxMessagesWaiting\<close>\<close>
  handle_cells :: "nat \<Rightarrow> ptr option"   \<comment> \<open>allocated \<open>SemaphoreHandle_t\<close> variables\<close>

abbreviation (input) "sizeof_Queue_t \<equiv> 72 :: nat"
abbreviation (input) "sizeof_SemaphoreHandle_t \<equiv> 4 :: nat"

section \<open>Kernel semaphores (\<open>queue.c\<close>)\<close>

text \<open>
  The \<open>Queue_t\<close> behind a handle. A null handle stops the firmware in \<open>configASSERT\<close>; a
  pointer to a handle variable is no queue, reading its fields leaves the four bytes.
\<close>

definition queue_of :: "ptr \<Rightarrow> ('z rtos_scheme, nat) cm" where
  "queue_of h \<sigma> =
     (case h of
        NULL \<Rightarrow> Inl Null_Deref
      | Ptr b i \<Rightarrow> if handle_cells \<sigma> b \<noteq> None then Inl Out_Of_Bounds else deref sems h \<sigma>)"

definition xSemaphoreCreateBinary :: "('z rtos_scheme, ptr) cm" where
  "xSemaphoreCreateBinary = new_obj sizeof_Queue_t (\<lambda>b \<sigma>. \<sigma>\<lparr>sems := (sems \<sigma>)(b \<mapsto> 0)\<rparr>)"

definition xSemaphoreGive :: "ptr \<Rightarrow> ('z rtos_scheme, bool) cm" where
  "xSemaphoreGive h =
     bindm (queue_of h) (\<lambda>uxMessagesWaiting.
     if uxMessagesWaiting < 1
     then bindm (modifym (\<lambda>\<sigma>. \<sigma>\<lparr>sems := (sems \<sigma>)(block_of h \<mapsto> uxMessagesWaiting + 1)\<rparr>)) (\<lambda>_. returnm True)
     else returnm False)"

definition xSemaphoreTake :: "ptr \<Rightarrow> ('z rtos_scheme, bool) cm" where
  "xSemaphoreTake h =
     bindm (queue_of h) (\<lambda>uxMessagesWaiting.
     if uxMessagesWaiting > 0
     then bindm (modifym (\<lambda>\<sigma>. \<sigma>\<lparr>sems := (sems \<sigma>)(block_of h \<mapsto> uxMessagesWaiting - 1)\<rparr>)) (\<lambda>_. returnm True)
     else failm Blocks)"

definition vSemaphoreDelete :: "ptr \<Rightarrow> ('z rtos_scheme, unit) cm" where
  "vSemaphoreDelete h =
     bindm (queue_of h) (\<lambda>_. modifym (\<lambda>\<sigma>. \<sigma>\<lparr>sems := (sems \<sigma>)(block_of h := None)\<rparr>))"

section \<open>no-OS mutexes (\<open>freertos_mutex.c\<close>)\<close>

definition handle_calloc :: "('z rtos_scheme, ptr) cm" where
  "handle_calloc = new_obj sizeof_SemaphoreHandle_t (\<lambda>b \<sigma>. \<sigma>\<lparr>handle_cells := (handle_cells \<sigma>)(b \<mapsto> NULL)\<rparr>)"

text \<open>The argument and the result are the contents of \<open>*mutex\<close>.\<close>

definition no_os_mutex_init :: "ptr \<Rightarrow> ('z rtos_scheme, ptr) cm" where
  "no_os_mutex_init mutex =
     (if mutex = NULL then
        bindm handle_calloc (\<lambda>mutexTmp.
        bindm xSemaphoreCreateBinary (\<lambda>mutex.
        bindm (xSemaphoreGive mutex) (\<lambda>_. returnm mutex)))
      else returnm mutex)"

definition no_os_mutex_lock :: "ptr \<Rightarrow> ('z rtos_scheme, unit) cm" where
  "no_os_mutex_lock mutex =
     (if mutex \<noteq> NULL then bindm (xSemaphoreTake mutex) (\<lambda>_. returnm ()) else returnm ())"

definition no_os_mutex_unlock :: "ptr \<Rightarrow> ('z rtos_scheme, unit) cm" where
  "no_os_mutex_unlock mutex =
     (if mutex \<noteq> NULL then bindm (xSemaphoreGive mutex) (\<lambda>_. returnm ()) else returnm ())"

definition no_os_mutex_remove :: "ptr \<Rightarrow> ('z rtos_scheme, unit) cm" where
  "no_os_mutex_remove mutex = (if mutex \<noteq> NULL then vSemaphoreDelete mutex else returnm ())"

section \<open>no-OS semaphores (\<open>freertos_semaphore.c\<close>)\<close>

definition no_os_semaphore_init :: "ptr \<Rightarrow> ('z rtos_scheme, ptr) cm" where
  "no_os_semaphore_init semaphore =
     (if semaphore = NULL then
        bindm handle_calloc (\<lambda>semaphoreTmp.
        bindm xSemaphoreCreateBinary (\<lambda>h.
        bindm (deref handle_cells semaphoreTmp) (\<lambda>_.
        bindm (modifym (\<lambda>\<sigma>. \<sigma>\<lparr>handle_cells := (handle_cells \<sigma>)(block_of semaphoreTmp \<mapsto> h)\<rparr>)) (\<lambda>_.
        returnm semaphoreTmp))))
      else returnm semaphore)"

definition no_os_semaphore_take :: "ptr \<Rightarrow> ('z rtos_scheme, unit) cm" where
  "no_os_semaphore_take semaphore =
     (if semaphore \<noteq> NULL then bindm (xSemaphoreTake semaphore) (\<lambda>_. returnm ()) else returnm ())"

definition no_os_semaphore_give :: "ptr \<Rightarrow> ('z rtos_scheme, unit) cm" where
  "no_os_semaphore_give semaphore =
     (if semaphore \<noteq> NULL then bindm (xSemaphoreGive semaphore) (\<lambda>_. returnm ()) else returnm ())"

definition no_os_semaphore_remove :: "ptr \<Rightarrow> ('z rtos_scheme, unit) cm" where
  "no_os_semaphore_remove semaphore =
     (if semaphore \<noteq> NULL then bindm (deref handle_cells semaphore) vSemaphoreDelete else returnm ())"

section \<open>Running the operations\<close>

text \<open>A mutex that exists, free or taken.\<close>

definition mutex_count :: "'z rtos_scheme \<Rightarrow> ptr \<Rightarrow> nat option" where
  "mutex_count \<sigma> m =
     (case m of Ptr b 0 \<Rightarrow> if handle_cells \<sigma> b = None then sems \<sigma> b else None | _ \<Rightarrow> None)"

abbreviation mutex_free :: "'z rtos_scheme \<Rightarrow> ptr \<Rightarrow> bool" where
  "mutex_free \<sigma> m \<equiv> mutex_count \<sigma> m = Some 1"

abbreviation mutex_taken :: "'z rtos_scheme \<Rightarrow> ptr \<Rightarrow> bool" where
  "mutex_taken \<sigma> m \<equiv> mutex_count \<sigma> m = Some 0"

definition set_count :: "ptr \<Rightarrow> nat \<Rightarrow> 'z rtos_scheme \<Rightarrow> 'z rtos_scheme" where
  "set_count m n \<sigma> = \<sigma>\<lparr>sems := (sems \<sigma>)(block_of m \<mapsto> n)\<rparr>"

lemma mutex_countD:
  "mutex_count \<sigma> m = Some n \<Longrightarrow> \<exists>b. m = Ptr b 0 \<and> handle_cells \<sigma> b = None \<and> sems \<sigma> b = Some n"
  by (auto simp: mutex_count_def split: ptr.splits nat.splits if_splits)

lemma mutex_count_cong: "sems \<sigma>' = sems \<sigma> \<Longrightarrow> handle_cells \<sigma>' = handle_cells \<sigma> \<Longrightarrow> mutex_count \<sigma>' m = mutex_count \<sigma> m"
  by (auto simp: mutex_count_def split: ptr.splits nat.splits)

lemma queue_of_mutex: "mutex_count \<sigma> m = Some n \<Longrightarrow> queue_of m \<sigma> = Inr (n, \<sigma>)"
  by (auto dest!: mutex_countD simp: queue_of_def run_simps)

lemma mutex_count_not_NULL [simp]: "mutex_count \<sigma> NULL = None"
  by (simp add: mutex_count_def)

lemma mutex_lock_ok:
  assumes "mutex_free \<sigma> m"
  shows "no_os_mutex_lock m \<sigma> = Inr ((), set_count m 0 \<sigma>)"
  using assms by (auto simp: no_os_mutex_lock_def xSemaphoreTake_def bindm_unfold queue_of_mutex run_simps set_count_def)

lemma mutex_lock_blocks:
  assumes "mutex_taken \<sigma> m"
  shows "no_os_mutex_lock m \<sigma> = Inl Blocks"
  using assms by (auto simp: no_os_mutex_lock_def xSemaphoreTake_def bindm_unfold queue_of_mutex run_simps)

lemma mutex_unlock_ok:
  assumes "mutex_taken \<sigma> m"
  shows "no_os_mutex_unlock m \<sigma> = Inr ((), set_count m 1 \<sigma>)"
  using assms by (auto simp: no_os_mutex_unlock_def xSemaphoreGive_def bindm_unfold queue_of_mutex run_simps set_count_def)

lemma mutex_unlock_free:
  assumes "mutex_free \<sigma> m"
  shows "no_os_mutex_unlock m \<sigma> = Inr ((), \<sigma>)"
  using assms by (auto simp: no_os_mutex_unlock_def xSemaphoreGive_def bindm_unfold queue_of_mutex run_simps)

lemma mutex_remove_ok:
  assumes "mutex_count \<sigma> m = Some n"
  shows "no_os_mutex_remove m \<sigma> = Inr ((), \<sigma>\<lparr>sems := (sems \<sigma>)(block_of m := None)\<rparr>)"
  using assms by (auto simp: no_os_mutex_remove_def vSemaphoreDelete_def bindm_unfold queue_of_mutex run_simps)

lemma mutex_count_set [simp]:
  assumes "mutex_count \<sigma> m = Some k"
  shows "mutex_count (set_count m n \<sigma>) m = Some n"
  using mutex_countD[OF assms] by (auto simp: mutex_count_def set_count_def)

lemma set_count_simps [simp]:
  "blocks (set_count m n \<sigma>) = blocks \<sigma>" "next_block (set_count m n \<sigma>) = next_block \<sigma>"
  "grants (set_count m n \<sigma>) = grants \<sigma>" "junk (set_count m n \<sigma>) = junk \<sigma>"
  "handle_cells (set_count m n \<sigma>) = handle_cells \<sigma>" "rtos.more (set_count m n \<sigma>) = rtos.more \<sigma>"
  by (simp_all add: set_count_def)

lemma set_count_same: "mutex_count \<sigma> m = Some n \<Longrightarrow> set_count m n \<sigma> = \<sigma>"
  by (auto dest!: mutex_countD simp: set_count_def fun_upd_idem)

lemma set_count_set_count [simp]: "set_count m n (set_count m k \<sigma>) = set_count m n \<sigma>"
  by (simp add: set_count_def)

text \<open>Block numbers to come are used by no object.\<close>

definition fresh_rtos :: "'z rtos_scheme \<Rightarrow> bool" where
  "fresh_rtos \<sigma> \<longleftrightarrow> (\<forall>b \<ge> next_block \<sigma>. sems \<sigma> b = None \<and> handle_cells \<sigma> b = None)"

text \<open>Making a mutex: the handle variable it allocates first, and the mutex.\<close>

definition after_mutex_init :: "'z rtos_scheme \<Rightarrow> 'z rtos_scheme" where
  "after_mutex_init \<sigma> =
     (let n = next_block \<sigma> in
      \<sigma>\<lparr>next_block := Suc (Suc n),
        handle_cells := (if grants \<sigma> n sizeof_SemaphoreHandle_t then (handle_cells \<sigma>)(n \<mapsto> NULL) else handle_cells \<sigma>),
        sems := (sems \<sigma>)(Suc n \<mapsto> 1)\<rparr>)"

lemma mutex_init_ok:
  assumes "fresh_rtos \<sigma>" and "grants \<sigma> (Suc (next_block \<sigma>)) sizeof_Queue_t"
  shows "no_os_mutex_init NULL \<sigma> = Inr (Ptr (Suc (next_block \<sigma>)) 0, after_mutex_init \<sigma>)"
  using assms
  by (cases "grants \<sigma> (next_block \<sigma>) sizeof_SemaphoreHandle_t")
    (auto simp: no_os_mutex_init_def handle_calloc_def xSemaphoreCreateBinary_def xSemaphoreGive_def bindm_unfold
      new_obj_ok new_obj_refused run_simps queue_of_def deref_def fresh_rtos_def after_mutex_init_def Let_def)

lemma mutex_init_refused:
  assumes "\<not> grants \<sigma> (Suc (next_block \<sigma>)) sizeof_Queue_t"
  shows "no_os_mutex_init NULL \<sigma> = Inl Null_Deref"
  using assms
  by (cases "grants \<sigma> (next_block \<sigma>) sizeof_SemaphoreHandle_t")
    (auto simp: no_os_mutex_init_def handle_calloc_def xSemaphoreCreateBinary_def xSemaphoreGive_def bindm_unfold
      new_obj_ok new_obj_refused run_simps queue_of_def)

lemma mutex_init_exists [simp]: "m \<noteq> NULL \<Longrightarrow> no_os_mutex_init m \<sigma> = Inr (m, \<sigma>)"
  by (simp add: no_os_mutex_init_def run_simps)

lemma mutex_count_after_init:
  "fresh_rtos \<sigma> \<Longrightarrow> mutex_free (after_mutex_init \<sigma>) (Ptr (Suc (next_block \<sigma>)) 0)"
  by (simp add: mutex_count_def after_mutex_init_def Let_def fresh_rtos_def)

lemma fresh_after_init: "fresh_rtos \<sigma> \<Longrightarrow> fresh_rtos (after_mutex_init \<sigma>)"
  by (simp add: fresh_rtos_def after_mutex_init_def Let_def)

end
