(* ===== verification/NoOs_Irq.thy ===== *)
theory NoOs_Irq
  imports Rtos
begin

text \<open>
  Interrupt controllers: the generic interface of no-OS (\<open>api/no_os_irq.c\<close>), which counts
  the users of a controller and dispatches to a table of platform operations. The
  descriptors of controllers are typed objects of the heap, as in the other drivers; a
  table is named by its address and a parameter \<open>T\<close> maps addresses to tables. A function
  pointer to a callback is a number, as is the context it is called with.
\<close>

section \<open>Data\<close>

datatype no_os_irq_event =
  NO_OS_EVT_GPIO | NO_OS_EVT_UART_TX_COMPLETE | NO_OS_EVT_UART_RX_COMPLETE | NO_OS_EVT_UART_ERROR | NO_OS_EVT_RTC
| NO_OS_EVT_XINT | NO_OS_EVT_TIM_ELAPSED | NO_OS_EVT_TIM_PWM_PULSE_FINISHED | NO_OS_EVT_DMA_RX_COMPLETE
| NO_OS_EVT_DMA_RX_HALF_COMPLETE | NO_OS_EVT_DMA_TX_COMPLETE | NO_OS_EVT_USB

datatype no_os_irq_trig_level =
  NO_OS_IRQ_LEVEL_LOW | NO_OS_IRQ_LEVEL_HIGH | NO_OS_IRQ_EDGE_FALLING | NO_OS_IRQ_EDGE_RISING | NO_OS_IRQ_EDGE_BOTH

datatype no_os_irq_peripheral =
  NO_OS_GPIO_IRQ | NO_OS_UART_IRQ | NO_OS_RTC_IRQ | NO_OS_TIM_IRQ | NO_OS_TDM_DMA_IRQ | NO_OS_TIM_DMA_IRQ
| NO_OS_SPI_DMA_IRQ | NO_OS_DMA_IRQ | NO_OS_USB_IRQ

text \<open>The type \<open>'x\<close> is that of the platform's own initialisation parameters.\<close>

record 'x no_os_irq_init_param =
  ip_irq_ctrl_id :: u32
  ip_platform_ops :: "nat option"
  ip_extra :: "'x option"

record no_os_irq_ctrl_desc =
  irq_ctrl_id :: u32
  iq_platform_ops :: "nat option"
  iq_ref :: u32
  iq_extra :: ptr

record no_os_callback_desc =
  cb_callback :: "nat option"
  cb_ctx :: nat
  cb_event :: no_os_irq_event
  cb_peripheral :: no_os_irq_peripheral
  cb_handle :: nat

record irq_state = rtos +
  idescs :: "nat \<Rightarrow> no_os_irq_ctrl_desc option"

text \<open>The operations of a platform; \<open>None\<close> is a null function pointer, and a null pointer to a
  callback descriptor is \<open>None\<close>.\<close>

record ('s, 'x) irq_platform_ops =
  irq_ops_init :: "(ptr option \<Rightarrow> 'x no_os_irq_init_param option \<Rightarrow> ('s, int \<times> ptr option) cm) option"
  irq_ops_register_callback :: "(ptr \<Rightarrow> u32 \<Rightarrow> no_os_callback_desc option \<Rightarrow> ('s, int) cm) option"
  irq_ops_unregister_callback :: "(ptr \<Rightarrow> u32 \<Rightarrow> no_os_callback_desc option \<Rightarrow> ('s, int) cm) option"
  irq_ops_global_enable :: "(ptr \<Rightarrow> ('s, int) cm) option"
  irq_ops_global_disable :: "(ptr \<Rightarrow> ('s, int) cm) option"
  irq_ops_trigger_level_set :: "(ptr \<Rightarrow> u32 \<Rightarrow> no_os_irq_trig_level \<Rightarrow> ('s, int) cm) option"
  irq_ops_enable :: "(ptr \<Rightarrow> u32 \<Rightarrow> ('s, int) cm) option"
  irq_ops_disable :: "(ptr \<Rightarrow> u32 \<Rightarrow> ('s, int) cm) option"
  irq_ops_set_priority :: "(ptr \<Rightarrow> u32 \<Rightarrow> u32 \<Rightarrow> ('s, int) cm) option"
  irq_ops_remove :: "(ptr \<Rightarrow> ('s, int) cm) option"
  irq_ops_clear_pending :: "(ptr \<Rightarrow> u32 \<Rightarrow> ('s, int) cm) option"

section \<open>Creating and removing controllers\<close>

definition put_idesc :: "ptr \<Rightarrow> (no_os_irq_ctrl_desc \<Rightarrow> no_os_irq_ctrl_desc) \<Rightarrow> ('z irq_state_scheme, unit) cm" where
  "put_idesc p f =
     bindm (deref idescs p) (\<lambda>d. modifym (\<lambda>\<sigma>. \<sigma>\<lparr>idescs := (idescs \<sigma>)(block_of p \<mapsto> f d)\<rparr>))"

definition no_os_irq_ctrl_init ::
  "(nat \<Rightarrow> ('z irq_state_scheme, 'x) irq_platform_ops) \<Rightarrow> ptr option \<Rightarrow> 'x no_os_irq_init_param option \<Rightarrow>
   ('z irq_state_scheme, int \<times> ptr option) cm" where
  "no_os_irq_ctrl_init T desc param =
     (case param of None \<Rightarrow> returnm (- EINVAL, desc) | Some pr \<Rightarrow>
      case ip_platform_ops pr of None \<Rightarrow> returnm (- EINVAL, desc) | Some ops \<Rightarrow>
      case irq_ops_init (T ops) of None \<Rightarrow> returnm (- ENOSYS, desc) | Some f \<Rightarrow>
      bindm (f desc param) (\<lambda>(ret, desc).
      if ret \<noteq> 0 then returnm (ret, desc)
      else
        case desc of None \<Rightarrow> failm Null_Deref | Some p \<Rightarrow>
        bindm (put_idesc p (\<lambda>d. d\<lparr>iq_platform_ops := Some ops, iq_ref := iq_ref d + 1\<rparr>)) (\<lambda>_. returnm (0, desc))))"

text \<open>The tests all the other operations make.\<close>

definition irq_call ::
  "(nat \<Rightarrow> ('z irq_state_scheme, 'x) irq_platform_ops) \<Rightarrow> ptr \<Rightarrow>
   (('z irq_state_scheme, 'x) irq_platform_ops \<Rightarrow> 'f option) \<Rightarrow> ('f \<Rightarrow> ('z irq_state_scheme, int) cm) \<Rightarrow>
   ('z irq_state_scheme, int) cm" where
  "irq_call T desc sel k =
     (if desc = NULL then returnm (- EINVAL)
      else
        bindm (deref idescs desc) (\<lambda>d.
        case iq_platform_ops d of None \<Rightarrow> returnm (- EINVAL) | Some ops \<Rightarrow>
        case sel (T ops) of None \<Rightarrow> returnm (- ENOSYS) | Some f \<Rightarrow> k f))"

definition no_os_irq_ctrl_remove ::
  "(nat \<Rightarrow> ('z irq_state_scheme, 'x) irq_platform_ops) \<Rightarrow> ptr \<Rightarrow> ('z irq_state_scheme, int) cm" where
  "no_os_irq_ctrl_remove T desc =
     irq_call T desc irq_ops_remove (\<lambda>f.
       bindm (put_idesc desc (\<lambda>d. d\<lparr>iq_ref := iq_ref d - 1\<rparr>)) (\<lambda>_.
       bindm (deref idescs desc) (\<lambda>d.
       if iq_ref d \<noteq> 0 then returnm 0 else f desc)))"

section \<open>Dispatch\<close>

definition no_os_irq_register_callback ::
  "(nat \<Rightarrow> ('z irq_state_scheme, 'x) irq_platform_ops) \<Rightarrow> ptr \<Rightarrow> u32 \<Rightarrow> no_os_callback_desc option \<Rightarrow>
   ('z irq_state_scheme, int) cm" where
  "no_os_irq_register_callback T desc irq_id callback =
     irq_call T desc irq_ops_register_callback (\<lambda>f. f desc irq_id callback)"

definition no_os_irq_unregister_callback ::
  "(nat \<Rightarrow> ('z irq_state_scheme, 'x) irq_platform_ops) \<Rightarrow> ptr \<Rightarrow> u32 \<Rightarrow> no_os_callback_desc option \<Rightarrow>
   ('z irq_state_scheme, int) cm" where
  "no_os_irq_unregister_callback T desc irq_id callback =
     irq_call T desc irq_ops_unregister_callback (\<lambda>f. f desc irq_id callback)"

definition no_os_irq_global_enable ::
  "(nat \<Rightarrow> ('z irq_state_scheme, 'x) irq_platform_ops) \<Rightarrow> ptr \<Rightarrow> ('z irq_state_scheme, int) cm" where
  "no_os_irq_global_enable T desc = irq_call T desc irq_ops_global_enable (\<lambda>f. f desc)"

definition no_os_irq_global_disable ::
  "(nat \<Rightarrow> ('z irq_state_scheme, 'x) irq_platform_ops) \<Rightarrow> ptr \<Rightarrow> ('z irq_state_scheme, int) cm" where
  "no_os_irq_global_disable T desc = irq_call T desc irq_ops_global_disable (\<lambda>f. f desc)"

definition no_os_irq_trigger_level_set ::
  "(nat \<Rightarrow> ('z irq_state_scheme, 'x) irq_platform_ops) \<Rightarrow> ptr \<Rightarrow> u32 \<Rightarrow> no_os_irq_trig_level \<Rightarrow>
   ('z irq_state_scheme, int) cm" where
  "no_os_irq_trigger_level_set T desc irq_id trig =
     irq_call T desc irq_ops_trigger_level_set (\<lambda>f. f desc irq_id trig)"

definition no_os_irq_enable ::
  "(nat \<Rightarrow> ('z irq_state_scheme, 'x) irq_platform_ops) \<Rightarrow> ptr \<Rightarrow> u32 \<Rightarrow> ('z irq_state_scheme, int) cm" where
  "no_os_irq_enable T desc irq_id = irq_call T desc irq_ops_enable (\<lambda>f. f desc irq_id)"

definition no_os_irq_disable ::
  "(nat \<Rightarrow> ('z irq_state_scheme, 'x) irq_platform_ops) \<Rightarrow> ptr \<Rightarrow> u32 \<Rightarrow> ('z irq_state_scheme, int) cm" where
  "no_os_irq_disable T desc irq_id = irq_call T desc irq_ops_disable (\<lambda>f. f desc irq_id)"

definition no_os_irq_set_priority ::
  "(nat \<Rightarrow> ('z irq_state_scheme, 'x) irq_platform_ops) \<Rightarrow> ptr \<Rightarrow> u32 \<Rightarrow> u32 \<Rightarrow> ('z irq_state_scheme, int) cm" where
  "no_os_irq_set_priority T desc irq_id priority_level =
     irq_call T desc irq_ops_set_priority (\<lambda>f. f desc irq_id priority_level)"

definition no_os_irq_clear_pending ::
  "(nat \<Rightarrow> ('z irq_state_scheme, 'x) irq_platform_ops) \<Rightarrow> ptr \<Rightarrow> u32 \<Rightarrow> ('z irq_state_scheme, int) cm" where
  "no_os_irq_clear_pending T desc irq_id = irq_call T desc irq_ops_clear_pending (\<lambda>f. f desc irq_id)"

section \<open>Running\<close>

lemma irq_call_ok:
  assumes "idescs \<sigma> b = Some d" and "iq_platform_ops d = Some ops" and "sel (T ops) = Some f"
  shows "irq_call T (Ptr b 0) sel k \<sigma> = k f \<sigma>"
  using assms by (simp add: irq_call_def bindm_unfold deref_def)

lemma irq_call_NULL: "irq_call T NULL sel k \<sigma> = Inr (- EINVAL, \<sigma>)"
  by (simp add: irq_call_def run_simps)

lemma put_idesc_ok:
  "idescs \<sigma> b = Some d \<Longrightarrow> put_idesc (Ptr b 0) f \<sigma> = Inr ((), \<sigma>\<lparr>idescs := (idescs \<sigma>)(b \<mapsto> f d)\<rparr>)"
  by (simp add: put_idesc_def bindm_unfold deref_def run_simps)

end
