(* ===== verification/Stm32_Exti.thy ===== *)
theory Stm32_Exti
  imports NoOs_Util
begin

text \<open>
  The registers that route a pin to an interrupt, and the HAL functions the driver of
  pin interrupts sets them with: the lines of the EXTI (\<open>stm32l4xx_hal_exti.c\<close>), the pending
  bit an interrupt handler tests (\<open>stm32l4xx_hal_gpio.c\<close>), and the enable bits and
  priorities of the NVIC (\<open>core_cm4.h\<close>). A register that exists once per bank of 32 lines is
  a function of the number of the bank. \<open>assert_param\<close> is empty in this build
  (\<open>USE_FULL_ASSERT\<close> is not defined). Writing ones to \<open>PR1\<close> clears them.
\<close>

section \<open>Registers\<close>

record exti =
  RTSR :: "nat \<Rightarrow> u32"
  FTSR :: "nat \<Rightarrow> u32"
  IMR :: "nat \<Rightarrow> u32"
  EMR :: "nat \<Rightarrow> u32"
  PR1 :: u32
  EXTICR :: "nat \<Rightarrow> u32"          \<comment> \<open>of \<open>SYSCFG\<close>: four bits for each of the 16 lines\<close>
  nvic_on :: "int \<Rightarrow> bool"        \<comment> \<open>the bits of \<open>ISER\<close>\<close>
  nvic_priority :: "int \<Rightarrow> u8"

record EXTI_ConfigTypeDef =
  Line :: u32
  ex_Mode :: u32
  Trigger :: u32
  GPIOSel :: u32

abbreviation (input) "EXTI_CONFIG \<equiv> 0x02000000 :: u32"
abbreviation (input) "EXTI_GPIO \<equiv> 0x06000000 :: u32"
abbreviation (input) "EXTI_REG_MASK \<equiv> 0x00010000 :: u32"
abbreviation (input) "EXTI_PIN_MASK \<equiv> 0x1F :: u32"
abbreviation (input) "EXTI_MODE_NONE \<equiv> 0 :: u32"
abbreviation (input) "EXTI_MODE_INTERRUPT \<equiv> 1 :: u32"
abbreviation (input) "EXTI_MODE_EVENT \<equiv> 2 :: u32"
abbreviation (input) "EXTI_TRIGGER_NONE \<equiv> 0 :: u32"
abbreviation (input) "EXTI_TRIGGER_RISING \<equiv> 1 :: u32"
abbreviation (input) "EXTI_TRIGGER_FALLING \<equiv> 2 :: u32"
abbreviation (input) "EXTI_TRIGGER_RISING_FALLING \<equiv> 3 :: u32"

text \<open>The ports of the STM32L4S5 are A to I, the pins 0 to 15.\<close>

definition IS_EXTI_GPIO_PORT :: "u8 \<Rightarrow> bool" where
  "IS_EXTI_GPIO_PORT port \<longleftrightarrow> port \<le> 8"

definition IS_EXTI_GPIO_PIN :: "u32 \<Rightarrow> bool" where
  "IS_EXTI_GPIO_PIN pin \<longleftrightarrow> pin < 16"

section \<open>Configuring a line\<close>

text \<open>The bank of a line, its number in the bank, and masking or setting its bit.\<close>

definition exti_offset :: "u32 \<Rightarrow> nat" where
  "exti_offset line = unat (drop_bit 16 (line AND EXTI_REG_MASK))"

definition exti_linepos :: "u32 \<Rightarrow> nat" where
  "exti_linepos line = unat (line AND EXTI_PIN_MASK)"

definition put_line :: "nat \<Rightarrow> bool \<Rightarrow> u32 \<Rightarrow> u32" where
  "put_line linepos on regval =
     (let maskline = push_bit linepos 1 in if on then regval OR maskline else regval AND NOT maskline)"

definition put_port :: "nat \<Rightarrow> u32 \<Rightarrow> (nat \<Rightarrow> u32) \<Rightarrow> nat \<Rightarrow> u32" where
  "put_port linepos sel cr =
     (let i = linepos div 4; s = 4 * (linepos mod 4);
          regval = cr i AND NOT (push_bit s 0xF) in
      cr(i := regval OR push_bit s sel))"

text \<open>The handle holds the line it was configured for last; a null handle is \<open>None\<close>. The
  result is \<open>HAL_OK\<close> (true), the handle and the registers.\<close>

definition HAL_EXTI_SetConfigLine ::
  "u32 option \<Rightarrow> EXTI_ConfigTypeDef option \<Rightarrow> 'z exti_scheme \<Rightarrow> (bool \<times> u32 option) \<times> 'z exti_scheme" where
  "HAL_EXTI_SetConfigLine hexti cfg r =
     (case (hexti, cfg) of
        (Some _, Some c) \<Rightarrow>
          let offset = exti_offset (Line c);
              linepos = exti_linepos (Line c);
              r = (if Line c AND EXTI_CONFIG \<noteq> 0 then
                     let r = r\<lparr>RTSR := (RTSR r)(offset :=
                           put_line linepos (Trigger c AND EXTI_TRIGGER_RISING \<noteq> 0) (RTSR r offset)),
                         FTSR := (FTSR r)(offset :=
                           put_line linepos (Trigger c AND EXTI_TRIGGER_FALLING \<noteq> 0) (FTSR r offset))\<rparr> in
                     if Line c AND EXTI_GPIO = EXTI_GPIO
                     then r\<lparr>EXTICR := put_port linepos (GPIOSel c) (EXTICR r)\<rparr> else r
                   else r) in
          ((True, Some (Line c)),
           r\<lparr>IMR := (IMR r)(offset := put_line linepos (ex_Mode c AND EXTI_MODE_INTERRUPT \<noteq> 0) (IMR r offset)),
             EMR := (EMR r)(offset := put_line linepos (ex_Mode c AND EXTI_MODE_EVENT \<noteq> 0) (EMR r offset))\<rparr>)
      | _ \<Rightarrow> ((False, hexti), r))"

definition line_bit :: "nat \<Rightarrow> u32 \<Rightarrow> bool" where
  "line_bit linepos regval \<longleftrightarrow> regval AND push_bit linepos 1 \<noteq> 0"

definition HAL_EXTI_GetConfigLine :: "u32 option \<Rightarrow> 'z exti_scheme \<Rightarrow> EXTI_ConfigTypeDef option" where
  "HAL_EXTI_GetConfigLine hexti r =
     (case hexti of None \<Rightarrow> None | Some line \<Rightarrow>
      let offset = exti_offset line;
          linepos = exti_linepos line;
          md = (if line_bit linepos (IMR r offset) then EXTI_MODE_INTERRUPT else EXTI_MODE_NONE);
          md = (if line_bit linepos (EMR r offset) then md OR EXTI_MODE_EVENT else md) in
      Some (if line AND EXTI_CONFIG \<noteq> 0 then
              let t = (if line_bit linepos (RTSR r offset) then EXTI_TRIGGER_RISING else EXTI_TRIGGER_NONE);
                  t = (if line_bit linepos (FTSR r offset) then t OR EXTI_TRIGGER_FALLING else t) in
              \<lparr>Line = line, ex_Mode = md, Trigger = t,
               GPIOSel = (if line AND EXTI_GPIO = EXTI_GPIO
                          then drop_bit (4 * (linepos mod 4)) (EXTICR r (linepos div 4)) AND 0xF else 0)\<rparr>
            else \<lparr>Line = line, ex_Mode = md, Trigger = EXTI_TRIGGER_NONE, GPIOSel = 0\<rparr>))"

section \<open>Pending bits and the NVIC\<close>

definition HAL_GPIO_EXTI_GET_IT :: "u32 \<Rightarrow> 'z exti_scheme \<Rightarrow> bool" where
  "HAL_GPIO_EXTI_GET_IT line r \<longleftrightarrow> PR1 r AND line \<noteq> 0"

definition HAL_GPIO_EXTI_CLEAR_IT :: "u32 \<Rightarrow> 'z exti_scheme \<Rightarrow> 'z exti_scheme" where
  "HAL_GPIO_EXTI_CLEAR_IT line r = r\<lparr>PR1 := PR1 r AND NOT line\<rparr>"

definition NVIC_EnableIRQ :: "int \<Rightarrow> 'z exti_scheme \<Rightarrow> 'z exti_scheme" where
  "NVIC_EnableIRQ IRQn r = (if 0 \<le> IRQn then r\<lparr>nvic_on := (nvic_on r)(IRQn := True)\<rparr> else r)"

definition NVIC_DisableIRQ :: "int \<Rightarrow> 'z exti_scheme \<Rightarrow> 'z exti_scheme" where
  "NVIC_DisableIRQ IRQn r = (if 0 \<le> IRQn then r\<lparr>nvic_on := (nvic_on r)(IRQn := False)\<rparr> else r)"

text \<open>Four bits of priority, in the upper half of the byte.\<close>

definition NVIC_SetPriority :: "int \<Rightarrow> u32 \<Rightarrow> 'z exti_scheme \<Rightarrow> 'z exti_scheme" where
  "NVIC_SetPriority IRQn priority r =
     r\<lparr>nvic_priority := (nvic_priority r)(IRQn := ucast (push_bit 4 priority AND 0xFF))\<rparr>"

section \<open>Lemmas\<close>

text \<open>The line of a pin, as the driver writes it.\<close>

definition gpio_line :: "u32 \<Rightarrow> u32" where
  "gpio_line pin = EXTI_GPIO OR pin"

lemma small_pin: "pin < 16 \<Longrightarrow> pin AND 0xF = (pin :: u32)"
proof -
  assume "pin < 16"
  moreover have "mask 4 = (0xF :: u32)" by (simp add: mask_eq_decr_exp)
  moreover have "unat (take_bit 4 pin) = unat pin"
    using \<open>pin < 16\<close> by (simp add: unsigned_take_bit_eq take_bit_nat_eq_self_iff word_less_nat_alt)
  then have "take_bit 4 pin = pin" by (simp add: word_unat_eq_iff)
  ultimately show ?thesis by (metis take_bit_eq_mask)
qed

lemma and_small_pin:
  assumes "pin < 16"
  shows "pin AND m = (pin :: u32) AND (0xF AND m)"
  using small_pin[OF assms] by (metis and.assoc)

lemma gpio_line_fields:
  assumes "IS_EXTI_GPIO_PIN pin"
  shows "exti_offset (gpio_line pin) = 0" "exti_linepos (gpio_line pin) = unat pin"
    "gpio_line pin AND EXTI_GPIO = EXTI_GPIO" "gpio_line pin AND EXTI_CONFIG = EXTI_CONFIG"
proof -
  have "pin < 16" using assms by (simp add: IS_EXTI_GPIO_PIN_def)
  note a = and_small_pin[OF this]
  have "(0xF AND 0x1F :: u32) = 0xF" "(0xF AND 0x10000 :: u32) = 0" "(0xF AND 0x6000000 :: u32) = 0"
    "(0xF AND 0x2000000 :: u32) = 0" by simp_all
  then have "pin AND 0x1F = pin" "pin AND 0x10000 = 0" "pin AND 0x6000000 = 0" "pin AND 0x2000000 = 0"
    using a[of "0x1F"] a[of "0x10000"] a[of "0x6000000"] a[of "0x2000000"] small_pin[OF \<open>pin < 16\<close>] by simp_all
  moreover have "gpio_line pin AND m = (0x6000000 AND m) OR (pin AND m)" for m
    by (simp only: gpio_line_def bit.conj_disj_distrib2)
  ultimately show "exti_offset (gpio_line pin) = 0" "exti_linepos (gpio_line pin) = unat pin"
    "gpio_line pin AND EXTI_GPIO = EXTI_GPIO" "gpio_line pin AND EXTI_CONFIG = EXTI_CONFIG"
    by (simp_all add: exti_offset_def exti_linepos_def)
qed

lemma bit_pin: "i < 32 \<Longrightarrow> bit (push_bit i 1 :: u32) j \<longleftrightarrow> j = i"
  by (auto simp: bit_push_bit_iff bit_1_iff simp del: push_bit_of_1 One_nat_def)

lemma bit_put_line: "i < 32 \<Longrightarrow> j < 32 \<Longrightarrow> bit (put_line i on v) j = (if j = i then on else bit v j)"
  by (auto simp: put_line_def Let_def bit_or_iff bit_and_iff bit_not_iff bit_pin simp del: push_bit_of_1)

lemma line_bit_iff: "i < 32 \<Longrightarrow> line_bit i v \<longleftrightarrow> bit v i"
  by (auto simp: line_bit_def bit_eq_iff[where ?'a = "32 word"] bit_and_iff bit_pin simp del: push_bit_of_1)

lemma line_bit_put [simp]: "i < 32 \<Longrightarrow> line_bit i (put_line i on v) = on"
  by (simp add: line_bit_iff bit_put_line)

text \<open>Four bits of \<open>EXTICR\<close> select the port of a line.\<close>

lemma bit_nibble: "bit (0xF :: u32) j \<longleftrightarrow> j < 4"
proof -
  have "(0xF :: u32) = mask 4" by (simp add: mask_eq_decr_exp)
  then show ?thesis by (simp only: bit_mask_iff) auto
qed

lemma bit_small: "s AND 0xF = s \<Longrightarrow> bit s j \<Longrightarrow> j < 4" for s :: u32
  by (metis bit_and_iff bit_nibble)

lemma bit_put_port:
  assumes "s AND 0xF = s" and "j < 32"
  shows "bit (put_port n s cr i) j =
    (if i = n div 4 \<and> 4 * (n mod 4) \<le> j \<and> j < 4 * (n mod 4) + 4 then bit s (j - 4 * (n mod 4)) else bit (cr i) j)"
  using assms(2) bit_small[OF assms(1), of "j - 4 * (n mod 4)"]
  by (auto simp: put_port_def Let_def bit_or_iff bit_and_iff bit_not_iff bit_push_bit_iff bit_nibble
      simp del: bit_numeral_word_iff)

lemma get_put_port:
  assumes "s AND 0xF = s" and "n < 16" and "n' < 16"
  shows "drop_bit (4 * (n' mod 4)) (put_port n s cr (n' div 4)) AND 0xF =
    (if n' = n then s else drop_bit (4 * (n' mod 4)) (cr (n' div 4)) AND 0xF)"
proof (rule bit_word_eqI)
  fix j :: nat
  assume "j < LENGTH(32)"
  show "bit (drop_bit (4 * (n' mod 4)) (put_port n s cr (n' div 4)) AND 0xF) j =
      bit (if n' = n then s else drop_bit (4 * (n' mod 4)) (cr (n' div 4)) AND 0xF) j"
  proof (cases "j < 4")
    case True
    have b: "bit (put_port n s cr (n' div 4)) (4 * (n' mod 4) + j) =
        (if n' = n then bit s j else bit (cr (n' div 4)) (4 * (n' mod 4) + j))"
    proof (cases "n' div 4 = n div 4 \<and> n' mod 4 = n mod 4")
      case eq: True
      then have "n' = n" by (metis div_mult_mod_eq)
      then show ?thesis using True by (simp add: bit_put_port[OF assms(1)])
    next
      case False
      then have "\<not> (n' div 4 = n div 4 \<and> 4 * (n mod 4) \<le> 4 * (n' mod 4) + j \<and> 4 * (n' mod 4) + j < 4 * (n mod 4) + 4)"
        using True by linarith
      moreover have "4 * (n' mod 4) + j < 32" using True by simp
      ultimately show ?thesis using False by (simp only: bit_put_port[OF assms(1)]) auto
    qed
    show ?thesis
      using True b by (simp add: bit_and_iff bit_drop_bit_eq bit_nibble del: bit_numeral_word_iff)
  next
    case False
    then show ?thesis using bit_small[OF assms(1), of j] by (auto simp: bit_and_iff bit_nibble simp del: bit_numeral_word_iff)
  qed
qed

text \<open>Reading back what was configured; the configuration of the other lines is kept.\<close>

lemma and_bit: "i < 32 \<Longrightarrow> v AND push_bit i 1 = (if bit v i then push_bit i 1 else 0)" for v :: u32
  by (auto simp: bit_eq_iff[where ?'a = "32 word"] bit_and_iff bit_pin simp del: push_bit_of_1)

lemma two_bits: "v AND 3 = (if v AND 2 \<noteq> 0 then (if v AND 1 \<noteq> 0 then 1 else 0) OR 2 else (if v AND 1 \<noteq> 0 then 1 else 0))"
  for v :: u32
proof -
  have v: "v AND 1 = (if bit v 0 then 1 else 0)" "v AND 2 = (if bit v 1 then 2 else 0)"
    using and_bit[of 0 v] and_bit[of 1 v] by simp_all
  have "v AND 3 = v AND (1 OR 2)" by simp
  also have "\<dots> = (v AND 1) OR (v AND 2)" by (rule bit.conj_disj_distrib)
  finally show ?thesis unfolding v by (simp split: if_splits)
qed

lemma line_bit_put_other: "i < 32 \<Longrightarrow> j < 32 \<Longrightarrow> i \<noteq> j \<Longrightarrow> line_bit j (put_line i on v) = line_bit j v"
  by (simp add: line_bit_iff bit_put_line)

lemma pin_less: "IS_EXTI_GPIO_PIN p \<Longrightarrow> unat p < 16"
  by (simp add: IS_EXTI_GPIO_PIN_def word_less_nat_alt)

lemma get_after_set:
  assumes "IS_EXTI_GPIO_PIN p" and "IS_EXTI_GPIO_PIN q" and "Line c = gpio_line p" and "GPIOSel c AND 0xF = GPIOSel c"
  shows "HAL_EXTI_GetConfigLine (Some (gpio_line q)) (snd (HAL_EXTI_SetConfigLine (Some h) (Some c) r)) =
    (if q = p then Some \<lparr>Line = gpio_line p, ex_Mode = ex_Mode c AND 3, Trigger = Trigger c AND 3, GPIOSel = GPIOSel c\<rparr>
     else HAL_EXTI_GetConfigLine (Some (gpio_line q)) r)"
proof -
  have n: "unat p < 32" "unat q < 32" using pin_less[OF assms(1)] pin_less[OF assms(2)] by simp_all
  note f = gpio_line_fields[OF assms(1)] gpio_line_fields[OF assms(2)]
  note port = get_put_port[OF assms(4) pin_less[OF assms(1)] pin_less[OF assms(2)]]
  show ?thesis
  proof (cases "q = p")
    case True
    then show ?thesis
      using n f port by (simp add: HAL_EXTI_GetConfigLine_def HAL_EXTI_SetConfigLine_def Let_def assms(3) two_bits[of "ex_Mode c"] two_bits[of "Trigger c"])
  next
    case False
    then have "unat p \<noteq> unat q" by (metis word_unat_eq_iff)
    moreover note line_bit_put_other[OF n this]
    ultimately show ?thesis
      using False f port by (simp add: HAL_EXTI_GetConfigLine_def HAL_EXTI_SetConfigLine_def Let_def assms(3))
  qed
qed

end
