(* ===== verification/Gpio_Irq.thy ===== *)
theory Gpio_Irq
  imports List_Heap NoOs_Irq Stm32_Exti
begin

text \<open>
  Interrupts of pins on the STM32 (\<open>stm32_gpio_irq.c\<close>): the platform operations behind
  \<open>no_os_irq.c\<close> for the EXTI lines, and the handler the interrupt enters. The callbacks are
  kept in one linked list of \<open>no_os_list.c\<close>, reached through the file's static variable
  \<open>actions\<close>; its elements are the addresses of allocated \<open>irq_action\<close>s.

  Each list is a state of \<open>NoOs_List\<close> of its own. The comparator of the list reads the two
  actions it is given; since the comparator of a state is a function of the data alone,
  \<open>on_actions\<close> sets it before each call to the one that reads the actions as they are then.
  Where it would read a freed action it gives 0, which stops the search there, and
  \<open>actions_find\<close> raises the fault.
\<close>

section \<open>State\<close>

record stm32_gpio_irq_init_param =
  port_nb :: u8

record stm32_gpio_irq_desc =
  hexti :: u32                 \<comment> \<open>\<open>hexti.Line\<close>\<close>
  sd_port_nb :: u8

record irq_action =
  irq_id :: u32
  callback :: "nat option"
  ia_ctx :: nat

text \<open>The pointers given to the list: an allocated action, or a local variable whose only
  field in use is \<open>irq_id\<close>.\<close>

datatype irq_item = Action ptr | Key u32

record gpio_irq_state = irq_state +
  iactions :: "nat \<Rightarrow> irq_action option"
  isdescs :: "nat \<Rightarrow> stm32_gpio_irq_desc option"
  lists :: "nat \<Rightarrow> irq_item list_state option"
  next_list :: nat
  list_grants :: "nat \<Rightarrow> nat \<Rightarrow> bool"
  actions :: "nat option"
  initialized :: "nat \<Rightarrow> bool"
  gpio_irq_desc_arr :: "nat \<Rightarrow> ptr"
  xr :: exti

abbreviation (input) "STM32_IRQ_CTRL_NB \<equiv> 16 :: nat"
abbreviation (input) "sizeof_no_os_irq_ctrl_desc \<equiv> 16 :: nat"
abbreviation (input) "sizeof_stm32_gpio_irq_desc \<equiv> 12 :: nat"
abbreviation (input) "sizeof_irq_action \<equiv> 12 :: nat"

section \<open>The list of actions\<close>

definition item_id :: "(nat \<Rightarrow> irq_action option) \<Rightarrow> irq_item \<Rightarrow> u32 option" where
  "item_id h d =
     (case d of
        Key i \<Rightarrow> Some i
      | Action p \<Rightarrow> (case p of NULL \<Rightarrow> None | Ptr b i \<Rightarrow> if i = 0 then map_option irq_id (h b) else None))"

definition irq_action_cmp :: "(nat \<Rightarrow> irq_action option) \<Rightarrow> irq_item \<Rightarrow> irq_item \<Rightarrow> int" where
  "irq_action_cmp h data1 data2 =
     (case (item_id h data1, item_id h data2) of (Some a, Some b) \<Rightarrow> sint (a - b) | _ \<Rightarrow> 0)"

text \<open>An operation of \<open>no_os_list.c\<close> on the list \<open>actions\<close> points to.\<close>

definition on_actions :: "(arg \<Rightarrow> (irq_item, 'a) lm) \<Rightarrow> ('z gpio_irq_state_scheme, 'a) cm" where
  "on_actions f \<sigma> =
     run_list lists (\<lambda>m \<sigma>. \<sigma>\<lparr>lists := m\<rparr>) (\<lambda>\<sigma>. irq_action_cmp (iactions \<sigma>)) (actions \<sigma>) f \<sigma>"

text \<open>\<open>no_os_list_init(&actions, NO_OS_LIST_PRIORITY_LIST, irq_action_cmp)\<close>\<close>

definition actions_init :: "('z gpio_irq_state_scheme, int) cm" where
  "actions_init =
     bindm (\<lambda>\<sigma>. new_list lists (\<lambda>m \<sigma>. \<sigma>\<lparr>lists := m\<rparr>) next_list (\<lambda>n \<sigma>. \<sigma>\<lparr>next_list := n\<rparr>) (list_grants \<sigma>)
       NO_OS_LIST_PRIORITY_LIST (irq_action_cmp (iactions \<sigma>)) (actions \<sigma>) \<sigma>) (\<lambda>(ret, p).
     bindm (modifym (\<lambda>\<sigma>. \<sigma>\<lparr>actions := p\<rparr>)) (\<lambda>_. returnm ret))"

text \<open>\<open>no_os_list_read_find(actions, &action, &key)\<close>; the elements are addresses of actions.\<close>

definition item_ptr :: "irq_item option \<Rightarrow> ptr" where
  "item_ptr d = (case d of Some (Action p) \<Rightarrow> p | _ \<Rightarrow> NULL)"

definition actions_find :: "u32 \<Rightarrow> ('z gpio_irq_state_scheme, int \<times> ptr) cm" where
  "actions_find key =
     bindm (on_actions (\<lambda>a. no_os_list_read_find a Valid (Key key))) (\<lambda>(ret, d).
     if ret \<noteq> 0 then returnm (ret, NULL)
     else bindm (CMem.deref iactions (item_ptr d)) (\<lambda>_. returnm (0, item_ptr d)))"

section \<open>Objects\<close>

definition idesc_calloc :: "('z gpio_irq_state_scheme, ptr) cm" where
  "idesc_calloc = new_obj sizeof_no_os_irq_ctrl_desc (\<lambda>b \<sigma>. \<sigma>\<lparr>idescs := (idescs \<sigma>)(b \<mapsto>
     \<lparr>irq_ctrl_id = 0, iq_platform_ops = None, iq_ref = 0, iq_extra = NULL\<rparr>)\<rparr>)"

definition isdesc_calloc :: "('z gpio_irq_state_scheme, ptr) cm" where
  "isdesc_calloc = new_obj sizeof_stm32_gpio_irq_desc (\<lambda>b \<sigma>. \<sigma>\<lparr>isdescs := (isdescs \<sigma>)(b \<mapsto>
     \<lparr>hexti = 0, sd_port_nb = 0\<rparr>)\<rparr>)"

definition action_calloc :: "('z gpio_irq_state_scheme, ptr) cm" where
  "action_calloc = new_obj sizeof_irq_action (\<lambda>b \<sigma>. \<sigma>\<lparr>iactions := (iactions \<sigma>)(b \<mapsto>
     \<lparr>irq_id = 0, callback = None, ia_ctx = 0\<rparr>)\<rparr>)"

definition idesc_free :: "ptr \<Rightarrow> ('z gpio_irq_state_scheme, unit) cm" where
  "idesc_free p =
     (if p = NULL then returnm ()
      else bindm (CMem.deref idescs p) (\<lambda>_. modifym (\<lambda>\<sigma>. \<sigma>\<lparr>idescs := (idescs \<sigma>)(block_of p := None)\<rparr>)))"

definition isdesc_free :: "ptr \<Rightarrow> ('z gpio_irq_state_scheme, unit) cm" where
  "isdesc_free p =
     (if p = NULL then returnm ()
      else bindm (CMem.deref isdescs p) (\<lambda>_. modifym (\<lambda>\<sigma>. \<sigma>\<lparr>isdescs := (isdescs \<sigma>)(block_of p := None)\<rparr>)))"

definition action_free :: "ptr \<Rightarrow> ('z gpio_irq_state_scheme, unit) cm" where
  "action_free p =
     (if p = NULL then returnm ()
      else bindm (CMem.deref iactions p) (\<lambda>_. modifym (\<lambda>\<sigma>. \<sigma>\<lparr>iactions := (iactions \<sigma>)(block_of p := None)\<rparr>)))"

section \<open>The interrupt\<close>

text \<open>The call of a callback of the user is the parameter \<open>call\<close>.\<close>

definition stm32_handle_generic_callback ::
  "(nat \<Rightarrow> nat \<Rightarrow> ('z gpio_irq_state_scheme, unit) cm) \<Rightarrow> u16 \<Rightarrow> ('z gpio_irq_state_scheme, unit) cm" where
  "stm32_handle_generic_callback call pin =
     bindm (actions_find (no_os_find_first_set_bit (ucast pin))) (\<lambda>(ret, p).
     if ret \<noteq> 0 then returnm ()
     else
       bindm (CMem.deref iactions p) (\<lambda>action.
       case callback action of None \<Rightarrow> returnm () | Some f \<Rightarrow> call f (ia_ctx action)))"

definition HAL_GPIO_EXTI_Callback ::
  "(nat \<Rightarrow> nat \<Rightarrow> ('z gpio_irq_state_scheme, unit) cm) \<Rightarrow> u16 \<Rightarrow> ('z gpio_irq_state_scheme, unit) cm" where
  "HAL_GPIO_EXTI_Callback call pin = stm32_handle_generic_callback call pin"

definition HAL_GPIO_EXTI_IRQHandler ::
  "(nat \<Rightarrow> nat \<Rightarrow> ('z gpio_irq_state_scheme, unit) cm) \<Rightarrow> u16 \<Rightarrow> ('z gpio_irq_state_scheme, unit) cm" where
  "HAL_GPIO_EXTI_IRQHandler call GPIO_Pin =
     bindm (getm xr) (\<lambda>r.
     if HAL_GPIO_EXTI_GET_IT (ucast GPIO_Pin) r
     then bindm (modifym (\<lambda>\<sigma>. \<sigma>\<lparr>xr := HAL_GPIO_EXTI_CLEAR_IT (ucast GPIO_Pin) (xr \<sigma>)\<rparr>)) (\<lambda>_.
          HAL_GPIO_EXTI_Callback call GPIO_Pin)
     else returnm ())"

section \<open>Creating and removing a controller\<close>

definition stm32_gpio_irq_ctrl_init ::
  "ptr option \<Rightarrow> stm32_gpio_irq_init_param no_os_irq_init_param option \<Rightarrow>
   ('z gpio_irq_state_scheme, int \<times> ptr option) cm" where
  "stm32_gpio_irq_ctrl_init desc param =
     (case param of None \<Rightarrow> returnm (- EINVAL, desc) | Some pr \<Rightarrow>
      case ip_extra pr of None \<Rightarrow> returnm (- EINVAL, desc) | Some gpio_irq_ip \<Rightarrow>
      if \<not> IS_EXTI_GPIO_PORT (port_nb gpio_irq_ip) then returnm (- EINVAL, desc)
      else if \<not> IS_EXTI_GPIO_PIN (ip_irq_ctrl_id pr) then returnm (- EINVAL, desc)
      else
        let n = unat (ip_irq_ctrl_id pr);
            store = bindm (getm gpio_irq_desc_arr) (\<lambda>arr.
              case desc of None \<Rightarrow> failm Null_Deref | Some _ \<Rightarrow> returnm (0, Some (arr n))) in
        bindm (getm initialized) (\<lambda>ini.
        if ini n then store
        else
          bindm idesc_calloc (\<lambda>gpio_irq_desc.
          if gpio_irq_desc = NULL then returnm (- ENOMEM, desc)
          else
            bindm isdesc_calloc (\<lambda>sdesc.
            let error = (\<lambda>ret.
                  bindm (on_actions no_os_list_remove) (\<lambda>_.
                  bindm (idesc_free gpio_irq_desc) (\<lambda>_.
                  bindm (isdesc_free sdesc) (\<lambda>_. returnm (ret, desc))))) in
            if sdesc = NULL then error (- ENOMEM)
            else
              bindm (CMem.deref isdescs sdesc) (\<lambda>sd.
              bindm (modifym (\<lambda>\<sigma>. \<sigma>\<lparr>isdescs := (isdescs \<sigma>)(block_of sdesc \<mapsto>
                sd\<lparr>sd_port_nb := port_nb gpio_irq_ip\<rparr>)\<rparr>)) (\<lambda>_.
              bindm (put_idesc gpio_irq_desc (\<lambda>d. d\<lparr>irq_ctrl_id := ip_irq_ctrl_id pr, iq_extra := sdesc\<rparr>)) (\<lambda>_.
              bindm actions_init (\<lambda>ret.
              if ret \<noteq> 0 then error ret
              else
                bindm (modifym (\<lambda>\<sigma>. \<sigma>\<lparr>initialized := (initialized \<sigma>)(n := True),
                  gpio_irq_desc_arr := (gpio_irq_desc_arr \<sigma>)(n := gpio_irq_desc)\<rparr>)) (\<lambda>_. store)))))))))"

text \<open>\<open>while (0 == no_os_list_get_first(actions, &discard)) no_os_free(discard);\<close> The fuel is
  one more than the number of elements.\<close>

fun free_actions :: "nat \<Rightarrow> ('z gpio_irq_state_scheme, unit) cm" where
  "free_actions 0 = failm Diverges"
| "free_actions (Suc n) =
     bindm (on_actions (\<lambda>a. no_os_list_get_first a Valid)) (\<lambda>(ret, d).
     if ret = 0 then bindm (action_free (item_ptr d)) (\<lambda>_. free_actions n) else returnm ())"

definition actions_size :: "'z gpio_irq_state_scheme \<Rightarrow> nat" where
  "actions_size \<sigma> =
     (case actions \<sigma> of None \<Rightarrow> 0 | Some k \<Rightarrow>
        (case lists \<sigma> k of None \<Rightarrow> 0 | Some l \<Rightarrow> unat (nb_elements l)))"

definition stm32_gpio_irq_ctrl_remove :: "ptr \<Rightarrow> ('z gpio_irq_state_scheme, int) cm" where
  "stm32_gpio_irq_ctrl_remove desc =
     (if desc = NULL then returnm (- EINVAL)
      else
        bindm (getm actions_size) (\<lambda>n.
        bindm (free_actions (Suc n)) (\<lambda>_.
        bindm (on_actions no_os_list_remove) (\<lambda>_.
        bindm (CMem.deref idescs desc) (\<lambda>d.
        if STM32_IRQ_CTRL_NB \<le> unat (irq_ctrl_id d) then failm Out_Of_Bounds
        else
          bindm (modifym (\<lambda>\<sigma>. \<sigma>\<lparr>initialized := (initialized \<sigma>)(unat (irq_ctrl_id d) := False)\<rparr>)) (\<lambda>_.
          bindm (isdesc_free (iq_extra d)) (\<lambda>_.
          bindm (idesc_free desc) (\<lambda>_. returnm 0))))))))"

section \<open>Callbacks\<close>

text \<open>The test most operations begin with.\<close>

definition with_pin ::
  "ptr \<Rightarrow> (no_os_irq_ctrl_desc \<Rightarrow> ('z gpio_irq_state_scheme, int) cm) \<Rightarrow> ('z gpio_irq_state_scheme, int) cm" where
  "with_pin desc k =
     (if desc = NULL then returnm (- EINVAL)
      else
        bindm (CMem.deref idescs desc) (\<lambda>d.
        if iq_extra d = NULL \<or> \<not> IS_EXTI_GPIO_PIN (irq_ctrl_id d) then returnm (- EINVAL) else k d))"

text \<open>\<open>HAL_EXTI_SetConfigLine(&sdesc->hexti, &config)\<close>\<close>

definition set_config_line :: "ptr \<Rightarrow> EXTI_ConfigTypeDef \<Rightarrow> ('z gpio_irq_state_scheme, bool) cm" where
  "set_config_line sdesc config =
     bindm (CMem.deref isdescs sdesc) (\<lambda>sd.
     bindm (getm (\<lambda>\<sigma>. HAL_EXTI_SetConfigLine (Some (hexti sd)) (Some config) (xr \<sigma>))) (\<lambda>((ok, line), r).
     bindm (modifym (\<lambda>\<sigma>. \<sigma>\<lparr>isdescs := (isdescs \<sigma>)(block_of sdesc \<mapsto> sd\<lparr>hexti := the line\<rparr>), xr := r\<rparr>)) (\<lambda>_.
     returnm ok)))"

text \<open>The key is initialised from \<open>desc\<close> before it is compared with \<open>NULL\<close>. The member
  \<open>Trigger\<close> of the local variable \<open>config\<close> is not assigned: it is the parameter \<open>stack\<close>.\<close>

definition stm32_gpio_irq_register_callback ::
  "u32 \<Rightarrow> ptr \<Rightarrow> u32 \<Rightarrow> no_os_callback_desc option \<Rightarrow> ('z gpio_irq_state_scheme, int) cm" where
  "stm32_gpio_irq_register_callback stack desc irqid cb =
     bindm (CMem.deref idescs desc) (\<lambda>d.
     if iq_extra d = NULL \<or> cb = None \<or> \<not> IS_EXTI_GPIO_PIN (irq_ctrl_id d) then returnm (- EINVAL)
     else
       let entry = \<lparr>irq_id = irq_ctrl_id d, callback = cb_callback (the cb), ia_ctx = cb_ctx (the cb)\<rparr>;
           store = (\<lambda>p. bindm (CMem.deref iactions p) (\<lambda>_.
             modifym (\<lambda>\<sigma>. \<sigma>\<lparr>iactions := (iactions \<sigma>)(block_of p \<mapsto> entry)\<rparr>)));
           free_action = (\<lambda>action ret. bindm (action_free action) (\<lambda>_. returnm ret));
           arm = (\<lambda>action.
             bindm (CMem.deref isdescs (iq_extra d)) (\<lambda>sd.
             bindm (set_config_line (iq_extra d) \<lparr>Line = gpio_line (irq_ctrl_id d), ex_Mode = EXTI_MODE_INTERRUPT,
               Trigger = stack, GPIOSel = ucast (sd_port_nb sd)\<rparr>) (\<lambda>ok.
             if \<not> ok then free_action action (- EFAULT) else returnm 0))) in
       bindm (actions_find (irq_ctrl_id d)) (\<lambda>(ret, action).
       if ret \<noteq> 0 then
         bindm action_calloc (\<lambda>action.
         if action = NULL then returnm (- ENOMEM)
         else
           bindm (store action) (\<lambda>_.
           bindm (on_actions (\<lambda>a. no_os_list_add_last a (Action action))) (\<lambda>ret.
           if ret \<noteq> 0 then free_action action ret else arm action)))
       else bindm (store action) (\<lambda>_. arm action)))"

definition stm32_gpio_irq_unregister_callback ::
  "ptr \<Rightarrow> u32 \<Rightarrow> no_os_callback_desc option \<Rightarrow> ('z gpio_irq_state_scheme, int) cm" where
  "stm32_gpio_irq_unregister_callback desc irqid cb =
     bindm (CMem.deref idescs desc) (\<lambda>d.
     if cb = None \<or> \<not> IS_EXTI_GPIO_PIN (irq_ctrl_id d) then returnm (- EINVAL)
     else
       bindm (actions_find (irq_ctrl_id d)) (\<lambda>(ret, discard_action).
       if ret \<noteq> 0 then returnm (- ENODEV)
       else bindm (action_free discard_action) (\<lambda>_. returnm 0)))"

section \<open>Trigger, enabling and priority\<close>

definition stm32_gpio_irq_trigger_level_set ::
  "ptr \<Rightarrow> u32 \<Rightarrow> no_os_irq_trig_level \<Rightarrow> ('z gpio_irq_state_scheme, int) cm" where
  "stm32_gpio_irq_trigger_level_set desc irqid level =
     with_pin desc (\<lambda>d.
       bindm (CMem.deref isdescs (iq_extra d)) (\<lambda>sd.
       bindm (getm (\<lambda>\<sigma>. HAL_EXTI_GetConfigLine (Some (hexti sd)) (xr \<sigma>))) (\<lambda>cfg.
       case cfg of None \<Rightarrow> returnm (- EFAULT) | Some config \<Rightarrow>
       let apply_edge = (\<lambda>t.
             bindm (set_config_line (iq_extra d) (config\<lparr>Trigger := t, GPIOSel := ucast (sd_port_nb sd)\<rparr>)) (\<lambda>ok.
             returnm (if ok then 0 else - EFAULT))) in
       case level of
         NO_OS_IRQ_EDGE_FALLING \<Rightarrow> apply_edge EXTI_TRIGGER_FALLING
       | NO_OS_IRQ_EDGE_RISING \<Rightarrow> apply_edge EXTI_TRIGGER_RISING
       | NO_OS_IRQ_EDGE_BOTH \<Rightarrow> apply_edge EXTI_TRIGGER_RISING_FALLING
       | _ \<Rightarrow> returnm (- EINVAL))))"

definition stm32_gpio_irq_global_enable :: "ptr \<Rightarrow> ('z gpio_irq_state_scheme, int) cm" where
  "stm32_gpio_irq_global_enable desc = returnm (- ENOSYS)"

definition stm32_gpio_irq_global_disable :: "ptr \<Rightarrow> ('z gpio_irq_state_scheme, int) cm" where
  "stm32_gpio_irq_global_disable desc = returnm (- ENOSYS)"

text \<open>
  The number of the interrupt of a pin comes from \<open>stm32_get_exti_irq_id_from_pin\<close>, which is
  declared in \<open>stm32_hal.h\<close> and defined nowhere in the repository: the parameter \<open>Q\<close> gives its
  return value and the number it stores.
\<close>

definition with_exti_irq ::
  "(u8 \<Rightarrow> int \<times> int) \<Rightarrow> ptr \<Rightarrow> (int \<Rightarrow> exti \<Rightarrow> exti) \<Rightarrow> ('z gpio_irq_state_scheme, int) cm" where
  "with_exti_irq Q desc f =
     with_pin desc (\<lambda>d.
       let (ret, nvic_irq_id) = Q (ucast (irq_ctrl_id d)) in
       if ret \<noteq> 0 then returnm ret
       else bindm (modifym (\<lambda>\<sigma>. \<sigma>\<lparr>xr := f nvic_irq_id (xr \<sigma>)\<rparr>)) (\<lambda>_. returnm 0))"

definition stm32_gpio_irq_enable :: "(u8 \<Rightarrow> int \<times> int) \<Rightarrow> ptr \<Rightarrow> u32 \<Rightarrow> ('z gpio_irq_state_scheme, int) cm" where
  "stm32_gpio_irq_enable Q desc irqid = with_exti_irq Q desc NVIC_EnableIRQ"

definition stm32_gpio_irq_disable :: "(u8 \<Rightarrow> int \<times> int) \<Rightarrow> ptr \<Rightarrow> u32 \<Rightarrow> ('z gpio_irq_state_scheme, int) cm" where
  "stm32_gpio_irq_disable Q desc irqid = with_exti_irq Q desc NVIC_DisableIRQ"

definition stm32_gpio_irq_set_priority ::
  "(u8 \<Rightarrow> int \<times> int) \<Rightarrow> ptr \<Rightarrow> u32 \<Rightarrow> u32 \<Rightarrow> ('z gpio_irq_state_scheme, int) cm" where
  "stm32_gpio_irq_set_priority Q desc irqid priority_level =
     with_exti_irq Q desc (\<lambda>n. NVIC_SetPriority n priority_level)"

definition stm32_irq_clear_pending :: "ptr \<Rightarrow> u32 \<Rightarrow> ('z gpio_irq_state_scheme, int) cm" where
  "stm32_irq_clear_pending desc irqid =
     with_pin desc (\<lambda>d.
       let line = push_bit (unat (irq_ctrl_id d)) 1 in
       bindm (getm xr) (\<lambda>r.
       bindm (if HAL_GPIO_EXTI_GET_IT line r
              then modifym (\<lambda>\<sigma>. \<sigma>\<lparr>xr := HAL_GPIO_EXTI_CLEAR_IT line (xr \<sigma>)\<rparr>) else returnm ()) (\<lambda>_.
       returnm 0)))"

definition stm32_gpio_irq_ops ::
  "u32 \<Rightarrow> (u8 \<Rightarrow> int \<times> int) \<Rightarrow> ('z gpio_irq_state_scheme, stm32_gpio_irq_init_param) irq_platform_ops" where
  "stm32_gpio_irq_ops stack Q = \<lparr>irq_ops_init = Some stm32_gpio_irq_ctrl_init,
     irq_ops_register_callback = Some (stm32_gpio_irq_register_callback stack),
     irq_ops_unregister_callback = Some stm32_gpio_irq_unregister_callback,
     irq_ops_global_enable = Some stm32_gpio_irq_global_enable,
     irq_ops_global_disable = Some stm32_gpio_irq_global_disable,
     irq_ops_trigger_level_set = Some stm32_gpio_irq_trigger_level_set,
     irq_ops_enable = Some (stm32_gpio_irq_enable Q), irq_ops_disable = Some (stm32_gpio_irq_disable Q),
     irq_ops_set_priority = Some (stm32_gpio_irq_set_priority Q),
     irq_ops_remove = Some stm32_gpio_irq_ctrl_remove, irq_ops_clear_pending = Some stm32_irq_clear_pending\<rparr>"

end
