(* ===== verification/Gpio_Irq_Theorems.thy ===== *)
theory Gpio_Irq_Theorems
  imports Gpio_Irq
begin

text \<open>
  What the pin interrupts do. The list of actions stands for a map from pins to callbacks
  (\<open>handlers\<close>): registering updates the map at one pin and arms that pin's line, and an
  interrupt calls what the map holds for its pin. The same list is shared by the
  controllers of all pins, and unregistering leaves a freed action in it; the last section
  states what follows.
\<close>

section \<open>The representation\<close>

definition action_items :: "nat list \<Rightarrow> irq_item list" where
  "action_items bs = map (\<lambda>b. Action (Ptr b 0)) bs"

definition action_blocks :: "'z gpio_irq_state_scheme \<Rightarrow> nat list \<Rightarrow> bool" where
  "action_blocks \<sigma> bs \<longleftrightarrow> held (lists \<sigma>) (list_grants \<sigma>) (actions \<sigma>) (action_items bs)"

definition action_rep :: "'z gpio_irq_state_scheme \<Rightarrow> nat list \<Rightarrow> irq_action list \<Rightarrow> bool" where
  "action_rep \<sigma> bs as \<longleftrightarrow>
     action_blocks \<sigma> bs \<and> map (iactions \<sigma>) bs = map Some as \<and> distinct bs \<and> distinct (map irq_id as) \<and>
     (\<forall>a\<in>set as. IS_EXTI_GPIO_PIN (irq_id a))"

definition action_list :: "'z gpio_irq_state_scheme \<Rightarrow> irq_action list \<Rightarrow> bool" where
  "action_list \<sigma> as \<longleftrightarrow> (\<exists>bs. action_rep \<sigma> bs as)"

text \<open>What the list stands for, and the blocks not yet allocated.\<close>

definition handlers :: "irq_action list \<Rightarrow> u32 \<Rightarrow> (nat option \<times> nat) option" where
  "handlers as = map_of (map (\<lambda>a. (irq_id a, (callback a, ia_ctx a))) as)"

definition fresh_irq :: "'z gpio_irq_state_scheme \<Rightarrow> bool" where
  "fresh_irq \<sigma> \<longleftrightarrow> (\<forall>b \<ge> next_block \<sigma>. iactions \<sigma> b = None \<and> isdescs \<sigma> b = None \<and> idescs \<sigma> b = None)"

text \<open>A state that differs in the memory of the lists only.\<close>

abbreviation with_lists ::
  "'z gpio_irq_state_scheme \<Rightarrow> (nat \<Rightarrow> irq_item list_state option) \<Rightarrow> 'z gpio_irq_state_scheme" where
  "with_lists \<sigma> m \<equiv> \<sigma>\<lparr>lists := m\<rparr>"

text \<open>An operation of the list that keeps what its descriptor holds, run on the actions.\<close>

lemma on_actions_ok:
  assumes "action_blocks \<sigma> bs"
    and "\<And>l. holds l (action_items bs) \<Longrightarrow> nb_iterators l = 0 \<Longrightarrow> comparator l = irq_action_cmp (iactions \<sigma>) \<Longrightarrow>
      alloc_ok l = list_grants \<sigma> (the (actions \<sigma>)) \<Longrightarrow>
      \<exists>l'. f Valid l = Inr (r, l') \<and> holds l' (action_items bs') \<and> same_desc l l'"
  shows "\<exists>m. on_actions f \<sigma> = Inr (r, with_lists \<sigma> m) \<and> action_blocks (with_lists \<sigma> m) bs'"
proof -
  obtain l' where "on_actions f \<sigma> = Inr (r, with_lists \<sigma> ((lists \<sigma>)(the (actions \<sigma>) \<mapsto> l')))"
    "held ((lists \<sigma>)(the (actions \<sigma>) \<mapsto> l')) (list_grants \<sigma>) (actions \<sigma>) (action_items bs')"
    unfolding on_actions_def
    using run_list_ok[where heap = lists and put = "\<lambda>m \<sigma>. \<sigma>\<lparr>lists := m\<rparr>" and cmp = "\<lambda>\<sigma>. irq_action_cmp (iactions \<sigma>)"
        and \<sigma> = \<sigma> and ok = "list_grants \<sigma>" and p = "actions \<sigma>" and f = f and r = r and xs' = "action_items bs'",
        OF assms(1)[unfolded action_blocks_def] assms(2)] by blast
  then show ?thesis by (intro exI[of _ "(lists \<sigma>)(the (actions \<sigma>) \<mapsto> l')"]) (simp add: action_blocks_def)
qed

section \<open>Searching\<close>

lemma read_find_run:
  assumes "holds l xs"
  shows "\<exists>l'. no_os_list_read_find Valid Valid d l =
      Inr ((case dropWhile (\<lambda>x. comparator l x d \<noteq> 0) xs of [] \<Rightarrow> (-1, None) | x # _ \<Rightarrow> (0, Some x)), l') \<and>
    holds l' xs \<and> same_desc l l'"
proof -
  obtain ns where ns: "list_inv l ns" "map snd ns = xs" using assms by (auto simp: holds_def)
  let ?P = "\<lambda>x. comparator l (snd x) d \<noteq> 0"
  let ?l0 = "l\<lparr>l_it := l_first l\<rparr>"
  have s: "search (\<lambda>x. comparator l x d = 0) ?l0 = Inr (heado (dropWhile ?P ns) None, ?l0)"
    using search_run[of ?l0 ns] ns(1) by simp
  have xs: "dropWhile (\<lambda>x. comparator l x d \<noteq> 0) xs = map snd (dropWhile ?P ns)"
    by (simp add: ns(2)[symmetric] dropWhile_map comp_def)
  show ?thesis
  proof (cases "dropWhile ?P ns")
    case Nil
    have "dropWhile (\<lambda>x. comparator l x d \<noteq> 0) xs = []" unfolding xs Nil by simp
    moreover have "search (\<lambda>x. comparator l x d = 0) ?l0 = Inr (None, ?l0)" using s unfolding Nil by simp
    ultimately show ?thesis
      using ns by (auto simp: no_os_list_read_find_def seek_find_def no_os_iterator_find_def set_it_elem_def
          bindm_unfold run_simps holds_def simp del: dropWhile_eq_Nil_conv)
  next
    case (Cons n ms)
    obtain a x where n: "n = (a, x)" by (cases n)
    have "ns = takeWhile ?P ns @ (a, x) # ms" using Cons n by (metis takeWhile_dropWhile_id)
    then have "list_inv (l\<lparr>l_it := Some a\<rparr>) (takeWhile ?P ns @ (a, x) # ms)" using ns(1) by simp
    from iterator_read_run[OF this] show ?thesis
      using s ns Cons n by (auto simp: no_os_list_read_find_def seek_find_def no_os_iterator_find_def set_it_elem_def
          bindm_unfold run_simps xs holds_def)
  qed
qed

lemma sint_diff_0: "sint (a - b) = 0 \<longleftrightarrow> a = b" for a b :: u32
  by (simp add: signed_eq_0_iff)

text \<open>The search ends at the first action that has the number or is freed.\<close>

lemma actions_find_run:
  assumes "action_blocks \<sigma> bs"
  shows "\<exists>m. action_blocks (with_lists \<sigma> m) bs \<and> actions_find key \<sigma> =
    (case dropWhile (\<lambda>b. \<exists>a. iactions \<sigma> b = Some a \<and> irq_id a \<noteq> key) bs of
       [] \<Rightarrow> Inr ((-1, NULL), with_lists \<sigma> m)
     | b # _ \<Rightarrow> (case iactions \<sigma> b of None \<Rightarrow> Inl Dangling | Some _ \<Rightarrow> Inr ((0, Ptr b 0), with_lists \<sigma> m)))"
proof -
  let ?c = "irq_action_cmp (iactions \<sigma>)" and ?d = "Key key"
  let ?P = "\<lambda>b. \<exists>a. iactions \<sigma> b = Some a \<and> irq_id a \<noteq> key"
  have cmp: "?c (Action (Ptr b 0)) ?d \<noteq> 0 \<longleftrightarrow> ?P b" for b
    by (auto simp: irq_action_cmp_def item_id_def sint_diff_0 split: option.splits)
  have dw: "dropWhile (\<lambda>x. ?c x ?d \<noteq> 0) (action_items bs) = action_items (dropWhile ?P bs)"
    by (simp add: action_items_def dropWhile_map comp_def cmp)
  let ?r = "case action_items (dropWhile ?P bs) of [] \<Rightarrow> (-1, None) | x # _ \<Rightarrow> (0, Some x)"
  have "\<exists>m. on_actions (\<lambda>a. no_os_list_read_find a Valid ?d) \<sigma> = Inr (?r, with_lists \<sigma> m) \<and>
      action_blocks (with_lists \<sigma> m) bs"
  proof (rule on_actions_ok[OF assms])
    fix l :: "irq_item list_state"
    assume l: "holds l (action_items bs)" "comparator l = ?c"
    show "\<exists>l'. no_os_list_read_find Valid Valid ?d l = Inr (?r, l') \<and> holds l' (action_items bs) \<and> same_desc l l'"
      using read_find_run[OF l(1), of ?d] by (simp add: l(2) dw)
  qed
  then obtain m where m: "on_actions (\<lambda>a. no_os_list_read_find a Valid ?d) \<sigma> = Inr (?r, with_lists \<sigma> m)"
    "action_blocks (with_lists \<sigma> m) bs" by blast
  show ?thesis
  proof (intro exI[of _ m] conjI m(2))
    show "actions_find key \<sigma> = (case dropWhile ?P bs of [] \<Rightarrow> Inr ((-1, NULL), with_lists \<sigma> m)
      | b # _ \<Rightarrow> (case iactions \<sigma> b of None \<Rightarrow> Inl Dangling | Some _ \<Rightarrow> Inr ((0, Ptr b 0), with_lists \<sigma> m)))"
      using m(1) by (cases "dropWhile ?P bs")
        (simp_all add: actions_find_def bindm_unfold run_simps action_items_def item_ptr_def CMem.deref_def
          del: dropWhile_eq_Nil_conv split: option.splits)
  qed
qed

lemma handlers_None: "handlers as i = None \<longleftrightarrow> i \<notin> irq_id ` set as"
  by (simp add: handlers_def map_of_eq_None_iff image_image)

lemma handlers_Some:
  "distinct (map irq_id as) \<Longrightarrow> a \<in> set as \<Longrightarrow> handlers as (irq_id a) = Some (callback a, ia_ctx a)"
  unfolding handlers_def by (rule map_of_is_SomeI) (auto simp: comp_def)

lemma action_rep_find:
  assumes "action_rep \<sigma> bs as"
  shows "\<exists>m. action_rep (with_lists \<sigma> m) bs as \<and>
    ((key \<notin> irq_id ` set as \<and> actions_find key \<sigma> = Inr ((-1, NULL), with_lists \<sigma> m)) \<or>
     (\<exists>a b. a \<in> set as \<and> b \<in> set bs \<and> irq_id a = key \<and> iactions \<sigma> b = Some a \<and>
       actions_find key \<sigma> = Inr ((0, Ptr b 0), with_lists \<sigma> m)))"
proof -
  have bs: "action_blocks \<sigma> bs" "map (iactions \<sigma>) bs = map Some as" "distinct bs" "distinct (map irq_id as)"
    "\<forall>a\<in>set as. IS_EXTI_GPIO_PIN (irq_id a)" using assms by (auto simp: action_rep_def)
  let ?P = "\<lambda>b. \<exists>a. iactions \<sigma> b = Some a \<and> irq_id a \<noteq> key"
  from actions_find_run[OF bs(1), of key] obtain m where m: "action_blocks (with_lists \<sigma> m) bs"
    "actions_find key \<sigma> = (case dropWhile ?P bs of [] \<Rightarrow> Inr ((-1, NULL), with_lists \<sigma> m)
      | b # _ \<Rightarrow> (case iactions \<sigma> b of None \<Rightarrow> Inl Dangling | Some _ \<Rightarrow> Inr ((0, Ptr b 0), with_lists \<sigma> m)))"
    by blast
  have img: "iactions \<sigma> ` set bs = Some ` set as" using arg_cong[OF bs(2), of set] by simp
  have live: "\<exists>b\<in>set bs. iactions \<sigma> b = Some a" if "a \<in> set as" for a
  proof -
    have "Some a \<in> iactions \<sigma> ` set bs" unfolding img using that by (rule imageI)
    then show ?thesis by force
  qed
  have known: "\<exists>a\<in>set as. iactions \<sigma> b = Some a" if "b \<in> set bs" for b
  proof -
    have "iactions \<sigma> b \<in> Some ` set as" unfolding img[symmetric] using that by (rule imageI)
    then show ?thesis by force
  qed
  have al: "action_rep (with_lists \<sigma> m) bs as" using m(1) bs by (simp add: action_rep_def)
  show ?thesis
  proof (cases "dropWhile ?P bs")
    case Nil
    then have all: "\<forall>b\<in>set bs. ?P b" by (simp only: dropWhile_eq_Nil_conv)
    have "key \<notin> irq_id ` set as"
    proof
      assume "key \<in> irq_id ` set as"
      then obtain a where a: "a \<in> set as" "irq_id a = key" by blast
      from live[OF a(1)] obtain b where "b \<in> set bs" "iactions \<sigma> b = Some a" by blast
      with all a(2) show False by force
    qed
    moreover have "actions_find key \<sigma> = Inr ((-1, NULL), with_lists \<sigma> m)" using m(2) unfolding Nil by simp
    ultimately show ?thesis using al by blast
  next
    case (Cons b cs)
    have "b \<in> set (dropWhile ?P bs)" unfolding Cons by simp
    then have b: "b \<in> set bs" by (rule set_dropWhileD)
    from known[OF b] obtain a where a: "a \<in> set as" "iactions \<sigma> b = Some a" by blast
    have "\<not> ?P b" using hd_dropWhile[of ?P bs] unfolding Cons by simp
    with a(2) have "irq_id a = key" by simp
    moreover have "actions_find key \<sigma> = Inr ((0, Ptr b 0), with_lists \<sigma> m)" using m(2) a(2) unfolding Cons by simp
    ultimately show ?thesis using al a b by blast
  qed
qed

section \<open>The interrupt\<close>

lemma pin_word: "n < 16 \<Longrightarrow> ucast (push_bit n 1 :: u16) = (push_bit n 1 :: u32)"
  by (rule bit_eqI) (auto simp: bit_unsigned_iff bit_push_bit_iff bit_1_iff simp del: push_bit_of_1)

lemma pin_number: "n < 32 \<Longrightarrow> no_os_find_first_set_bit (push_bit n 1) = of_nat n"
  by (rule find_first_set_bit_run) (simp_all add: bit_pin del: push_bit_of_1)

lemma pin_pending: "n < 32 \<Longrightarrow> HAL_GPIO_EXTI_GET_IT (push_bit n 1) r = bit (PR1 r) n"
  using line_bit_iff[of n "PR1 r"] by (simp add: HAL_GPIO_EXTI_GET_IT_def line_bit_def)

lemma action_list_xr [simp]: "action_list (\<sigma>\<lparr>xr := r\<rparr>) as = action_list \<sigma> as"
  by (simp add: action_list_def action_rep_def action_blocks_def)

text \<open>What the search finds decides what the interrupt does.\<close>

lemma callback_key: "n < 16 \<Longrightarrow> no_os_find_first_set_bit (ucast (push_bit n 1 :: u16)) = of_nat n"
  by (simp only: pin_word) (rule pin_number, simp)

lemmas callback_simps = HAL_GPIO_EXTI_Callback_def stm32_handle_generic_callback_def callback_key bindm_unfold run_simps

lemma callback_of_miss:
  "n < 16 \<Longrightarrow> actions_find (of_nat n) \<sigma> = Inr ((-1, p), \<sigma>') \<Longrightarrow>
   HAL_GPIO_EXTI_Callback call (push_bit n 1) \<sigma> = Inr ((), \<sigma>')"
  by (simp add: callback_simps del: push_bit_of_1)

lemma callback_of_hit:
  "n < 16 \<Longrightarrow> actions_find (of_nat n) \<sigma> = Inr ((0, Ptr b 0), \<sigma>') \<Longrightarrow> iactions \<sigma>' b = Some a \<Longrightarrow>
   HAL_GPIO_EXTI_Callback call (push_bit n 1) \<sigma> =
     (case callback a of None \<Rightarrow> Inr ((), \<sigma>') | Some f \<Rightarrow> call f (ia_ctx a) \<sigma>')"
  by (simp add: callback_simps del: push_bit_of_1 split: option.splits)

lemma callback_of_fault:
  "n < 16 \<Longrightarrow> actions_find (of_nat n) \<sigma> = Inl flt \<Longrightarrow> HAL_GPIO_EXTI_Callback call (push_bit n 1) \<sigma> = Inl flt"
  by (simp add: callback_simps del: push_bit_of_1)

lemma callback_run:
  assumes "action_list \<sigma> as" and "n < 16"
  shows "\<exists>m. action_list (with_lists \<sigma> m) as \<and> HAL_GPIO_EXTI_Callback call (push_bit n 1) \<sigma> =
    (case handlers as (of_nat n) of Some (Some f, c) \<Rightarrow> call f c (with_lists \<sigma> m) | _ \<Rightarrow> Inr ((), with_lists \<sigma> m))"
proof -
  obtain bs where rep: "action_rep \<sigma> bs as" using assms(1) by (auto simp: action_list_def)
  then have d: "distinct (map irq_id as)" by (simp add: action_rep_def)
  from action_rep_find[OF rep, of "of_nat n"] obtain m where "action_rep (with_lists \<sigma> m) bs as"
    and r: "(of_nat n \<notin> irq_id ` set as \<and> actions_find (of_nat n) \<sigma> = Inr ((-1, NULL), with_lists \<sigma> m)) \<or>
     (\<exists>a b. a \<in> set as \<and> b \<in> set bs \<and> irq_id a = of_nat n \<and> iactions \<sigma> b = Some a \<and>
       actions_find (of_nat n) \<sigma> = Inr ((0, Ptr b 0), with_lists \<sigma> m))" by blast
  then have m: "action_list (with_lists \<sigma> m) as" by (auto simp: action_list_def)
  from r show ?thesis
  proof (elim disjE exE conjE)
    assume "of_nat n \<notin> irq_id ` set as" "actions_find (of_nat n) \<sigma> = Inr ((-1, NULL), with_lists \<sigma> m)"
    moreover from this(1) have "handlers as (of_nat n) = None" by (simp only: handlers_None not_False_eq_True)
    ultimately show ?thesis using m callback_of_miss[OF assms(2)] by (intro exI[of _ m]) simp
  next
    fix a b
    assume a: "a \<in> set as" "irq_id a = of_nat n" "iactions \<sigma> b = Some a"
      "actions_find (of_nat n) \<sigma> = Inr ((0, Ptr b 0), with_lists \<sigma> m)"
    moreover have "handlers as (of_nat n) = Some (callback a, ia_ctx a)"
      using handlers_Some[OF d a(1)] by (simp only: a(2))
    ultimately show ?thesis using m callback_of_hit[OF assms(2) a(4), of a] by (intro exI[of _ m]) (simp split: option.splits)
  qed
qed

text \<open>C31: The interrupt of pin \<open>n\<close>: when its line is pending the pending bit is cleared and the
  callback that the list holds for pin \<open>n\<close> is called with its context, once, and no other
  callback; nothing is called when there is none. When the line is not pending nothing
  happens.\<close>

theorem pin_interrupt_dispatched:
  assumes "action_list \<sigma> as" and "n < 16"
  shows "\<exists>m. action_list (\<sigma>\<lparr>xr := HAL_GPIO_EXTI_CLEAR_IT (push_bit n 1) (xr \<sigma>), lists := m\<rparr>) as \<and>
    HAL_GPIO_EXTI_IRQHandler call (push_bit n 1) \<sigma> =
      (if bit (PR1 (xr \<sigma>)) n then
         (let \<sigma>' = \<sigma>\<lparr>xr := HAL_GPIO_EXTI_CLEAR_IT (push_bit n 1) (xr \<sigma>), lists := m\<rparr> in
          case handlers as (of_nat n) of Some (Some f, c) \<Rightarrow> call f c \<sigma>' | _ \<Rightarrow> Inr ((), \<sigma>'))
       else Inr ((), \<sigma>))"
proof -
  let ?\<sigma> = "\<sigma>\<lparr>xr := HAL_GPIO_EXTI_CLEAR_IT (push_bit n 1) (xr \<sigma>)\<rparr>"
  have "action_list ?\<sigma> as" using assms(1) by simp
  from callback_run[OF this assms(2), of call] obtain m where "action_list (with_lists ?\<sigma> m) as"
    "HAL_GPIO_EXTI_Callback call (push_bit n 1) ?\<sigma> = (case handlers as (of_nat n) of
       Some (Some f, c) \<Rightarrow> call f c (with_lists ?\<sigma> m) | _ \<Rightarrow> Inr ((), with_lists ?\<sigma> m))" by blast
  moreover have "n < 32" using assms(2) by simp
  ultimately show ?thesis
    by (intro exI[of _ m])
      (simp add: HAL_GPIO_EXTI_IRQHandler_def bindm_unfold run_simps pin_word[OF assms(2)] pin_pending Let_def
        del: push_bit_of_1)
qed

section \<open>Registering a callback\<close>

text \<open>The configuration of a pin's line, as the HAL reads it from the registers.\<close>

definition line_config :: "'z gpio_irq_state_scheme \<Rightarrow> u32 \<Rightarrow> EXTI_ConfigTypeDef" where
  "line_config \<sigma> pin = the (HAL_EXTI_GetConfigLine (Some (gpio_line pin)) (xr \<sigma>))"

lemma handlers_simps [simp]:
  "handlers [] = Map.empty" "handlers (a # as) = (handlers as)(irq_id a \<mapsto> (callback a, ia_ctx a))"
  by (simp_all add: handlers_def)

lemma handlers_snoc: "irq_id e \<notin> irq_id ` set xs \<Longrightarrow>
  handlers (xs @ e # ys) = (handlers (xs @ ys))(irq_id e \<mapsto> (callback e, ia_ctx e))"
  by (induction xs) (auto simp: fun_upd_twist)

lemma set_config_run:
  assumes "isdescs \<sigma> e = Some sd"
  shows "set_config_line (Ptr e 0) c \<sigma> = Inr (True, \<sigma>\<lparr>isdescs := (isdescs \<sigma>)(e \<mapsto> sd\<lparr>hexti := Line c\<rparr>),
    xr := snd (HAL_EXTI_SetConfigLine (Some (hexti sd)) (Some c) (xr \<sigma>))\<rparr>)"
  using assms by (simp add: set_config_line_def bindm_unfold run_simps HAL_EXTI_SetConfigLine_def Let_def)

lemma action_rep_update:
  assumes rep: "action_rep \<sigma> bs as" and a: "b \<in> set bs" "iactions \<sigma> b = Some a" and e: "irq_id e = irq_id a"
  shows "\<exists>as'. action_rep (\<sigma>\<lparr>iactions := (iactions \<sigma>)(b \<mapsto> e)\<rparr>) bs as' \<and>
    handlers as' = (handlers as)(irq_id e \<mapsto> (callback e, ia_ctx e))"
proof -
  obtain cs ds where bs: "bs = cs @ b # ds" using a(1) by (auto dest: split_list)
  with rep a(2) obtain xs ys where as: "as = xs @ a # ys" "map (iactions \<sigma>) cs = map Some xs" "map (iactions \<sigma>) ds = map Some ys"
    by (auto simp: action_rep_def map_eq_append_conv append_eq_map_conv map_eq_Cons_conv Cons_eq_map_conv)
  have b: "b \<notin> set cs" "b \<notin> set ds" using rep by (auto simp: action_rep_def bs)
  have d: "irq_id a \<notin> irq_id ` set xs" using rep by (auto simp: action_rep_def as(1))
  have "action_rep (\<sigma>\<lparr>iactions := (iactions \<sigma>)(b \<mapsto> e)\<rparr>) bs (xs @ e # ys)"
    using rep b as(2,3) by (auto simp: action_rep_def action_blocks_def bs as(1) e map_fun_upd)
  moreover have "handlers (xs @ e # ys) = (handlers as)(irq_id e \<mapsto> (callback e, ia_ctx e))"
    using d by (simp add: as(1) handlers_snoc e)
  ultimately show ?thesis by blast
qed

lemma action_rep_new:
  assumes rep: "action_rep \<sigma> bs as" and b: "iactions \<sigma> b = Some e" "b \<notin> set bs"
    and e: "irq_id e \<notin> irq_id ` set as" "IS_EXTI_GPIO_PIN (irq_id e)" and mem: "\<forall>k i. list_grants \<sigma> k i"
  shows "\<exists>m. on_actions (\<lambda>a. no_os_list_add_last a (Action (Ptr b 0))) \<sigma> = Inr (0, with_lists \<sigma> m) \<and>
    action_rep (with_lists \<sigma> m) (bs @ [b]) (as @ [e])"
proof -
  have r: "action_blocks \<sigma> bs" "map (iactions \<sigma>) bs = map Some as" "distinct bs" "distinct (map irq_id as)"
    "\<forall>a\<in>set as. IS_EXTI_GPIO_PIN (irq_id a)" using rep by (auto simp: action_rep_def)
  let ?ids = "map (\<lambda>a. unat (irq_id a)) as"
  have "distinct ?ids" using r(4) by (simp add: distinct_map inj_on_def word_unat_eq_iff)
  moreover have "set ?ids \<subseteq> {..<16}" using r(5) pin_less by auto
  ultimately have "length as \<le> 16"
    using card_mono[of "{..<16 :: nat}" "set ?ids"] distinct_card[of ?ids] by simp
  moreover have "length bs = length as" using arg_cong[OF r(2), of length] by simp
  ultimately have len: "Suc (length (action_items bs)) < 2 ^ 31" by (simp add: action_items_def)
  have "\<exists>m. on_actions (\<lambda>a. no_os_list_add_last a (Action (Ptr b 0))) \<sigma> = Inr (0, with_lists \<sigma> m) \<and>
      action_blocks (with_lists \<sigma> m) (bs @ [b])"
  proof (rule on_actions_ok[OF r(1)])
    fix l :: "irq_item list_state"
    assume l: "holds l (action_items bs)" "alloc_ok l = list_grants \<sigma> (the (actions \<sigma>))"
    show "\<exists>l'. no_os_list_add_last Valid (Action (Ptr b 0)) l = Inr (0, l') \<and> holds l' (action_items (bs @ [b])) \<and> same_desc l l'"
      using queue.push_run[OF l(1) _ len, of "Action (Ptr b 0)"] mem l(2) by (simp add: action_items_def)
  qed
  then show ?thesis using r b e by (auto simp: action_rep_def)
qed

lemma port_nibble: "IS_EXTI_GPIO_PORT p \<Longrightarrow> ucast p AND (0xF :: u32) = ucast p"
  by (rule small_pin)
    (simp add: IS_EXTI_GPIO_PORT_def word_less_nat_alt word_le_nat_alt unsigned_ucast_eq
      le_less_trans[OF take_bit_nat_less_eq_self])

lemma action_list_cong:
  assumes "action_rep \<sigma> bs as" and "actions \<sigma>' = actions \<sigma>" and "lists \<sigma>' = lists \<sigma>"
    and "list_grants \<sigma>' = list_grants \<sigma>" and "iactions \<sigma>' = iactions \<sigma>"
  shows "action_rep \<sigma>' bs as"
  using assms by (simp add: action_rep_def action_blocks_def)

text \<open>The action and the configuration that registering writes.\<close>

definition new_action :: "u32 \<Rightarrow> no_os_callback_desc \<Rightarrow> irq_action" where
  "new_action n cb = \<lparr>irq_id = n, callback = cb_callback cb, ia_ctx = cb_ctx cb\<rparr>"

definition new_config :: "u32 \<Rightarrow> u32 \<Rightarrow> u8 \<Rightarrow> EXTI_ConfigTypeDef" where
  "new_config n stack port =
     \<lparr>Line = gpio_line n, ex_Mode = EXTI_MODE_INTERRUPT, Trigger = stack, GPIOSel = ucast port\<rparr>"

definition armed ::
  "nat \<Rightarrow> stm32_gpio_irq_desc \<Rightarrow> EXTI_ConfigTypeDef \<Rightarrow> 'z gpio_irq_state_scheme \<Rightarrow> 'z gpio_irq_state_scheme" where
  "armed e sd c \<sigma> = \<sigma>\<lparr>isdescs := (isdescs \<sigma>)(e \<mapsto> sd\<lparr>hexti := Line c\<rparr>),
     xr := snd (HAL_EXTI_SetConfigLine (Some (hexti sd)) (Some c) (xr \<sigma>))\<rparr>"

lemma new_action_fields [simp]: "irq_id (new_action n cb) = n" "callback (new_action n cb) = cb_callback cb"
  "ia_ctx (new_action n cb) = cb_ctx cb"
  by (simp_all add: new_action_def)

lemma armed_simps [simp]:
  "actions (armed e sd c \<sigma>) = actions \<sigma>" "lists (armed e sd c \<sigma>) = lists \<sigma>"
  "list_grants (armed e sd c \<sigma>) = list_grants \<sigma>" "iactions (armed e sd c \<sigma>) = iactions \<sigma>"
  by (simp_all add: armed_def)

text \<open>A controller that is in order, as the operations on a pin find it.\<close>

definition controller :: "'z gpio_irq_state_scheme \<Rightarrow> nat \<Rightarrow> no_os_irq_ctrl_desc \<Rightarrow> nat \<Rightarrow> stm32_gpio_irq_desc \<Rightarrow> bool" where
  "controller \<sigma> b d e sd \<longleftrightarrow> idescs \<sigma> b = Some d \<and> iq_extra d = Ptr e 0 \<and> isdescs \<sigma> e = Some sd \<and>
     IS_EXTI_GPIO_PIN (irq_ctrl_id d) \<and> IS_EXTI_GPIO_PORT (sd_port_nb sd)"

lemmas register_simps = stm32_gpio_irq_register_callback_def bindm_unfold run_simps Let_def set_config_run

lemma register_existing:
  assumes "controller \<sigma> b d e sd" and "action_rep (with_lists \<sigma> m) bs as"
    and a: "b' \<in> set bs" "irq_id a = irq_ctrl_id d" "iactions \<sigma> b' = Some a"
    and "actions_find (irq_ctrl_id d) \<sigma> = Inr ((0, Ptr b' 0), with_lists \<sigma> m)"
  shows "\<exists>\<tau> as'. stm32_gpio_irq_register_callback stack (Ptr b 0) i (Some cb) \<sigma> =
      Inr (0, armed e sd (new_config (irq_ctrl_id d) stack (sd_port_nb sd)) \<tau>) \<and> action_list \<tau> as' \<and>
    handlers as' = (handlers as)(irq_ctrl_id d \<mapsto> (cb_callback cb, cb_ctx cb)) \<and> xr \<tau> = xr \<sigma>"
proof -
  let ?e = "new_action (irq_ctrl_id d) cb"
  let ?\<tau> = "(with_lists \<sigma> m)\<lparr>iactions := (iactions \<sigma>)(b' \<mapsto> ?e)\<rparr>"
  have "\<exists>as'. action_rep ?\<tau> bs as' \<and> handlers as' = (handlers as)(irq_ctrl_id d \<mapsto> (cb_callback cb, cb_ctx cb))"
    using action_rep_update[OF assms(2) a(1), of a ?e] a by simp
  moreover have "stm32_gpio_irq_register_callback stack (Ptr b 0) i (Some cb) \<sigma> =
      Inr (0, armed e sd (new_config (irq_ctrl_id d) stack (sd_port_nb sd)) ?\<tau>)"
    using assms by (simp add: register_simps armed_def new_config_def new_action_def controller_def)
  moreover have "xr ?\<tau> = xr \<sigma>" by simp
  ultimately show ?thesis unfolding action_list_def by blast
qed

lemma register_new:
  assumes "controller \<sigma> b d e sd" and rep: "action_rep (with_lists \<sigma> m) bs as"
    and mem: "fresh_irq \<sigma>" "\<forall>k i. list_grants \<sigma> k i" "grants \<sigma> (next_block \<sigma>) sizeof_irq_action"
    and n: "irq_ctrl_id d \<notin> irq_id ` set as"
    and f: "actions_find (irq_ctrl_id d) \<sigma> = Inr ((-1, NULL), with_lists \<sigma> m)"
  shows "\<exists>\<tau> as'. stm32_gpio_irq_register_callback stack (Ptr b 0) i (Some cb) \<sigma> =
      Inr (0, armed e sd (new_config (irq_ctrl_id d) stack (sd_port_nb sd)) \<tau>) \<and> action_list \<tau> as' \<and>
    handlers as' = (handlers as)(irq_ctrl_id d \<mapsto> (cb_callback cb, cb_ctx cb)) \<and> xr \<tau> = xr \<sigma>"
proof -
  let ?b = "next_block \<sigma>" and ?e = "new_action (irq_ctrl_id d) cb"
  let ?\<tau> = "(with_lists \<sigma> m)\<lparr>next_block := Suc ?b, iactions := (iactions \<sigma>)(?b \<mapsto> ?e)\<rparr>"
  have none: "iactions \<sigma> ?b = None" using mem(1) by (simp add: fresh_irq_def)
  have nb: "?b \<notin> set bs"
  proof
    assume "?b \<in> set bs"
    then have "iactions \<sigma> ?b \<in> set (map (iactions \<sigma>) bs)" by simp
    also have "\<dots> = Some ` set as" using rep by (simp add: action_rep_def)
    finally show False using none by simp
  qed
  then have "action_rep ?\<tau> bs as" using rep by (simp add: action_rep_def action_blocks_def map_fun_upd)
  then have "\<exists>m'. on_actions (\<lambda>a. no_os_list_add_last a (Action (Ptr ?b 0))) ?\<tau> = Inr (0, with_lists ?\<tau> m') \<and>
      action_rep (with_lists ?\<tau> m') (bs @ [?b]) (as @ [?e])"
    by (rule action_rep_new) (use nb n mem assms(1) in \<open>simp_all add: controller_def\<close>)
  then obtain m' where m': "on_actions (\<lambda>a. no_os_list_add_last a (Action (Ptr ?b 0))) ?\<tau> = Inr (0, with_lists ?\<tau> m')"
    "action_rep (with_lists ?\<tau> m') (bs @ [?b]) (as @ [?e])" by blast
  have "stm32_gpio_irq_register_callback stack (Ptr b 0) i (Some cb) \<sigma> =
      Inr (0, armed e sd (new_config (irq_ctrl_id d) stack (sd_port_nb sd)) (with_lists ?\<tau> m'))"
    using assms m'(1) by (simp add: register_simps action_calloc_def new_obj_ok armed_def new_config_def new_action_def controller_def)
  moreover have "handlers (as @ [?e]) = (handlers as)(irq_ctrl_id d \<mapsto> (cb_callback cb, cb_ctx cb))"
    using handlers_snoc[of ?e as "[]"] n by simp
  ultimately show ?thesis using m'(2) unfolding action_list_def by fastforce
qed

text \<open>C32: Registering a callback for the pin of a controller: the list then holds this
  callback for the pin, replacing an earlier one, and for every other pin what it held before;
  the pin's line raises interrupts, is routed to the controller's port and triggers on the
  edges that happened to be on the stack in the unassigned member \<open>Trigger\<close>; the
  configuration of every other line is kept.\<close>

theorem register_callback_effect:
  assumes "action_list \<sigma> as" and "controller \<sigma> b d e sd" and "fresh_irq \<sigma>"
    and "\<forall>k i. list_grants \<sigma> k i" and "grants \<sigma> (next_block \<sigma>) sizeof_irq_action"
  shows "\<exists>\<sigma>' as'. stm32_gpio_irq_register_callback stack (Ptr b 0) i (Some cb) \<sigma> = Inr (0, \<sigma>') \<and>
    action_list \<sigma>' as' \<and> handlers as' = (handlers as)(irq_ctrl_id d \<mapsto> (cb_callback cb, cb_ctx cb)) \<and>
    (\<forall>pin. IS_EXTI_GPIO_PIN pin \<longrightarrow> line_config \<sigma>' pin =
      (if pin = irq_ctrl_id d
       then \<lparr>Line = gpio_line pin, ex_Mode = EXTI_MODE_INTERRUPT, Trigger = stack AND 3, GPIOSel = ucast (sd_port_nb sd)\<rparr>
       else line_config \<sigma> pin))"
proof -
  obtain bs where "action_rep \<sigma> bs as" using assms(1) by (auto simp: action_list_def)
  let ?n = "irq_ctrl_id d" and ?c = "new_config (irq_ctrl_id d) stack (sd_port_nb sd)"
  from action_rep_find[OF \<open>action_rep \<sigma> bs as\<close>, of ?n]
  have "\<exists>\<tau> as'. stm32_gpio_irq_register_callback stack (Ptr b 0) i (Some cb) \<sigma> = Inr (0, armed e sd ?c \<tau>) \<and>
      action_list \<tau> as' \<and> handlers as' = (handlers as)(?n \<mapsto> (cb_callback cb, cb_ctx cb)) \<and> xr \<tau> = xr \<sigma>"
    using register_existing[OF assms(2)] register_new[OF assms(2) _ assms(3-5)] by blast
  then obtain \<tau> as' where run: "stm32_gpio_irq_register_callback stack (Ptr b 0) i (Some cb) \<sigma> = Inr (0, armed e sd ?c \<tau>)"
    and \<tau>: "action_list \<tau> as'" "handlers as' = (handlers as)(?n \<mapsto> (cb_callback cb, cb_ctx cb))" "xr \<tau> = xr \<sigma>" by blast
  have "action_list (armed e sd ?c \<tau>) as'"
    using \<tau>(1) unfolding action_list_def by (elim exE) (rule exI, erule action_list_cong, simp_all)
  moreover have "line_config (armed e sd ?c \<tau>) pin = (if pin = ?n
       then \<lparr>Line = gpio_line pin, ex_Mode = EXTI_MODE_INTERRUPT, Trigger = stack AND 3, GPIOSel = ucast (sd_port_nb sd)\<rparr>
       else line_config \<sigma> pin)" if "IS_EXTI_GPIO_PIN pin" for pin
    using get_after_set[of ?n pin ?c "hexti sd" "xr \<sigma>"] that port_nibble[of "sd_port_nb sd"] assms(2) \<tau>(3)
    by (simp add: line_config_def armed_def new_config_def controller_def)
  ultimately show ?thesis using run \<tau>(2) by blast
qed

section \<open>Unregistering\<close>

lemma unregister_run:
  assumes "controller \<sigma> b d e sd" and rep: "action_rep \<sigma> (cs @ b' # ds) (xs @ a # ys)"
    and len: "length cs = length xs" and a: "irq_id a = irq_ctrl_id d"
  shows "\<exists>m. stm32_gpio_irq_unregister_callback (Ptr b 0) i (Some cb) \<sigma> =
      Inr (0, (with_lists \<sigma> m)\<lparr>iactions := (iactions \<sigma>)(b' := None)\<rparr>) \<and>
    action_blocks ((with_lists \<sigma> m)\<lparr>iactions := (iactions \<sigma>)(b' := None)\<rparr>) (cs @ b' # ds)"
proof -
  have r: "action_blocks \<sigma> (cs @ b' # ds)" "map (iactions \<sigma>) cs = map Some xs" "iactions \<sigma> b' = Some a"
    "irq_ctrl_id d \<notin> irq_id ` set xs"
    using rep len a by (auto simp: action_rep_def)
  let ?P = "\<lambda>b. \<exists>a. iactions \<sigma> b = Some a \<and> irq_id a \<noteq> irq_ctrl_id d"
  have "\<forall>c\<in>set cs. ?P c"
  proof
    fix c assume "c \<in> set cs"
    then have "iactions \<sigma> c \<in> set (map (iactions \<sigma>) cs)" by simp
    then show "?P c" unfolding r(2) using r(4) by force
  qed
  then have "dropWhile ?P (cs @ b' # ds) = b' # ds" using r(3) a by (simp add: dropWhile_append2)
  with actions_find_run[OF r(1), of "irq_ctrl_id d"] r(3) obtain m where
    m: "action_blocks (with_lists \<sigma> m) (cs @ b' # ds)" "actions_find (irq_ctrl_id d) \<sigma> = Inr ((0, Ptr b' 0), with_lists \<sigma> m)"
    by auto
  then show ?thesis
    using assms(1) r(3) by (intro exI[of _ m])
      (simp add: stm32_gpio_irq_unregister_callback_def action_free_def bindm_unfold run_simps controller_def action_blocks_def)
qed

text \<open>The list up to a freed action: what comes before it is found.\<close>

lemma prefix_dispatch:
  assumes blk: "action_blocks \<sigma> (cs @ b # ds)" and cs: "map (iactions \<sigma>) cs = map Some xs" and b: "iactions \<sigma> b = None"
    and n: "n < 16" and d: "distinct (map irq_id xs)"
  shows "if of_nat n \<in> irq_id ` set xs
    then (\<exists>\<sigma>'. HAL_GPIO_EXTI_Callback call (push_bit n 1) \<sigma> =
      (case handlers xs (of_nat n) of Some (Some f, c) \<Rightarrow> call f c \<sigma>' | _ \<Rightarrow> Inr ((), \<sigma>')))
    else HAL_GPIO_EXTI_Callback call (push_bit n 1) \<sigma> = Inl Dangling"
proof -
  let ?P = "\<lambda>b. \<exists>a. iactions \<sigma> b = Some a \<and> irq_id a \<noteq> of_nat n"
  have img: "iactions \<sigma> ` set cs = Some ` set xs" using arg_cong[OF cs, of set] by simp
  obtain m where find: "actions_find (of_nat n) \<sigma> =
    (case dropWhile ?P (cs @ b # ds) of [] \<Rightarrow> Inr ((-1, NULL), with_lists \<sigma> m)
     | b # _ \<Rightarrow> (case iactions \<sigma> b of None \<Rightarrow> Inl Dangling | Some _ \<Rightarrow> Inr ((0, Ptr b 0), with_lists \<sigma> m)))"
    using actions_find_run[OF blk, of "of_nat n"] by blast
  show ?thesis
  proof (cases "dropWhile ?P cs")
    case Nil
    then have all: "\<forall>c\<in>set cs. ?P c" by (simp only: dropWhile_eq_Nil_conv)
    have "of_nat n \<notin> irq_id ` set xs"
    proof
      assume "of_nat n \<in> irq_id ` set xs"
      then obtain a where a: "a \<in> set xs" "irq_id a = of_nat n" by (metis imageE)
      then have "Some a \<in> iactions \<sigma> ` set cs" unfolding img by (intro imageI)
      then obtain c where "c \<in> set cs" "iactions \<sigma> c = Some a" by force
      with all a(2) show False by force
    qed
    moreover have "dropWhile ?P (cs @ b # ds) = b # ds" using all b by (simp add: dropWhile_append2)
    ultimately show ?thesis using find b callback_of_fault[OF n] by simp
  next
    case (Cons c cs')
    have "c \<in> set (dropWhile ?P cs)" unfolding Cons by simp
    then have c: "c \<in> set cs" by (rule set_dropWhileD)
    then have "iactions \<sigma> c \<in> Some ` set xs" unfolding img[symmetric] by (rule imageI)
    then obtain a where a: "a \<in> set xs" "iactions \<sigma> c = Some a" by blast
    have np: "\<not> ?P c" using hd_dropWhile[of ?P cs] unfolding Cons by simp
    then have i: "irq_id a = of_nat n" using a(2) by simp
    have "dropWhile ?P (cs @ b # ds) = c # cs' @ b # ds" using dropWhile_append1[where P = ?P, OF c np] Cons by simp
    then have "actions_find (of_nat n) \<sigma> = Inr ((0, Ptr c 0), with_lists \<sigma> m)" using find a(2) by simp
    moreover have "handlers xs (of_nat n) = Some (callback a, ia_ctx a)" using handlers_Some[OF d a(1)] by (simp only: i)
    moreover have "of_nat n \<in> irq_id ` set xs" using a(1) i by (metis imageI)
    ultimately show ?thesis using callback_of_hit[OF n, of \<sigma> c "with_lists \<sigma> m" a call] a(2)
      by (auto split: option.splits)
  qed
qed

text \<open>C33: Unregistering the callback of a pin frees its action and leaves it in the list. From
  then on an interrupt of any pin whose action does not come before it in the list reads the
  freed action, also when that pin has a callback or never had one; only the pins registered
  earlier still work.\<close>

theorem unregister_leaves_dangling:
  assumes "action_list \<sigma> (xs @ a # ys)" and "controller \<sigma> b d e sd" and "irq_ctrl_id d = irq_id a"
  shows "\<exists>\<sigma>'. stm32_gpio_irq_unregister_callback (Ptr b 0) i (Some cb) \<sigma> = Inr (0, \<sigma>') \<and>
    (\<forall>n < 16. if of_nat n \<in> irq_id ` set xs
      then (\<exists>\<sigma>''. HAL_GPIO_EXTI_Callback call (push_bit n 1) \<sigma>' =
        (case handlers xs (of_nat n) of Some (Some f, c) \<Rightarrow> call f c \<sigma>'' | _ \<Rightarrow> Inr ((), \<sigma>'')))
      else HAL_GPIO_EXTI_Callback call (push_bit n 1) \<sigma>' = Inl Dangling)"
proof -
  obtain bs where rep: "action_rep \<sigma> bs (xs @ a # ys)" using assms(1) by (auto simp: action_list_def)
  then obtain cs b' ds where bs: "bs = cs @ b' # ds" "map (iactions \<sigma>) cs = map Some xs" "iactions \<sigma> b' = Some a"
    by (auto simp: action_rep_def map_eq_append_conv append_eq_map_conv map_eq_Cons_conv Cons_eq_map_conv)
  have d: "distinct (map irq_id xs)" "b' \<notin> set cs" using rep by (auto simp: action_rep_def bs(1))
  let ?\<sigma> = "\<lambda>m. (with_lists \<sigma> m)\<lparr>iactions := (iactions \<sigma>)(b' := None)\<rparr>"
  from unregister_run[OF assms(2) rep[unfolded bs(1)], of i cb] arg_cong[OF bs(2), of length] assms(3) obtain m where
    run: "stm32_gpio_irq_unregister_callback (Ptr b 0) i (Some cb) \<sigma> = Inr (0, ?\<sigma> m)"
    and blk: "action_blocks (?\<sigma> m) (cs @ b' # ds)" by auto
  have cs: "map (iactions (?\<sigma> m)) cs = map Some xs" using bs(2) d(2) by (simp add: map_fun_upd)
  show ?thesis
  proof (rule exI, rule conjI, rule run, intro allI impI)
    fix n :: nat
    assume n: "n < 16"
    show "if of_nat n \<in> irq_id ` set xs
      then (\<exists>\<sigma>''. HAL_GPIO_EXTI_Callback call (push_bit n 1) (?\<sigma> m) =
        (case handlers xs (of_nat n) of Some (Some f, c) \<Rightarrow> call f c \<sigma>'' | _ \<Rightarrow> Inr ((), \<sigma>'')))
      else HAL_GPIO_EXTI_Callback call (push_bit n 1) (?\<sigma> m) = Inl Dangling"
      using prefix_dispatch[OF blk cs _ n, of call] d(1) by simp
  qed
qed

section \<open>Controllers share the list\<close>

lemma actions_init_run:
  assumes "\<forall>k i. list_grants \<sigma> k i"
  shows "\<exists>m. actions_init \<sigma> = Inr (0, \<sigma>\<lparr>lists := m, next_list := Suc (next_list \<sigma>), actions := Some (next_list \<sigma>)\<rparr>) \<and>
    held m (list_grants \<sigma>) (Some (next_list \<sigma>)) []"
proof -
  have "\<forall>i. list_grants \<sigma> (next_list \<sigma>) i" using assms by simp
  from new_list_ok[where heap = lists and put = "\<lambda>m \<sigma>. \<sigma>\<lparr>lists := m\<rparr>" and nxt = next_list and
      set_nxt = "\<lambda>n \<sigma>. \<sigma>\<lparr>next_list := n\<rparr>" and ok = "list_grants \<sigma>" and \<sigma> = \<sigma>, OF this, of NO_OS_LIST_PRIORITY_LIST "irq_action_cmp (iactions \<sigma>)" "actions \<sigma>"]
  show ?thesis by (auto simp: actions_init_def bindm_unfold run_simps)
qed

lemma action_list_Nil: "action_blocks \<sigma> [] \<Longrightarrow> action_list \<sigma> []"
  by (auto simp: action_list_def action_rep_def)

text \<open>Creating the controller of a pin that has none makes a new, empty list of actions
  for all pins: the callbacks that were registered before, for whatever pins, are lost, and no
  interrupt calls anything until a callback is registered again.\<close>

theorem controller_init_forgets:
  assumes "IS_EXTI_GPIO_PORT p" and "IS_EXTI_GPIO_PIN pin" and "\<not> initialized \<sigma> (unat pin)"
    and "\<forall>b sz. grants \<sigma> b sz" and "\<forall>k i. list_grants \<sigma> k i"
  shows "\<exists>\<sigma>' b d e sd. stm32_gpio_irq_ctrl_init (Some x)
      (Some \<lparr>ip_irq_ctrl_id = pin, ip_platform_ops = ops, ip_extra = Some \<lparr>port_nb = p\<rparr>\<rparr>) \<sigma> = Inr ((0, Some (Ptr b 0)), \<sigma>') \<and>
    controller \<sigma>' b d e sd \<and> irq_ctrl_id d = pin \<and> action_list \<sigma>' [] \<and>
    (\<forall>n < 16. \<exists>\<sigma>''. HAL_GPIO_EXTI_Callback call (push_bit n 1) \<sigma>' = Inr ((), \<sigma>''))"
proof -
  let ?b = "next_block \<sigma>"
  let ?d = "\<lparr>irq_ctrl_id = pin, iq_platform_ops = None, iq_ref = 0, iq_extra = Ptr (Suc ?b) 0\<rparr>"
  let ?sd = "\<lparr>hexti = 0, sd_port_nb = p\<rparr>"
  let ?\<sigma>1 = "\<sigma>\<lparr>next_block := Suc (Suc ?b), isdescs := (isdescs \<sigma>)(Suc ?b \<mapsto> ?sd), idescs := (idescs \<sigma>)(?b \<mapsto> ?d)\<rparr>"
  from actions_init_run[of ?\<sigma>1] assms(5) obtain m where
    m: "actions_init ?\<sigma>1 = Inr (0, ?\<sigma>1\<lparr>lists := m, next_list := Suc (next_list \<sigma>), actions := Some (next_list \<sigma>)\<rparr>)"
      "held m (list_grants \<sigma>) (Some (next_list \<sigma>)) []" by auto
  let ?\<sigma>2 = "?\<sigma>1\<lparr>lists := m, next_list := Suc (next_list \<sigma>), actions := Some (next_list \<sigma>),
    initialized := (initialized \<sigma>)(unat pin := True), gpio_irq_desc_arr := (gpio_irq_desc_arr \<sigma>)(unat pin := Ptr ?b 0)\<rparr>"
  have "stm32_gpio_irq_ctrl_init (Some x)
      (Some \<lparr>ip_irq_ctrl_id = pin, ip_platform_ops = ops, ip_extra = Some \<lparr>port_nb = p\<rparr>\<rparr>) \<sigma> = Inr ((0, Some (Ptr ?b 0)), ?\<sigma>2)"
    using assms m(1) by (simp add: stm32_gpio_irq_ctrl_init_def idesc_calloc_def isdesc_calloc_def put_idesc_def
        bindm_unfold run_simps Let_def new_obj_ok)
  moreover have "controller ?\<sigma>2 ?b ?d (Suc ?b) ?sd" using assms(1,2) by (simp add: controller_def)
  moreover have al: "action_list ?\<sigma>2 []"
    by (rule action_list_Nil) (use m in \<open>simp add: action_blocks_def action_items_def\<close>)
  moreover have "\<exists>\<sigma>''. HAL_GPIO_EXTI_Callback call (push_bit n 1) ?\<sigma>2 = Inr ((), \<sigma>'')" if "n < 16" for n
    using callback_run[OF al that, of call] by auto
  ultimately show ?thesis by (intro exI conjI) (assumption | simp)+
qed

text \<open>Removing a controller empties the list and frees it.\<close>

definition actions_gone :: "'z gpio_irq_state_scheme \<Rightarrow> bool" where
  "actions_gone \<sigma> \<longleftrightarrow> list_gone (lists \<sigma>) (actions \<sigma>)"

lemma on_actions_gone: "actions_gone \<sigma> \<Longrightarrow> on_actions f \<sigma> = Inl Dangling"
  by (simp add: actions_gone_def on_actions_def run_list_gone)

lemma find_gone: "actions_gone \<sigma> \<Longrightarrow> actions_find key \<sigma> = Inl Dangling"
  by (simp add: actions_find_def bindm_unfold on_actions_gone)

lemma actions_size_run: "action_blocks \<sigma> bs \<Longrightarrow> actions_size \<sigma> = length bs"
  using unat_nb_elements by (fastforce simp: action_blocks_def held_def actions_size_def holds_def action_items_def dest: arg_cong[where f = length])

declare free_actions.simps(2) [simp del]

lemma free_actions_run:
  "action_blocks \<sigma> bs \<Longrightarrow> distinct bs \<Longrightarrow> \<forall>b\<in>set bs. iactions \<sigma> b \<noteq> None \<Longrightarrow>
   \<exists>m. free_actions (Suc (length bs)) \<sigma> = Inr ((), (with_lists \<sigma> m)\<lparr>iactions := iactions \<sigma> |` (- set bs)\<rparr>) \<and>
     action_blocks ((with_lists \<sigma> m)\<lparr>iactions := iactions \<sigma> |` (- set bs)\<rparr>) []"
proof (induction bs arbitrary: \<sigma>)
  case Nil
  have "\<exists>m. on_actions (\<lambda>a. no_os_list_get_first a Valid) \<sigma> = Inr ((-1, None), with_lists \<sigma> m) \<and> action_blocks (with_lists \<sigma> m) []"
    by (rule on_actions_ok[OF Nil.prems(1)]) (use queue.pop_empty in \<open>fastforce simp: action_items_def\<close>)
  then obtain m where "on_actions (\<lambda>a. no_os_list_get_first a Valid) \<sigma> = Inr ((-1, None), with_lists \<sigma> m)"
    "action_blocks (with_lists \<sigma> m) []" by blast
  then show ?case by (intro exI[of _ m]) (simp add: free_actions.simps(2) bindm_unfold run_simps action_blocks_def)
next
  case (Cons b bs)
  have "\<exists>m. on_actions (\<lambda>a. no_os_list_get_first a Valid) \<sigma> = Inr ((0, Some (Action (Ptr b 0))), with_lists \<sigma> m) \<and>
      action_blocks (with_lists \<sigma> m) bs"
    by (rule on_actions_ok[OF Cons.prems(1)]) (use queue.pop_run in \<open>fastforce simp: action_items_def\<close>)
  then obtain m where m: "on_actions (\<lambda>a. no_os_list_get_first a Valid) \<sigma> = Inr ((0, Some (Action (Ptr b 0))), with_lists \<sigma> m)"
    "action_blocks (with_lists \<sigma> m) bs" by blast
  let ?\<sigma> = "(with_lists \<sigma> m)\<lparr>iactions := (iactions \<sigma>)(b := None)\<rparr>"
  have "action_blocks ?\<sigma> bs" using m(2) by (simp add: action_blocks_def)
  moreover have "distinct bs" "\<forall>b\<in>set bs. iactions ?\<sigma> b \<noteq> None" using Cons.prems(2,3) by auto
  ultimately obtain m' where m': "free_actions (Suc (length bs)) ?\<sigma> =
      Inr ((), (with_lists ?\<sigma> m')\<lparr>iactions := iactions ?\<sigma> |` (- set bs)\<rparr>)"
    "action_blocks ((with_lists ?\<sigma> m')\<lparr>iactions := iactions ?\<sigma> |` (- set bs)\<rparr>) []"
    using Cons.IH by blast
  define h where "h = iactions \<sigma> |` (- set (b # bs))"
  have "iactions ?\<sigma> |` (- set bs) = h" by (auto simp: h_def restrict_map_def fun_eq_iff)
  then have h: "free_actions (Suc (length bs)) ?\<sigma> = Inr ((), (with_lists \<sigma> m')\<lparr>iactions := h\<rparr>)"
    "action_blocks ((with_lists \<sigma> m')\<lparr>iactions := h\<rparr>) []" using m' by simp_all
  obtain a where "iactions \<sigma> b = Some a" using Cons.prems(3) by auto
  then have "free_actions (Suc (length (b # bs))) \<sigma> = free_actions (Suc (length bs)) ?\<sigma>"
    using m(1) by (simp add: free_actions.simps(2)[of "Suc (length bs)"] bindm_unfold run_simps item_ptr_def action_free_def)
  with h show ?case unfolding h_def by (intro exI[of _ m']) simp
qed

lemma list_removed:
  assumes "action_blocks \<sigma> bs"
  shows "\<exists>m. on_actions no_os_list_remove \<sigma> = Inr (0, with_lists \<sigma> m) \<and> actions_gone (with_lists \<sigma> m)"
  using run_list_remove[where heap = lists and put = "\<lambda>m \<sigma>. \<sigma>\<lparr>lists := m\<rparr>" and cmp = "\<lambda>\<sigma>. irq_action_cmp (iactions \<sigma>)",
      OF assms[unfolded action_blocks_def]]
  by (auto simp: on_actions_def actions_gone_def)

lemma action_rep_live:
  assumes "action_rep \<sigma> bs as"
  shows "\<forall>b\<in>set bs. iactions \<sigma> b \<noteq> None"
proof
  fix b assume "b \<in> set bs"
  then have "iactions \<sigma> b \<in> set (map (iactions \<sigma>) bs)" by simp
  also have "\<dots> = Some ` set as" using assms by (simp add: action_rep_def)
  finally show "iactions \<sigma> b \<noteq> None" by auto
qed

text \<open>Removing the controller of one pin frees the actions of all pins and the list itself:
  afterwards an interrupt of any pin reads the freed list, and so does registering or
  unregistering a callback with any other controller.\<close>

theorem controller_remove_breaks_others:
  assumes "action_list \<sigma> as" and "controller \<sigma> b d e sd"
  shows "\<exists>\<sigma>'. stm32_gpio_irq_ctrl_remove (Ptr b 0) \<sigma> = Inr (0, \<sigma>') \<and>
    idescs \<sigma>' b = None \<and> isdescs \<sigma>' e = None \<and> \<not> initialized \<sigma>' (unat (irq_ctrl_id d)) \<and>
    (\<forall>n < 16. HAL_GPIO_EXTI_Callback call (push_bit n 1) \<sigma>' = Inl Dangling) \<and>
    (\<forall>b' d' e' sd'. controller \<sigma>' b' d' e' sd' \<longrightarrow>
      stm32_gpio_irq_register_callback stack (Ptr b' 0) i (Some cb) \<sigma>' = Inl Dangling \<and>
      stm32_gpio_irq_unregister_callback (Ptr b' 0) i (Some cb) \<sigma>' = Inl Dangling)"
proof -
  obtain bs where rep: "action_rep \<sigma> bs as" using assms(1) by (auto simp: action_list_def)
  then have blk: "action_blocks \<sigma> bs" "distinct bs" by (simp_all add: action_rep_def)
  define h where "h = iactions \<sigma> |` (- set bs)"
  obtain m where m: "free_actions (Suc (length bs)) \<sigma> = Inr ((), (with_lists \<sigma> m)\<lparr>iactions := h\<rparr>)"
    "action_blocks ((with_lists \<sigma> m)\<lparr>iactions := h\<rparr>) []"
    using free_actions_run[OF blk action_rep_live[OF rep]] unfolding h_def by blast
  let ?\<sigma>1 = "(with_lists \<sigma> m)\<lparr>iactions := h\<rparr>"
  obtain m' where m': "on_actions no_os_list_remove ?\<sigma>1 = Inr (0, with_lists ?\<sigma>1 m')" "actions_gone (with_lists ?\<sigma>1 m')"
    using list_removed[OF m(2)] by blast
  let ?\<sigma>2 = "(with_lists ?\<sigma>1 m')\<lparr>initialized := (initialized \<sigma>)(unat (irq_ctrl_id d) := False),
    isdescs := (isdescs \<sigma>)(e := None), idescs := (idescs \<sigma>)(b := None)\<rparr>"
  have run: "stm32_gpio_irq_ctrl_remove (Ptr b 0) \<sigma> = Inr (0, ?\<sigma>2)"
    using assms(2) m(1) m'(1) pin_less[of "irq_ctrl_id d"] actions_size_run[OF blk(1)]
    by (simp add: stm32_gpio_irq_ctrl_remove_def bindm_unfold run_simps controller_def isdesc_free_def idesc_free_def)
  have gone: "actions_gone ?\<sigma>2" using m'(2) by (simp add: actions_gone_def)
  have "HAL_GPIO_EXTI_Callback call (push_bit n 1) ?\<sigma>2 = Inl Dangling" if "n < 16" for n
    by (rule callback_of_fault[OF that find_gone[OF gone]])
  moreover have "stm32_gpio_irq_register_callback stack (Ptr b' 0) i (Some cb) ?\<sigma>2 = Inl Dangling \<and>
      stm32_gpio_irq_unregister_callback (Ptr b' 0) i (Some cb) ?\<sigma>2 = Inl Dangling" if "controller ?\<sigma>2 b' d' e' sd'" for b' d' e' sd'
    using that find_gone[OF gone]
    by (simp add: stm32_gpio_irq_register_callback_def stm32_gpio_irq_unregister_callback_def bindm_unfold run_simps
        controller_def Let_def)
  ultimately show ?thesis
    by (intro exI[of _ ?\<sigma>2] conjI run) auto
qed

section \<open>The trigger\<close>

text \<open>Only the trigger and the port of the line in the handle change.\<close>

lemma trigger_set_run:
  assumes "controller \<sigma> b d e sd" and "t \<in> {1, 2, 3}"
    and "level = (if t = 1 then NO_OS_IRQ_EDGE_RISING else if t = 2 then NO_OS_IRQ_EDGE_FALLING else NO_OS_IRQ_EDGE_BOTH)"
  shows "stm32_gpio_irq_trigger_level_set (Ptr b 0) i level \<sigma> =
    Inr (0, armed e sd ((the (HAL_EXTI_GetConfigLine (Some (hexti sd)) (xr \<sigma>)))
      \<lparr>Trigger := t, GPIOSel := ucast (sd_port_nb sd)\<rparr>) \<sigma>)"
proof -
  obtain c where c: "HAL_EXTI_GetConfigLine (Some (hexti sd)) (xr \<sigma>) = Some c"
    by (auto simp: HAL_EXTI_GetConfigLine_def Let_def)
  show ?thesis
    using assms c by (auto simp: stm32_gpio_irq_trigger_level_set_def with_pin_def bindm_unfold run_simps Let_def
        set_config_run armed_def controller_def)
qed

lemma put_line_same: "i < 32 \<Longrightarrow> put_line i (line_bit i v) v = v"
  by (rule bit_word_eqI) (simp add: bit_put_line line_bit_iff)

text \<open>The mode \<open>HAL_EXTI_GetConfigLine\<close> reads has the two bits \<open>HAL_EXTI_SetConfigLine\<close> looks at.\<close>

lemma get_config_mode:
  "HAL_EXTI_GetConfigLine (Some line) r = Some c \<Longrightarrow> Line c = line \<and> ex_Mode c AND 3 = ex_Mode c"
  by (auto simp: HAL_EXTI_GetConfigLine_def Let_def split: if_splits)

lemma set_config_line_0:
  assumes "HAL_EXTI_GetConfigLine (Some 0) r = Some c"
  shows "snd (HAL_EXTI_SetConfigLine (Some h) (Some (c\<lparr>Trigger := t, GPIOSel := p\<rparr>)) r) = r"
proof -
  have "Line c = 0" using get_config_mode[OF assms] by simp
  moreover have "ex_Mode c AND EXTI_MODE_INTERRUPT \<noteq> 0 \<longleftrightarrow> line_bit 0 (IMR r 0)"
    "ex_Mode c AND EXTI_MODE_EVENT \<noteq> 0 \<longleftrightarrow> line_bit 0 (EMR r 0)"
    using assms by (auto simp: HAL_EXTI_GetConfigLine_def exti_offset_def exti_linepos_def Let_def split: if_splits)
  ultimately show ?thesis
    by (simp add: HAL_EXTI_SetConfigLine_def Let_def exti_offset_def exti_linepos_def put_line_same)
qed

definition edge_of :: "u32 \<Rightarrow> no_os_irq_trig_level" where
  "edge_of t = (if t = 1 then NO_OS_IRQ_EDGE_RISING else if t = 2 then NO_OS_IRQ_EDGE_FALLING else NO_OS_IRQ_EDGE_BOTH)"

text \<open>Setting the edges of a pin's interrupt (rising 1, falling 2, both 3) succeeds. Once a
  callback has been registered with the controller it changes the trigger of the pin's line,
  selects the controller's port and keeps the rest; before, the handle still names line 0, no
  register changes and the request is lost although the function returns 0.\<close>

theorem trigger_level_effect:
  assumes "controller \<sigma> b d e sd" and "t \<in> {1, 2, 3}"
  shows "\<exists>\<sigma>'. stm32_gpio_irq_trigger_level_set (Ptr b 0) i (edge_of t) \<sigma> = Inr (0, \<sigma>') \<and>
    (hexti sd = gpio_line (irq_ctrl_id d) \<longrightarrow> (\<forall>pin. IS_EXTI_GPIO_PIN pin \<longrightarrow> line_config \<sigma>' pin =
       (if pin = irq_ctrl_id d then (line_config \<sigma> pin)\<lparr>Trigger := t, GPIOSel := ucast (sd_port_nb sd)\<rparr>
        else line_config \<sigma> pin))) \<and>
    (hexti sd = 0 \<longrightarrow> xr \<sigma>' = xr \<sigma>)"
proof -
  obtain c where c: "HAL_EXTI_GetConfigLine (Some (hexti sd)) (xr \<sigma>) = Some c"
    by (auto simp: HAL_EXTI_GetConfigLine_def Let_def)
  let ?c = "c\<lparr>Trigger := t, GPIOSel := ucast (sd_port_nb sd)\<rparr>"
  have run: "stm32_gpio_irq_trigger_level_set (Ptr b 0) i (edge_of t) \<sigma> = Inr (0, armed e sd ?c \<sigma>)"
    using trigger_set_run[OF assms(1,2) edge_of_def, of i] by (simp add: c)
  have "t AND 3 = t" using assms(2) by auto
  then have "line_config (armed e sd ?c \<sigma>) pin =
      (if pin = irq_ctrl_id d then (line_config \<sigma> pin)\<lparr>Trigger := t, GPIOSel := ucast (sd_port_nb sd)\<rparr>
       else line_config \<sigma> pin)" if "hexti sd = gpio_line (irq_ctrl_id d)" "IS_EXTI_GPIO_PIN pin" for pin
    using get_after_set[of "irq_ctrl_id d" pin ?c "hexti sd" "xr \<sigma>"] that get_config_mode[OF c] c
      port_nibble[of "sd_port_nb sd"] assms(1)
    by (cases c) (auto simp: line_config_def armed_def controller_def)
  moreover have "xr (armed e sd ?c \<sigma>) = xr \<sigma>" if "hexti sd = 0"
    using set_config_line_0[of "xr \<sigma>" c] c that by (simp add: armed_def)
  ultimately show ?thesis using run by blast
qed

section \<open>Witnesses\<close>

text \<open>Two controllers, for the pins 3 and 5 of port B, with a callback each; line 3 is pending.\<close>

definition demo_actions :: "irq_action list" where
  "demo_actions = [\<lparr>irq_id = 3, callback = Some 100, ia_ctx = 7\<rparr>, \<lparr>irq_id = 5, callback = Some 200, ia_ctx = 8\<rparr>]"

definition demo_list :: "irq_item list_state" where
  "demo_list = \<lparr>elems = [0 \<mapsto> \<lparr>e_data = Action (Ptr 4 0), e_prev = None, e_next = Some 1\<rparr>,
       1 \<mapsto> \<lparr>e_data = Action (Ptr 5 0), e_prev = Some 0, e_next = None\<rparr>],
     alive = True, l_first = Some 0, l_last = Some 1, nb_elements = 2, comparator = \<lambda>_ _. 0,
     nb_iterators = 0, l_it = None, iters = Map.empty, next_addr = 2, alloc_ok = \<lambda>_. True\<rparr>"

definition demo_sdesc :: stm32_gpio_irq_desc where
  "demo_sdesc = \<lparr>hexti = 0, sd_port_nb = 1\<rparr>"

definition demo_idesc :: "u32 \<Rightarrow> nat \<Rightarrow> no_os_irq_ctrl_desc" where
  "demo_idesc pin e = \<lparr>irq_ctrl_id = pin, iq_platform_ops = Some 0, iq_ref = 1, iq_extra = Ptr e 0\<rparr>"

definition demo_irq :: gpio_irq_state where
  "demo_irq = \<lparr>blocks = Map.empty, next_block = 6, grants = \<lambda>_ _. True, junk = \<lambda>_ _. 0, sems = Map.empty,
     handle_cells = Map.empty, idescs = [0 \<mapsto> demo_idesc 3 1, 2 \<mapsto> demo_idesc 5 3],
     iactions = [4 \<mapsto> demo_actions ! 0, 5 \<mapsto> demo_actions ! 1], isdescs = [1 \<mapsto> demo_sdesc, 3 \<mapsto> demo_sdesc],
     lists = [0 \<mapsto> demo_list], next_list = 1, list_grants = \<lambda>_ _. True, actions = Some 0,
     initialized = \<lambda>n. n = 3 \<or> n = 5, gpio_irq_desc_arr = \<lambda>n. if n = 3 then Ptr 0 0 else if n = 5 then Ptr 2 0 else NULL,
     xr = \<lparr>RTSR = \<lambda>_. 0, FTSR = \<lambda>_. 0, IMR = \<lambda>_. 0, EMR = \<lambda>_. 0, PR1 = 8, EXTICR = \<lambda>_. 0, nvic_on = \<lambda>_. False,
       nvic_priority = \<lambda>_. 0\<rparr>\<rparr>"

lemma demo_list_inv: "list_inv demo_list [(0, Action (Ptr 4 0)), (1, Action (Ptr 5 0))]"
  by (auto simp: list_inv_def demo_list_def lasto_def)

lemma demo_action_list: "action_list demo_irq demo_actions"
proof -
  have "holds demo_list (action_items [4, 5])"
    unfolding holds_def by (rule exI, rule conjI, rule demo_list_inv) (simp add: action_items_def)
  then show ?thesis
    by (auto simp: action_list_def action_rep_def action_blocks_def held_def demo_irq_def demo_actions_def IS_EXTI_GPIO_PIN_def
      demo_list_def intro!: exI[of _ "[4, 5]"])
qed

lemma demo_controllers:
  "controller demo_irq 0 (demo_idesc 3 1) 1 demo_sdesc" "controller demo_irq 2 (demo_idesc 5 3) 3 demo_sdesc"
  by (simp_all add: controller_def demo_irq_def demo_idesc_def demo_sdesc_def IS_EXTI_GPIO_PIN_def IS_EXTI_GPIO_PORT_def)

lemma demo_fresh: "fresh_irq demo_irq"
  by (auto simp: fresh_irq_def demo_irq_def)

lemma demo_memory: "\<forall>k i. list_grants demo_irq k i" "\<forall>b sz. grants demo_irq b sz"
  by (simp_all add: demo_irq_def)

abbreviation (input) "demo_callback f c \<equiv> modifym (\<lambda>\<sigma>. \<sigma>\<lparr>next_list := f + c\<rparr>)"

theorem pin_interrupt_dispatched_witness:
  "\<exists>\<sigma>'. HAL_GPIO_EXTI_IRQHandler (\<lambda>f c. demo_callback f c) (push_bit 3 1) demo_irq = Inr ((), \<sigma>') \<and>
     next_list \<sigma>' = 107 \<and> PR1 (xr \<sigma>') = 0"
  using pin_interrupt_dispatched[OF demo_action_list, of 3 "\<lambda>f c. demo_callback f c"]
  by (auto simp: demo_irq_def demo_actions_def Let_def run_simps HAL_GPIO_EXTI_CLEAR_IT_def)

theorem register_callback_effect_witness:
  "\<exists>\<sigma>' as'. stm32_gpio_irq_register_callback 1 (Ptr 2 0) 5 (Some \<lparr>cb_callback = Some 300, cb_ctx = 9,
      cb_event = NO_OS_EVT_GPIO, cb_peripheral = NO_OS_GPIO_IRQ, cb_handle = 0\<rparr>) demo_irq = Inr (0, \<sigma>') \<and>
    action_list \<sigma>' as' \<and> handlers as' 5 = Some (Some 300, 9) \<and> handlers as' 3 = Some (Some 100, 7) \<and>
    GPIOSel (line_config \<sigma>' 5) = 1"
proof -
  let ?cb = "\<lparr>cb_callback = Some 300, cb_ctx = 9, cb_event = NO_OS_EVT_GPIO, cb_peripheral = NO_OS_GPIO_IRQ, cb_handle = 0\<rparr>"
  from register_callback_effect[OF demo_action_list demo_controllers(2) demo_fresh demo_memory(1)
      demo_memory(2)[rule_format], of 1 5 ?cb]
  obtain \<sigma>' as' where \<sigma>': "stm32_gpio_irq_register_callback 1 (Ptr 2 0) 5 (Some ?cb) demo_irq = Inr (0, \<sigma>')"
    "action_list \<sigma>' as'" "handlers as' = (handlers demo_actions)(5 \<mapsto> (Some 300, 9))"
    and l: "\<forall>pin. IS_EXTI_GPIO_PIN pin \<longrightarrow> line_config \<sigma>' pin = (if pin = 5
       then \<lparr>Line = gpio_line pin, ex_Mode = EXTI_MODE_INTERRUPT, Trigger = 1 AND 3, GPIOSel = ucast (sd_port_nb demo_sdesc)\<rparr>
       else line_config demo_irq pin)"
    by (auto simp: demo_idesc_def)
  have "handlers as' 5 = Some (Some 300, 9)" "handlers as' 3 = Some (Some 100, 7)"
    using \<sigma>'(3) by (simp_all add: demo_actions_def)
  moreover have "GPIOSel (line_config \<sigma>' 5) = 1"
    using l[rule_format, of 5] by (simp add: IS_EXTI_GPIO_PIN_def demo_sdesc_def)
  ultimately show ?thesis using \<sigma>'(1,2) by blast
qed

theorem unregister_leaves_dangling_witness:
  "\<exists>\<sigma>'. stm32_gpio_irq_unregister_callback (Ptr 0 0) 3 (Some \<lparr>cb_callback = None, cb_ctx = 0,
      cb_event = NO_OS_EVT_GPIO, cb_peripheral = NO_OS_GPIO_IRQ, cb_handle = 0\<rparr>) demo_irq = Inr (0, \<sigma>') \<and>
    HAL_GPIO_EXTI_Callback (\<lambda>_ _. returnm ()) (push_bit 5 1) \<sigma>' = Inl Dangling"
proof -
  have "action_list demo_irq ([] @ demo_actions ! 0 # [demo_actions ! 1])"
    using demo_action_list by (simp add: demo_actions_def)
  from unregister_leaves_dangling[OF this demo_controllers(1), of 3 "\<lparr>cb_callback = None, cb_ctx = 0,
      cb_event = NO_OS_EVT_GPIO, cb_peripheral = NO_OS_GPIO_IRQ, cb_handle = 0\<rparr>" "\<lambda>_ _. returnm ()"]
  show ?thesis by (auto simp: demo_actions_def demo_idesc_def simp del: push_bit_of_1 push_bit_numeral)
qed

theorem controller_init_forgets_witness:
  "\<exists>\<sigma>' b. stm32_gpio_irq_ctrl_init (Some NULL) (Some \<lparr>ip_irq_ctrl_id = 7, ip_platform_ops = Some 0,
      ip_extra = Some \<lparr>port_nb = 2\<rparr>\<rparr>) demo_irq = Inr ((0, Some (Ptr b 0)), \<sigma>') \<and> action_list \<sigma>' []"
proof -
  have "IS_EXTI_GPIO_PORT 2" "IS_EXTI_GPIO_PIN 7" "\<not> initialized demo_irq (unat (7 :: u32))"
    by (simp_all add: IS_EXTI_GPIO_PORT_def IS_EXTI_GPIO_PIN_def demo_irq_def)
  from controller_init_forgets[OF this demo_memory(2,1), of NULL "Some 0" "\<lambda>_ _. returnm ()"] show ?thesis by blast
qed

theorem controller_remove_breaks_others_witness:
  "\<exists>\<sigma>'. stm32_gpio_irq_ctrl_remove (Ptr 0 0) demo_irq = Inr (0, \<sigma>') \<and>
     HAL_GPIO_EXTI_Callback (\<lambda>_ _. returnm ()) (push_bit 5 1) \<sigma>' = Inl Dangling"
  using controller_remove_breaks_others[OF demo_action_list demo_controllers(1), of "\<lambda>_ _. returnm ()" 0 0 undefined]
  by (auto simp del: push_bit_of_1 push_bit_numeral)

theorem trigger_level_effect_witness:
  "\<exists>\<sigma>'. stm32_gpio_irq_trigger_level_set (Ptr 0 0) 3 NO_OS_IRQ_EDGE_FALLING demo_irq = Inr (0, \<sigma>') \<and> xr \<sigma>' = xr demo_irq"
  using trigger_level_effect[OF demo_controllers(1), of 2 3] by (auto simp: demo_sdesc_def edge_of_def)

end
