(* ===== verification/NoOs_Dma.thy ===== *)
theory NoOs_Dma
  imports List_Heap NoOs_Irq
begin

text \<open>
  DMA controllers: the generic interface of no-OS (\<open>api/no_os_dma.c\<close>). A channel keeps a
  queue of transfers, a list of \<open>no_os_list.c\<close> whose elements are the addresses of transfer
  descriptors the caller owns; the interrupt at the end of a transfer takes it from the
  queue and starts the next. Controllers, arrays of channels and arrays of transfers are
  typed objects of the heap; a pointer to a channel or a transfer is a block and an index.
  Tables of operations are named by their addresses, and the parameters \<open>D\<close> and \<open>T\<close> map
  addresses to those of DMA and interrupt controllers.
\<close>

section \<open>State\<close>

text \<open>\<open>XFER_OTHER\<close> stands for the values of the enumeration type that name no constant.\<close>

datatype dma_xfer_type = MEM_TO_MEM | MEM_TO_DEV | DEV_TO_MEM | XFER_OTHER

record dma_xfer =
  x_src :: u32
  x_dst :: u32
  x_length :: u32
  x_type :: dma_xfer_type
  xfer_complete_cb :: "nat option"
  xfer_complete_ctx :: nat
  x_irq_priority :: u32
  x_periph :: no_os_irq_peripheral

text \<open>The parameter of the interrupt handler: the controller and the channel.\<close>

record no_os_dma_default_handler_data =
  hd_desc :: ptr
  hd_channel :: ptr

record no_os_dma_ch =
  ch_id :: u32
  ch_free :: bool
  sg_list :: "nat option"
  irq_num :: u32
  cb_desc :: no_os_callback_desc
  irq_ctx :: no_os_dma_default_handler_data
  ch_extra :: ptr
  ch_mutex :: ptr
  sync_lock :: bool

record no_os_dma_desc =
  dma_id :: u32
  num_ch :: u32
  channels :: ptr
  dma_platform :: "nat option"
  irq_ctrl :: ptr
  dma_ref :: u32
  dma_mutex :: ptr
  sg_handler :: "nat option"

record no_os_dma_init_param =
  dp_id :: u32
  dp_num_ch :: u32
  dp_platform_ops :: "nat option"
  dp_sg_handler :: "nat option"

text \<open>\<open>irq_hw\<close> is the state of the interrupt controller, which only its operations use.\<close>

record 'i dma_state = irq_state +
  ddescs :: "nat \<Rightarrow> no_os_dma_desc option"
  chans :: "nat \<Rightarrow> no_os_dma_ch list option"
  dxfers :: "nat \<Rightarrow> dma_xfer list option"
  sg_lists :: "nat \<Rightarrow> ptr list_state option"
  next_sg :: nat
  sg_grants :: "nat \<Rightarrow> nat \<Rightarrow> bool"
  irq_hw :: 'i

record 's dma_platform_ops =
  dma_ops_init :: "(ptr option \<Rightarrow> no_os_dma_init_param \<Rightarrow> ('s, int \<times> ptr option) cm) option"
  dma_ops_remove :: "(ptr \<Rightarrow> ('s, int) cm) option"
  dma_ops_acquire_ch :: "(ptr \<Rightarrow> ('s, int \<times> u32) cm) option"
  dma_ops_release_ch :: "(ptr \<Rightarrow> u32 \<Rightarrow> ('s, int) cm) option"
  dma_ops_config_xfer :: "(ptr \<Rightarrow> ptr \<Rightarrow> ('s, int) cm) option"
  dma_ops_xfer_start :: "(ptr \<Rightarrow> ptr \<Rightarrow> ('s, int) cm) option"
  dma_ops_xfer_abort :: "(ptr \<Rightarrow> ptr \<Rightarrow> ('s, int) cm) option"
  dma_ops_ch_is_completed :: "(ptr \<Rightarrow> ptr \<Rightarrow> ('s, bool) cm) option"
  dma_ops_ch_in_progress :: "(ptr \<Rightarrow> ptr \<Rightarrow> ('s, bool) cm) option"

type_synonym ('i, 'z) dma_tables = "nat \<Rightarrow> ('i, 'z) dma_state_scheme dma_platform_ops"
type_synonym ('i, 'z, 'x) irq_tables = "nat \<Rightarrow> (('i, 'z) dma_state_scheme, 'x) irq_platform_ops"

section \<open>Access\<close>

text \<open>An element of an array of structures.\<close>

definition elem_of :: "('s \<Rightarrow> nat \<Rightarrow> 'o list option) \<Rightarrow> ptr \<Rightarrow> ('s, 'o) cm" where
  "elem_of heap p \<sigma> =
     (case p of
        NULL \<Rightarrow> Inl Null_Deref
      | Ptr b i \<Rightarrow> (case heap \<sigma> b of
          None \<Rightarrow> Inl Dangling
        | Some objs \<Rightarrow> if i < length objs then Inr (objs ! i, \<sigma>) else Inl Out_Of_Bounds))"

fun index_of :: "ptr \<Rightarrow> nat" where
  "index_of NULL = 0"
| "index_of (Ptr b i) = i"

definition ch_update :: "ptr \<Rightarrow> (no_os_dma_ch \<Rightarrow> no_os_dma_ch) \<Rightarrow> (('i, 'z) dma_state_scheme, unit) cm" where
  "ch_update ch f =
     bindm (elem_of chans ch) (\<lambda>c.
     modifym (\<lambda>\<sigma>. \<sigma>\<lparr>chans := (chans \<sigma>)(block_of ch \<mapsto> (the (chans \<sigma> (block_of ch)))[index_of ch := f c])\<rparr>))"

definition ddesc_update :: "ptr \<Rightarrow> (no_os_dma_desc \<Rightarrow> no_os_dma_desc) \<Rightarrow> (('i, 'z) dma_state_scheme, unit) cm" where
  "ddesc_update desc f =
     bindm (CMem.deref ddescs desc) (\<lambda>d. modifym (\<lambda>\<sigma>. \<sigma>\<lparr>ddescs := (ddescs \<sigma>)(block_of desc \<mapsto> f d)\<rparr>))"

definition on_sg :: "nat option \<Rightarrow> (arg \<Rightarrow> (ptr, 'a) lm) \<Rightarrow> (('i, 'z) dma_state_scheme, 'a) cm" where
  "on_sg p f = run_list sg_lists (\<lambda>m \<sigma>. \<sigma>\<lparr>sg_lists := m\<rparr>) (\<lambda>_ _ _. 0) p f"

text \<open>The table of operations of a controller, through a pointer that may be null.\<close>

definition dma_ops :: "('i, 'z) dma_tables \<Rightarrow> no_os_dma_desc \<Rightarrow>
    (('i, 'z) dma_state_scheme dma_platform_ops \<Rightarrow> 'f option) \<Rightarrow> (('i, 'z) dma_state_scheme, 'f) cm" where
  "dma_ops D d sel =
     (case dma_platform d of
        None \<Rightarrow> failm Null_Deref
      | Some ops \<Rightarrow> (case sel (D ops) of None \<Rightarrow> failm Null_Deref | Some f \<Rightarrow> returnm f))"

section \<open>Channels and transfers\<close>

text \<open>The tests most operations begin with; \<open>ch\<close> is \<open>NULL\<close> where there is no channel to test.\<close>

definition dma_call :: "('i, 'z) dma_tables \<Rightarrow> ptr \<Rightarrow> bool \<Rightarrow>
    (('i, 'z) dma_state_scheme dma_platform_ops \<Rightarrow> 'f option) \<Rightarrow>
    (no_os_dma_desc \<Rightarrow> 'f \<Rightarrow> (('i, 'z) dma_state_scheme, int) cm) \<Rightarrow> (('i, 'z) dma_state_scheme, int) cm" where
  "dma_call D desc ch_missing sel k =
     (if desc = NULL then returnm (- EINVAL)
      else
        bindm (CMem.deref ddescs desc) (\<lambda>d.
        case dma_platform d of None \<Rightarrow> returnm (- EINVAL) | Some ops \<Rightarrow>
        if ch_missing then returnm (- EINVAL)
        else case sel (D ops) of None \<Rightarrow> returnm (- ENOSYS) | Some f \<Rightarrow> k d f))"

text \<open>\<open>no_os_mutex_lock(ch->mutex)\<close>, a computation, \<open>no_os_mutex_unlock(ch->mutex)\<close>.\<close>

definition ch_locked :: "ptr \<Rightarrow> (('i, 'z) dma_state_scheme, 'a) cm \<Rightarrow> (('i, 'z) dma_state_scheme, 'a) cm" where
  "ch_locked ch f =
     bindm (elem_of chans ch) (\<lambda>c.
     bindm (no_os_mutex_lock (ch_mutex c)) (\<lambda>_.
     bindm f (\<lambda>r.
     bindm (elem_of chans ch) (\<lambda>c.
     bindm (no_os_mutex_unlock (ch_mutex c)) (\<lambda>_. returnm r)))))"

definition no_os_dma_xfer_start ::
  "('i, 'z) dma_tables \<Rightarrow> ('i, 'z, 'x) irq_tables \<Rightarrow> ptr \<Rightarrow> ptr \<Rightarrow> (('i, 'z) dma_state_scheme, int) cm" where
  "no_os_dma_xfer_start D T desc ch =
     dma_call D desc (ch = NULL) dma_ops_xfer_start (\<lambda>d f.
       ch_locked ch
         (bindm (elem_of chans ch) (\<lambda>c.
          bindm (if irq_ctrl d \<noteq> NULL then no_os_irq_enable T (irq_ctrl d) (irq_num c) else returnm 0) (\<lambda>_.
          f desc ch))))"

text \<open>\<open>do { ret = no_os_list_get_first(ch->sg_list, &discard); } while (!ret);\<close> The fuel is one
  more than the number of elements.\<close>

definition sg_size :: "nat option \<Rightarrow> ('i, 'z) dma_state_scheme \<Rightarrow> nat" where
  "sg_size p \<sigma> =
     (case p of None \<Rightarrow> 0 | Some k \<Rightarrow> (case sg_lists \<sigma> k of None \<Rightarrow> 0 | Some l \<Rightarrow> unat (nb_elements l)))"

fun sg_drain :: "nat \<Rightarrow> nat option \<Rightarrow> (('i, 'z) dma_state_scheme, unit) cm" where
  "sg_drain 0 p = failm Diverges"
| "sg_drain (Suc n) p =
     bindm (on_sg p (\<lambda>a. no_os_list_get_first a Valid)) (\<lambda>(ret, _).
     if ret = 0 then sg_drain n p else returnm ())"

definition no_os_dma_xfer_abort ::
  "('i, 'z) dma_tables \<Rightarrow> ('i, 'z, 'x) irq_tables \<Rightarrow> ptr \<Rightarrow> ptr \<Rightarrow> (('i, 'z) dma_state_scheme, int) cm" where
  "no_os_dma_xfer_abort D T desc ch =
     dma_call D desc (ch = NULL) dma_ops_xfer_abort (\<lambda>d f.
       ch_locked ch
         (bindm (elem_of chans ch) (\<lambda>c.
          bindm (if irq_ctrl d \<noteq> NULL then no_os_irq_disable T (irq_ctrl d) (irq_num c) else returnm 0) (\<lambda>_.
          bindm (getm (sg_size (sg_list c))) (\<lambda>n.
          bindm (sg_drain (Suc n) (sg_list c)) (\<lambda>_. f desc ch))))))"

text \<open>
  The end of a transfer. The argument stands for \<open>&ch->irq_ctx\<close>, the context the callback
  is registered with. \<open>next_xfer\<close> is not assigned when the queue is empty: it is \<open>stack\<close>
  then. \<open>call f old next ctx\<close> is the call of the completion callback \<open>f\<close>.
\<close>

definition default_sg_callback ::
  "('i, 'z) dma_tables \<Rightarrow> ('i, 'z, 'x) irq_tables \<Rightarrow>
   (nat \<Rightarrow> ptr \<Rightarrow> ptr \<Rightarrow> nat \<Rightarrow> (('i, 'z) dma_state_scheme, unit) cm) \<Rightarrow> ptr \<Rightarrow> ptr \<Rightarrow> (('i, 'z) dma_state_scheme, unit) cm" where
  "default_sg_callback D T call stack context =
     bindm (elem_of chans context) (\<lambda>c.
     let desc = hd_desc (irq_ctx c); channel = hd_channel (irq_ctx c) in
     bindm (elem_of chans channel) (\<lambda>ch.
     bindm (on_sg (sg_list ch) (\<lambda>a. no_os_list_get_first a Valid)) (\<lambda>(ret, old).
     if ret \<noteq> 0 then bindm (no_os_dma_xfer_abort D T desc channel) (\<lambda>_. returnm ())
     else
       bindm (on_sg (sg_list ch) (\<lambda>a. no_os_list_read_first a Valid)) (\<lambda>(_, nxt).
       bindm (on_sg (sg_list ch) (\<lambda>a. no_os_list_get_size a Valid)) (\<lambda>(_, list_size).
       let old_xfer = the old; next_xfer = (case nxt of None \<Rightarrow> stack | Some x \<Rightarrow> x) in
       bindm (elem_of dxfers old_xfer) (\<lambda>x.
       bindm (case xfer_complete_cb x of None \<Rightarrow> returnm () | Some f \<Rightarrow> call f old_xfer next_xfer (xfer_complete_ctx x)) (\<lambda>_.
       bindm (CMem.deref ddescs desc) (\<lambda>d.
       if list_size = Some 0 then
         bindm (elem_of chans channel) (\<lambda>ch.
         bindm (no_os_irq_disable T (irq_ctrl d) (irq_num ch)) (\<lambda>_. ch_update channel (\<lambda>ch. ch\<lparr>ch_free := True\<rparr>)))
       else
         bindm (dma_ops D d dma_ops_config_xfer) (\<lambda>config.
         bindm (config channel next_xfer) (\<lambda>_.
         bindm (no_os_dma_xfer_start D T desc channel) (\<lambda>_. returnm ())))))))))))"

text \<open>Adding \<open>n\<close> transfers from index \<open>i\<close> on, and taking \<open>n\<close> away.\<close>

fun add_xfers :: "nat option \<Rightarrow> ptr \<Rightarrow> nat \<Rightarrow> (('i, 'z) dma_state_scheme, unit) cm" where
  "add_xfers p xfer 0 = returnm ()"
| "add_xfers p xfer (Suc n) =
     bindm (on_sg p (\<lambda>a. no_os_list_add_last a xfer)) (\<lambda>_. add_xfers p (ptr_add xfer 1) n)"

fun discard_xfers :: "nat option \<Rightarrow> nat \<Rightarrow> (('i, 'z) dma_state_scheme, unit) cm" where
  "discard_xfers p 0 = returnm ()"
| "discard_xfers p (Suc n) =
     bindm (on_sg p (\<lambda>a. no_os_list_get_first a Valid)) (\<lambda>_. discard_xfers p n)"

text \<open>\<open>ctx_addr ch\<close> is the address of \<open>ch->irq_ctx\<close>, \<open>dflt\<close> that of \<open>default_sg_callback\<close>.
  \<open>config_locked\<close> is what happens between taking and giving back the mutex.\<close>

definition config_locked ::
  "('i, 'z) dma_tables \<Rightarrow> ('i, 'z, 'x) irq_tables \<Rightarrow> (ptr \<Rightarrow> nat) \<Rightarrow> nat \<Rightarrow> ptr \<Rightarrow> ptr \<Rightarrow> u32 \<Rightarrow> ptr \<Rightarrow>
   (('i, 'z) dma_state_scheme, int) cm" where
  "config_locked D T ctx_addr dflt desc xfer len ch =
     bindm (elem_of chans ch) (\<lambda>c.
     bindm (add_xfers (sg_list c) xfer (unat len)) (\<lambda>_.
     bindm (CMem.deref ddescs desc) (\<lambda>d.
     let err = (\<lambda>ret. bindm (discard_xfers (sg_list c) (unat len)) (\<lambda>_. returnm ret)) in
     if irq_ctrl d \<noteq> NULL then
       bindm (elem_of dxfers xfer) (\<lambda>x.
       bindm (ch_update ch (\<lambda>c. c\<lparr>
         cb_desc := (cb_desc c)\<lparr>cb_ctx := ctx_addr ch, cb_peripheral := x_periph x, cb_handle := unat (ch_id c)\<rparr>,
         irq_ctx := \<lparr>hd_desc = desc, hd_channel = ch\<rparr>\<rparr>)) (\<lambda>_.
       let with_event = (\<lambda>ev.
             bindm (ch_update ch (\<lambda>c. c\<lparr>cb_desc := (cb_desc c)\<lparr>cb_event := ev\<rparr>\<rparr>)) (\<lambda>_.
             bindm (dma_ops D d dma_ops_config_xfer) (\<lambda>config.
             bindm (config ch xfer) (\<lambda>ret.
             if ret \<noteq> 0 then err ret
             else
               let handler = (case sg_handler d of Some h \<Rightarrow> h | None \<Rightarrow> dflt) in
               bindm (ch_update ch (\<lambda>c. c\<lparr>cb_desc := (cb_desc c)\<lparr>cb_callback := Some handler\<rparr>\<rparr>)) (\<lambda>_.
               bindm (elem_of chans ch) (\<lambda>c'.
               bindm (no_os_irq_register_callback T (irq_ctrl d) (irq_num c') (Some (cb_desc c'))) (\<lambda>ret.
               if ret \<noteq> 0 then err ret
               else
                 bindm (no_os_irq_set_priority T (irq_ctrl d) (irq_num c') (x_irq_priority x)) (\<lambda>_.
                 returnm 0)))))))) in
       case x_type x of
         MEM_TO_DEV \<Rightarrow> with_event NO_OS_EVT_DMA_TX_COMPLETE
       | MEM_TO_MEM \<Rightarrow> with_event NO_OS_EVT_DMA_TX_COMPLETE
       | DEV_TO_MEM \<Rightarrow> with_event NO_OS_EVT_DMA_RX_COMPLETE
       | XFER_OTHER \<Rightarrow> err (- EINVAL)))
     else returnm 0)))"

definition no_os_dma_config_xfer ::
  "('i, 'z) dma_tables \<Rightarrow> ('i, 'z, 'x) irq_tables \<Rightarrow> (ptr \<Rightarrow> nat) \<Rightarrow> nat \<Rightarrow> ptr \<Rightarrow> ptr \<Rightarrow> u32 \<Rightarrow> ptr \<Rightarrow>
   (('i, 'z) dma_state_scheme, int) cm" where
  "no_os_dma_config_xfer D T ctx_addr dflt desc xfer len ch =
     (if desc = NULL \<or> xfer = NULL \<or> len = 0 \<or> ch = NULL then returnm (- EINVAL)
      else ch_locked ch (config_locked D T ctx_addr dflt desc xfer len ch))"

section \<open>Acquiring, locking and asking\<close>

definition no_os_dma_acquire_channel ::
  "('i, 'z) dma_tables \<Rightarrow> ptr \<Rightarrow> ptr \<Rightarrow> (('i, 'z) dma_state_scheme, int \<times> ptr) cm" where
  "no_os_dma_acquire_channel D desc channel =
     (if desc = NULL then returnm (- EINVAL, channel)
      else
        bindm (CMem.deref ddescs desc) (\<lambda>d.
        case dma_platform d of None \<Rightarrow> returnm (- EINVAL, channel) | Some ops \<Rightarrow>
        case dma_ops_acquire_ch (D ops) of None \<Rightarrow> returnm (- ENOSYS, channel) | Some f \<Rightarrow>
        bindm (no_os_mutex_lock (dma_mutex d)) (\<lambda>_.
        bindm (f desc) (\<lambda>(ret, ch_num).
        bindm (CMem.deref ddescs desc) (\<lambda>d.
        bindm (no_os_mutex_unlock (dma_mutex d)) (\<lambda>_.
        returnm (ret, if ret \<noteq> 0 then channel else ptr_add (channels d) (unat ch_num))))))))"

definition no_os_dma_release_channel ::
  "('i, 'z) dma_tables \<Rightarrow> ptr \<Rightarrow> ptr \<Rightarrow> (('i, 'z) dma_state_scheme, int) cm" where
  "no_os_dma_release_channel D desc channel =
     dma_call D desc (channel = NULL) dma_ops_release_ch (\<lambda>d f.
       ch_locked channel (bindm (elem_of chans channel) (\<lambda>c. f desc (ch_id c))))"

text \<open>The mutex is taken before the channel is compared with \<open>NULL\<close>.\<close>

definition no_os_dma_chan_lock :: "ptr \<Rightarrow> (('i, 'z) dma_state_scheme, int) cm" where
  "no_os_dma_chan_lock ch = ch_locked ch (bindm (ch_update ch (\<lambda>c. c\<lparr>sync_lock := True\<rparr>)) (\<lambda>_. returnm 0))"

definition no_os_dma_chan_unlock :: "ptr \<Rightarrow> (('i, 'z) dma_state_scheme, int) cm" where
  "no_os_dma_chan_unlock ch = ch_locked ch (bindm (ch_update ch (\<lambda>c. c\<lparr>sync_lock := False\<rparr>)) (\<lambda>_. returnm 0))"

text \<open>The result is a \<open>bool\<close>: an error code is true.\<close>

definition no_os_dma_is_completed :: "ptr \<Rightarrow> ptr \<Rightarrow> (('i, 'z) dma_state_scheme, bool) cm" where
  "no_os_dma_is_completed desc ch =
     (if ch = NULL then returnm True else bindm (elem_of chans ch) (\<lambda>c. returnm (ch_free c)))"

definition no_os_dma_in_progress :: "('i, 'z) dma_tables \<Rightarrow> ptr \<Rightarrow> ptr \<Rightarrow> (('i, 'z) dma_state_scheme, bool) cm" where
  "no_os_dma_in_progress D desc ch =
     bindm (dma_call D desc (ch = NULL) dma_ops_ch_in_progress (\<lambda>d f.
       ch_locked ch (bindm (f desc ch) (\<lambda>b. returnm (if b then 1 else 0))))) (\<lambda>ret. returnm (ret \<noteq> 0))"

section \<open>Creating and removing controllers\<close>

text \<open>The loop over the channels, from channel \<open>i\<close> on.\<close>

fun remove_channels :: "('i, 'z, 'x) irq_tables \<Rightarrow> ptr \<Rightarrow> nat \<Rightarrow> nat \<Rightarrow> (('i, 'z) dma_state_scheme, int) cm" where
  "remove_channels T desc i 0 = returnm 0"
| "remove_channels T desc i (Suc n) =
     bindm (CMem.deref ddescs desc) (\<lambda>d.
     bindm (elem_of chans (channels d)) (\<lambda>c0.
     bindm (on_sg (sg_list c0) no_os_list_remove) (\<lambda>ret.
     if ret \<noteq> 0 then returnm ret
     else
       bindm (elem_of chans (ptr_add (channels d) i)) (\<lambda>c.
       bindm (no_os_mutex_remove (ch_mutex c)) (\<lambda>_.
       bindm (if irq_ctrl d \<noteq> NULL \<and> cb_handle (cb_desc c) \<noteq> 0
              then no_os_irq_unregister_callback T (irq_ctrl d) (irq_num c) (Some (cb_desc c)) else returnm 0) (\<lambda>_.
       remove_channels T desc (Suc i) n))))))"

definition no_os_dma_remove ::
  "('i, 'z) dma_tables \<Rightarrow> ('i, 'z, 'x) irq_tables \<Rightarrow> ptr \<Rightarrow> (('i, 'z) dma_state_scheme, int) cm" where
  "no_os_dma_remove D T desc =
     (if desc = NULL then returnm (- EINVAL)
      else
        bindm (CMem.deref ddescs desc) (\<lambda>d.
        if dma_ref d = 0 then returnm 0
        else
          bindm (remove_channels T desc 0 (unat (num_ch d))) (\<lambda>ret.
          if ret \<noteq> 0 then returnm ret
          else
            bindm (CMem.deref ddescs desc) (\<lambda>d.
            bindm (no_os_mutex_remove (dma_mutex d)) (\<lambda>_.
            bindm (dma_ops D d dma_ops_remove) (\<lambda>f.
            bindm (f desc) (\<lambda>ret.
            if ret \<noteq> 0 then returnm ret
            else bindm (ddesc_update desc (\<lambda>d. d\<lparr>dma_ref := dma_ref d - 1\<rparr>)) (\<lambda>_. returnm 0))))))))"

text \<open>\<open>no_os_list_init(&(*desc)->channels[i].sg_list, NO_OS_LIST_QUEUE, NULL)\<close>\<close>

definition sg_init :: "ptr \<Rightarrow> (('i, 'z) dma_state_scheme, int) cm" where
  "sg_init ch =
     bindm (elem_of chans ch) (\<lambda>c.
     bindm (\<lambda>\<sigma>. new_list sg_lists (\<lambda>m \<sigma>. \<sigma>\<lparr>sg_lists := m\<rparr>) next_sg (\<lambda>n \<sigma>. \<sigma>\<lparr>next_sg := n\<rparr>) (sg_grants \<sigma>)
       NO_OS_LIST_QUEUE (\<lambda>_ _. 0) (sg_list c) \<sigma>) (\<lambda>(ret, p).
     bindm (ch_update ch (\<lambda>c. c\<lparr>sg_list := p\<rparr>)) (\<lambda>_. returnm ret)))"

fun init_channels :: "ptr \<Rightarrow> nat \<Rightarrow> nat \<Rightarrow> (('i, 'z) dma_state_scheme, int \<times> nat) cm" where
  "init_channels desc i 0 = returnm (0, i)"
| "init_channels desc i (Suc n) =
     bindm (CMem.deref ddescs desc) (\<lambda>d.
     let ch = ptr_add (channels d) i in
     bindm (sg_init ch) (\<lambda>ret.
     if ret \<noteq> 0 then returnm (ret, i)
     else
       bindm (elem_of chans ch) (\<lambda>c.
       bindm (no_os_mutex_init (ch_mutex c)) (\<lambda>m.
       bindm (ch_update ch (\<lambda>c. c\<lparr>ch_mutex := m\<rparr>)) (\<lambda>_. init_channels desc (Suc i) n)))))"

text \<open>The label \<open>list_err\<close> removes the list of the channel that failed, once for each channel
  before it.\<close>

fun remove_again :: "nat \<Rightarrow> nat option \<Rightarrow> (('i, 'z) dma_state_scheme, unit) cm" where
  "remove_again 0 p = returnm ()"
| "remove_again (Suc n) p = bindm (on_sg p no_os_list_remove) (\<lambda>_. remove_again n p)"

text \<open>\<open>stack\<close> is what the uninitialised local variable \<open>mutex\<close> holds.\<close>

definition no_os_dma_init ::
  "('i, 'z) dma_tables \<Rightarrow> ('i, 'z, 'x) irq_tables \<Rightarrow> ptr \<Rightarrow> ptr option \<Rightarrow> no_os_dma_init_param option \<Rightarrow>
   (('i, 'z) dma_state_scheme, int \<times> ptr option) cm" where
  "no_os_dma_init D T stack desc param =
     (case param of None \<Rightarrow> returnm (- EINVAL, desc) | Some pr \<Rightarrow>
      case dp_platform_ops pr of None \<Rightarrow> returnm (- EINVAL, desc) | Some ops \<Rightarrow>
      case dma_ops_init (D ops) of None \<Rightarrow> returnm (- ENOSYS, desc) | Some f \<Rightarrow>
      bindm (no_os_mutex_init stack) (\<lambda>mutex.
      bindm (no_os_mutex_lock mutex) (\<lambda>_.
      bindm (f desc pr) (\<lambda>(ret, desc).
      let unlock = (\<lambda>ret. bindm (no_os_mutex_unlock mutex) (\<lambda>_. returnm (ret, desc))) in
      if ret \<noteq> 0 then unlock ret
      else
        case desc of None \<Rightarrow> failm Null_Deref | Some p \<Rightarrow>
        bindm (CMem.deref ddescs p) (\<lambda>d.
        bindm (no_os_mutex_init (dma_mutex d)) (\<lambda>m.
        bindm (ddesc_update p (\<lambda>d. d\<lparr>dma_platform := Some ops, dma_mutex := m\<rparr>)) (\<lambda>_.
        bindm (init_channels p 0 (unat (dp_num_ch pr))) (\<lambda>(ret, i).
        if ret \<noteq> 0 then
          bindm (CMem.deref ddescs p) (\<lambda>d.
          bindm (elem_of chans (ptr_add (channels d) i)) (\<lambda>c.
          bindm (remove_again i (sg_list c)) (\<lambda>_.
          bindm (no_os_dma_remove D T p) (\<lambda>_. unlock ret))))
        else
          bindm (ddesc_update p (\<lambda>d. d\<lparr>dma_ref := dma_ref d + 1\<rparr>)) (\<lambda>_. unlock 0)))))))))"

end
