(* ===== verification/Stm32_Dma.thy ===== *)
theory Stm32_Dma
  imports NoOs_Dma
begin

text \<open>
  The DMA platform for the STM32 (\<open>stm32_dma.c\<close>, the branch for families other than the
  F2, F4, F7 and H5): a channel of the generic part points to a channel of the platform, which
  points to the handle of the HAL. The HAL calls act on a state \<open>dhw\<close> of their own and are a
  record of operations.
\<close>

section \<open>State\<close>

text \<open>The last constructor of each stands for the values that name no constant.\<close>

datatype stm32_dma_data_alignment = DATA_ALIGN_BYTE | DATA_ALIGN_HALF_WORD | DATA_ALIGN_WORD | DATA_ALIGN_OTHER

datatype stm32_dma_mode = DMA_NORMAL_MODE | DMA_CIRCULAR_MODE | DMA_MODE_OTHER

record stm32_dma_channel =
  hdma :: ptr
  ch_num :: u32
  mem_increment :: bool
  per_increment :: bool
  mem_data_alignment :: stm32_dma_data_alignment
  per_data_alignment :: stm32_dma_data_alignment
  dma_mode :: stm32_dma_mode
  sc_src :: u32
  sc_dst :: u32
  sc_length :: u32

record DMA_HandleTypeDef =
  Instance :: u32
  Direction :: u32
  PeriphInc :: u32
  MemInc :: u32
  PeriphDataAlignment :: u32
  MemDataAlignment :: u32
  DmaMode :: u32

record ('i, 'h) stm32_dma_state = "'i dma_state" +
  sdma_chs :: "nat \<Rightarrow> stm32_dma_channel option"
  hdmas :: "nat \<Rightarrow> DMA_HandleTypeDef option"
  dma_descriptor :: ptr
  dhw :: 'h

text \<open>The calls of the HAL: whether they return \<open>HAL_OK\<close>, and their effect.\<close>

record 'h dma_hal =
  HAL_DMA_Init :: "DMA_HandleTypeDef \<Rightarrow> 'h \<Rightarrow> bool \<times> 'h"
  HAL_DMA_Start_IT :: "DMA_HandleTypeDef \<Rightarrow> u32 \<Rightarrow> u32 \<Rightarrow> u32 \<Rightarrow> 'h \<Rightarrow> bool \<times> 'h"
  HAL_DMA_Start :: "DMA_HandleTypeDef \<Rightarrow> u32 \<Rightarrow> u32 \<Rightarrow> u32 \<Rightarrow> 'h \<Rightarrow> bool \<times> 'h"
  HAL_DMA_Abort_IT :: "DMA_HandleTypeDef \<Rightarrow> 'h \<Rightarrow> bool \<times> 'h"
  HAL_DMA_Abort :: "DMA_HandleTypeDef \<Rightarrow> 'h \<Rightarrow> bool \<times> 'h"

abbreviation (input) "sizeof_no_os_dma_desc \<equiv> 36 :: nat"
abbreviation (input) "sizeof_no_os_dma_ch \<equiv> 56 :: nat"

definition on_dhw :: "('h \<Rightarrow> bool \<times> 'h) \<Rightarrow> (('i, 'h, 'z) stm32_dma_state_scheme, bool) cm" where
  "on_dhw f =
     bindm (getm (\<lambda>\<sigma>. f (dhw \<sigma>))) (\<lambda>(ok, h). bindm (modifym (\<lambda>\<sigma>. \<sigma>\<lparr>dhw := h\<rparr>)) (\<lambda>_. returnm ok))"

definition hal_code :: "bool \<Rightarrow> int" where
  "hal_code ok = (if ok then 0 else - EINVAL)"

section \<open>Configuring a transfer\<close>

definition data_align :: "u32 \<Rightarrow> u32 \<Rightarrow> stm32_dma_data_alignment \<Rightarrow> u32 option" where
  "data_align halfword word a =
     (case a of DATA_ALIGN_BYTE \<Rightarrow> Some 0 | DATA_ALIGN_HALF_WORD \<Rightarrow> Some halfword | DATA_ALIGN_WORD \<Rightarrow> Some word
      | DATA_ALIGN_OTHER \<Rightarrow> None)"

definition mode_reg :: "stm32_dma_mode \<Rightarrow> u32 option" where
  "mode_reg m = (case m of DMA_NORMAL_MODE \<Rightarrow> Some 0 | DMA_CIRCULAR_MODE \<Rightarrow> Some 0x20 | DMA_MODE_OTHER \<Rightarrow> None)"

definition direction_reg :: "dma_xfer_type \<Rightarrow> u32 option" where
  "direction_reg t =
     (case t of MEM_TO_MEM \<Rightarrow> Some 0x4000 | MEM_TO_DEV \<Rightarrow> Some 0x10 | DEV_TO_MEM \<Rightarrow> Some 0 | XFER_OTHER \<Rightarrow> None)"

definition hdma_update :: "ptr \<Rightarrow> (DMA_HandleTypeDef \<Rightarrow> DMA_HandleTypeDef) \<Rightarrow> (('i, 'h, 'z) stm32_dma_state_scheme, unit) cm" where
  "hdma_update p f =
     bindm (CMem.deref hdmas p) (\<lambda>h. modifym (\<lambda>\<sigma>. \<sigma>\<lparr>hdmas := (hdmas \<sigma>)(block_of p \<mapsto> f h)\<rparr>))"

text \<open>Each \<open>switch\<close> writes one member of the handle, or returns.\<close>

definition init_member ::
  "ptr \<Rightarrow> u32 option \<Rightarrow> (u32 \<Rightarrow> DMA_HandleTypeDef \<Rightarrow> DMA_HandleTypeDef) \<Rightarrow> (('i, 'h, 'z) stm32_dma_state_scheme, int) cm \<Rightarrow>
   (('i, 'h, 'z) stm32_dma_state_scheme, int) cm" where
  "init_member p v f k = (case v of None \<Rightarrow> returnm (- EINVAL) | Some r \<Rightarrow> bindm (hdma_update p (f r)) (\<lambda>_. k))"

definition stm32_dma_config_xfer ::
  "'h dma_hal \<Rightarrow> ptr \<Rightarrow> ptr \<Rightarrow> (('i, 'h, 'z) stm32_dma_state_scheme, int) cm" where
  "stm32_dma_config_xfer H channel xfer =
     (if channel = NULL \<or> xfer = NULL then returnm (- EINVAL)
      else
        bindm (elem_of chans channel) (\<lambda>c.
        if ch_extra c = NULL then returnm (- EINVAL)
        else
          bindm (CMem.deref sdma_chs (ch_extra c)) (\<lambda>s.
          bindm (hdma_update (hdma s) (\<lambda>h. h\<lparr>Instance := ch_num s, PeriphInc := (if per_increment s then 0x40 else 0),
            MemInc := (if mem_increment s then 0x80 else 0)\<rparr>)) (\<lambda>_.
          init_member (hdma s) (data_align 0x400 0x800 (mem_data_alignment s)) (\<lambda>r h. h\<lparr>MemDataAlignment := r\<rparr>)
          (init_member (hdma s) (data_align 0x100 0x200 (per_data_alignment s)) (\<lambda>r h. h\<lparr>PeriphDataAlignment := r\<rparr>)
          (init_member (hdma s) (mode_reg (dma_mode s)) (\<lambda>r h. h\<lparr>DmaMode := r\<rparr>)
          (bindm (elem_of dxfers xfer) (\<lambda>x.
           init_member (hdma s) (direction_reg (x_type x)) (\<lambda>r h. h\<lparr>Direction := r\<rparr>)
           (bindm (modifym (\<lambda>\<sigma>. \<sigma>\<lparr>sdma_chs := (sdma_chs \<sigma>)(block_of (ch_extra c) \<mapsto>
              s\<lparr>sc_src := x_src x, sc_dst := x_dst x, sc_length := x_length x\<rparr>)\<rparr>)) (\<lambda>_.
            bindm (CMem.deref hdmas (hdma s)) (\<lambda>h.
            bindm (on_dhw (HAL_DMA_Init H h)) (\<lambda>ok. returnm (hal_code ok)))))))))))))"

section \<open>Starting and stopping\<close>

text \<open>The tests of both, and the handle.\<close>

definition with_hdma ::
  "ptr \<Rightarrow> ptr \<Rightarrow> (no_os_dma_ch \<Rightarrow> stm32_dma_channel \<Rightarrow> DMA_HandleTypeDef \<Rightarrow> 'h \<Rightarrow> bool \<times> 'h) \<Rightarrow>
   (('i, 'h, 'z) stm32_dma_state_scheme, int) cm" where
  "with_hdma desc chan f =
     (if desc = NULL \<or> chan = NULL then returnm (- EINVAL)
      else
        bindm (elem_of chans chan) (\<lambda>c.
        if ch_extra c = NULL then returnm (- EINVAL)
        else
          bindm (CMem.deref sdma_chs (ch_extra c)) (\<lambda>s.
          bindm (CMem.deref hdmas (hdma s)) (\<lambda>h.
          bindm (on_dhw (f c s h)) (\<lambda>ok. returnm (hal_code ok))))))"

definition stm32_dma_xfer_start :: "'h dma_hal \<Rightarrow> ptr \<Rightarrow> ptr \<Rightarrow> (('i, 'h, 'z) stm32_dma_state_scheme, int) cm" where
  "stm32_dma_xfer_start H desc chan =
     with_hdma desc chan (\<lambda>c s h.
       if irq_num c \<noteq> 0 then HAL_DMA_Start_IT H h (sc_src s) (sc_dst s) (sc_length s)
       else HAL_DMA_Start H h (sc_src s) (sc_dst s) (sc_length s))"

definition stm32_dma_xfer_abort :: "'h dma_hal \<Rightarrow> ptr \<Rightarrow> ptr \<Rightarrow> (('i, 'h, 'z) stm32_dma_state_scheme, int) cm" where
  "stm32_dma_xfer_abort H desc chan =
     with_hdma desc chan (\<lambda>c s h. if irq_num c \<noteq> 0 then HAL_DMA_Abort_IT H h else HAL_DMA_Abort H h)"

section \<open>Creating and removing\<close>

definition zero_ch :: no_os_dma_ch where
  "zero_ch = \<lparr>ch_id = 0, ch_free = False, sg_list = None, irq_num = 0,
     cb_desc = \<lparr>cb_callback = None, cb_ctx = 0, cb_event = NO_OS_EVT_GPIO, cb_peripheral = NO_OS_GPIO_IRQ, cb_handle = 0\<rparr>,
     irq_ctx = \<lparr>hd_desc = NULL, hd_channel = NULL\<rparr>, ch_extra = NULL, ch_mutex = NULL, sync_lock = False\<rparr>"

definition ddesc_calloc :: "(('i, 'h, 'z) stm32_dma_state_scheme, ptr) cm" where
  "ddesc_calloc = new_obj sizeof_no_os_dma_desc (\<lambda>b \<sigma>. \<sigma>\<lparr>ddescs := (ddescs \<sigma>)(b \<mapsto>
     \<lparr>dma_id = 0, num_ch = 0, channels = NULL, dma_platform = None, irq_ctrl = NULL, dma_ref = 0, dma_mutex = NULL,
      sg_handler = None\<rparr>)\<rparr>)"

text \<open>\<open>no_os_calloc(num_ch, sizeof(*channels))\<close>, whose product wraps; nothing is allocated for 0.\<close>

definition chans_calloc :: "u32 \<Rightarrow> (('i, 'h, 'z) stm32_dma_state_scheme, ptr) cm" where
  "chans_calloc n =
     (let sz = unat n * sizeof_no_os_dma_ch mod 2 ^ 32 in
      if sz = 0 then returnm NULL
      else new_obj sz (\<lambda>b \<sigma>. \<sigma>\<lparr>chans := (chans \<sigma>)(b \<mapsto> replicate (sz div sizeof_no_os_dma_ch) zero_ch)\<rparr>))"

definition ddesc_free :: "ptr \<Rightarrow> (('i, 'h, 'z) stm32_dma_state_scheme, unit) cm" where
  "ddesc_free p = bindm (CMem.deref ddescs p) (\<lambda>_. modifym (\<lambda>\<sigma>. \<sigma>\<lparr>ddescs := (ddescs \<sigma>)(block_of p := None)\<rparr>))"

definition chans_free :: "ptr \<Rightarrow> (('i, 'h, 'z) stm32_dma_state_scheme, unit) cm" where
  "chans_free p =
     (if p = NULL then returnm ()
      else bindm (CMem.deref chans p) (\<lambda>_. modifym (\<lambda>\<sigma>. \<sigma>\<lparr>chans := (chans \<sigma>)(block_of p := None)\<rparr>)))"

fun free_channels :: "ptr \<Rightarrow> nat \<Rightarrow> nat \<Rightarrow> (('i, 'h, 'z) stm32_dma_state_scheme, unit) cm" where
  "free_channels p i 0 = returnm ()"
| "free_channels p i (Suc n) =
     bindm (ch_update (ptr_add p i) (\<lambda>c. c\<lparr>ch_free := True\<rparr>)) (\<lambda>_. free_channels p (Suc i) n)"

text \<open>The index of the loop has 8 bits, so it does not end for more than 255 channels. The
  result of creating the interrupt controller is not looked at, and \<open>dma_descriptor\<close> is not
  assigned. \<open>irqs\<close> is the address of \<open>stm32_irq_ops\<close>, which no file of the repository defines.\<close>

definition stm32_dma_init ::
  "('i, ('h, 'z) stm32_dma_state_ext, 'x) irq_tables \<Rightarrow> nat \<Rightarrow> ptr option \<Rightarrow> no_os_dma_init_param \<Rightarrow>
   (('i, 'h, 'z) stm32_dma_state_scheme, int \<times> ptr option) cm" where
  "stm32_dma_init T irqs desc param =
     (if desc = None then returnm (- EINVAL, desc)
      else
        bindm (getm dma_descriptor) (\<lambda>known.
        if known \<noteq> NULL then returnm (0, Some known)
        else
          bindm ddesc_calloc (\<lambda>descriptor.
          if descriptor = NULL then returnm (- ENOMEM, desc)
          else
            bindm (chans_calloc (dp_num_ch param)) (\<lambda>cs.
            if cs = NULL then bindm (ddesc_free descriptor) (\<lambda>_. returnm (- ENOMEM, desc))
            else
              bindm (ddesc_update descriptor (\<lambda>d. d\<lparr>dma_id := dp_id param, num_ch := dp_num_ch param, channels := cs,
                sg_handler := dp_sg_handler param\<rparr>)) (\<lambda>_.
              bindm (if 255 < unat (dp_num_ch param) then failm Diverges else free_channels cs 0 (unat (dp_num_ch param))) (\<lambda>_.
              bindm (no_os_irq_ctrl_init T (Some NULL)
                (Some \<lparr>ip_irq_ctrl_id = 0, ip_platform_ops = Some irqs, ip_extra = None\<rparr>)) (\<lambda>(_, ctrl).
              bindm (ddesc_update descriptor (\<lambda>d. d\<lparr>irq_ctrl := the ctrl\<rparr>)) (\<lambda>_.
              returnm (0, Some descriptor)))))))))"

definition stm32_dma_remove ::
  "('i, ('h, 'z) stm32_dma_state_ext, 'x) irq_tables \<Rightarrow> ptr \<Rightarrow> (('i, 'h, 'z) stm32_dma_state_scheme, int) cm" where
  "stm32_dma_remove T desc =
     bindm (CMem.deref ddescs desc) (\<lambda>d.
     bindm (no_os_irq_ctrl_remove T (irq_ctrl d)) (\<lambda>_.
     bindm (CMem.deref ddescs desc) (\<lambda>d.
     bindm (chans_free (channels d)) (\<lambda>_.
     bindm (ddesc_free desc) (\<lambda>_.
     bindm (modifym (\<lambda>\<sigma>. \<sigma>\<lparr>dma_descriptor := NULL\<rparr>)) (\<lambda>_. returnm 0))))))"

definition stm32_dma_ops ::
  "'h dma_hal \<Rightarrow> ('i, ('h, 'z) stm32_dma_state_ext, 'x) irq_tables \<Rightarrow> nat \<Rightarrow>
   ('i, 'h, 'z) stm32_dma_state_scheme dma_platform_ops" where
  "stm32_dma_ops H T irqs = \<lparr>dma_ops_init = Some (stm32_dma_init T irqs), dma_ops_remove = Some (stm32_dma_remove T),
     dma_ops_acquire_ch = None, dma_ops_release_ch = None, dma_ops_config_xfer = Some (stm32_dma_config_xfer H),
     dma_ops_xfer_start = Some (stm32_dma_xfer_start H), dma_ops_xfer_abort = Some (stm32_dma_xfer_abort H),
     dma_ops_ch_is_completed = None, dma_ops_ch_in_progress = None\<rparr>"

end
