(* ===== verification/NoOs_Dma_Queue.thy ===== *)
theory NoOs_Dma_Queue
  imports NoOs_Dma
begin

text \<open>
  The queue of a DMA channel. The list of \<open>no_os_list.c\<close> in a channel is a queue of pointers to
  transfers; the lemmas on it need nothing but the invariant of the list. What the generic part
  needs of a platform is the locale \<open>dma_engine\<close>: configuring, starting and stopping
  a channel change the platform's own state \<open>hw\<close> only. Inside it: what an interrupt does
  to the queue, and that the interrupts of one chain run the transfers in order.
\<close>

section \<open>Access\<close>

definition elem_at :: "(nat \<Rightarrow> 'o list option) \<Rightarrow> ptr \<Rightarrow> 'o \<Rightarrow> bool" where
  "elem_at m p x \<longleftrightarrow> (\<exists>b i xs. p = Ptr b i \<and> m b = Some xs \<and> i < length xs \<and> xs ! i = x)"

lemma elem_of_ok: "elem_at (heap \<sigma>) p x \<Longrightarrow> elem_of heap p \<sigma> = Inr (x, \<sigma>)"
  by (auto simp: elem_at_def elem_of_def)

lemmas ch_of_ok = elem_of_ok[where heap = chans]
lemmas xfer_of_ok = elem_of_ok[where heap = dxfers]

lemma elem_at_not_NULL [simp]: "\<not> elem_at m NULL x"
  by (simp add: elem_at_def)

lemma elem_at_upd:
  "elem_at m p x \<Longrightarrow> elem_at (m(block_of p \<mapsto> (the (m (block_of p)))[index_of p := y])) p y"
  by (auto simp: elem_at_def)

text \<open>A state in which the interrupt controller or the queues differ.\<close>

abbreviation with_irq :: "('i, 'z) dma_state_scheme \<Rightarrow> 'i \<Rightarrow> ('i, 'z) dma_state_scheme" where
  "with_irq \<sigma> h \<equiv> \<sigma>\<lparr>irq_hw := h\<rparr>"

abbreviation with_sg :: "('i, 'z) dma_state_scheme \<Rightarrow> (nat \<Rightarrow> ptr list_state option) \<Rightarrow> ('i, 'z) dma_state_scheme" where
  "with_sg \<sigma> m \<equiv> \<sigma>\<lparr>sg_lists := m\<rparr>"

text \<open>All but the platform's part of the state.\<close>

abbreviation same_dma :: "('i, 'z) dma_state_scheme \<Rightarrow> ('i, 'z) dma_state_scheme \<Rightarrow> bool" where
  "same_dma \<sigma> \<sigma>' \<equiv> dma_state.truncate \<sigma>' = dma_state.truncate \<sigma>"

lemma same_dma_simps:
  assumes "same_dma \<sigma> \<sigma>'"
  shows "sems \<sigma>' = sems \<sigma>" "handle_cells \<sigma>' = handle_cells \<sigma>" "idescs \<sigma>' = idescs \<sigma>" "ddescs \<sigma>' = ddescs \<sigma>"
    "chans \<sigma>' = chans \<sigma>" "dxfers \<sigma>' = dxfers \<sigma>" "sg_lists \<sigma>' = sg_lists \<sigma>" "sg_grants \<sigma>' = sg_grants \<sigma>"
    "irq_hw \<sigma>' = irq_hw \<sigma>"
  using assms by (simp_all add: dma_state.defs)

lemma set_count_dma [simp]:
  fixes \<sigma> :: "('i, 'z) dma_state_scheme"
  shows "idescs (set_count m n \<sigma>) = idescs \<sigma>" "ddescs (set_count m n \<sigma>) = ddescs \<sigma>" "chans (set_count m n \<sigma>) = chans \<sigma>"
    "dxfers (set_count m n \<sigma>) = dxfers \<sigma>" "sg_lists (set_count m n \<sigma>) = sg_lists \<sigma>"
    "sg_grants (set_count m n \<sigma>) = sg_grants \<sigma>" "irq_hw (set_count m n \<sigma>) = irq_hw \<sigma>"
    "dma_state.more (set_count m n \<sigma>) = dma_state.more \<sigma>"
  by (simp_all add: set_count_def)

section \<open>The queue\<close>

abbreviation queued :: "('i, 'z) dma_state_scheme \<Rightarrow> nat option \<Rightarrow> ptr list \<Rightarrow> bool" where
  "queued \<sigma> p xs \<equiv> held (sg_lists \<sigma>) (sg_grants \<sigma>) p xs"

lemma on_sg_ok:
  assumes q: "queued \<sigma> p xs"
    and f: "\<And>l. holds l xs \<Longrightarrow> alloc_ok l = sg_grants \<sigma> (the p) \<Longrightarrow> \<exists>l'. f Valid l = Inr (r, l') \<and> holds l' xs' \<and> same_desc l l'"
  shows "\<exists>m. on_sg p f \<sigma> = Inr (r, with_sg \<sigma> m) \<and> held m (sg_grants \<sigma>) p xs'"
proof -
  have "\<exists>l'. run_list sg_lists (\<lambda>m \<sigma>. \<sigma>\<lparr>sg_lists := m\<rparr>) (\<lambda>_ _ _. 0) p f \<sigma> =
      Inr (r, with_sg \<sigma> ((sg_lists \<sigma>)(the p \<mapsto> l'))) \<and> held ((sg_lists \<sigma>)(the p \<mapsto> l')) (sg_grants \<sigma>) p xs'"
    by (rule run_list_ok[where heap = sg_lists and put = "\<lambda>m \<sigma>. \<sigma>\<lparr>sg_lists := m\<rparr>", OF q]) (rule f)
  then show ?thesis unfolding on_sg_def by blast
qed

lemma sg_get:
  "queued \<sigma> p (x # xs) \<Longrightarrow>
   \<exists>m. on_sg p (\<lambda>a. no_os_list_get_first a Valid) \<sigma> = Inr ((0, Some x), with_sg \<sigma> m) \<and> held m (sg_grants \<sigma>) p xs"
  by (erule on_sg_ok) (rule queue.pop_run)

lemma sg_get_empty:
  "queued \<sigma> p [] \<Longrightarrow>
   \<exists>m. on_sg p (\<lambda>a. no_os_list_get_first a Valid) \<sigma> = Inr ((- 1, None), with_sg \<sigma> m) \<and> held m (sg_grants \<sigma>) p []"
  by (erule on_sg_ok) (auto simp: holds_def same_desc_refl dest: get_empty(1))

lemma sg_read:
  "queued \<sigma> p xs \<Longrightarrow>
   \<exists>m. on_sg p (\<lambda>a. no_os_list_read_first a Valid) \<sigma> =
       Inr ((case xs of [] \<Rightarrow> (- 1, None) | x # _ \<Rightarrow> (0, Some x)), with_sg \<sigma> m) \<and> held m (sg_grants \<sigma>) p xs"
proof (erule on_sg_ok)
  fix l :: "ptr list_state"
  assume "holds l xs"
  then obtain ns where ns: "list_inv l ns" "map snd ns = xs" by (auto simp: holds_def)
  show "\<exists>l'. no_os_list_read_first Valid Valid l = Inr ((case xs of [] \<Rightarrow> (- 1, None) | x # _ \<Rightarrow> (0, Some x)), l') \<and>
      holds l' xs \<and> same_desc l l'"
  proof (cases ns)
    case Nil
    then show ?thesis
      using ns \<open>holds l xs\<close> nb_elements_0[OF ns(1)]
      by (auto simp: no_os_list_read_first_def bindm_unfold run_simps same_desc_refl list_inv_def)
  next
    case (Cons e ms)
    have "elems l (fst e) = Some \<lparr>e_data = snd e, e_prev = None, e_next = heado ms None\<rparr>"
      using list_inv_node[where xs = "[]" and x = e and ys = ms] ns Cons by simp
    then show ?thesis
      using ns \<open>holds l xs\<close> Cons
      by (auto simp: no_os_list_read_first_def bindm_unfold run_simps same_desc_refl list_inv_def load_elem_def NoOs_List.deref_def)
  qed
qed

lemma sg_get_size:
  "queued \<sigma> p xs \<Longrightarrow>
   \<exists>m. on_sg p (\<lambda>a. no_os_list_get_size a Valid) \<sigma> = Inr ((0, Some (of_nat (length xs))), with_sg \<sigma> m) \<and>
     held m (sg_grants \<sigma>) p xs"
  by (erule on_sg_ok) (auto simp: holds_def no_os_list_get_size_def bindm_unfold run_simps same_desc_refl list_inv_def)

lemma queued_short: "queued \<sigma> p xs \<Longrightarrow> length xs < 2 ^ 31"
  by (auto simp: held_def holds_def list_inv_def)

text \<open>Adding transfers from \<open>xfer\<close> on, taking \<open>n\<close> from the front, taking all.\<close>

definition xfer_ptrs :: "ptr \<Rightarrow> nat \<Rightarrow> ptr list" where
  "xfer_ptrs xfer n = map (ptr_add xfer) [0..<n]"

lemma xfer_ptrs_Suc: "xfer_ptrs xfer (Suc n) = xfer # xfer_ptrs (ptr_add xfer 1) n"
proof -
  have a: "ptr_add xfer 0 = xfer" "ptr_add xfer (Suc i) = ptr_add (ptr_add xfer 1) i" for i by (cases xfer; simp)+
  show ?thesis unfolding xfer_ptrs_def map_upt_Suc a by (rule refl)
qed

lemma length_xfer_ptrs [simp]: "length (xfer_ptrs xfer n) = n"
  by (simp add: xfer_ptrs_def)

lemma sg_add:
  assumes "queued \<sigma> p xs" and "\<forall>j. sg_grants \<sigma> (the p) j" and "Suc (length xs) < 2 ^ 31"
  shows "\<exists>m. on_sg p (\<lambda>a. no_os_list_add_last a x) \<sigma> = Inr (0, with_sg \<sigma> m) \<and> held m (sg_grants \<sigma>) p (xs @ [x])"
  by (rule on_sg_ok[OF assms(1)], rule queue.push_run) (use assms in simp_all)

lemma add_xfers_run:
  "queued \<sigma> p xs \<Longrightarrow> \<forall>j. sg_grants \<sigma> (the p) j \<Longrightarrow> length xs + n < 2 ^ 31 \<Longrightarrow>
   \<exists>m. add_xfers p xfer n \<sigma> = Inr ((), with_sg \<sigma> m) \<and> held m (sg_grants \<sigma>) p (xs @ xfer_ptrs xfer n)"
proof (induction n arbitrary: \<sigma> xs xfer)
  case 0
  then show ?case by (auto simp: run_simps xfer_ptrs_def intro!: exI[of _ "sg_lists \<sigma>"])
next
  case (Suc n)
  obtain m where m: "on_sg p (\<lambda>a. no_os_list_add_last a xfer) \<sigma> = Inr (0, with_sg \<sigma> m)"
    "queued (with_sg \<sigma> m) p (xs @ [xfer])"
    using sg_add[OF Suc.prems(1,2), of xfer] Suc.prems(3) by auto
  from Suc.IH[OF m(2), of "ptr_add xfer 1"] Suc.prems m(1) show ?case
    by (auto simp: bindm_unfold xfer_ptrs_Suc)
qed

lemma discard_xfers_run:
  "queued \<sigma> p xs \<Longrightarrow> \<exists>m. discard_xfers p n \<sigma> = Inr ((), with_sg \<sigma> m) \<and> held m (sg_grants \<sigma>) p (drop n xs)"
proof (induction n arbitrary: \<sigma> xs)
  case 0
  then show ?case by (auto simp: run_simps intro!: exI[of _ "sg_lists \<sigma>"])
next
  case (Suc n)
  obtain r m where m: "on_sg p (\<lambda>a. no_os_list_get_first a Valid) \<sigma> = Inr (r, with_sg \<sigma> m)"
    "queued (with_sg \<sigma> m) p (drop 1 xs)"
    using sg_get[of \<sigma> p] sg_get_empty[of \<sigma> p] Suc.prems by (cases xs) fastforce+
  from Suc.IH[OF m(2)] m(1) show ?case by (auto simp: bindm_unfold)
qed

lemma sg_drain_run:
  "queued \<sigma> p xs \<Longrightarrow> length xs < n \<Longrightarrow>
   \<exists>m. sg_drain n p \<sigma> = Inr ((), with_sg \<sigma> m) \<and> held m (sg_grants \<sigma>) p []"
proof (induction xs arbitrary: \<sigma> n)
  case Nil
  then obtain k where "n = Suc k" by (cases n) auto
  with sg_get_empty[OF Nil(1)] show ?case by (auto simp: bindm_unfold run_simps)
next
  case (Cons x xs)
  then obtain k where k: "n = Suc k" "length xs < k" by (cases n) auto
  obtain m where m: "on_sg p (\<lambda>a. no_os_list_get_first a Valid) \<sigma> = Inr ((0, Some x), with_sg \<sigma> m)"
    "queued (with_sg \<sigma> m) p xs"
    using sg_get[OF Cons.prems(1)] by auto
  from Cons.IH[OF m(2) k(2)] m(1) k(1) show ?case by (auto simp: bindm_unfold)
qed

lemma sg_size_eq: "queued \<sigma> p xs \<Longrightarrow> sg_size p \<sigma> = length xs"
  using unat_nb_elements by (fastforce simp: held_def holds_def sg_size_def)

section \<open>The interrupt controller\<close>

text \<open>An interrupt controller whose operations change its own state only. What they answer does
  not matter, except that callbacks can be registered.\<close>

definition irq_quiet :: "(('i, 'z) dma_state_scheme, 'x) irq_platform_ops \<Rightarrow> bool" where
  "irq_quiet ops \<longleftrightarrow>
     (\<exists>en dis reg pri. irq_ops_enable ops = Some en \<and> irq_ops_disable ops = Some dis \<and>
        irq_ops_register_callback ops = Some reg \<and> irq_ops_set_priority ops = Some pri \<and>
        (\<forall>p n cb l \<sigma>. (\<exists>r h. en p n \<sigma> = Inr (r, with_irq \<sigma> h)) \<and> (\<exists>r h. dis p n \<sigma> = Inr (r, with_irq \<sigma> h)) \<and>
           (\<exists>h. reg p n cb \<sigma> = Inr (0, with_irq \<sigma> h)) \<and> (\<exists>r h. pri p n l \<sigma> = Inr (r, with_irq \<sigma> h))))"

definition irq_serves :: "('i, 'z, 'x) irq_tables \<Rightarrow> ('i, 'z) dma_state_scheme \<Rightarrow> ptr \<Rightarrow> bool" where
  "irq_serves T \<sigma> ctrl \<longleftrightarrow>
     (\<exists>q e k. ctrl = Ptr q 0 \<and> idescs \<sigma> q = Some e \<and> iq_platform_ops e = Some k \<and> irq_quiet (T k))"

lemma irq_serves_cong: "idescs \<sigma>' = idescs \<sigma> \<Longrightarrow> irq_serves T \<sigma>' ctrl = irq_serves T \<sigma> ctrl"
  by (simp add: irq_serves_def)

lemma irq_runs:
  assumes "irq_serves T \<sigma> ctrl"
  shows "ctrl \<noteq> NULL" "\<exists>r h. no_os_irq_enable T ctrl n \<sigma> = Inr (r, with_irq \<sigma> h)"
    "\<exists>r h. no_os_irq_disable T ctrl n \<sigma> = Inr (r, with_irq \<sigma> h)"
    "\<exists>h. no_os_irq_register_callback T ctrl n cb \<sigma> = Inr (0, with_irq \<sigma> h)"
    "\<exists>r h. no_os_irq_set_priority T ctrl n l \<sigma> = Inr (r, with_irq \<sigma> h)"
  using assms
  by (auto simp: irq_serves_def irq_quiet_def no_os_irq_enable_def no_os_irq_disable_def
      no_os_irq_register_callback_def no_os_irq_set_priority_def irq_call_ok)

section \<open>A channel in use\<close>

text \<open>Controller, platform and channel as the generic part needs them.\<close>

definition sg_chan ::
  "('i, 'z) dma_tables \<Rightarrow> ('i, 'z, 'x) irq_tables \<Rightarrow> ('i, 'z) dma_state_scheme dma_platform_ops \<Rightarrow> ptr \<Rightarrow> ptr \<Rightarrow>
   no_os_dma_desc \<Rightarrow> no_os_dma_ch \<Rightarrow> ('i, 'z) dma_state_scheme \<Rightarrow> bool" where
  "sg_chan D T P desc ch d c \<sigma> \<longleftrightarrow>
     (\<exists>b. desc = Ptr b 0 \<and> ddescs \<sigma> b = Some d) \<and> (\<exists>k. dma_platform d = Some k \<and> D k = P) \<and>
     irq_serves T \<sigma> (irq_ctrl d) \<and> elem_at (chans \<sigma>) ch c \<and> mutex_free \<sigma> (ch_mutex c)"

text \<open>What the operations on a queue leave alone.\<close>

definition kept :: "('i, 'z) dma_state_scheme \<Rightarrow> ('i, 'z) dma_state_scheme \<Rightarrow> bool" where
  "kept \<sigma> \<sigma>' \<longleftrightarrow> sems \<sigma>' = sems \<sigma> \<and> handle_cells \<sigma>' = handle_cells \<sigma> \<and> idescs \<sigma>' = idescs \<sigma> \<and> ddescs \<sigma>' = ddescs \<sigma> \<and>
     dxfers \<sigma>' = dxfers \<sigma> \<and> sg_grants \<sigma>' = sg_grants \<sigma>"

lemma kept_trans: "kept \<sigma> \<sigma>1 \<Longrightarrow> kept \<sigma>1 \<sigma>2 \<Longrightarrow> kept \<sigma> \<sigma>2"
  by (simp add: kept_def)

lemma kept_same: "same_dma \<sigma> \<sigma>' \<Longrightarrow> kept \<sigma> \<sigma>'"
  by (simp add: kept_def same_dma_simps[of \<sigma> \<sigma>'])

lemma kept_upd: "kept \<sigma> (with_irq \<sigma> h)" "kept \<sigma> (with_sg \<sigma> m)"
  by (simp_all add: kept_def)

lemma sg_chan_kept:
  assumes "sg_chan D T P desc ch d c \<sigma>" and k: "kept \<sigma> \<sigma>'" and "elem_at (chans \<sigma>') ch c'" and "ch_mutex c' = ch_mutex c"
  shows "sg_chan D T P desc ch d c' \<sigma>'"
proof -
  have "mutex_count \<sigma>' (ch_mutex c) = mutex_count \<sigma> (ch_mutex c)"
    by (rule mutex_count_cong) (use k in \<open>simp_all add: kept_def\<close>)
  then show ?thesis
    using assms by (auto simp: sg_chan_def kept_def irq_serves_cong[of \<sigma>' \<sigma>])
qed

text \<open>Between taking and giving back the mutex of the channel.\<close>

lemma ch_locked_ok:
  assumes "elem_at (chans \<sigma>) ch c" and "mutex_free \<sigma> (ch_mutex c)"
    and f: "f (set_count (ch_mutex c) 0 \<sigma>) = Inr (r, \<tau>)" and k: "kept (set_count (ch_mutex c) 0 \<sigma>) \<tau>"
    and "elem_at (chans \<tau>) ch c'" and "ch_mutex c' = ch_mutex c"
  shows "ch_locked ch f \<sigma> = Inr (r, set_count (ch_mutex c) 1 \<tau>)" and "kept \<sigma> (set_count (ch_mutex c) 1 \<tau>)"
proof -
  let ?m = "ch_mutex c"
  have "mutex_count \<tau> ?m = mutex_count (set_count ?m 0 \<sigma>) ?m"
    by (rule mutex_count_cong) (use k in \<open>simp_all add: kept_def\<close>)
  then have "mutex_taken \<tau> ?m" using assms(2) by simp
  then show "ch_locked ch f \<sigma> = Inr (r, set_count ?m 1 \<tau>)"
    using assms by (simp add: ch_locked_def bindm_unfold elem_of_ok mutex_lock_ok mutex_unlock_ok run_simps)
  have "sems (set_count ?m 1 \<tau>) = sems \<sigma>"
    using k mutex_countD[OF assms(2)] by (auto simp: kept_def set_count_def fun_upd_idem)
  then show "kept \<sigma> (set_count ?m 1 \<tau>)" using k by (simp add: kept_def)
qed

lemma dma_call_ok:
  assumes "sg_chan D T P desc ch d c \<sigma>" and "sel P = Some f"
  shows "dma_call D desc (ch = NULL) sel g \<sigma> = g d f \<sigma>"
proof -
  have "ch \<noteq> NULL" using assms(1) by (auto simp: sg_chan_def)
  with assms show ?thesis
    by (auto simp: sg_chan_def dma_call_def bindm_Inr[OF CMem.deref_ok[where heap = ddescs]])
qed

text \<open>An element of \<open>channels\<close> written.\<close>

definition set_ch :: "ptr \<Rightarrow> no_os_dma_ch \<Rightarrow> ('i, 'z) dma_state_scheme \<Rightarrow> ('i, 'z) dma_state_scheme" where
  "set_ch ch c \<sigma> = \<sigma>\<lparr>chans := (chans \<sigma>)(block_of ch \<mapsto> (the (chans \<sigma> (block_of ch)))[index_of ch := c])\<rparr>"

lemma ch_update_ok: "elem_at (chans \<sigma>) ch c \<Longrightarrow> ch_update ch f \<sigma> = Inr ((), set_ch ch (f c) \<sigma>)"
  by (simp add: ch_update_def bindm_unfold elem_of_ok run_simps set_ch_def)

lemma elem_at_set_ch: "elem_at (chans \<sigma>) ch c \<Longrightarrow> elem_at (chans (set_ch ch c' \<sigma>)) ch c'"
  by (simp add: set_ch_def elem_at_upd)

lemma set_ch_simps [simp]:
  "kept \<sigma> (set_ch ch c \<sigma>)" "sems (set_ch ch c \<sigma>) = sems \<sigma>" "handle_cells (set_ch ch c \<sigma>) = handle_cells \<sigma>"
  "idescs (set_ch ch c \<sigma>) = idescs \<sigma>" "ddescs (set_ch ch c \<sigma>) = ddescs \<sigma>"
  "dxfers (set_ch ch c \<sigma>) = dxfers \<sigma>" "sg_lists (set_ch ch c \<sigma>) = sg_lists \<sigma>" "sg_grants (set_ch ch c \<sigma>) = sg_grants \<sigma>"
  "dma_state.more (set_ch ch c \<sigma>) = dma_state.more \<sigma>"
  by (simp_all add: set_ch_def kept_def)

lemma desc_ok:
  assumes "sg_chan D T P desc ch d c \<sigma>"
  shows "CMem.deref ddescs desc \<sigma> = Inr (d, \<sigma>)" "sel P = Some f \<Longrightarrow> dma_ops D d sel \<tau> = Inr (f, \<tau>)"
  using assms by (auto simp: sg_chan_def run_simps dma_ops_def)

text \<open>The end of a transfer as the application sees it: \<open>act\<close> is what a callback does to the view.\<close>

definition complete :: "(nat \<Rightarrow> ptr \<Rightarrow> ptr \<Rightarrow> nat \<Rightarrow> 'w \<Rightarrow> 'w) \<Rightarrow> ptr \<Rightarrow> dma_xfer \<Rightarrow> ptr \<Rightarrow> 'w \<Rightarrow> 'w" where
  "complete act p x nxt w =
     (case xfer_complete_cb x of None \<Rightarrow> w | Some f \<Rightarrow> act f p nxt (xfer_complete_ctx x) w)"

definition call_quiet ::
  "(('i, 'z) dma_state_scheme \<Rightarrow> 'w) \<Rightarrow> (nat \<Rightarrow> ptr \<Rightarrow> ptr \<Rightarrow> nat \<Rightarrow> (('i, 'z) dma_state_scheme, unit) cm) \<Rightarrow>
   (nat \<Rightarrow> ptr \<Rightarrow> ptr \<Rightarrow> nat \<Rightarrow> 'w \<Rightarrow> 'w) \<Rightarrow> bool" where
  "call_quiet hw call act \<longleftrightarrow>
     (\<forall>f p nxt ctx \<sigma>. \<exists>\<sigma>'. call f p nxt ctx \<sigma> = Inr ((), \<sigma>') \<and> same_dma \<sigma> \<sigma>' \<and> hw \<sigma>' = act f p nxt ctx (hw \<sigma>))"

lemma complete_run:
  assumes "call_quiet hw call act"
  shows "\<exists>\<sigma>'. (case xfer_complete_cb x of None \<Rightarrow> returnm () | Some f \<Rightarrow> call f p nxt (xfer_complete_ctx x)) \<sigma> = Inr ((), \<sigma>') \<and>
    same_dma \<sigma> \<sigma>' \<and> hw \<sigma>' = complete act p x nxt (hw \<sigma>)"
  using assms by (cases "xfer_complete_cb x") (auto simp: complete_def call_quiet_def run_simps)

text \<open>The view after the interrupts of the transfers \<open>ps\<close>, the first of which is running.\<close>

fun chain ::
  "(ptr \<Rightarrow> dma_xfer \<Rightarrow> 'w \<Rightarrow> int \<times> 'w) \<Rightarrow> (ptr \<Rightarrow> u32 \<Rightarrow> 'w \<Rightarrow> int \<times> 'w) \<Rightarrow> (nat \<Rightarrow> ptr \<Rightarrow> ptr \<Rightarrow> nat \<Rightarrow> 'w \<Rightarrow> 'w) \<Rightarrow>
   ptr \<Rightarrow> u32 \<Rightarrow> ptr \<Rightarrow> (ptr \<Rightarrow> dma_xfer) \<Rightarrow> ptr list \<Rightarrow> 'w \<Rightarrow> 'w" where
  "chain prog launch act e n stack X [] w = w"
| "chain prog launch act e n stack X [p] w = complete act p (X p) stack w"
| "chain prog launch act e n stack X (p # q # ps) w =
     chain prog launch act e n stack X (q # ps) (snd (launch e n (snd (prog e (X q) (complete act p (X p) q w)))))"

fun sg_interrupts ::
  "('i, 'z) dma_tables \<Rightarrow> ('i, 'z, 'x) irq_tables \<Rightarrow>
   (nat \<Rightarrow> ptr \<Rightarrow> ptr \<Rightarrow> nat \<Rightarrow> (('i, 'z) dma_state_scheme, unit) cm) \<Rightarrow> ptr \<Rightarrow> ptr \<Rightarrow> nat \<Rightarrow> (('i, 'z) dma_state_scheme, unit) cm" where
  "sg_interrupts D T call stack ch 0 = returnm ()"
| "sg_interrupts D T call stack ch (Suc n) =
     bindm (default_sg_callback D T call stack ch) (\<lambda>_. sg_interrupts D T call stack ch n)"

lemma same_channel:
  assumes "c'\<lparr>cb_desc := x, irq_ctx := y\<rparr> = c"
  shows "ch_mutex c' = ch_mutex c" "sg_list c' = sg_list c" "ch_extra c' = ch_extra c" "irq_num c' = irq_num c"
  using assms by auto

section \<open>The interface to the platform\<close>

text \<open>
  \<open>hw\<close> is the platform's view of the state. For the channel of the platform an element of
  \<open>channels\<close> points to, \<open>prog\<close>, \<open>launch\<close> and \<open>halt\<close> give the result code and the next view.
\<close>

locale dma_engine =
  fixes P :: "('i, 'z) dma_state_scheme dma_platform_ops"
    and hw :: "('i, 'z) dma_state_scheme \<Rightarrow> 'w"
    and usable :: "'w \<Rightarrow> ptr \<Rightarrow> bool"
    and prog :: "ptr \<Rightarrow> dma_xfer \<Rightarrow> 'w \<Rightarrow> int \<times> 'w"
    and launch :: "ptr \<Rightarrow> u32 \<Rightarrow> 'w \<Rightarrow> int \<times> 'w"
    and halt :: "ptr \<Rightarrow> u32 \<Rightarrow> 'w \<Rightarrow> int \<times> 'w"
  assumes hw_more: "dma_state.more \<sigma>' = dma_state.more \<sigma> \<Longrightarrow> hw \<sigma>' = hw \<sigma>"
    and config: "usable (hw \<sigma>) (ch_extra c) \<Longrightarrow> elem_at (chans \<sigma>) ch c \<Longrightarrow> elem_at (dxfers \<sigma>) p x \<Longrightarrow>
      \<exists>f \<sigma>'. dma_ops_config_xfer P = Some f \<and> f ch p \<sigma> = Inr (fst (prog (ch_extra c) x (hw \<sigma>)), \<sigma>') \<and>
        same_dma \<sigma> \<sigma>' \<and> hw \<sigma>' = snd (prog (ch_extra c) x (hw \<sigma>))"
    and start: "usable (hw \<sigma>) (ch_extra c) \<Longrightarrow> elem_at (chans \<sigma>) ch c \<Longrightarrow> desc \<noteq> NULL \<Longrightarrow>
      \<exists>f \<sigma>'. dma_ops_xfer_start P = Some f \<and> f desc ch \<sigma> = Inr (fst (launch (ch_extra c) (irq_num c) (hw \<sigma>)), \<sigma>') \<and>
        same_dma \<sigma> \<sigma>' \<and> hw \<sigma>' = snd (launch (ch_extra c) (irq_num c) (hw \<sigma>))"
    and abort: "usable (hw \<sigma>) (ch_extra c) \<Longrightarrow> elem_at (chans \<sigma>) ch c \<Longrightarrow> desc \<noteq> NULL \<Longrightarrow>
      \<exists>f \<sigma>'. dma_ops_xfer_abort P = Some f \<and> f desc ch \<sigma> = Inr (fst (halt (ch_extra c) (irq_num c) (hw \<sigma>)), \<sigma>') \<and>
        same_dma \<sigma> \<sigma>' \<and> hw \<sigma>' = snd (halt (ch_extra c) (irq_num c) (hw \<sigma>))"
    and usable_prog: "usable w e \<Longrightarrow> usable (snd (prog e x w)) e"
    and usable_launch: "usable w e \<Longrightarrow> usable (snd (launch e n w)) e"
    and usable_halt: "usable w e \<Longrightarrow> usable (snd (halt e n w)) e"
begin

lemma hw_upd [simp]:
  "hw (with_irq \<sigma> h) = hw \<sigma>" "hw (with_sg \<sigma> m) = hw \<sigma>" "hw (set_count p n \<sigma>) = hw \<sigma>"
  "hw (set_ch ch c \<sigma>) = hw \<sigma>"
  by (rule hw_more; simp)+

lemma start_run:
  assumes r: "sg_chan D T P desc ch d c \<sigma>" and u: "usable (hw \<sigma>) (ch_extra c)"
  shows "\<exists>\<sigma>'. no_os_dma_xfer_start D T desc ch \<sigma> = Inr (fst (launch (ch_extra c) (irq_num c) (hw \<sigma>)), \<sigma>') \<and>
    kept \<sigma> \<sigma>' \<and> chans \<sigma>' = chans \<sigma> \<and> sg_lists \<sigma>' = sg_lists \<sigma> \<and> hw \<sigma>' = snd (launch (ch_extra c) (irq_num c) (hw \<sigma>))"
proof -
  let ?m = "ch_mutex c" and ?ctrl = "irq_ctrl d"
  let ?s = "set_count ?m 0 \<sigma>"
  from r have ch: "elem_at (chans \<sigma>) ch c" "mutex_free \<sigma> ?m" and ctrl: "irq_serves T ?s ?ctrl"
    by (auto simp: sg_chan_def irq_serves_cong[of ?s \<sigma>])
  from r have desc: "desc \<noteq> NULL" by (auto simp: sg_chan_def)
  note i = irq_runs[OF ctrl]
  obtain q h where q: "no_os_irq_enable T ?ctrl (irq_num c) ?s = Inr (q, with_irq ?s h)" using i(2) by blast
  obtain f \<sigma>1 where f: "dma_ops_xfer_start P = Some f"
    "f desc ch (with_irq ?s h) = Inr (fst (launch (ch_extra c) (irq_num c) (hw \<sigma>)), \<sigma>1)" "same_dma (with_irq ?s h) \<sigma>1"
    "hw \<sigma>1 = snd (launch (ch_extra c) (irq_num c) (hw \<sigma>))"
    using start[of "with_irq ?s h" c ch desc] u ch desc by auto
  have k: "kept ?s \<sigma>1" using kept_trans[OF kept_upd(1) kept_same[OF f(3)]] .
  have c1: "chans \<sigma>1 = chans \<sigma>" "sg_lists \<sigma>1 = sg_lists \<sigma>" using same_dma_simps[OF f(3)] by simp_all
  let ?body = "bindm (elem_of chans ch) (\<lambda>c. bindm (if ?ctrl \<noteq> NULL then no_os_irq_enable T ?ctrl (irq_num c) else returnm 0)
      (\<lambda>_. f desc ch))"
  have body: "?body ?s = Inr (fst (launch (ch_extra c) (irq_num c) (hw \<sigma>)), \<sigma>1)"
    using i(1) q f(2) ch by (simp add: bindm_unfold elem_of_ok)
  note l = ch_locked_ok[where f = ?body and c' = c, OF ch body k]
  have "no_os_dma_xfer_start D T desc ch \<sigma> = ch_locked ch ?body \<sigma>"
    by (simp add: no_os_dma_xfer_start_def dma_call_ok[where sel = dma_ops_xfer_start, OF r f(1)])
  then show ?thesis
    using l c1 ch f(4) by (intro exI[of _ "set_count ?m 1 \<sigma>1"]) simp
qed

lemma abort_run:
  assumes r: "sg_chan D T P desc ch d c \<sigma>" and u: "usable (hw \<sigma>) (ch_extra c)" and xs: "queued \<sigma> (sg_list c) xs"
  shows "\<exists>\<sigma>'. no_os_dma_xfer_abort D T desc ch \<sigma> = Inr (fst (halt (ch_extra c) (irq_num c) (hw \<sigma>)), \<sigma>') \<and>
    kept \<sigma> \<sigma>' \<and> chans \<sigma>' = chans \<sigma> \<and> queued \<sigma>' (sg_list c) [] \<and> hw \<sigma>' = snd (halt (ch_extra c) (irq_num c) (hw \<sigma>))"
proof -
  let ?m = "ch_mutex c" and ?ctrl = "irq_ctrl d"
  let ?s = "set_count ?m 0 \<sigma>"
  from r have ch: "elem_at (chans \<sigma>) ch c" "mutex_free \<sigma> ?m" and ctrl: "irq_serves T ?s ?ctrl"
    by (auto simp: sg_chan_def irq_serves_cong[of ?s \<sigma>])
  from r have desc: "desc \<noteq> NULL" by (auto simp: sg_chan_def)
  note i = irq_runs[OF ctrl]
  obtain q h where q: "no_os_irq_disable T ?ctrl (irq_num c) ?s = Inr (q, with_irq ?s h)" using i(3) by blast
  obtain m where m: "sg_drain (Suc (length xs)) (sg_list c) (with_irq ?s h) = Inr ((), with_sg (with_irq ?s h) m)"
    "held m (sg_grants \<sigma>) (sg_list c) []"
    using sg_drain_run[of "with_irq ?s h" "sg_list c" xs "Suc (length xs)"] xs by auto
  let ?s2 = "with_sg (with_irq ?s h) m"
  obtain f \<sigma>1 where f: "dma_ops_xfer_abort P = Some f"
    "f desc ch ?s2 = Inr (fst (halt (ch_extra c) (irq_num c) (hw \<sigma>)), \<sigma>1)" "same_dma ?s2 \<sigma>1"
    "hw \<sigma>1 = snd (halt (ch_extra c) (irq_num c) (hw \<sigma>))"
    using abort[of ?s2 c ch desc] u ch desc by auto
  have k: "kept ?s \<sigma>1" using kept_trans[OF kept_upd(1) kept_trans[OF kept_upd(2) kept_same[OF f(3)]]] .
  have c1: "chans \<sigma>1 = chans \<sigma>" "sg_lists \<sigma>1 = m" "sg_grants \<sigma>1 = sg_grants \<sigma>" using same_dma_simps[OF f(3)] by simp_all
  let ?body = "bindm (elem_of chans ch) (\<lambda>c. bindm (if ?ctrl \<noteq> NULL then no_os_irq_disable T ?ctrl (irq_num c) else returnm 0)
      (\<lambda>_. bindm (getm (sg_size (sg_list c))) (\<lambda>n. bindm (sg_drain (Suc n) (sg_list c)) (\<lambda>_. f desc ch))))"
  have sz: "sg_size (sg_list c) (with_irq ?s h) = length xs"
    by (rule sg_size_eq) (use xs in simp)
  have body: "?body ?s = Inr (fst (halt (ch_extra c) (irq_num c) (hw \<sigma>)), \<sigma>1)"
    using i(1) q f(2) ch sz m(1) by (simp add: bindm_unfold elem_of_ok run_simps del: sg_drain.simps)
  note l = ch_locked_ok[where f = ?body and c' = c, OF ch body k]
  have "no_os_dma_xfer_abort D T desc ch \<sigma> = ch_locked ch ?body \<sigma>"
    by (simp add: no_os_dma_xfer_abort_def dma_call_ok[where sel = dma_ops_xfer_abort, OF r f(1)] del: sg_drain.simps)
  then show ?thesis
    using l c1 ch f(4) m(2) by (intro exI[of _ "set_count ?m 1 \<sigma>1"]) simp
qed

lemma next_run:
  assumes r: "sg_chan D T P desc ch d c \<sigma>" and w: "irq_ctx c = \<lparr>hd_desc = desc, hd_channel = ch\<rparr>"
    and u: "usable (hw \<sigma>) (ch_extra c)" and xs: "queued \<sigma> (sg_list c) (p # q # ps)"
    and x: "elem_at (dxfers \<sigma>) p x" "elem_at (dxfers \<sigma>) q y"
    and call: "call_quiet hw call act" and act: "\<And>f a b k w e. usable w e \<Longrightarrow> usable (act f a b k w) e"
  shows "\<exists>\<sigma>'. default_sg_callback D T call stack ch \<sigma> = Inr ((), \<sigma>') \<and> kept \<sigma> \<sigma>' \<and> chans \<sigma>' = chans \<sigma> \<and>
    queued \<sigma>' (sg_list c) (q # ps) \<and>
    hw \<sigma>' = snd (launch (ch_extra c) (irq_num c) (snd (prog (ch_extra c) y (complete act p x q (hw \<sigma>)))))"
proof -
  let ?e = "ch_extra c" and ?l = "sg_list c"
  have ch: "elem_at (chans \<sigma>) ch c" using r by (simp add: sg_chan_def)
  obtain m1 where m1: "on_sg ?l (\<lambda>a. no_os_list_get_first a Valid) \<sigma> = Inr ((0, Some p), with_sg \<sigma> m1)"
    "queued (with_sg \<sigma> m1) ?l (q # ps)" using sg_get[OF xs] by auto
  obtain m2 where m2: "on_sg ?l (\<lambda>a. no_os_list_read_first a Valid) (with_sg \<sigma> m1) = Inr ((0, Some q), with_sg \<sigma> m2)"
    "queued (with_sg \<sigma> m2) ?l (q # ps)" using sg_read[OF m1(2)] by auto
  obtain m3 where m3: "on_sg ?l (\<lambda>a. no_os_list_get_size a Valid) (with_sg \<sigma> m2) =
      Inr ((0, Some (of_nat (length (q # ps)))), with_sg \<sigma> m3)"
    "queued (with_sg \<sigma> m3) ?l (q # ps)" using sg_get_size[OF m2(2)] by auto
  obtain \<sigma>4 where \<sigma>4: "(case xfer_complete_cb x of None \<Rightarrow> returnm () | Some f \<Rightarrow> call f p q (xfer_complete_ctx x)) (with_sg \<sigma> m3) =
      Inr ((), \<sigma>4)" "same_dma (with_sg \<sigma> m3) \<sigma>4" "hw \<sigma>4 = complete act p x q (hw \<sigma>)"
    using complete_run[where x = x and p = p and nxt = q and \<sigma> = "with_sg \<sigma> m3", OF call] by auto
  note s4 = same_dma_simps[OF \<sigma>4(2), simplified]
  have k4: "kept \<sigma> \<sigma>4" using kept_trans[OF kept_upd(2) kept_same[OF \<sigma>4(2)]] .
  have u4: "usable (hw \<sigma>4) ?e" using u act by (simp add: \<sigma>4(3) complete_def split: option.split)
  obtain f \<sigma>5 where f: "dma_ops_config_xfer P = Some f" "f ch q \<sigma>4 = Inr (fst (prog ?e y (hw \<sigma>4)), \<sigma>5)" "same_dma \<sigma>4 \<sigma>5"
    "hw \<sigma>5 = snd (prog ?e y (hw \<sigma>4))"
    using config[OF u4, of ch q y] ch x(2) s4 by auto
  note s5 = same_dma_simps[OF f(3)]
  have k5: "kept \<sigma> \<sigma>5" using kept_trans[OF k4 kept_same[OF f(3)]] .
  have r5: "sg_chan D T P desc ch d c \<sigma>5" "sg_chan D T P desc ch d c \<sigma>4"
    using sg_chan_kept[OF r k5, of c] sg_chan_kept[OF r k4, of c] ch s4 s5 by simp_all
  obtain \<sigma>6 where \<sigma>6: "no_os_dma_xfer_start D T desc ch \<sigma>5 = Inr (fst (launch ?e (irq_num c) (hw \<sigma>5)), \<sigma>6)"
    "kept \<sigma>5 \<sigma>6" "chans \<sigma>6 = chans \<sigma>5" "sg_lists \<sigma>6 = sg_lists \<sigma>5" "hw \<sigma>6 = snd (launch ?e (irq_num c) (hw \<sigma>5))"
    using start_run[OF r5(1)] usable_prog[OF u4] f(4) by auto
  have "length (q # ps) < 2 ^ 31" using queued_short[OF m3(2)] .
  then have n: "of_nat (length (q # ps)) \<noteq> (0 :: u32)" by (simp add: word_of_nat_eq_0_iff dvd_imp_le[THEN leD] nat_dvd_not_less del: of_nat_Suc)
  have "default_sg_callback D T call stack ch \<sigma> = Inr ((), \<sigma>6)"
    using m1(1) m2(1) m3(1) \<sigma>4(1) f(1,2) \<sigma>6(1) n ch x
    by (simp add: default_sg_callback_def bindm_unfold elem_of_ok s4 w Let_def run_simps desc_ok[OF r5(2)] del: of_nat_Suc
        cong: option.case_cong)
  moreover have "queued \<sigma>6 ?l (q # ps)" using m3(2) \<sigma>6(2,4) s4 s5 by (simp add: kept_def)
  ultimately show ?thesis using kept_trans[OF k5 \<sigma>6(2)] \<sigma>6(3,5) s4 s5 f(4) \<sigma>4(3) by simp
qed

lemma last_run:
  assumes r: "sg_chan D T P desc ch d c \<sigma>" and w: "irq_ctx c = \<lparr>hd_desc = desc, hd_channel = ch\<rparr>"
    and xs: "queued \<sigma> (sg_list c) [p]" and x: "elem_at (dxfers \<sigma>) p x" and call: "call_quiet hw call act"
  shows "\<exists>\<sigma>'. default_sg_callback D T call stack ch \<sigma> = Inr ((), \<sigma>') \<and> kept \<sigma> \<sigma>' \<and>
    elem_at (chans \<sigma>') ch (c\<lparr>ch_free := True\<rparr>) \<and> queued \<sigma>' (sg_list c) [] \<and> hw \<sigma>' = complete act p x stack (hw \<sigma>)"
proof -
  let ?l = "sg_list c"
  have ch: "elem_at (chans \<sigma>) ch c" using r by (simp add: sg_chan_def)
  obtain m1 where m1: "on_sg ?l (\<lambda>a. no_os_list_get_first a Valid) \<sigma> = Inr ((0, Some p), with_sg \<sigma> m1)"
    "queued (with_sg \<sigma> m1) ?l []" using sg_get[OF xs] by auto
  obtain m2 where m2: "on_sg ?l (\<lambda>a. no_os_list_read_first a Valid) (with_sg \<sigma> m1) = Inr ((- 1, None), with_sg \<sigma> m2)"
    "queued (with_sg \<sigma> m2) ?l []" using sg_read[OF m1(2)] by auto
  obtain m3 where m3: "on_sg ?l (\<lambda>a. no_os_list_get_size a Valid) (with_sg \<sigma> m2) = Inr ((0, Some 0), with_sg \<sigma> m3)"
    "queued (with_sg \<sigma> m3) ?l []" using sg_get_size[OF m2(2)] by auto
  obtain \<sigma>4 where \<sigma>4: "(case xfer_complete_cb x of None \<Rightarrow> returnm () | Some f \<Rightarrow> call f p stack (xfer_complete_ctx x)) (with_sg \<sigma> m3) =
      Inr ((), \<sigma>4)" "same_dma (with_sg \<sigma> m3) \<sigma>4" "hw \<sigma>4 = complete act p x stack (hw \<sigma>)"
    using complete_run[where x = x and p = p and nxt = stack and \<sigma> = "with_sg \<sigma> m3", OF call] by auto
  note s4 = same_dma_simps[OF \<sigma>4(2), simplified]
  have k4: "kept \<sigma> \<sigma>4" using kept_trans[OF kept_upd(2) kept_same[OF \<sigma>4(2)]] .
  have r4: "sg_chan D T P desc ch d c \<sigma>4" using sg_chan_kept[OF r k4, of c] ch s4 by simp
  then have "irq_serves T \<sigma>4 (irq_ctrl d)" by (simp add: sg_chan_def)
  from irq_runs(3)[OF this] obtain q h where q: "no_os_irq_disable T (irq_ctrl d) (irq_num c) \<sigma>4 = Inr (q, with_irq \<sigma>4 h)" by blast
  let ?s = "set_ch ch (c\<lparr>ch_free := True\<rparr>) (with_irq \<sigma>4 h)"
  have "default_sg_callback D T call stack ch \<sigma> = Inr ((), ?s)"
    using m1(1) m2(1) m3(1) \<sigma>4(1) q ch x
    by (simp add: default_sg_callback_def bindm_unfold elem_of_ok s4 w Let_def run_simps desc_ok(1)[OF r4] ch_update_ok
        cong: option.case_cong)
  moreover have "kept \<sigma> ?s" using k4 by (simp add: kept_def)
  moreover have "elem_at (chans ?s) ch (c\<lparr>ch_free := True\<rparr>)" by (rule elem_at_set_ch) (use ch s4 in simp)
  ultimately show ?thesis using m3(2) s4 \<sigma>4(3) by (intro exI[of _ ?s]) simp
qed

lemma empty_run:
  assumes r: "sg_chan D T P desc ch d c \<sigma>" and w: "irq_ctx c = \<lparr>hd_desc = desc, hd_channel = ch\<rparr>"
    and u: "usable (hw \<sigma>) (ch_extra c)" and xs: "queued \<sigma> (sg_list c) []"
  shows "\<exists>\<sigma>'. default_sg_callback D T call stack ch \<sigma> = Inr ((), \<sigma>') \<and> kept \<sigma> \<sigma>' \<and> chans \<sigma>' = chans \<sigma> \<and>
    queued \<sigma>' (sg_list c) [] \<and> hw \<sigma>' = snd (halt (ch_extra c) (irq_num c) (hw \<sigma>))"
proof -
  let ?l = "sg_list c"
  have ch: "elem_at (chans \<sigma>) ch c" using r by (simp add: sg_chan_def)
  obtain m where m: "on_sg ?l (\<lambda>a. no_os_list_get_first a Valid) \<sigma> = Inr ((- 1, None), with_sg \<sigma> m)"
    "queued (with_sg \<sigma> m) ?l []" using sg_get_empty[OF xs] by auto
  have r1: "sg_chan D T P desc ch d c (with_sg \<sigma> m)" using sg_chan_kept[OF r kept_upd(2), of m c] ch by simp
  from abort_run[OF r1 _ m(2)] u obtain \<sigma>' where \<sigma>':
    "no_os_dma_xfer_abort D T desc ch (with_sg \<sigma> m) = Inr (fst (halt (ch_extra c) (irq_num c) (hw \<sigma>)), \<sigma>')"
    "kept (with_sg \<sigma> m) \<sigma>'" "chans \<sigma>' = chans \<sigma>" "queued \<sigma>' ?l []" "hw \<sigma>' = snd (halt (ch_extra c) (irq_num c) (hw \<sigma>))"
    by auto
  have "default_sg_callback D T call stack ch \<sigma> = Inr ((), \<sigma>')"
    using m(1) \<sigma>'(1) ch by (simp add: default_sg_callback_def bindm_unfold elem_of_ok w Let_def run_simps)
  then show ?thesis using \<sigma>' kept_trans[OF kept_upd(2) \<sigma>'(2)] by blast
qed

lemma chain_run:
  assumes "call_quiet hw call act" and act: "\<And>f a b k w e. usable w e \<Longrightarrow> usable (act f a b k w) e"
    and w: "irq_ctx c = \<lparr>hd_desc = desc, hd_channel = ch\<rparr>"
  shows "sg_chan D T P desc ch d c \<sigma> \<Longrightarrow> usable (hw \<sigma>) (ch_extra c) \<Longrightarrow> queued \<sigma> (sg_list c) ps \<Longrightarrow> ps \<noteq> [] \<Longrightarrow>
    \<forall>p \<in> set ps. elem_at (dxfers \<sigma>) p (X p) \<Longrightarrow>
    \<exists>\<sigma>'. sg_interrupts D T call stack ch (length ps) \<sigma> = Inr ((), \<sigma>') \<and> kept \<sigma> \<sigma>' \<and>
      elem_at (chans \<sigma>') ch (c\<lparr>ch_free := True\<rparr>) \<and> queued \<sigma>' (sg_list c) [] \<and>
      hw \<sigma>' = chain prog launch act (ch_extra c) (irq_num c) stack X ps (hw \<sigma>)"
proof (induction ps arbitrary: \<sigma> rule: induct_list012)
  case 1
  then show ?case by simp
next
  case (2 p)
  with last_run[OF 2(1) w 2(3), of "X p" call act stack] assms(1) show ?case
    by (auto simp: bindm_unfold run_simps)
next
  case (3 p q ps)
  then have x: "elem_at (dxfers \<sigma>) p (X p)" "elem_at (dxfers \<sigma>) q (X q)" by simp_all
  obtain \<sigma>1 where \<sigma>1: "default_sg_callback D T call stack ch \<sigma> = Inr ((), \<sigma>1)" "kept \<sigma> \<sigma>1" "chans \<sigma>1 = chans \<sigma>"
    "queued \<sigma>1 (sg_list c) (q # ps)"
    "hw \<sigma>1 = snd (launch (ch_extra c) (irq_num c) (snd (prog (ch_extra c) (X q) (complete act p (X p) q (hw \<sigma>)))))"
    using next_run[OF 3(3) w 3(4) 3(5) x assms(1) act] by blast
  have r1: "sg_chan D T P desc ch d c \<sigma>1"
    using sg_chan_kept[OF 3(3) \<sigma>1(2), of c] 3(3) \<sigma>1(3) by (simp add: sg_chan_def)
  have u1: "usable (hw \<sigma>1) (ch_extra c)"
    using 3(4) act by (simp add: \<sigma>1(5) usable_launch usable_prog complete_def split: option.split)
  obtain \<sigma>2 where \<sigma>2: "sg_interrupts D T call stack ch (length (q # ps)) \<sigma>1 = Inr ((), \<sigma>2)" "kept \<sigma>1 \<sigma>2"
    "elem_at (chans \<sigma>2) ch (c\<lparr>ch_free := True\<rparr>)" "queued \<sigma>2 (sg_list c) []"
    "hw \<sigma>2 = chain prog launch act (ch_extra c) (irq_num c) stack X (q # ps) (hw \<sigma>1)"
    using "3.IH"(2)[OF r1 u1 \<sigma>1(4)] 3(7) \<sigma>1(2) by (auto simp: kept_def)
  have "sg_interrupts D T call stack ch (length (p # q # ps)) \<sigma> = Inr ((), \<sigma>2)"
    using \<sigma>1(1) \<sigma>2(1) by (simp add: bindm_unfold)
  then show ?case using \<sigma>2 \<sigma>1(5) kept_trans[OF \<sigma>1(2) \<sigma>2(2)] by (intro exI[of _ \<sigma>2]) simp
qed

lemma config_body_run:
  assumes ch: "elem_at (chans \<sigma>) ch c" and d: "CMem.deref ddescs desc \<sigma> = Inr (d, \<sigma>)" "\<exists>k. dma_platform d = Some k \<and> D k = P"
    and ctrl: "irq_serves T \<sigma> (irq_ctrl d)" and u: "usable (hw \<sigma>) (ch_extra c)"
    and xs: "queued \<sigma> (sg_list c) xs" "\<forall>j. sg_grants \<sigma> (the (sg_list c)) j" "length xs + unat len < 2 ^ 31"
    and x: "elem_at (dxfers \<sigma>) xfer x" "x_type x \<noteq> XFER_OTHER"
  defines "ok \<equiv> fst (prog (ch_extra c) x (hw \<sigma>)) = 0"
  shows "\<exists>\<sigma>' c'. config_locked D T ctx_addr dflt desc xfer len ch \<sigma> = Inr (fst (prog (ch_extra c) x (hw \<sigma>)), \<sigma>') \<and>
    kept \<sigma> \<sigma>' \<and> elem_at (chans \<sigma>') ch c' \<and> irq_ctx c' = \<lparr>hd_desc = desc, hd_channel = ch\<rparr> \<and>
    (ok \<longrightarrow> cb_callback (cb_desc c') = Some (case sg_handler d of Some h \<Rightarrow> h | None \<Rightarrow> dflt)) \<and>
    cb_event (cb_desc c') = (if x_type x = DEV_TO_MEM then NO_OS_EVT_DMA_RX_COMPLETE else NO_OS_EVT_DMA_TX_COMPLETE) \<and>
    c'\<lparr>cb_desc := cb_desc c, irq_ctx := irq_ctx c\<rparr> = c \<and>
    queued \<sigma>' (sg_list c) (if ok then xs @ xfer_ptrs xfer (unat len) else drop (unat len) (xs @ xfer_ptrs xfer (unat len))) \<and>
    hw \<sigma>' = snd (prog (ch_extra c) x (hw \<sigma>))"
proof -
  let ?l = "sg_list c" and ?ctrl = "irq_ctrl d"
  define ev where "ev = (if x_type x = DEV_TO_MEM then NO_OS_EVT_DMA_RX_COMPLETE else NO_OS_EVT_DMA_TX_COMPLETE)"
  define e1 where "e1 = c\<lparr>cb_desc := (cb_desc c)\<lparr>cb_ctx := ctx_addr ch, cb_peripheral := x_periph x, cb_handle := unat (ch_id c)\<rparr>,
    irq_ctx := \<lparr>hd_desc = desc, hd_channel = ch\<rparr>\<rparr>"
  define e2 where "e2 = e1\<lparr>cb_desc := (cb_desc e1)\<lparr>cb_event := ev\<rparr>\<rparr>"
  define e3 where "e3 = e2\<lparr>cb_desc := (cb_desc e2)\<lparr>cb_callback := Some (case sg_handler d of Some h \<Rightarrow> h | None \<Rightarrow> dflt)\<rparr>\<rparr>"
  obtain m1 where m1: "add_xfers ?l xfer (unat len) \<sigma> = Inr ((), with_sg \<sigma> m1)"
    "held m1 (sg_grants \<sigma>) ?l (xs @ xfer_ptrs xfer (unat len))" using add_xfers_run[OF xs] by blast
  let ?s1 = "with_sg \<sigma> m1"
  let ?s3 = "set_ch ch e2 (set_ch ch e1 ?s1)"
  have d1: "CMem.deref ddescs desc ?s1 = Inr (d, ?s1)" using d(1) by (auto simp: deref_Inr)
  have c1: "elem_at (chans ?s1) ch c" using ch by simp
  have x1: "elem_at (dxfers ?s1) xfer x" using x(1) by simp
  have c2: "elem_at (chans (set_ch ch e1 ?s1)) ch e1" using elem_at_set_ch[OF c1] .
  have c3: "elem_at (chans ?s3) ch e2" using elem_at_set_ch[OF c2] .
  have ex: "ch_extra e2 = ch_extra c" "irq_num e3 = irq_num c" by (simp_all add: e1_def e2_def e3_def)
  obtain f \<sigma>4 where f: "dma_ops_config_xfer P = Some f" "f ch xfer ?s3 = Inr (fst (prog (ch_extra c) x (hw \<sigma>)), \<sigma>4)"
    "same_dma ?s3 \<sigma>4" "hw \<sigma>4 = snd (prog (ch_extra c) x (hw \<sigma>))"
    using config[of ?s3 e2 ch xfer x] u x(1) c3 by (auto simp: ex)
  note s4 = same_dma_simps[OF f(3), simplified]
  have k4: "kept \<sigma> \<sigma>4" using kept_same[OF f(3)] by (simp add: kept_def)
  have c4: "elem_at (chans \<sigma>4) ch e2" using c3 s4 by simp
  have ops: "dma_ops D d dma_ops_config_xfer \<tau> = Inr (f, \<tau>)" for \<tau> using d(2) f(1) by (auto simp: dma_ops_def run_simps)
  note irq = irq_runs[OF ctrl]
  have e2: "x_type x = DEV_TO_MEM \<Longrightarrow> e1\<lparr>cb_desc := (cb_desc e1)\<lparr>cb_event := NO_OS_EVT_DMA_RX_COMPLETE\<rparr>\<rparr> = e2"
    "x_type x \<noteq> DEV_TO_MEM \<Longrightarrow> e1\<lparr>cb_desc := (cb_desc e1)\<lparr>cb_event := NO_OS_EVT_DMA_TX_COMPLETE\<rparr>\<rparr> = e2"
    by (simp_all add: e2_def ev_def)
  have run: "config_locked D T ctx_addr dflt desc xfer len ch \<sigma> =
      (if fst (prog (ch_extra c) x (hw \<sigma>)) \<noteq> 0
       then bindm (discard_xfers ?l (unat len)) (\<lambda>_. returnm (fst (prog (ch_extra c) x (hw \<sigma>)))) \<sigma>4
       else bindm (ch_update ch (\<lambda>c. c\<lparr>cb_desc := (cb_desc c)\<lparr>cb_callback := Some (case sg_handler d of Some h \<Rightarrow> h | None \<Rightarrow> dflt)\<rparr>\<rparr>)) (\<lambda>_.
            bindm (elem_of chans ch) (\<lambda>c'.
            bindm (no_os_irq_register_callback T ?ctrl (irq_num c') (Some (cb_desc c'))) (\<lambda>ret.
            if ret \<noteq> 0 then bindm (discard_xfers ?l (unat len)) (\<lambda>_. returnm ret)
            else bindm (no_os_irq_set_priority T ?ctrl (irq_num c') (x_irq_priority x)) (\<lambda>_. returnm 0)))) \<sigma>4)"
    using x(2) irq(1)
    by (cases "x_type x")
      (simp_all add: config_locked_def bindm_unfold ch_of_ok[OF ch] m1(1) d1 Let_def xfer_of_ok[OF x1] ch_update_ok[OF c1]
        ch_update_ok[OF c2] ops f(2) e1_def[symmetric] e2 cong: if_cong option.case_cong)
  show ?thesis
  proof (cases "fst (prog (ch_extra c) x (hw \<sigma>)) = 0")
    case True
    let ?s5 = "set_ch ch e3 \<sigma>4"
    have c5: "elem_at (chans ?s5) ch e3" using elem_at_set_ch[OF c4] .
    have i5: "irq_serves T ?s5 ?ctrl" by (rule irq_serves_cong[THEN iffD2, OF _ ctrl]) (simp add: s4)
    from irq_runs(4)[OF i5] obtain h where
      h: "no_os_irq_register_callback T ?ctrl (irq_num e3) (Some (cb_desc e3)) ?s5 = Inr (0, with_irq ?s5 h)" by blast
    have "irq_serves T (with_irq ?s5 h) ?ctrl" by (rule irq_serves_cong[THEN iffD2, OF _ i5]) simp
    from irq_runs(5)[OF this] obtain q h' where
      q: "no_os_irq_set_priority T ?ctrl (irq_num e3) (x_irq_priority x) (with_irq ?s5 h) = Inr (q, with_irq ?s5 h')" by fastforce
    have "config_locked D T ctx_addr dflt desc xfer len ch \<sigma> = Inr (0, with_irq ?s5 h')"
      unfolding run using True h q
      by (simp add: bindm_unfold ch_update_ok[OF c4] ch_of_ok[OF c5] e3_def[symmetric] run_simps)
    moreover have "kept \<sigma> (with_irq ?s5 h')" using k4 by (simp add: kept_def)
    moreover have "c = e3\<lparr>cb_desc := cb_desc c, irq_ctx := irq_ctx c\<rparr>" by (simp add: e1_def e2_def e3_def)
    ultimately show ?thesis
      using True c5 m1(2) s4 f(4)
      by (intro exI[of _ "with_irq ?s5 h'"] exI[of _ e3]) (simp add: ok_def ev_def[symmetric], simp add: e1_def e2_def e3_def)
  next
    case False
    obtain m where m: "discard_xfers ?l (unat len) \<sigma>4 = Inr ((), with_sg \<sigma>4 m)"
      "held m (sg_grants \<sigma>) ?l (drop (unat len) (xs @ xfer_ptrs xfer (unat len)))"
      using discard_xfers_run[of \<sigma>4 ?l] m1(2) s4 by fastforce
    have "config_locked D T ctx_addr dflt desc xfer len ch \<sigma> = Inr (fst (prog (ch_extra c) x (hw \<sigma>)), with_sg \<sigma>4 m)"
      unfolding run using False m(1) by (simp add: bindm_unfold run_simps)
    moreover have "kept \<sigma> (with_sg \<sigma>4 m)" using k4 by (simp add: kept_def)
    ultimately show ?thesis
      using False c4 m(2) s4 f(4)
      by (intro exI[of _ "with_sg \<sigma>4 m"] exI[of _ e2]) (simp add: ok_def ev_def[symmetric], simp add: e1_def e2_def)
  qed
qed

lemma config_xfer_run:
  assumes r: "sg_chan D T P desc ch d c \<sigma>" and u: "usable (hw \<sigma>) (ch_extra c)"
    and xs: "queued \<sigma> (sg_list c) xs" "\<forall>j. sg_grants \<sigma> (the (sg_list c)) j" "length xs + unat len < 2 ^ 31"
    and x: "elem_at (dxfers \<sigma>) xfer x" "x_type x \<noteq> XFER_OTHER" and len: "len \<noteq> 0"
  defines "ok \<equiv> fst (prog (ch_extra c) x (hw \<sigma>)) = 0"
  shows "\<exists>\<sigma>' c'. no_os_dma_config_xfer D T ctx_addr dflt desc xfer len ch \<sigma> = Inr (fst (prog (ch_extra c) x (hw \<sigma>)), \<sigma>') \<and>
    kept \<sigma> \<sigma>' \<and> elem_at (chans \<sigma>') ch c' \<and> irq_ctx c' = \<lparr>hd_desc = desc, hd_channel = ch\<rparr> \<and>
    (ok \<longrightarrow> cb_callback (cb_desc c') = Some (case sg_handler d of Some h \<Rightarrow> h | None \<Rightarrow> dflt)) \<and>
    cb_event (cb_desc c') = (if x_type x = DEV_TO_MEM then NO_OS_EVT_DMA_RX_COMPLETE else NO_OS_EVT_DMA_TX_COMPLETE) \<and>
    c'\<lparr>cb_desc := cb_desc c, irq_ctx := irq_ctx c\<rparr> = c \<and>
    queued \<sigma>' (sg_list c) (if ok then xs @ xfer_ptrs xfer (unat len) else drop (unat len) (xs @ xfer_ptrs xfer (unat len))) \<and>
    hw \<sigma>' = snd (prog (ch_extra c) x (hw \<sigma>))"
proof -
  let ?s = "set_count (ch_mutex c) 0 \<sigma>" and ?f = "config_locked D T ctx_addr dflt desc xfer len ch"
  have ch: "elem_at (chans \<sigma>) ch c" "mutex_free \<sigma> (ch_mutex c)" "irq_serves T \<sigma> (irq_ctrl d)" "desc \<noteq> NULL"
    "\<exists>k. dma_platform d = Some k \<and> D k = P" using r by (auto simp: sg_chan_def)
  have d: "CMem.deref ddescs desc ?s = Inr (d, ?s)" using desc_ok(1)[OF r] by (auto simp: deref_Inr)
  have i: "irq_serves T ?s (irq_ctrl d)" by (rule irq_serves_cong[THEN iffD2, OF _ ch(3)]) simp
  obtain \<tau> c' where \<tau>: "?f ?s = Inr (fst (prog (ch_extra c) x (hw \<sigma>)), \<tau>)" "kept ?s \<tau>" "elem_at (chans \<tau>) ch c'"
    "irq_ctx c' = \<lparr>hd_desc = desc, hd_channel = ch\<rparr>"
    "ok \<longrightarrow> cb_callback (cb_desc c') = Some (case sg_handler d of Some h \<Rightarrow> h | None \<Rightarrow> dflt)"
    "cb_event (cb_desc c') = (if x_type x = DEV_TO_MEM then NO_OS_EVT_DMA_RX_COMPLETE else NO_OS_EVT_DMA_TX_COMPLETE)"
    "c'\<lparr>cb_desc := cb_desc c, irq_ctx := irq_ctx c\<rparr> = c"
    "queued \<tau> (sg_list c) (if ok then xs @ xfer_ptrs xfer (unat len) else drop (unat len) (xs @ xfer_ptrs xfer (unat len)))"
    "hw \<tau> = snd (prog (ch_extra c) x (hw \<sigma>))"
    using config_body_run[of ?s ch c desc d D T xs len xfer x ctx_addr dflt] ch(1,5) d i u xs x unfolding ok_def by auto
  have m: "ch_mutex c' = ch_mutex c" by (rule same_channel(1)[OF \<tau>(7)])
  note l = ch_locked_ok[where f = ?f, OF ch(1,2) \<tau>(1,2,3) m]
  have "no_os_dma_config_xfer D T ctx_addr dflt desc xfer len ch \<sigma> = ch_locked ch ?f \<sigma>"
    using ch(1,4) x(1) len by (auto simp: no_os_dma_config_xfer_def)
  then show ?thesis using l \<tau>
    by (intro exI[of _ "set_count (ch_mutex c) 1 \<tau>"] exI[of _ c']) simp
qed

end

end
