(* ===== verification/Stm32_Dma_Theorems.thy ===== *)
theory Stm32_Dma_Theorems
  imports Stm32_Dma NoOs_Dma_Queue
begin

text \<open>
  The generic DMA interface on the STM32: the platform provides what \<open>dma_engine\<close> asks for,
  so a chain of transfers runs in order, one interrupt each, and an abort empties the queue. Then
  where the code does not do what it means to: a transfer that cannot be configured, a
  failed configuration on a queue in use, and the removal of a controller.
\<close>

section \<open>The platform as an engine\<close>

type_synonym ('h, 'z) dma_view = "(nat \<Rightarrow> stm32_dma_channel option) \<times> (nat \<Rightarrow> DMA_HandleTypeDef option) \<times> 'h \<times> 'z"

definition dma_view :: "('i, 'h, 'z) stm32_dma_state_scheme \<Rightarrow> ('h, 'z) dma_view" where
  "dma_view \<sigma> = (sdma_chs \<sigma>, hdmas \<sigma>, dhw \<sigma>, stm32_dma_state.more \<sigma>)"

text \<open>The settings of a channel have values the code knows; the handle they give, up to the direction.\<close>

definition settings_ok :: "stm32_dma_channel \<Rightarrow> bool" where
  "settings_ok s \<longleftrightarrow> mem_data_alignment s \<noteq> DATA_ALIGN_OTHER \<and> per_data_alignment s \<noteq> DATA_ALIGN_OTHER \<and>
     dma_mode s \<noteq> DMA_MODE_OTHER"

definition handle_of :: "stm32_dma_channel \<Rightarrow> u32 \<Rightarrow> DMA_HandleTypeDef" where
  "handle_of s dir = \<lparr>Instance = ch_num s, Direction = dir, PeriphInc = (if per_increment s then 0x40 else 0),
     MemInc = (if mem_increment s then 0x80 else 0), PeriphDataAlignment = the (data_align 0x100 0x200 (per_data_alignment s)),
     MemDataAlignment = the (data_align 0x400 0x800 (mem_data_alignment s)), DmaMode = the (mode_reg (dma_mode s))\<rparr>"

fun channel_of :: "('h, 'z) dma_view \<Rightarrow> ptr \<Rightarrow> stm32_dma_channel \<times> nat \<times> DMA_HandleTypeDef" where
  "channel_of (S, Q, w, z) e = (let s = the (S (block_of e)); q = block_of (hdma s) in (s, q, the (Q q)))"

fun usable :: "('h, 'z) dma_view \<Rightarrow> ptr \<Rightarrow> bool" where
  "usable (S, Q, w, z) e \<longleftrightarrow> (\<exists>b q s h. e = Ptr b 0 \<and> S b = Some s \<and> hdma s = Ptr q 0 \<and> Q q = Some h \<and> settings_ok s)"

fun prog_stm32 :: "'h dma_hal \<Rightarrow> ptr \<Rightarrow> dma_xfer \<Rightarrow> ('h, 'z) dma_view \<Rightarrow> int \<times> ('h, 'z) dma_view" where
  "prog_stm32 H e x (S, Q, w, z) =
     (let (s, q, h) = channel_of (S, Q, w, z) e in
      case direction_reg (x_type x) of
        None \<Rightarrow> (- EINVAL, (S, Q(q \<mapsto> handle_of s (Direction h)), w, z))
      | Some dir \<Rightarrow>
          let (ok, w') = HAL_DMA_Init H (handle_of s dir) w in
          (hal_code ok, (S(block_of e \<mapsto> s\<lparr>sc_src := x_src x, sc_dst := x_dst x, sc_length := x_length x\<rparr>),
             Q(q \<mapsto> handle_of s dir), w', z)))"

definition hal_start :: "'h dma_hal \<Rightarrow> u32 \<Rightarrow> DMA_HandleTypeDef \<Rightarrow> u32 \<Rightarrow> u32 \<Rightarrow> u32 \<Rightarrow> 'h \<Rightarrow> bool \<times> 'h" where
  "hal_start H n h src dst len = (if n \<noteq> 0 then HAL_DMA_Start_IT H h src dst len else HAL_DMA_Start H h src dst len)"

definition hal_abort :: "'h dma_hal \<Rightarrow> u32 \<Rightarrow> DMA_HandleTypeDef \<Rightarrow> 'h \<Rightarrow> bool \<times> 'h" where
  "hal_abort H n h = (if n \<noteq> 0 then HAL_DMA_Abort_IT H h else HAL_DMA_Abort H h)"

fun launch_stm32 :: "'h dma_hal \<Rightarrow> ptr \<Rightarrow> u32 \<Rightarrow> ('h, 'z) dma_view \<Rightarrow> int \<times> ('h, 'z) dma_view" where
  "launch_stm32 H e n (S, Q, w, z) =
     (let (s, q, h) = channel_of (S, Q, w, z) e; (ok, w') = hal_start H n h (sc_src s) (sc_dst s) (sc_length s) w in
      (hal_code ok, (S, Q, w', z)))"

fun halt_stm32 :: "'h dma_hal \<Rightarrow> ptr \<Rightarrow> u32 \<Rightarrow> ('h, 'z) dma_view \<Rightarrow> int \<times> ('h, 'z) dma_view" where
  "halt_stm32 H e n (S, Q, w, z) =
     (let (s, q, h) = channel_of (S, Q, w, z) e; (ok, w') = hal_abort H n h w in (hal_code ok, (S, Q, w', z)))"

lemma settings_cases:
  "settings_ok s \<Longrightarrow> \<exists>a b c. data_align 0x400 0x800 (mem_data_alignment s) = Some a \<and>
     data_align 0x100 0x200 (per_data_alignment s) = Some b \<and> mode_reg (dma_mode s) = Some c"
  by (auto simp: settings_ok_def data_align_def mode_reg_def split: stm32_dma_data_alignment.splits stm32_dma_mode.splits)

lemma handle_all:
  "h\<lparr>Instance := a, PeriphInc := b, MemInc := c, MemDataAlignment := m, PeriphDataAlignment := p, DmaMode := d, Direction := r\<rparr> =
   \<lparr>Instance = a, Direction = r, PeriphInc = b, MemInc = c, PeriphDataAlignment = p, MemDataAlignment = m, DmaMode = d\<rparr>"
  by (cases h) simp

lemma config_xfer_stm32:
  assumes u: "usable (dma_view \<sigma>) (ch_extra c)" and ch: "elem_at (chans \<sigma>) ch c" and x: "elem_at (dxfers \<sigma>) p x"
  shows "\<exists>\<sigma>'. stm32_dma_config_xfer H ch p \<sigma> = Inr (fst (prog_stm32 H (ch_extra c) x (dma_view \<sigma>)), \<sigma>') \<and> same_dma \<sigma> \<sigma>' \<and>
    dma_view \<sigma>' = snd (prog_stm32 H (ch_extra c) x (dma_view \<sigma>))"
proof -
  obtain b q s h where v: "ch_extra c = Ptr b 0" "sdma_chs \<sigma> b = Some s" "hdma s = Ptr q 0" "hdmas \<sigma> q = Some h" "settings_ok s"
    using u by (auto simp: dma_view_def)
  obtain k1 k2 k3 where k: "data_align 0x400 0x800 (mem_data_alignment s) = Some k1"
    "data_align 0x100 0x200 (per_data_alignment s) = Some k2" "mode_reg (dma_mode s) = Some k3" using settings_cases[OF v(5)] by blast
  have nn: "ch \<noteq> NULL" "p \<noteq> NULL" using ch x by auto
  show ?thesis
  proof (cases "direction_reg (x_type x)")
    case None
    then show ?thesis
      using v k nn ch x
      by (auto simp: stm32_dma_config_xfer_def bindm_unfold elem_of_ok run_simps hdma_update_def init_member_def dma_view_def
          handle_of_def Let_def dma_state.defs)
  next
    case (Some dir)
    obtain ok w' where w: "HAL_DMA_Init H (handle_of s dir) (dhw \<sigma>) = (ok, w')" by fastforce
    with Some show ?thesis
      using v k nn ch x
      by (auto simp: stm32_dma_config_xfer_def bindm_unfold elem_of_ok run_simps hdma_update_def init_member_def dma_view_def
          handle_of_def Let_def dma_state.defs on_dhw_def handle_all)
  qed
qed

lemma with_hdma_stm32:
  assumes u: "usable (dma_view \<sigma>) (ch_extra c)" and ch: "elem_at (chans \<sigma>) ch c" and d: "desc \<noteq> NULL"
  shows "\<exists>\<sigma>'. (let (s, q, h) = channel_of (dma_view \<sigma>) (ch_extra c); (ok, w') = f c s h (dhw \<sigma>) in
      with_hdma desc ch f \<sigma> = Inr (hal_code ok, \<sigma>') \<and> same_dma \<sigma> \<sigma>' \<and>
      dma_view \<sigma>' = (sdma_chs \<sigma>, hdmas \<sigma>, w', stm32_dma_state.more \<sigma>))"
proof -
  obtain b q s h where v: "ch_extra c = Ptr b 0" "sdma_chs \<sigma> b = Some s" "hdma s = Ptr q 0" "hdmas \<sigma> q = Some h"
    using u by (auto simp: dma_view_def)
  obtain ok w' where w: "f c s h (dhw \<sigma>) = (ok, w')" by fastforce
  have "ch \<noteq> NULL" using ch by auto
  with v w d ch show ?thesis
    by (auto simp: with_hdma_def bindm_unfold elem_of_ok run_simps dma_view_def Let_def dma_state.defs on_dhw_def)
qed

interpretation stm32: dma_engine "stm32_dma_ops (H :: 'h dma_hal) (T :: ('i, ('h, 'z) stm32_dma_state_ext, 'x) irq_tables) irqs" dma_view usable
  "prog_stm32 H" "launch_stm32 H" "halt_stm32 H"
proof
  show "dma_state.more \<sigma>' = dma_state.more \<sigma> \<Longrightarrow> dma_view \<sigma>' = dma_view \<sigma>" for \<sigma> \<sigma>' :: "('i, 'h, 'z) stm32_dma_state_scheme"
    by (cases \<sigma>; cases \<sigma>') (simp add: dma_view_def)
next
  fix \<sigma> :: "('i, 'h, 'z) stm32_dma_state_scheme" and c ch p x
  assume "usable (dma_view \<sigma>) (ch_extra c)" "elem_at (chans \<sigma>) ch c" "elem_at (dxfers \<sigma>) p x"
  from config_xfer_stm32[OF this, of H]
  show "\<exists>f \<sigma>'. dma_ops_config_xfer (stm32_dma_ops H T irqs) = Some f \<and>
      f ch p \<sigma> = Inr (fst (prog_stm32 H (ch_extra c) x (dma_view \<sigma>)), \<sigma>') \<and> same_dma \<sigma> \<sigma>' \<and>
      dma_view \<sigma>' = snd (prog_stm32 H (ch_extra c) x (dma_view \<sigma>))"
    by (simp add: stm32_dma_ops_def)
next
  fix \<sigma> :: "('i, 'h, 'z) stm32_dma_state_scheme" and c ch desc
  assume "usable (dma_view \<sigma>) (ch_extra c)" "elem_at (chans \<sigma>) ch c" "desc \<noteq> NULL"
  from with_hdma_stm32[OF this, of "\<lambda>c s h. hal_start H (irq_num c) h (sc_src s) (sc_dst s) (sc_length s)"]
  show "\<exists>f \<sigma>'. dma_ops_xfer_start (stm32_dma_ops H T irqs) = Some f \<and>
      f desc ch \<sigma> = Inr (fst (launch_stm32 H (ch_extra c) (irq_num c) (dma_view \<sigma>)), \<sigma>') \<and> same_dma \<sigma> \<sigma>' \<and>
      dma_view \<sigma>' = snd (launch_stm32 H (ch_extra c) (irq_num c) (dma_view \<sigma>))"
    by (auto simp: stm32_dma_ops_def stm32_dma_xfer_start_def hal_start_def[abs_def] dma_view_def Let_def split: prod.splits)
next
  fix \<sigma> :: "('i, 'h, 'z) stm32_dma_state_scheme" and c ch desc
  assume "usable (dma_view \<sigma>) (ch_extra c)" "elem_at (chans \<sigma>) ch c" "desc \<noteq> NULL"
  from with_hdma_stm32[OF this, of "\<lambda>c s h. hal_abort H (irq_num c) h"]
  show "\<exists>f \<sigma>'. dma_ops_xfer_abort (stm32_dma_ops H T irqs) = Some f \<and>
      f desc ch \<sigma> = Inr (fst (halt_stm32 H (ch_extra c) (irq_num c) (dma_view \<sigma>)), \<sigma>') \<and> same_dma \<sigma> \<sigma>' \<and>
      dma_view \<sigma>' = snd (halt_stm32 H (ch_extra c) (irq_num c) (dma_view \<sigma>))"
    by (auto simp: stm32_dma_ops_def stm32_dma_xfer_abort_def hal_abort_def[abs_def] dma_view_def Let_def split: prod.splits)
next
  fix w :: "('h, 'z) dma_view" and e x
  assume u: "usable w e"
  obtain S Q v z where w: "w = (S, Q, v, z)" by (cases w)
  from u w show "usable (snd (prog_stm32 H e x w)) e"
    by (fastforce simp: Let_def settings_ok_def split: option.split prod.split)
next
  fix w :: "('h, 'z) dma_view" and e n
  assume u: "usable w e"
  obtain S Q v z where w: "w = (S, Q, v, z)" by (cases w)
  from u w show "usable (snd (launch_stm32 H e n w)) e" "usable (snd (halt_stm32 H e n w)) e"
    by (auto simp: Let_def split: prod.split)
qed

section \<open>A chain of transfers\<close>

text \<open>What one transfer does to the hardware, with the handle given by the settings of the channel.\<close>

definition run_one :: "'h dma_hal \<Rightarrow> u32 \<Rightarrow> (u32 \<Rightarrow> DMA_HandleTypeDef) \<Rightarrow> dma_xfer \<Rightarrow> 'h \<Rightarrow> 'h" where
  "run_one H n hs x w =
     (let h = hs (the (direction_reg (x_type x))) in
      snd (hal_start H n h (x_src x) (x_dst x) (x_length x) (snd (HAL_DMA_Init H h w))))"

text \<open>The callbacks of a chain: each gets its transfer and the next, the last one \<open>stack\<close>.\<close>

fun notify :: "(nat \<Rightarrow> ptr \<Rightarrow> ptr \<Rightarrow> nat \<Rightarrow> 'z \<Rightarrow> 'z) \<Rightarrow> ptr \<Rightarrow> (ptr \<Rightarrow> dma_xfer) \<Rightarrow> ptr list \<Rightarrow> 'z \<Rightarrow> 'z" where
  "notify act stack X [] z = z"
| "notify act stack X [p] z = complete act p (X p) stack z"
| "notify act stack X (p # q # ps) z = notify act stack X (q # ps) (complete act p (X p) q z)"

text \<open>Callbacks act on the application's part of the state.\<close>

fun on_app :: "(nat \<Rightarrow> ptr \<Rightarrow> ptr \<Rightarrow> nat \<Rightarrow> 'z \<Rightarrow> 'z) \<Rightarrow> nat \<Rightarrow> ptr \<Rightarrow> ptr \<Rightarrow> nat \<Rightarrow> ('h, 'z) dma_view \<Rightarrow> ('h, 'z) dma_view" where
  "on_app act f p nxt ctx (S, Q, w, z) = (S, Q, w, act f p nxt ctx z)"

lemma usable_on_app: "usable v e \<Longrightarrow> usable (on_app act f p nxt ctx v) e"
  by (cases v) simp

lemma complete_on_app: "complete (on_app act) p x nxt (S, Q, w, z) = (S, Q, w, complete act p x nxt z)"
  by (simp add: complete_def split: option.split)

lemma direction_some: "x_type x \<noteq> XFER_OTHER \<Longrightarrow> direction_reg (x_type x) = Some (the (direction_reg (x_type x)))"
  by (cases "x_type x") (simp_all add: direction_reg_def)

text \<open>Configuring and starting one transfer.\<close>

lemma prog_launch:
  assumes u: "usable (S, Q, w, z) e" and x: "x_type x \<noteq> XFER_OTHER"
    and hs: "handle_of (fst (channel_of (S, Q, w, z) e)) = hs"
  shows "\<exists>S' Q'. snd (launch_stm32 H e n (snd (prog_stm32 H e x (S, Q, w, z)))) = (S', Q', run_one H n hs x w, z) \<and>
    handle_of (fst (channel_of (S', Q', v, y) e)) = hs"
proof -
  obtain b q s h where v: "e = Ptr b 0" "S b = Some s" "hdma s = Ptr q 0" "Q q = Some h" using u by auto
  let ?h = "hs (the (direction_reg (x_type x)))"
  obtain ok w' where w: "HAL_DMA_Init H ?h w = (ok, w')" by fastforce
  have hs': "handle_of s = hs" "handle_of (s\<lparr>sc_src := a, sc_dst := a', sc_length := a''\<rparr>) = handle_of s" for a a' a''
    using hs v by (simp_all add: Let_def handle_of_def fun_eq_iff)
  have "direction_reg (x_type x) = Some (the (direction_reg (x_type x)))" using direction_some[OF x] .
  then show ?thesis
    using v w hs' by (auto simp: Let_def run_one_def split: option.splits prod.split)
qed

lemma chain_view:
  "usable (S, Q, w, z) e \<Longrightarrow> handle_of (fst (channel_of (S, Q, w, z) e)) = hs \<Longrightarrow>
   \<forall>p \<in> set ps. x_type (X p) \<noteq> XFER_OTHER \<Longrightarrow>
   \<exists>S' Q'. chain (prog_stm32 H) (launch_stm32 H) (on_app act) e n stack X ps (S, Q, w, z) =
     (S', Q', fold (run_one H n hs) (map X (tl ps)) w, notify act stack X ps z)"
proof (induction ps arbitrary: S Q w z rule: induct_list012)
  case (3 p q ps)
  let ?z = "complete act p (X p) q z"
  let ?v = "snd (launch_stm32 H e n (snd (prog_stm32 H e (X q) (S, Q, w, ?z))))"
  have u: "usable (S, Q, w, ?z) e" and hs: "handle_of (fst (channel_of (S, Q, w, ?z) e)) = hs" using 3(3,4) by simp_all
  have x: "x_type (X q) \<noteq> XFER_OTHER" using 3(5) by simp
  obtain S1 Q1 where v: "?v = (S1, Q1, run_one H n hs (X q) w, ?z)"
    "handle_of (fst (channel_of (S1, Q1, run_one H n hs (X q) w, ?z) e)) = hs"
    using prog_launch[where v = "run_one H n hs (X q) w" and y = ?z and H = H and n = n, OF u x hs] by blast
  have "usable ?v e" by (rule stm32.usable_launch[OF stm32.usable_prog[OF u]])
  from "3.IH"(2)[OF this[unfolded v(1)] v(2)] 3(5) v(1) show ?case
    by (simp add: complete_on_app)
qed (simp_all add: complete_on_app)

text \<open>Configuring the first of \<open>xs\<close> and starting it.\<close>

lemma configured_started:
  assumes "sg_chan D T (stm32_dma_ops H T irqs) desc ch d c \<sigma>" and "usable (dma_view \<sigma>) (ch_extra c)"
    and "queued \<sigma> (sg_list c) []" and "\<forall>j. sg_grants \<sigma> (the (sg_list c)) j"
    and "dxfers \<sigma> b = Some xs" and "xs \<noteq> []" and "length xs < 2 ^ 31" and "x_type (hd xs) \<noteq> XFER_OTHER"
    and "hs = handle_of (fst (channel_of (dma_view \<sigma>) (ch_extra c)))"
    and "fst (HAL_DMA_Init H (hs (the (direction_reg (x_type (hd xs))))) (dhw \<sigma>))"
  shows "\<exists>\<sigma>1 r \<sigma>2 c1 S Q. no_os_dma_config_xfer D T ctx_addr dflt desc (Ptr b 0) (of_nat (length xs)) ch \<sigma> = Inr (0, \<sigma>1) \<and>
    no_os_dma_xfer_start D T desc ch \<sigma>1 = Inr (r, \<sigma>2) \<and> kept \<sigma> \<sigma>2 \<and>
    sg_chan D T (stm32_dma_ops H T irqs) desc ch d c1 \<sigma>2 \<and> irq_ctx c1 = \<lparr>hd_desc = desc, hd_channel = ch\<rparr> \<and>
    c1\<lparr>cb_desc := cb_desc c, irq_ctx := irq_ctx c\<rparr> = c \<and>
    queued \<sigma>2 (sg_list c) (xfer_ptrs (Ptr b 0) (length xs)) \<and> usable (dma_view \<sigma>2) (ch_extra c) \<and>
    dma_view \<sigma>2 = (S, Q, run_one H (irq_num c) hs (hd xs) (dhw \<sigma>), stm32_dma_state.more \<sigma>) \<and>
    handle_of (fst (channel_of (dma_view \<sigma>2) (ch_extra c))) = hs"
proof -
  let ?e = "ch_extra c" and ?n = "irq_num c"
  have len: "unat (of_nat (length xs) :: u32) = length xs" using assms(7) by (simp add: unat_of_nat take_bit_eq_mod)
  have hd: "elem_at (dxfers \<sigma>) (Ptr b 0) (hd xs)" using assms(5,6) by (auto simp: elem_at_def hd_conv_nth)
  have code: "fst (prog_stm32 H ?e (hd xs) (dma_view \<sigma>)) = 0"
    using assms(9,10) direction_some[OF assms(8)]
    by (auto simp: dma_view_def Let_def hal_code_def split: option.split prod.split)
  obtain \<sigma>1 c1 where \<sigma>1: "no_os_dma_config_xfer D T ctx_addr dflt desc (Ptr b 0) (of_nat (length xs)) ch \<sigma> = Inr (0, \<sigma>1)"
    "kept \<sigma> \<sigma>1" "elem_at (chans \<sigma>1) ch c1" "irq_ctx c1 = \<lparr>hd_desc = desc, hd_channel = ch\<rparr>"
    "c1\<lparr>cb_desc := cb_desc c, irq_ctx := irq_ctx c\<rparr> = c" "queued \<sigma>1 (sg_list c) (xfer_ptrs (Ptr b 0) (length xs))"
    "dma_view \<sigma>1 = snd (prog_stm32 H ?e (hd xs) (dma_view \<sigma>))"
    using stm32.config_xfer_run[OF assms(1,2,3,4) _ hd assms(8), of "of_nat (length xs)" ctx_addr dflt] code assms(6,7) len
    by (auto simp: unat_eq_0[symmetric])
  note c1 = same_channel[OF \<sigma>1(5)]
  note r1 = sg_chan_kept[OF assms(1) \<sigma>1(2,3) c1(1)]
  have u1: "usable (dma_view \<sigma>1) ?e" unfolding \<sigma>1(7) by (rule stm32.usable_prog[OF assms(2)])
  obtain r \<sigma>2 where \<sigma>2: "no_os_dma_xfer_start D T desc ch \<sigma>1 = Inr (r, \<sigma>2)" "kept \<sigma>1 \<sigma>2" "chans \<sigma>2 = chans \<sigma>1"
    "sg_lists \<sigma>2 = sg_lists \<sigma>1" "dma_view \<sigma>2 = snd (launch_stm32 H ?e ?n (dma_view \<sigma>1))"
    using stm32.start_run[OF r1] u1 c1 by auto
  have r2: "sg_chan D T (stm32_dma_ops H T irqs) desc ch d c1 \<sigma>2"
    by (rule sg_chan_kept[OF r1 \<sigma>2(2)]) (simp_all add: \<sigma>1(3) \<sigma>2(3))
  have u2: "usable (dma_view \<sigma>2) ?e" unfolding \<sigma>2(5) by (rule stm32.usable_launch[OF u1])
  obtain S Q where v: "dma_view \<sigma>2 = (S, Q, run_one H ?n hs (hd xs) (dhw \<sigma>), stm32_dma_state.more \<sigma>)"
    "handle_of (fst (channel_of (S, Q, run_one H ?n hs (hd xs) (dhw \<sigma>), stm32_dma_state.more \<sigma>) ?e)) = hs"
    using prog_launch[where v = "run_one H ?n hs (hd xs) (dhw \<sigma>)" and y = "stm32_dma_state.more \<sigma>" and H = H and n = ?n,
        OF assms(2)[unfolded dma_view_def] assms(8) assms(9)[symmetric, unfolded dma_view_def]]
    unfolding \<sigma>2(5) \<sigma>1(7) dma_view_def[of \<sigma>] by blast
  have "queued \<sigma>2 (sg_list c) (xfer_ptrs (Ptr b 0) (length xs))" using \<sigma>1(6) \<sigma>2(2,4) by (simp add: kept_def)
  with \<sigma>1(1,4,5) \<sigma>2(1) r2 u2 v kept_trans[OF \<sigma>1(2) \<sigma>2(2)] show ?thesis by (metis (no_types))
qed


section \<open>A concrete channel\<close>

text \<open>A HAL that logs its calls, an interrupt controller that counts them, callbacks that log their
  arguments, and one channel with its queue.\<close>

definition log_hal :: "bool \<Rightarrow> (nat \<times> u32 \<times> u32) list dma_hal" where
  "log_hal ok = \<lparr>HAL_DMA_Init = (\<lambda>h w. (ok, w @ [(0, Direction h, 0)])),
     HAL_DMA_Start_IT = (\<lambda>h src dst len w. (True, w @ [(1, src, dst)])),
     HAL_DMA_Start = (\<lambda>h src dst len w. (True, w @ [(2, src, dst)])),
     HAL_DMA_Abort_IT = (\<lambda>h w. (True, w @ [(3, 0, 0)])), HAL_DMA_Abort = (\<lambda>h w. (True, w @ [(4, 0, 0)]))\<rparr>"

definition counting :: "(nat, 'z) dma_state_scheme \<Rightarrow> fault + int \<times> (nat, 'z) dma_state_scheme" where
  "counting \<sigma> = Inr (0, with_irq \<sigma> (Suc (irq_hw \<sigma>)))"

definition counting_irq :: "((nat, 'z) dma_state_scheme, unit) irq_platform_ops" where
  "counting_irq = \<lparr>irq_ops_init = None, irq_ops_register_callback = Some (\<lambda>_ _ _. counting),
     irq_ops_unregister_callback = Some (\<lambda>_ _ _. counting), irq_ops_global_enable = None, irq_ops_global_disable = None,
     irq_ops_trigger_level_set = None, irq_ops_enable = Some (\<lambda>_ _. counting), irq_ops_disable = Some (\<lambda>_ _. counting),
     irq_ops_set_priority = Some (\<lambda>_ _ _. counting), irq_ops_remove = Some (\<lambda>_. counting), irq_ops_clear_pending = None\<rparr>"

definition log_call :: "nat \<Rightarrow> ptr \<Rightarrow> ptr \<Rightarrow> nat \<Rightarrow> (nat, 'h, (ptr \<times> ptr) list) stm32_dma_state_scheme \<Rightarrow>
    fault + unit \<times> (nat, 'h, (ptr \<times> ptr) list) stm32_dma_state_scheme" where
  "log_call f p nxt ctx \<sigma> = Inr ((), stm32_dma_state.more_update (\<lambda>z. z @ [(p, nxt)]) \<sigma>)"

definition demo_ch :: no_os_dma_ch where
  "demo_ch = zero_ch\<lparr>sg_list := Some 0, irq_num := 11, irq_ctx := \<lparr>hd_desc = Ptr 1 0, hd_channel = Ptr 2 0\<rparr>,
     ch_extra := Ptr 4 0, ch_mutex := Ptr 7 0\<rparr>"

definition demo_desc :: no_os_dma_desc where
  "demo_desc = \<lparr>dma_id = 0, num_ch = 2, channels = Ptr 2 0, dma_platform = Some 0, irq_ctrl = Ptr 6 0, dma_ref = 1,
     dma_mutex = NULL, sg_handler = None\<rparr>"

definition demo_xfer :: "u32 \<Rightarrow> dma_xfer_type \<Rightarrow> dma_xfer" where
  "demo_xfer a t = \<lparr>x_src = a, x_dst = 9, x_length = 4, x_type = t, xfer_complete_cb = Some 1, xfer_complete_ctx = 0,
     x_irq_priority = 0, x_periph = NO_OS_DMA_IRQ\<rparr>"

definition demo_dma :: "ptr list_state \<Rightarrow> dma_xfer list \<Rightarrow> (nat, (nat \<times> u32 \<times> u32) list, (ptr \<times> ptr) list) stm32_dma_state_scheme" where
  "demo_dma l xs = \<lparr>blocks = Map.empty, next_block = 10, grants = \<lambda>_ _. True, junk = \<lambda>_ _. 0, sems = [7 \<mapsto> 1],
     handle_cells = Map.empty, idescs = [6 \<mapsto> \<lparr>irq_ctrl_id = 0, iq_platform_ops = Some 0, iq_ref = 1, iq_extra = NULL\<rparr>],
     ddescs = [1 \<mapsto> demo_desc], chans = [2 \<mapsto> [demo_ch, demo_ch\<lparr>sg_list := Some 1\<rparr>]],
     dxfers = [3 \<mapsto> xs],
     sg_lists = [0 \<mapsto> l], next_sg = 2, sg_grants = \<lambda>_ _. True, irq_hw = 0,
     sdma_chs = [4 \<mapsto> \<lparr>hdma = Ptr 5 0, ch_num = 3, mem_increment = True, per_increment = False,
       mem_data_alignment = DATA_ALIGN_BYTE, per_data_alignment = DATA_ALIGN_BYTE, dma_mode = DMA_NORMAL_MODE,
       sc_src = 1, sc_dst = 2, sc_length = 3\<rparr>],
     hdmas = [5 \<mapsto> \<lparr>Instance = 0, Direction = 0, PeriphInc = 0, MemInc = 0, PeriphDataAlignment = 0, MemDataAlignment = 0,
       DmaMode = 0\<rparr>],
     dma_descriptor = NULL, dhw = [], \<dots> = []\<rparr>"

definition empty_list :: "ptr list_state" where
  "empty_list = (blank_list (\<lambda>_. True))\<lparr>alive := True\<rparr>"

text \<open>A list of two transfers.\<close>

definition two_list :: "ptr \<Rightarrow> ptr \<Rightarrow> ptr list_state" where
  "two_list p q = empty_list\<lparr>elems := [0 \<mapsto> \<lparr>e_data = p, e_prev = None, e_next = Some 1\<rparr>, 1 \<mapsto> \<lparr>e_data = q, e_prev = Some 0, e_next = None\<rparr>],
     l_first := Some 0, l_last := Some 1, nb_elements := 2, next_addr := 2\<rparr>"

abbreviation (input) "demo_T \<equiv> \<lambda>_. counting_irq"
abbreviation (input) "demo_D ok \<equiv> \<lambda>_. stm32_dma_ops (log_hal ok) demo_T 0"

lemma list_empty: "holds empty_list []"
  by (simp add: holds_def list_inv_def empty_list_def blank_list_def)

lemma list_two: "holds (two_list p q) [p, q]"
  unfolding holds_def
  by (rule exI[of _ "[(0, p), (1, q)]"]) (auto simp: list_inv_def two_list_def empty_list_def blank_list_def)

lemma demo_queued:
  "queued (demo_dma empty_list xs) (Some 0) []" "queued (demo_dma (two_list p q) xs) (Some 0) [p, q]"
  using list_empty list_two[of p q] by (auto simp: held_def demo_dma_def two_list_def empty_list_def blank_list_def)

lemma demo_chan:
  "sg_chan (demo_D ok) demo_T (stm32_dma_ops (log_hal ok) demo_T 0) (Ptr 1 0) (Ptr 2 0) demo_desc demo_ch (demo_dma l xs)"
  "usable (dma_view (demo_dma l xs)) (ch_extra demo_ch)"
  by (auto simp: sg_chan_def irq_serves_def irq_quiet_def elem_at_def mutex_count_def demo_dma_def demo_desc_def demo_ch_def
      zero_ch_def counting_irq_def counting_def dma_view_def settings_ok_def)

lemma app_update:
  fixes \<sigma> :: "('i, 'h, 'z) stm32_dma_state_scheme"
  shows "same_dma \<sigma> (stm32_dma_state.more_update g \<sigma>)"
    "dma_view (stm32_dma_state.more_update g \<sigma>) = (sdma_chs \<sigma>, hdmas \<sigma>, dhw \<sigma>, g (stm32_dma_state.more \<sigma>))"
  by (cases \<sigma>; simp add: dma_view_def dma_state.defs)+

lemma demo_calls: "call_quiet dma_view log_call (on_app (\<lambda>f p nxt ctx z. z @ [(p, nxt)]))"
  by (simp add: call_quiet_def log_call_def app_update) (simp add: dma_view_def)


section \<open>Stopping, and transfers that cannot be configured\<close>



text \<open>A transfer whose type is none of the three is not refused when it is next in a chain: the
  interrupt handler ignores the error of configuring it and starts the channel again with the source,
  destination and length of the transfer that has just ended.\<close>

theorem bad_transfer_repeats:
  assumes "sg_chan D T (stm32_dma_ops H T irqs) desc ch d c \<sigma>" and "irq_ctx c = \<lparr>hd_desc = desc, hd_channel = ch\<rparr>"
    and "usable (dma_view \<sigma>) (ch_extra c)" and "queued \<sigma> (sg_list c) (p # q # ps)"
    and "elem_at (dxfers \<sigma>) p x" and "elem_at (dxfers \<sigma>) q y" and "x_type y = XFER_OTHER"
    and "call_quiet dma_view call (on_app act)" and "(s, k, h) = channel_of (dma_view \<sigma>) (ch_extra c)"
  shows "\<exists>\<sigma>'. default_sg_callback D T call stack ch \<sigma> = Inr ((), \<sigma>') \<and> queued \<sigma>' (sg_list c) (q # ps) \<and>
    dhw \<sigma>' = snd (hal_start H (irq_num c) (handle_of s (Direction h)) (sc_src s) (sc_dst s) (sc_length s) (dhw \<sigma>))"
proof -
  obtain \<sigma>' where \<sigma>': "default_sg_callback D T call stack ch \<sigma> = Inr ((), \<sigma>')" "queued \<sigma>' (sg_list c) (q # ps)"
    "dma_view \<sigma>' = snd (launch_stm32 H (ch_extra c) (irq_num c)
       (snd (prog_stm32 H (ch_extra c) y (complete (on_app act) p x q (dma_view \<sigma>)))))"
    using stm32.next_run[OF assms(1,2,3,4,5,6,8) usable_on_app] by blast
  have "direction_reg (x_type y) = None" using assms(7) by (simp add: direction_reg_def)
  with \<sigma>'(3) assms(9) have "dhw \<sigma>' = snd (hal_start H (irq_num c) (handle_of s (Direction h)) (sc_src s) (sc_dst s) (sc_length s) (dhw \<sigma>))"
    by (auto simp: dma_view_def complete_on_app Let_def split: prod.splits)
  with \<sigma>' show ?thesis by blast
qed

theorem bad_transfer_repeats_witness:
  "\<exists>\<sigma>'. default_sg_callback (demo_D True) demo_T log_call NULL (Ptr 2 0)
       (demo_dma (two_list (Ptr 3 0) (Ptr 3 1)) [demo_xfer 5 MEM_TO_DEV, demo_xfer 6 XFER_OTHER]) = Inr ((), \<sigma>') \<and>
     queued \<sigma>' (Some 0) [Ptr 3 1] \<and> dhw \<sigma>' = [(1, 1, 2)]"
proof -
  let ?s = "demo_dma (two_list (Ptr 3 0) (Ptr 3 1)) [demo_xfer 5 MEM_TO_DEV, demo_xfer 6 XFER_OTHER]"
  have q: "queued ?s (sg_list demo_ch) [Ptr 3 0, Ptr 3 1]" using demo_queued(2) by (simp add: demo_ch_def)
  have c: "irq_ctx demo_ch = \<lparr>hd_desc = Ptr 1 0, hd_channel = Ptr 2 0\<rparr>" by (simp add: demo_ch_def)
  have x: "elem_at (dxfers ?s) (Ptr 3 0) (demo_xfer 5 MEM_TO_DEV)" "elem_at (dxfers ?s) (Ptr 3 1) (demo_xfer 6 XFER_OTHER)"
    "x_type (demo_xfer 6 XFER_OTHER) = XFER_OTHER"
    by (simp_all add: elem_at_def demo_dma_def demo_xfer_def)
  obtain s k h where v: "(s, k, h) = channel_of (dma_view ?s) (ch_extra demo_ch)" using prod_cases3 by metis
  then have "sc_src s = 1" "sc_dst s = 2" by (auto simp: dma_view_def demo_dma_def demo_ch_def Let_def)
  with bad_transfer_repeats[where stack = NULL, OF demo_chan(1) c demo_chan(2) q x demo_calls v] show ?thesis
    by (simp add: hal_start_def log_hal_def demo_ch_def demo_dma_def)
qed

text \<open>When configuring fails, \<open>-EINVAL\<close> is returned with the mutex free, and as many transfers as
  were added are taken from the front of the queue: the queue is as before only if it was empty, otherwise
  transfers that were waiting are lost and those that failed stay.\<close>

theorem failed_config_drops:
  assumes "sg_chan D T (stm32_dma_ops H T irqs) desc ch d c \<sigma>" and "usable (dma_view \<sigma>) (ch_extra c)"
    and "queued \<sigma> (sg_list c) ps" and "\<forall>j. sg_grants \<sigma> (the (sg_list c)) j" and "length ps + unat len < 2 ^ 31"
    and "elem_at (dxfers \<sigma>) xfer x" and "x_type x \<noteq> XFER_OTHER" and "len \<noteq> 0"
    and "hs = handle_of (fst (channel_of (dma_view \<sigma>) (ch_extra c)))"
    and "\<not> fst (HAL_DMA_Init H (hs (the (direction_reg (x_type x)))) (dhw \<sigma>))"
  shows "\<exists>\<sigma>'. no_os_dma_config_xfer D T ctx_addr dflt desc xfer len ch \<sigma> = Inr (- EINVAL, \<sigma>') \<and>
    queued \<sigma>' (sg_list c) (drop (unat len) (ps @ xfer_ptrs xfer (unat len))) \<and> mutex_free \<sigma>' (ch_mutex c)"
proof -
  have code: "fst (prog_stm32 H (ch_extra c) x (dma_view \<sigma>)) = - EINVAL"
    using assms(9,10) direction_some[OF assms(7)]
    by (auto simp: dma_view_def Let_def hal_code_def split: option.split prod.split)
  have "- EINVAL \<noteq> 0" by (simp add: EINVAL_def)
  with stm32.config_xfer_run[OF assms(1,2,3,4,5,6,7,8), of ctx_addr dflt] code
  obtain \<sigma>' c' where \<sigma>': "no_os_dma_config_xfer D T ctx_addr dflt desc xfer len ch \<sigma> = Inr (- EINVAL, \<sigma>')" "kept \<sigma> \<sigma>'"
    "queued \<sigma>' (sg_list c) (drop (unat len) (ps @ xfer_ptrs xfer (unat len)))"
    by auto
  have "mutex_count \<sigma>' (ch_mutex c) = mutex_count \<sigma> (ch_mutex c)"
    by (rule mutex_count_cong) (use \<sigma>'(2) in \<open>simp_all add: kept_def\<close>)
  with \<sigma>' assms(1) show ?thesis by (auto simp: sg_chan_def)
qed

theorem failed_config_drops_witness:
  "\<exists>\<sigma>'. no_os_dma_config_xfer (demo_D False) demo_T (\<lambda>_. 0) 0 (Ptr 1 0) (Ptr 3 0) 1 (Ptr 2 0)
       (demo_dma (two_list (Ptr 8 0) (Ptr 8 1)) [demo_xfer 5 MEM_TO_DEV]) = Inr (- EINVAL, \<sigma>') \<and>
     queued \<sigma>' (Some 0) [Ptr 8 1, Ptr 3 0]"
proof -
  let ?s = "demo_dma (two_list (Ptr 8 0) (Ptr 8 1)) [demo_xfer 5 MEM_TO_DEV]"
  have q: "queued ?s (sg_list demo_ch) [Ptr 8 0, Ptr 8 1]" "\<forall>j. sg_grants ?s (the (sg_list demo_ch)) j"
    using demo_queued(2) by (simp_all add: demo_ch_def demo_dma_def)
  have x: "length [Ptr 8 0, Ptr 8 1] + unat (1 :: u32) < 2 ^ 31" "elem_at (dxfers ?s) (Ptr 3 0) (demo_xfer 5 MEM_TO_DEV)"
    "x_type (demo_xfer 5 MEM_TO_DEV) \<noteq> XFER_OTHER" "(1 :: u32) \<noteq> 0"
    "\<not> fst (HAL_DMA_Init (log_hal False) h w)" for h w
    by (simp_all add: elem_at_def demo_dma_def demo_xfer_def log_hal_def)
  show ?thesis
    using failed_config_drops[where ctx_addr = "\<lambda>_. 0" and dflt = 0, OF demo_chan q x(1,2,3,4) refl x(5)]
    by (auto simp: demo_ch_def xfer_ptrs_def)
qed

section \<open>Removing a controller\<close>

text \<open>Interrupt operations that leave the queues and controllers alone, when they return.\<close>

definition irq_apart :: "('i, 'z, 'x) irq_tables \<Rightarrow> bool" where
  "irq_apart T \<longleftrightarrow>
     (\<forall>ctrl n cb \<sigma> r \<sigma>'. no_os_irq_unregister_callback T ctrl n cb \<sigma> = Inr (r, \<sigma>') \<or> no_os_irq_ctrl_remove T ctrl \<sigma> = Inr (r, \<sigma>') \<longrightarrow>
        ddescs \<sigma>' = ddescs \<sigma> \<and> chans \<sigma>' = chans \<sigma> \<and> sg_lists \<sigma>' = sg_lists \<sigma>)"

lemma mutex_remove_apart:
  fixes \<sigma> :: "('i, 'z) dma_state_scheme"
  shows "no_os_mutex_remove m \<sigma> = Inr (u, \<sigma>') \<Longrightarrow> ddescs \<sigma>' = ddescs \<sigma> \<and> chans \<sigma>' = chans \<sigma> \<and> sg_lists \<sigma>' = sg_lists \<sigma>"
  by (auto simp: no_os_mutex_remove_def vSemaphoreDelete_def bindm_Inr_iff queue_of_def deref_Inr modifym_Inr returnm_Inr
      split: if_splits ptr.splits)

lemma elem_of_Inr: "elem_of heap p \<sigma> = Inr (x, \<sigma>') \<Longrightarrow> \<sigma>' = \<sigma>"
  by (auto simp: elem_of_def split: ptr.splits option.splits if_splits)

text \<open>The second round of the loop removes the list of the first channel again.\<close>

lemma remove_channels_fault:
  assumes d: "ddescs \<sigma> b = Some d" "elem_at (chans \<sigma>) (channels d) c" and q: "queued \<sigma> (sg_list c) xs" and T: "irq_apart T"
  shows "remove_channels T (Ptr b 0) i (Suc (Suc n)) \<sigma> \<noteq> Inr (r, \<sigma>')"
    and "remove_channels T (Ptr b 0) i (Suc 0) \<sigma> = Inr (r, \<sigma>') \<Longrightarrow> r = 0 \<and> ddescs \<sigma>' = ddescs \<sigma>"
proof -
  obtain l where l: "on_sg (sg_list c) no_os_list_remove \<sigma> = Inr (0, with_sg \<sigma> ((sg_lists \<sigma>)(the (sg_list c) \<mapsto> l)))"
    "list_gone ((sg_lists \<sigma>)(the (sg_list c) \<mapsto> l)) (sg_list c)"
    unfolding on_sg_def using run_list_remove[where heap = sg_lists and put = "\<lambda>m \<sigma>. \<sigma>\<lparr>sg_lists := m\<rparr>", OF q] by blast
  let ?s = "with_sg \<sigma> ((sg_lists \<sigma>)(the (sg_list c) \<mapsto> l))"
  have one: "\<exists>\<sigma>1. ddescs \<sigma>1 = ddescs \<sigma> \<and> chans \<sigma>1 = chans \<sigma> \<and> sg_lists \<sigma>1 = sg_lists ?s \<and> remove_channels T (Ptr b 0) (Suc i) k \<sigma>1 = Inr (r, \<sigma>')"
    if run: "remove_channels T (Ptr b 0) i (Suc k) \<sigma> = Inr (r, \<sigma>')" for k i \<sigma>' r
  proof -
    let ?un = "\<lambda>c :: no_os_dma_ch. if irq_ctrl d \<noteq> NULL \<and> cb_handle (cb_desc c) \<noteq> 0
        then no_os_irq_unregister_callback T (irq_ctrl d) (irq_num c) (Some (cb_desc c)) else returnm 0"
    have "bindm (elem_of chans (ptr_add (channels d) i)) (\<lambda>c. bindm (no_os_mutex_remove (ch_mutex c)) (\<lambda>_.
        bindm (?un c) (\<lambda>_. remove_channels T (Ptr b 0) (Suc i) k))) ?s = Inr (r, \<sigma>')"
      using run d(1) l(1) ch_of_ok[OF d(2)] by (simp add: bindm_unfold run_simps cong: if_cong sum.case_cong)
    then obtain c' :: no_os_dma_ch where c': "bindm (no_os_mutex_remove (ch_mutex c')) (\<lambda>_. bindm (?un c') (\<lambda>_.
        remove_channels T (Ptr b 0) (Suc i) k)) ?s = Inr (r, \<sigma>')"
      by (rule bindm_InrE) (auto dest: elem_of_Inr)
    obtain u \<sigma>1 where s: "no_os_mutex_remove (ch_mutex c') ?s = Inr (u, \<sigma>1)"
      "bindm (?un c') (\<lambda>_. remove_channels T (Ptr b 0) (Suc i) k) \<sigma>1 = Inr (r, \<sigma>')"
      by (rule bindm_InrE[OF c']) blast
    obtain v \<sigma>2 where s2: "?un c' \<sigma>1 = Inr (v, \<sigma>2)" "remove_channels T (Ptr b 0) (Suc i) k \<sigma>2 = Inr (r, \<sigma>')"
      by (rule bindm_InrE[OF s(2)]) blast
    have "ddescs \<sigma>2 = ddescs \<sigma>1 \<and> chans \<sigma>2 = chans \<sigma>1 \<and> sg_lists \<sigma>2 = sg_lists \<sigma>1"
      using s2(1) T by (auto simp: irq_apart_def returnm_Inr split: if_splits)
    with s2(2) mutex_remove_apart[OF s(1)] show ?thesis by auto
  qed
  have two: "remove_channels T (Ptr b 0) j (Suc k) \<sigma>1 = Inl Dangling"
    if "ddescs \<sigma>1 = ddescs \<sigma>" "chans \<sigma>1 = chans \<sigma>" "sg_lists \<sigma>1 = sg_lists ?s" for \<sigma>1 j k
    using that d l(2)
    by (simp add: bindm_unfold run_simps elem_of_ok on_sg_def run_list_gone)
  show "remove_channels T (Ptr b 0) i (Suc (Suc n)) \<sigma> \<noteq> Inr (r, \<sigma>')"
  proof
    assume "remove_channels T (Ptr b 0) i (Suc (Suc n)) \<sigma> = Inr (r, \<sigma>')"
    from one[OF this] two show False by (metis Inl_Inr_False)
  qed
  show "remove_channels T (Ptr b 0) i (Suc 0) \<sigma> = Inr (r, \<sigma>') \<Longrightarrow> r = 0 \<and> ddescs \<sigma>' = ddescs \<sigma>"
    using one[of i 0 r \<sigma>'] by (auto simp: returnm_Inr)
qed

lemma stm32_dma_remove_frees:
  assumes "irq_apart T" and run: "stm32_dma_remove T (Ptr b 0) \<sigma> = Inr (r, \<sigma>')"
  shows "r = 0 \<and> ddescs \<sigma>' b = None"
  using run
  by (auto simp: stm32_dma_remove_def bindm_Inr_iff deref_Inr modifym_Inr returnm_Inr ddesc_free_def chans_free_def
      split: if_splits)

text \<open>C36: Removing a controller in use never returns: with two channels or more the second round of the
  loop removes the freed list of the first channel again, and with one the reference count is
  written after the platform has freed the descriptor.\<close>

theorem dma_remove_uses_freed:
  assumes "ddescs \<sigma> b = Some d" and "dma_ref d \<noteq> 0" and "num_ch d \<noteq> 0" and "dma_platform d = Some k"
    and "D k = stm32_dma_ops H T irqs" and "elem_at (chans \<sigma>) (channels d) c" and "queued \<sigma> (sg_list c) xs" and "irq_apart T"
  shows "\<exists>e. no_os_dma_remove D T (Ptr b 0) \<sigma> = Inl e"
proof (rule ccontr)
  assume "\<not> ?thesis"
  then obtain r \<tau> where run: "no_os_dma_remove D T (Ptr b 0) \<sigma> = Inr (r, \<tau>)"
    by (metis old.sum.exhaust surj_pair)
  obtain n where n: "unat (num_ch d) = Suc n" using assms(3) by (cases "unat (num_ch d)") (auto simp: unat_eq_0)
  note f = remove_channels_fault[OF assms(1,6,7,8)]
  show False
  proof (cases n)
    case (Suc m)
    then show False using run f(1)[of 0 m] assms(1,2) n
      by (auto simp: no_os_dma_remove_def bindm_Inr_iff deref_Inr simp del: remove_channels.simps)
  next
    case 0
    let ?rest = "bindm (CMem.deref ddescs (Ptr b 0)) (\<lambda>d. bindm (no_os_mutex_remove (dma_mutex d)) (\<lambda>_.
      bindm (dma_ops D d dma_ops_remove) (\<lambda>f. bindm (f (Ptr b 0)) (\<lambda>ret. if ret \<noteq> 0 then returnm ret
      else bindm (ddesc_update (Ptr b 0) (\<lambda>d. d\<lparr>dma_ref := dma_ref d - 1\<rparr>)) (\<lambda>_. returnm 0)))))"
    have "bindm (remove_channels T (Ptr b 0) 0 (Suc 0)) (\<lambda>ret. if ret \<noteq> 0 then returnm ret else ?rest) \<sigma> = Inr (r, \<tau>)"
      using run assms(2) n 0
      by (simp add: no_os_dma_remove_def del: remove_channels.simps
          add: bindm_Inr[where m = "CMem.deref ddescs (Ptr b 0)" and s = \<sigma>, OF deref_ok[where heap = ddescs, OF assms(1)]])
    then obtain ret \<sigma>1 where r1': "remove_channels T (Ptr b 0) 0 (Suc 0) \<sigma> = Inr (ret, \<sigma>1)"
      "(if ret \<noteq> 0 then returnm ret else ?rest) \<sigma>1 = Inr (r, \<tau>)"
      by (rule bindm_InrE)
    with f(2) have r1: "remove_channels T (Ptr b 0) 0 (Suc 0) \<sigma> = Inr (0, \<sigma>1)" "?rest \<sigma>1 = Inr (r, \<tau>)" by fastforce+
    have d1: "ddescs \<sigma>1 b = Some d" using f(2)[OF r1(1)] assms(1) by simp
    have ops: "dma_ops D d dma_ops_remove \<sigma>' = Inr (stm32_dma_remove T, \<sigma>')" for \<sigma>'
      using assms(4,5) by (simp add: dma_ops_def stm32_dma_ops_def run_simps)
    have "bindm (no_os_mutex_remove (dma_mutex d)) (\<lambda>_. bindm (dma_ops D d dma_ops_remove) (\<lambda>f. bindm (f (Ptr b 0)) (\<lambda>ret. if ret \<noteq> 0 then returnm ret
        else bindm (ddesc_update (Ptr b 0) (\<lambda>d. d\<lparr>dma_ref := dma_ref d - 1\<rparr>)) (\<lambda>_. returnm 0)))) \<sigma>1 = Inr (r, \<tau>)"
      using r1(2)
      by (simp add: bindm_Inr[where m = "CMem.deref ddescs (Ptr b 0)" and s = \<sigma>1, OF deref_ok[where heap = ddescs, OF d1]])
    then obtain \<sigma>2 where "bindm (dma_ops D d dma_ops_remove) (\<lambda>f. bindm (f (Ptr b 0)) (\<lambda>ret. if ret \<noteq> 0 then returnm ret
        else bindm (ddesc_update (Ptr b 0) (\<lambda>d. d\<lparr>dma_ref := dma_ref d - 1\<rparr>)) (\<lambda>_. returnm 0))) \<sigma>2 = Inr (r, \<tau>)"
      by (rule bindm_InrE) blast
    then have "bindm (stm32_dma_remove T (Ptr b 0)) (\<lambda>ret. if ret \<noteq> 0 then returnm ret
        else bindm (ddesc_update (Ptr b 0) (\<lambda>d. d\<lparr>dma_ref := dma_ref d - 1\<rparr>)) (\<lambda>_. returnm 0)) \<sigma>2 = Inr (r, \<tau>)"
      by (simp add: bindm_Inr[where m = "dma_ops D d dma_ops_remove", OF ops])
    then obtain ret \<sigma>3 where "stm32_dma_remove T (Ptr b 0) \<sigma>2 = Inr (ret, \<sigma>3)"
      "(\<lambda>ret. if ret \<noteq> 0 then returnm ret
        else bindm (ddesc_update (Ptr b 0) (\<lambda>d. d\<lparr>dma_ref := dma_ref d - 1\<rparr>)) (\<lambda>_. returnm 0)) ret \<sigma>3 = Inr (r, \<tau>)"
      by (rule bindm_InrE)
    then show False using stm32_dma_remove_frees[OF assms(8)]
      by (auto simp: ddesc_update_def bindm_Inr_iff deref_Inr)
  qed
qed

lemma irq_call_Inr:
  assumes run: "irq_call T desc sel k \<sigma> = Inr (r, \<sigma>')"
  shows "\<sigma>' = \<sigma> \<or> (\<exists>ops f. sel (T ops) = Some f \<and> k f \<sigma> = Inr (r, \<sigma>'))"
proof (cases "desc = NULL")
  case False
  let ?k = "\<lambda>d :: no_os_irq_ctrl_desc. case iq_platform_ops d of None \<Rightarrow> returnm (- EINVAL) | Some ops \<Rightarrow>
      case sel (T ops) of None \<Rightarrow> returnm (- ENOSYS) | Some f \<Rightarrow> k f"
  have "bindm (CMem.deref idescs desc) ?k \<sigma> = Inr (r, \<sigma>')" using run False by (simp add: irq_call_def)
  then obtain d :: no_os_irq_ctrl_desc where "?k d \<sigma> = Inr (r, \<sigma>')" by (rule bindm_InrE) (auto simp: deref_Inr)
  then show ?thesis
    by (cases "iq_platform_ops d"; cases "sel (T (the (iq_platform_ops d)))") (auto simp: returnm_Inr)
qed (use run in \<open>simp add: irq_call_NULL\<close>)

lemma counting_apart: "irq_apart demo_T"
  unfolding irq_apart_def no_os_irq_unregister_callback_def no_os_irq_ctrl_remove_def
  by (auto dest!: irq_call_Inr
      simp: counting_irq_def counting_def put_idesc_def bindm_Inr_iff deref_Inr modifym_Inr returnm_Inr split: if_splits)

theorem dma_remove_uses_freed_witness:
  "\<exists>e. no_os_dma_remove (demo_D True) demo_T (Ptr 1 0) (demo_dma empty_list []) = Inl e"
proof (rule dma_remove_uses_freed[OF _ _ _ _ refl _ _ counting_apart])
  show "elem_at (chans (demo_dma empty_list [])) (channels demo_desc) demo_ch"
    by (simp add: elem_at_def demo_dma_def demo_desc_def)
  show "queued (demo_dma empty_list []) (sg_list demo_ch) []" using demo_queued(1) by (simp add: demo_ch_def)
qed (simp_all add: demo_dma_def demo_desc_def)

end
