(* ===== verification/NoOs_Gpio.thy ===== *)
theory NoOs_Gpio
  imports Rtos NoOs_Util
begin

text \<open>
  Pins: the generic interface of no-OS (\<open>api/no_os_gpio.c\<close>), which dispatches to a table of
  platform operations, and the platform operations for the STM32 (\<open>stm32_gpio.c\<close>). The
  descriptors are typed objects of the heap; the HAL calls at the bottom act on a state
  \<open>hw\<close> of their own and are a record of operations. A table of operations is named by its
  address, and a parameter \<open>T\<close> maps addresses to tables.
\<close>

section \<open>State\<close>

text \<open>\<open>PULL_OTHER\<close> stands for the values of the enumeration type that name no constant.\<close>

datatype no_os_gpio_pull_up =
  NO_OS_PULL_NONE | NO_OS_PULL_UP | NO_OS_PULL_DOWN | NO_OS_PULL_UP_WEAK | NO_OS_PULL_DOWN_WEAK | PULL_OTHER

record stm32_gpio_init_param =
  gx_mode :: u32
  gx_speed :: u32
  gx_alternate :: u32

record no_os_gpio_init_param =
  gp_port :: int
  gp_number :: int
  gp_pull :: no_os_gpio_pull_up
  gp_platform_ops :: "nat option"
  gp_extra :: "stm32_gpio_init_param option"

record no_os_gpio_desc =
  gd_port :: int
  gd_number :: int
  gd_pull :: no_os_gpio_pull_up
  gd_platform_ops :: "nat option"
  gd_extra :: ptr

record GPIO_InitTypeDef =
  Pin :: u32
  Mode :: u32
  Pull :: u32
  Speed :: u32
  Alternate :: u32

text \<open>A port \<open>GPIOA\<close> to \<open>GPIOI\<close> is named by its number.\<close>

record stm32_gpio_desc =
  sg_port :: nat
  gpio_config :: GPIO_InitTypeDef

record 'h gpio_state = rtos +
  gdescs :: "nat \<Rightarrow> no_os_gpio_desc option"
  gextras :: "nat \<Rightarrow> stm32_gpio_desc option"
  hw :: 'h

text \<open>The operations of a platform; \<open>None\<close> is a null function pointer. An out-parameter is
  \<open>None\<close> when the caller passes \<open>NULL\<close>, else the contents before the call.\<close>

record 's gpio_platform_ops =
  gpio_ops_get :: "(ptr option \<Rightarrow> no_os_gpio_init_param option \<Rightarrow> ('s, int \<times> ptr option) cm) option"
  gpio_ops_get_optional :: "(ptr option \<Rightarrow> no_os_gpio_init_param option \<Rightarrow> ('s, int \<times> ptr option) cm) option"
  gpio_ops_remove :: "(ptr \<Rightarrow> ('s, int) cm) option"
  gpio_ops_direction_input :: "(ptr \<Rightarrow> ('s, int) cm) option"
  gpio_ops_direction_output :: "(ptr \<Rightarrow> u8 \<Rightarrow> ('s, int) cm) option"
  gpio_ops_get_direction :: "(ptr \<Rightarrow> u8 option \<Rightarrow> ('s, int \<times> u8 option) cm) option"
  gpio_ops_set_value :: "(ptr \<Rightarrow> u8 \<Rightarrow> ('s, int) cm) option"
  gpio_ops_get_value :: "(ptr \<Rightarrow> u8 option \<Rightarrow> ('s, int \<times> u8 option) cm) option"

section \<open>The generic interface (\<open>no_os_gpio.c\<close>)\<close>

text \<open>\<open>(*desc)->platform_ops = ...\<close>\<close>

definition set_gpio_ops :: "ptr option \<Rightarrow> nat option \<Rightarrow> (('h, 'z) gpio_state_scheme, unit) cm" where
  "set_gpio_ops desc ops =
     (case desc of
        None \<Rightarrow> failm Null_Deref
      | Some p \<Rightarrow> bindm (deref gdescs p) (\<lambda>d.
          modifym (\<lambda>\<sigma>. \<sigma>\<lparr>gdescs := (gdescs \<sigma>)(block_of p \<mapsto> d\<lparr>gd_platform_ops := ops\<rparr>)\<rparr>)))"

definition no_os_gpio_get ::
  "(nat \<Rightarrow> ('h, 'z) gpio_state_scheme gpio_platform_ops) \<Rightarrow> ptr option \<Rightarrow> no_os_gpio_init_param option \<Rightarrow>
   (('h, 'z) gpio_state_scheme, int \<times> ptr option) cm" where
  "no_os_gpio_get T desc param =
     (case param of None \<Rightarrow> returnm (- EINVAL, desc) | Some pr \<Rightarrow>
      case gp_platform_ops pr of None \<Rightarrow> returnm (- EINVAL, desc) | Some ops \<Rightarrow>
      case gpio_ops_get (T ops) of None \<Rightarrow> returnm (- ENOSYS, desc) | Some f \<Rightarrow>
      bindm (f desc param) (\<lambda>(ret, desc).
      if ret \<noteq> 0 then returnm (ret, desc)
      else bindm (set_gpio_ops desc (Some ops)) (\<lambda>_. returnm (0, desc))))"

definition no_os_gpio_get_optional ::
  "(nat \<Rightarrow> ('h, 'z) gpio_state_scheme gpio_platform_ops) \<Rightarrow> ptr option \<Rightarrow> no_os_gpio_init_param option \<Rightarrow>
   (('h, 'z) gpio_state_scheme, int \<times> ptr option) cm" where
  "no_os_gpio_get_optional T desc param =
     (if (case param of None \<Rightarrow> True | Some pr \<Rightarrow> gp_number pr = -1)
      then (case desc of None \<Rightarrow> failm Null_Deref | Some _ \<Rightarrow> returnm (0, Some NULL))
      else
        case gp_platform_ops (the param) of None \<Rightarrow> returnm (- EINVAL, desc) | Some ops \<Rightarrow>
        case gpio_ops_get_optional (T ops) of None \<Rightarrow> returnm (- ENOSYS, desc) | Some f \<Rightarrow>
        bindm (f desc param) (\<lambda>(ret, desc).
        if ret \<noteq> 0 then returnm (ret, desc)
        else bindm (set_gpio_ops desc (Some ops)) (\<lambda>_. returnm (0, desc))))"

text \<open>The tests all other operations make: a missing descriptor is fine, a missing table or
  operation an error.\<close>

definition gpio_call ::
  "(nat \<Rightarrow> ('h, 'z) gpio_state_scheme gpio_platform_ops) \<Rightarrow> ptr \<Rightarrow>
   (('h, 'z) gpio_state_scheme gpio_platform_ops \<Rightarrow> 'f option) \<Rightarrow> (int \<Rightarrow> 'r) \<Rightarrow>
   ('f \<Rightarrow> (('h, 'z) gpio_state_scheme, 'r) cm) \<Rightarrow> (('h, 'z) gpio_state_scheme, 'r) cm" where
  "gpio_call T desc sel code k =
     (if desc \<noteq> NULL then
        bindm (deref gdescs desc) (\<lambda>d.
        case gd_platform_ops d of None \<Rightarrow> returnm (code (- EINVAL)) | Some ops \<Rightarrow>
        case sel (T ops) of None \<Rightarrow> returnm (code (- ENOSYS)) | Some f \<Rightarrow> k f)
      else returnm (code 0))"

definition no_os_gpio_remove ::
  "(nat \<Rightarrow> ('h, 'z) gpio_state_scheme gpio_platform_ops) \<Rightarrow> ptr \<Rightarrow> (('h, 'z) gpio_state_scheme, int) cm" where
  "no_os_gpio_remove T desc = gpio_call T desc gpio_ops_remove (\<lambda>c. c) (\<lambda>f. f desc)"

definition no_os_gpio_direction_input ::
  "(nat \<Rightarrow> ('h, 'z) gpio_state_scheme gpio_platform_ops) \<Rightarrow> ptr \<Rightarrow> (('h, 'z) gpio_state_scheme, int) cm" where
  "no_os_gpio_direction_input T desc = gpio_call T desc gpio_ops_direction_input (\<lambda>c. c) (\<lambda>f. f desc)"

definition no_os_gpio_direction_output ::
  "(nat \<Rightarrow> ('h, 'z) gpio_state_scheme gpio_platform_ops) \<Rightarrow> ptr \<Rightarrow> u8 \<Rightarrow> (('h, 'z) gpio_state_scheme, int) cm" where
  "no_os_gpio_direction_output T desc value =
     gpio_call T desc gpio_ops_direction_output (\<lambda>c. c) (\<lambda>f. f desc value)"

definition no_os_gpio_get_direction ::
  "(nat \<Rightarrow> ('h, 'z) gpio_state_scheme gpio_platform_ops) \<Rightarrow> ptr \<Rightarrow> u8 option \<Rightarrow>
   (('h, 'z) gpio_state_scheme, int \<times> u8 option) cm" where
  "no_os_gpio_get_direction T desc direction =
     gpio_call T desc gpio_ops_get_direction (\<lambda>c. (c, direction)) (\<lambda>f. f desc direction)"

definition no_os_gpio_set_value ::
  "(nat \<Rightarrow> ('h, 'z) gpio_state_scheme gpio_platform_ops) \<Rightarrow> ptr \<Rightarrow> u8 \<Rightarrow> (('h, 'z) gpio_state_scheme, int) cm" where
  "no_os_gpio_set_value T desc value = gpio_call T desc gpio_ops_set_value (\<lambda>c. c) (\<lambda>f. f desc value)"

text \<open>The test is for \<open>gpio_ops_set_value\<close>, the call goes to \<open>gpio_ops_get_value\<close>.\<close>

definition no_os_gpio_get_value ::
  "(nat \<Rightarrow> ('h, 'z) gpio_state_scheme gpio_platform_ops) \<Rightarrow> ptr \<Rightarrow> u8 option \<Rightarrow>
   (('h, 'z) gpio_state_scheme, int \<times> u8 option) cm" where
  "no_os_gpio_get_value T desc value =
     (if desc \<noteq> NULL then
        bindm (deref gdescs desc) (\<lambda>d.
        case gd_platform_ops d of None \<Rightarrow> returnm (- EINVAL, value) | Some ops \<Rightarrow>
        case gpio_ops_set_value (T ops) of None \<Rightarrow> returnm (- ENOSYS, value) | Some _ \<Rightarrow>
        case gpio_ops_get_value (T ops) of None \<Rightarrow> failm Null_Deref | Some f \<Rightarrow> f desc value)
      else returnm (0, value))"

section \<open>The STM32 platform (\<open>stm32_gpio.c\<close>)\<close>

definition GPIO_MODE_INPUT :: u32 where "GPIO_MODE_INPUT = 0"
definition GPIO_MODE_OUTPUT_PP :: u32 where "GPIO_MODE_OUTPUT_PP = 1"
definition GPIO_MODE_AF_PP :: u32 where "GPIO_MODE_AF_PP = 2"
definition GPIO_MODE_OUTPUT_OD :: u32 where "GPIO_MODE_OUTPUT_OD = 0x11"
definition GPIO_NOPULL :: u32 where "GPIO_NOPULL = 0"
definition GPIO_PULLUP :: u32 where "GPIO_PULLUP = 1"
definition GPIO_PULLDOWN :: u32 where "GPIO_PULLDOWN = 2"
definition GPIO_SPEED_FREQ_LOW :: u32 where "GPIO_SPEED_FREQ_LOW = 0"

lemmas gpio_modes = GPIO_MODE_INPUT_def GPIO_MODE_OUTPUT_PP_def GPIO_MODE_AF_PP_def GPIO_MODE_OUTPUT_OD_def

text \<open>The calls of the HAL: the clock of a port, and the pins of a port by mask.\<close>

record 'h gpio_hal =
  hal_clk_enable :: "nat \<Rightarrow> ('h, unit) cm"
  hal_gpio_init :: "nat \<Rightarrow> GPIO_InitTypeDef \<Rightarrow> ('h, unit) cm"
  hal_write_pin :: "nat \<Rightarrow> u32 \<Rightarrow> u8 \<Rightarrow> ('h, unit) cm"
  hal_read_pin :: "nat \<Rightarrow> u32 \<Rightarrow> ('h, u8) cm"

definition on_hw :: "('h, 'a) cm \<Rightarrow> (('h, 'z) gpio_state_scheme, 'a) cm" where
  "on_hw m \<sigma> = (case m (hw \<sigma>) of Inl e \<Rightarrow> Inl e | Inr (a, h) \<Rightarrow> Inr (a, \<sigma>\<lparr>hw := h\<rparr>))"

text \<open>\<open>NO_OS_BIT(number)\<close>: a shift by the number of the pin.\<close>

definition pin_mask :: "int \<Rightarrow> ('s, u32) cm" where
  "pin_mask number = (if 0 \<le> number \<and> number < 32 then returnm (NO_OS_BIT (nat number)) else failm Bad_Shift)"

abbreviation (input) "sizeof_gpio_desc \<equiv> 20 :: nat"
abbreviation (input) "sizeof_stm32_gpio_desc \<equiv> 24 :: nat"

text \<open>\<open>no_os_malloc\<close> leaves the fields unspecified; all but \<open>Alternate\<close> and \<open>platform_ops\<close>
  are assigned before they are used.\<close>

definition gpio_desc_malloc :: "(('h, 'z) gpio_state_scheme, ptr) cm" where
  "gpio_desc_malloc = new_obj sizeof_gpio_desc (\<lambda>b \<sigma>. \<sigma>\<lparr>gdescs := (gdescs \<sigma>)(b \<mapsto>
     \<lparr>gd_port = 0, gd_number = 0, gd_pull = PULL_OTHER, gd_platform_ops = None, gd_extra = NULL\<rparr>)\<rparr>)"

definition gpio_extra_malloc :: "(('h, 'z) gpio_state_scheme, ptr) cm" where
  "gpio_extra_malloc = new_obj sizeof_stm32_gpio_desc (\<lambda>b \<sigma>. \<sigma>\<lparr>gextras := (gextras \<sigma>)(b \<mapsto>
     \<lparr>sg_port = 0, gpio_config = \<lparr>Pin = 0, Mode = 0, Pull = 0, Speed = 0, Alternate = ucast (junk \<sigma> b 20)\<rparr>\<rparr>)\<rparr>)"

definition gpio_desc_free :: "ptr \<Rightarrow> (('h, 'z) gpio_state_scheme, unit) cm" where
  "gpio_desc_free p =
     (if p = NULL then returnm ()
      else bindm (deref gdescs p) (\<lambda>_. modifym (\<lambda>\<sigma>. \<sigma>\<lparr>gdescs := (gdescs \<sigma>)(block_of p := None)\<rparr>)))"

definition gpio_extra_free :: "ptr \<Rightarrow> (('h, 'z) gpio_state_scheme, unit) cm" where
  "gpio_extra_free p =
     (if p = NULL then returnm ()
      else bindm (deref gextras p) (\<lambda>_. modifym (\<lambda>\<sigma>. \<sigma>\<lparr>gextras := (gextras \<sigma>)(block_of p := None)\<rparr>)))"

definition gpio_init ::
  "'h gpio_hal \<Rightarrow> ptr \<Rightarrow> no_os_gpio_init_param \<Rightarrow> (('h, 'z) gpio_state_scheme, int) cm" where
  "gpio_init H desc param =
     bindm (deref gdescs desc) (\<lambda>d. bindm (deref gextras (gd_extra d)) (\<lambda>extra.
     if gp_port param < 0 \<or> 8 < gp_port param then returnm (- EINVAL)
     else
       bindm (on_hw (hal_clk_enable H (nat (gp_port param)))) (\<lambda>_.
       let extra = extra\<lparr>sg_port := nat (gp_port param)\<rparr>;
           mode = (case gp_extra param of None \<Rightarrow> GPIO_MODE_INPUT | Some pextra \<Rightarrow> gx_mode pextra);
           speed = (case gp_extra param of None \<Rightarrow> GPIO_SPEED_FREQ_LOW | Some pextra \<Rightarrow> gx_speed pextra);
           put_extra = (\<lambda>ex. modifym (\<lambda>\<sigma>. \<sigma>\<lparr>gextras := (gextras \<sigma>)(block_of (gd_extra d) \<mapsto> ex)\<rparr>)) in
       if mode \<notin> {GPIO_MODE_INPUT, GPIO_MODE_OUTPUT_PP, GPIO_MODE_OUTPUT_OD, GPIO_MODE_AF_PP}
       then bindm (put_extra extra) (\<lambda>_. returnm (- EINVAL))
       else
         let alternate = (if mode = GPIO_MODE_AF_PP then gx_alternate (the (gp_extra param))
                          else Alternate (gpio_config extra));
             d = d\<lparr>gd_port := gp_port param, gd_number := gp_number param, gd_pull := gp_pull param\<rparr> in
         bindm (modifym (\<lambda>\<sigma>. \<sigma>\<lparr>gdescs := (gdescs \<sigma>)(block_of desc \<mapsto> d)\<rparr>)) (\<lambda>_.
         if gp_pull param = PULL_OTHER
         then bindm (put_extra (extra\<lparr>gpio_config := (gpio_config extra)\<lparr>Alternate := alternate\<rparr>\<rparr>)) (\<lambda>_. returnm (- EINVAL))
         else
           let pull = (case gp_pull param of
                 NO_OS_PULL_UP \<Rightarrow> GPIO_PULLUP | NO_OS_PULL_UP_WEAK \<Rightarrow> GPIO_PULLUP
               | NO_OS_PULL_DOWN \<Rightarrow> GPIO_PULLDOWN | NO_OS_PULL_DOWN_WEAK \<Rightarrow> GPIO_PULLDOWN | _ \<Rightarrow> GPIO_NOPULL) in
           bindm (pin_mask (gp_number param)) (\<lambda>pin.
           let extra = extra\<lparr>gpio_config := \<lparr>Pin = pin, Mode = mode, Pull = pull, Speed = speed, Alternate = alternate\<rparr>\<rparr> in
           bindm (put_extra extra) (\<lambda>_.
           bindm (on_hw (hal_gpio_init H (sg_port extra) (gpio_config extra))) (\<lambda>_. returnm 0)))))))"

text \<open>The label \<open>error\<close> is reached with \<open>extra\<close> unassigned when the descriptor is refused.\<close>

definition stm32_gpio_get ::
  "'h gpio_hal \<Rightarrow> ptr option \<Rightarrow> no_os_gpio_init_param option \<Rightarrow>
   (('h, 'z) gpio_state_scheme, int \<times> ptr option) cm" where
  "stm32_gpio_get H desc param =
     (case (desc, param) of
        (Some _, Some pr) \<Rightarrow>
          bindm gpio_desc_malloc (\<lambda>descriptor.
          if descriptor = NULL then failm Uninitialised
          else
            bindm gpio_extra_malloc (\<lambda>extra.
            let error = (\<lambda>ret. bindm (gpio_extra_free extra) (\<lambda>_.
                  bindm (gpio_desc_free descriptor) (\<lambda>_. returnm (ret, desc)))) in
            if extra = NULL then error (- ENOMEM)
            else
              bindm (deref gdescs descriptor) (\<lambda>d.
              bindm (modifym (\<lambda>\<sigma>. \<sigma>\<lparr>gdescs := (gdescs \<sigma>)(block_of descriptor \<mapsto> d\<lparr>gd_extra := extra\<rparr>)\<rparr>)) (\<lambda>_.
              bindm (gpio_init H descriptor pr) (\<lambda>ret.
              if ret < 0 then error ret else returnm (0, Some descriptor))))))
      | _ \<Rightarrow> returnm (- EINVAL, desc))"

definition stm32_gpio_get_optional ::
  "'h gpio_hal \<Rightarrow> ptr option \<Rightarrow> no_os_gpio_init_param option \<Rightarrow>
   (('h, 'z) gpio_state_scheme, int \<times> ptr option) cm" where
  "stm32_gpio_get_optional H desc param =
     (if param = None then (case desc of None \<Rightarrow> failm Null_Deref | Some _ \<Rightarrow> returnm (0, Some NULL))
      else stm32_gpio_get H desc param)"

definition stm32_gpio_remove :: "ptr \<Rightarrow> (('h, 'z) gpio_state_scheme, int) cm" where
  "stm32_gpio_remove desc =
     bindm (if desc \<noteq> NULL then bindm (deref gdescs desc) (\<lambda>d. gpio_extra_free (gd_extra d)) else returnm ()) (\<lambda>_.
     bindm (gpio_desc_free desc) (\<lambda>_. returnm 0))"

text \<open>The tests for a null descriptor and a null \<open>extra\<close>.\<close>

definition with_gpio ::
  "ptr \<Rightarrow> (int \<Rightarrow> 'r) \<Rightarrow> (no_os_gpio_desc \<Rightarrow> stm32_gpio_desc \<Rightarrow> (('h, 'z) gpio_state_scheme, 'r) cm) \<Rightarrow>
   (('h, 'z) gpio_state_scheme, 'r) cm" where
  "with_gpio desc code k =
     (if desc = NULL then returnm (code (- EINVAL))
      else bindm (deref gdescs desc) (\<lambda>d.
        if gd_extra d = NULL then returnm (code (- EFAULT))
        else bindm (deref gextras (gd_extra d)) (\<lambda>extra. k d extra)))"

definition stm32_gpio_direction_input :: "'h gpio_hal \<Rightarrow> ptr \<Rightarrow> (('h, 'z) gpio_state_scheme, int) cm" where
  "stm32_gpio_direction_input H desc =
     with_gpio desc (\<lambda>c. c) (\<lambda>d extra.
       let extra = extra\<lparr>gpio_config := (gpio_config extra)\<lparr>Mode := GPIO_MODE_INPUT\<rparr>\<rparr> in
       bindm (modifym (\<lambda>\<sigma>. \<sigma>\<lparr>gextras := (gextras \<sigma>)(block_of (gd_extra d) \<mapsto> extra)\<rparr>)) (\<lambda>_.
       bindm (on_hw (hal_gpio_init H (sg_port extra) (gpio_config extra))) (\<lambda>_. returnm 0)))"

definition stm32_gpio_direction_output :: "'h gpio_hal \<Rightarrow> ptr \<Rightarrow> u8 \<Rightarrow> (('h, 'z) gpio_state_scheme, int) cm" where
  "stm32_gpio_direction_output H desc value =
     with_gpio desc (\<lambda>c. c) (\<lambda>d extra.
       bindm (pin_mask (gd_number d)) (\<lambda>pin.
       bindm (on_hw (hal_write_pin H (sg_port extra) pin value)) (\<lambda>_.
       let extra = (if Mode (gpio_config extra) = GPIO_MODE_INPUT
                    then extra\<lparr>gpio_config := (gpio_config extra)\<lparr>Mode := GPIO_MODE_OUTPUT_PP\<rparr>\<rparr> else extra) in
       bindm (modifym (\<lambda>\<sigma>. \<sigma>\<lparr>gextras := (gextras \<sigma>)(block_of (gd_extra d) \<mapsto> extra)\<rparr>)) (\<lambda>_.
       bindm (on_hw (hal_gpio_init H (sg_port extra) (gpio_config extra))) (\<lambda>_. returnm 0)))))"

definition stm32_gpio_get_direction :: "ptr \<Rightarrow> u8 option \<Rightarrow> (('h, 'z) gpio_state_scheme, int \<times> u8 option) cm" where
  "stm32_gpio_get_direction desc direction =
     (if desc = NULL \<or> direction = None then returnm (- EINVAL, direction)
      else bindm (deref gdescs desc) (\<lambda>d. bindm (deref gextras (gd_extra d)) (\<lambda>extra.
        returnm (0, Some (if Mode (gpio_config extra) = 0 then 0x00 else 0x01)))))"

definition stm32_gpio_set_value :: "'h gpio_hal \<Rightarrow> ptr \<Rightarrow> u8 \<Rightarrow> (('h, 'z) gpio_state_scheme, int) cm" where
  "stm32_gpio_set_value H desc value =
     with_gpio desc (\<lambda>c. c) (\<lambda>d extra.
       bindm (pin_mask (gd_number d)) (\<lambda>pin.
       bindm (on_hw (hal_write_pin H (sg_port extra) pin value)) (\<lambda>_. returnm 0)))"

definition stm32_gpio_get_value :: "'h gpio_hal \<Rightarrow> ptr \<Rightarrow> u8 option \<Rightarrow> (('h, 'z) gpio_state_scheme, int \<times> u8 option) cm" where
  "stm32_gpio_get_value H desc value =
     (if value = None then returnm (- EINVAL, value)
      else with_gpio desc (\<lambda>c. (c, value)) (\<lambda>d extra.
        bindm (pin_mask (gd_number d)) (\<lambda>pin.
        bindm (on_hw (hal_read_pin H (sg_port extra) pin)) (\<lambda>v. returnm (0, Some v)))))"

definition stm32_gpio_ops :: "'h gpio_hal \<Rightarrow> ('h, 'z) gpio_state_scheme gpio_platform_ops" where
  "stm32_gpio_ops H = \<lparr>gpio_ops_get = Some (stm32_gpio_get H),
     gpio_ops_get_optional = Some (stm32_gpio_get_optional H), gpio_ops_remove = Some stm32_gpio_remove,
     gpio_ops_direction_input = Some (stm32_gpio_direction_input H),
     gpio_ops_direction_output = Some (stm32_gpio_direction_output H),
     gpio_ops_get_direction = Some stm32_gpio_get_direction,
     gpio_ops_set_value = Some (stm32_gpio_set_value H), gpio_ops_get_value = Some (stm32_gpio_get_value H)\<rparr>"

end
