(* ===== verification/Float_Round.thy ===== *)
theory Float_Round
  imports Prelude "HOL-Library.Log_Nat"
begin

text \<open>
  Floating-point arithmetic as the code uses it: the values are non-negative rational numbers,
  and each operation is the exact one followed by rounding to the nearest number with 24
  (\<open>float\<close>) or 53 (\<open>double\<close>) significant bits, ties to even. Exponents stay far inside
  their range for the values that arise from 32-bit integers, so neither overflow nor
  subnormal numbers occur; division by zero is treated where it is used.
\<close>

section \<open>The exponent\<close>

definition ilog2 :: "rat \<Rightarrow> int" where
  "ilog2 x =
     (let (n, d) = quotient_of x; k = int (floorlog 2 (nat n)) - int (floorlog 2 (nat d)) in
      if 2 powi k \<le> x then k else k - 1)"

lemma floorlog_rat:
  assumes "0 < n"
  shows "2 powi (int (floorlog 2 (nat n)) - 1) \<le> (of_int n :: rat)" "(of_int n :: rat) < 2 powi int (floorlog 2 (nat n))"
proof -
  let ?a = "floorlog 2 (nat n)"
  have "2 ^ (?a - 1) \<le> nat n" "nat n < 2 ^ ?a" using floorlog_bounds[of "nat n" 2] assms by simp_all
  moreover have "0 < ?a" using assms by (simp add: floorlog_def)
  ultimately have "(2 :: int) ^ (?a - 1) \<le> n" "n < 2 ^ ?a" "int (?a - 1) = int ?a - 1"
    using assms by (simp_all add: le_nat_iff nat_less_iff)
  then show "2 powi (int ?a - 1) \<le> (of_int n :: rat)" "(of_int n :: rat) < 2 powi int ?a"
    by (metis of_int_le_iff of_int_power of_int_numeral power_int_of_nat,
        metis of_int_less_iff of_int_power of_int_numeral power_int_of_nat)
qed

lemma ilog2_bounds:
  assumes "0 < x"
  shows "2 powi ilog2 x \<le> x" "x < 2 powi (ilog2 x + 1)"
proof -
  obtain n d where q: "quotient_of x = (n, d)" by fastforce
  have x: "x = of_int n / of_int d" "0 < d" using quotient_of_div[OF q] quotient_of_denom_pos[OF q] .
  with assms have n: "0 < n" by (simp add: zero_less_divide_iff)
  let ?a = "int (floorlog 2 (nat n))" and ?b = "int (floorlog 2 (nat d))"
  note fn = floorlog_rat[OF n] and fd = floorlog_rat[OF x(2)]
  have "x < 2 powi ?a / 2 powi (?b - 1)"
    unfolding x(1) using fn fd x(2) n by (intro frac_less) auto
  also have "\<dots> = 2 powi (?a - (?b - 1))" by (rule power_int_diff[symmetric]) simp
  finally have hi: "x < 2 powi (?a - ?b + 1)" by (simp add: algebra_simps)
  have "2 powi ((?a - 1) - ?b) = (2 powi (?a - 1) / 2 powi ?b :: rat)" by (rule power_int_diff) simp
  also have "\<dots> < x"
    unfolding x(1) using fn fd x(2) n by (intro frac_less2) auto
  finally have lo: "2 powi (?a - ?b - 1) < x" by (simp add: algebra_simps)
  show "2 powi ilog2 x \<le> x" "x < 2 powi (ilog2 x + 1)"
    using hi lo by (simp_all add: ilog2_def q Let_def)
qed

lemma ilog2_eq:
  assumes "2 powi e \<le> x" and "x < 2 powi (e + 1)"
  shows "ilog2 x = e"
proof -
  have "0 < x" using assms(1) by (meson less_le_trans zero_less_power_int zero_less_numeral)
  note b = ilog2_bounds[OF this]
  have "(2 :: rat) powi e < 2 powi (ilog2 x + 1)" "(2 :: rat) powi ilog2 x < 2 powi (e + 1)" using assms b by linarith+
  then have "e < ilog2 x + 1" "ilog2 x < e + 1"
    by (meson linorder_not_less one_le_numeral power_int_increasing)+
  then show ?thesis by simp
qed

section \<open>Rounding\<close>

definition rne :: "rat \<Rightarrow> int" where
  "rne y =
     (let n = \<lfloor>y\<rfloor>; r = y - of_int n in
      if r < 1/2 then n else if 1/2 < r then n + 1 else if even n then n else n + 1)"

lemma rne_error: "\<bar>of_int (rne y) - y\<bar> \<le> 1/2"
proof -
  have "of_int \<lfloor>y\<rfloor> \<le> y" "y < of_int \<lfloor>y\<rfloor> + 1" by linarith+
  then show ?thesis unfolding rne_def Let_def by (auto split: if_split)
qed

lemma rne_eq:
  assumes "of_int n - 1/2 < y" and "y < of_int n + 1/2"
  shows "rne y = n"
proof -
  have "\<bar>of_int (rne y) - (of_int n :: rat)\<bar> < 1" using rne_error[of y] assms by linarith
  then show ?thesis by linarith
qed

definition rnd :: "nat \<Rightarrow> rat \<Rightarrow> rat" where
  "rnd p x = (if x \<le> 0 then 0 else let u = 2 powi (ilog2 x - (int p - 1)) in of_int (rne (x / u)) * u)"

abbreviation "fl32 \<equiv> rnd 24"
abbreviation "fl64 \<equiv> rnd 53"

lemma rnd_bounds:
  assumes "0 < x"
  shows "(1 - 1 / 2 ^ p) * x \<le> rnd p x" "rnd p x \<le> (1 + 1 / 2 ^ p) * x"
proof -
  define u :: rat where "u = 2 powi (ilog2 x - (int p - 1))"
  have u: "0 < u" by (simp add: u_def)
  have r: "rnd p x = of_int (rne (x / u)) * u" using assms by (simp add: rnd_def u_def Let_def)
  have "u = 2 * (2 powi ilog2 x) / 2 ^ p"
    by (simp add: u_def power_int_diff power_int_add)
  then have half: "u / 2 \<le> x / 2 ^ p" using ilog2_bounds(1)[OF assms] by (simp add: divide_right_mono)
  have "rnd p x - x = (of_int (rne (x / u)) - x / u) * u" using u by (simp add: r algebra_simps)
  then have "\<bar>rnd p x - x\<bar> = \<bar>of_int (rne (x / u)) - x / u\<bar> * u" using u by (simp add: abs_mult)
  also have "\<dots> \<le> 1/2 * u" by (rule mult_right_mono[OF rne_error]) (use u in simp)
  also have "\<dots> \<le> x / 2 ^ p" using half by simp
  finally have "\<bar>rnd p x - x\<bar> \<le> x / 2 ^ p" .
  then show "(1 - 1 / 2 ^ p) * x \<le> rnd p x" "rnd p x \<le> (1 + 1 / 2 ^ p) * x"
    by (simp_all add: abs_le_iff algebra_simps)
qed

lemma rnd_pos:
  assumes "0 < x" and "1 < p"
  shows "0 < rnd p x"
proof -
  have "(1 :: rat) < 2 ^ p" using assms(2) by simp
  then have "0 < (1 - 1 / 2 ^ p) * x" using assms(1) by simp
  then show ?thesis using rnd_bounds(1)[OF assms(1), of p] by linarith
qed

text \<open>Rounding a number whose exponent is known.\<close>

lemma rnd_eval:
  assumes "2 powi e \<le> x" and "x < 2 powi (e + 1)"
  shows "rnd p x = of_int (rne (x / 2 powi (e - (int p - 1)))) * 2 powi (e - (int p - 1))"
proof -
  have "0 < x" using assms(1) by (meson less_le_trans zero_less_power_int zero_less_numeral)
  then show ?thesis by (simp add: rnd_def ilog2_eq[OF assms] Let_def)
qed

lemma rnd_value:
  assumes "2 powi e \<le> x" and "x < 2 powi (e + 1)" and "u = 2 powi (e - (int p - 1))"
    and "of_int n - 1/2 < x / u" and "x / u < of_int n + 1/2"
  shows "rnd p x = of_int n * u"
  using rnd_eval[OF assms(1,2), of p] rne_eq[OF assms(4,5)] assms(3) by simp

text \<open>A product of which one factor has been rounded: two relative errors.\<close>

lemma rounded_product:
  assumes "0 \<le> n" and "0 \<le> a"
  defines "z \<equiv> fl64 (n * fl64 a)"
  shows "\<bar>z - n * a\<bar> \<le> n * a / 2 ^ 51" and "0 \<le> z"
proof -
  define d y x :: rat where "d = 1 / 2 ^ 53" and "y = fl64 a" and "x = n * a"
  have d: "0 \<le> 1 - d" "0 \<le> 1 + d" by (simp_all add: d_def)
  have "\<bar>z - x\<bar> \<le> x / 2 ^ 51 \<and> 0 \<le> z"
  proof (cases "n = 0 \<or> a = 0")
    case True
    then show ?thesis by (auto simp: z_def x_def rnd_def)
  next
    case False
    then have a: "0 < a" and n': "0 < n" using assms(1,2) by simp_all
    have y: "0 < y" "(1 - d) * a \<le> y" "y \<le> (1 + d) * a"
      using a rnd_pos[of a 53] rnd_bounds[of a 53] by (simp_all add: y_def d_def)
    have n: "0 < n * y" using n' y(1) by simp
    have z: "(1 - d) * (n * y) \<le> z" "z \<le> (1 + d) * (n * y)" "0 < z"
      using rnd_bounds[OF n, of 53] rnd_pos[OF n, of 53] by (simp_all add: z_def y_def d_def)
    have "(1 - d) * x \<le> n * y" "n * y \<le> (1 + d) * x"
      using mult_left_mono[OF y(2) assms(1)] mult_left_mono[OF y(3) assms(1)] by (simp_all only: x_def mult.left_commute)
    then have "(1 - d) * ((1 - d) * x) \<le> (1 - d) * (n * y)" "(1 + d) * (n * y) \<le> (1 + d) * ((1 + d) * x)"
      using d by (auto intro: mult_left_mono)
    then have "(1 - d) * ((1 - d) * x) \<le> z" "z \<le> (1 + d) * ((1 + d) * x)" using z by linarith+
    moreover have "0 \<le> x" using n' a by (simp add: x_def)
    have "1 - 1 / 2 ^ 51 \<le> (1 - d) * (1 - d)" "(1 + d) * (1 + d) \<le> 1 + 1 / 2 ^ 51" by (simp_all add: d_def)
    note this[THEN mult_left_mono, OF \<open>0 \<le> x\<close>]
    ultimately have "x * (1 - 1 / 2 ^ 51) \<le> z" "z \<le> x * (1 + 1 / 2 ^ 51)" by (simp_all only: mult.assoc mult.commute mult.left_commute)
    then have "z - x \<le> x / 2 ^ 51" "x - z \<le> x / 2 ^ 51" by (simp_all add: algebra_simps)
    then show ?thesis using z(3) by linarith
  qed
  then show "\<bar>z - n * a\<bar> \<le> n * a / 2 ^ 51" "0 \<le> z" by (simp_all add: x_def)
qed

section \<open>Conversion to integers\<close>

text \<open>\<open>(uint32_t)x\<close>: undefined unless the truncated value fits.\<close>

definition to_u32 :: "rat \<Rightarrow> ('s, u32) cm" where
  "to_u32 x = (if 0 \<le> x \<and> x < 2 ^ 32 then returnm (of_int \<lfloor>x\<rfloor>) else failm Bad_Cast)"

lemma unat_of_floor:
  assumes "0 \<le> z" and "z < 2 ^ 32"
  shows "int (unat (of_int \<lfloor>z\<rfloor> :: u32)) = \<lfloor>z\<rfloor>"
  using assms by (simp add: floor_less_iff uint_word_of_int_eq take_bit_int_eq_self)

lemma to_u32_run:
  assumes "0 \<le> z" and "z < 2 ^ 32"
  shows "\<exists>w. to_u32 z \<sigma> = Inr (w, \<sigma>) \<and> int (unat w) = \<lfloor>z\<rfloor>"
  using assms by (intro exI[of _ "of_int \<lfloor>z\<rfloor>"] conjI unat_of_floor) (simp_all add: to_u32_def run_simps)

end
