(* ===== verification/NoOs_Pwm.thy ===== *)
theory NoOs_Pwm
  imports NoOs_Irq NoOs_Gpio Float_Round
begin

text \<open>
  PWM generators: the generic interface of no-OS (\<open>api/no_os_pwm.c\<close>). A static table holds one
  mutex for each number of a generator; enabling takes it, disabling gives it back. A table of
  operations is named by its address, and a parameter \<open>T\<close> maps addresses to tables; an
  output parameter is \<open>None\<close> when the caller passes \<open>NULL\<close>.
\<close>

section \<open>State\<close>

text \<open>\<open>POLARITY_OTHER\<close> stands for the values of the enumeration type that name no constant.\<close>

datatype no_os_pwm_polarity = NO_OS_PWM_POLARITY_HIGH | NO_OS_PWM_POLARITY_LOW | POLARITY_OTHER

record no_os_pwm_init_param =
  pp_id :: u32
  pp_period_ns :: u32
  pp_duty_cycle_ns :: u32
  pp_phase_ns :: u32
  pp_polarity :: no_os_pwm_polarity
  pp_pwm_gpio :: "no_os_gpio_init_param option"
  pp_irq_id :: u32
  pp_pwm_callback :: "nat option"
  pp_platform_ops :: "nat option"
  pp_extra :: ptr

record no_os_pwm_desc =
  pd_mutex :: ptr
  pd_id :: u32
  pd_period_ns :: u32
  pd_duty_cycle_ns :: u32
  pd_phase_ns :: u32
  pd_polarity :: no_os_pwm_polarity
  pd_enabled :: bool
  pd_pwm_gpio :: ptr
  pd_irq_id :: u32
  pd_pwm_callback :: "nat option"
  pd_platform_ops :: "nat option"
  pd_extra :: ptr

record pwm_state = irq_state +
  pdescs :: "nat \<Rightarrow> no_os_pwm_desc option"
  pwm_mutex_table :: "ptr list"

definition PWM_MAX_NUMBER :: nat where "PWM_MAX_NUMBER = 4"

record 's pwm_platform_ops =
  pwm_ops_init :: "(ptr option \<Rightarrow> no_os_pwm_init_param \<Rightarrow> ('s, int \<times> ptr option) cm) option"
  pwm_ops_enable :: "(ptr \<Rightarrow> ('s, int) cm) option"
  pwm_ops_disable :: "(ptr \<Rightarrow> ('s, int) cm) option"
  pwm_ops_set_period :: "(ptr \<Rightarrow> u32 \<Rightarrow> ('s, int) cm) option"
  pwm_ops_get_period :: "(ptr \<Rightarrow> u32 option \<Rightarrow> ('s, int \<times> u32 option) cm) option"
  pwm_ops_set_duty_cycle :: "(ptr \<Rightarrow> u32 \<Rightarrow> ('s, int) cm) option"
  pwm_ops_get_duty_cycle :: "(ptr \<Rightarrow> u32 option \<Rightarrow> ('s, int \<times> u32 option) cm) option"
  pwm_ops_set_phase :: "(ptr \<Rightarrow> u32 \<Rightarrow> ('s, int) cm) option"
  pwm_ops_get_phase :: "(ptr \<Rightarrow> u32 option \<Rightarrow> ('s, int \<times> u32 option) cm) option"
  pwm_ops_set_polarity :: "(ptr \<Rightarrow> no_os_pwm_polarity \<Rightarrow> ('s, int) cm) option"
  pwm_ops_get_polarity :: "(ptr \<Rightarrow> no_os_pwm_polarity option \<Rightarrow> ('s, int \<times> no_os_pwm_polarity option) cm) option"
  pwm_ops_remove :: "(ptr \<Rightarrow> ('s, int) cm) option"

type_synonym 'z pwm_tables = "nat \<Rightarrow> 'z pwm_state_scheme pwm_platform_ops"

section \<open>Access\<close>

definition put_pdesc :: "ptr \<Rightarrow> (no_os_pwm_desc \<Rightarrow> no_os_pwm_desc) \<Rightarrow> ('z pwm_state_scheme, unit) cm" where
  "put_pdesc p f =
     bindm (deref pdescs p) (\<lambda>d. modifym (\<lambda>\<sigma>. \<sigma>\<lparr>pdescs := (pdescs \<sigma>)(block_of p \<mapsto> f d)\<rparr>))"

text \<open>\<open>pwm_mutex_table[id]\<close>\<close>

definition pwm_table_get :: "u32 \<Rightarrow> ('z pwm_state_scheme, ptr) cm" where
  "pwm_table_get i \<sigma> = (if unat i < length (pwm_mutex_table \<sigma>) then Inr (pwm_mutex_table \<sigma> ! unat i, \<sigma>) else Inl Out_Of_Bounds)"

definition pwm_table_put :: "u32 \<Rightarrow> ptr \<Rightarrow> ('z pwm_state_scheme, unit) cm" where
  "pwm_table_put i m \<sigma> =
     (if unat i < length (pwm_mutex_table \<sigma>) then Inr ((), \<sigma>\<lparr>pwm_mutex_table := (pwm_mutex_table \<sigma>)[unat i := m]\<rparr>)
      else Inl Out_Of_Bounds)"

text \<open>The tests all operations but the first make.\<close>

definition pwm_call ::
  "'z pwm_tables \<Rightarrow> ptr \<Rightarrow> ('z pwm_state_scheme pwm_platform_ops \<Rightarrow> 'f option) \<Rightarrow> (int \<Rightarrow> 'r) \<Rightarrow>
   (no_os_pwm_desc \<Rightarrow> 'f \<Rightarrow> ('z pwm_state_scheme, 'r) cm) \<Rightarrow> ('z pwm_state_scheme, 'r) cm" where
  "pwm_call T desc sel code k =
     (if desc = NULL then returnm (code (- EINVAL))
      else
        bindm (deref pdescs desc) (\<lambda>d.
        case pd_platform_ops d of None \<Rightarrow> returnm (code (- EINVAL)) | Some ops \<Rightarrow>
        case sel (T ops) of None \<Rightarrow> returnm (code (- ENOSYS)) | Some f \<Rightarrow> k d f))"

section \<open>Operations\<close>

definition no_os_pwm_init ::
  "'z pwm_tables \<Rightarrow> ptr option \<Rightarrow> no_os_pwm_init_param option \<Rightarrow> ('z pwm_state_scheme, int \<times> ptr option) cm" where
  "no_os_pwm_init T desc param =
     (case param of None \<Rightarrow> returnm (- EINVAL, desc) | Some pr \<Rightarrow>
      case pp_platform_ops pr of None \<Rightarrow> returnm (- EINVAL, desc) | Some ops \<Rightarrow>
      case pwm_ops_init (T ops) of None \<Rightarrow> returnm (- ENOSYS, desc) | Some f \<Rightarrow>
      bindm (f desc pr) (\<lambda>(ret, desc).
      if ret \<noteq> 0 then returnm (ret, desc)
      else
        case desc of None \<Rightarrow> failm Null_Deref | Some p \<Rightarrow>
        bindm (put_pdesc p (\<lambda>d. d\<lparr>pd_platform_ops := Some ops\<rparr>)) (\<lambda>_.
        bindm (pwm_table_get (pp_id pr)) (\<lambda>m.
        bindm (no_os_mutex_init m) (\<lambda>m.
        bindm (pwm_table_put (pp_id pr) m) (\<lambda>_.
        bindm (put_pdesc p (\<lambda>d. d\<lparr>pd_mutex := m\<rparr>)) (\<lambda>_. returnm (0, desc))))))))"

definition no_os_pwm_remove :: "'z pwm_tables \<Rightarrow> ptr \<Rightarrow> ('z pwm_state_scheme, int) cm" where
  "no_os_pwm_remove T desc =
     pwm_call T desc pwm_ops_remove (\<lambda>c. c) (\<lambda>d f.
       bindm (no_os_mutex_remove (pd_mutex d)) (\<lambda>_.
       bindm (pwm_table_put (pd_id d) NULL) (\<lambda>_. f desc)))"

definition no_os_pwm_enable :: "'z pwm_tables \<Rightarrow> ptr \<Rightarrow> ('z pwm_state_scheme, int) cm" where
  "no_os_pwm_enable T desc =
     pwm_call T desc pwm_ops_enable (\<lambda>c. c) (\<lambda>d f. bindm (no_os_mutex_lock (pd_mutex d)) (\<lambda>_. f desc))"

definition no_os_pwm_disable :: "'z pwm_tables \<Rightarrow> ptr \<Rightarrow> ('z pwm_state_scheme, int) cm" where
  "no_os_pwm_disable T desc =
     pwm_call T desc pwm_ops_disable (\<lambda>c. c) (\<lambda>d f. bindm (no_os_mutex_unlock (pd_mutex d)) (\<lambda>_. f desc))"

definition no_os_pwm_set_period :: "'z pwm_tables \<Rightarrow> ptr \<Rightarrow> u32 \<Rightarrow> ('z pwm_state_scheme, int) cm" where
  "no_os_pwm_set_period T desc period_ns = pwm_call T desc pwm_ops_set_period (\<lambda>c. c) (\<lambda>d f. f desc period_ns)"

definition no_os_pwm_get_period ::
  "'z pwm_tables \<Rightarrow> ptr \<Rightarrow> u32 option \<Rightarrow> ('z pwm_state_scheme, int \<times> u32 option) cm" where
  "no_os_pwm_get_period T desc period_ns =
     pwm_call T desc pwm_ops_get_period (\<lambda>c. (c, period_ns)) (\<lambda>d f. f desc period_ns)"

definition no_os_pwm_set_duty_cycle :: "'z pwm_tables \<Rightarrow> ptr \<Rightarrow> u32 \<Rightarrow> ('z pwm_state_scheme, int) cm" where
  "no_os_pwm_set_duty_cycle T desc duty_cycle_ns =
     pwm_call T desc pwm_ops_set_duty_cycle (\<lambda>c. c) (\<lambda>d f. f desc duty_cycle_ns)"

definition no_os_pwm_get_duty_cycle ::
  "'z pwm_tables \<Rightarrow> ptr \<Rightarrow> u32 option \<Rightarrow> ('z pwm_state_scheme, int \<times> u32 option) cm" where
  "no_os_pwm_get_duty_cycle T desc duty_cycle_ns =
     pwm_call T desc pwm_ops_get_duty_cycle (\<lambda>c. (c, duty_cycle_ns)) (\<lambda>d f. f desc duty_cycle_ns)"

definition no_os_pwm_set_phase :: "'z pwm_tables \<Rightarrow> ptr \<Rightarrow> u32 \<Rightarrow> ('z pwm_state_scheme, int) cm" where
  "no_os_pwm_set_phase T desc phase_ns = pwm_call T desc pwm_ops_set_phase (\<lambda>c. c) (\<lambda>d f. f desc phase_ns)"

definition no_os_pwm_get_phase ::
  "'z pwm_tables \<Rightarrow> ptr \<Rightarrow> u32 option \<Rightarrow> ('z pwm_state_scheme, int \<times> u32 option) cm" where
  "no_os_pwm_get_phase T desc phase_ns =
     pwm_call T desc pwm_ops_get_phase (\<lambda>c. (c, phase_ns)) (\<lambda>d f. f desc phase_ns)"

definition no_os_pwm_set_polarity :: "'z pwm_tables \<Rightarrow> ptr \<Rightarrow> no_os_pwm_polarity \<Rightarrow> ('z pwm_state_scheme, int) cm" where
  "no_os_pwm_set_polarity T desc polarity = pwm_call T desc pwm_ops_set_polarity (\<lambda>c. c) (\<lambda>d f. f desc polarity)"

definition no_os_pwm_get_polarity ::
  "'z pwm_tables \<Rightarrow> ptr \<Rightarrow> no_os_pwm_polarity option \<Rightarrow> ('z pwm_state_scheme, int \<times> no_os_pwm_polarity option) cm" where
  "no_os_pwm_get_polarity T desc polarity =
     pwm_call T desc pwm_ops_get_polarity (\<lambda>c. (c, polarity)) (\<lambda>d f. f desc polarity)"

end
