(* ===== verification/Stm32_Pwm.thy ===== *)
theory Stm32_Pwm
  imports NoOs_Pwm
begin

text \<open>
  The PWM platform for the STM32 (\<open>stm32_pwm.c\<close>): a generator is a timer of the HAL. The HAL
  calls, the accesses to the registers of the timer and the clock of the timer act on a state
  \<open>thw\<close> and are a record of operations; interrupts go through \<open>NoOs_Irq\<close>, pins through
  \<open>NoOs_Gpio\<close>. The
  floating-point computations are those of the code, over \<open>Float_Round\<close>.
\<close>

section \<open>State\<close>

text \<open>The last constructor of each stands for the values that name no constant.\<close>

datatype TimOCMode = TIM_OC_TOGGLE | TIM_OC_PWM1 | TIM_OC_PWM2 | OCMODE_OTHER

datatype stm32_pwm_trigger = PWM_TS_ITR0 | PWM_TS_ITR1 | PWM_TS_ITR2 | PWM_TS_ITR3 | PWM_TS_OTHER

datatype stm32_pwm_trigger_out =
  PWM_TRGO_RESET | PWM_TRGO_ENABLE | PWM_TRGO_UPDATE | PWM_TRGO_OC1 | PWM_TRGO_OC1REF | PWM_TRGO_OC2REF
| PWM_TRGO_OC3REF | PWM_TRGO_OC4REF | PWM_TRGO_OTHER

record stm32_pwm_init_param =
  ti_prescaler :: u32
  ti_timer_autoreload :: bool
  ti_mode :: TimOCMode
  ti_timer_chn :: u32
  ti_complementary_channel :: bool
  ti_get_timer_clock :: "nat option"
  ti_clock_divider :: u32
  ti_trigger_enable :: bool
  ti_trigger_source :: stm32_pwm_trigger
  ti_trigger_output :: stm32_pwm_trigger_out
  ti_onepulse_enable :: bool
  ti_repetitions :: u32
  ti_dma_enable :: bool
  ti_timer_callback :: no_os_callback_desc

text \<open>A timer \<open>TIM1\<close> to \<open>TIM8\<close> is named by its number, no timer by 0.\<close>

record TIM_HandleTypeDef =
  tim_Instance :: nat
  tim_Prescaler :: u32
  tim_CounterMode :: u32
  tim_Period :: u32
  tim_ClockDivision :: u32
  tim_AutoReloadPreload :: u32
  tim_RepetitionCounter :: u32
  tim_State :: u32

record TIM_OC_InitTypeDef =
  OCMode :: u32
  Pulse :: u32
  OCPolarity :: u32
  OCFastMode :: u32
  OCIdleState :: u32
  OCNIdleState :: u32

record stm32_pwm_desc =
  htimer :: TIM_HandleTypeDef
  td_gpio :: ptr
  td_prescaler :: u32
  td_timer_autoreload :: bool
  td_mode :: TimOCMode
  td_timer_chn :: u32
  td_complementary_channel :: bool
  td_get_timer_clock :: "nat option"
  td_clock_divider :: u32
  nvic_tim :: ptr
  td_timer_callback :: no_os_callback_desc
  td_repetitions :: u32
  td_dma_enable :: bool

record 'h stm32_pwm_state = pwm_state +
  pwm_extras :: "nat \<Rightarrow> stm32_pwm_desc option"
  pwm_sparams :: "nat \<Rightarrow> stm32_pwm_init_param option"
  pin_descs :: "nat \<Rightarrow> no_os_gpio_desc option"
  pin_extras :: "nat \<Rightarrow> stm32_gpio_desc option"
  thw :: 'h

text \<open>The calls of the HAL say whether they return \<open>HAL_OK\<close>.\<close>

record 'h tim_hal =
  HAL_TIM_Base_Init :: "TIM_HandleTypeDef \<Rightarrow> 'h \<Rightarrow> bool \<times> 'h"
  HAL_TIM_ConfigClockSource :: "TIM_HandleTypeDef \<Rightarrow> u32 \<Rightarrow> 'h \<Rightarrow> bool \<times> 'h"
  HAL_TIM_PWM_Init :: "TIM_HandleTypeDef \<Rightarrow> 'h \<Rightarrow> bool \<times> 'h"
  HAL_TIM_OnePulse_Init :: "TIM_HandleTypeDef \<Rightarrow> u32 \<Rightarrow> 'h \<Rightarrow> bool \<times> 'h"
  HAL_TIM_SlaveConfigSynchro :: "TIM_HandleTypeDef \<Rightarrow> u32 \<Rightarrow> u32 \<Rightarrow> 'h \<Rightarrow> bool \<times> 'h"
  HAL_TIMEx_MasterConfigSynchronization :: "TIM_HandleTypeDef \<Rightarrow> u32 \<Rightarrow> u32 \<Rightarrow> 'h \<Rightarrow> bool \<times> 'h"
  HAL_TIM_PWM_ConfigChannel :: "TIM_HandleTypeDef \<Rightarrow> TIM_OC_InitTypeDef \<Rightarrow> u32 \<Rightarrow> 'h \<Rightarrow> bool \<times> 'h"
  HAL_TIM_Base_DeInit :: "TIM_HandleTypeDef \<Rightarrow> 'h \<Rightarrow> bool \<times> 'h"
  HAL_TIM_PWM_DeInit :: "TIM_HandleTypeDef \<Rightarrow> 'h \<Rightarrow> bool \<times> 'h"
  HAL_TIM_PWM_Start :: "TIM_HandleTypeDef \<Rightarrow> u32 \<Rightarrow> 'h \<Rightarrow> bool \<times> 'h"
  HAL_TIM_PWM_Start_IT :: "TIM_HandleTypeDef \<Rightarrow> u32 \<Rightarrow> 'h \<Rightarrow> bool \<times> 'h"
  HAL_TIMEx_PWMN_Start :: "TIM_HandleTypeDef \<Rightarrow> u32 \<Rightarrow> 'h \<Rightarrow> bool \<times> 'h"
  HAL_TIMEx_PWMN_Start_IT :: "TIM_HandleTypeDef \<Rightarrow> u32 \<Rightarrow> 'h \<Rightarrow> bool \<times> 'h"
  HAL_TIM_PWM_Stop :: "TIM_HandleTypeDef \<Rightarrow> u32 \<Rightarrow> 'h \<Rightarrow> bool \<times> 'h"
  HAL_TIMEx_PWMN_Stop :: "TIM_HandleTypeDef \<Rightarrow> u32 \<Rightarrow> 'h \<Rightarrow> bool \<times> 'h"
  write_CNT :: "nat \<Rightarrow> u32 \<Rightarrow> 'h \<Rightarrow> 'h"
  write_RCR :: "nat \<Rightarrow> u32 \<Rightarrow> 'h \<Rightarrow> 'h"
  or_EGR :: "nat \<Rightarrow> u32 \<Rightarrow> 'h \<Rightarrow> 'h"
  or_DIER :: "nat \<Rightarrow> u32 \<Rightarrow> 'h \<Rightarrow> 'h"
  clear_DIER :: "nat \<Rightarrow> u32 \<Rightarrow> 'h \<Rightarrow> 'h"
  timer_clock :: "nat \<Rightarrow> 'h \<Rightarrow> u32 \<times> 'h"

abbreviation (input) "sizeof_no_os_pwm_desc \<equiv> 44 :: nat"
abbreviation (input) "sizeof_stm32_pwm_desc \<equiv> 132 :: nat"

definition PWM_DEFAULT_PERIOD :: u32 where "PWM_DEFAULT_PERIOD = 0xffff"

definition NO_OS_CHN_TO_STM32_CHN :: "u32 \<Rightarrow> u32" where "NO_OS_CHN_TO_STM32_CHN x = 4 * (x - 1)"

section \<open>Access\<close>

definition on_thw :: "('h \<Rightarrow> 'a \<times> 'h) \<Rightarrow> (('h, 'z) stm32_pwm_state_scheme, 'a) cm" where
  "on_thw f =
     bindm (getm (\<lambda>\<sigma>. f (thw \<sigma>))) (\<lambda>(a, h). bindm (modifym (\<lambda>\<sigma>. \<sigma>\<lparr>thw := h\<rparr>)) (\<lambda>_. returnm a))"

definition reg_write :: "('h \<Rightarrow> 'h) \<Rightarrow> (('h, 'z) stm32_pwm_state_scheme, unit) cm" where
  "reg_write f = modifym (\<lambda>\<sigma>. \<sigma>\<lparr>thw := f (thw \<sigma>)\<rparr>)"

text \<open>\<open>if (f != HAL_OK) return -EIO;\<close>\<close>

definition hal_ok ::
  "('h \<Rightarrow> bool \<times> 'h) \<Rightarrow> (('h, 'z) stm32_pwm_state_scheme, int) cm \<Rightarrow> (('h, 'z) stm32_pwm_state_scheme, int) cm" where
  "hal_ok f k = bindm (on_thw f) (\<lambda>ok. if ok then k else returnm (- EIO))"

definition put_extra :: "ptr \<Rightarrow> (stm32_pwm_desc \<Rightarrow> stm32_pwm_desc) \<Rightarrow> (('h, 'z) stm32_pwm_state_scheme, unit) cm" where
  "put_extra p f =
     bindm (deref pwm_extras p) (\<lambda>x. modifym (\<lambda>\<sigma>. \<sigma>\<lparr>pwm_extras := (pwm_extras \<sigma>)(block_of p \<mapsto> f x)\<rparr>))"

text \<open>The functions on pins run on the part of the state they know.\<close>

definition pin_view :: "('h, 'z) stm32_pwm_state_scheme \<Rightarrow> 'h gpio_state" where
  "pin_view \<sigma> = \<lparr>blocks = blocks \<sigma>, next_block = next_block \<sigma>, grants = grants \<sigma>, junk = junk \<sigma>, sems = sems \<sigma>,
     handle_cells = handle_cells \<sigma>, gdescs = pin_descs \<sigma>, gextras = pin_extras \<sigma>, hw = thw \<sigma>\<rparr>"

definition on_pins :: "('h gpio_state, 'a) cm \<Rightarrow> (('h, 'z) stm32_pwm_state_scheme, 'a) cm" where
  "on_pins f \<sigma> =
     (case f (pin_view \<sigma>) of
        Inl e \<Rightarrow> Inl e
      | Inr (a, \<pi>) \<Rightarrow> Inr (a, \<sigma>\<lparr>blocks := blocks \<pi>, next_block := next_block \<pi>, grants := grants \<pi>, junk := junk \<pi>,
          sems := sems \<pi>, handle_cells := handle_cells \<pi>, pin_descs := gdescs \<pi>, pin_extras := gextras \<pi>,
          thw := hw \<pi>\<rparr>))"

type_synonym 'h pin_tables = "nat \<Rightarrow> 'h gpio_state gpio_platform_ops"

section \<open>The timer\<close>

definition udiv32 :: "u32 \<Rightarrow> u32 \<Rightarrow> ('s, u32) cm" where
  "udiv32 a b = (if b = 0 then failm Div_By_Zero else returnm (a div b))"

text \<open>For a period of 0 the quotient \<open>1.0 / period_ns\<close> is infinite and the number of ticks 0.\<close>

definition compute_period_ticks :: "u32 \<Rightarrow> u32 \<Rightarrow> ('s, u32) cm" where
  "compute_period_ticks timer_clk_hz period_ns =
     (if period_ns = 0 then returnm (0 - 1)
      else
        let pwm_frequency = fl32 (fl64 (1 / of_nat (unat period_ns))) in
        bindm (to_u32 (fl64 (of_nat (unat timer_clk_hz) / fl64 (pwm_frequency * 1000000000)))) (\<lambda>p. returnm (p - 1)))"

definition trigger_input :: "stm32_pwm_trigger \<Rightarrow> u32 option" where
  "trigger_input t =
     (case t of PWM_TS_ITR0 \<Rightarrow> Some 0 | PWM_TS_ITR1 \<Rightarrow> Some 0x10 | PWM_TS_ITR2 \<Rightarrow> Some 0x20 | PWM_TS_ITR3 \<Rightarrow> Some 0x30
      | PWM_TS_OTHER \<Rightarrow> None)"

definition trigger_output :: "stm32_pwm_trigger_out \<Rightarrow> u32" where
  "trigger_output t =
     (case t of PWM_TRGO_RESET \<Rightarrow> 0 | PWM_TRGO_ENABLE \<Rightarrow> 0x10 | PWM_TRGO_UPDATE \<Rightarrow> 0x20 | PWM_TRGO_OC1 \<Rightarrow> 0x30
      | PWM_TRGO_OC1REF \<Rightarrow> 0x40 | PWM_TRGO_OC2REF \<Rightarrow> 0x50 | PWM_TRGO_OC3REF \<Rightarrow> 0x60 | PWM_TRGO_OC4REF \<Rightarrow> 0x70
      | PWM_TRGO_OTHER \<Rightarrow> 0)"

definition timer_period ::
  "'h tim_hal \<Rightarrow> stm32_pwm_init_param \<Rightarrow> u32 \<Rightarrow> (('h, 'z) stm32_pwm_state_scheme, u32) cm" where
  "timer_period H s period_ns =
     (case ti_get_timer_clock s of
        None \<Rightarrow> returnm (PWM_DEFAULT_PERIOD - 1)
      | Some f \<Rightarrow>
          bindm (on_thw (timer_clock H f)) (\<lambda>hz.
          bindm (udiv32 (hz * ti_clock_divider s) (ti_prescaler s + 1)) (\<lambda>hz. compute_period_ticks hz period_ns)))"

type_synonym ('h, 'z, 'x) timer_irqs = "nat \<Rightarrow> (('h, 'z) stm32_pwm_state_scheme, 'x) irq_platform_ops"

text \<open>Addresses of objects where the code stores them as numbers: of \<open>stm32_irq_ops\<close>, which no file of
  the repository defines, of the member \<open>param->pwm_callback\<close>, of a descriptor and of its handle.\<close>

record pwm_addresses =
  irq_ops_adr :: nat
  callback_adr :: nat
  desc_adr :: "ptr \<Rightarrow> nat"
  htimer_adr :: "ptr \<Rightarrow> nat"

text \<open>The callback registered is the address of the member that holds the function.\<close>

definition timer_interrupt ::
  "('h, 'z, 'x) timer_irqs \<Rightarrow> pwm_addresses \<Rightarrow> ptr \<Rightarrow> u32 \<Rightarrow> ptr \<Rightarrow> (('h, 'z) stm32_pwm_state_scheme, int) cm" where
  "timer_interrupt T A desc irq_id extra =
     bindm (deref pwm_extras desc) (\<lambda>e.
     bindm (no_os_irq_ctrl_init T (Some (nvic_tim e))
       (Some \<lparr>ip_irq_ctrl_id = 0, ip_platform_ops = Some (irq_ops_adr A), ip_extra = None\<rparr>)) (\<lambda>(ret, nvic).
     bindm (put_extra desc (\<lambda>e. e\<lparr>nvic_tim := the nvic\<rparr>)) (\<lambda>_.
     if ret < 0 then returnm ret
     else
       let cb = \<lparr>cb_callback = Some (callback_adr A), cb_ctx = desc_adr A desc, cb_event = NO_OS_EVT_TIM_PWM_PULSE_FINISHED,
             cb_peripheral = NO_OS_TIM_IRQ, cb_handle = htimer_adr A desc\<rparr> in
       bindm (deref pwm_sparams extra) (\<lambda>s.
       bindm (modifym (\<lambda>\<sigma>. \<sigma>\<lparr>pwm_sparams := (pwm_sparams \<sigma>)(block_of extra \<mapsto> s\<lparr>ti_timer_callback := cb\<rparr>)\<rparr>)) (\<lambda>_.
       bindm (no_os_irq_register_callback T (the nvic) irq_id (Some cb)) (\<lambda>ret.
       if ret < 0 then bindm (no_os_irq_ctrl_remove T (the nvic)) (\<lambda>_. returnm ret)
       else
         bindm (no_os_irq_enable T (the nvic) irq_id) (\<lambda>ret.
         if ret < 0 then
           bindm (no_os_irq_unregister_callback T (the nvic) irq_id (Some cb)) (\<lambda>_.
           bindm (no_os_irq_ctrl_remove T (the nvic)) (\<lambda>_. returnm ret))
         else returnm 0)))))))"

text \<open>The timers of the STM32L4S5 the cases name are \<open>TIM1\<close> to \<open>TIM8\<close>.\<close>

definition stm32_init_timer ::
  "'h tim_hal \<Rightarrow> ('h, 'z, 'x) timer_irqs \<Rightarrow> pwm_addresses \<Rightarrow> ptr \<Rightarrow> no_os_pwm_init_param \<Rightarrow>
   (('h, 'z) stm32_pwm_state_scheme, int) cm" where
  "stm32_init_timer H T A desc param =
     bindm (deref pwm_sparams (pp_extra param)) (\<lambda>s.
     bindm (timer_period H s (pp_period_ns param)) (\<lambda>period.
     if pp_id param \<notin> {1, 2, 3, 4, 5, 6, 7, 8} then returnm (- EINVAL)
     else
       bindm (put_extra desc (\<lambda>e. e\<lparr>htimer := \<lparr>tim_Instance = unat (pp_id param), tim_Prescaler = ti_prescaler s,
         tim_CounterMode = 0, tim_Period = period, tim_ClockDivision = 0,
         tim_AutoReloadPreload = (if ti_timer_autoreload s then 0x80 else 0), tim_RepetitionCounter = ti_repetitions s,
         tim_State = 0\<rparr>\<rparr>)) (\<lambda>_.
       bindm (deref pwm_extras desc) (\<lambda>e.
       let h = htimer e;
           store = bindm (put_extra desc (\<lambda>e. e\<lparr>td_prescaler := ti_prescaler s, td_get_timer_clock := ti_get_timer_clock s,
             td_clock_divider := ti_clock_divider s, td_timer_autoreload := ti_timer_autoreload s\<rparr>)) (\<lambda>_.
             if pp_pwm_callback param \<noteq> None then timer_interrupt T A desc (pp_irq_id param) (pp_extra param) else returnm 0);
           output = hal_ok (HAL_TIMEx_MasterConfigSynchronization H h (trigger_output (ti_trigger_output s)) 0) store;
           trigger = (if ti_trigger_enable s then
               case trigger_input (ti_trigger_source s) of None \<Rightarrow> returnm (- EINVAL)
               | Some ts \<Rightarrow> hal_ok (HAL_TIM_SlaveConfigSynchro H h 6 ts) output
             else output);
           pulse = (if ti_onepulse_enable s then hal_ok (HAL_TIM_OnePulse_Init H h 8) trigger else trigger);
           pwm = hal_ok (HAL_TIM_PWM_Init H h) pulse in
       hal_ok (HAL_TIM_Base_Init H h)
         (if \<not> ti_trigger_enable s then hal_ok (HAL_TIM_ConfigClockSource H h 0x1000) pwm else pwm)))))"

section \<open>The channel\<close>

definition ocmode :: "TimOCMode \<Rightarrow> u32 option" where
  "ocmode m = (case m of TIM_OC_TOGGLE \<Rightarrow> Some 0x30 | TIM_OC_PWM1 \<Rightarrow> Some 0x60 | TIM_OC_PWM2 \<Rightarrow> Some 0x70 | OCMODE_OTHER \<Rightarrow> None)"

definition oc_polarity :: "no_os_pwm_polarity \<Rightarrow> u32 option" where
  "oc_polarity p = (case p of NO_OS_PWM_POLARITY_HIGH \<Rightarrow> Some 0 | NO_OS_PWM_POLARITY_LOW \<Rightarrow> Some 2 | POLARITY_OTHER \<Rightarrow> None)"

text \<open>A period of 0 makes the quotient infinite or not a number, which has no conversion.\<close>

definition pulse_width :: "u32 \<Rightarrow> u32 \<Rightarrow> u32 \<Rightarrow> ('s, u32) cm" where
  "pulse_width period duty_cycle_ns period_ns =
     (if period_ns = 0 then failm Bad_Cast
      else
        let pct = fl32 (fl32 (fl32 (of_nat (unat duty_cycle_ns)) / fl32 (of_nat (unat period_ns))) * 100) in
        bindm (to_u32 (fl32 (fl32 (of_nat (unat (period + 1))) * pct))) (\<lambda>w. returnm (w div 100)))"

definition stm32_init_pwm ::
  "'h tim_hal \<Rightarrow> ptr \<Rightarrow> no_os_pwm_init_param \<Rightarrow> (('h, 'z) stm32_pwm_state_scheme, int) cm" where
  "stm32_init_pwm H desc param =
     bindm (deref pwm_extras desc) (\<lambda>e.
     bindm (deref pwm_sparams (pp_extra param)) (\<lambda>s.
     case ocmode (ti_mode s) of None \<Rightarrow> returnm (- EINVAL) | Some mode \<Rightarrow>
     if ti_timer_chn s \<notin> {1, 2, 3, 4, 5, 6} then returnm (- EINVAL)
     else
       bindm (pulse_width (tim_Period (htimer e)) (pp_duty_cycle_ns param) (pp_period_ns param)) (\<lambda>pulse.
       case oc_polarity (pp_polarity param) of None \<Rightarrow> returnm (- EINVAL) | Some pol \<Rightarrow>
       hal_ok (HAL_TIM_PWM_ConfigChannel H (htimer e)
         \<lparr>OCMode = mode, Pulse = pulse, OCPolarity = pol, OCFastMode = 0, OCIdleState = 0, OCNIdleState = 0\<rparr>
         (NO_OS_CHN_TO_STM32_CHN (ti_timer_chn s)))
       (bindm (put_extra desc (\<lambda>e. e\<lparr>td_mode := ti_mode s, td_timer_chn := ti_timer_chn s,
          td_complementary_channel := ti_complementary_channel s, td_dma_enable := ti_dma_enable s,
          td_repetitions := ti_repetitions s\<rparr>)) (\<lambda>_. returnm 0)))))"

section \<open>Creating and removing\<close>

definition zero_callback :: no_os_callback_desc where
  "zero_callback = \<lparr>cb_callback = None, cb_ctx = 0, cb_event = NO_OS_EVT_GPIO, cb_peripheral = NO_OS_GPIO_IRQ, cb_handle = 0\<rparr>"

definition pdesc_calloc :: "(('h, 'z) stm32_pwm_state_scheme, ptr) cm" where
  "pdesc_calloc = new_obj sizeof_no_os_pwm_desc (\<lambda>b \<sigma>. \<sigma>\<lparr>pdescs := (pdescs \<sigma>)(b \<mapsto>
     \<lparr>pd_mutex = NULL, pd_id = 0, pd_period_ns = 0, pd_duty_cycle_ns = 0, pd_phase_ns = 0,
      pd_polarity = NO_OS_PWM_POLARITY_HIGH, pd_enabled = False, pd_pwm_gpio = NULL, pd_irq_id = 0, pd_pwm_callback = None,
      pd_platform_ops = None, pd_extra = NULL\<rparr>)\<rparr>)"

definition extra_calloc :: "(('h, 'z) stm32_pwm_state_scheme, ptr) cm" where
  "extra_calloc = new_obj sizeof_stm32_pwm_desc (\<lambda>b \<sigma>. \<sigma>\<lparr>pwm_extras := (pwm_extras \<sigma>)(b \<mapsto>
     \<lparr>htimer = \<lparr>tim_Instance = 0, tim_Prescaler = 0, tim_CounterMode = 0, tim_Period = 0, tim_ClockDivision = 0,
        tim_AutoReloadPreload = 0, tim_RepetitionCounter = 0, tim_State = 0\<rparr>,
      td_gpio = NULL, td_prescaler = 0, td_timer_autoreload = False, td_mode = TIM_OC_TOGGLE, td_timer_chn = 0,
      td_complementary_channel = False, td_get_timer_clock = None, td_clock_divider = 0, nvic_tim = NULL,
      td_timer_callback = zero_callback, td_repetitions = 0, td_dma_enable = False\<rparr>)\<rparr>)"

definition pdesc_free :: "ptr \<Rightarrow> (('h, 'z) stm32_pwm_state_scheme, unit) cm" where
  "pdesc_free p = bindm (deref pdescs p) (\<lambda>_. modifym (\<lambda>\<sigma>. \<sigma>\<lparr>pdescs := (pdescs \<sigma>)(block_of p := None)\<rparr>))"

definition extra_free :: "ptr \<Rightarrow> (('h, 'z) stm32_pwm_state_scheme, unit) cm" where
  "extra_free p = bindm (deref pwm_extras p) (\<lambda>_. modifym (\<lambda>\<sigma>. \<sigma>\<lparr>pwm_extras := (pwm_extras \<sigma>)(block_of p := None)\<rparr>))"

definition stm32_pwm_init ::
  "'h tim_hal \<Rightarrow> 'h pin_tables \<Rightarrow> ('h, 'z, 'x) timer_irqs \<Rightarrow> pwm_addresses \<Rightarrow> ptr option \<Rightarrow> no_os_pwm_init_param \<Rightarrow>
   (('h, 'z) stm32_pwm_state_scheme, int \<times> ptr option) cm" where
  "stm32_pwm_init H G T A desc param =
     (if desc = None then returnm (- EINVAL, desc)
      else
        bindm pdesc_calloc (\<lambda>descriptor.
        if descriptor = NULL then returnm (- ENOMEM, desc)
        else
          bindm extra_calloc (\<lambda>extra.
          if extra = NULL then bindm (pdesc_free descriptor) (\<lambda>_. returnm (- ENOMEM, desc))
          else
            let error = (\<lambda>ret. bindm (extra_free extra) (\<lambda>_. bindm (pdesc_free descriptor) (\<lambda>_. returnm (ret, desc)))) in
            bindm (stm32_init_timer H T A extra param) (\<lambda>ret.
            if ret \<noteq> 0 then error ret
            else
              bindm (stm32_init_pwm H extra param) (\<lambda>ret.
              if ret \<noteq> 0 then error ret
              else
                bindm (case pp_pwm_gpio param of None \<Rightarrow> returnm (0, Some NULL)
                       | Some g \<Rightarrow> on_pins (no_os_gpio_get G (Some NULL) (Some g))) (\<lambda>(ret, pin).
                if ret \<noteq> 0 then error ret
                else
                  bindm (put_pdesc descriptor (\<lambda>d. d\<lparr>pd_pwm_gpio := the pin, pd_id := pp_id param, pd_extra := extra,
                    pd_duty_cycle_ns := pp_duty_cycle_ns param, pd_period_ns := pp_period_ns param,
                    pd_phase_ns := pp_phase_ns param, pd_polarity := pp_polarity param, pd_irq_id := pp_irq_id param\<rparr>)) (\<lambda>_.
                  returnm (0, Some descriptor))))))))"

text \<open>The pin it removes is \<open>extra->gpio\<close>, which is never assigned.\<close>

definition stm32_pwm_remove ::
  "'h tim_hal \<Rightarrow> 'h pin_tables \<Rightarrow> ('h, 'z, 'x) timer_irqs \<Rightarrow> ptr \<Rightarrow> (('h, 'z) stm32_pwm_state_scheme, int) cm" where
  "stm32_pwm_remove H G T desc =
     (if desc = NULL then returnm (- EINVAL)
      else
        bindm (deref pdescs desc) (\<lambda>d.
        if pd_extra d = NULL then returnm (- EINVAL)
        else
          bindm (deref pwm_extras (pd_extra d)) (\<lambda>e.
          hal_ok (HAL_TIM_Base_DeInit H (htimer e)) (hal_ok (HAL_TIM_PWM_DeInit H (htimer e))
          (bindm (on_pins (no_os_gpio_remove G (td_gpio e))) (\<lambda>ret.
           let done = bindm (extra_free (pd_extra d)) (\<lambda>_. bindm (pdesc_free desc) (\<lambda>_. returnm 0)) in
           if ret \<noteq> 0 then returnm ret
           else if pd_irq_id d = 0 then done
           else
             bindm (no_os_irq_unregister_callback T (nvic_tim e) (pd_irq_id d) (Some (td_timer_callback e))) (\<lambda>ret.
             if ret \<noteq> 0 then returnm ret
             else
               bindm (no_os_irq_disable T (nvic_tim e) (pd_irq_id d)) (\<lambda>ret.
               if ret \<noteq> 0 then returnm ret
               else
                 bindm (no_os_irq_ctrl_remove T (nvic_tim e)) (\<lambda>ret. if ret \<noteq> 0 then returnm ret else done)))))))))"

section \<open>Running\<close>

text \<open>\<open>map[timer_chn]\<close>: an array of five elements.\<close>

definition dma_request :: "u32 \<Rightarrow> ('s, u32) cm" where
  "dma_request chn = (let map = [0, 0x200, 0x400, 0x800, 0x1000] in
     if unat chn < length map then returnm (map ! unat chn) else failm Out_Of_Bounds)"

definition stm32_pwm_enable :: "'h tim_hal \<Rightarrow> ptr \<Rightarrow> (('h, 'z) stm32_pwm_state_scheme, int) cm" where
  "stm32_pwm_enable H desc =
     (if desc = NULL then returnm (- EINVAL)
      else
        bindm (deref pdescs desc) (\<lambda>d.
        bindm (deref pwm_extras (pd_extra d)) (\<lambda>e.
        let h = htimer e; chn = NO_OS_CHN_TO_STM32_CHN (td_timer_chn e) in
        bindm (reg_write (write_CNT H (tim_Instance h) 0)) (\<lambda>_.
        bindm (if td_dma_enable e then
            bindm (reg_write (write_RCR H (tim_Instance h) (td_repetitions e))) (\<lambda>_.
            bindm (reg_write (or_EGR H (tim_Instance h) 1)) (\<lambda>_.
            bindm (dma_request (td_timer_chn e)) (\<lambda>m. reg_write (or_DIER H (tim_Instance h) m))))
          else returnm ()) (\<lambda>_.
        hal_ok (if pd_irq_id d \<noteq> 0
                then (if td_complementary_channel e then HAL_TIMEx_PWMN_Start_IT H h chn else HAL_TIM_PWM_Start_IT H h chn)
                else (if td_complementary_channel e then HAL_TIMEx_PWMN_Start H h chn else HAL_TIM_PWM_Start H h chn))
          (returnm 0))))))"

definition stm32_pwm_disable :: "'h tim_hal \<Rightarrow> ptr \<Rightarrow> (('h, 'z) stm32_pwm_state_scheme, int) cm" where
  "stm32_pwm_disable H desc =
     (if desc = NULL then returnm (- EINVAL)
      else
        bindm (deref pdescs desc) (\<lambda>d.
        bindm (deref pwm_extras (pd_extra d)) (\<lambda>e.
        let h = htimer e; chn = NO_OS_CHN_TO_STM32_CHN (td_timer_chn e) in
        bindm (if td_dma_enable e
               then bindm (dma_request (td_timer_chn e)) (\<lambda>m. reg_write (clear_DIER H (tim_Instance h) m))
               else returnm ()) (\<lambda>_.
        hal_ok (if td_complementary_channel e then HAL_TIMEx_PWMN_Stop H h chn else HAL_TIM_PWM_Stop H h chn)
          (returnm 0)))))"

section \<open>Changing period and duty cycle\<close>

text \<open>A local variable \<open>sparam\<close> while \<open>f\<close> runs.\<close>

definition with_sparam ::
  "stm32_pwm_init_param \<Rightarrow> (ptr \<Rightarrow> (('h, 'z) stm32_pwm_state_scheme, 'a) cm) \<Rightarrow> (('h, 'z) stm32_pwm_state_scheme, 'a) cm" where
  "with_sparam s f =
     bindm (getm next_block) (\<lambda>b.
     bindm (modifym (\<lambda>\<sigma>. \<sigma>\<lparr>next_block := Suc b, pwm_sparams := (pwm_sparams \<sigma>)(b \<mapsto> s)\<rparr>)) (\<lambda>_.
     bindm (f (Ptr b 0)) (\<lambda>r.
     bindm (modifym (\<lambda>\<sigma>. \<sigma>\<lparr>pwm_sparams := (pwm_sparams \<sigma>)(b := None)\<rparr>)) (\<lambda>_. returnm r))))"

text \<open>The descriptor is read before it is compared with \<open>NULL\<close>. Members of \<open>sparam\<close> that are not
  assigned are 0; of \<open>param\<close>, \<open>stm32_init_timer\<close> reads the assigned members only.\<close>

definition stm32_pwm_set_period ::
  "'h tim_hal \<Rightarrow> ('h, 'z, 'x) timer_irqs \<Rightarrow> pwm_addresses \<Rightarrow> ptr \<Rightarrow> u32 \<Rightarrow> (('h, 'z) stm32_pwm_state_scheme, int) cm" where
  "stm32_pwm_set_period H T A desc period_ns =
     bindm (deref pdescs desc) (\<lambda>d.
     bindm (deref pwm_extras (pd_extra d)) (\<lambda>e.
     with_sparam \<lparr>ti_prescaler = td_prescaler e, ti_timer_autoreload = td_timer_autoreload e, ti_mode = TIM_OC_TOGGLE,
         ti_timer_chn = td_timer_chn e, ti_complementary_channel = False, ti_get_timer_clock = td_get_timer_clock e,
         ti_clock_divider = td_clock_divider e, ti_trigger_enable = False, ti_trigger_source = PWM_TS_ITR0,
         ti_trigger_output = PWM_TRGO_RESET, ti_onepulse_enable = False, ti_repetitions = 0, ti_dma_enable = False,
         ti_timer_callback = td_timer_callback e\<rparr> (\<lambda>sparam.
       bindm (stm32_init_timer H T A (pd_extra d)
         \<lparr>pp_id = pd_id d, pp_period_ns = period_ns, pp_duty_cycle_ns = pd_duty_cycle_ns d, pp_phase_ns = pd_phase_ns d,
          pp_polarity = NO_OS_PWM_POLARITY_HIGH, pp_pwm_gpio = None, pp_irq_id = pd_irq_id d,
          pp_pwm_callback = pd_pwm_callback d, pp_platform_ops = None, pp_extra = sparam\<rparr>) (\<lambda>ret.
       if ret \<noteq> 0 then returnm (- EIO)
       else bindm (put_pdesc desc (\<lambda>d. d\<lparr>pd_period_ns := period_ns\<rparr>)) (\<lambda>_. returnm 0)))))"

definition stm32_pwm_get_period ::
  "'h tim_hal \<Rightarrow> ptr \<Rightarrow> u32 option \<Rightarrow> (('h, 'z) stm32_pwm_state_scheme, int \<times> u32 option) cm" where
  "stm32_pwm_get_period H desc period_ns =
     (if desc = NULL then returnm (- EINVAL, period_ns)
      else
        bindm (deref pdescs desc) (\<lambda>d.
        if pd_extra d = NULL \<or> period_ns = None then returnm (- EINVAL, period_ns)
        else
          bindm (deref pwm_extras (pd_extra d)) (\<lambda>e.
          case td_get_timer_clock e of None \<Rightarrow> failm Null_Deref | Some f \<Rightarrow>
          bindm (on_thw (timer_clock H f)) (\<lambda>hz.
          bindm (udiv32 (hz * td_clock_divider e) (td_prescaler e + 1)) (\<lambda>timer_hz.
          if timer_hz = 0 then failm Bad_Cast
          else
            bindm (to_u32 (fl64 (of_nat (unat (tim_Period (htimer e) + 1)) * fl64 (1000000000 / of_nat (unat timer_hz))))) (\<lambda>p.
            returnm (0, Some p)))))))"

text \<open>\<open>polarity\<close>, \<open>dma\<close> and \<open>reps\<close> are what the unassigned members of \<open>param\<close> and \<open>sparam\<close> hold.\<close>

definition stm32_pwm_set_duty_cycle ::
  "'h tim_hal \<Rightarrow> no_os_pwm_polarity \<times> bool \<times> u32 \<Rightarrow> ptr \<Rightarrow> u32 \<Rightarrow> (('h, 'z) stm32_pwm_state_scheme, int) cm" where
  "stm32_pwm_set_duty_cycle H stack desc duty_cycle_ns =
     (if desc = NULL then returnm (- EINVAL)
      else
        bindm (deref pdescs desc) (\<lambda>d.
        if pd_extra d = NULL then returnm (- EINVAL)
        else
          bindm (deref pwm_extras (pd_extra d)) (\<lambda>e.
          let (polarity, dma, reps) = stack in
          with_sparam \<lparr>ti_prescaler = 0, ti_timer_autoreload = False, ti_mode = td_mode e,
              ti_timer_chn = td_timer_chn e, ti_complementary_channel = td_complementary_channel e, ti_get_timer_clock = None,
              ti_clock_divider = 0, ti_trigger_enable = False, ti_trigger_source = PWM_TS_ITR0,
              ti_trigger_output = PWM_TRGO_RESET, ti_onepulse_enable = False, ti_repetitions = reps, ti_dma_enable = dma,
              ti_timer_callback = zero_callback\<rparr> (\<lambda>sparam.
            bindm (stm32_init_pwm H (pd_extra d)
              \<lparr>pp_id = 0, pp_period_ns = pd_period_ns d, pp_duty_cycle_ns = duty_cycle_ns, pp_phase_ns = pd_phase_ns d,
               pp_polarity = polarity, pp_pwm_gpio = None, pp_irq_id = 0, pp_pwm_callback = None, pp_platform_ops = None,
               pp_extra = sparam\<rparr>) (\<lambda>ret.
            if ret \<noteq> 0 then returnm (- EIO)
            else bindm (put_pdesc desc (\<lambda>d. d\<lparr>pd_duty_cycle_ns := duty_cycle_ns\<rparr>)) (\<lambda>_. returnm 0))))))"

definition stm32_pwm_get_duty_cycle ::
  "ptr \<Rightarrow> u32 option \<Rightarrow> (('h, 'z) stm32_pwm_state_scheme, int \<times> u32 option) cm" where
  "stm32_pwm_get_duty_cycle desc duty_cycle_ns =
     bindm (deref pdescs desc) (\<lambda>d.
     case duty_cycle_ns of None \<Rightarrow> failm Null_Deref | Some _ \<Rightarrow> returnm (0, Some (pd_duty_cycle_ns d)))"

definition stm32_pwm_ops ::
  "'h tim_hal \<Rightarrow> 'h pin_tables \<Rightarrow> ('h, 'z, 'x) timer_irqs \<Rightarrow> pwm_addresses \<Rightarrow> no_os_pwm_polarity \<times> bool \<times> u32 \<Rightarrow>
   ('h, 'z) stm32_pwm_state_scheme pwm_platform_ops" where
  "stm32_pwm_ops H G T A stack = \<lparr>pwm_ops_init = Some (stm32_pwm_init H G T A), pwm_ops_enable = Some (stm32_pwm_enable H),
     pwm_ops_disable = Some (stm32_pwm_disable H), pwm_ops_set_period = Some (stm32_pwm_set_period H T A),
     pwm_ops_get_period = Some (stm32_pwm_get_period H), pwm_ops_set_duty_cycle = Some (stm32_pwm_set_duty_cycle H stack),
     pwm_ops_get_duty_cycle = Some stm32_pwm_get_duty_cycle, pwm_ops_set_phase = None, pwm_ops_get_phase = None,
     pwm_ops_set_polarity = None, pwm_ops_get_polarity = None, pwm_ops_remove = Some (stm32_pwm_remove H G T)\<rparr>"

end
