(* ===== verification/Stm32_Pwm_Theorems.thy ===== *)
theory Stm32_Pwm_Theorems
  imports Stm32_Pwm
begin

text \<open>
  PWM generators: the number of ticks of a period is within one of the exact quotient, the
  period read back, and the mutex a generator holds while it runs.
\<close>

section \<open>Ticks\<close>

definition ticks_quotient :: "rat \<Rightarrow> rat \<Rightarrow> rat" where
  "ticks_quotient c P = fl64 (c / fl64 (fl32 (fl64 (1 / P)) * 1000000000))"

text \<open>The relative error of a product of roundings.\<close>

lemma ticks_quotient_error:
  assumes pos: "0 < c" "0 < P"
  shows "\<bar>ticks_quotient c P - c * P / 1000000000\<bar> \<le> c * P / 1000000000 / 2 ^ 23"
proof -
  define a where "a = fl64 (1 / P)"
  define f where "f = fl32 a"
  define g where "g = fl64 (f * 1000000000)"
  define q where "q = fl64 (c / g)"
  define d e :: rat where "d = 1 / 2 ^ 53" and "e = 1 / 2 ^ 24"
  have a: "0 < a" "(1 - d) * (1 / P) \<le> a" "a \<le> (1 + d) * (1 / P)"
    using pos rnd_pos[of "1 / P" 53] rnd_bounds[of "1 / P" 53] by (simp_all add: a_def d_def)
  have f: "0 < f" "(1 - e) * a \<le> f" "f \<le> (1 + e) * a"
    using a(1) rnd_pos[of a 24] rnd_bounds[of a 24] by (simp_all add: f_def e_def)
  have g: "0 < g" "(1 - d) * (f * 1000000000) \<le> g" "g \<le> (1 + d) * (f * 1000000000)"
    using f(1) rnd_pos[of "f * 1000000000" 53] rnd_bounds[of "f * 1000000000" 53] by (simp_all add: g_def d_def)
  have q: "(1 - d) * (c / g) \<le> q" "q \<le> (1 + d) * (c / g)"
    using pos g(1) rnd_bounds[of "c / g" 53] by (simp_all add: q_def d_def)
  have de: "0 < 1 - d" "0 < 1 + d" "0 < 1 - e" "0 < 1 + e" by (simp_all add: d_def e_def)
  have gl: "(1 - d) * ((1 - e) * ((1 - d) * (1 / P)) * 1000000000) \<le> g"
    using a(2) f(2) g(2) de by (meson mult_left_mono mult_right_mono order_trans less_imp_le zero_le_numeral)
  have gu: "g \<le> (1 + d) * ((1 + e) * ((1 + d) * (1 / P)) * 1000000000)"
    using a(3) f(3) g(3) de by (meson mult_left_mono mult_right_mono order_trans less_imp_le zero_le_numeral)
  have x: "c / (k * (1000000000 / P)) = c * P / 1000000000 / k" for k :: rat using pos by (simp add: field_simps)
  let ?v = "c * P / 1000000000"
  have v: "0 < ?v" using pos by simp
  have "c / g \<le> c / ((1 - d) * ((1 - e) * (1 - d)) * (1000000000 / P))"
    using gl pos g(1) de by (intro divide_left_mono mult_pos_pos) (simp_all add: algebra_simps)
  also have "\<dots> = ?v * (1 / ((1 - d) * ((1 - e) * (1 - d))))" by (simp only: x) simp
  finally have hi: "q \<le> (1 + d) * (?v * (1 / ((1 - d) * ((1 - e) * (1 - d)))))"
    using q(2) de by (meson mult_left_mono order_trans less_imp_le)
  have "c / ((1 + d) * ((1 + e) * (1 + d)) * (1000000000 / P)) \<le> c / g"
    using gu pos g(1) de by (intro divide_left_mono mult_pos_pos) (simp_all add: algebra_simps)
  moreover have "c / ((1 + d) * ((1 + e) * (1 + d)) * (1000000000 / P)) = ?v * (1 / ((1 + d) * ((1 + e) * (1 + d))))"
    by (simp only: x) simp
  ultimately have lo: "(1 - d) * (?v * (1 / ((1 + d) * ((1 + e) * (1 + d))))) \<le> q"
    using q(1) de by (metis mult_left_mono order_trans less_imp_le)
  have kh: "(1 + d) * (1 / ((1 - d) * ((1 - e) * (1 - d)))) \<le> 1 + 1 / 2 ^ 23"
    and kl: "1 - 1 / 2 ^ 23 \<le> (1 - d) * (1 / ((1 + d) * ((1 + e) * (1 + d))))" by (simp_all add: d_def e_def)
  have "q \<le> ?v * ((1 + d) * (1 / ((1 - d) * ((1 - e) * (1 - d)))))" using hi by (simp only: mult.left_commute)
  also have "\<dots> \<le> ?v * (1 + 1 / 2 ^ 23)" by (rule mult_left_mono[OF kh less_imp_le[OF v]])
  finally have "q \<le> ?v * (1 + 1 / 2 ^ 23)" .
  moreover have "?v * (1 - 1 / 2 ^ 23) \<le> ?v * ((1 - d) * (1 / ((1 + d) * ((1 + e) * (1 + d)))))"
    by (rule mult_left_mono[OF kl less_imp_le[OF v]])
  then have "?v * (1 - 1 / 2 ^ 23) \<le> q" using lo by (simp only: mult.left_commute)
  ultimately have "q - ?v \<le> ?v / 2 ^ 23" "?v - q \<le> ?v / 2 ^ 23" by (simp_all add: algebra_simps)
  then have "\<bar>q - ?v\<bar> \<le> ?v / 2 ^ 23" by linarith
  then show ?thesis by (simp add: ticks_quotient_def q_def g_def f_def a_def)
qed

lemma compute_period_ticks_quotient:
  assumes "period_ns \<noteq> 0" and "0 \<le> q" and "q < 2 ^ 32"
    and "q = ticks_quotient (of_nat (unat timer_clk_hz)) (of_nat (unat period_ns))"
  shows "compute_period_ticks timer_clk_hz period_ns \<sigma> = Inr (of_int \<lfloor>q\<rfloor> - 1, \<sigma>)"
  using assms by (simp add: compute_period_ticks_def ticks_quotient_def to_u32_def Let_def bindm_unfold run_simps)

lemma floor_quotient: "\<lfloor>(of_nat m * of_nat n / 1000000000 :: rat)\<rfloor> = int (m * n div 1000000000)"
  by (metis floor_divide_of_nat_eq of_nat_mult of_nat_numeral)

lemma ticks_near:
  assumes "unat timer_clk_hz * unat period_ns \<le> 2 ^ 22 * 1000000000" and "period_ns \<noteq> 0"
  shows "\<exists>w. compute_period_ticks timer_clk_hz period_ns \<sigma> = Inr (w, \<sigma>) \<and>
           \<bar>int (unat (w + 1)) - int (unat timer_clk_hz * unat period_ns div 1000000000)\<bar> \<le> 1"
proof -
  define c P :: rat where "c = of_nat (unat timer_clk_hz)" and "P = of_nat (unat period_ns)"
  define q v where "q = ticks_quotient c P" and "v = c * P / 1000000000"
  have P: "0 < P" using assms(2) unfolding P_def by (metis of_nat_0_less_iff unat_gt_0)
  have "c * P \<le> of_nat (2 ^ 22 * 1000000000)"
    unfolding c_def P_def using assms(1) by (metis of_nat_le_iff of_nat_mult)
  then have v: "v \<le> 2 ^ 22" by (simp add: v_def)
  have near: "\<bar>q - v\<bar> \<le> 1 / 2 \<and> 0 \<le> q"
  proof (cases "c = 0")
    case True
    then show ?thesis by (simp add: q_def v_def ticks_quotient_def rnd_def)
  next
    case False
    then have c: "0 < c" using of_nat_0_le_iff[of "unat timer_clk_hz", where ?'a = rat] unfolding c_def by linarith
    have e: "\<bar>q - v\<bar> \<le> v / 2 ^ 23" using ticks_quotient_error[OF c P] by (simp only: q_def v_def)
    moreover have "v / 2 ^ 23 \<le> 1 / 2" using v by simp
    moreover have "0 < v" using c P by (simp add: v_def)
    then have "v / 2 ^ 23 \<le> v" by simp
    ultimately show ?thesis by linarith
  qed
  then have "q \<le> 1 / 2 + 2 ^ 22" using v by linarith
  then have q32: "q < 2 ^ 32" by (rule le_less_trans) simp
  then have run: "compute_period_ticks timer_clk_hz period_ns \<sigma> = Inr (of_int \<lfloor>q\<rfloor> - 1, \<sigma>)"
    using assms(2) near q32 by (intro compute_period_ticks_quotient) (simp_all add: q_def c_def P_def)
  have "0 \<le> \<lfloor>q\<rfloor>" "\<lfloor>q\<rfloor> < 2 ^ 32" using near q32 by (simp_all add: floor_less_iff)
  then have "int (unat (of_int \<lfloor>q\<rfloor> :: u32)) = \<lfloor>q\<rfloor>"
    by (simp add: uint_word_of_int_eq take_bit_int_eq_self)
  moreover have "\<lfloor>v\<rfloor> = int (unat timer_clk_hz * unat period_ns div 1000000000)"
    unfolding v_def c_def P_def by (rule floor_quotient)
  moreover have "\<bar>\<lfloor>q\<rfloor> - \<lfloor>v\<rfloor>\<bar> \<le> 1" using near by linarith
  ultimately show ?thesis using run by (intro exI[of _ "of_int \<lfloor>q\<rfloor> - 1"]) simp
qed

lemma ticks_within:
  assumes "unat timer_clk_hz * unat period_ns \<le> 2 ^ 22 * 1000000000" and "period_ns \<noteq> 0"
    and "compute_period_ticks timer_clk_hz period_ns \<sigma> = Inr (w, \<sigma>')"
  shows "\<bar>int (unat (w + 1)) - int (unat timer_clk_hz * unat period_ns div 1000000000)\<bar> \<le> 1"
  using ticks_near[OF assms(1,2), of \<sigma>] assms(3) by auto

text \<open>The example of the comment in the code, 216 MHz and 1000 ns, gives 214 and not 215.\<close>

lemma ticks_example: "compute_period_ticks 216000000 1000 \<sigma> = Inr (214, \<sigma>)"
proof -
  have 1: "fl64 (1 / 1000) = 1152921504606847 / 2 ^ 60"
    by (subst rnd_value[where e = "- 10" and n = 4611686018427388, OF _ _ refl]) (simp_all add: power_int_minus)
  have 2: "fl32 (1152921504606847 / 2 ^ 60) = 8589935 / 2 ^ 33"
    by (subst rnd_value[where e = "- 10" and n = 8589935, OF _ _ refl]) (simp_all add: power_int_minus)
  have 3: "fl64 (8589935 / 2 ^ 33 * 1000000000) = 16777216796875 / 2 ^ 24"
    by (subst rnd_value[where e = 19 and n = 8589935000000000, OF _ _ refl]) (simp_all add: power_int_minus)
  have 4: "fl64 (216000000 / (16777216796875 / 2 ^ 24)) = 7599824010215441 / 2 ^ 45"
    by (subst rnd_value[where e = 7 and n = 7599824010215441, OF _ _ refl]) (simp_all add: power_int_minus)
  have "ticks_quotient 216000000 1000 = 7599824010215441 / 2 ^ 45"
    unfolding ticks_quotient_def 1 2 3 4 ..
  then have "compute_period_ticks 216000000 1000 \<sigma> = Inr (of_int \<lfloor>7599824010215441 / 2 ^ 45 :: rat\<rfloor> - 1, \<sigma>)"
    by (intro compute_period_ticks_quotient) simp_all
  moreover have "\<lfloor>7599824010215441 / 2 ^ 45 :: rat\<rfloor> = 215" by (rule floor_unique) simp_all
  ultimately show ?thesis by simp
qed



section \<open>Programming the timer\<close>

lemma hal_ok_Inr:
  assumes "hal_ok f k \<sigma> = Inr (0, \<sigma>')"
  obtains h where "k (\<sigma>\<lparr>thw := h\<rparr>) = Inr (0, \<sigma>')"
  using assms that[of "snd (f (thw \<sigma>))"]
  by (cases "f (thw \<sigma>)") (auto simp: hal_ok_def on_thw_def bindm_unfold run_simps EIO_def split: if_splits)

lemma put_extra_run:
  "pwm_extras \<sigma> b = Some e \<Longrightarrow> put_extra (Ptr b 0) f \<sigma> = Inr ((), \<sigma>\<lparr>pwm_extras := (pwm_extras \<sigma>)(b \<mapsto> f e)\<rparr>)"
  by (simp add: put_extra_def bindm_unfold run_simps)

lemma on_thw_run: "on_thw f \<sigma> = Inr (fst (f (thw \<sigma>)), \<sigma>\<lparr>thw := snd (f (thw \<sigma>))\<rparr>)"
  by (simp add: on_thw_def bindm_unfold run_simps split: prod.split)

lemma thw_same: "\<exists>h. \<sigma> = \<sigma>\<lparr>thw := h\<rparr>"
  by (rule exI[of _ "thw \<sigma>"]) simp

lemma timer_period_state:
  "timer_period H s period_ns \<sigma> = Inr (w, \<sigma>') \<Longrightarrow> \<exists>h. \<sigma>' = \<sigma>\<lparr>thw := h\<rparr>"
  by (auto simp: timer_period_def on_thw_run udiv32_def compute_period_ticks_def to_u32_def Let_def bindm_Inr_iff
      thw_same modifym_Inr returnm_Inr failm_run split: option.splits if_splits)

definition timer_handle :: "u32 \<Rightarrow> u32 \<Rightarrow> stm32_pwm_init_param \<Rightarrow> TIM_HandleTypeDef" where
  "timer_handle i period s = \<lparr>tim_Instance = unat i, tim_Prescaler = ti_prescaler s, tim_CounterMode = 0, tim_Period = period,
     tim_ClockDivision = 0, tim_AutoReloadPreload = (if ti_timer_autoreload s then 0x80 else 0),
     tim_RepetitionCounter = ti_repetitions s, tim_State = 0\<rparr>"

lemma init_timer_programs:
  assumes run: "stm32_init_timer H T A (Ptr x 0) param \<sigma> = Inr (0, \<sigma>')"
    and plain: "pp_pwm_callback param = None" "\<not> ti_trigger_enable s" "\<not> ti_onepulse_enable s"
    and s: "pwm_sparams \<sigma> k = Some s" "pp_extra param = Ptr k 0" and e: "pwm_extras \<sigma> x = Some e"
  obtains w h0 h where "timer_period H s (pp_period_ns param) \<sigma> = Inr (w, \<sigma>\<lparr>thw := h0\<rparr>)"
    and "\<sigma>' = \<sigma>\<lparr>thw := h, pwm_extras := (pwm_extras \<sigma>)(x \<mapsto> e\<lparr>htimer := timer_handle (pp_id param) w s,
      td_prescaler := ti_prescaler s, td_get_timer_clock := ti_get_timer_clock s,
      td_clock_divider := ti_clock_divider s, td_timer_autoreload := ti_timer_autoreload s\<rparr>)\<rparr>"
proof -
  let ?store = "bindm (put_extra (Ptr x 0) (\<lambda>e. e\<lparr>td_prescaler := ti_prescaler s, td_get_timer_clock := ti_get_timer_clock s,
      td_clock_divider := ti_clock_divider s, td_timer_autoreload := ti_timer_autoreload s\<rparr>)) (\<lambda>_. returnm 0)"
  let ?rest = "\<lambda>period.
      if pp_id param \<notin> {1, 2, 3, 4, 5, 6, 7, 8} then returnm (- EINVAL)
      else bindm (put_extra (Ptr x 0) (\<lambda>e. e\<lparr>htimer := timer_handle (pp_id param) period s\<rparr>)) (\<lambda>_.
        bindm (deref pwm_extras (Ptr x 0)) (\<lambda>e.
        let h = htimer e in
        hal_ok (HAL_TIM_Base_Init H h) (hal_ok (HAL_TIM_ConfigClockSource H h 0x1000) (hal_ok (HAL_TIM_PWM_Init H h)
        (hal_ok (HAL_TIMEx_MasterConfigSynchronization H h (trigger_output (ti_trigger_output s)) 0)
        ?store)))))"
  from run s have "bindm (timer_period H s (pp_period_ns param)) ?rest \<sigma> = Inr (0, \<sigma>')"
    using plain by (simp add: stm32_init_timer_def bindm_Inr[where m = "deref _ _"] deref_def timer_handle_def Let_def cong: if_cong)
  then obtain w \<sigma>1 where w: "timer_period H s (pp_period_ns param) \<sigma> = Inr (w, \<sigma>1)" and rest: "?rest w \<sigma>1 = Inr (0, \<sigma>')"
    by (rule bindm_InrE)
  obtain h0 where h0: "\<sigma>1 = \<sigma>\<lparr>thw := h0\<rparr>" using timer_period_state[OF w] by blast
  let ?e = "e\<lparr>htimer := timer_handle (pp_id param) w s\<rparr>" and ?h = "timer_handle (pp_id param) w s"
  let ?\<sigma> = "\<sigma>1\<lparr>pwm_extras := (pwm_extras \<sigma>1)(x \<mapsto> ?e)\<rparr>"
  have x: "pwm_extras \<sigma>1 x = Some e" using e h0 by simp
  have "hal_ok (HAL_TIM_Base_Init H ?h) (hal_ok (HAL_TIM_ConfigClockSource H ?h 0x1000) (hal_ok (HAL_TIM_PWM_Init H ?h)
      (hal_ok (HAL_TIMEx_MasterConfigSynchronization H ?h (trigger_output (ti_trigger_output s)) 0) ?store))) ?\<sigma> = Inr (0, \<sigma>')"
    using rest by (simp add: put_extra_run[OF x] bindm_unfold run_simps Let_def EINVAL_def split: if_splits)
  then obtain h where "?store (?\<sigma>\<lparr>thw := h\<rparr>) = Inr (0 :: int, \<sigma>')" by (auto elim!: hal_ok_Inr)
  moreover have "pwm_extras (?\<sigma>\<lparr>thw := h\<rparr>) x = Some ?e" by simp
  note this[THEN put_extra_run]
  ultimately have "\<sigma>' = \<sigma>\<lparr>thw := h, pwm_extras := (pwm_extras \<sigma>)(x \<mapsto> ?e\<lparr>td_prescaler := ti_prescaler s,
      td_get_timer_clock := ti_get_timer_clock s, td_clock_divider := ti_clock_divider s,
      td_timer_autoreload := ti_timer_autoreload s\<rparr>)\<rparr>"
    using h0 by (simp add: bindm_unfold run_simps)
  then show thesis using that[of w h0 h] w h0 by simp
qed

section \<open>Setting the period and reading it back\<close>

text \<open>A local \<open>sparam\<close>: it is gone when the function returns.\<close>

lemma with_sparam_Inr:
  assumes "with_sparam s f \<sigma> = Inr (r, \<sigma>')"
  obtains \<sigma>1 where "f (Ptr (next_block \<sigma>) 0)
      (\<sigma>\<lparr>next_block := Suc (next_block \<sigma>), pwm_sparams := (pwm_sparams \<sigma>)(next_block \<sigma> \<mapsto> s)\<rparr>) = Inr (r, \<sigma>1)"
    and "\<sigma>' = \<sigma>1\<lparr>pwm_sparams := (pwm_sparams \<sigma>1)(next_block \<sigma> := None)\<rparr>"
  using assms by (auto simp: with_sparam_def bindm_Inr_iff getm_def modifym_Inr returnm_Inr)

definition period_params :: "stm32_pwm_desc \<Rightarrow> stm32_pwm_init_param" where
  "period_params e = \<lparr>ti_prescaler = td_prescaler e, ti_timer_autoreload = td_timer_autoreload e, ti_mode = TIM_OC_TOGGLE,
     ti_timer_chn = td_timer_chn e, ti_complementary_channel = False, ti_get_timer_clock = td_get_timer_clock e,
     ti_clock_divider = td_clock_divider e, ti_trigger_enable = False, ti_trigger_source = PWM_TS_ITR0,
     ti_trigger_output = PWM_TRGO_RESET, ti_onepulse_enable = False, ti_repetitions = 0, ti_dma_enable = False,
     ti_timer_callback = td_timer_callback e\<rparr>"

lemma set_period_Inr:
  assumes d: "pdescs \<sigma> b = Some d" "pd_extra d = Ptr x 0" "pwm_extras \<sigma> x = Some e" "pd_pwm_callback d = None"
    and run: "stm32_pwm_set_period H T A (Ptr b 0) period_ns \<sigma> = Inr (0, \<sigma>')"
  obtains w h0 where "timer_period H (period_params e) period_ns (\<sigma>\<lparr>next_block := Suc (next_block \<sigma>),
      pwm_sparams := (pwm_sparams \<sigma>)(next_block \<sigma> \<mapsto> period_params e)\<rparr>) =
      Inr (w, \<sigma>\<lparr>next_block := Suc (next_block \<sigma>), pwm_sparams := (pwm_sparams \<sigma>)(next_block \<sigma> \<mapsto> period_params e), thw := h0\<rparr>)"
    and "pdescs \<sigma>' = (pdescs \<sigma>)(b \<mapsto> d\<lparr>pd_period_ns := period_ns\<rparr>)"
    and "pwm_extras \<sigma>' = (pwm_extras \<sigma>)(x \<mapsto> e\<lparr>htimer := timer_handle (pd_id d) w (period_params e)\<rparr>)"
proof -
  let ?\<sigma> = "\<sigma>\<lparr>next_block := Suc (next_block \<sigma>), pwm_sparams := (pwm_sparams \<sigma>)(next_block \<sigma> \<mapsto> period_params e)\<rparr>"
  let ?param = "\<lparr>pp_id = pd_id d, pp_period_ns = period_ns, pp_duty_cycle_ns = pd_duty_cycle_ns d, pp_phase_ns = pd_phase_ns d,
      pp_polarity = NO_OS_PWM_POLARITY_HIGH, pp_pwm_gpio = None, pp_irq_id = pd_irq_id d,
      pp_pwm_callback = None, pp_platform_ops = None, pp_extra = Ptr (next_block \<sigma>) 0\<rparr>"
  from run d obtain \<sigma>1 where r: "bindm (stm32_init_timer H T A (Ptr x 0) ?param) (\<lambda>ret.
       if ret \<noteq> 0 then returnm (- EIO)
       else bindm (put_pdesc (Ptr b 0) (\<lambda>d. d\<lparr>pd_period_ns := period_ns\<rparr>)) (\<lambda>_. returnm 0)) ?\<sigma> = Inr (0, \<sigma>1)"
    and \<sigma>': "\<sigma>' = \<sigma>1\<lparr>pwm_sparams := (pwm_sparams \<sigma>1)(next_block \<sigma> := None)\<rparr>"
    by (auto simp: stm32_pwm_set_period_def bindm_Inr[where m = "deref _ _"] deref_def period_params_def elim!: with_sparam_Inr)
  from r obtain ret \<sigma>2 where i: "stm32_init_timer H T A (Ptr x 0) ?param ?\<sigma> = Inr (ret, \<sigma>2)"
    and p: "(if ret \<noteq> 0 then returnm (- EIO)
       else bindm (put_pdesc (Ptr b 0) (\<lambda>d. d\<lparr>pd_period_ns := period_ns\<rparr>)) (\<lambda>_. returnm 0)) \<sigma>2 = Inr (0, \<sigma>1)"
    by (rule bindm_InrE)
  have "ret = 0" using p by (auto simp: returnm_Inr EIO_def split: if_splits)
  with i have i0: "stm32_init_timer H T A (Ptr x 0) ?param ?\<sigma> = Inr (0, \<sigma>2)" by simp
  obtain w h0 h where w: "timer_period H (period_params e) period_ns ?\<sigma> = Inr (w, ?\<sigma>\<lparr>thw := h0\<rparr>)"
    and \<sigma>2: "\<sigma>2 = ?\<sigma>\<lparr>thw := h, pwm_extras := (pwm_extras ?\<sigma>)(x \<mapsto> e\<lparr>htimer := timer_handle (pd_id d) w (period_params e)\<rparr>)\<rparr>"
    by (rule init_timer_programs[OF i0, where s = "period_params e" and k = "next_block \<sigma>" and e = e])
       (use d in \<open>simp_all add: period_params_def\<close>)
  have "pdescs \<sigma>2 b = Some d" using \<sigma>2 d by simp
  then have "\<sigma>1 = \<sigma>2\<lparr>pdescs := (pdescs \<sigma>2)(b \<mapsto> d\<lparr>pd_period_ns := period_ns\<rparr>)\<rparr>"
    using p \<open>ret = 0\<close> by (simp add: put_pdesc_def bindm_unfold run_simps)
  then show thesis using that[of w h0] w \<sigma>2 \<sigma>' by simp
qed

text \<open>The product the code rounds when it reads the period back.\<close>

lemma period_back:
  assumes n: "0 \<le> n" "\<bar>n * 1000000000 - h * of_int P\<bar> \<le> 2000000000" and h: "1 \<le> h" and P: "0 \<le> P" "P \<le> 2 ^ 31"
  defines "z \<equiv> fl64 (n * fl64 (1000000000 / h))"
  shows "0 \<le> z" and "z < 2 ^ 32" and "\<bar>of_int (\<lfloor>z\<rfloor> - P)\<bar> * h \<le> 2000000000 + 2 * h"
proof -
  define x where "x = n * (1000000000 / h)"
  have x: "\<bar>x - of_int P\<bar> * h \<le> 2000000000"
  proof -
    have "(x - of_int P) * h = n * 1000000000 - h * of_int P" using h by (simp add: x_def field_simps)
    then show ?thesis using n(2) h by (metis abs_mult abs_of_nonneg order_trans zero_le_one)
  qed
  have near: "\<bar>z - x\<bar> \<le> x / 2 ^ 51" and z: "0 \<le> z"
    using rounded_product[OF n(1), of "1000000000 / h"] h by (simp_all add: z_def x_def)
  show "0 \<le> z" by (rule z)
  have "\<bar>x - of_int P\<bar> \<le> \<bar>x - of_int P\<bar> * h" using mult_left_mono[OF h, of "\<bar>x - of_int P\<bar>"] by simp
  moreover have "(of_int P :: rat) \<le> of_int (2 ^ 31)" using P(2) by (simp only: of_int_le_iff)
  ultimately have "x \<le> 4147483648" using x by simp
  then have "x / 2 ^ 51 \<le> 1 / 2" by simp
  then have zx: "\<bar>z - x\<bar> \<le> 1 / 2" using near by linarith
  have "z \<le> 4147483649" using zx \<open>x \<le> 4147483648\<close> by linarith
  then show "z < 2 ^ 32" by (rule le_less_trans) simp
  have "of_int \<lfloor>z\<rfloor> \<le> z" "z < of_int \<lfloor>z\<rfloor> + 1" by linarith+
  then have "\<bar>of_int (\<lfloor>z\<rfloor> - P)\<bar> \<le> \<bar>x - of_int P\<bar> + 2" using zx unfolding of_int_diff by linarith
  then have "\<bar>of_int (\<lfloor>z\<rfloor> - P)\<bar> * h \<le> (\<bar>x - of_int P\<bar> + 2) * h" using h by (intro mult_right_mono) simp_all
  also have "\<dots> \<le> 2000000000 + 2 * h" using x by (simp add: algebra_simps)
  finally show "\<bar>of_int (\<lfloor>z\<rfloor> - P)\<bar> * h \<le> 2000000000 + 2 * h" .
qed

lemma timer_period_ticks:
  assumes "timer_period H s period_ns \<sigma> = Inr (w, \<sigma>')" and "ti_get_timer_clock s = Some f"
  shows "ti_prescaler s + 1 \<noteq> 0"
    and "compute_period_ticks (fst (timer_clock H f (thw \<sigma>)) * ti_clock_divider s div (ti_prescaler s + 1)) period_ns
           (\<sigma>\<lparr>thw := snd (timer_clock H f (thw \<sigma>))\<rparr>) = Inr (w, \<sigma>')"
  using assms by (auto simp: timer_period_def on_thw_run udiv32_def bindm_unfold run_simps split: if_splits)

lemma get_period_run:
  assumes d: "pdescs \<sigma> b = Some d" "pd_extra d = Ptr x 0" "pwm_extras \<sigma> x = Some e" "td_get_timer_clock e = Some f"
    and hz: "fst (timer_clock H f (thw \<sigma>)) * td_clock_divider e div (td_prescaler e + 1) = hz" "hz \<noteq> 0" "td_prescaler e + 1 \<noteq> 0"
    and z: "fl64 (of_nat (unat (tim_Period (htimer e) + 1)) * fl64 (1000000000 / of_nat (unat hz))) = z" "0 \<le> z" "z < 2 ^ 32"
  shows "stm32_pwm_get_period H (Ptr b 0) (Some v) \<sigma> =
           Inr ((0, Some (of_int \<lfloor>z\<rfloor>)), \<sigma>\<lparr>thw := snd (timer_clock H f (thw \<sigma>))\<rparr>)"
  using assms by (simp add: stm32_pwm_get_period_def on_thw_run udiv32_def to_u32_def bindm_unfold run_simps)

text \<open>From the ticks programmed to the period read back, in units of the period of the timer's clock.\<close>

lemma ticks_to_period:
  assumes n: "\<bar>int n - int (hz * P div 1000000000)\<bar> \<le> 1"
  shows "\<bar>of_nat n * 1000000000 - of_nat hz * of_int (int P)\<bar> \<le> (2000000000 :: rat)"
proof -
  have "\<bar>int n * 1000000000 - int (hz * P)\<bar> \<le> 2000000000"
    using n div_mult_mod_eq[of "hz * P" 1000000000] mod_less_divisor[of 1000000000 "hz * P"] by linarith
  then have "of_int \<bar>int n * 1000000000 - int (hz * P)\<bar> \<le> (of_int 2000000000 :: rat)" by (simp only: of_int_le_iff)
  then show ?thesis by simp
qed


text \<open>A timer of 216 MHz with one generator, all of whose calls to the HAL succeed but starting it.\<close>

definition hal0 :: "unit tim_hal" where
  "hal0 = \<lparr>HAL_TIM_Base_Init = \<lambda>_ h. (True, h), HAL_TIM_ConfigClockSource = \<lambda>_ _ h. (True, h),
     HAL_TIM_PWM_Init = \<lambda>_ h. (True, h), HAL_TIM_OnePulse_Init = \<lambda>_ _ h. (True, h),
     HAL_TIM_SlaveConfigSynchro = \<lambda>_ _ _ h. (True, h), HAL_TIMEx_MasterConfigSynchronization = \<lambda>_ _ _ h. (True, h),
     HAL_TIM_PWM_ConfigChannel = \<lambda>_ _ _ h. (True, h), HAL_TIM_Base_DeInit = \<lambda>_ h. (True, h), HAL_TIM_PWM_DeInit = \<lambda>_ h. (True, h),
     HAL_TIM_PWM_Start = \<lambda>_ _ h. (False, h), HAL_TIM_PWM_Start_IT = \<lambda>_ _ h. (False, h),
     HAL_TIMEx_PWMN_Start = \<lambda>_ _ h. (False, h), HAL_TIMEx_PWMN_Start_IT = \<lambda>_ _ h. (False, h),
     HAL_TIM_PWM_Stop = \<lambda>_ _ h. (True, h), HAL_TIMEx_PWMN_Stop = \<lambda>_ _ h. (True, h), write_CNT = \<lambda>_ _ h. h, write_RCR = \<lambda>_ _ h. h,
     or_EGR = \<lambda>_ _ h. h, or_DIER = \<lambda>_ _ h. h, clear_DIER = \<lambda>_ _ h. h, timer_clock = \<lambda>_ h. (216000000, h)\<rparr>"

definition desc0 :: no_os_pwm_desc where
  "desc0 = \<lparr>pd_mutex = Ptr 5 0, pd_id = 2, pd_period_ns = 5000, pd_duty_cycle_ns = 500, pd_phase_ns = 0,
     pd_polarity = NO_OS_PWM_POLARITY_HIGH, pd_enabled = False, pd_pwm_gpio = NULL, pd_irq_id = 0, pd_pwm_callback = None,
     pd_platform_ops = Some 7, pd_extra = Ptr 1 0\<rparr>"

definition extra0 :: stm32_pwm_desc where
  "extra0 = \<lparr>htimer = \<lparr>tim_Instance = 2, tim_Prescaler = 0, tim_CounterMode = 0, tim_Period = 1079, tim_ClockDivision = 0,
     tim_AutoReloadPreload = 0, tim_RepetitionCounter = 3, tim_State = 0\<rparr>, td_gpio = NULL, td_prescaler = 0,
     td_timer_autoreload = False, td_mode = TIM_OC_PWM1, td_timer_chn = 1, td_complementary_channel = False,
     td_get_timer_clock = Some 9, td_clock_divider = 1, nvic_tim = NULL, td_timer_callback = zero_callback,
     td_repetitions = 3, td_dma_enable = True\<rparr>"

definition pwm0 :: "unit stm32_pwm_state" where
  "pwm0 = \<lparr>blocks = Map.empty, next_block = 6, grants = \<lambda>_ _. True, junk = \<lambda>_ _. 0, sems = [5 \<mapsto> 1], handle_cells = Map.empty,
     idescs = Map.empty, pdescs = [0 \<mapsto> desc0, 2 \<mapsto> desc0], pwm_mutex_table = [NULL, NULL, Ptr 5 0, NULL, NULL],
     pwm_extras = [1 \<mapsto> extra0], pwm_sparams = Map.empty, pin_descs = Map.empty, pin_extras = Map.empty, thw = ()\<rparr>"

definition irqs0 :: "(unit, unit, unit) timer_irqs" where
  "irqs0 = (\<lambda>_. \<lparr>irq_ops_init = None, irq_ops_register_callback = None, irq_ops_unregister_callback = None,
     irq_ops_global_enable = None, irq_ops_global_disable = None, irq_ops_trigger_level_set = None, irq_ops_enable = None,
     irq_ops_disable = None, irq_ops_set_priority = None, irq_ops_remove = None, irq_ops_clear_pending = None\<rparr>)"

definition adr0 :: pwm_addresses where
  "adr0 = \<lparr>irq_ops_adr = 1, callback_adr = 2, desc_adr = \<lambda>_. 3, htimer_adr = \<lambda>_. 4\<rparr>"

lemmas pwm0_defs = hal0_def desc0_def extra0_def pwm0_def

lemma set_period_runs: "\<exists>\<sigma>'. stm32_pwm_set_period hal0 irqs0 adr0 (Ptr 0 0) 1000 pwm0 = Inr (0, \<sigma>')"
  by (simp add: pwm0_defs stm32_pwm_set_period_def with_sparam_def stm32_init_timer_def timer_period_def udiv32_def ticks_example
      put_extra_def put_pdesc_def hal_ok_def on_thw_run bindm_unfold run_simps Let_def)


section \<open>The mutex of a running generator\<close>

lemma pwm_enable_state: "stm32_pwm_enable H desc \<sigma> = Inr (r, \<sigma>') \<Longrightarrow> \<exists>h. \<sigma>' = \<sigma>\<lparr>thw := h\<rparr>"
  by (auto simp: stm32_pwm_enable_def hal_ok_def on_thw_run reg_write_def dma_request_def Let_def bindm_Inr_iff deref_Inr
      modifym_Inr returnm_Inr failm_run thw_same split: if_splits)

lemma pwm_disable_state: "stm32_pwm_disable H desc \<sigma> = Inr (r, \<sigma>') \<Longrightarrow> \<exists>h. \<sigma>' = \<sigma>\<lparr>thw := h\<rparr>"
  by (auto simp: stm32_pwm_disable_def hal_ok_def on_thw_run reg_write_def dma_request_def Let_def bindm_Inr_iff deref_Inr
      modifym_Inr returnm_Inr failm_run thw_same split: if_splits)

lemma no_os_pwm_enable_run:
  fixes \<sigma> :: "('h, 'z) stm32_pwm_state_scheme"
  assumes "pdescs \<sigma> b = Some d" and "pd_platform_ops d = Some ops" and "T ops = stm32_pwm_ops H G I A stack"
  shows "no_os_pwm_enable T (Ptr b 0) \<sigma> = bindm (no_os_mutex_lock (pd_mutex d)) (\<lambda>_. stm32_pwm_enable H (Ptr b 0)) \<sigma>"
    and "no_os_pwm_disable T (Ptr b 0) \<sigma> = bindm (no_os_mutex_unlock (pd_mutex d)) (\<lambda>_. stm32_pwm_disable H (Ptr b 0)) \<sigma>"
  using assms by (simp_all add: no_os_pwm_enable_def no_os_pwm_disable_def pwm_call_def stm32_pwm_ops_def bindm_unfold run_simps)

lemma pwm_enable_takes:
  fixes \<sigma> :: "('h, 'z) stm32_pwm_state_scheme"
  assumes d: "pdescs \<sigma> b = Some d" "pd_platform_ops d = Some ops" "T ops = stm32_pwm_ops H G I A stack"
    and m: "mutex_free \<sigma> (pd_mutex d)" and run: "no_os_pwm_enable T (Ptr b 0) \<sigma> = Inr (ret, \<sigma>')"
  shows "mutex_taken \<sigma>' (pd_mutex d)" and "pdescs \<sigma>' = pdescs \<sigma>"
proof -
  from run obtain h where h: "\<sigma>' = (set_count (pd_mutex d) 0 \<sigma>)\<lparr>thw := h\<rparr>"
    unfolding no_os_pwm_enable_run(1)[where T = T and ops = ops, OF d] bindm_Inr[where m = "no_os_mutex_lock (pd_mutex d)" and s = \<sigma>, OF mutex_lock_ok[OF m]] by (auto dest: pwm_enable_state)
  have "mutex_count \<sigma>' (pd_mutex d) = mutex_count (set_count (pd_mutex d) 0 \<sigma>) (pd_mutex d)"
    by (rule mutex_count_cong) (simp_all add: h)
  also have "\<dots> = Some 0" by (rule mutex_count_set[OF m])
  finally show "mutex_taken \<sigma>' (pd_mutex d)" .
  show "pdescs \<sigma>' = pdescs \<sigma>" by (simp add: h set_count_def)
qed

text \<open>C39: A generator of the STM32 that has been enabled keeps its mutex, also when the platform could
  not start it and the call returned an error: every later call of \<open>no_os_pwm_enable\<close>, for this
  descriptor or for another that shares the mutex (the mutex belongs to the number of the generator, not
  to the descriptor), blocks, until \<open>no_os_pwm_disable\<close> has freed it.\<close>

theorem pwm_enable_keeps_mutex:
  fixes \<sigma> :: "('h, 'z) stm32_pwm_state_scheme"
  assumes d: "pdescs \<sigma> b = Some d" "pd_platform_ops d = Some ops" "T ops = stm32_pwm_ops H G I A stack"
    and m: "mutex_free \<sigma> (pd_mutex d)" and run: "no_os_pwm_enable T (Ptr b 0) \<sigma> = Inr (ret, \<sigma>')"
  shows "(\<forall>b2 d2. pdescs \<sigma> b2 = Some d2 \<and> pd_platform_ops d2 = Some ops \<and> pd_mutex d2 = pd_mutex d \<longrightarrow>
            no_os_pwm_enable T (Ptr b2 0) \<sigma>' = Inl Blocks) \<and>
         (\<forall>ret2 \<sigma>''. no_os_pwm_disable T (Ptr b 0) \<sigma>' = Inr (ret2, \<sigma>'') \<longrightarrow> mutex_free \<sigma>'' (pd_mutex d))"
proof -
  note taken = pwm_enable_takes[OF d m run]
  have blocks: "no_os_pwm_enable T (Ptr b2 0) \<sigma>' = Inl Blocks"
    if "pdescs \<sigma> b2 = Some d2" "pd_platform_ops d2 = Some ops" "pd_mutex d2 = pd_mutex d" for b2 d2
    using no_os_pwm_enable_run(1)[of \<sigma>' b2 d2 ops T H G I A stack] that taken d(3) by (simp add: bindm_Inl mutex_lock_blocks)
  have frees: "mutex_free \<sigma>'' (pd_mutex d)" if "no_os_pwm_disable T (Ptr b 0) \<sigma>' = Inr (ret2, \<sigma>'')" for ret2 \<sigma>''
  proof -
    have "pdescs \<sigma>' b = Some d" using taken(2) d(1) by simp
    from that obtain h where h: "\<sigma>'' = (set_count (pd_mutex d) 1 \<sigma>')\<lparr>thw := h\<rparr>"
      unfolding no_os_pwm_enable_run(2)[where T = T and ops = ops, OF \<open>pdescs \<sigma>' b = Some d\<close> d(2,3)] 
        bindm_Inr[where m = "no_os_mutex_unlock (pd_mutex d)" and s = \<sigma>', OF mutex_unlock_ok[OF taken(1)]]
      by (auto dest: pwm_disable_state)
    have "mutex_count \<sigma>'' (pd_mutex d) = mutex_count (set_count (pd_mutex d) 1 \<sigma>') (pd_mutex d)"
      by (rule mutex_count_cong) (simp_all add: h)
    also have "\<dots> = Some 1" by (rule mutex_count_set[OF taken(1)])
    finally show ?thesis .
  qed
  from blocks frees show ?thesis by blast
qed

definition pins0 :: "unit pin_tables" where
  "pins0 = (\<lambda>_. \<lparr>gpio_ops_get = None, gpio_ops_get_optional = None, gpio_ops_remove = None, gpio_ops_direction_input = None,
     gpio_ops_direction_output = None, gpio_ops_get_direction = None, gpio_ops_set_value = None, gpio_ops_get_value = None\<rparr>)"

definition tables0 :: "nat \<Rightarrow> unit stm32_pwm_state pwm_platform_ops" where
  "tables0 = (\<lambda>_. stm32_pwm_ops hal0 pins0 irqs0 adr0 (NO_OS_PWM_POLARITY_HIGH, False, 0))"

lemma enable_fails: "\<exists>\<sigma>'. no_os_pwm_enable tables0 (Ptr 0 0) pwm0 = Inr (- EIO, \<sigma>')"
  by (simp add: no_os_pwm_enable_def pwm_call_def tables0_def stm32_pwm_ops_def pwm0_defs no_os_mutex_lock_def xSemaphoreTake_def
      queue_of_def stm32_pwm_enable_def dma_request_def reg_write_def hal_ok_def on_thw_run bindm_unfold run_simps Let_def)

theorem pwm_enable_keeps_mutex_witness:
  "\<exists>\<sigma>'. no_os_pwm_enable tables0 (Ptr 0 0) pwm0 = Inr (- EIO, \<sigma>') \<and> no_os_pwm_enable tables0 (Ptr 2 0) \<sigma>' = Inl Blocks"
proof -
  obtain \<sigma>' where r: "no_os_pwm_enable tables0 (Ptr 0 0) pwm0 = Inr (- EIO, \<sigma>')" using enable_fails by blast
  show ?thesis
    using pwm_enable_keeps_mutex[OF _ _ _ _ r, where d = desc0 and ops = 7 and H = hal0 and G = pins0 and I = irqs0 and A = adr0
        and stack = "(NO_OS_PWM_POLARITY_HIGH, False, 0)"] r
    by (simp add: pwm0_def desc0_def tables0_def mutex_count_def)
qed

end
