(* ===== verification/NoOs_Delay.thy ===== *)
theory NoOs_Delay
  imports Float_Round
begin

text \<open>
  Delays (\<open>freertos_delay.c\<close>): the numbers of ticks and the time are computed in floating point,
  over \<open>Float_Round\<close>. The delay of the kernel and the reading of its clock are parameters.
\<close>

section \<open>The functions\<close>

definition configTICK_RATE_HZ :: rat where "configTICK_RATE_HZ = 1000"

definition no_os_udelay :: "(u32 \<Rightarrow> ('s, unit) cm) \<Rightarrow> u32 \<Rightarrow> ('s, unit) cm" where
  "no_os_udelay vTaskDelay usecs =
     bindm (to_u32 (fl64 (configTICK_RATE_HZ * fl64 (of_nat (unat usecs) / 1000000)))) vTaskDelay"

definition no_os_mdelay :: "(u32 \<Rightarrow> ('s, unit) cm) \<Rightarrow> u32 \<Rightarrow> ('s, unit) cm" where
  "no_os_mdelay vTaskDelay msecs =
     bindm (to_u32 (fl64 (configTICK_RATE_HZ * fl64 (of_nat (unat msecs) / 1000)))) vTaskDelay"

record no_os_time =
  time_s :: u32
  time_us :: u32

text \<open>A difference of two numbers, rounded on either side of 0.\<close>

definition sub32 :: "rat \<Rightarrow> rat \<Rightarrow> rat" where
  "sub32 x y = (if y \<le> x then fl32 (x - y) else - fl32 (y - x))"

text \<open>A negative number above -1 converts to 0; \<open>t.us\<close> is an unsigned integer before it is multiplied.\<close>

definition time_of_tick :: "u32 \<Rightarrow> ('s, no_os_time) cm" where
  "time_of_tick Xtime_Global =
     (let x = of_nat (unat Xtime_Global);
          fractional_part = sub32 (fl32 (fl32 x / 1000)) (fl32 (of_nat (unat Xtime_Global div 1000)));
          ms = (if 0 \<le> fractional_part then fl64 (fractional_part * 1000) else - fl64 (- fractional_part * 1000)) in
      bindm (if - 1 < ms \<and> ms < 0 then returnm 0 else to_u32 ms) (\<lambda>us.
      returnm \<lparr>time_s = Xtime_Global div 1000, time_us = us * 1000\<rparr>))"

definition no_os_get_time :: "('s, u32) cm \<Rightarrow> ('s, no_os_time) cm" where
  "no_os_get_time HAL_GetTick = bindm HAL_GetTick time_of_tick"

section \<open>Ticks of a delay\<close>

lemma delay_ticks:
  assumes z: "z = fl64 (configTICK_RATE_HZ * fl64 (of_nat n / c))" and c: "0 < c" and b: "1000 * of_nat n / c < (2 ^ 32 :: rat)"
  shows "0 \<le> z" and "\<bar>z - 1000 * of_nat n / c\<bar> < 1 / 1000"
proof -
  have "\<bar>z - 1000 * (of_nat n / c)\<bar> \<le> 1000 * (of_nat n / c) / 2 ^ 51" "0 \<le> z"
    using rounded_product[of 1000 "of_nat n / c"] c by (simp_all add: z configTICK_RATE_HZ_def)
  moreover have "1000 * (of_nat n / c) / 2 ^ 51 < 1 / 1000" using b by simp
  ultimately show "0 \<le> z" "\<bar>z - 1000 * of_nat n / c\<bar> < 1 / 1000" by simp_all
qed

lemma to_u32_bind:
  assumes "0 \<le> z" and "z < 2 ^ 32"
  obtains w where "bindm (to_u32 z) D \<sigma> = D w \<sigma>" and "int (unat w) = \<lfloor>z\<rfloor>"
  using to_u32_run[OF assms, of \<sigma>] that by (auto simp: bindm_Inr)

lemma rounded_ticks:
  assumes z: "\<bar>z - (of_nat q + of_nat r / 1000)\<bar> < (1 / 1000 :: rat)" and r: "r \<le> 999"
  shows "\<lfloor>z\<rfloor> \<le> int q" and "int q - 1 \<le> \<lfloor>z\<rfloor>" and "z < of_nat q + 1"
proof -
  have "(0 :: rat) \<le> of_nat r" "(of_nat r :: rat) \<le> 999" using r by simp_all
  then have near: "z < of_nat q + 1" "of_nat q - 1 < z" using z by arith+
  then have "z < of_int (int q + 1)" "of_int (int q - 1) \<le> z" by simp_all
  then show "\<lfloor>z\<rfloor> \<le> int q" "int q - 1 \<le> \<lfloor>z\<rfloor>" by (metis floor_less_iff zle_add1_eq_le, metis le_floor_iff)
  show "z < of_nat q + 1" by (rule near(1))
qed

lemma ask_ticks:
  assumes z: "0 \<le> z" "\<bar>z - (of_nat q + of_nat r / 1000)\<bar> < (1 / 1000 :: rat)" and r: "r \<le> 999" and q: "q \<le> 4294967295"
  obtains n where "bindm (to_u32 z) D \<sigma> = D n \<sigma>" and "unat n \<le> q" and "q \<le> unat n + 1"
proof -
  have "(of_nat q :: rat) \<le> of_nat 4294967295" using q by (simp only: of_nat_le_iff)
  then have "(of_nat q :: rat) \<le> 4294967295" by (simp only: of_nat_numeral)
  then have "z < 4294967296" using rounded_ticks(3)[OF z(2) r] by linarith
  then have "z < 2 ^ 32" by simp
  then obtain w where w: "bindm (to_u32 z) D \<sigma> = D w \<sigma>" "int (unat w) = \<lfloor>z\<rfloor>" by (rule to_u32_bind[OF z(1)])
  have "unat w \<le> q" "q \<le> unat w + 1" using rounded_ticks(1,2)[OF z(2) r] unfolding w(2)[symmetric] by linarith+
  then show thesis by (rule that[OF w(1)])
qed

lemma udelay_ticks:
  obtains n where "no_os_udelay D usecs \<sigma> = D n \<sigma>" and "unat n \<le> unat usecs div 1000" and "unat usecs div 1000 \<le> unat n + 1"
proof -
  define u where "u = unat usecs"
  have u: "u < 2 ^ 32" unfolding u_def using unsigned_less[of usecs] by simp
  then have "(of_nat u :: rat) < of_nat (2 ^ 32)" by (simp only: of_nat_less_iff)
  then have b: "1000 * of_nat u / 1000000 < (2 ^ 32 :: rat)" by simp
  have "u = 1000 * (u div 1000) + u mod 1000" by simp
  then have "(of_nat u :: rat) = 1000 * of_nat (u div 1000) + of_nat (u mod 1000)"
    by (metis of_nat_add of_nat_mult of_nat_numeral)
  then have x: "1000 * of_nat u / 1000000 = (of_nat (u div 1000) + of_nat (u mod 1000) / 1000 :: rat)" by simp
  note z = delay_ticks[OF refl zero_less_numeral b, unfolded x]
  have "u mod 1000 \<le> 999" "u div 1000 \<le> 4294967295" using u by simp_all
  then obtain n where "bindm (to_u32 (fl64 (configTICK_RATE_HZ * fl64 (of_nat u / 1000000)))) D \<sigma> = D n \<sigma>"
    "unat n \<le> u div 1000" "u div 1000 \<le> unat n + 1" by (rule ask_ticks[OF z])
  then show thesis unfolding u_def no_os_udelay_def[symmetric] by (rule that)
qed

lemma mdelay_ticks:
  obtains n where "no_os_mdelay D msecs \<sigma> = D n \<sigma>" and "unat n \<le> unat msecs" and "unat msecs \<le> unat n + 1"
proof -
  define u where "u = unat msecs"
  have u: "u < 2 ^ 32" unfolding u_def using unsigned_less[of msecs] by simp
  then have "(of_nat u :: rat) < of_nat (2 ^ 32)" by (simp only: of_nat_less_iff)
  then have b: "1000 * of_nat u / 1000 < (2 ^ 32 :: rat)" by simp
  have x: "1000 * of_nat u / 1000 = (of_nat u + of_nat 0 / 1000 :: rat)" by simp
  note z = delay_ticks[OF refl zero_less_numeral b, unfolded x]
  have "(0 :: nat) \<le> 999" "u \<le> 4294967295" using u by simp_all
  then obtain n where "bindm (to_u32 (fl64 (configTICK_RATE_HZ * fl64 (of_nat u / 1000)))) D \<sigma> = D n \<sigma>"
    "unat n \<le> u" "u \<le> unat n + 1" by (rule ask_ticks[OF z])
  then show thesis unfolding u_def no_os_mdelay_def[symmetric] by (rule that)
qed

lemma mdelay_1001: "no_os_mdelay D 1001 \<sigma> = D 1000 \<sigma>"
proof -
  have 1: "fl64 (1001 / 1000) = 2254051613498933 / 2 ^ 51"
    by (subst rnd_value[where e = 0 and n = 4508103226997866, OF _ _ refl]) (simp_all add: power_int_minus)
  have 2: "fl64 (281756451687366625 / 281474976710656) = 8804889115230207 / 2 ^ 43"
    by (subst rnd_value[where e = 9 and n = 8804889115230207, OF _ _ refl]) (simp_all add: power_int_minus)
  have "\<lfloor>8804889115230207 / 2 ^ 43 :: rat\<rfloor> = 1000" by (rule floor_unique) simp_all
  then have "to_u32 (8804889115230207 / 2 ^ 43) \<sigma> = Inr (1000, \<sigma>)" by (simp add: to_u32_def run_simps)
  then show ?thesis by (simp add: no_os_mdelay_def configTICK_RATE_HZ_def 1 2 bindm_Inr)
qed

text \<open>C40: The delays never fault. A delay of \<open>usecs\<close> microseconds asks the kernel for the whole
  milliseconds it contains, or for one tick less, so that every delay below a millisecond asks for
  none; a delay of \<open>msecs\<close> milliseconds asks for as many ticks or, because of the rounding, for one
  less, as for 1001 ms.\<close>

theorem delays_in_ticks:
  "(\<exists>n. no_os_udelay D usecs \<sigma> = D n \<sigma> \<and> unat n \<le> unat usecs div 1000 \<and> unat usecs div 1000 \<le> unat n + 1) \<and>
   (\<exists>n. no_os_mdelay D msecs \<sigma> = D n \<sigma> \<and> unat n \<le> unat msecs \<and> unat msecs \<le> unat n + 1) \<and>
   no_os_mdelay D 1001 \<sigma> = D 1000 \<sigma>"
  using udelay_ticks[of D usecs \<sigma>] mdelay_ticks[of D msecs \<sigma>] mdelay_1001[of D \<sigma>] by metis

section \<open>The time\<close>

text \<open>The time loses a millisecond after 5 ms; after 135681 s the difference of the two rounded numbers is
  negative, and its conversion to an unsigned integer undefined.\<close>

lemma time_examples:
  "time_of_tick 5 \<sigma> = Inr (\<lparr>time_s = 0, time_us = 4000\<rparr>, \<sigma>)" "time_of_tick 135681000 \<sigma> = Inl Bad_Cast"
proof -
  have 1: "fl32 5 = 5" by (subst rnd_value[where e = 2 and n = 10485760, OF _ _ refl]; simp)
  have 2: "fl32 (1 / 200) = 5368709 / 1073741824"
    by (subst rnd_value[where e = "- 8" and n = 10737418, OF _ _ refl]; simp add: power_int_minus)
  have 3: "fl32 (5368709 / 1073741824) = 5368709 / 1073741824"
    by (subst rnd_value[where e = "- 8" and n = 10737418, OF _ _ refl]; simp add: power_int_minus)
  have 4: "fl64 (671088625 / 134217728) = 671088625 / 134217728"
    by (subst rnd_value[where e = 2 and n = 5629499408384000, OF _ _ refl]; simp add: power_int_minus)
  have 5: "\<lfloor>671088625 / 134217728 :: rat\<rfloor> = 4" by (rule floor_unique) simp_all
  have 0: "fl32 0 = 0" by (simp add: rnd_def)
  show "time_of_tick 5 \<sigma> = Inr (\<lparr>time_s = 0, time_us = 4000\<rparr>, \<sigma>)"
    by (simp add: time_of_tick_def Let_def sub32_def 0 1 2 3 4 5 to_u32_def bindm_unfold run_simps)
  have "\<lfloor>16960125 / 2 :: rat\<rfloor> = 8480062" by (rule floor_unique) simp_all
  then have 6: "fl32 135681000 = 135680992" by (subst rnd_eval[where e = 27]; simp add: rne_def)
  have 7: "fl32 (16960124 / 125) = 8683583 / 64" by (subst rnd_value[where e = 17 and n = 8683583, OF _ _ refl]; simp add: power_int_minus)
  have 8: "fl32 135681 = 135681" by (subst rnd_value[where e = 17 and n = 8683584, OF _ _ refl]; simp add: power_int_minus)
  have 9: "fl32 (1 / 64) = 1 / 64" by (subst rnd_value[where e = "- 6" and n = 8388608, OF _ _ refl]; simp add: power_int_minus)
  have 10: "fl64 (125 / 8) = 125 / 8" by (subst rnd_value[where e = 3 and n = 8796093022208000, OF _ _ refl]; simp add: power_int_minus)
  show "time_of_tick 135681000 \<sigma> = Inl Bad_Cast"
    by (simp add: time_of_tick_def Let_def sub32_def 6 7 8 9 10 to_u32_def bindm_Inl run_simps)
qed

end
