(* ===== verification/Adin1110.thy ===== *)
theory Adin1110
  imports NoOs_Util NoOs_Crc8
begin

text \<open>
  The driver of the ADIN1110 and ADIN2111 Ethernet chips
  (\<open>Libraries/noOS/src/drivers/adin1110.c\<close>). The descriptor is a record, the functions
  are computations over it that return an error code or a value, and every store into
  the frame buffer and every \<open>memcpy\<close> is checked against the bounds of its array. What
  the driver calls below itself (SPI transfers, the reset pin, delays, the allocator) is
  a record of operations on a state of its own, \<open>'d\<close>. The polling loops have no bound in
  the code; they have a fuel, and running out of it is the fault \<^const>\<open>Diverges\<close>.
\<close>

section \<open>Registers and fields\<close>

abbreviation (input) "ADIN1110_BUFF_LEN \<equiv> 1530 :: nat"
abbreviation (input) "ADIN1110_ETH_ALEN \<equiv> 6 :: nat"
abbreviation (input) "ADIN1110_ETH_HDR_LEN \<equiv> 14 :: nat"
abbreviation (input) "ADIN1110_ADDR_FILT_LEN \<equiv> 16 :: nat"

definition ADIN1110_ADDR_MASK :: u32 where "ADIN1110_ADDR_MASK = NO_OS_GENMASK 12 0"
definition ADIN1110_CD_MASK :: u32 where "ADIN1110_CD_MASK = NO_OS_BIT 15"
definition ADIN1110_RW_MASK :: u32 where "ADIN1110_RW_MASK = NO_OS_BIT 13"
definition ADIN1110_SPI_CD :: u32 where "ADIN1110_SPI_CD = NO_OS_BIT 7"
definition ADIN1110_SPI_RW :: u32 where "ADIN1110_SPI_RW = NO_OS_BIT 5"

definition ADIN1110_PHY_ID_REG :: u16 where "ADIN1110_PHY_ID_REG = 1"
definition ADIN1110_RESET_REG :: u16 where "ADIN1110_RESET_REG = 0x03"
definition ADIN1110_CONFIG1_REG :: u16 where "ADIN1110_CONFIG1_REG = 0x04"
definition ADIN1110_CONFIG2_REG :: u16 where "ADIN1110_CONFIG2_REG = 0x06"
definition ADIN1110_STATUS0_REG :: u16 where "ADIN1110_STATUS0_REG = 0x08"
definition ADIN1110_STATUS1_REG :: u16 where "ADIN1110_STATUS1_REG = 0x09"
definition ADIN1110_IMASK1_REG :: u16 where "ADIN1110_IMASK1_REG = 0x0D"
definition ADIN1110_TX_FSIZE_REG :: u16 where "ADIN1110_TX_FSIZE_REG = 0x30"
definition ADIN1110_TX_REG :: u16 where "ADIN1110_TX_REG = 0x31"
definition ADIN1110_TX_SPACE_REG :: u16 where "ADIN1110_TX_SPACE_REG = 0x32"
definition ADIN1110_MAC_RST_STATUS_REG :: u16 where "ADIN1110_MAC_RST_STATUS_REG = 0x3B"
definition ADIN1110_SOFT_RST_REG :: u16 where "ADIN1110_SOFT_RST_REG = 0x3C"
definition ADIN1110_RX_FSIZE_REG :: u16 where "ADIN1110_RX_FSIZE_REG = 0x90"
definition ADIN1110_RX_REG :: u16 where "ADIN1110_RX_REG = 0x91"
definition ADIN2111_RX_P2_FSIZE_REG :: u16 where "ADIN2111_RX_P2_FSIZE_REG = 0xC0"
definition ADIN2111_RX_P2_REG :: u16 where "ADIN2111_RX_P2_REG = 0xC1"

definition ADIN1110_MDIOACC :: "nat \<Rightarrow> u16" where "ADIN1110_MDIOACC x = 0x20 + of_nat x"
definition ADIN1110_MAC_ADDR_FILT_UPR_REG :: "nat \<Rightarrow> u16" where
  "ADIN1110_MAC_ADDR_FILT_UPR_REG x = 0x50 + 2 * of_nat x"
definition ADIN1110_MAC_ADDR_FILT_LWR_REG :: "nat \<Rightarrow> u16" where
  "ADIN1110_MAC_ADDR_FILT_LWR_REG x = 0x51 + 2 * of_nat x"

definition ADIN1110_CONFIG1_SYNC :: u32 where "ADIN1110_CONFIG1_SYNC = NO_OS_BIT 15"
definition ADIN2111_P2_FWD_UNK2HOST_MASK :: u32 where "ADIN2111_P2_FWD_UNK2HOST_MASK = NO_OS_BIT 12"
definition ADIN1110_CRC_APPEND :: u32 where "ADIN1110_CRC_APPEND = NO_OS_BIT 5"
definition ADIN1110_FWD_UNK2HOST_MASK :: u32 where "ADIN1110_FWD_UNK2HOST_MASK = NO_OS_BIT 2"
definition ADIN1110_RESETC_MASK :: u32 where "ADIN1110_RESETC_MASK = NO_OS_BIT 6"
definition ADIN1110_LINK_STATE_MASK :: u32 where "ADIN1110_LINK_STATE_MASK = NO_OS_BIT 0"
definition ADIN2111_RX_RDY_IRQ :: u32 where "ADIN2111_RX_RDY_IRQ = NO_OS_BIT 17"
definition ADIN1110_SPI_ERR_IRQ :: u32 where "ADIN1110_SPI_ERR_IRQ = NO_OS_BIT 10"
definition ADIN1110_RX_RDY_IRQ :: u32 where "ADIN1110_RX_RDY_IRQ = NO_OS_BIT 4"
definition ADIN1110_TX_RDY_IRQ :: u32 where "ADIN1110_TX_RDY_IRQ = NO_OS_BIT 3"
definition ADIN1110_MDIO_TRDONE :: u32 where "ADIN1110_MDIO_TRDONE = NO_OS_BIT 31"
definition ADIN1110_MDIO_ST :: u32 where "ADIN1110_MDIO_ST = NO_OS_GENMASK 29 28"
definition ADIN1110_MDIO_OP :: u32 where "ADIN1110_MDIO_OP = NO_OS_GENMASK 27 26"
definition ADIN1110_MDIO_PRTAD :: u32 where "ADIN1110_MDIO_PRTAD = NO_OS_GENMASK 25 21"
definition ADIN1110_MDIO_DEVAD :: u32 where "ADIN1110_MDIO_DEVAD = NO_OS_GENMASK 20 16"
definition ADIN1110_MDIO_DATA :: u32 where "ADIN1110_MDIO_DATA = NO_OS_GENMASK 15 0"
definition ADIN1110_CRSM_SFT_PD_CNTRL_REG :: u16 where "ADIN1110_CRSM_SFT_PD_CNTRL_REG = 0x8812"
definition ADIN1110_CRSM_SFT_PD_MASK :: u32 where "ADIN1110_CRSM_SFT_PD_MASK = NO_OS_BIT 0"
definition ADIN2111_MAC_ADDR_APPLY2PORT2 :: u32 where "ADIN2111_MAC_ADDR_APPLY2PORT2 = NO_OS_BIT 31"
definition ADIN1110_MAC_ADDR_APPLY2PORT :: u32 where "ADIN1110_MAC_ADDR_APPLY2PORT = NO_OS_BIT 30"
definition ADIN1110_MAC_ADDR_TO_HOST :: u32 where "ADIN1110_MAC_ADDR_TO_HOST = NO_OS_BIT 16"
definition ADIN1110_MAC_ADDR_UPR_MASK :: u32 where "ADIN1110_MAC_ADDR_UPR_MASK = NO_OS_GENMASK 15 0"

definition ADIN1110_SWRESET_KEY1 :: u32 where "ADIN1110_SWRESET_KEY1 = 0x4F1C"
definition ADIN1110_SWRESET_KEY2 :: u32 where "ADIN1110_SWRESET_KEY2 = 0xC1F4"
definition ADIN1110_SWRELEASE_KEY1 :: u32 where "ADIN1110_SWRELEASE_KEY1 = 0x6F1A"
definition ADIN1110_SWRELEASE_KEY2 :: u32 where "ADIN1110_SWRELEASE_KEY2 = 0xA1F6"

definition ADIN1110_MDIO_OP_ADDR :: u32 where "ADIN1110_MDIO_OP_ADDR = 0x0"
definition ADIN1110_MDIO_OP_WR :: u32 where "ADIN1110_MDIO_OP_WR = 0x1"
definition ADIN1110_MDIO_OP_RD :: u32 where "ADIN1110_MDIO_OP_RD = 0x3"

datatype adin1110_chip_id = ADIN1110 | ADIN2111

definition phy_id_of :: "adin1110_chip_id \<Rightarrow> u32" where
  "phy_id_of c = (case c of ADIN1110 \<Rightarrow> 0x0283BC91 | ADIN2111 \<Rightarrow> 0x0283BCA1)"

definition num_ports :: "adin1110_chip_id \<Rightarrow> u32" where
  "num_ports c = (case c of ADIN1110 \<Rightarrow> 1 | ADIN2111 \<Rightarrow> 2)"

section \<open>State\<close>

text \<open>
  The descriptor, with the table \<open>_crc_table\<close> and the state \<open>dev\<close> of everything below the
  driver. \<open>reset_gpio\<close> says whether the pin was given.
\<close>

record 'd adin1110_desc =
  chip_type :: adin1110_chip_id
  mac_address :: "u8 list"
  data_buf :: "u8 list"
  reset_gpio :: bool
  append_crc :: bool
  crc_table :: "u8 list"
  dev :: 'd

record adin1110_init_param =
  p_chip_type :: adin1110_chip_id
  p_mac_address :: "u8 list"
  p_append_crc :: bool

record adin1110_eth_buff =
  eth_len :: u32
  mac_dest :: "u8 list"
  mac_source :: "u8 list"
  ethertype :: "u8 list"
  payload :: "u8 list"

text \<open>
  The operations below the driver. \<open>transfer\<close> gets the bytes to send and returns a code
  and the bytes received; the pin operations get the level; \<open>gpio_remove\<close> gets whether
  there is a pin.
\<close>

record 'd bus =
  transfer :: "u8 list \<Rightarrow> ('d, int \<times> u8 list) cm"
  gpio_get_optional :: "('d, int \<times> bool) cm"
  gpio_direction_output :: "bool \<Rightarrow> ('d, int) cm"
  gpio_set_value :: "bool \<Rightarrow> ('d, int) cm"
  gpio_remove :: "bool \<Rightarrow> ('d, int) cm"
  spi_init :: "('d, int) cm"
  spi_remove :: "('d, int) cm"
  mdelay :: "nat \<Rightarrow> ('d, unit) cm"
  desc_calloc :: "('d, bool) cm"
  desc_free :: "('d, unit) cm"

type_synonym ('d, 'a) am = "('d adin1110_desc, int + 'a) cm"

definition outside :: "('d, 'a) cm \<Rightarrow> ('d adin1110_desc, 'a) cm" where
  "outside m \<sigma> = (case m (dev \<sigma>) of Inl e \<Rightarrow> Inl e | Inr (a, d) \<Rightarrow> Inr (a, \<sigma>\<lparr>dev := d\<rparr>))"

section \<open>Access to the frame buffer\<close>

text \<open>Changing \<open>n\<close> bytes of \<open>desc->data\<close> from offset \<open>i\<close> on.\<close>

definition buf_change :: "nat \<Rightarrow> nat \<Rightarrow> (u8 list \<Rightarrow> u8 list) \<Rightarrow> ('d, unit) am" where
  "buf_change i n f \<sigma> =
     (if i + n \<le> length (data_buf \<sigma>)
      then Inr (Inr (), \<sigma>\<lparr>data_buf := upd_bytes (data_buf \<sigma>) i (f (take n (drop i (data_buf \<sigma>))))\<rparr>)
      else Inl Out_Of_Bounds)"

definition put_be16 :: "u16 \<Rightarrow> nat \<Rightarrow> ('d, unit) am" where
  "put_be16 v i = buf_change i 2 (no_os_put_unaligned_be16 v)"

definition put_be32 :: "u32 \<Rightarrow> nat \<Rightarrow> ('d, unit) am" where
  "put_be32 v i = buf_change i 4 (no_os_put_unaligned_be32 v)"

definition put_byte :: "u8 \<Rightarrow> nat \<Rightarrow> ('d, unit) am" where
  "put_byte v i = buf_change i 1 (\<lambda>_. [v])"

definition put_bytes :: "u8 list \<Rightarrow> nat \<Rightarrow> ('d, unit) am" where
  "put_bytes bs i = buf_change i (length bs) (\<lambda>_. bs)"

definition buf_bytes :: "nat \<Rightarrow> nat \<Rightarrow> ('d, u8 list) am" where
  "buf_bytes i n \<sigma> =
     (if i + n \<le> length (data_buf \<sigma>) then Inr (Inr (take n (drop i (data_buf \<sigma>))), \<sigma>) else Inl Out_Of_Bounds)"

text \<open>The checksum of \<open>n\<close> bytes of the buffer.\<close>

definition buf_crc :: "nat \<Rightarrow> nat \<Rightarrow> ('d, u8) am" where
  "buf_crc i n = bindr (buf_bytes i n) (\<lambda>bs. bindm (getm crc_table) (\<lambda>t. okr (no_os_crc8 t bs 0)))"

text \<open>\<open>no_os_spi_transfer\<close> of the first \<open>n\<close> bytes of the buffer, with \<open>rx_buff\<close> set or not.\<close>

definition spi_transfer :: "'d bus \<Rightarrow> nat \<Rightarrow> bool \<Rightarrow> ('d, unit) am" where
  "spi_transfer B n rx =
     bindr (buf_bytes 0 n) (\<lambda>tx.
     bindm (outside (transfer B tx)) (\<lambda>(ret, bs).
     bindr (if rx then put_bytes (take n bs) 0 else okr ()) (\<lambda>_.
     if ret \<noteq> 0 then errr ret else okr ())))"

section \<open>Registers\<close>

definition adin1110_reg_write :: "'d bus \<Rightarrow> u16 \<Rightarrow> u32 \<Rightarrow> ('d, unit) am" where
  "adin1110_reg_write B addr dat =
     (let addr = ucast (ucast addr AND ADIN1110_ADDR_MASK) :: u16;
          addr = ucast (ucast addr OR (ADIN1110_CD_MASK OR ADIN1110_RW_MASK)) :: u16 in
      bindr (put_be16 addr 0) (\<lambda>_.
      bindm (getm append_crc) (\<lambda>append.
      bindr (if append then bindr (buf_crc 0 2) (\<lambda>c. put_byte c 2) else okr ()) (\<lambda>_.
      let header_len = (if append then 3 else 2) in
      bindr (put_be32 dat header_len) (\<lambda>_.
      bindr (if append then bindr (buf_crc header_len 4) (\<lambda>c. put_byte c (header_len + 4)) else okr ()) (\<lambda>_.
      spi_transfer B (if append then 6 + 1 + 1 else 6) False))))))"

definition adin1110_reg_read :: "'d bus \<Rightarrow> u16 \<Rightarrow> ('d, u32) am" where
  "adin1110_reg_read B addr =
      bindr (put_be16 addr 0) (\<lambda>_.
      bindr (buf_change 0 1 (map (\<lambda>b. b OR ucast ADIN1110_SPI_CD))) (\<lambda>_.
      bindr (put_byte 0 2) (\<lambda>_.
      bindm (getm append_crc) (\<lambda>append.
      bindr (if append then bindr (buf_crc 0 2) (\<lambda>c. bindr (put_byte c 2) (\<lambda>_. put_byte 0 3)) else okr ()) (\<lambda>_.
      let header_len = (if append then 3 + 1 else 3) in
      bindr (spi_transfer B ((if append then 4 + 1 else 4) + header_len) True) (\<lambda>_.
      bindr (if append
             then bindr (buf_crc header_len 4) (\<lambda>crc.
                  bindr (buf_bytes (header_len + 4) 1) (\<lambda>recv_crc.
                  if crc \<noteq> hd recv_crc then errr (- EINVAL) else okr ()))
             else okr ()) (\<lambda>_.
      bindr (buf_bytes header_len 4) (\<lambda>bs.
      okr (no_os_get_unaligned_be32 bs)))))))))"

definition adin1110_reg_update :: "'d bus \<Rightarrow> u16 \<Rightarrow> u32 \<Rightarrow> u32 \<Rightarrow> ('d, unit) am" where
  "adin1110_reg_update B addr msk dat =
     bindr (adin1110_reg_read B addr) (\<lambda>val.
     let val = val AND NOT msk; val = val OR (msk AND dat) in
     adin1110_reg_write B addr val)"

section \<open>The PHY registers behind the MDIO interface\<close>

text \<open>\<open>while (!mdio_done)\<close>: reading an access register until its transaction is done.\<close>

fun mdio_wait :: "'d bus \<Rightarrow> nat \<Rightarrow> u16 \<Rightarrow> ('d, u32) am" where
  "mdio_wait B 0 reg = failm Diverges"
| "mdio_wait B (Suc fuel) reg =
     bindr (adin1110_reg_read B reg) (\<lambda>mdio_val.
     let mdio_done = no_os_field_get ADIN1110_MDIO_TRDONE mdio_val in
     if mdio_done = 0 then mdio_wait B fuel reg else okr mdio_val)"

definition adin1110_mdio_read :: "'d bus \<Rightarrow> nat \<Rightarrow> u32 \<Rightarrow> u32 \<Rightarrow> ('d, u16) am" where
  "adin1110_mdio_read B fuel phy_id reg =
     (let val = no_os_field_prep ADIN1110_MDIO_ST 0x1 OR
                no_os_field_prep ADIN1110_MDIO_OP ADIN1110_MDIO_OP_RD OR
                no_os_field_prep ADIN1110_MDIO_PRTAD phy_id OR
                no_os_field_prep ADIN1110_MDIO_DEVAD reg in
      bindr (adin1110_reg_write B (ADIN1110_MDIOACC 0) val) (\<lambda>_.
      bindr (mdio_wait B fuel (ADIN1110_MDIOACC 0)) (\<lambda>mdio_val.
      okr (ucast (no_os_field_get ADIN1110_MDIO_DATA mdio_val)))))"

definition adin1110_mdio_write :: "'d bus \<Rightarrow> nat \<Rightarrow> u32 \<Rightarrow> u32 \<Rightarrow> u16 \<Rightarrow> ('d, unit) am" where
  "adin1110_mdio_write B fuel phy_id reg dat =
     (let val = no_os_field_prep ADIN1110_MDIO_ST 0x1 OR
                no_os_field_prep ADIN1110_MDIO_OP ADIN1110_MDIO_OP_WR OR
                no_os_field_prep ADIN1110_MDIO_PRTAD phy_id OR
                no_os_field_prep ADIN1110_MDIO_DEVAD reg OR
                no_os_field_prep ADIN1110_MDIO_DATA (ucast dat) in
      bindr (adin1110_reg_write B (ADIN1110_MDIOACC 0) val) (\<lambda>_.
      bindr (mdio_wait B fuel (ADIN1110_MDIOACC 0)) (\<lambda>_.
      okr ())))"

definition adin1110_mdio_write_c45 :: "'d bus \<Rightarrow> nat \<Rightarrow> u32 \<Rightarrow> u32 \<Rightarrow> u32 \<Rightarrow> u16 \<Rightarrow> ('d, unit) am" where
  "adin1110_mdio_write_c45 B fuel phy_id dev_id reg dat =
     (let val = no_os_field_prep ADIN1110_MDIO_ST 0x0 OR
                no_os_field_prep ADIN1110_MDIO_OP ADIN1110_MDIO_OP_ADDR OR
                no_os_field_prep ADIN1110_MDIO_PRTAD phy_id OR
                no_os_field_prep ADIN1110_MDIO_DEVAD dev_id OR
                no_os_field_prep ADIN1110_MDIO_DATA reg in
      bindr (adin1110_reg_write B (ADIN1110_MDIOACC 0) val) (\<lambda>_.
      let val = no_os_field_prep ADIN1110_MDIO_ST 0x0 OR
                no_os_field_prep ADIN1110_MDIO_OP ADIN1110_MDIO_OP_WR OR
                no_os_field_prep ADIN1110_MDIO_PRTAD phy_id OR
                no_os_field_prep ADIN1110_MDIO_DEVAD dev_id OR
                no_os_field_prep ADIN1110_MDIO_DATA (ucast dat) in
      bindr (adin1110_reg_write B (ADIN1110_MDIOACC 1) val) (\<lambda>_.
      bindr (mdio_wait B fuel (ADIN1110_MDIOACC 0)) (\<lambda>_.
      bindr (mdio_wait B fuel (ADIN1110_MDIOACC 1)) (\<lambda>_.
      okr ())))))"

definition adin1110_mdio_read_c45 :: "'d bus \<Rightarrow> nat \<Rightarrow> u32 \<Rightarrow> u32 \<Rightarrow> u16 \<Rightarrow> ('d, u16) am" where
  "adin1110_mdio_read_c45 B fuel phy_id dev_id reg =
     (let val = no_os_field_prep ADIN1110_MDIO_ST 0x0 OR
                no_os_field_prep ADIN1110_MDIO_OP ADIN1110_MDIO_OP_ADDR OR
                no_os_field_prep ADIN1110_MDIO_PRTAD phy_id OR
                no_os_field_prep ADIN1110_MDIO_DEVAD dev_id OR
                no_os_field_prep ADIN1110_MDIO_DATA (ucast reg) in
      bindr (adin1110_reg_write B (ADIN1110_MDIOACC 0) val) (\<lambda>_.
      bindr (mdio_wait B fuel (ADIN1110_MDIOACC 0)) (\<lambda>_.
      let val = no_os_field_prep ADIN1110_MDIO_ST 0x0 OR
                no_os_field_prep ADIN1110_MDIO_OP ADIN1110_MDIO_OP_RD OR
                no_os_field_prep ADIN1110_MDIO_DEVAD dev_id OR
                no_os_field_prep ADIN1110_MDIO_PRTAD phy_id in
      bindr (adin1110_reg_write B (ADIN1110_MDIOACC 1) val) (\<lambda>_.
      bindr (mdio_wait B fuel (ADIN1110_MDIOACC 1)) (\<lambda>mdio_val.
      okr (ucast (no_os_field_get ADIN1110_MDIO_DATA mdio_val)))))))"

section \<open>Address filters\<close>

text \<open>
  The search for a free slot, from slot \<open>i\<close> on with \<open>n\<close> slots left: the slot at the
  \<open>break\<close>, or the value the loop variable ends with.
\<close>

fun find_filter_slot :: "'d bus \<Rightarrow> nat \<Rightarrow> nat \<Rightarrow> ('d, nat) am" where
  "find_filter_slot B i 0 = okr i"
| "find_filter_slot B i (Suc n) =
     bindr (adin1110_reg_read B (ADIN1110_MAC_ADDR_FILT_UPR_REG i)) (\<lambda>temp.
     if temp \<noteq> 0 then find_filter_slot B (Suc i) n
     else
       bindr (adin1110_reg_read B (ADIN1110_MAC_ADDR_FILT_LWR_REG i)) (\<lambda>temp.
       if temp = 0 then okr i else find_filter_slot B (Suc i) n))"

definition adin1110_set_mac_addr :: "'d bus \<Rightarrow> u8 list \<Rightarrow> ('d, unit) am" where
  "adin1110_set_mac_addr B mac =
     bindm (getm chip_type) (\<lambda>chip.
     let addr_upr = ucast (no_os_get_unaligned_be16 mac) :: u32;
         addr_upr = addr_upr OR (ADIN1110_MAC_ADDR_APPLY2PORT OR ADIN1110_MAC_ADDR_TO_HOST);
         addr_upr = (if chip = ADIN2111 then addr_upr OR ADIN2111_MAC_ADDR_APPLY2PORT2 else addr_upr) in
     bindr (find_filter_slot B 0 ADIN1110_ADDR_FILT_LEN) (\<lambda>i.
     bindr (adin1110_reg_write B (ADIN1110_MAC_ADDR_FILT_UPR_REG i) addr_upr) (\<lambda>_.
     let addr_lwr = no_os_get_unaligned_be32 (drop 2 mac) in
     adin1110_reg_write B (ADIN1110_MAC_ADDR_FILT_LWR_REG i) addr_lwr)))"

fun clear_filter_slots :: "'d bus \<Rightarrow> u32 \<Rightarrow> u32 \<Rightarrow> nat \<Rightarrow> nat \<Rightarrow> ('d, unit) am" where
  "clear_filter_slots B addr_upr addr_lwr i 0 = okr ()"
| "clear_filter_slots B addr_upr addr_lwr i (Suc n) =
     bindr (adin1110_reg_read B (ADIN1110_MAC_ADDR_FILT_UPR_REG i)) (\<lambda>temp.
     if addr_upr \<noteq> temp AND ADIN1110_MAC_ADDR_UPR_MASK then clear_filter_slots B addr_upr addr_lwr (Suc i) n
     else
       bindr (adin1110_reg_read B (ADIN1110_MAC_ADDR_FILT_LWR_REG i)) (\<lambda>temp.
       if addr_lwr = temp then
         bindr (adin1110_reg_write B (ADIN1110_MAC_ADDR_FILT_UPR_REG i) 0) (\<lambda>_.
         bindr (adin1110_reg_write B (ADIN1110_MAC_ADDR_FILT_LWR_REG i) 0) (\<lambda>_.
         clear_filter_slots B addr_upr addr_lwr (Suc i) n))
       else clear_filter_slots B addr_upr addr_lwr (Suc i) n))"

definition adin1110_clear_mac_addr :: "'d bus \<Rightarrow> u8 list \<Rightarrow> ('d, unit) am" where
  "adin1110_clear_mac_addr B mac =
     (let addr_upr = ucast (no_os_get_unaligned_be16 mac);
          addr_lwr = no_os_get_unaligned_be32 (drop 2 mac) in
      clear_filter_slots B addr_upr addr_lwr 0 ADIN1110_ADDR_FILT_LEN)"

definition adin1110_broadcast_filter :: "'d bus \<Rightarrow> bool \<Rightarrow> ('d, unit) am" where
  "adin1110_broadcast_filter B enabled =
     (let broadcast_addr = replicate ADIN1110_ETH_ALEN 0xFF in
      if enabled then adin1110_set_mac_addr B broadcast_addr else adin1110_clear_mac_addr B broadcast_addr)"

section \<open>Frames\<close>

text \<open>\<open>memcpy\<close> of \<open>n\<close> bytes of an array of the caller into the buffer.\<close>

definition copy_in :: "u8 list \<Rightarrow> nat \<Rightarrow> nat \<Rightarrow> ('d, unit) am" where
  "copy_in src n i = (if n \<le> length src then put_bytes (take n src) i else failm Out_Of_Bounds)"

definition adin1110_write_fifo :: "'d bus \<Rightarrow> u32 \<Rightarrow> adin1110_eth_buff \<Rightarrow> ('d, unit) am" where
  "adin1110_write_fifo B port eth =
     bindm (getm chip_type) (\<lambda>chip.
     if port \<ge> num_ports chip then errr (- EINVAL)
     else
       let padding = (if eth_len eth + 4 < 64 then 64 - (eth_len eth + 4) else 0);
           padded_len = eth_len eth + padding + 2;
           round_len = no_os_align padded_len 4 in
       bindr (adin1110_reg_read B ADIN1110_TX_SPACE_REG) (\<lambda>tx_space.
       if padded_len > 2 * (tx_space - 2) then errr (- EAGAIN)
       else
         bindr (adin1110_reg_write B ADIN1110_TX_FSIZE_REG padded_len) (\<lambda>_.
         bindr (put_be16 ADIN1110_TX_REG 0) (\<lambda>_.
         bindr (buf_change 0 1 (map (\<lambda>b. b OR ucast (ADIN1110_SPI_CD OR ADIN1110_SPI_RW)))) (\<lambda>_.
         bindm (getm append_crc) (\<lambda>append.
         bindr (if append then bindr (buf_crc 0 2) (\<lambda>c. put_byte c 2) else okr ()) (\<lambda>_.
         let header_len = (if append then 3 else 2) in
         bindr (put_be16 (ucast port) header_len) (\<lambda>_.
         let bytes_number = round_len + of_nat header_len;
             frame_offset = header_len + 2 in
         bindr (copy_in (mac_dest eth @ mac_source eth @ ethertype eth) ADIN1110_ETH_HDR_LEN frame_offset) (\<lambda>_.
         bindr (copy_in (payload eth) (unat (eth_len eth - 14)) (frame_offset + ADIN1110_ETH_HDR_LEN)) (\<lambda>_.
         spi_transfer B (unat bytes_number) False))))))))))"

definition adin1110_read_fifo :: "'d bus \<Rightarrow> u32 \<Rightarrow> adin1110_eth_buff \<Rightarrow> ('d, adin1110_eth_buff) am" where
  "adin1110_read_fifo B port eth =
     bindm (getm chip_type) (\<lambda>chip.
     if port \<ge> num_ports chip then errr (- EINVAL)
     else
       let fifo_reg = (if port = 0 then ADIN1110_RX_REG else ADIN2111_RX_P2_REG);
           fifo_fsize_reg = (if port = 0 then ADIN1110_RX_FSIZE_REG else ADIN2111_RX_P2_FSIZE_REG) in
       bindr (adin1110_reg_read B fifo_fsize_reg) (\<lambda>frame_size.
       if frame_size < 2 + 4 then okr eth
       else
         bindr (put_bytes (replicate ADIN1110_BUFF_LEN 0) 0) (\<lambda>_.
         bindr (put_be16 fifo_reg 0) (\<lambda>_.
         bindr (buf_change 0 1 (map (\<lambda>b. b OR ucast ADIN1110_SPI_CD))) (\<lambda>_.
         bindr (put_byte 0 2) (\<lambda>_.
         bindm (getm append_crc) (\<lambda>append.
         bindr (if append then bindr (buf_crc 0 2) (\<lambda>c. bindr (put_byte c 2) (\<lambda>_. put_byte 0 3)) else okr ()) (\<lambda>_.
         let field_offset = (if append then 4 else 3) in
         bindr (put_be16 (ucast port) field_offset) (\<lambda>_.
         let rounded_len = no_os_align frame_size 4;
             bytes_number = rounded_len + of_nat field_offset;
             field_offset = field_offset + 2 in
         bindr (spi_transfer B (unat bytes_number) True) (\<lambda>_.
         let payload_length = unat (frame_size - 2 - 14) in
         bindr (buf_bytes field_offset ADIN1110_ETH_HDR_LEN) (\<lambda>hdr.
         bindr (buf_bytes (field_offset + ADIN1110_ETH_HDR_LEN) payload_length) (\<lambda>body.
         if payload_length > length (payload eth) then failm Out_Of_Bounds
         else
           okr (eth\<lparr>mac_dest := take 6 hdr, mac_source := take 6 (drop 6 hdr), ethertype := drop 12 hdr,
             payload := upd_bytes (payload eth) 0 body, eth_len := frame_size - 2\<rparr>)))))))))))))"

section \<open>Resets and link state\<close>

definition adin1110_mac_reset :: "'d bus \<Rightarrow> ('d, unit) am" where
  "adin1110_mac_reset B =
     bindr (adin1110_reg_write B ADIN1110_SOFT_RST_REG ADIN1110_SWRESET_KEY1) (\<lambda>_.
     bindr (adin1110_reg_write B ADIN1110_SOFT_RST_REG ADIN1110_SWRESET_KEY2) (\<lambda>_.
     bindr (adin1110_reg_write B ADIN1110_SOFT_RST_REG ADIN1110_SWRELEASE_KEY1) (\<lambda>_.
     bindr (adin1110_reg_write B ADIN1110_SOFT_RST_REG ADIN1110_SWRELEASE_KEY2) (\<lambda>_.
     bindr (adin1110_reg_read B ADIN1110_MAC_RST_STATUS_REG) (\<lambda>val.
     if val = 0 then errr (- EBUSY) else okr ())))))"

definition adin1110_check_reset :: "'d bus \<Rightarrow> ('d, unit) am" where
  "adin1110_check_reset B =
     bindr (adin1110_reg_read B ADIN1110_STATUS0_REG) (\<lambda>reg_val.
     let reg_val = no_os_field_get ADIN1110_RESETC_MASK reg_val in
     if reg_val = 0 then errr (- EBUSY)
     else adin1110_reg_update B ADIN1110_CONFIG1_REG ADIN1110_CONFIG1_SYNC ADIN1110_CONFIG1_SYNC)"

definition adin1110_phy_reset :: "'d bus \<Rightarrow> ('d, unit) am" where
  "adin1110_phy_reset B =
     bindm (getm reset_gpio) (\<lambda>gpio.
     bindr (if gpio then checked (outside (gpio_set_value B False)) else okr ()) (\<lambda>_.
     bindm (outside (mdelay B 10)) (\<lambda>_.
     bindr (if gpio then checked (outside (gpio_set_value B True)) else okr ()) (\<lambda>_.
     bindm (outside (mdelay B 90)) (\<lambda>_.
     bindr (adin1110_reg_read B ADIN1110_PHY_ID_REG) (\<lambda>phy_id.
     bindm (getm chip_type) (\<lambda>chip.
     if phy_id \<noteq> phy_id_of chip then errr (- EINVAL) else okr ())))))))"

definition adin1110_sw_reset :: "'d bus \<Rightarrow> ('d, unit) am" where
  "adin1110_sw_reset B = adin1110_reg_write B ADIN1110_RESET_REG 0x1"

definition adin1110_link_state :: "'d bus \<Rightarrow> ('d, u32) am" where
  "adin1110_link_state B =
     bindr (adin1110_reg_read B ADIN1110_STATUS1_REG) (\<lambda>state.
     okr (no_os_field_get ADIN1110_LINK_STATE_MASK state))"

definition adin1110_set_promisc :: "'d bus \<Rightarrow> u32 \<Rightarrow> bool \<Rightarrow> ('d, unit) am" where
  "adin1110_set_promisc B port promisc =
     bindm (getm chip_type) (\<lambda>chip.
     if port \<ge> num_ports chip then errr (- EINVAL)
     else
       let fwd_mask = (if port = 0 then ADIN1110_FWD_UNK2HOST_MASK else ADIN2111_P2_FWD_UNK2HOST_MASK) in
       adin1110_reg_update B ADIN1110_CONFIG2_REG fwd_mask (if promisc then fwd_mask else 0))"

section \<open>Setting up and removing\<close>

text \<open>The loop that takes the PHY out of power down, until the register says so.\<close>

fun power_up_loop :: "'d bus \<Rightarrow> nat \<Rightarrow> nat \<Rightarrow> u32 \<Rightarrow> u16 \<Rightarrow> ('d, unit) am" where
  "power_up_loop B polls fuel phy reg_val =
     (if ucast reg_val AND ADIN1110_CRSM_SFT_PD_MASK = 0 then okr ()
      else case fuel of
        0 \<Rightarrow> failm Diverges
      | Suc fuel \<Rightarrow>
          bindr (adin1110_mdio_write_c45 B polls phy 0x1E (ucast ADIN1110_CRSM_SFT_PD_CNTRL_REG) 0x0) (\<lambda>_.
          bindr (adin1110_mdio_read_c45 B polls phy 0x1E ADIN1110_CRSM_SFT_PD_CNTRL_REG) (\<lambda>reg_val.
          power_up_loop B polls fuel phy reg_val)))"

fun setup_ports :: "'d bus \<Rightarrow> nat \<Rightarrow> nat \<Rightarrow> nat \<Rightarrow> ('d, unit) am" where
  "setup_ports B fuel i 0 = okr ()"
| "setup_ports B fuel i (Suc n) =
     bindr (adin1110_mdio_read_c45 B fuel (of_nat i + 1) 0x1E ADIN1110_CRSM_SFT_PD_CNTRL_REG) (\<lambda>reg_val.
     let sw_pd = no_os_field_get ADIN1110_CRSM_SFT_PD_MASK (ucast reg_val) in
     bindr (if sw_pd \<noteq> 0 then power_up_loop B fuel fuel (of_nat i + 1) reg_val else okr ()) (\<lambda>_.
     setup_ports B fuel (Suc i) n))"

definition adin1110_setup_phy :: "'d bus \<Rightarrow> nat \<Rightarrow> ('d, unit) am" where
  "adin1110_setup_phy B fuel = bindm (getm chip_type) (\<lambda>chip. setup_ports B fuel 0 (unat (num_ports chip)))"

definition adin1110_setup_mac :: "'d bus \<Rightarrow> ('d, unit) am" where
  "adin1110_setup_mac B =
     bindr (adin1110_reg_update B ADIN1110_CONFIG2_REG ADIN1110_CRC_APPEND ADIN1110_CRC_APPEND) (\<lambda>_.
     bindm (getm chip_type) (\<lambda>chip.
     let reg_val = ADIN1110_TX_RDY_IRQ OR ADIN1110_RX_RDY_IRQ OR ADIN1110_SPI_ERR_IRQ;
         reg_val = (if chip = ADIN2111 then reg_val OR ADIN2111_RX_RDY_IRQ else reg_val) in
     bindr (adin1110_reg_write B ADIN1110_IMASK1_REG (NOT reg_val)) (\<lambda>_.
     bindm (getm mac_address) (\<lambda>mac. adin1110_set_mac_addr B mac))))"

text \<open>\<open>strncpy\<close> of at most \<open>n\<close> bytes: up to the first zero, then zeros.\<close>

definition strncpy_bytes :: "u8 list \<Rightarrow> nat \<Rightarrow> u8 list" where
  "strncpy_bytes src n = (let s = takeWhile (\<lambda>b. b \<noteq> 0) (take n src) in s @ replicate (n - length s) 0)"

text \<open>The labels at the end of \<open>adin1110_init\<close>, each falling through to the next.\<close>

definition free_desc :: "'d bus \<Rightarrow> int \<Rightarrow> ('d, 'a) am" where
  "free_desc B ret = bindm (outside (desc_free B)) (\<lambda>_. errr ret)"

definition free_rst_gpio :: "'d bus \<Rightarrow> int \<Rightarrow> ('d, 'a) am" where
  "free_rst_gpio B ret =
     bindm (getm reset_gpio) (\<lambda>gpio. bindm (outside (gpio_remove B gpio)) (\<lambda>_. free_desc B ret))"

definition free_spi :: "'d bus \<Rightarrow> int \<Rightarrow> ('d, 'a) am" where
  "free_spi B ret = bindm (outside (spi_remove B)) (\<lambda>_. free_rst_gpio B ret)"

text \<open>\<open>if (ret) goto label;\<close>\<close>

definition on_error :: "('d, 'a) am \<Rightarrow> (int \<Rightarrow> ('d, 'b) am) \<Rightarrow> ('a \<Rightarrow> ('d, 'b) am) \<Rightarrow> ('d, 'b) am" where
  "on_error m label f = bindm m (\<lambda>r. case r of Inl e \<Rightarrow> label e | Inr a \<Rightarrow> f a)"

definition adin1110_init :: "'d bus \<Rightarrow> nat \<Rightarrow> adin1110_init_param \<Rightarrow> ('d, unit) am" where
  "adin1110_init B fuel param =
     bindm (outside (desc_calloc B)) (\<lambda>ok.
     if \<not> ok then errr (- ENOMEM)
     else
       bindm (modifym (\<lambda>\<sigma>. \<sigma>\<lparr>chip_type := ADIN1110, mac_address := replicate ADIN1110_ETH_ALEN 0,
         data_buf := replicate ADIN1110_BUFF_LEN 0, reset_gpio := False, append_crc := False\<rparr>)) (\<lambda>_.
       bindm (outside (gpio_get_optional B)) (\<lambda>(ret, present).
       bindm (modifym (\<lambda>\<sigma>. \<sigma>\<lparr>reset_gpio := present\<rparr>)) (\<lambda>_.
       if ret \<noteq> 0 then free_desc B ret
       else
         on_error (if present then
             bindr (checked (outside (gpio_direction_output B False))) (\<lambda>_.
             bindm (outside (mdelay B 10)) (\<lambda>_.
             bindr (checked (outside (gpio_set_value B True))) (\<lambda>_.
             bindm (outside (mdelay B 90)) (\<lambda>_. okr ()))))
           else okr ()) (free_rst_gpio B) (\<lambda>_.
         on_error (checked (outside (spi_init B))) (free_rst_gpio B) (\<lambda>_.
         bindm (modifym (\<lambda>\<sigma>. \<sigma>\<lparr>crc_table := the (no_os_crc8_populate_msb (Some (crc_table \<sigma>)) 0x7)\<rparr>)) (\<lambda>_.
         bindm (modifym (\<lambda>\<sigma>. \<sigma>\<lparr>mac_address := upd_bytes (mac_address \<sigma>) 0 (strncpy_bytes (p_mac_address param) 6)\<rparr>)) (\<lambda>_.
         bindm (modifym (\<lambda>\<sigma>. \<sigma>\<lparr>mac_address := upd_bytes (mac_address \<sigma>) 0 (take ADIN1110_ETH_ALEN (p_mac_address param)),
           chip_type := p_chip_type param, append_crc := p_append_crc param\<rparr>)) (\<lambda>_.
         on_error (if \<not> present then
             bindr (adin1110_sw_reset B) (\<lambda>_. bindm (outside (mdelay B 90)) (\<lambda>_. okr ()))
           else okr ()) (free_spi B) (\<lambda>_.
         on_error (adin1110_setup_mac B) (free_spi B) (\<lambda>_.
         on_error (adin1110_setup_phy B fuel) (free_spi B) (\<lambda>_.
         on_error (adin1110_check_reset B) (free_spi B) (\<lambda>_.
         okr ())))))))))))))"

text \<open>\<open>desc_null\<close> says whether the descriptor passed is \<open>NULL\<close>.\<close>

definition adin1110_remove :: "'d bus \<Rightarrow> bool \<Rightarrow> ('d, unit) am" where
  "adin1110_remove B desc_null =
     (if desc_null then errr (- EINVAL)
      else
        bindr (checked (outside (spi_remove B))) (\<lambda>_.
        bindm (getm reset_gpio) (\<lambda>gpio.
        bindr (if gpio then checked (outside (gpio_remove B gpio)) else okr ()) (\<lambda>_.
        bindm (outside (desc_free B)) (\<lambda>_. okr ())))))"

end
