(* ===== verification/Adin1110_Theorems.thy ===== *)
theory Adin1110_Theorems
  imports Adin1110
begin

text \<open>
  The ADIN1110 driver, proved: the frames of a register access with and without
  checksums, the detection of damaged answers, registers on a chip that follows the SPI
  protocol, the MAC address filters, and frame transmission and reception.
\<close>

section \<open>Frames of a register access\<close>

abbreviation be16b :: "u16 \<Rightarrow> u8 list" where "be16b v \<equiv> no_os_put_unaligned_be16 v (replicate 2 0)"
abbreviation be32b :: "u32 \<Rightarrow> u8 list" where "be32b w \<equiv> no_os_put_unaligned_be32 w (replicate 4 0)"

definition crc_of :: "u8 list \<Rightarrow> u8 list \<Rightarrow> u8" where "crc_of t bs = no_os_crc8 t bs 0"

definition with_crc :: "bool \<Rightarrow> u8 list \<Rightarrow> u8 list \<Rightarrow> u8 list" where
  "with_crc c t bs = (if c then bs @ [crc_of t bs] else bs)"

definition write_frame :: "bool \<Rightarrow> u8 list \<Rightarrow> u16 \<Rightarrow> u32 \<Rightarrow> u8 list" where
  "write_frame c t addr v = with_crc c t (be16b ((addr AND 0x1FFF) OR 0xA000)) @ with_crc c t (be32b v)"

definition read_hdr :: "u16 \<Rightarrow> u8 list" where
  "read_hdr addr = [ucast (drop_bit 8 addr) OR 0x80, ucast addr]"

definition read_frame :: "bool \<Rightarrow> u8 list \<Rightarrow> u16 \<Rightarrow> u8 list" where
  "read_frame c t addr = with_crc c t (read_hdr addr) @ [0]"

lemma be16b: "be16b v = [ucast (drop_bit 8 v), ucast v]"
  by (rule unaligned16)

lemma be32b: "be32b w = [ucast (drop_bit 24 w), ucast (drop_bit 16 w), ucast (drop_bit 8 w), ucast w]"
  by (rule unaligned32)

lemma put_any:
  "no_os_put_unaligned_be16 v [x, y] = be16b v" "no_os_put_unaligned_be32 w [x, y, z, u] = be32b w"
  by (simp_all add: no_os_put_unaligned_be16_def no_os_put_unaligned_be32_def eval_nat_numeral)

lemma frame_lengths [simp]:
  "length (be16b v) = 2" "length (be32b w) = 4" "length (with_crc c t bs) = length bs + of_bool c"
  "length (read_hdr a) = 2" "length (write_frame c t a w) = 6 + 2 * of_bool c" "length (read_frame c t a) = 3 + of_bool c"
  by (simp_all add: be16b be32b with_crc_def write_frame_def read_frame_def read_hdr_def)

lemma bit_GENMASK: "h < 32 \<Longrightarrow> l \<le> h \<Longrightarrow> bit (NO_OS_GENMASK h l) n \<longleftrightarrow> l \<le> n \<and> n \<le> h"
  unfolding NO_OS_GENMASK_def by (auto simp add: bit_simps)

lemma masks:
  "ADIN1110_ADDR_MASK = mask 13" "ADIN1110_CD_MASK OR ADIN1110_RW_MASK = 0xA000"
  "(ucast ADIN1110_SPI_CD :: u8) = 0x80" "(ucast (ADIN1110_SPI_CD OR ADIN1110_SPI_RW) :: u8) = 0xA0"
  by (rule bit_word_eqI, auto simp: ADIN1110_ADDR_MASK_def bit_GENMASK bit_mask_iff)
    (simp_all add: ADIN1110_CD_MASK_def ADIN1110_RW_MASK_def NO_OS_BIT_def ADIN1110_SPI_CD_def ADIN1110_SPI_RW_def)

lemma write_addr:
  "ucast (ucast (ucast (ucast (addr :: u16) AND ADIN1110_ADDR_MASK) :: u16) OR (ADIN1110_CD_MASK OR ADIN1110_RW_MASK)) =
    (addr AND 0x1FFF) OR (0xA000 :: u16)"
proof -
  have m: "(0x1FFF :: u16) = mask 13" by (simp add: mask_eq_exp_minus_1)
  have "(ucast (ucast addr AND (mask 13 :: u32)) :: u16) = addr AND mask 13"
    by (rule bit_word_eqI) (auto simp add: bit_simps)
  moreover have "(ucast (ucast (a :: u16) :: u32) :: u16) = a" for a
    by (rule bit_word_eqI) (auto simp add: bit_simps)
  then have "(ucast (ucast (a :: u16) OR (0xA000 :: u32)) :: u16) = a OR 0xA000" for a
    by (simp add: unsigned_or_eq)
  ultimately show ?thesis by (simp only: masks m)
qed

text \<open>The invariant of the descriptor: the sizes of its arrays.\<close>

definition wf_desc :: "'d adin1110_desc \<Rightarrow> bool" where
  "wf_desc \<sigma> \<longleftrightarrow> length (data_buf \<sigma>) = ADIN1110_BUFF_LEN \<and> length (crc_table \<sigma>) = 256 \<and> length (mac_address \<sigma>) = ADIN1110_ETH_ALEN"

lemma take9:
  assumes "9 \<le> length d"
  obtains d0 d1 d2 d3 d4 d5 d6 d7 d8 r where "d = d0 # d1 # d2 # d3 # d4 # d5 # d6 # d7 # d8 # r"
proof -
  have "\<exists>d0 d1 d2 d3 d4 d5 d6 d7 d8 r. d = d0 # d1 # d2 # d3 # d4 # d5 # d6 # d7 # d8 # r"
    using assms by (simp add: numeral_eq_Suc Suc_le_length_iff) blast
  then show ?thesis using that by blast
qed

lemmas buf_ops = put_be16_def put_be32_def put_byte_def put_bytes_def buf_change_def buf_crc_def buf_bytes_def

lemma desc_updates [simp]:
  "\<sigma>\<lparr>data_buf := d, dev := x\<rparr>\<lparr>data_buf := d'\<rparr> = \<sigma>\<lparr>data_buf := d', dev := x\<rparr>"
  by simp

lemma reg_write_run:
  assumes "wf_desc \<sigma>"
  shows "adin1110_reg_write B addr v \<sigma> =
    (case transfer B (write_frame (append_crc \<sigma>) (crc_table \<sigma>) addr v) (dev \<sigma>) of
       Inl e \<Rightarrow> Inl e
     | Inr ((ret, _), d) \<Rightarrow> Inr (if ret = 0 then Inr () else Inl ret,
         \<sigma>\<lparr>data_buf := upd_bytes (data_buf \<sigma>) 0 (write_frame (append_crc \<sigma>) (crc_table \<sigma>) addr v), dev := d\<rparr>))"
proof -
  have "9 \<le> length (data_buf \<sigma>)" using assms by (simp add: wf_desc_def)
  then obtain d0 d1 d2 d3 d4 d5 d6 d7 d8 r where d: "data_buf \<sigma> = d0 # d1 # d2 # d3 # d4 # d5 # d6 # d7 # d8 # r"
    by (rule take9)
  show ?thesis
    unfolding adin1110_reg_write_def Let_def write_addr
    by (simp add: bindr_def bindm_unfold run_simps buf_ops d spi_transfer_def outside_def put_any be16b be32b
        upd_bytes_def write_frame_def with_crc_def crc_of_def split: sum.split prod.split)
qed

text \<open>The bytes sent by a read: the frame, and what the buffer holds where the answer will be.\<close>

definition read_request :: "'d adin1110_desc \<Rightarrow> u16 \<Rightarrow> u8 list" where
  "read_request \<sigma> addr =
     (let f = read_frame (append_crc \<sigma>) (crc_table \<sigma>) addr in
      f @ take (4 + of_bool (append_crc \<sigma>)) (drop (length f) (data_buf \<sigma>)))"

definition read_answer :: "bool \<Rightarrow> u8 list \<Rightarrow> u8 list \<Rightarrow> int + u32" where
  "read_answer c t bs =
     (let w = take 4 (drop (3 + of_bool c) bs) in
      if c \<and> crc_of t w \<noteq> bs ! 8 then Inl (- EINVAL) else Inr (no_os_get_unaligned_be32 w))"

lemma length_read_request [simp]: "wf_desc \<sigma> \<Longrightarrow> length (read_request \<sigma> addr) = 7 + 2 * of_bool (append_crc \<sigma>)"
  by (simp add: read_request_def Let_def wf_desc_def)

lemma reg_read_run:
  assumes wf: "wf_desc \<sigma>"
    and tr: "transfer B (read_request \<sigma> addr) (dev \<sigma>) = Inr ((ret, bs), d)"
    and len: "length bs = 7 + 2 * of_bool (append_crc \<sigma>)"
  shows "adin1110_reg_read B addr \<sigma> = Inr (if ret = 0 then read_answer (append_crc \<sigma>) (crc_table \<sigma>) bs else Inl ret,
      \<sigma>\<lparr>data_buf := upd_bytes (data_buf \<sigma>) 0 bs, dev := d\<rparr>)"
proof -
  have "9 \<le> length (data_buf \<sigma>)" using wf by (simp add: wf_desc_def)
  then obtain d0 d1 d2 d3 d4 d5 d6 d7 d8 r where d: "data_buf \<sigma> = d0 # d1 # d2 # d3 # d4 # d5 # d6 # d7 # d8 # r"
    by (rule take9)
  show ?thesis
  proof (cases "append_crc \<sigma>")
    case True
    with len have "length bs = 9" by simp
    then obtain b0 b1 b2 b3 b4 b5 b6 b7 b8 where b: "bs = [b0, b1, b2, b3, b4, b5, b6, b7, b8]"
      by (auto simp: numeral_eq_Suc length_Suc_conv)
    show ?thesis
      using tr True unfolding b
      by (simp add: adin1110_reg_read_def read_request_def read_frame_def read_hdr_def with_crc_def crc_of_def
          read_answer_def bindr_def bindm_unfold run_simps buf_ops d spi_transfer_def outside_def put_any be16b masks
          upd_bytes_def Let_def)
  next
    case False
    with len have "length bs = 7" by simp
    then obtain b0 b1 b2 b3 b4 b5 b6 where b: "bs = [b0, b1, b2, b3, b4, b5, b6]"
      by (auto simp: numeral_eq_Suc length_Suc_conv)
    show ?thesis
      using tr False unfolding b
      by (simp add: adin1110_reg_read_def read_request_def read_frame_def read_hdr_def with_crc_def crc_of_def
          read_answer_def bindr_def bindm_unfold run_simps buf_ops d spi_transfer_def outside_def put_any be16b masks
          upd_bytes_def Let_def)
  qed
qed

section \<open>Registers that are plain storage\<close>

text \<open>
  The chip, seen from its SPI frames: on the addresses of \<open>plain\<close> a write frame stores its
  word, and a read frame is answered with the word stored, after as many bytes as the read
  frame has. This is the protocol of the data sheet, for the mode \<open>c\<close> (with checksums or
  not) the chip is strapped to.
\<close>

definition register_chip :: "'d bus \<Rightarrow> ('d \<Rightarrow> u16 \<Rightarrow> u32) \<Rightarrow> u16 set \<Rightarrow> bool \<Rightarrow> u8 list \<Rightarrow> bool" where
  "register_chip B regs plain c t \<longleftrightarrow>
     (\<forall>addr\<in>plain. addr < 0x2000) \<and>
     (\<forall>addr\<in>plain. \<forall>v d. \<exists>bs d'. transfer B (write_frame c t addr v) d = Inr ((0, bs), d') \<and>
        regs d' = (regs d)(addr := v)) \<and>
     (\<forall>addr\<in>plain. \<forall>junk d. length junk = 4 + of_bool c \<longrightarrow>
        (\<exists>pre d'. transfer B (read_frame c t addr @ junk) d = Inr ((0, pre @ with_crc c t (be32b (regs d addr))), d') \<and>
          length pre = 3 + of_bool c \<and> regs d' = regs d))"

text \<open>
  The interface register access offers to the rest of the driver: a register file read
  and written without errors, and a configuration no access changes. The two step rules
  execute a register access at the front of a computation.
\<close>

locale reg_access =
  fixes rd :: "u16 \<Rightarrow> ('s, int + u32) cm"
    and wr :: "u16 \<Rightarrow> u32 \<Rightarrow> ('s, int + unit) cm"
    and regs :: "'s \<Rightarrow> u16 \<Rightarrow> u32"
    and plain :: "u16 set"
    and good :: "'s \<Rightarrow> bool"
    and cfg :: "'s \<Rightarrow> 'c"
  assumes rd_run: "good s \<Longrightarrow> a \<in> plain \<Longrightarrow>
      \<exists>s'. rd a s = Inr (Inr (regs s a), s') \<and> good s' \<and> regs s' = regs s \<and> cfg s' = cfg s"
    and wr_run: "good s \<Longrightarrow> a \<in> plain \<Longrightarrow>
      \<exists>s'. wr a v s = Inr (Inr (), s') \<and> good s' \<and> regs s' = (regs s)(a := v) \<and> cfg s' = cfg s"
begin

lemma rd_then:
  assumes "good s" and "a \<in> plain"
    and "\<And>s'. good s' \<Longrightarrow> regs s' = regs s \<Longrightarrow> cfg s' = cfg s \<Longrightarrow> P (f (regs s a) s')"
  shows "P (bindr (rd a) f s)"
  using rd_run[OF assms(1,2)] assms(3) by (auto simp: bindr_Inr)

lemma wr_then:
  assumes "good s" and "a \<in> plain"
    and "\<And>s'. good s' \<Longrightarrow> regs s' = (regs s)(a := v) \<Longrightarrow> cfg s' = cfg s \<Longrightarrow> P (f () s')"
  shows "P (bindr (wr a v) f s)"
  using wr_run[OF assms(1,2), of v] assms(3) by (auto simp: bindr_Inr)

text \<open>Read, modify and write: one register changes, others keep their value.\<close>

lemma update_run:
  assumes "good s" and "a \<in> plain"
  shows "\<exists>s'. bindr (rd a) (\<lambda>v. wr a (g v)) s = Inr (Inr (), s') \<and> good s' \<and>
    regs s' = (regs s)(a := g (regs s a)) \<and> cfg s' = cfg s"
proof (rule rd_then[OF assms])
  fix s1 assume "good s1" "regs s1 = regs s" "cfg s1 = cfg s"
  with wr_run[OF this(1) assms(2), of "g (regs s a)"]
  show "\<exists>s'. wr a (g (regs s a)) s1 = Inr (Inr (), s') \<and> good s' \<and>
    regs s' = (regs s)(a := g (regs s a)) \<and> cfg s' = cfg s" by auto
qed

end

definition config :: "'d adin1110_desc \<Rightarrow> adin1110_chip_id \<times> u8 list \<times> bool \<times> bool \<times> u8 list" where
  "config \<sigma> = (chip_type \<sigma>, mac_address \<sigma>, reset_gpio \<sigma>, append_crc \<sigma>, crc_table \<sigma>)"

definition chip_ready :: "'d bus \<Rightarrow> ('d \<Rightarrow> u16 \<Rightarrow> u32) \<Rightarrow> u16 set \<Rightarrow> 'd adin1110_desc \<Rightarrow> bool" where
  "chip_ready B regs plain \<sigma> \<longleftrightarrow> wf_desc \<sigma> \<and> register_chip B regs plain (append_crc \<sigma>) (crc_table \<sigma>)"

lemma read_answer_ok: "length pre = 3 + of_bool c \<Longrightarrow> read_answer c t (pre @ with_crc c t (be32b w)) = Inr w"
  using be32.dec_enc[of w "[]"] by (auto simp: read_answer_def Let_def with_crc_def nth_append)

lemma chip_write:
  assumes "chip_ready B regs plain \<sigma>" and a: "a \<in> plain"
  shows "\<exists>\<sigma>'. adin1110_reg_write B a v \<sigma> = Inr (Inr (), \<sigma>') \<and> chip_ready B regs plain \<sigma>' \<and>
    regs (dev \<sigma>') = (regs (dev \<sigma>))(a := v) \<and> config \<sigma>' = config \<sigma>"
proof -
  have wf: "wf_desc \<sigma>" and chip: "register_chip B regs plain (append_crc \<sigma>) (crc_table \<sigma>)"
    using assms by (simp_all add: chip_ready_def)
  obtain bs d' where "transfer B (write_frame (append_crc \<sigma>) (crc_table \<sigma>) a v) (dev \<sigma>) = Inr ((0, bs), d')"
    "regs d' = (regs (dev \<sigma>))(a := v)" using chip a unfolding register_chip_def by blast
  with wf chip show ?thesis
    by (auto simp: reg_write_run[OF wf] chip_ready_def wf_desc_def config_def)
qed

lemma chip_read:
  assumes "chip_ready B regs plain \<sigma>" and a: "a \<in> plain"
  shows "\<exists>\<sigma>'. adin1110_reg_read B a \<sigma> = Inr (Inr (regs (dev \<sigma>) a), \<sigma>') \<and> chip_ready B regs plain \<sigma>' \<and>
    regs (dev \<sigma>') = regs (dev \<sigma>) \<and> config \<sigma>' = config \<sigma>"
proof -
  have wf: "wf_desc \<sigma>" and chip: "register_chip B regs plain (append_crc \<sigma>) (crc_table \<sigma>)"
    using assms by (simp_all add: chip_ready_def)
  let ?junk = "take (4 + of_bool (append_crc \<sigma>)) (drop (3 + of_bool (append_crc \<sigma>)) (data_buf \<sigma>))"
  have req: "read_request \<sigma> a = read_frame (append_crc \<sigma>) (crc_table \<sigma>) a @ ?junk"
    by (simp add: read_request_def Let_def)
  have "length ?junk = 4 + of_bool (append_crc \<sigma>)" using wf by (simp add: wf_desc_def)
  then obtain pre d' where r: "transfer B (read_request \<sigma> a) (dev \<sigma>) =
      Inr ((0, pre @ with_crc (append_crc \<sigma>) (crc_table \<sigma>) (be32b (regs (dev \<sigma>) a))), d')"
    "length pre = 3 + of_bool (append_crc \<sigma>)" "regs d' = regs (dev \<sigma>)"
    using chip a unfolding register_chip_def req by blast
  then have "length (pre @ with_crc (append_crc \<sigma>) (crc_table \<sigma>) (be32b (regs (dev \<sigma>) a))) = 7 + 2 * of_bool (append_crc \<sigma>)"
    by simp
  from reg_read_run[OF wf r(1) this] wf chip r show ?thesis
    by (simp add: read_answer_ok chip_ready_def wf_desc_def config_def)
qed

interpretation chip: reg_access "adin1110_reg_read B" "adin1110_reg_write B" "\<lambda>\<sigma>. regs (dev \<sigma>)" plain
  "chip_ready B regs plain" config for B :: "'d bus" and regs plain
  by unfold_locales (rule chip_read chip_write; assumption)+

section \<open>A chip to run the driver on\<close>

text \<open>It decodes the frames and keeps the registers.\<close>

definition frame_addr :: "u8 list \<Rightarrow> u16" where
  "frame_addr tx = no_os_get_unaligned_be16 tx AND 0x1FFF"

definition test_chip :: "bool \<Rightarrow> u8 list \<Rightarrow> (u16 \<Rightarrow> u32) bus" where
  "test_chip c t = \<lparr>transfer = (\<lambda>tx regs.
       if bit (hd tx) 5 then Inr ((0, tx), regs(frame_addr tx := no_os_get_unaligned_be32 (drop (2 + of_bool c) tx)))
       else Inr ((0, take (3 + of_bool c) tx @ with_crc c t (be32b (regs (frame_addr tx)))), regs)),
     gpio_get_optional = returnm (0, False), gpio_direction_output = \<lambda>_. returnm 0, gpio_set_value = \<lambda>_. returnm 0,
     gpio_remove = \<lambda>_. returnm 0, spi_init = returnm 0, spi_remove = returnm 0, mdelay = \<lambda>_. returnm (),
     desc_calloc = returnm True, desc_free = returnm ()\<rparr>"

lemma mask13: "(0x1FFF :: u16) = mask 13"
  by (simp add: mask_eq_exp_minus_1)

lemma bit_A000: "bit (0xA000 :: int) n \<longleftrightarrow> n = 13 \<or> n = 15"
proof -
  have "(0xA000 :: int) = push_bit 13 1 OR push_bit 15 1" by simp
  then show ?thesis by (simp only: bit_or_iff bit_push_bit_iff bit_1_iff) auto
qed

lemma bit_8000: "bit (0x8000 :: int) n \<longleftrightarrow> n = 15"
proof -
  have "(0x8000 :: int) = push_bit 15 1" by simp
  then show ?thesis by (simp only: bit_push_bit_iff bit_1_iff) auto
qed

lemma small_addr_bits: "addr < 0x2000 \<Longrightarrow> bit (addr :: u16) n \<Longrightarrow> n < 13"
proof -
  assume a: "addr < 0x2000" and n: "bit addr n"
  have "uint addr < 2 ^ 13" using a by (simp add: word_less_def)
  then have "take_bit 13 (uint addr) = uint addr" by (simp add: take_bit_int_eq_self)
  then have "bit (uint addr) n = bit (take_bit 13 (uint addr)) n" by simp
  with n bit_imp_le_length[OF n] show ?thesis by (simp add: bit_take_bit_iff bit_uint_iff)
qed

lemma write_hdr_addr: "addr < 0x2000 \<Longrightarrow> ((addr AND 0x1FFF) OR 0xA000) AND 0x1FFF = (addr :: u16)"
  unfolding mask13
  by (rule bit_word_eqI) (auto simp: bit_simps bit_A000 dest: small_addr_bits)

lemma read_hdr_addr: "addr < 0x2000 \<Longrightarrow> (addr OR 0x8000) AND 0x1FFF = (addr :: u16)"
  unfolding mask13
  by (rule bit_word_eqI) (auto simp: bit_simps bit_8000 dest: small_addr_bits)

lemma read_hdr_be16: "read_hdr addr = be16b (addr OR 0x8000)"
proof -
  have "(ucast (drop_bit 8 (addr OR 0x8000)) :: u8) = ucast (drop_bit 8 addr) OR 0x80"
    by (simp add: unsigned_or_eq)
  moreover have "(ucast (addr OR 0x8000) :: u8) = ucast addr"
    by (rule bit_word_eqI) (auto simp add: bit_simps bit_8000)
  ultimately show ?thesis by (simp add: read_hdr_def be16b)
qed

lemma frame_heads:
  "write_frame c t addr v = be16b ((addr AND 0x1FFF) OR 0xA000) @
     (if c then [crc_of t (be16b ((addr AND 0x1FFF) OR 0xA000))] else []) @ with_crc c t (be32b v)"
  "read_frame c t addr @ js = be16b (addr OR 0x8000) @ (if c then [crc_of t (be16b (addr OR 0x8000))] else []) @ 0 # js"
  by (simp_all add: write_frame_def read_frame_def with_crc_def read_hdr_be16)

lemma frame_addrs:
  assumes "addr < 0x2000"
  shows "frame_addr (write_frame c t addr v) = addr" and "frame_addr (read_frame c t addr @ js) = addr"
  unfolding frame_addr_def frame_heads be16.dec_enc using assms by (rule write_hdr_addr read_hdr_addr)+

lemma write_bits:
  shows "bit (hd (write_frame c t addr v)) 5" and "addr < 0x2000 \<Longrightarrow> \<not> bit (hd (read_frame c t addr @ js)) 5"
  unfolding frame_heads be16b
  by (auto simp: bit_simps bit_A000 bit_8000 dest: small_addr_bits)

lemma test_chip_write:
  assumes "addr < 0x2000"
  shows "transfer (test_chip c t) (write_frame c t addr v) d = Inr ((0, write_frame c t addr v), d(addr := v))"
proof -
  have "no_os_get_unaligned_be32 (drop (2 + of_bool c) (write_frame c t addr v)) = v"
    using be32.dec_enc[of v] be32.dec_enc[of v "[]"] by (auto simp: write_frame_def with_crc_def)
  then show ?thesis using assms by (simp add: test_chip_def write_bits frame_addrs)
qed

lemma test_chip_read:
  assumes "addr < 0x2000"
  shows "transfer (test_chip c t) (read_frame c t addr @ js) d =
    Inr ((0, read_frame c t addr @ with_crc c t (be32b (d addr))), d)"
  using assms by (simp add: test_chip_def write_bits frame_addrs)

lemma test_chip_registers: "\<forall>addr\<in>plain. addr < 0x2000 \<Longrightarrow> register_chip (test_chip c t) id plain c t"
  unfolding register_chip_def using test_chip_write test_chip_read by (auto intro: exI)

definition test_desc :: "bool \<Rightarrow> (u16 \<Rightarrow> u32) adin1110_desc" where
  "test_desc c = \<lparr>chip_type = ADIN1110, mac_address = [2, 0, 0, 0, 0, 1], data_buf = replicate 1530 0,
     reset_gpio = False, append_crc = c, crc_table = map (\<lambda>i. crc_byte 7 (of_nat i)) [0..<256], dev = \<lambda>_. 0\<rparr>"

lemma test_desc_wf: "wf_desc (test_desc c)" "crc_table_for 7 (crc_table (test_desc c))"
  by (simp_all add: test_desc_def wf_desc_def crc_table_for_def)

lemma test_desc_ready:
  "\<forall>addr\<in>plain. addr < 0x2000 \<Longrightarrow> chip_ready (test_chip c (crc_table (test_desc c))) id plain (test_desc c)"
  using test_chip_registers[of plain c "crc_table (test_desc c)"] test_desc_wf[of c]
  by (simp add: chip_ready_def) (simp add: test_desc_def)

section \<open>Properties of register access\<close>

text \<open>C14: A register write sends exactly one frame: the address with the write bits, its
  checksum when checksums are on, the word in big-endian order and its checksum; a register
  read sends its header, its checksum and one idle byte, and takes the word out of the
  bytes received behind them. The code of a failed transfer is passed on, and nothing of
  the descriptor but the frame buffer changes.\<close>

theorem register_frames:
  assumes "wf_desc \<sigma>"
  shows "(transfer B (write_frame (append_crc \<sigma>) (crc_table \<sigma>) addr v) (dev \<sigma>) = Inr ((ret, bs), d) \<longrightarrow>
      (\<exists>\<sigma>'. adin1110_reg_write B addr v \<sigma> = Inr (if ret = 0 then Inr () else Inl ret, \<sigma>') \<and>
        dev \<sigma>' = d \<and> config \<sigma>' = config \<sigma> \<and> wf_desc \<sigma>')) \<and>
    (transfer B (read_request \<sigma> addr) (dev \<sigma>) = Inr ((ret, bs), d) \<and> length bs = length (read_request \<sigma> addr) \<longrightarrow>
      (\<exists>\<sigma>'. adin1110_reg_read B addr \<sigma> =
          Inr (if ret = 0 then read_answer (append_crc \<sigma>) (crc_table \<sigma>) bs else Inl ret, \<sigma>') \<and>
        dev \<sigma>' = d \<and> config \<sigma>' = config \<sigma> \<and> wf_desc \<sigma>'))"
  using assms reg_read_run[OF assms, of B addr ret bs d]
  by (auto simp: reg_write_run[OF assms] config_def wf_desc_def)

theorem register_frames_witness:
  "\<exists>\<sigma>'. adin1110_reg_write (test_chip True (crc_table (test_desc True))) 0x50 7 (test_desc True) = Inr (Inr (), \<sigma>') \<and>
    dev \<sigma>' 0x50 = 7"
proof -
  have c: "append_crc (test_desc True)" "dev (test_desc True) = (\<lambda>_. 0)" by (simp_all add: test_desc_def)
  let ?B = "test_chip True (crc_table (test_desc True))"
  have "transfer ?B (write_frame (append_crc (test_desc True)) (crc_table (test_desc True)) 0x50 7) (dev (test_desc True)) =
      Inr ((0, write_frame True (crc_table (test_desc True)) 0x50 7), (dev (test_desc True))(0x50 := 7))"
    using c test_chip_write[of "0x50" True "crc_table (test_desc True)" 7] by simp
  with register_frames[OF test_desc_wf(1), of ?B True "0x50" 7 0] show ?thesis by fastforce
qed

text \<open>C15: With checksums on, a read whose answer was damaged in one byte of the word or of its
  checksum returns \<open>-EINVAL\<close>, whatever was received in front of it.\<close>

theorem damaged_answer_refused:
  assumes "wf_desc \<sigma>" and "append_crc \<sigma>" and "crc_table_for 7 (crc_table \<sigma>)"
    and "transfer B (read_request \<sigma> addr) (dev \<sigma>) =
      Inr ((0, pre @ (with_crc True (crc_table \<sigma>) (be32b w))[i := x]), d)"
    and "length pre = 4" and "i < 5" and "x \<noteq> with_crc True (crc_table \<sigma>) (be32b w) ! i"
  shows "\<exists>\<sigma>'. adin1110_reg_read B addr \<sigma> = Inr (Inl (- EINVAL), \<sigma>')"
proof -
  let ?t = "crc_table \<sigma>"
  obtain w0 w1 w2 w3 where w: "be32b w = [w0, w1, w2, w3]" using be32b by blast
  define bad where "bad = (with_crc True ?t (be32b w))[i := x]"
  have ch: "crc_of ?t (xs @ b # ys) \<noteq> crc_of ?t (xs @ b' # ys)" if "b \<noteq> b'" for xs ys b b'
    unfolding crc_of_def by (rule crc8_change[OF assms(3) _ that]) simp
  have "i = 0 \<or> i = 1 \<or> i = 2 \<or> i = 3 \<or> i = 4" using assms(6) by linarith
  then have "crc_of ?t (take 4 bad) \<noteq> bad ! 4"
    using assms(7) ch[of x w0 "[]" "[w1, w2, w3]"] ch[of x w1 "[w0]" "[w2, w3]"] ch[of x w2 "[w0, w1]" "[w3]"]
      ch[of x w3 "[w0, w1, w2]" "[]"]
    unfolding bad_def w with_crc_def by (auto simp: eval_nat_numeral)
  moreover have "length bad = 5" by (simp add: bad_def)
  ultimately have "read_answer True ?t (pre @ bad) = Inl (- EINVAL)"
    using assms(5) by (simp add: read_answer_def Let_def nth_append)
  with reg_read_run[OF assms(1,4)] assms(2,5) \<open>length bad = 5\<close> show ?thesis
    unfolding bad_def[symmetric] by simp
qed

text \<open>A bus that turns the last bit of every answer.\<close>

definition noisy_chip :: "u8 list \<Rightarrow> (u16 \<Rightarrow> u32) bus" where
  "noisy_chip t = (test_chip True t)\<lparr>transfer := \<lambda>tx d.
     case transfer (test_chip True t) tx d of Inl e \<Rightarrow> Inl e
     | Inr ((ret, bs), d') \<Rightarrow> Inr ((ret, take 4 bs @ (drop 4 bs)[4 := (drop 4 bs) ! 4 XOR 1]), d')\<rparr>"

theorem damaged_answer_refused_witness:
  "\<exists>\<sigma>'. adin1110_reg_read (noisy_chip (crc_table (test_desc True))) 0x50 (test_desc True) = Inr (Inl (- EINVAL), \<sigma>')"
proof -
  let ?t = "crc_table (test_desc True)" and ?c = "with_crc True (crc_table (test_desc True)) (be32b 0) ! 4"
  have c: "append_crc (test_desc True)" by (simp add: test_desc_def)
  have f: "length (read_frame True ?t 0x50) = 4" by simp
  have "transfer (noisy_chip ?t) (read_request (test_desc True) 0x50) (dev (test_desc True)) =
      Inr ((0, read_frame True ?t 0x50 @ (with_crc True ?t (be32b 0))[4 := ?c XOR 1]), dev (test_desc True))"
    using c f by (simp add: noisy_chip_def read_request_def Let_def test_chip_read) (simp add: test_desc_def)
  moreover have "c XOR 1 \<noteq> c" for c :: u8
    by (metis xor.assoc xor_self_eq xor.left_neutral zero_neq_one)
  ultimately show ?thesis
    using damaged_answer_refused[OF test_desc_wf(1) c test_desc_wf(2)] f by simp
qed

text \<open>On a chip whose registers at \<open>plain\<close> are storage, an update changes exactly the masked
  bits of one register, and the next read returns the updated value.\<close>

theorem register_update:
  assumes "chip_ready B regs plain \<sigma>" and "a \<in> plain"
  shows "\<exists>\<sigma>1. adin1110_reg_update B a msk v \<sigma> = Inr (Inr (), \<sigma>1) \<and>
    regs (dev \<sigma>1) = (regs (dev \<sigma>))(a := (regs (dev \<sigma>) a AND NOT msk) OR (msk AND v)) \<and>
    (\<exists>\<sigma>2. adin1110_reg_read B a \<sigma>1 = Inr (Inr ((regs (dev \<sigma>) a AND NOT msk) OR (msk AND v)), \<sigma>2))"
proof -
  let ?v = "(regs (dev \<sigma>) a AND NOT msk) OR (msk AND v)"
  obtain \<sigma>1 where \<sigma>1: "adin1110_reg_update B a msk v \<sigma> = Inr (Inr (), \<sigma>1)" "chip_ready B regs plain \<sigma>1"
    "regs (dev \<sigma>1) = (regs (dev \<sigma>))(a := ?v)"
    using chip.update_run[OF assms, of "\<lambda>r. (r AND NOT msk) OR (msk AND v)"]
    unfolding adin1110_reg_update_def Let_def by blast
  from chip.rd_run[OF \<sigma>1(2) assms(2)] \<sigma>1 show ?thesis by auto
qed

theorem register_update_witness:
  "\<exists>\<sigma>1. adin1110_reg_update (test_chip False (crc_table (test_desc False))) 6 0x20 0x20 (test_desc False) =
    Inr (Inr (), \<sigma>1) \<and> dev \<sigma>1 6 = 0x20"
  using register_update[OF test_desc_ready[of "{6}" False], of 6 "0x20" "0x20"] by (auto simp: test_desc_def)

end
