(* ===== verification/Adin1110_Regs.thy ===== *)
theory Adin1110_Regs
  imports Adin1110_Theorems
begin

text \<open>
  What the ADIN1110 driver does with its registers: the polling of the MDIO interface to
  the PHY, and the table of MAC address filters.
\<close>

section \<open>Fields\<close>

lemma first_set_GENMASK: "h < 32 \<Longrightarrow> l \<le> h \<Longrightarrow> unat (no_os_find_first_set_bit (NO_OS_GENMASK h l)) = l"
  by (subst find_first_set_bit_run[of l]) (auto simp: bit_GENMASK unat_of_small)

lemma bit_NO_OS_BIT: "bit (NO_OS_BIT k) n \<longleftrightarrow> n = k \<and> n < 32"
  unfolding NO_OS_BIT_def by (auto simp: bit_simps)

lemma first_set_NO_OS_BIT: "k < 32 \<Longrightarrow> unat (no_os_find_first_set_bit (NO_OS_BIT k)) = k"
  by (subst find_first_set_bit_run[of k]) (auto simp: bit_NO_OS_BIT unat_of_small)

lemma bit_field_prep:
  "h < 32 \<Longrightarrow> l \<le> h \<Longrightarrow> bit (no_os_field_prep (NO_OS_GENMASK h l) v) n \<longleftrightarrow> l \<le> n \<and> n \<le> h \<and> bit v (n - l)"
  by (auto simp: no_os_field_prep_def first_set_GENMASK bit_GENMASK bit_simps)

lemma bit_field_get:
  "h < 32 \<Longrightarrow> l \<le> h \<Longrightarrow> bit (no_os_field_get (NO_OS_GENMASK h l) w) n \<longleftrightarrow> n \<le> h - l \<and> bit w (l + n)"
  by (auto simp: no_os_field_get_def first_set_GENMASK bit_GENMASK bit_simps)

lemma field_get_bit: "k < 32 \<Longrightarrow> no_os_field_get (NO_OS_BIT k) w = of_bool (bit w k)"
  by (rule bit_word_eqI) (auto simp: no_os_field_get_def first_set_NO_OS_BIT bit_NO_OS_BIT bit_simps)

lemma mdio_done: "no_os_field_get ADIN1110_MDIO_TRDONE w = 0 \<longleftrightarrow> \<not> bit w 31"
  unfolding ADIN1110_MDIO_TRDONE_def by (subst field_get_bit) auto

section \<open>Polling\<close>

text \<open>
  The answers of the chip to the polls: the states before and after each, the values
  read, and the first poll at which the transaction is done.
\<close>

definition polled :: "'d bus \<Rightarrow> u16 \<Rightarrow> (nat \<Rightarrow> 'd adin1110_desc) \<Rightarrow> (nat \<Rightarrow> u32) \<Rightarrow> nat \<Rightarrow> bool" where
  "polled B reg s v k \<longleftrightarrow>
     (\<forall>i\<le>k. adin1110_reg_read B reg (s i) = Inr (Inr (v i), s (Suc i))) \<and> (\<forall>i<k. \<not> bit (v i) 31) \<and> bit (v k) 31"

lemma mdio_wait_run:
  "polled B reg s v k \<Longrightarrow>
    mdio_wait B fuel reg (s 0) = (if k < fuel then Inr (Inr (v k), s (Suc k)) else Inl Diverges)"
proof (induction fuel arbitrary: s v k)
  case 0
  then show ?case by (simp add: run_simps)
next
  case (Suc fuel)
  from Suc.prems have r: "adin1110_reg_read B reg (s 0) = Inr (Inr (v 0), s 1)" by (simp add: polled_def)
  show ?case
  proof (cases k)
    case 0
    with Suc.prems have "bit (v 0) 31" by (simp add: polled_def)
    with 0 r show ?thesis by (simp add: bindr_Inr mdio_done run_simps)
  next
    case k: (Suc j)
    with Suc.prems have "\<not> bit (v 0) 31" by (auto simp: polled_def)
    moreover have "polled B reg (\<lambda>i. s (Suc i)) (\<lambda>i. v (Suc i)) j"
      using Suc.prems k by (auto simp: polled_def)
    note Suc.IH[OF this]
    ultimately show ?thesis using r k by (simp add: bindr_Inr mdio_done)
  qed
qed

lemma mdio_wait_forever:
  assumes "\<And>i. adin1110_reg_read B reg (s i) = Inr (Inr (v i), s (Suc i))" and "\<And>i. \<not> bit (v i) 31"
  shows "mdio_wait B fuel reg (s 0) = Inl Diverges"
  using assms
proof (induction fuel arbitrary: s v)
  case (Suc fuel)
  from Suc.IH[of "\<lambda>i. s (Suc i)" "\<lambda>i. v (Suc i)"] Suc.prems show ?case by (simp add: bindr_Inr mdio_done)
qed (simp add: run_simps)

text \<open>The clause 22 command words, field by field.\<close>

definition mdio_command :: "u32 \<Rightarrow> u32 \<Rightarrow> u32 \<Rightarrow> u32" where
  "mdio_command oper phy_id reg =
     0x10000000 OR push_bit 26 oper OR push_bit 21 (phy_id AND 0x1F) OR push_bit 16 (reg AND 0x1F)"

lemma GENMASK_push: "h < 32 \<Longrightarrow> l \<le> h \<Longrightarrow> NO_OS_GENMASK h l = push_bit l (mask (Suc h - l))"
  by (rule bit_word_eqI) (auto simp: bit_GENMASK bit_simps)

lemma field_prep_push:
  "h < 32 \<Longrightarrow> l \<le> h \<Longrightarrow> no_os_field_prep (NO_OS_GENMASK h l) v = push_bit l (v AND mask (Suc h - l))"
  unfolding no_os_field_prep_def by (simp only: first_set_GENMASK) (simp add: GENMASK_push push_bit_and)

lemma mdio_fields:
  "no_os_field_prep ADIN1110_MDIO_ST 0x1 = 0x10000000" "no_os_field_prep ADIN1110_MDIO_ST 0x0 = 0"
  "no_os_field_prep ADIN1110_MDIO_OP v = push_bit 26 (v AND 3)"
  "no_os_field_prep ADIN1110_MDIO_PRTAD v = push_bit 21 (v AND 0x1F)"
  "no_os_field_prep ADIN1110_MDIO_DEVAD v = push_bit 16 (v AND 0x1F)"
  "no_os_field_prep ADIN1110_MDIO_DATA v = v AND 0xFFFF"
proof -
  have m: "mask 2 = (3 :: u32)" "mask 5 = (0x1F :: u32)" "mask 16 = (0xFFFF :: u32)"
    by (simp_all add: mask_eq_exp_minus_1)
  show "no_os_field_prep ADIN1110_MDIO_ST 0x1 = 0x10000000" "no_os_field_prep ADIN1110_MDIO_ST 0x0 = 0"
    "no_os_field_prep ADIN1110_MDIO_OP v = push_bit 26 (v AND 3)"
    "no_os_field_prep ADIN1110_MDIO_PRTAD v = push_bit 21 (v AND 0x1F)"
    "no_os_field_prep ADIN1110_MDIO_DEVAD v = push_bit 16 (v AND 0x1F)"
    "no_os_field_prep ADIN1110_MDIO_DATA v = v AND 0xFFFF"
    unfolding ADIN1110_MDIO_ST_def ADIN1110_MDIO_OP_def ADIN1110_MDIO_PRTAD_def ADIN1110_MDIO_DEVAD_def
      ADIN1110_MDIO_DATA_def
    by (subst field_prep_push, simp, simp, simp add: m)+
qed

lemma mdio_read_command:
  "no_os_field_prep ADIN1110_MDIO_ST 0x1 OR no_os_field_prep ADIN1110_MDIO_OP ADIN1110_MDIO_OP_RD OR
   no_os_field_prep ADIN1110_MDIO_PRTAD phy_id OR no_os_field_prep ADIN1110_MDIO_DEVAD reg = mdio_command 3 phy_id reg"
  unfolding mdio_fields mdio_command_def ADIN1110_MDIO_OP_RD_def by simp

lemma mdio_data: "(ucast (no_os_field_get ADIN1110_MDIO_DATA w) :: u16) = ucast w"
  by (rule bit_word_eqI) (auto simp: ADIN1110_MDIO_DATA_def bit_field_get bit_simps)

text \<open>C16: A clause 22 read of a PHY register writes the command word with the PHY and register
  numbers in their fields and polls the access register: if the chip reports the
  transaction done at the poll \<open>k\<close>, the read returns the low 16 bits of that answer after
  exactly \<open>k + 1\<close> polls; if it never does, the read never returns, for no bound on the
  number of polls is in the code.\<close>

theorem mdio_read_polls:
  assumes "adin1110_reg_write B (ADIN1110_MDIOACC 0) (mdio_command 3 phy_id reg) \<sigma> = Inr (Inr (), s 0)"
  shows "(polled B (ADIN1110_MDIOACC 0) s v k \<longrightarrow>
      adin1110_mdio_read B fuel phy_id reg \<sigma> = (if k < fuel then Inr (Inr (ucast (v k)), s (Suc k)) else Inl Diverges)) \<and>
    ((\<forall>i. adin1110_reg_read B (ADIN1110_MDIOACC 0) (s i) = Inr (Inr (v i), s (Suc i)) \<and> \<not> bit (v i) 31) \<longrightarrow>
      adin1110_mdio_read B fuel phy_id reg \<sigma> = Inl Diverges)"
  using assms mdio_wait_run[of B "ADIN1110_MDIOACC 0" s v k fuel] mdio_wait_forever[of B "ADIN1110_MDIOACC 0" s v fuel]
  unfolding adin1110_mdio_read_def Let_def mdio_read_command
  by (auto simp: bindr_Inr bindr_Inl mdio_data run_simps)

text \<open>A chip that reports every transaction done at once.\<close>

definition prompt_chip :: "(u16 \<Rightarrow> u32) bus" where
  "prompt_chip = (test_chip False [])\<lparr>transfer := \<lambda>tx d.
     if bit (hd tx) 5 then Inr ((0, tx), d(frame_addr tx := no_os_get_unaligned_be32 (drop 2 tx) OR 0x80000000))
     else transfer (test_chip False []) tx d\<rparr>"

lemma prompt_chip_write:
  assumes "addr < 0x2000"
  shows "transfer prompt_chip (write_frame False t addr v) d = Inr ((0, write_frame False t addr v), d(addr := v OR 0x80000000))"
  using assms be32.dec_enc[of v "[]"] by (simp add: prompt_chip_def write_bits frame_addrs) (simp add: write_frame_def with_crc_def)

lemma prompt_chip_read:
  assumes "addr < 0x2000"
  shows "transfer prompt_chip (read_frame False t addr @ js) d = Inr ((0, read_frame False t addr @ be32b (d addr)), d)"
  using assms test_chip_read[OF assms, of False "[]" js d]
  by (simp add: prompt_chip_def write_bits) (simp add: read_frame_def with_crc_def)

theorem mdio_read_polls_witness:
  "\<exists>\<sigma>'. adin1110_mdio_read prompt_chip 1 1 2 (test_desc False) = Inr (Inr 0, \<sigma>')"
proof -
  let ?d = "test_desc False" and ?w = "mdio_command 3 1 2"
  have td: "append_crc ?d = False" "dev ?d = (\<lambda>_. 0)" by (simp_all add: test_desc_def)
  have a: "ADIN1110_MDIOACC 0 = 0x20" by (simp add: ADIN1110_MDIOACC_def)
  obtain \<sigma>0 where \<sigma>0: "adin1110_reg_write prompt_chip 0x20 ?w ?d = Inr (Inr (), \<sigma>0)" "wf_desc \<sigma>0"
    "append_crc \<sigma>0 = False" "dev \<sigma>0 = (\<lambda>_. 0)(0x20 := ?w OR 0x80000000)"
    using prompt_chip_write[of "0x20" "crc_table ?d" ?w "dev ?d"] test_desc_wf(1)[of False]
    by (simp add: reg_write_run td wf_desc_def)
  have "transfer prompt_chip (read_request \<sigma>0 0x20) (dev \<sigma>0) =
      Inr ((0, read_frame False (crc_table \<sigma>0) 0x20 @ with_crc False [] (be32b (?w OR 0x80000000))), dev \<sigma>0)"
    using \<sigma>0 prompt_chip_read[of "0x20"] by (simp add: read_request_def Let_def with_crc_def)
  from reg_read_run[OF \<sigma>0(2) this] obtain \<sigma>1 where
    r: "adin1110_reg_read prompt_chip 0x20 \<sigma>0 = Inr (Inr (?w OR 0x80000000), \<sigma>1)"
    using \<sigma>0(3) read_answer_ok[of "read_frame False (crc_table \<sigma>0) 0x20" False] by (simp add: with_crc_def)
  have "polled prompt_chip 0x20 (\<lambda>i. if i = 0 then \<sigma>0 else \<sigma>1) (\<lambda>_. ?w OR 0x80000000) 0"
    using r by (simp add: polled_def mdio_command_def bit_simps)
  moreover have "(ucast (?w OR 0x80000000) :: u16) = 0" by (simp add: mdio_command_def)
  ultimately show ?thesis
    using mdio_read_polls[of prompt_chip 1 2 ?d "\<lambda>i. if i = 0 then \<sigma>0 else \<sigma>1" "\<lambda>_. ?w OR 0x80000000" 0 1] \<sigma>0(1)
    unfolding a by auto
qed

section \<open>Address filters\<close>

definition filter_regs :: "u16 set" where "filter_regs = {0x50..0x71}"

definition slot_free :: "(u16 \<Rightarrow> u32) \<Rightarrow> nat \<Rightarrow> bool" where
  "slot_free r i \<longleftrightarrow> r (ADIN1110_MAC_ADDR_FILT_UPR_REG i) = 0 \<and> r (ADIN1110_MAC_ADDR_FILT_LWR_REG i) = 0"

definition slot_of :: "u8 list \<Rightarrow> (u16 \<Rightarrow> u32) \<Rightarrow> nat \<Rightarrow> bool" where
  "slot_of mac r i \<longleftrightarrow> r (ADIN1110_MAC_ADDR_FILT_UPR_REG i) AND 0xFFFF = ucast (no_os_get_unaligned_be16 mac) \<and>
     r (ADIN1110_MAC_ADDR_FILT_LWR_REG i) = no_os_get_unaligned_be32 (drop 2 mac)"

lemma unat_filter_regs:
  "i \<le> 16 \<Longrightarrow> unat (ADIN1110_MAC_ADDR_FILT_UPR_REG i) = 0x50 + 2 * i"
  "i \<le> 16 \<Longrightarrow> unat (ADIN1110_MAC_ADDR_FILT_LWR_REG i) = 0x51 + 2 * i"
proof -
  assume i: "i \<le> 16"
  have "ADIN1110_MAC_ADDR_FILT_UPR_REG i = of_nat (0x50 + 2 * i)"
    "ADIN1110_MAC_ADDR_FILT_LWR_REG i = of_nat (0x51 + 2 * i)"
    by (simp_all add: ADIN1110_MAC_ADDR_FILT_UPR_REG_def ADIN1110_MAC_ADDR_FILT_LWR_REG_def)
  then show "unat (ADIN1110_MAC_ADDR_FILT_UPR_REG i) = 0x50 + 2 * i"
    "unat (ADIN1110_MAC_ADDR_FILT_LWR_REG i) = 0x51 + 2 * i"
    using i by (simp_all only: unat_of_nat) simp_all
qed

lemma filter_regs_in:
  "i \<le> 16 \<Longrightarrow> ADIN1110_MAC_ADDR_FILT_UPR_REG i \<in> filter_regs"
  "i \<le> 16 \<Longrightarrow> ADIN1110_MAC_ADDR_FILT_LWR_REG i \<in> filter_regs"
  by (simp_all add: filter_regs_def word_le_nat_alt unat_filter_regs)

lemma filter_regs_eq:
  assumes "i \<le> 16" "j \<le> 16"
  shows "ADIN1110_MAC_ADDR_FILT_UPR_REG i = ADIN1110_MAC_ADDR_FILT_UPR_REG j \<longleftrightarrow> i = j"
    "ADIN1110_MAC_ADDR_FILT_LWR_REG i = ADIN1110_MAC_ADDR_FILT_LWR_REG j \<longleftrightarrow> i = j"
    "ADIN1110_MAC_ADDR_FILT_UPR_REG i \<noteq> ADIN1110_MAC_ADDR_FILT_LWR_REG j"
    "ADIN1110_MAC_ADDR_FILT_LWR_REG i \<noteq> ADIN1110_MAC_ADDR_FILT_UPR_REG j"
  unfolding word_unat_eq_iff using assms by (simp_all add: unat_filter_regs) presburger+

text \<open>The loop over the slots finds the first free one.\<close>

fun first_free :: "(u16 \<Rightarrow> u32) \<Rightarrow> nat \<Rightarrow> nat \<Rightarrow> nat" where
  "first_free r i 0 = i"
| "first_free r i (Suc n) = (if slot_free r i then i else first_free r (Suc i) n)"

lemma find_filter_slot_run:
  assumes "filter_regs \<subseteq> plain"
  shows "chip_ready B regs plain \<sigma> \<Longrightarrow> i + n \<le> 16 \<Longrightarrow>
    \<exists>\<sigma>'. find_filter_slot B i n \<sigma> = Inr (Inr (first_free (regs (dev \<sigma>)) i n), \<sigma>') \<and>
      chip_ready B regs plain \<sigma>' \<and> regs (dev \<sigma>') = regs (dev \<sigma>) \<and> config \<sigma>' = config \<sigma>"
proof (induction n arbitrary: i \<sigma>)
  case 0
  then show ?case by (simp add: run_simps)
next
  case (Suc n)
  let ?P = "\<lambda>x. \<exists>\<sigma>'. x = Inr (Inr (first_free (regs (dev \<sigma>)) i (Suc n)), \<sigma>') \<and>
      chip_ready B regs plain \<sigma>' \<and> regs (dev \<sigma>') = regs (dev \<sigma>) \<and> config \<sigma>' = config \<sigma>"
  have i: "i \<le> 16" using Suc.prems by simp
  have in_plain: "ADIN1110_MAC_ADDR_FILT_UPR_REG i \<in> plain" "ADIN1110_MAC_ADDR_FILT_LWR_REG i \<in> plain"
    using filter_regs_in[OF i] assms by blast+
  have next_slot: "?P (find_filter_slot B (Suc i) n \<sigma>1)" if "chip_ready B regs plain \<sigma>1" "regs (dev \<sigma>1) = regs (dev \<sigma>)"
    "config \<sigma>1 = config \<sigma>" "\<not> slot_free (regs (dev \<sigma>)) i" for \<sigma>1
    using Suc.IH[OF that(1), of "Suc i"] Suc.prems that by simp
  have lower: "?P (bindr (adin1110_reg_read B (ADIN1110_MAC_ADDR_FILT_LWR_REG i))
      (\<lambda>temp. if temp = 0 then okr i else find_filter_slot B (Suc i) n) \<sigma>1)"
    if \<sigma>1: "chip_ready B regs plain \<sigma>1" "regs (dev \<sigma>1) = regs (dev \<sigma>)" "config \<sigma>1 = config \<sigma>"
      "regs (dev \<sigma>) (ADIN1110_MAC_ADDR_FILT_UPR_REG i) = 0" for \<sigma>1
    by (rule chip.rd_then[where P = ?P, OF \<sigma>1(1) in_plain(2)])
      (use \<sigma>1 next_slot in \<open>auto simp: run_simps slot_free_def\<close>)
  show ?case
    unfolding find_filter_slot.simps
    by (rule chip.rd_then[where P = ?P, OF Suc.prems(1) in_plain(1)])
      (use next_slot lower in \<open>auto simp: slot_free_def\<close>)
qed

lemma first_free_least:
  "i \<le> k \<Longrightarrow> k \<le> i + n \<Longrightarrow> (\<forall>j. i \<le> j \<and> j < k \<longrightarrow> \<not> slot_free r j) \<Longrightarrow> k < i + n \<longrightarrow> slot_free r k \<Longrightarrow>
   first_free r i n = k"
proof (induction n arbitrary: i)
  case (Suc n)
  then show ?case by (cases "i = k") auto
qed simp

definition filter_upr :: "adin1110_chip_id \<Rightarrow> u8 list \<Rightarrow> u32" where
  "filter_upr chip mac = (ucast (no_os_get_unaligned_be16 mac) OR 0x40010000) OR (if chip = ADIN2111 then 0x80000000 else 0)"

lemma filter_flags: "ADIN1110_MAC_ADDR_APPLY2PORT OR ADIN1110_MAC_ADDR_TO_HOST = 0x40010000"
  "ADIN2111_MAC_ADDR_APPLY2PORT2 = 0x80000000"
  by (simp_all add: ADIN1110_MAC_ADDR_APPLY2PORT_def ADIN1110_MAC_ADDR_TO_HOST_def ADIN2111_MAC_ADDR_APPLY2PORT2_def
      NO_OS_BIT_def)

lemma set_mac_addr_run:
  assumes ready: "chip_ready B regs plain \<sigma>" and plain: "filter_regs \<subseteq> plain"
    and k: "k \<le> 16" "\<forall>j<k. \<not> slot_free (regs (dev \<sigma>)) j" "k < 16 \<longrightarrow> slot_free (regs (dev \<sigma>)) k"
  shows "\<exists>\<sigma>'. adin1110_set_mac_addr B mac \<sigma> = Inr (Inr (), \<sigma>') \<and> chip_ready B regs plain \<sigma>' \<and>
    regs (dev \<sigma>') = (regs (dev \<sigma>))(ADIN1110_MAC_ADDR_FILT_UPR_REG k := filter_upr (chip_type \<sigma>) mac,
      ADIN1110_MAC_ADDR_FILT_LWR_REG k := no_os_get_unaligned_be32 (drop 2 mac)) \<and> config \<sigma>' = config \<sigma>"
proof -
  have "first_free (regs (dev \<sigma>)) 0 16 = k" by (rule first_free_least) (use k in auto)
  with find_filter_slot_run[OF plain ready, of 0 16] obtain \<sigma>1 where
    \<sigma>1: "find_filter_slot B 0 16 \<sigma> = Inr (Inr k, \<sigma>1)" "chip_ready B regs plain \<sigma>1"
    "regs (dev \<sigma>1) = regs (dev \<sigma>)" "config \<sigma>1 = config \<sigma>" by auto
  have in_plain: "ADIN1110_MAC_ADDR_FILT_UPR_REG k \<in> plain" "ADIN1110_MAC_ADDR_FILT_LWR_REG k \<in> plain"
    using filter_regs_in[OF k(1)] plain by blast+
  obtain \<sigma>2 where \<sigma>2: "adin1110_reg_write B (ADIN1110_MAC_ADDR_FILT_UPR_REG k) (filter_upr (chip_type \<sigma>) mac) \<sigma>1 = Inr (Inr (), \<sigma>2)"
    "chip_ready B regs plain \<sigma>2" "config \<sigma>2 = config \<sigma>1"
    "regs (dev \<sigma>2) = (regs (dev \<sigma>1))(ADIN1110_MAC_ADDR_FILT_UPR_REG k := filter_upr (chip_type \<sigma>) mac)"
    using chip.wr_run[OF \<sigma>1(2) in_plain(1)] by blast
  have upr: "(if chip_type \<sigma> = ADIN2111 then (ucast (no_os_get_unaligned_be16 mac) OR
        (ADIN1110_MAC_ADDR_APPLY2PORT OR ADIN1110_MAC_ADDR_TO_HOST)) OR ADIN2111_MAC_ADDR_APPLY2PORT2
      else ucast (no_os_get_unaligned_be16 mac) OR (ADIN1110_MAC_ADDR_APPLY2PORT OR ADIN1110_MAC_ADDR_TO_HOST)) =
      filter_upr (chip_type \<sigma>) mac"
    by (simp add: filter_upr_def filter_flags)
  from chip.wr_run[OF \<sigma>2(2) in_plain(2), of "no_os_get_unaligned_be32 (drop 2 mac)"] show ?thesis
    unfolding adin1110_set_mac_addr_def Let_def
    using \<sigma>1 \<sigma>2 by (auto simp: bindm_unfold run_simps bindr_Inr upr)
qed

text \<open>On a chip whose filter registers are storage, setting an address filter enters the
  address, with its flags, in the first free slot; when all 16 slots are taken, it
  overwrites the two registers behind the table, the mask registers of the first slot.\<close>

theorem set_mac_addr_slot:
  assumes "chip_ready B regs filter_regs \<sigma>" and "k \<le> 16"
    and "\<forall>j<k. \<not> slot_free (regs (dev \<sigma>)) j" and "k < 16 \<longrightarrow> slot_free (regs (dev \<sigma>)) k"
  shows "\<exists>\<sigma>'. adin1110_set_mac_addr B mac \<sigma> = Inr (Inr (), \<sigma>') \<and>
    regs (dev \<sigma>') = (regs (dev \<sigma>))
     ((if k < 16 then ADIN1110_MAC_ADDR_FILT_UPR_REG k else 0x70) := filter_upr (chip_type \<sigma>) mac,
      (if k < 16 then ADIN1110_MAC_ADDR_FILT_LWR_REG k else 0x71) := no_os_get_unaligned_be32 (drop 2 mac))"
proof -
  have "ADIN1110_MAC_ADDR_FILT_UPR_REG 16 = 0x70" "ADIN1110_MAC_ADDR_FILT_LWR_REG 16 = 0x71"
    by (simp_all add: ADIN1110_MAC_ADDR_FILT_UPR_REG_def ADIN1110_MAC_ADDR_FILT_LWR_REG_def)
  moreover have "k = 16" if "\<not> k < 16" using that assms(2) by simp
  ultimately show ?thesis using set_mac_addr_run[OF assms(1) subset_refl assms(2-4), of mac] by auto
qed

lemma filter_regs_small: "\<forall>addr\<in>filter_regs. addr < 0x2000"
proof
  fix addr assume "addr \<in> filter_regs"
  then have "unat addr \<le> 0x71" by (simp add: filter_regs_def word_le_nat_alt)
  then show "addr < 0x2000" by (simp add: word_less_nat_alt)
qed

lemmas test_filters_ready = test_desc_ready[OF filter_regs_small]

definition full_desc :: "(u16 \<Rightarrow> u32) adin1110_desc" where
  "full_desc = (test_desc False)\<lparr>dev := \<lambda>_. 1\<rparr>"

theorem set_mac_addr_slot_witness:
  "\<exists>\<sigma>'. adin1110_set_mac_addr (test_chip False (crc_table (test_desc False))) [2, 0, 0, 0, 0, 7] full_desc =
    Inr (Inr (), \<sigma>') \<and> dev \<sigma>' 0x71 = 7"
proof -
  have "chip_ready (test_chip False (crc_table (test_desc False))) id filter_regs full_desc"
    using test_filters_ready[of False] by (simp add: chip_ready_def full_desc_def wf_desc_def)
  from set_mac_addr_slot[OF this, of 16 "[2, 0, 0, 0, 0, 7]"] show ?thesis
    by (simp add: full_desc_def slot_free_def no_os_get_unaligned_be32_def) fastforce
qed

text \<open>Clearing: the slots that hold the address are zeroed, all others keep their value.\<close>

definition cleared :: "u8 list \<Rightarrow> (u16 \<Rightarrow> u32) \<Rightarrow> nat \<Rightarrow> nat \<Rightarrow> u16 \<Rightarrow> u32" where
  "cleared mac r i n a =
     (if \<exists>j. i \<le> j \<and> j < i + n \<and> slot_of mac r j \<and>
         (a = ADIN1110_MAC_ADDR_FILT_UPR_REG j \<or> a = ADIN1110_MAC_ADDR_FILT_LWR_REG j) then 0 else r a)"

definition zero_slot :: "nat \<Rightarrow> (u16 \<Rightarrow> u32) \<Rightarrow> u16 \<Rightarrow> u32" where
  "zero_slot i r = r(ADIN1110_MAC_ADDR_FILT_UPR_REG i := 0, ADIN1110_MAC_ADDR_FILT_LWR_REG i := 0)"

lemma slot_of_zero_slot: "i \<le> 16 \<Longrightarrow> j \<le> 16 \<Longrightarrow> i \<noteq> j \<Longrightarrow> slot_of mac (zero_slot i r) j = slot_of mac r j"
  by (simp add: slot_of_def zero_slot_def filter_regs_eq)

lemma cleared_Suc:
  assumes "i + Suc n \<le> 16"
  shows "cleared mac r i (Suc n) = cleared mac (if slot_of mac r i then zero_slot i r else r) (Suc i) n"
proof
  fix a
  have other: "slot_of mac (if slot_of mac r i then zero_slot i r else r) j = slot_of mac r j"
    if "Suc i \<le> j" "j < Suc i + n" for j using that assms slot_of_zero_slot[of i j] by auto
  have split: "(\<exists>j. i \<le> j \<and> j < i + Suc n \<and> Q j) \<longleftrightarrow> Q i \<or> (\<exists>j. Suc i \<le> j \<and> j < Suc i + n \<and> Q j)" for Q
    by (metis Suc_leD Suc_leI add_Suc add_Suc_right le_add1 le_neq_implies_less less_Suc_eq_le order_refl)
  have rest: "(\<exists>j. Suc i \<le> j \<and> j < Suc i + n \<and> slot_of mac (if slot_of mac r i then zero_slot i r else r) j \<and> X j) \<longleftrightarrow>
      (\<exists>j. Suc i \<le> j \<and> j < Suc i + n \<and> slot_of mac r j \<and> X j)" for X
    using other by blast
  show "cleared mac r i (Suc n) a = cleared mac (if slot_of mac r i then zero_slot i r else r) (Suc i) n a"
    unfolding cleared_def split rest by (auto simp: zero_slot_def)
qed

lemma cleared_0: "cleared mac r i 0 = r"
  by (rule ext) (auto simp: cleared_def)

lemma clear_filter_slots_run:
  assumes "filter_regs \<subseteq> plain"
  shows "chip_ready B regs plain \<sigma> \<Longrightarrow> i + n \<le> 16 \<Longrightarrow>
    \<exists>\<sigma>'. clear_filter_slots B (ucast (no_os_get_unaligned_be16 mac)) (no_os_get_unaligned_be32 (drop 2 mac)) i n \<sigma> =
        Inr (Inr (), \<sigma>') \<and> chip_ready B regs plain \<sigma>' \<and>
      regs (dev \<sigma>') = cleared mac (regs (dev \<sigma>)) i n \<and> config \<sigma>' = config \<sigma>"
proof (induction n arbitrary: i \<sigma>)
  case 0
  then show ?case by (simp add: run_simps cleared_0)
next
  case (Suc n)
  let ?C = "clear_filter_slots B (ucast (no_os_get_unaligned_be16 mac)) (no_os_get_unaligned_be32 (drop 2 mac))"
  let ?r = "regs (dev \<sigma>)" and ?U = "ADIN1110_MAC_ADDR_FILT_UPR_REG i" and ?L = "ADIN1110_MAC_ADDR_FILT_LWR_REG i"
  let ?P = "\<lambda>x. \<exists>\<sigma>'. x = Inr (Inr (), \<sigma>') \<and> chip_ready B regs plain \<sigma>' \<and>
      regs (dev \<sigma>') = cleared mac ?r i (Suc n) \<and> config \<sigma>' = config \<sigma>"
  have i: "i \<le> 16" "Suc i + n \<le> 16" using Suc.prems by simp_all
  have in_plain: "?U \<in> plain" "?L \<in> plain" using filter_regs_in[OF i(1)] assms by blast+
  have step: "?P (?C (Suc i) n \<sigma>1)" if "chip_ready B regs plain \<sigma>1" "config \<sigma>1 = config \<sigma>"
    "regs (dev \<sigma>1) = (if slot_of mac ?r i then zero_slot i ?r else ?r)" for \<sigma>1
    using Suc.IH[OF that(1) i(2)] cleared_Suc[OF Suc.prems(2), of mac ?r] that by simp
  have low: "?P (bindr (adin1110_reg_write B ?U 0) (\<lambda>_. bindr (adin1110_reg_write B ?L 0) (\<lambda>_. ?C (Suc i) n)) \<sigma>1)"
    if \<sigma>1: "chip_ready B regs plain \<sigma>1" "regs (dev \<sigma>1) = ?r" "config \<sigma>1 = config \<sigma>" "slot_of mac ?r i" for \<sigma>1
  proof (rule chip.wr_then[where P = ?P, OF \<sigma>1(1) in_plain(1)], rule chip.wr_then[where P = ?P, OF _ in_plain(2)], assumption)
    fix \<sigma>2 \<sigma>3 assume "chip_ready B regs plain \<sigma>3" "regs (dev \<sigma>2) = (regs (dev \<sigma>1))(?U := 0)"
      "regs (dev \<sigma>3) = (regs (dev \<sigma>2))(?L := 0)" "config \<sigma>2 = config \<sigma>1" "config \<sigma>3 = config \<sigma>2"
    with \<sigma>1 step[of \<sigma>3] show "?P (?C (Suc i) n \<sigma>3)" by (simp add: zero_slot_def)
  qed
  have m: "ADIN1110_MAC_ADDR_UPR_MASK = 0xFFFF"
    by (simp add: ADIN1110_MAC_ADDR_UPR_MASK_def GENMASK_push mask_eq_exp_minus_1)
  have upper: "?P (bindr (adin1110_reg_read B ?L) (\<lambda>temp. if no_os_get_unaligned_be32 (drop 2 mac) = temp
        then bindr (adin1110_reg_write B ?U 0) (\<lambda>_. bindr (adin1110_reg_write B ?L 0) (\<lambda>_. ?C (Suc i) n))
        else ?C (Suc i) n) \<sigma>1)"
    if \<sigma>1: "chip_ready B regs plain \<sigma>1" "regs (dev \<sigma>1) = ?r" "config \<sigma>1 = config \<sigma>"
      "?r ?U AND 0xFFFF = ucast (no_os_get_unaligned_be16 mac)" for \<sigma>1
  proof (rule chip.rd_then[where P = ?P, OF \<sigma>1(1) in_plain(2)])
    fix \<sigma>2 assume "chip_ready B regs plain \<sigma>2" "regs (dev \<sigma>2) = regs (dev \<sigma>1)" "config \<sigma>2 = config \<sigma>1"
    with \<sigma>1 low[of \<sigma>2] step[of \<sigma>2]
    show "?P ((if no_os_get_unaligned_be32 (drop 2 mac) = regs (dev \<sigma>1) ?L
        then bindr (adin1110_reg_write B ?U 0) (\<lambda>_. bindr (adin1110_reg_write B ?L 0) (\<lambda>_. ?C (Suc i) n))
        else ?C (Suc i) n) \<sigma>2)"
      by (cases "no_os_get_unaligned_be32 (drop 2 mac) = ?r ?L") (simp_all add: slot_of_def)
  qed
  show ?case
    unfolding clear_filter_slots.simps m
  proof (rule chip.rd_then[where P = ?P, OF Suc.prems(1) in_plain(1)])
    fix \<sigma>1 assume \<sigma>1: "chip_ready B regs plain \<sigma>1" "regs (dev \<sigma>1) = ?r" "config \<sigma>1 = config \<sigma>"
    show "?P ((if ucast (no_os_get_unaligned_be16 mac) \<noteq> ?r ?U AND 0xFFFF then ?C (Suc i) n
        else bindr (adin1110_reg_read B ?L) (\<lambda>temp. if no_os_get_unaligned_be32 (drop 2 mac) = temp
          then bindr (adin1110_reg_write B ?U 0) (\<lambda>_. bindr (adin1110_reg_write B ?L 0) (\<lambda>_. ?C (Suc i) n))
          else ?C (Suc i) n)) \<sigma>1)"
    proof (cases "?r ?U AND 0xFFFF = ucast (no_os_get_unaligned_be16 mac)")
      case True
      with upper[OF \<sigma>1] show ?thesis by simp
    next
      case False
      then have "\<not> slot_of mac ?r i" by (simp add: slot_of_def)
      with False \<sigma>1 step[of \<sigma>1] show ?thesis by (simp add: eq_commute[of "ucast (no_os_get_unaligned_be16 mac)"])
    qed
  qed
qed

lemma filter_upr_low: "filter_upr chip mac AND 0xFFFF = ucast (no_os_get_unaligned_be16 mac)"
proof -
  have m: "(0xFFFF :: u32) = mask 16" by (simp add: mask_eq_exp_minus_1)
  have "(ucast x :: u32) AND 0xFFFF = ucast x" for x :: u16
    unfolding m by (rule bit_word_eqI) (auto simp: bit_simps dest: bit_imp_le_length)
  then show ?thesis by (simp add: filter_upr_def bit.conj_disj_distrib2)
qed

lemma cleared_set:
  assumes k: "k < 16" "slot_free r k" and other: "\<forall>j<16. slot_of mac r j \<longrightarrow> slot_free r j"
  shows "cleared mac (r(ADIN1110_MAC_ADDR_FILT_UPR_REG k := filter_upr chip mac,
      ADIN1110_MAC_ADDR_FILT_LWR_REG k := no_os_get_unaligned_be32 (drop 2 mac))) 0 16 = r"
    (is "cleared mac ?r 0 16 = r")
proof
  fix a
  have own: "slot_of mac ?r k"
    using k(1) by (simp add: slot_of_def filter_regs_eq filter_upr_low)
  have same: "slot_of mac ?r j \<longleftrightarrow> slot_of mac r j" if "j < 16" "j \<noteq> k" for j
    using that k(1) by (simp add: slot_of_def filter_regs_eq)
  show "cleared mac ?r 0 16 a = r a"
  proof (cases "\<exists>j<16. slot_of mac ?r j \<and> (a = ADIN1110_MAC_ADDR_FILT_UPR_REG j \<or> a = ADIN1110_MAC_ADDR_FILT_LWR_REG j)")
    case True
    then obtain j where j: "j < 16" "slot_of mac ?r j"
      "a = ADIN1110_MAC_ADDR_FILT_UPR_REG j \<or> a = ADIN1110_MAC_ADDR_FILT_LWR_REG j" by blast
    then have "slot_free r j" using same[of j] other k(2) by (cases "j = k") auto
    with j(3) have "r a = 0" by (auto simp: slot_free_def)
    with True show ?thesis by (auto simp: cleared_def)
  next
    case False
    with own k(1) have "a \<noteq> ADIN1110_MAC_ADDR_FILT_UPR_REG k" "a \<noteq> ADIN1110_MAC_ADDR_FILT_LWR_REG k" by auto
    moreover have "cleared mac ?r 0 16 a = ?r a" using False by (auto simp: cleared_def)
    ultimately show ?thesis by simp
  qed
qed

text \<open>Setting a filter for an address that is in no used slot, with a slot free, and
  clearing it again restores every register of the filter table.\<close>

theorem filter_set_clear:
  assumes "chip_ready B regs filter_regs \<sigma>" and "k < 16" and "slot_free (regs (dev \<sigma>)) k"
    and "\<forall>j<k. \<not> slot_free (regs (dev \<sigma>)) j"
    and "\<forall>j<16. slot_of mac (regs (dev \<sigma>)) j \<longrightarrow> slot_free (regs (dev \<sigma>)) j"
  shows "\<exists>\<sigma>1 \<sigma>2. adin1110_set_mac_addr B mac \<sigma> = Inr (Inr (), \<sigma>1) \<and>
    adin1110_clear_mac_addr B mac \<sigma>1 = Inr (Inr (), \<sigma>2) \<and> regs (dev \<sigma>2) = regs (dev \<sigma>)"
proof -
  obtain \<sigma>1 where \<sigma>1: "adin1110_set_mac_addr B mac \<sigma> = Inr (Inr (), \<sigma>1)" "chip_ready B regs filter_regs \<sigma>1"
    "regs (dev \<sigma>1) = (regs (dev \<sigma>))(ADIN1110_MAC_ADDR_FILT_UPR_REG k := filter_upr (chip_type \<sigma>) mac,
      ADIN1110_MAC_ADDR_FILT_LWR_REG k := no_os_get_unaligned_be32 (drop 2 mac))"
    using set_mac_addr_run[OF assms(1) subset_refl _ assms(4), of mac] assms(2,3) by auto
  from clear_filter_slots_run[OF subset_refl \<sigma>1(2), of 0 16 mac] obtain \<sigma>2 where
    "adin1110_clear_mac_addr B mac \<sigma>1 = Inr (Inr (), \<sigma>2)" "regs (dev \<sigma>2) = cleared mac (regs (dev \<sigma>1)) 0 16"
    by (auto simp: adin1110_clear_mac_addr_def Let_def)
  with \<sigma>1 show ?thesis unfolding \<sigma>1(3) cleared_set[OF assms(2,3,5)] by blast
qed

theorem filter_set_clear_witness:
  "\<exists>\<sigma>1 \<sigma>2. adin1110_set_mac_addr (test_chip False (crc_table (test_desc False))) [2, 0, 0, 0, 0, 7] (test_desc False) =
      Inr (Inr (), \<sigma>1) \<and>
    adin1110_clear_mac_addr (test_chip False (crc_table (test_desc False))) [2, 0, 0, 0, 0, 7] \<sigma>1 = Inr (Inr (), \<sigma>2) \<and>
    dev \<sigma>2 = (\<lambda>_. 0)"
  using filter_set_clear[OF test_filters_ready[of False], of 0 "[2, 0, 0, 0, 0, 7]"]
  by (simp add: test_desc_def slot_free_def)

end
