(* ===== verification/Adin1110_Inv.thy ===== *)
theory Adin1110_Inv
  imports Adin1110_Regs
begin

text \<open>
  The invariant of the ADIN1110 descriptor: its arrays keep their sizes and its
  configuration does not change, in every operation and on every path, and a register
  access leaves the frame buffer behind its first nine bytes alone.
\<close>

section \<open>Computations that keep the descriptor\<close>

definition keeps :: "nat \<Rightarrow> ('d adin1110_desc, 'a) cm \<Rightarrow> bool" where
  "keeps k m \<longleftrightarrow> (\<forall>\<sigma> r \<sigma>'. wf_desc \<sigma> \<longrightarrow> m \<sigma> = Inr (r, \<sigma>') \<longrightarrow>
     wf_desc \<sigma>' \<and> config \<sigma>' = config \<sigma> \<and> drop k (data_buf \<sigma>') = drop k (data_buf \<sigma>))"

named_theorems keeps_rules \<open>the computations that keep the descriptor\<close>

lemma keepsI:
  "(\<And>\<sigma> r \<sigma>'. wf_desc \<sigma> \<Longrightarrow> m \<sigma> = Inr (r, \<sigma>') \<Longrightarrow>
     wf_desc \<sigma>' \<and> config \<sigma>' = config \<sigma> \<and> drop k (data_buf \<sigma>') = drop k (data_buf \<sigma>)) \<Longrightarrow> keeps k m"
  by (simp add: keeps_def)

lemma keepsD:
  assumes "keeps k m" and "wf_desc \<sigma>" and "m \<sigma> = Inr (r, \<sigma>')"
  shows "wf_desc \<sigma>'" "config \<sigma>' = config \<sigma>" "drop k (data_buf \<sigma>') = drop k (data_buf \<sigma>)"
  using assms by (auto simp: keeps_def)

lemma keeps_return [keeps_rules]: "keeps k (returnm a)" "keeps k (okr b)" "keeps k (errr e)" "keeps k (failm f)"
  by (auto simp: keeps_def run_simps)

lemma keeps_get [keeps_rules]: "keeps k (getm f)"
  by (auto simp: keeps_def run_simps)

lemma keeps_bindm [keeps_rules]:
  assumes "keeps k m" and "\<And>a. keeps k (f a)"
  shows "keeps k (bindm m f)"
proof (rule keepsI)
  fix \<sigma> r \<sigma>' assume "wf_desc \<sigma>" "bindm m f \<sigma> = Inr (r, \<sigma>')"
  then obtain a \<sigma>1 where "m \<sigma> = Inr (a, \<sigma>1)" "f a \<sigma>1 = Inr (r, \<sigma>')" by (auto simp: bindm_Inr_iff)
  with keepsD[OF assms(1) \<open>wf_desc \<sigma>\<close>] keepsD[OF assms(2), of \<sigma>1 a]
  show "wf_desc \<sigma>' \<and> config \<sigma>' = config \<sigma> \<and> drop k (data_buf \<sigma>') = drop k (data_buf \<sigma>)" by metis
qed

lemma keeps_bindr [keeps_rules]:
  assumes "keeps k m" and "\<And>a. keeps k (f a)"
  shows "keeps k (bindr m f)"
  unfolding bindr_def by (rule keeps_bindm[OF assms(1)]) (simp add: assms(2) keeps_return split: sum.split)

lemma keeps_if [keeps_rules]: "keeps k m \<Longrightarrow> keeps k m' \<Longrightarrow> keeps k (if b then m else m')"
  by simp

lemma keeps_outside [keeps_rules]: "keeps k (outside m)"
  by (auto simp: keeps_def outside_def wf_desc_def config_def split: sum.splits)

lemma keeps_checked [keeps_rules]: "keeps k (checked (outside m))"
  unfolding checked_def by (intro keeps_rules)

lemma keeps_buf_change:
  assumes "\<And>bs. length bs = n \<Longrightarrow> length (f bs) = n" and "i + n \<le> k"
  shows "keeps k (buf_change i n f)"
proof (rule keepsI)
  fix \<sigma> r \<sigma>' assume wf: "wf_desc \<sigma>" and run: "buf_change i n f \<sigma> = Inr (r, \<sigma>')"
  then have in_buf: "i + n \<le> length (data_buf \<sigma>)"
    and \<sigma>': "\<sigma>' = \<sigma>\<lparr>data_buf := upd_bytes (data_buf \<sigma>) i (f (take n (drop i (data_buf \<sigma>))))\<rparr>"
    by (auto simp: buf_change_def split: if_splits)
  have "length (f (take n (drop i (data_buf \<sigma>)))) = n" by (rule assms(1)) (use in_buf in simp)
  with in_buf assms(2) wf show "wf_desc \<sigma>' \<and> config \<sigma>' = config \<sigma> \<and> drop k (data_buf \<sigma>') = drop k (data_buf \<sigma>)"
    by (simp add: \<sigma>' wf_desc_def config_def drop_upd_bytes)
qed

lemma keeps_put [keeps_rules]:
  "i + 2 \<le> k \<Longrightarrow> keeps k (put_be16 v i)" "i + 4 \<le> k \<Longrightarrow> keeps k (put_be32 w i)" "i + 1 \<le> k \<Longrightarrow> keeps k (put_byte b i)"
  "i + length bs \<le> k \<Longrightarrow> keeps k (put_bytes bs i)" "i + 1 \<le> k \<Longrightarrow> keeps k (buf_change i 1 (map g))"
  unfolding put_be16_def put_be32_def put_byte_def put_bytes_def
  by (rule keeps_buf_change; simp add: no_os_put_unaligned_be16_def no_os_put_unaligned_be32_def)+

lemma keeps_put_head [keeps_rules]: "0 < k \<Longrightarrow> keeps k (buf_change 0 (Suc 0) (map g))"
  using keeps_put(5)[of 0 k g] by simp

lemma keeps_bytes [keeps_rules]: "keeps k (buf_bytes i n)" "keeps k (buf_crc i n)"
proof -
  show *: "keeps k (buf_bytes i n)" for i n by (auto simp: keeps_def buf_bytes_def split: if_splits)
  show "keeps k (buf_crc i n)" unfolding buf_crc_def by (intro keeps_rules *)
qed

lemma keeps_transfer [keeps_rules]: "n \<le> k \<Longrightarrow> keeps k (spi_transfer B n rx)"
  unfolding spi_transfer_def
  by (intro keeps_rules) (auto split: prod.split intro!: keeps_rules)

lemma keeps_reg [keeps_rules]:
  assumes "9 \<le> k"
  shows "keeps k (adin1110_reg_write B a v)" "keeps k (adin1110_reg_read B a)"
  unfolding adin1110_reg_write_def adin1110_reg_read_def Let_def
  using assms by (auto intro!: keeps_rules)

lemma keeps_update [keeps_rules]: "9 \<le> k \<Longrightarrow> keeps k (adin1110_reg_update B a m v)"
  unfolding adin1110_reg_update_def Let_def by (intro keeps_rules)

lemma keeps_wait [keeps_rules]: "9 \<le> k \<Longrightarrow> keeps k (mdio_wait B fuel reg)"
  by (induction fuel) (auto simp: Let_def intro!: keeps_rules)

lemma keeps_mdio [keeps_rules]:
  assumes "9 \<le> k"
  shows "keeps k (adin1110_mdio_read B fuel p r)" "keeps k (adin1110_mdio_write B fuel p r v)"
    "keeps k (adin1110_mdio_read_c45 B fuel p d r')" "keeps k (adin1110_mdio_write_c45 B fuel p d r v)"
  unfolding adin1110_mdio_read_def adin1110_mdio_write_def adin1110_mdio_read_c45_def adin1110_mdio_write_c45_def Let_def
  using assms by (auto intro!: keeps_rules)

lemma keeps_slots [keeps_rules]:
  assumes "9 \<le> k"
  shows "keeps k (find_filter_slot B i n)" "keeps k (clear_filter_slots B u l i n)"
  using assms by (induction n arbitrary: i) (auto intro!: keeps_rules)

lemma keeps_filters [keeps_rules]:
  assumes "9 \<le> k"
  shows "keeps k (adin1110_set_mac_addr B mac)" "keeps k (adin1110_clear_mac_addr B mac)"
    "keeps k (adin1110_broadcast_filter B on)"
  unfolding adin1110_broadcast_filter_def adin1110_set_mac_addr_def adin1110_clear_mac_addr_def Let_def
  using assms by (auto intro!: keeps_rules)

lemma keeps_resets [keeps_rules]:
  assumes "9 \<le> k"
  shows "keeps k (adin1110_mac_reset B)" "keeps k (adin1110_check_reset B)" "keeps k (adin1110_phy_reset B)"
    "keeps k (adin1110_sw_reset B)" "keeps k (adin1110_link_state B)" "keeps k (adin1110_set_promisc B p on)"
  unfolding adin1110_mac_reset_def adin1110_check_reset_def adin1110_phy_reset_def adin1110_sw_reset_def
    adin1110_link_state_def adin1110_set_promisc_def Let_def
  using assms by (auto intro!: keeps_rules)

lemma keeps_power_up [keeps_rules]: "9 \<le> k \<Longrightarrow> keeps k (power_up_loop B polls fuel phy r)"
  by (induction fuel arbitrary: r) (auto intro!: keeps_rules)

lemma keeps_ports [keeps_rules]: "9 \<le> k \<Longrightarrow> keeps k (setup_ports B fuel i n)"
  by (induction n arbitrary: i) (auto simp: Let_def intro!: keeps_rules)

lemma keeps_setup [keeps_rules]:
  assumes "9 \<le> k"
  shows "keeps k (adin1110_setup_phy B fuel)" "keeps k (adin1110_setup_mac B)"
  unfolding adin1110_setup_phy_def adin1110_setup_mac_def Let_def
  using assms by (auto intro!: keeps_rules)

text \<open>The whole buffer: any offset will do, for a store out of its bounds is a fault.\<close>

lemma keeps_buf_any:
  assumes "\<And>bs. length bs = n \<Longrightarrow> length (f bs) = n"
  shows "keeps 1530 (buf_change i n f)"
proof (cases "i + n \<le> 1530")
  case True
  show ?thesis by (rule keeps_buf_change[OF assms True])
next
  case False
  then show ?thesis by (auto simp: keeps_def wf_desc_def buf_change_def)
qed

lemma keeps_any [keeps_rules]:
  "keeps 1530 (put_be16 v i)" "keeps 1530 (put_bytes bs i)" "keeps 1530 (put_byte b i)"
  unfolding put_be16_def put_bytes_def put_byte_def
  by (rule keeps_buf_any; simp add: no_os_put_unaligned_be16_def)+

lemma keeps_transfer_any [keeps_rules]: "keeps 1530 (spi_transfer B n rx)"
  unfolding spi_transfer_def
  by (intro keeps_rules) (auto split: prod.split intro!: keeps_rules)

lemma keeps_fifo [keeps_rules]:
  "keeps 1530 (adin1110_write_fifo B port eth)" "keeps 1530 (adin1110_read_fifo B port eth)"
  unfolding adin1110_write_fifo_def adin1110_read_fifo_def copy_in_def Let_def
  by (auto intro!: keeps_rules)

lemma keeps_remove [keeps_rules]: "keeps k (adin1110_remove B p)"
  unfolding adin1110_remove_def by (auto intro!: keeps_rules)

section \<open>The property\<close>

text \<open>The operations of the driver on a descriptor, each with its arguments.\<close>

datatype adin1110_op =
    Reg_Write u16 u32 | Reg_Read u16 | Reg_Update u16 u32 u32
  | Mdio_Read u32 u32 | Mdio_Write u32 u32 u16 | Mdio_Read_C45 u32 u32 u16 | Mdio_Write_C45 u32 u32 u32 u16
  | Set_Mac "u8 list" | Clear_Mac "u8 list" | Broadcast bool
  | Write_Fifo u32 adin1110_eth_buff | Read_Fifo u32 adin1110_eth_buff
  | Mac_Reset | Phy_Reset | Sw_Reset | Link_State | Set_Promisc u32 bool | Remove

fun run_op :: "'d bus \<Rightarrow> nat \<Rightarrow> adin1110_op \<Rightarrow> ('d, unit) am" where
  "run_op B fuel (Reg_Write a v) = adin1110_reg_write B a v"
| "run_op B fuel (Reg_Read a) = bindr (adin1110_reg_read B a) (\<lambda>_. okr ())"
| "run_op B fuel (Reg_Update a m v) = adin1110_reg_update B a m v"
| "run_op B fuel (Mdio_Read p r) = bindr (adin1110_mdio_read B fuel p r) (\<lambda>_. okr ())"
| "run_op B fuel (Mdio_Write p r v) = adin1110_mdio_write B fuel p r v"
| "run_op B fuel (Mdio_Read_C45 p d r') = bindr (adin1110_mdio_read_c45 B fuel p d r') (\<lambda>_. okr ())"
| "run_op B fuel (Mdio_Write_C45 p d r v) = adin1110_mdio_write_c45 B fuel p d r v"
| "run_op B fuel (Set_Mac mac) = adin1110_set_mac_addr B mac"
| "run_op B fuel (Clear_Mac mac) = adin1110_clear_mac_addr B mac"
| "run_op B fuel (Broadcast on) = adin1110_broadcast_filter B on"
| "run_op B fuel (Write_Fifo port eth) = adin1110_write_fifo B port eth"
| "run_op B fuel (Read_Fifo port eth) = bindr (adin1110_read_fifo B port eth) (\<lambda>_. okr ())"
| "run_op B fuel Mac_Reset = adin1110_mac_reset B"
| "run_op B fuel Phy_Reset = adin1110_phy_reset B"
| "run_op B fuel Sw_Reset = adin1110_sw_reset B"
| "run_op B fuel Link_State = bindr (adin1110_link_state B) (\<lambda>_. okr ())"
| "run_op B fuel (Set_Promisc p on) = adin1110_set_promisc B p on"
| "run_op B fuel Remove = adin1110_remove B False"

lemma keeps_op: "keeps 1530 (run_op B fuel op)"
  by (cases op) (auto intro!: keeps_rules)

text \<open>Any sequence of operations, whatever their results, until one faults.\<close>

fun run_ops :: "'d bus \<Rightarrow> nat \<Rightarrow> adin1110_op list \<Rightarrow> ('d adin1110_desc, (int + unit) list) cm" where
  "run_ops B fuel [] = returnm []"
| "run_ops B fuel (op # ops) = bindm (run_op B fuel op) (\<lambda>r. bindm (run_ops B fuel ops) (\<lambda>rs. returnm (r # rs)))"

lemma keeps_ops: "keeps 1530 (run_ops B fuel ops)"
  by (induction ops) (auto intro!: keeps_rules keeps_op)



end
