(* ===== verification/Adin1110_Frames.thy ===== *)
theory Adin1110_Frames
  imports Adin1110_Inv
begin

text \<open>
  Ethernet frames through the ADIN1110 driver: the bytes a transmission puts on the SPI
  bus, the check of the space in the transmit FIFO, the frame a reception hands back, and
  the lengths for which the driver leaves its buffers.
\<close>

section \<open>Steps on the frame buffer\<close>

lemma be16_any: "length bs = 2 \<Longrightarrow> no_os_put_unaligned_be16 v bs = be16b v"
  by (erule length_2E) (simp only: put_any)

text \<open>
  The frame is built from left to right: the buffer starts with the bytes written so far
  and ends as it was.
\<close>

definition built :: "u8 list \<Rightarrow> u8 list \<Rightarrow> 'd adin1110_desc \<Rightarrow> 'd adin1110_desc" where
  "built d f \<sigma> = \<sigma>\<lparr>data_buf := f @ drop (length f) d\<rparr>"

lemma built_simps [simp]:
  "append_crc (built d f \<sigma>) = append_crc \<sigma>" "crc_table (built d f \<sigma>) = crc_table \<sigma>" "dev (built d f \<sigma>) = dev \<sigma>"
  "chip_type (built d f \<sigma>) = chip_type \<sigma>" "data_buf (built d f \<sigma>) = f @ drop (length f) d"
  "config (built d f \<sigma>) = config \<sigma>"
  by (simp_all add: built_def config_def)

lemma built_0: "data_buf \<sigma> = d \<Longrightarrow> built d [] \<sigma> = \<sigma>"
  by (simp add: built_def)

lemma built_put_bytes:
  "length d = 1530 \<Longrightarrow> i = length f \<Longrightarrow> i + length bs \<le> 1530 \<Longrightarrow>
   put_bytes bs i (built d f \<sigma>) = Inr (Inr (), built d (f @ bs) \<sigma>)"
  by (simp add: put_bytes_def buf_change_def built_def upd_bytes_def add.commute)

lemma built_put_be16:
  "length d = 1530 \<Longrightarrow> i = length f \<Longrightarrow> i + 2 \<le> 1530 \<Longrightarrow>
   put_be16 v i (built d f \<sigma>) = Inr (Inr (), built d (f @ be16b v) \<sigma>)"
  unfolding put_be16_def
proof -
  assume a: "length d = 1530" "i = length f" "i + 2 \<le> 1530"
  then have "length (take 2 (drop i (data_buf (built d f \<sigma>)))) = 2" by simp
  from be16_any[OF this, of v] a
  show "buf_change i 2 (no_os_put_unaligned_be16 v) (built d f \<sigma>) = Inr (Inr (), built d (f @ be16b v) \<sigma>)"
    by (simp only: buf_change_def) (simp add: built_def upd_bytes_def add.commute)
qed

lemma built_put_byte:
  "length d = 1530 \<Longrightarrow> i = length f \<Longrightarrow> i < 1530 \<Longrightarrow> put_byte v i (built d f \<sigma>) = Inr (Inr (), built d (f @ [v]) \<sigma>)"
  by (simp add: put_byte_def buf_change_def built_def upd_bytes_def)

lemma built_bytes:
  "length d = 1530 \<Longrightarrow> length f \<le> 1530 \<Longrightarrow> n \<le> length f \<Longrightarrow> buf_bytes 0 n (built d f \<sigma>) = Inr (Inr (take n f), built d f \<sigma>)"
  by (simp add: buf_bytes_def)

lemma built_crc:
  "length d = 1530 \<Longrightarrow> length f = 2 \<Longrightarrow> buf_crc 0 2 (built d f \<sigma>) = Inr (Inr (crc_of (crc_table \<sigma>) f), built d f \<sigma>)"
  by (simp add: buf_crc_def bindr_Inr built_bytes bindm_unfold run_simps crc_of_def)

lemma built_or_head:
  "length d = 1530 \<Longrightarrow> f = x # g \<Longrightarrow> length f \<le> 1530 \<Longrightarrow>
   buf_change 0 1 (map (\<lambda>b. b OR m)) (built d f \<sigma>) = Inr (Inr (), built d ((x OR m) # g) \<sigma>)"
  by (simp add: buf_change_def built_def upd_bytes_def)

lemma built_transfer:
  "length d = 1530 \<Longrightarrow> n \<le> 1530 \<Longrightarrow>
   spi_transfer B n False (built d f \<sigma>) =
     (case transfer B (take n (f @ drop (length f) d)) (dev \<sigma>) of
        Inl e \<Rightarrow> Inl e
      | Inr ((ret, _), d') \<Rightarrow> Inr (if ret = 0 then Inr () else Inl ret, (built d f \<sigma>)\<lparr>dev := d'\<rparr>))"
  if "length f \<le> 1530"
  using that by (simp add: spi_transfer_def bindr_def bindm_unfold run_simps buf_bytes_def outside_def split: sum.split prod.split)

section \<open>Transmission\<close>

text \<open>The bytes in front of a frame, and the frame as the caller gave it.\<close>

definition fifo_header :: "bool \<Rightarrow> u8 list \<Rightarrow> u32 \<Rightarrow> u8 list" where
  "fifo_header c t port = with_crc c t [0xA0, 0x31] @ be16b (ucast port)"

definition eth_frame :: "adin1110_eth_buff \<Rightarrow> u8 list" where
  "eth_frame eth = take 14 (mac_dest eth @ mac_source eth @ ethertype eth) @ take (unat (eth_len eth) - 14) (payload eth)"

definition padded_len :: "u32 \<Rightarrow> u32" where
  "padded_len len = len + (if len + 4 < 64 then 64 - (len + 4) else 0) + 2"

definition wf_eth :: "adin1110_eth_buff \<Rightarrow> bool" where
  "wf_eth eth \<longleftrightarrow> length (mac_dest eth) = 6 \<and> length (mac_source eth) = 6 \<and> length (ethertype eth) = 2"

lemma fifo_head_bytes: "be16b ADIN1110_TX_REG = [0, 0x31]" "(0 :: u8) OR 0xA0 = 0xA0"
  by (simp_all add: be16b ADIN1110_TX_REG_def)

lemma length_eth_frame:
  "wf_eth eth \<Longrightarrow> 14 \<le> unat (eth_len eth) \<Longrightarrow> unat (eth_len eth) - 14 \<le> length (payload eth) \<Longrightarrow>
   length (eth_frame eth) = unat (eth_len eth)"
  by (simp add: eth_frame_def wf_eth_def)

lemma unat_align4:
  assumes "unat (x :: u32) + 3 < 2 ^ 32"
  shows "unat (no_os_align x 4) = 4 * ((unat x + 3) div 4)"
proof -
  have m: "(3 :: u32) = mask 2" by (simp add: mask_eq_exp_minus_1)
  have e: "(y AND NOT 3) = push_bit 2 (drop_bit 2 y)" for y :: u32
  proof (rule bit_word_eqI)
    fix n assume n: "n < LENGTH(32)"
    have k: "Suc (Suc (n - 2)) = n" if "2 \<le> n" using that by arith
    show "bit (y AND NOT 3) n \<longleftrightarrow> bit (push_bit 2 (drop_bit 2 y)) n"
      unfolding m using n k by (auto simp: bit_simps not_less)
  qed
  have s: "unat (x + 3) = unat x + 3" using assms by (subst unat_add_lem[THEN iffD1]) auto
  have "unat (push_bit 2 (drop_bit 2 (x + 3))) = (unat (x + 3) div 4 * 4) mod 2 ^ 32"
    by (simp add: push_bit_eq_mult unat_word_ariths unsigned_drop_bit_eq drop_bit_eq_div take_bit_eq_mod mod_simps)
  moreover have "unat (x + 3) div 4 * 4 < 4294967296"
    by (rule le_less_trans[OF div_times_less_eq_dividend unat_u32_less])
  moreover have "no_os_align x 4 = push_bit 2 (drop_bit 2 (x + 3))" using e[of "x + 3"] by (simp add: no_os_align_def)
  ultimately show ?thesis using s by simp
qed

lemma unat_add_small: "unat (a :: u32) + unat b < 2 ^ 32 \<Longrightarrow> unat (a + b) = unat a + unat b"
  by (subst unat_add_lem[THEN iffD1]) auto

lemma unat_padded_len:
  assumes "unat len \<le> 60000"
  shows "unat (padded_len len) = (if unat len < 60 then 62 else unat len + 2)"
proof -
  have s: "unat (len + 4) = unat len + 4" using assms by (subst unat_add_small) auto
  then have c: "len + 4 < 64 \<longleftrightarrow> unat len < 60" by (simp add: word_less_nat_alt)
  show ?thesis
  proof (cases "unat len < 60")
    case True
    have "padded_len len = 62" using True c by (simp add: padded_len_def)
    with True show ?thesis by simp
  next
    case False
    then have "padded_len len = len + 2" using c by (simp add: padded_len_def)
    then show ?thesis using False assms by (simp add: unat_add_small)
  qed
qed

text \<open>The length of the transfer, and how much of it is left as it was in the buffer.\<close>

definition round_len :: "nat \<Rightarrow> nat" where
  "round_len n = 4 * (((if n < 60 then 62 else n + 2) + 3) div 4)"

lemma round_len: "n + 2 \<le> round_len n" "round_len n \<le> max 64 (n + 5)"
  by (auto simp: round_len_def)

definition tx_bytes :: "'d adin1110_desc \<Rightarrow> u8 list \<Rightarrow> u32 \<Rightarrow> adin1110_eth_buff \<Rightarrow> u8 list" where
  "tx_bytes \<sigma> d port eth =
     (let f = fifo_header (append_crc \<sigma>) (crc_table \<sigma>) port @ eth_frame eth in
      f @ take (round_len (unat (eth_len eth)) - 2 - unat (eth_len eth)) (drop (length f) d))"

definition fifo_send :: "'d bus \<Rightarrow> u32 \<Rightarrow> adin1110_eth_buff \<Rightarrow> ('d, unit) am" where
  "fifo_send B port eth =
     bindr (put_be16 ADIN1110_TX_REG 0) (\<lambda>_.
     bindr (buf_change 0 1 (map (\<lambda>b. b OR ucast (ADIN1110_SPI_CD OR ADIN1110_SPI_RW)))) (\<lambda>_.
     bindm (getm append_crc) (\<lambda>append.
     bindr (if append then bindr (buf_crc 0 2) (\<lambda>c. put_byte c 2) else okr ()) (\<lambda>_.
     let header_len = (if append then 3 else 2) in
     bindr (put_be16 (ucast port) header_len) (\<lambda>_.
     let bytes_number = no_os_align (padded_len (eth_len eth)) 4 + of_nat header_len;
         frame_offset = header_len + 2 in
     bindr (copy_in (mac_dest eth @ mac_source eth @ ethertype eth) ADIN1110_ETH_HDR_LEN frame_offset) (\<lambda>_.
     bindr (copy_in (payload eth) (unat (eth_len eth - 14)) (frame_offset + ADIN1110_ETH_HDR_LEN)) (\<lambda>_.
     spi_transfer B (unat bytes_number) False)))))))"

lemma write_fifo_split:
  "adin1110_write_fifo B port eth =
     bindm (getm chip_type) (\<lambda>chip.
     if port \<ge> num_ports chip then errr (- EINVAL)
     else
       bindr (adin1110_reg_read B ADIN1110_TX_SPACE_REG) (\<lambda>tx_space.
       if padded_len (eth_len eth) > 2 * (tx_space - 2) then errr (- EAGAIN)
       else bindr (adin1110_reg_write B ADIN1110_TX_FSIZE_REG (padded_len (eth_len eth))) (\<lambda>_. fifo_send B port eth)))"
  unfolding adin1110_write_fifo_def fifo_send_def padded_len_def Let_def by simp

lemma fifo_head_run:
  assumes "wf_desc \<sigma>"
  shows "bindr (put_be16 ADIN1110_TX_REG 0) (\<lambda>_.
     bindr (buf_change 0 1 (map (\<lambda>b. b OR ucast (ADIN1110_SPI_CD OR ADIN1110_SPI_RW)))) (\<lambda>_.
     bindm (getm append_crc) (\<lambda>append.
     bindr (if append then bindr (buf_crc 0 2) (\<lambda>c. put_byte c 2) else okr ()) (\<lambda>_.
     bindr (put_be16 (ucast port) (if append then 3 else 2)) (\<lambda>_. f append))))) \<sigma> =
   f (append_crc \<sigma>) (built (data_buf \<sigma>) (fifo_header (append_crc \<sigma>) (crc_table \<sigma>) port) \<sigma>)"
proof -
  let ?d = "data_buf \<sigma>"
  have d: "length ?d = 1530" using assms by (simp add: wf_desc_def)
  have 1: "put_be16 ADIN1110_TX_REG 0 \<sigma> = Inr (Inr (), built ?d [0, 0x31] \<sigma>)"
    using built_put_be16[OF d, of 0 "[]" ADIN1110_TX_REG \<sigma>] by (simp add: built_0 fifo_head_bytes)
  have 2: "buf_change 0 1 (map (\<lambda>b. b OR ucast (ADIN1110_SPI_CD OR ADIN1110_SPI_RW))) (built ?d [0, 0x31] \<sigma>) =
      Inr (Inr (), built ?d [0xA0, 0x31] \<sigma>)"
    using built_or_head[OF d, of "[0, 0x31]" 0 "[0x31]" _ \<sigma>] by (simp add: masks)
  have 3: "(if append_crc \<sigma> then bindr (buf_crc 0 2) (\<lambda>c. put_byte c 2) else okr ()) (built ?d [0xA0, 0x31] \<sigma>) =
      Inr (Inr (), built ?d (with_crc (append_crc \<sigma>) (crc_table \<sigma>) [0xA0, 0x31]) \<sigma>)"
    using built_crc[OF d, of "[0xA0, 0x31]" \<sigma>] built_put_byte[OF d, of 2 "[0xA0, 0x31]" _ \<sigma>]
    by (simp add: with_crc_def bindr_Inr run_simps)
  have 4: "put_be16 (ucast port) (if append_crc \<sigma> then 3 else 2)
      (built ?d (with_crc (append_crc \<sigma>) (crc_table \<sigma>) [0xA0, 0x31]) \<sigma>) =
      Inr (Inr (), built ?d (fifo_header (append_crc \<sigma>) (crc_table \<sigma>) port) \<sigma>)"
    unfolding fifo_header_def by (rule built_put_be16[OF d]) simp_all
  show ?thesis
    using 2 3 4 by (simp add: bindr_Inr 1 bindm_unfold run_simps)
qed

lemma length_fifo_header [simp]: "length (fifo_header c t port) = 4 + of_bool c"
  by (simp add: fifo_header_def)

lemma fifo_send_run:
  assumes wf: "wf_desc \<sigma>" and eth: "wf_eth eth" "14 \<le> unat (eth_len eth)" "unat (eth_len eth) \<le> 1518"
    "unat (eth_len eth) - 14 \<le> length (payload eth)"
  shows "fifo_send B port eth \<sigma> =
    (case transfer B (tx_bytes \<sigma> (data_buf \<sigma>) port eth) (dev \<sigma>) of
       Inl e \<Rightarrow> Inl e
     | Inr ((ret, _), d') \<Rightarrow> Inr (if ret = 0 then Inr () else Inl ret,
        (built (data_buf \<sigma>) (fifo_header (append_crc \<sigma>) (crc_table \<sigma>) port @ eth_frame eth) \<sigma>)\<lparr>dev := d'\<rparr>))"
proof -
  let ?d = "data_buf \<sigma>" and ?c = "append_crc \<sigma>" and ?n = "unat (eth_len eth)"
  let ?h = "fifo_header ?c (crc_table \<sigma>) port"
  let ?mac = "mac_dest eth @ mac_source eth @ ethertype eth"
  define hl where "hl = (if ?c then 3 else 2 :: nat)"
  have hl: "hl \<le> 3" "(of_nat (if ?c then 3 else 2) :: u32) = of_nat hl" by (simp_all add: hl_def)
  have d: "length ?d = 1530" using wf by (simp add: wf_desc_def)
  have len: "length ?mac = 14" using eth(1) by (simp add: wf_eth_def)
  have sub: "unat (eth_len eth - 14) = ?n - 14" using eth(2) by (subst unat_sub) (auto simp: word_le_nat_alt)
  have h: "length ?h = hl + 2" by (simp add: hl_def)
  have 5: "copy_in ?mac 14 (hl + 2) (built ?d ?h \<sigma>) = Inr (Inr (), built ?d (?h @ ?mac) \<sigma>)"
    using built_put_bytes[OF d h[symmetric], of ?mac \<sigma>] len hl(1) by (simp add: copy_in_def)
  have 6: "copy_in (payload eth) (unat (eth_len eth - 14)) (hl + 2 + 14) (built ?d (?h @ ?mac) \<sigma>) =
      Inr (Inr (), built ?d (?h @ eth_frame eth) \<sigma>)"
    using built_put_bytes[OF d, of "hl + 2 + 14" "?h @ ?mac" "take (?n - 14) (payload eth)" \<sigma>] len h eth(3,4) hl(1)
    by (simp add: copy_in_def sub eth_frame_def)
  have f: "length (eth_frame eth) = ?n" by (rule length_eth_frame[OF eth(1,2,4)])
  have pad: "unat (padded_len (eth_len eth)) = (if ?n < 60 then 62 else ?n + 2)"
    by (rule unat_padded_len) (use eth(3) in simp)
  then have "unat (no_os_align (padded_len (eth_len eth)) 4) = round_len ?n"
    unfolding round_len_def by (subst unat_align4) (use eth(3) in auto)
  moreover have "unat (of_nat hl :: u32) = hl" using hl(1) by (simp add: unat_of_nat)
  ultimately have b: "unat (no_os_align (padded_len (eth_len eth)) 4 + of_nat hl) = round_len ?n + hl"
    using round_len(2)[of ?n] eth(3) hl(1) by (subst unat_add_small) auto
  have "take (round_len ?n + hl) ((?h @ eth_frame eth) @ drop (length (?h @ eth_frame eth)) ?d) = tx_bytes \<sigma> ?d port eth"
    using round_len(1)[of ?n] f h by (simp add: tx_bytes_def Let_def hl_def)
  then have 7: "spi_transfer B (round_len ?n + hl) False (built ?d (?h @ eth_frame eth) \<sigma>) =
      (case transfer B (tx_bytes \<sigma> ?d port eth) (dev \<sigma>) of Inl e \<Rightarrow> Inl e
       | Inr ((ret, _), d') \<Rightarrow> Inr (if ret = 0 then Inr () else Inl ret, (built ?d (?h @ eth_frame eth) \<sigma>)\<lparr>dev := d'\<rparr>))"
    using built_transfer[of "?h @ eth_frame eth" ?d "round_len ?n + hl" B \<sigma>] d f h eth(3) hl(1) round_len(2)[of ?n] by simp
  show ?thesis
    unfolding fifo_send_def Let_def fifo_head_run[OF wf] hl_def[symmetric] b
    using 5 6 7 by (simp only: bindr_Inr[of "copy_in ?mac 14 (hl + 2)"]
        bindr_Inr[of "copy_in (payload eth) (unat (eth_len eth - 14)) (hl + 2 + 14)"])
qed

lemma fifo_send_bad_length:
  assumes wf: "wf_desc \<sigma>" and eth: "wf_eth eth"
    and bad: "unat (eth_len eth) < 14 \<or> 1530 < 4 + of_bool (append_crc \<sigma>) + unat (eth_len eth)"
  shows "fifo_send B port eth \<sigma> = Inl Out_Of_Bounds"
proof -
  let ?d = "data_buf \<sigma>" and ?c = "append_crc \<sigma>" and ?n = "unat (eth_len eth)"
  let ?h = "fifo_header ?c (crc_table \<sigma>) port" and ?mac = "mac_dest eth @ mac_source eth @ ethertype eth"
  define hl where "hl = (if ?c then 3 else 2 :: nat)"
  have d: "length ?d = 1530" using wf by (simp add: wf_desc_def)
  have len: "length ?mac = 14" using eth by (simp add: wf_eth_def)
  have h: "length ?h = hl + 2" by (simp add: hl_def)
  have 5: "copy_in ?mac 14 (hl + 2) (built ?d ?h \<sigma>) = Inr (Inr (), built ?d (?h @ ?mac) \<sigma>)"
    using built_put_bytes[OF d h[symmetric], of ?mac \<sigma>] len by (simp add: copy_in_def hl_def)
  have big: "1530 < hl + 2 + 14 + unat (eth_len eth - 14)"
  proof (cases "?n < 14")
    case True
    have "eth_len eth - 14 = eth_len eth + 4294967282" by (simp only: diff_conv_add_uminus) simp
    moreover have "unat (eth_len eth + 4294967282) = ?n + 4294967282"
      using True by (subst unat_add_small) auto
    ultimately have "unat (eth_len eth - 14) = ?n + 4294967282" by (simp only:)
    then show ?thesis by linarith
  next
    case False
    then have "unat (eth_len eth - 14) = ?n - 14" by (subst unat_sub) (auto simp: word_le_nat_alt)
    then show ?thesis using bad False by (auto simp: hl_def)
  qed
  have 6: "copy_in (payload eth) (unat (eth_len eth - 14)) (hl + 2 + 14) (built ?d (?h @ ?mac) \<sigma>) = Inl Out_Of_Bounds"
    using big d h len by (auto simp: copy_in_def put_bytes_def buf_change_def run_simps)
  show ?thesis
    unfolding fifo_send_def Let_def fifo_head_run[OF wf] hl_def[symmetric]
    using 5 6 by (simp only: bindr_Inr[of "copy_in ?mac 14 (hl + 2)"]
        bindr_Inl[of "copy_in (payload eth) (unat (eth_len eth - 14)) (hl + 2 + 14)"])
qed

lemma write_fifo_steps:
  assumes "unat port < unat (num_ports (chip_type \<sigma>))"
    and "adin1110_reg_read B ADIN1110_TX_SPACE_REG \<sigma> = Inr (Inr sp, \<sigma>1)"
  shows "adin1110_write_fifo B port eth \<sigma> =
    (if padded_len (eth_len eth) > 2 * (sp - 2) then Inr (Inl (- EAGAIN), \<sigma>1)
     else bindr (adin1110_reg_write B ADIN1110_TX_FSIZE_REG (padded_len (eth_len eth))) (\<lambda>_. fifo_send B port eth) \<sigma>1)"
  using assms by (simp add: write_fifo_split bindm_unfold run_simps bindr_Inr word_le_nat_alt)

section \<open>Properties of transmission\<close>

lemma write_fifo_run:
  assumes "wf_desc \<sigma>" and "unat port < unat (num_ports (chip_type \<sigma>))" and "wf_eth eth"
    and "n = unat (eth_len eth)" and "14 \<le> n" and "n \<le> 1518" and "n - 14 \<le> length (payload eth)"
    and "adin1110_reg_read B ADIN1110_TX_SPACE_REG \<sigma> = Inr (Inr sp, \<sigma>1)" and "padded_len (eth_len eth) \<le> 2 * (sp - 2)"
    and "adin1110_reg_write B ADIN1110_TX_FSIZE_REG (padded_len (eth_len eth)) \<sigma>1 = Inr (Inr (), \<sigma>2)"
    and "transfer B (fifo_header (append_crc \<sigma>) (crc_table \<sigma>) port @ eth_frame eth @
        take (round_len n - 2 - n) (drop (4 + of_bool (append_crc \<sigma>) + n) (data_buf \<sigma>))) (dev \<sigma>2) = Inr ((ret, bs), d')"
  shows "\<exists>\<sigma>'. adin1110_write_fifo B port eth \<sigma> = Inr (if ret = 0 then Inr () else Inl ret, \<sigma>') \<and> dev \<sigma>' = d'"
proof -
  note k1 = keepsD[OF keeps_reg(2)[OF order_refl] assms(1,8)]
  note k2 = keepsD[OF keeps_reg(1)[OF order_refl] k1(1) assms(10)]
  have same: "append_crc \<sigma>2 = append_crc \<sigma>" "crc_table \<sigma>2 = crc_table \<sigma>"
    using k1(2) k2(2) by (simp_all add: config_def)
  have "drop 9 (data_buf \<sigma>2) = drop 9 (data_buf \<sigma>)" using k1(3) k2(3) by simp
  then have "drop (m - 9) (drop 9 (data_buf \<sigma>2)) = drop (m - 9) (drop 9 (data_buf \<sigma>))" for m by simp
  from this[of m for m] have tail: "drop m (data_buf \<sigma>2) = drop m (data_buf \<sigma>)" if "9 \<le> m" for m
    using that by (metis drop_drop le_add_diff_inverse2)
  have f: "length (eth_frame eth) = n" using length_eth_frame[OF assms(3)] assms(4,5,7) by simp
  have "tx_bytes \<sigma>2 (data_buf \<sigma>2) port eth = fifo_header (append_crc \<sigma>) (crc_table \<sigma>) port @ eth_frame eth @
      take (round_len n - 2 - n) (drop (4 + of_bool (append_crc \<sigma>) + n) (data_buf \<sigma>))"
    using tail[of "4 + of_bool (append_crc \<sigma>) + n"] assms(5) by (simp add: tx_bytes_def Let_def same f assms(4)[symmetric])
  with assms(11) fifo_send_run[OF k2(1) assms(3), of B port] assms(4-7)
  have "\<exists>\<sigma>'. fifo_send B port eth \<sigma>2 = Inr (if ret = 0 then Inr () else Inl ret, \<sigma>') \<and> dev \<sigma>' = d'" by simp
  then show ?thesis
    using write_fifo_steps[OF assms(2,8), of eth] assms(9,10) by (auto simp: bindr_Inr not_less)
qed

text \<open>C18: A frame of 14 to 1518 bytes whose length fits the FIFO is sent as one transfer: the
  header with its checksum when checksums are on, the port, the frame, and behind it, up
  to the minimal length and the multiple of four the chip wants, the bytes that earlier
  transfers left in the buffer: the padding is not cleared.\<close>

theorem write_fifo_sends_frame:
  assumes "wf_desc \<sigma>" and "unat port < unat (num_ports (chip_type \<sigma>))" and "wf_eth eth"
    and "n = unat (eth_len eth)" and "14 \<le> n" and "n \<le> 1518" and "n - 14 \<le> length (payload eth)"
    and "adin1110_reg_read B ADIN1110_TX_SPACE_REG \<sigma> = Inr (Inr sp, \<sigma>1)" and "padded_len (eth_len eth) \<le> 2 * (sp - 2)"
    and "adin1110_reg_write B ADIN1110_TX_FSIZE_REG (padded_len (eth_len eth)) \<sigma>1 = Inr (Inr (), \<sigma>2)"
    and "transfer B (fifo_header (append_crc \<sigma>) (crc_table \<sigma>) port @ eth_frame eth @
        take (round_len n - 2 - n) (drop (4 + of_bool (append_crc \<sigma>) + n) (data_buf \<sigma>))) (dev \<sigma>2) = Inr ((ret, bs), d')"
  shows "\<exists>\<sigma>'. adin1110_write_fifo B port eth \<sigma> = Inr (if ret = 0 then Inr () else Inl ret, \<sigma>') \<and> dev \<sigma>' = d'"
  by (rule write_fifo_run[OF assms])

text \<open>With the number of free 16-bit words at least 2, a transmission is refused with
  \<open>-EAGAIN\<close>, before any register is written, exactly if the frame with its header does not
  fit the words behind the first two; with 0 or 1 free words the subtraction wraps around
  and the frame is sent although there is no space at all.\<close>

theorem tx_space_check:
  assumes "unat port < unat (num_ports (chip_type \<sigma>))" and "unat (eth_len eth) \<le> 1518"
    and "adin1110_reg_read B ADIN1110_TX_SPACE_REG \<sigma> = Inr (Inr sp, \<sigma>1)" and "unat sp < 2 ^ 30"
  shows "adin1110_write_fifo B port eth \<sigma> =
    (if 2 \<le> unat sp \<and> 2 * (unat sp - 2) < max 62 (unat (eth_len eth) + 2) then Inr (Inl (- EAGAIN), \<sigma>1)
     else bindr (adin1110_reg_write B ADIN1110_TX_FSIZE_REG (padded_len (eth_len eth))) (\<lambda>_. fifo_send B port eth) \<sigma>1)"
proof -
  have p: "unat (padded_len (eth_len eth)) = max 62 (unat (eth_len eth) + 2)"
    using unat_padded_len[of "eth_len eth"] assms(2) by auto
  have "padded_len (eth_len eth) > 2 * (sp - 2) \<longleftrightarrow> 2 \<le> unat sp \<and> 2 * (unat sp - 2) < max 62 (unat (eth_len eth) + 2)"
  proof (cases "2 \<le> unat sp")
    case True
    then have s: "unat (sp - 2) = unat sp - 2" by (subst unat_sub) (auto simp: word_le_nat_alt)
    have "unat (2 * (sp - 2)) = 2 * (unat sp - 2)"
      using assms(4) s by (subst unat_mult_lem[THEN iffD1]) auto
    with True p show ?thesis by (simp add: word_less_nat_alt)
  next
    case False
    then have "sp = 0 \<or> sp = 1" by (auto simp: word_unat_eq_iff)
    then have "1000000 < unat (2 * (sp - 2))" by auto
    with False p assms(2) show ?thesis by (simp add: word_less_nat_alt)
  qed
  then show ?thesis using write_fifo_steps[OF assms(1,3), of eth] by simp
qed

text \<open>A chip with 1000 words free, and a frame of 20 bytes.\<close>

definition roomy_desc :: "(u16 \<Rightarrow> u32) adin1110_desc" where
  "roomy_desc = (test_desc False)\<lparr>dev := \<lambda>_. 1000\<rparr>"

definition test_frame :: adin1110_eth_buff where
  "test_frame = \<lparr>eth_len = 20, mac_dest = replicate 6 0xFF, mac_source = [2, 0, 0, 0, 0, 1], ethertype = [8, 6],
     payload = [1, 2, 3, 4, 5, 6]\<rparr>"

abbreviation (input) "test_bus \<equiv> test_chip False (crc_table (test_desc False))"

lemma roomy_ready:
  "chip_ready test_bus id {0x30, 0x32} roomy_desc" "wf_desc roomy_desc" "append_crc roomy_desc = False" "chip_type roomy_desc = ADIN1110"
  using test_desc_ready[of "{0x30, 0x32}" False] test_desc_wf(1)[of False]
  by (simp_all add: chip_ready_def roomy_desc_def wf_desc_def) (simp_all add: test_desc_def)

lemma test_frame_wf: "wf_eth test_frame" "unat (eth_len test_frame) = 20" "length (payload test_frame) = 6"
  by (simp_all add: wf_eth_def test_frame_def)

theorem write_fifo_sends_frame_witness:
  "\<exists>\<sigma>'. adin1110_write_fifo test_bus 0 test_frame roomy_desc = Inr (Inr (), \<sigma>')"
proof -
  obtain \<sigma>1 where \<sigma>1: "adin1110_reg_read test_bus ADIN1110_TX_SPACE_REG roomy_desc = Inr (Inr 1000, \<sigma>1)"
    "chip_ready test_bus id {0x30, 0x32} \<sigma>1"
    using chip.rd_run[OF roomy_ready(1), of "0x32"] by (auto simp: ADIN1110_TX_SPACE_REG_def roomy_desc_def)
  obtain \<sigma>2 where \<sigma>2: "adin1110_reg_write test_bus ADIN1110_TX_FSIZE_REG (padded_len (eth_len test_frame)) \<sigma>1 = Inr (Inr (), \<sigma>2)"
    using chip.wr_run[OF \<sigma>1(2), of "0x30"] by (auto simp: ADIN1110_TX_FSIZE_REG_def)
  have "padded_len (eth_len test_frame) \<le> 2 * (1000 - 2)" by (simp add: padded_len_def test_frame_def)
  moreover have "\<exists>bs d'. transfer test_bus (fifo_header False t 0 @ js) d = Inr ((0, bs), d')" for t js d
    by (simp add: test_chip_def fifo_header_def with_crc_def bit_simps)
  ultimately show ?thesis
    using write_fifo_sends_frame[OF roomy_ready(2) _ test_frame_wf(1) refl _ _ _ \<sigma>1(1) _ \<sigma>2, of 0 0] roomy_ready(3,4)
      test_frame_wf(2,3) by (fastforce simp: num_ports_def)
qed

theorem tx_space_check_witness:
  "\<exists>\<sigma>1. adin1110_write_fifo test_bus 0 test_frame (test_desc False) =
    bindr (adin1110_reg_write test_bus ADIN1110_TX_FSIZE_REG (padded_len 20)) (\<lambda>_. fifo_send test_bus 0 test_frame) \<sigma>1"
proof -
  obtain \<sigma>1 where "adin1110_reg_read test_bus ADIN1110_TX_SPACE_REG (test_desc False) = Inr (Inr 0, \<sigma>1)"
    using chip.rd_run[OF test_desc_ready[of "{0x32}" False], of "0x32"]
    by (auto simp: ADIN1110_TX_SPACE_REG_def test_desc_def)
  moreover have "chip_type (test_desc False) = ADIN1110" by (simp add: test_desc_def)
  moreover have "eth_len test_frame = 20" by (simp add: test_frame_def)
  ultimately show ?thesis
    using tx_space_check[of 0 "test_desc False" test_frame test_bus 0 \<sigma>1] by (auto simp: num_ports_def)
qed

section \<open>Reception\<close>

definition zeros :: "u8 list" where "zeros = replicate 1530 0"

lemma length_zeros [simp]: "length zeros = 1530"
  by (simp add: zeros_def)

definition fifo_reg :: "u32 \<Rightarrow> u16" where
  "fifo_reg port = (if port = 0 then ADIN1110_RX_REG else ADIN2111_RX_P2_REG)"

definition fsize_reg :: "u32 \<Rightarrow> u16" where
  "fsize_reg port = (if port = 0 then ADIN1110_RX_FSIZE_REG else ADIN2111_RX_P2_FSIZE_REG)"

definition rx_header :: "bool \<Rightarrow> u8 list \<Rightarrow> u32 \<Rightarrow> u8 list" where
  "rx_header c t port = with_crc c t [0x80, ucast (fifo_reg port)] @ [0] @ be16b (ucast port)"

lemma length_rx_header [simp]: "length (rx_header c t port) = 5 + of_bool c"
  by (simp add: rx_header_def)

definition fifo_request :: "u32 \<Rightarrow> (bool \<Rightarrow> ('d, 'a) am) \<Rightarrow> ('d, 'a) am" where
  "fifo_request port f =
     bindr (put_bytes (replicate ADIN1110_BUFF_LEN 0) 0) (\<lambda>_.
     bindr (put_be16 (fifo_reg port) 0) (\<lambda>_.
     bindr (buf_change 0 1 (map (\<lambda>b. b OR ucast ADIN1110_SPI_CD))) (\<lambda>_.
     bindr (put_byte 0 2) (\<lambda>_.
     bindm (getm append_crc) (\<lambda>append.
     bindr (if append then bindr (buf_crc 0 2) (\<lambda>c. bindr (put_byte c 2) (\<lambda>_. put_byte 0 3)) else okr ()) (\<lambda>_.
     bindr (put_be16 (ucast port) (if append then 4 else 3)) (\<lambda>_. f append)))))))"

definition fifo_receive :: "'d bus \<Rightarrow> u32 \<Rightarrow> adin1110_eth_buff \<Rightarrow> bool \<Rightarrow> ('d, adin1110_eth_buff) am" where
  "fifo_receive B frame_size eth crc_on =
     (let field_offset = (if crc_on then 4 else 3);
          bytes_number = no_os_align frame_size 4 + of_nat field_offset;
          field_offset = field_offset + 2 in
      bindr (spi_transfer B (unat bytes_number) True) (\<lambda>_.
      let payload_length = unat (frame_size - 2 - 14) in
      bindr (buf_bytes field_offset ADIN1110_ETH_HDR_LEN) (\<lambda>hdr.
      bindr (buf_bytes (field_offset + ADIN1110_ETH_HDR_LEN) payload_length) (\<lambda>body.
      if payload_length > length (payload eth) then failm Out_Of_Bounds
      else
        okr (eth\<lparr>mac_dest := take 6 hdr, mac_source := take 6 (drop 6 hdr), ethertype := drop 12 hdr,
          payload := upd_bytes (payload eth) 0 body, eth_len := frame_size - 2\<rparr>)))))"

lemma read_fifo_split:
  "adin1110_read_fifo B port eth =
     bindm (getm chip_type) (\<lambda>chip.
     if port \<ge> num_ports chip then errr (- EINVAL)
     else
       bindr (adin1110_reg_read B (fsize_reg port)) (\<lambda>frame_size.
       if frame_size < 2 + 4 then okr eth else fifo_request port (fifo_receive B frame_size eth)))"
  unfolding adin1110_read_fifo_def fifo_request_def fifo_receive_def fifo_reg_def fsize_reg_def Let_def ..

lemma fifo_reg_bytes: "be16b (fifo_reg port) = [0, ucast (fifo_reg port)]"
  by (simp add: be16b fifo_reg_def ADIN1110_RX_REG_def ADIN2111_RX_P2_REG_def)

lemma built_zero: "length f < 1530 \<Longrightarrow> built zeros (f @ [0]) \<sigma> = built zeros f \<sigma>"
proof -
  assume "length f < 1530"
  then have "1530 - length f = Suc (1530 - Suc (length f))" by arith
  then have "replicate (1530 - length f) (0 :: u8) = 0 # replicate (1530 - Suc (length f)) 0" by (simp only: replicate_Suc)
  then show ?thesis by (simp add: built_def zeros_def drop_replicate)
qed

lemma fifo_request_run:
  assumes "wf_desc \<sigma>"
  shows "fifo_request port f \<sigma> =
    f (append_crc \<sigma>) (built zeros (rx_header (append_crc \<sigma>) (crc_table \<sigma>) port) \<sigma>)"
proof -
  let ?r = "ucast (fifo_reg port) :: u8" and ?c = "append_crc \<sigma>" and ?t = "crc_table \<sigma>"
  have d: "length (data_buf \<sigma>) = 1530" using assms by (simp add: wf_desc_def)
  have 1: "put_bytes (replicate 1530 0) 0 \<sigma> = Inr (Inr (), built zeros [] \<sigma>)"
    using d by (simp add: put_bytes_def buf_change_def built_def zeros_def upd_bytes_all)
  have 2: "put_be16 (fifo_reg port) 0 (built zeros [] \<sigma>) = Inr (Inr (), built zeros [0, ?r] \<sigma>)"
    using built_put_be16[OF length_zeros, of 0 "[]" "fifo_reg port" \<sigma>] by (simp add: fifo_reg_bytes)
  have 3: "buf_change 0 1 (map (\<lambda>b. b OR ucast ADIN1110_SPI_CD)) (built zeros [0, ?r] \<sigma>) =
      Inr (Inr (), built zeros [0x80, ?r] \<sigma>)"
    using built_or_head[OF length_zeros, of "[0, ?r]" 0 "[?r]" _ \<sigma>] by (simp add: masks)
  have 4: "put_byte 0 2 (built zeros [0x80, ?r] \<sigma>) = Inr (Inr (), built zeros [0x80, ?r] \<sigma>)"
    using built_put_byte[OF length_zeros, of 2 "[0x80, ?r]" 0 \<sigma>] built_zero[of "[0x80, ?r]" \<sigma>] by simp
  have 5: "(if ?c then bindr (buf_crc 0 2) (\<lambda>c. bindr (put_byte c 2) (\<lambda>_. put_byte 0 3)) else okr ())
      (built zeros [0x80, ?r] \<sigma>) = Inr (Inr (), built zeros (with_crc ?c ?t [0x80, ?r] @ [0]) \<sigma>)"
    using built_crc[OF length_zeros, of "[0x80, ?r]" \<sigma>] built_put_byte[OF length_zeros, of 2 "[0x80, ?r]" _ \<sigma>]
      built_put_byte[OF length_zeros, of 3 "[0x80, ?r, crc_of ?t [0x80, ?r]]" 0 \<sigma>] built_zero[of "[0x80, ?r]" \<sigma>]
    by (simp add: with_crc_def bindr_Inr run_simps)
  have 6: "put_be16 (ucast port) (if ?c then 4 else 3) (built zeros (with_crc ?c ?t [0x80, ?r] @ [0]) \<sigma>) =
      Inr (Inr (), built zeros (rx_header ?c ?t port) \<sigma>)"
    unfolding rx_header_def append_assoc[symmetric] by (rule built_put_be16[OF length_zeros]) simp_all
  show ?thesis
    unfolding fifo_request_def using 3 4 5 6 by (simp add: bindr_Inr 1 2 bindm_unfold run_simps)
qed

definition round4 :: "nat \<Rightarrow> nat" where "round4 n = 4 * ((n + 3) div 4)"

lemma round4: "n \<le> round4 n" "round4 n \<le> n + 3"
  by (auto simp: round4_def)

lemma round4_max: "n \<le> 1524 \<Longrightarrow> round4 n \<le> 1524"
  by (simp add: round4_def)

definition rx_request :: "bool \<Rightarrow> u8 list \<Rightarrow> u32 \<Rightarrow> nat \<Rightarrow> u8 list" where
  "rx_request c t port n = rx_header c t port @ replicate (round4 n - 2) 0"

lemma built_transfer_rx:
  assumes d: "length d = 1530" and n: "length f \<le> n" "n \<le> 1530"
    and tr: "transfer B (take n (f @ drop (length f) d)) (dev \<sigma>) = Inr ((ret, bs), d')" and len: "length bs = n"
  shows "spi_transfer B n True (built d f \<sigma>) =
    Inr (if ret = 0 then Inr () else Inl ret, \<sigma>\<lparr>data_buf := bs @ drop n d, dev := d'\<rparr>)"
proof -
  have "buf_bytes 0 n (built d f \<sigma>) = Inr (Inr (take n (f @ drop (length f) d)), built d f \<sigma>)"
    using d n by (simp add: buf_bytes_def)
  moreover have "outside (transfer B (take n (f @ drop (length f) d))) (built d f \<sigma>) =
      Inr ((ret, bs), (built d f \<sigma>)\<lparr>dev := d'\<rparr>)" using tr by (simp only: outside_def built_simps) simp
  moreover have "put_bytes (take n bs) 0 ((built d f \<sigma>)\<lparr>dev := d'\<rparr>) =
      Inr (Inr (), \<sigma>\<lparr>data_buf := bs @ drop n d, dev := d'\<rparr>)"
    using d n len by (simp add: put_bytes_def buf_change_def built_def upd_bytes_def)
  ultimately show ?thesis by (simp add: spi_transfer_def bindr_Inr bindm_unfold run_simps del: take_append)
qed

lemma fifo_transfer_run:
  assumes n: "n = unat frame_size" "6 \<le> n" "n \<le> 1520" and fo: "fo = 3 + of_bool (append_crc \<sigma>)"
    and tr: "transfer B (rx_request (append_crc \<sigma>) (crc_table \<sigma>) port n) (dev \<sigma>) = Inr ((ret, bs), d')"
    and len: "length bs = round4 n + fo"
  shows "spi_transfer B (unat (no_os_align frame_size 4 + of_nat fo)) True
      (built zeros (rx_header (append_crc \<sigma>) (crc_table \<sigma>) port) \<sigma>) =
    Inr (if ret = 0 then Inr () else Inl ret, \<sigma>\<lparr>data_buf := bs @ drop (length bs) zeros, dev := d'\<rparr>)"
proof -
  let ?h = "rx_header (append_crc \<sigma>) (crc_table \<sigma>) port"
  have "unat (of_nat fo :: u32) = fo" using fo by (simp add: unat_of_nat)
  moreover have "unat (no_os_align frame_size 4) = round4 n" using n by (simp add: unat_align4 round4_def)
  ultimately have b: "unat (no_os_align frame_size 4 + of_nat fo) = round4 n + fo"
    using round4(2)[of n] n(3) fo by (subst unat_add_small) auto
  have h: "length ?h = fo + 2" using fo by simp
  have "min (round4 n - 2) (1530 - (fo + 2)) = round4 n - 2" using round4(2)[of n] n(3) fo by auto
  moreover have "round4 n + fo - (fo + 2) = round4 n - 2" by simp
  ultimately have "take (round4 n + fo) (?h @ drop (length ?h) zeros) = rx_request (append_crc \<sigma>) (crc_table \<sigma>) port n"
    unfolding rx_request_def using h round4(1)[of n] n(2) by (simp only: take_append drop_replicate take_replicate zeros_def) simp
  moreover have small: "round4 n + fo \<le> 1530" using round4(2)[of n] n(3) fo by simp
  ultimately show ?thesis
    unfolding b using built_transfer_rx[OF length_zeros, of ?h "round4 n + fo" B \<sigma> ret bs d'] tr len h round4(1)[of n] n(2)
    by simp
qed

lemma fifo_receive_run:
  assumes n: "n = unat frame_size" "6 \<le> n" "n \<le> 1520"
    and tr: "transfer B (rx_request (append_crc \<sigma>) (crc_table \<sigma>) port n) (dev \<sigma>) = Inr ((0, bs), d')"
    and len: "length bs = round4 n + 3 + of_bool (append_crc \<sigma>)"
  shows "fifo_receive B frame_size eth (append_crc \<sigma>) (built zeros (rx_header (append_crc \<sigma>) (crc_table \<sigma>) port) \<sigma>) =
    (let frame = take (n - 2) (drop (5 + of_bool (append_crc \<sigma>)) bs) in
     if n < 16 \<or> length (payload eth) < n - 16 then Inl Out_Of_Bounds
     else Inr (Inr (eth\<lparr>mac_dest := take 6 frame, mac_source := take 6 (drop 6 frame), ethertype := take 2 (drop 12 frame),
         payload := upd_bytes (payload eth) 0 (drop 14 frame), eth_len := frame_size - 2\<rparr>),
       \<sigma>\<lparr>data_buf := bs @ drop (length bs) zeros, dev := d'\<rparr>))"
proof -
  define fo where "fo = (if append_crc \<sigma> then 4 else 3 :: nat)"
  have fo: "fo = 3 + of_bool (append_crc \<sigma>)" "5 + of_bool (append_crc \<sigma>) = fo + 2" "fo \<le> 4" by (auto simp: fo_def)
  let ?h = "built zeros (rx_header (append_crc \<sigma>) (crc_table \<sigma>) port) \<sigma>"
  let ?s = "\<sigma>\<lparr>data_buf := bs @ drop (length bs) zeros, dev := d'\<rparr>"
  have len': "length bs = round4 n + fo" using len fo by simp
  have t: "spi_transfer B (unat (no_os_align frame_size 4 + of_nat fo)) True ?h = Inr (Inr (), ?s)"
    using fifo_transfer_run[OF n fo(1) tr len'] by simp
  have total: "length (bs @ drop (length bs) zeros) = 1530" using len' round4(2)[of n] n(3) fo by simp
  have hdr: "buf_bytes (fo + 2) 14 ?s = Inr (Inr (take 14 (drop (fo + 2) (bs @ drop (length bs) zeros))), ?s)"
    using total fo(3) by (simp add: buf_bytes_def)
  show ?thesis
  proof (cases "n < 16")
    case True
    have "frame_size - 2 - 14 = frame_size + 4294967280" by (simp only: diff_conv_add_uminus) simp
    moreover have "unat (frame_size + 4294967280) = n + 4294967280" using True n by (subst unat_add_small) auto
    ultimately have "unat (frame_size - 2 - 14) = n + 4294967280" by (simp only:)
    then have "buf_bytes (fo + 2 + 14) (unat (frame_size - 2 - 14)) ?s = Inl Out_Of_Bounds"
      using total by (simp add: buf_bytes_def)
    with t hdr have "fifo_receive B frame_size eth (append_crc \<sigma>) ?h = Inl Out_Of_Bounds"
      unfolding fifo_receive_def Let_def fo_def[symmetric]
      by (simp only: bindr_Inr[of "spi_transfer B (unat (no_os_align frame_size 4 + of_nat fo)) True"]
          bindr_Inr[of "buf_bytes (fo + 2) 14"] bindr_Inl[of "buf_bytes (fo + 2 + 14) (unat (frame_size - 2 - 14))"])
    with True show ?thesis by (simp add: Let_def)
  next
    case False
    have p: "unat (frame_size - 2 - 14) = n - 16"
      using False n by (simp add: unat_sub word_le_nat_alt)
    have l: "fo + n \<le> length bs" using len' round4(1)[of n] by simp
    have h14: "take 14 (drop (fo + 2) (bs @ drop (length bs) zeros)) = take 14 (drop (fo + 2) bs)"
      using l False by simp
    have body: "buf_bytes (fo + 2 + 14) (n - 16) ?s = Inr (Inr (take (n - 16) (drop (fo + 16) bs)), ?s)"
      using total l False by (simp add: buf_bytes_def add.commute)
    have dr: "drop 14 (take (n - 2) (drop (fo + 2) bs)) = take (n - 16) (drop (fo + 16) bs)"
      using False by (simp add: drop_take add.commute)
    have k: "min 6 (n - 2) = 6" "min (n - 2) 6 = 6" "min 6 (n - 8) = 6" "min 2 (n - 14) = 2" using False by simp_all
    have e: "take 6 (take 14 xs) = take 6 (take (n - 2) xs)" "take 6 (drop 6 (take 14 xs)) = take 6 (drop 6 (take (n - 2) xs))"
      "drop 12 (take 14 xs) = take 2 (drop 12 (take (n - 2) xs))" for xs :: "u8 list"
      using k by (simp_all add: drop_take)
    let ?hdr = "take 14 (drop (fo + 2) bs)" and ?body = "take (n - 16) (drop (fo + 16) bs)"
    have "fifo_receive B frame_size eth (append_crc \<sigma>) ?h =
        (if length (payload eth) < n - 16 then failm Out_Of_Bounds
         else okr (eth\<lparr>mac_dest := take 6 ?hdr, mac_source := take 6 (drop 6 ?hdr), ethertype := drop 12 ?hdr,
           payload := upd_bytes (payload eth) 0 ?body, eth_len := frame_size - 2\<rparr>)) ?s"
      unfolding fifo_receive_def Let_def fo_def[symmetric] p using t hdr[unfolded h14] body
      by (simp only: bindr_Inr[of "spi_transfer B (unat (no_os_align frame_size 4 + of_nat fo)) True"]
          bindr_Inr[of "buf_bytes (fo + 2) 14"] bindr_Inr[of "buf_bytes (fo + 2 + 14) (n - 16)"])
    with False show ?thesis
      unfolding fo(2) Let_def dr e[symmetric] by (simp add: run_simps)
  qed
qed

lemma read_fifo_steps:
  assumes wf: "wf_desc \<sigma>" and port: "unat port < unat (num_ports (chip_type \<sigma>))"
    and rd: "adin1110_reg_read B (fsize_reg port) \<sigma> = Inr (Inr frame_size, \<sigma>1)" and n: "6 \<le> unat frame_size"
  shows "adin1110_read_fifo B port eth \<sigma> = fifo_receive B frame_size eth (append_crc \<sigma>)
      (built zeros (rx_header (append_crc \<sigma>) (crc_table \<sigma>) port) \<sigma>1)"
    and "append_crc \<sigma>1 = append_crc \<sigma>" and "crc_table \<sigma>1 = crc_table \<sigma>"
proof -
  note k = keepsD[OF keeps_reg(2)[OF order_refl] wf rd]
  show same: "append_crc \<sigma>1 = append_crc \<sigma>" "crc_table \<sigma>1 = crc_table \<sigma>"
    using k(2) by (simp_all add: config_def)
  have "\<not> frame_size < 2 + 4" using n by (simp add: word_less_nat_alt)
  then show "adin1110_read_fifo B port eth \<sigma> = fifo_receive B frame_size eth (append_crc \<sigma>)
      (built zeros (rx_header (append_crc \<sigma>) (crc_table \<sigma>) port) \<sigma>1)"
    using port rd fifo_request_run[OF k(1), of port "fifo_receive B frame_size eth"]
    by (simp add: read_fifo_split bindm_unfold run_simps bindr_Inr word_le_nat_alt same)
qed

section \<open>Properties of reception\<close>

lemma read_fifo_run:
  assumes "wf_desc \<sigma>" and "unat port < unat (num_ports (chip_type \<sigma>))"
    and "adin1110_reg_read B (fsize_reg port) \<sigma> = Inr (Inr frame_size, \<sigma>1)"
    and "n = unat frame_size" and "16 \<le> n" and "n \<le> 1520" and "n - 16 \<le> length (payload eth)"
    and "transfer B (rx_request (append_crc \<sigma>) (crc_table \<sigma>) port n) (dev \<sigma>1) = Inr ((0, bs), d')"
    and "length bs = round4 n + 3 + of_bool (append_crc \<sigma>)"
    and "frame = take (n - 2) (drop (5 + of_bool (append_crc \<sigma>)) bs)"
  shows "\<exists>\<sigma>'. adin1110_read_fifo B port eth \<sigma> =
      Inr (Inr (eth\<lparr>mac_dest := take 6 frame, mac_source := take 6 (drop 6 frame), ethertype := take 2 (drop 12 frame),
        payload := upd_bytes (payload eth) 0 (drop 14 frame), eth_len := frame_size - 2\<rparr>), \<sigma>') \<and> dev \<sigma>' = d'"
proof -
  have "6 \<le> unat frame_size" using assms(4,5) by simp
  note st = read_fifo_steps(1)[OF assms(1-3) this, of eth] read_fifo_steps(2,3)[OF assms(1-3) this]
  have "fifo_receive B frame_size eth (append_crc \<sigma>1) (built zeros (rx_header (append_crc \<sigma>1) (crc_table \<sigma>1) port) \<sigma>1) =
      Inr (Inr (eth\<lparr>mac_dest := take 6 frame, mac_source := take 6 (drop 6 frame), ethertype := take 2 (drop 12 frame),
        payload := upd_bytes (payload eth) 0 (drop 14 frame), eth_len := frame_size - 2\<rparr>),
        \<sigma>1\<lparr>data_buf := bs @ drop (length bs) zeros, dev := d'\<rparr>)"
    using fifo_receive_run[where n = n and frame_size = frame_size and B = B and \<sigma> = \<sigma>1 and port = port
        and bs = bs and d' = d' and eth = eth] assms(4-10) st(2,3) by (simp add: Let_def)
  then show ?thesis by (simp add: st)
qed

text \<open>C19: When the chip announces a frame of \<open>n\<close> bytes with its header, 16 to 1520, one transfer
  of the header, the port and zeros up to the next multiple of four reads it, and the
  caller gets the header fields and, in the first bytes of its buffer, the payload, as
  they were received behind the two bytes of the frame header.\<close>

theorem read_fifo_returns_frame:
  assumes "wf_desc \<sigma>" and "unat port < unat (num_ports (chip_type \<sigma>))"
    and "adin1110_reg_read B (fsize_reg port) \<sigma> = Inr (Inr frame_size, \<sigma>1)"
    and "n = unat frame_size" and "16 \<le> n" and "n \<le> 1520" and "n - 16 \<le> length (payload eth)"
    and "transfer B (rx_request (append_crc \<sigma>) (crc_table \<sigma>) port n) (dev \<sigma>1) = Inr ((0, bs), d')"
    and "length bs = round4 n + 3 + of_bool (append_crc \<sigma>)"
    and "frame = take (n - 2) (drop (5 + of_bool (append_crc \<sigma>)) bs)"
  shows "\<exists>\<sigma>'. adin1110_read_fifo B port eth \<sigma> =
      Inr (Inr (eth\<lparr>mac_dest := take 6 frame, mac_source := take 6 (drop 6 frame), ethertype := take 2 (drop 12 frame),
        payload := upd_bytes (payload eth) 0 (drop 14 frame), eth_len := frame_size - 2\<rparr>), \<sigma>') \<and> dev \<sigma>' = d'"
  by (rule read_fifo_run[OF assms])

text \<open>C20: A frame size below 6 is taken for an empty FIFO. A frame size from 6 to 15, which the
  check lets pass, makes the length of the payload wrap around: once the transfer has
  succeeded, the copy runs out of the frame buffer. So does a frame larger than the buffer
  of the caller, whose size the driver does not know.\<close>

theorem read_fifo_bad_size:
  assumes "wf_desc \<sigma>" and "unat port < unat (num_ports (chip_type \<sigma>))"
    and "adin1110_reg_read B (fsize_reg port) \<sigma> = Inr (Inr frame_size, \<sigma>1)" and "n = unat frame_size"
    and "n \<le> 1520" and "n < 16 \<or> length (payload eth) < n - 16"
    and "transfer B (rx_request (append_crc \<sigma>) (crc_table \<sigma>) port n) (dev \<sigma>1) = Inr ((0, bs), d')"
    and "length bs = round4 n + 3 + of_bool (append_crc \<sigma>)"
  shows "adin1110_read_fifo B port eth \<sigma> = (if n < 6 then Inr (Inr eth, \<sigma>1) else Inl Out_Of_Bounds)"
proof (cases "n < 6")
  case True
  then have "frame_size < 2 + 4" using assms(4) by (simp add: word_less_nat_alt)
  with True assms(2,3) show ?thesis
    by (simp add: read_fifo_split bindm_unfold run_simps bindr_Inr word_le_nat_alt)
next
  case False
  then have "6 \<le> unat frame_size" using assms(4) by simp
  note st = read_fifo_steps(1)[OF assms(1-3) this, of eth] read_fifo_steps(2,3)[OF assms(1-3) this]
  have "fifo_receive B frame_size eth (append_crc \<sigma>1)
      (built zeros (rx_header (append_crc \<sigma>1) (crc_table \<sigma>1) port) \<sigma>1) = Inl Out_Of_Bounds"
    using fifo_receive_run[where n = n and frame_size = frame_size and B = B and \<sigma> = \<sigma>1 and port = port
        and bs = bs and d' = d' and eth = eth] assms(4-8) st(2,3) False by (simp add: Let_def)
  with False show ?thesis by (simp add: st)
qed

text \<open>A chip with a frame of 20 bytes in its FIFO: the bytes of a FIFO read count up.\<close>

definition frame_chip :: "(u16 \<Rightarrow> u32) bus" where
  "frame_chip = test_bus\<lparr>transfer := \<lambda>tx d.
     if frame_addr tx = 0x91 then Inr ((0, map of_nat [0..<length tx]), d) else transfer test_bus tx d\<rparr>"

definition rx_desc :: "u32 \<Rightarrow> (u16 \<Rightarrow> u32) adin1110_desc" where
  "rx_desc n = (test_desc False)\<lparr>dev := \<lambda>_. n\<rparr>"

lemma rx_desc_read:
  "\<exists>\<sigma>1. adin1110_reg_read frame_chip (fsize_reg 0) (rx_desc n) = Inr (Inr n, \<sigma>1) \<and> wf_desc (rx_desc n) \<and>
    append_crc (rx_desc n) = False \<and> chip_type (rx_desc n) = ADIN1110"
proof -
  have d: "wf_desc (rx_desc n)" "append_crc (rx_desc n) = False" "chip_type (rx_desc n) = ADIN1110" "dev (rx_desc n) = (\<lambda>_. n)"
    using test_desc_wf(1)[of False] by (simp_all add: rx_desc_def wf_desc_def) (simp_all add: test_desc_def)
  have r: "fsize_reg 0 = 0x90" by (simp add: fsize_reg_def ADIN1110_RX_FSIZE_REG_def)
  have "frame_addr (read_request (rx_desc n) 0x90) = 0x90"
    using frame_addrs(2)[of "0x90"] by (simp add: read_request_def Let_def)
  then have "transfer frame_chip (read_request (rx_desc n) 0x90) (dev (rx_desc n)) =
      transfer test_bus (read_request (rx_desc n) 0x90) (dev (rx_desc n))" by (simp add: frame_chip_def)
  also have "\<dots> = Inr ((0, read_frame False (crc_table (test_desc False)) 0x90 @ with_crc False (crc_table (test_desc False)) (be32b n)), \<lambda>_. n)"
    using test_chip_read[of "0x90" False "crc_table (test_desc False)"] d
    by (simp add: read_request_def Let_def rx_desc_def)
  finally show ?thesis
    using reg_read_run[OF d(1), of frame_chip "0x90"] d
      read_answer_ok[of "read_frame False (crc_table (test_desc False)) 0x90" False "crc_table (rx_desc n)" n]
    unfolding r by (auto simp: with_crc_def)
qed

lemma rx_request_addr: "frame_addr (rx_request False t 0 n) = 0x91" "length (rx_request False t 0 n) = 5 + (round4 n - 2)"
  by (simp_all add: rx_request_def rx_header_def with_crc_def fifo_reg_def ADIN1110_RX_REG_def frame_addr_def
      no_os_get_unaligned_be16_def)

lemma rx_transfer:
  "transfer frame_chip (rx_request False t 0 n) d = Inr ((0, map of_nat [0..<5 + (round4 n - 2)]), d)"
  by (simp add: frame_chip_def rx_request_addr)

theorem read_fifo_returns_frame_witness:
  "\<exists>\<sigma>'. adin1110_read_fifo frame_chip 0 test_frame (rx_desc 20) = Inr (Inr (test_frame\<lparr>mac_dest := [5, 6, 7, 8, 9, 10],
      mac_source := [11, 12, 13, 14, 15, 16], ethertype := [17, 18], payload := [19, 20, 21, 22, 5, 6], eth_len := 18\<rparr>), \<sigma>')"
proof -
  obtain \<sigma>1 where r: "adin1110_reg_read frame_chip (fsize_reg 0) (rx_desc 20) = Inr (Inr 20, \<sigma>1)" "wf_desc (rx_desc 20)"
    "append_crc (rx_desc 20) = False" "chip_type (rx_desc 20) = ADIN1110" using rx_desc_read by blast
  have e: "(map of_nat [0..<23] :: u8 list) = [0, 1, 2, 3, 4, 5, 6, 7, 8, 9, 10, 11, 12, 13, 14, 15, 16, 17, 18, 19, 20, 21, 22]"
    by (simp add: upt_rec)
  show ?thesis
    using read_fifo_returns_frame[OF r(2) _ r(1), where n = 20 and eth = test_frame and bs = "map of_nat [0..<23]"
        and d' = "dev \<sigma>1" and frame = "take 18 (drop 5 (map of_nat [0..<23]))"] rx_transfer[where t = "crc_table (rx_desc 20)" and n = 20 and d = "dev \<sigma>1"] r(3,4)
    by (auto simp: num_ports_def round4_def e test_frame_def upd_bytes_def)
qed

theorem read_fifo_bad_size_witness: "adin1110_read_fifo frame_chip 0 test_frame (rx_desc 8) = Inl Out_Of_Bounds"
proof -
  obtain \<sigma>1 where r: "adin1110_reg_read frame_chip (fsize_reg 0) (rx_desc 8) = Inr (Inr 8, \<sigma>1)" "wf_desc (rx_desc 8)"
    "append_crc (rx_desc 8) = False" "chip_type (rx_desc 8) = ADIN1110" using rx_desc_read by blast
  show ?thesis
    using read_fifo_bad_size[OF r(2) _ r(1), where n = 8 and eth = test_frame and bs = "map of_nat [0..<11]" and d' = "dev \<sigma>1"]
      rx_transfer[where t = "crc_table (rx_desc 8)" and n = 8 and d = "dev \<sigma>1"] r(3,4)
    by (simp add: num_ports_def round4_def)
qed

end
