(* ===== verification/Network_If.thy ===== *)
theory Network_If
  imports Rtos Adin1110_Frames
begin

text \<open>
  The network interface of the application (\<open>Application/network.c\<close>): the adapter between
  lwIP and the driver of the Ethernet chip. The packet buffers of lwIP are typed objects
  whose payload is in the memory of bytes, the mutex \<open>adinHandle\<close> is a semaphore of the
  kernel, and the driver runs on a descriptor of its own, which exists when \<open>adin_present\<close>
  is set. What the adapter calls in lwIP is a record of operations.
\<close>

section \<open>State\<close>

datatype netif_fn = No_Function | Etharp_Output | Adin1110if_Link_Output | Adin1110if_State_Changed | Tcpip_Input

record netif =
  nif_ip_addr :: u32
  nif_netmask :: u32
  nif_gw :: u32
  nif_input :: netif_fn
  nif_output :: netif_fn
  nif_linkoutput :: netif_fn
  nif_state :: netif_fn
  nif_mtu :: u16
  nif_hwaddr_len :: u8
  nif_hwaddr :: "u8 list"
  nif_flags :: u8
  nif_name :: string
  nif_num :: u8

record pbuf =
  pb_next :: ptr
  pb_payload :: ptr
  pb_tot_len :: u16
  pb_len :: u16

record 'd net_state = rtos +
  netifs :: "nat \<Rightarrow> netif option"
  pbufs :: "nat \<Rightarrow> pbuf option"
  adin1110_netif :: ptr
  adin_present :: bool
  driver :: "'d adin1110_desc"
  adinHandle :: ptr
  eth_rx_buff :: "u8 list"
  network_init_completed :: bool

text \<open>\<open>ni_input\<close> is \<open>tcpip_input\<close>, which the interface is added with.\<close>

record 's lwip =
  tcpip_init :: "('s, unit) cm"
  netif_add :: "ptr \<Rightarrow> u32 \<Rightarrow> u32 \<Rightarrow> u32 \<Rightarrow> (ptr \<Rightarrow> ('s, int) cm) \<Rightarrow> ('s, ptr) cm"
  netif_set_default :: "ptr \<Rightarrow> ('s, unit) cm"
  netif_set_up :: "ptr \<Rightarrow> ('s, unit) cm"
  netif_set_link_up :: "ptr \<Rightarrow> ('s, unit) cm"
  dhcp_start :: "ptr \<Rightarrow> ('s, unit) cm"
  ni_input :: "ptr \<Rightarrow> ptr \<Rightarrow> ('s, int) cm"

section \<open>Configuration (\<open>config.h\<close>)\<close>

definition ADIN1110_MAC :: "u8 list" where "ADIN1110_MAC = [0x02, 0xE0, 0x22, 0xFE, 0xDA, 0xD1]"

abbreviation (input) "ADIN1110_DHCP_ENABLED \<equiv> 0 :: int"

definition IP4_ADDR :: "u8 \<Rightarrow> u8 \<Rightarrow> u8 \<Rightarrow> u8 \<Rightarrow> u32" where
  "IP4_ADDR a b c d = ucast a OR push_bit 8 (ucast b) OR push_bit 16 (ucast c) OR push_bit 24 (ucast d)"

abbreviation (input) "NETIF_FLAG_BROADCAST \<equiv> 0x02 :: u8"
abbreviation (input) "NETIF_FLAG_ETHARP \<equiv> 0x08 :: u8"

section \<open>CMSIS-RTOS mutexes\<close>

abbreviation (input) "osOK \<equiv> 0 :: int"
abbreviation (input) "osErrorParameter \<equiv> 0x80 :: int"
abbreviation (input) "osErrorOS \<equiv> 0xFF :: int"

text \<open>\<open>osMutexWait(mutex_id, osWaitForever)\<close> outside of interrupts.\<close>

definition osMutexWait :: "ptr \<Rightarrow> ('z rtos_scheme, int) cm" where
  "osMutexWait mutex_id =
     (if mutex_id = NULL then returnm osErrorParameter
      else bindm (xSemaphoreTake mutex_id) (\<lambda>taken. returnm (if taken then osOK else osErrorOS)))"

definition osMutexRelease :: "ptr \<Rightarrow> ('z rtos_scheme, int) cm" where
  "osMutexRelease mutex_id =
     bindm (xSemaphoreGive mutex_id) (\<lambda>given. returnm (if given then osOK else osErrorOS))"

section \<open>The driver and the buffers of lwIP\<close>

text \<open>A function of the driver called with \<open>adin1110_desc\<close>; it reads the descriptor first.\<close>

definition on_driver :: "('d, 'a) am \<Rightarrow> (('d, 'z) net_state_scheme, int + 'a) cm" where
  "on_driver m \<sigma> = (case m (driver \<sigma>) of Inl e \<Rightarrow> Inl e | Inr (r, d) \<Rightarrow> Inr (r, \<sigma>\<lparr>driver := d\<rparr>))"

definition with_desc :: "('d, 'a) am \<Rightarrow> (('d, 'z) net_state_scheme, int + 'a) cm" where
  "with_desc m = bindm (getm adin_present) (\<lambda>present. if present then on_driver m else failm Null_Deref)"

text \<open>The bytes from a pointer to the end of its block: what a callee can read there.\<close>

definition bytes_from :: "ptr \<Rightarrow> ('z cmem_scheme, u8 list) cm" where
  "bytes_from p \<sigma> =
     (case p of
        NULL \<Rightarrow> Inl Null_Deref
      | Ptr b i \<Rightarrow> (case blocks \<sigma> b of None \<Rightarrow> Inl Dangling | Some bs \<Rightarrow> Inr (drop i bs, \<sigma>)))"

text \<open>\<open>pbuf_alloc(PBUF_RAW_TX, len, PBUF_RAM)\<close>: one buffer with room for all bytes behind it.\<close>

abbreviation (input) "SIZEOF_STRUCT_PBUF \<equiv> 16 :: nat"

definition pbuf_alloc_ram :: "u16 \<Rightarrow> (('d, 'z) net_state_scheme, ptr) cm" where
  "pbuf_alloc_ram len = new_obj (SIZEOF_STRUCT_PBUF + unat len) (\<lambda>b \<sigma>.
     \<sigma>\<lparr>blocks := (blocks \<sigma>)(b \<mapsto> map (junk \<sigma> b) [0..<unat len]),
       pbufs := (pbufs \<sigma>)(b \<mapsto> \<lparr>pb_next = NULL, pb_payload = Ptr b 0, pb_tot_len = len, pb_len = len\<rparr>)\<rparr>)"

text \<open>An \<open>int\<close> returned as \<open>err_t\<close>, which has 8 bits.\<close>

definition as_err :: "int \<Rightarrow> int" where
  "as_err ret = sint (word_of_int ret :: u8)"

section \<open>Setting up\<close>

definition adin1110_ip :: adin1110_init_param where
  "adin1110_ip = \<lparr>p_chip_type = ADIN1110, p_mac_address = ADIN1110_MAC, p_append_crc = False\<rparr>"

text \<open>Whether there is a descriptor afterwards.\<close>

definition adin1110if_setup :: "'d bus \<Rightarrow> nat \<Rightarrow> (('d, 'z) net_state_scheme, bool) cm" where
  "adin1110if_setup B fuel =
     bindm (on_driver (adin1110_init B fuel adin1110_ip)) (\<lambda>ret.
     returnm (case ret of Inl _ \<Rightarrow> False | Inr _ \<Rightarrow> True))"

definition adin1110if_init :: "'d bus \<Rightarrow> nat \<Rightarrow> ptr \<Rightarrow> (('d, 'z) net_state_scheme, int) cm" where
  "adin1110if_init B fuel netif =
     bindm (adin1110if_setup B fuel) (\<lambda>ok.
     bindm (modifym (\<lambda>\<sigma>. \<sigma>\<lparr>adin_present := ok\<rparr>)) (\<lambda>_.
     bindm (with_desc (adin1110_set_promisc B 0 True)) (\<lambda>_.
     if \<not> ok then returnm (- 1)
     else
       bindm (deref netifs netif) (\<lambda>n.
       bindm (modifym (\<lambda>\<sigma>. \<sigma>\<lparr>netifs := (netifs \<sigma>)(block_of netif \<mapsto>
         n\<lparr>nif_hwaddr_len := 6, nif_hwaddr := ADIN1110_MAC, nif_mtu := 1500, nif_name := ''en'', nif_num := 1,
           nif_state := Adin1110if_State_Changed, nif_output := Etharp_Output,
           nif_linkoutput := Adin1110if_Link_Output,
           nif_flags := nif_flags n OR (NETIF_FLAG_ETHARP OR NETIF_FLAG_BROADCAST)\<rparr>)\<rparr>)) (\<lambda>_.
       returnm 0)))))"

definition adin1110if_state_changed :: "ptr \<Rightarrow> (('d, 'z) net_state_scheme, int) cm" where
  "adin1110if_state_changed netif = returnm 0"

section \<open>Frames\<close>

definition adin1110if_link_output :: "'d bus \<Rightarrow> ptr \<Rightarrow> ptr \<Rightarrow> (('d, 'z) net_state_scheme, int) cm" where
  "adin1110if_link_output B netif p =
     bindm (getm adin_present) (\<lambda>present.
     if \<not> present then returnm (- 1)
     else
       bindm (deref pbufs p) (\<lambda>pb.
       bindm (read_bytes (pb_payload pb) ADIN1110_ETH_ALEN) (\<lambda>dest.
       bindm (getm (\<lambda>\<sigma>. take ADIN1110_ETH_ALEN (mac_address (driver \<sigma>)))) (\<lambda>source.
       bindm (read_bytes (ptr_add (pb_payload pb) (ADIN1110_ETH_ALEN * 2)) 2) (\<lambda>type.
       bindm (getm adinHandle) (\<lambda>adin.
       bindm (osMutexWait adin) (\<lambda>status.
       if status = osOK then
         bindm (bytes_from (ptr_add (pb_payload pb) ADIN1110_ETH_HDR_LEN)) (\<lambda>rest.
         bindm (with_desc (adin1110_write_fifo B 0 \<lparr>eth_len = ucast (pb_len pb), mac_dest = dest, mac_source = source,
           ethertype = type, payload = rest\<rparr>)) (\<lambda>ret.
         bindm (osMutexRelease adin) (\<lambda>_.
         returnm (case ret of Inl e \<Rightarrow> as_err e | Inr _ \<Rightarrow> 0))))
       else returnm 1)))))))"

text \<open>Copying a received frame into a buffer of lwIP.\<close>

definition fill_pbuf :: "ptr \<Rightarrow> adin1110_eth_buff \<Rightarrow> (('d, 'z) net_state_scheme, unit) cm" where
  "fill_pbuf p eth =
     bindm (deref pbufs p) (\<lambda>pb.
     bindm (write_bytes (pb_payload pb) (mac_dest eth)) (\<lambda>_.
     bindm (write_bytes (ptr_add (pb_payload pb) ADIN1110_ETH_ALEN) (mac_source eth)) (\<lambda>_.
     bindm (write_bytes (ptr_add (pb_payload pb) (ADIN1110_ETH_ALEN * 2)) (ethertype eth)) (\<lambda>_.
     if unat (eth_len eth - 14) \<le> length (payload eth)
     then write_bytes (ptr_add (pb_payload pb) (ADIN1110_ETH_ALEN * 2 + 2)) (take (unat (eth_len eth - 14)) (payload eth))
     else failm Out_Of_Bounds))))"

definition adin1110if_poll :: "('d, 'z) net_state_scheme lwip \<Rightarrow> 'd bus \<Rightarrow> ptr \<Rightarrow> (('d, 'z) net_state_scheme, int) cm" where
  "adin1110if_poll L B netif =
     bindm (getm adinHandle) (\<lambda>adin.
     bindm (osMutexWait adin) (\<lambda>status.
     if status = osOK then
       bindm (getm eth_rx_buff) (\<lambda>buf.
       bindm (with_desc (adin1110_read_fifo B 0 \<lparr>eth_len = 0, mac_dest = replicate ADIN1110_ETH_ALEN 0,
         mac_source = replicate ADIN1110_ETH_ALEN 0, ethertype = [0, 0], payload = buf\<rparr>)) (\<lambda>read_ret.
       bindm (case read_ret of Inl _ \<Rightarrow> returnm () | Inr eth \<Rightarrow> modifym (\<lambda>\<sigma>. \<sigma>\<lparr>eth_rx_buff := payload eth\<rparr>)) (\<lambda>_.
       bindm (osMutexRelease adin) (\<lambda>_.
       case read_ret of Inl _ \<Rightarrow> returnm 0 | Inr eth \<Rightarrow>
         if eth_len eth > 0 then
           bindm (pbuf_alloc_ram (ucast (eth_len eth))) (\<lambda>p.
           if p = NULL then returnm 1
           else bindm (fill_pbuf p eth) (\<lambda>_. ni_input L p netif))
         else returnm 0))))
     else returnm 1))"

definition adin1110_poll :: "('d, 'z) net_state_scheme lwip \<Rightarrow> 'd bus \<Rightarrow> (('d, 'z) net_state_scheme, unit) cm" where
  "adin1110_poll L B =
     bindm (getm adin1110_netif) (\<lambda>netif. bindm (adin1110if_poll L B netif) (\<lambda>_. returnm ()))"

section \<open>The network task\<close>

text \<open>The interface is allocated, not cleared; \<open>netif_add\<close> sets its fields. A refused
  allocation is not noticed.\<close>

abbreviation (input) "sizeof_netif \<equiv> 52 :: nat"

definition netif_malloc :: "(('d, 'z) net_state_scheme, ptr) cm" where
  "netif_malloc = new_obj sizeof_netif (\<lambda>b \<sigma>. \<sigma>\<lparr>netifs := (netifs \<sigma>)(b \<mapsto>
     \<lparr>nif_ip_addr = 0, nif_netmask = 0, nif_gw = 0, nif_input = No_Function, nif_output = No_Function,
       nif_linkoutput = No_Function, nif_state = No_Function, nif_mtu = 0, nif_hwaddr_len = 0,
       nif_hwaddr = replicate 6 0, nif_flags = ucast (junk \<sigma> b 45), nif_name = '''', nif_num = 0\<rparr>)\<rparr>)"

definition network_init :: "('d, 'z) net_state_scheme lwip \<Rightarrow> 'd bus \<Rightarrow> nat \<Rightarrow> (('d, 'z) net_state_scheme, unit) cm" where
  "network_init L B fuel =
     bindm netif_malloc (\<lambda>netif.
     bindm (modifym (\<lambda>\<sigma>. \<sigma>\<lparr>adin1110_netif := netif\<rparr>)) (\<lambda>_.
     bindm (tcpip_init L) (\<lambda>_.
     let ip = IP4_ADDR 10 100 100 115; netmask = IP4_ADDR 255 255 255 0; gw = IP4_ADDR 10 100 100 1 in
     bindm (netif_add L netif ip netmask gw (adin1110if_init B fuel)) (\<lambda>_.
     bindm (netif_set_default L netif) (\<lambda>_.
     bindm (netif_set_up L netif) (\<lambda>_.
     bindm (netif_set_link_up L netif) (\<lambda>_.
     if ADIN1110_DHCP_ENABLED = 1 then dhcp_start L netif else returnm ())))))))"

text \<open>\<open>start_network_task\<close> (\<open>main.c\<close>) up to its \<open>n\<close>-th round.\<close>

fun poll_rounds :: "('d, 'z) net_state_scheme lwip \<Rightarrow> 'd bus \<Rightarrow> nat \<Rightarrow> (('d, 'z) net_state_scheme, unit) cm" where
  "poll_rounds L B 0 = returnm ()"
| "poll_rounds L B (Suc n) = bindm (adin1110_poll L B) (\<lambda>_. poll_rounds L B n)"

definition start_network_task :: "('d, 'z) net_state_scheme lwip \<Rightarrow> 'd bus \<Rightarrow> nat \<Rightarrow> nat \<Rightarrow> (('d, 'z) net_state_scheme, unit) cm" where
  "start_network_task L B fuel n =
     bindm (network_init L B fuel) (\<lambda>_.
     bindm (modifym (\<lambda>\<sigma>. \<sigma>\<lparr>network_init_completed := True\<rparr>)) (\<lambda>_. poll_rounds L B n))"

end
