(* ===== verification/Adin1110_Init.thy ===== *)
theory Adin1110_Init
  imports Adin1110_Inv
begin

text \<open>
  Setting up the ADIN1110 driver: the resources \<open>adin1110_init\<close> acquires (descriptor,
  reset pin, SPI device) are counted, and every path through its labels is shown to
  release what it acquired, or to hand a well-formed descriptor to the caller.
\<close>

section \<open>Counting resources\<close>

record resources =
  descs :: int
  pins :: int
  spis :: int

definition counted :: "('d \<Rightarrow> fault + ('a \<times> 'd)) \<Rightarrow> ('a \<Rightarrow> resources \<Rightarrow> resources) \<Rightarrow> ('d \<times> resources, 'a) cm" where
  "counted m f s = (case m (fst s) of Inl e \<Rightarrow> Inl e | Inr (a, d) \<Rightarrow> Inr (a, (d, f a (snd s))))"

text \<open>The operations of a bus, with the acquisitions and releases counted.\<close>

definition tracked :: "'d bus \<Rightarrow> ('d \<times> resources) bus" where
  "tracked B = \<lparr>transfer = \<lambda>tx. counted (transfer B tx) (\<lambda>_ r. r),
     gpio_get_optional = counted (gpio_get_optional B)
       (\<lambda>(ret, present) r. if ret = 0 \<and> present then r\<lparr>pins := pins r + 1\<rparr> else r),
     gpio_direction_output = \<lambda>v. counted (gpio_direction_output B v) (\<lambda>_ r. r),
     gpio_set_value = \<lambda>v. counted (gpio_set_value B v) (\<lambda>_ r. r),
     gpio_remove = \<lambda>p. counted (gpio_remove B p) (\<lambda>_ r. if p then r\<lparr>pins := pins r - 1\<rparr> else r),
     spi_init = counted (spi_init B) (\<lambda>ret r. if ret = 0 then r\<lparr>spis := spis r + 1\<rparr> else r),
     spi_remove = counted (spi_remove B) (\<lambda>_ r. r\<lparr>spis := spis r - 1\<rparr>),
     mdelay = \<lambda>n. counted (mdelay B n) (\<lambda>_ r. r),
     desc_calloc = counted (desc_calloc B) (\<lambda>ok r. if ok then r\<lparr>descs := descs r + 1\<rparr> else r),
     desc_free = counted (desc_free B) (\<lambda>_ r. r\<lparr>descs := descs r - 1\<rparr>)\<rparr>"

lemma tracked_simps [simp]:
  "transfer (tracked B) tx = counted (transfer B tx) (\<lambda>_ r. r)"
  "gpio_direction_output (tracked B) v = counted (gpio_direction_output B v) (\<lambda>_ r. r)"
  "gpio_set_value (tracked B) v = counted (gpio_set_value B v) (\<lambda>_ r. r)"
  "mdelay (tracked B) n = counted (mdelay B n) (\<lambda>_ r. r)"
  "gpio_remove (tracked B) p = counted (gpio_remove B p) (\<lambda>_ r. if p then r\<lparr>pins := pins r - 1\<rparr> else r)"
  "gpio_get_optional (tracked B) = counted (gpio_get_optional B)
     (\<lambda>(ret, present) r. if ret = 0 \<and> present then r\<lparr>pins := pins r + 1\<rparr> else r)"
  "spi_init (tracked B) = counted (spi_init B) (\<lambda>ret r. if ret = 0 then r\<lparr>spis := spis r + 1\<rparr> else r)"
  "spi_remove (tracked B) = counted (spi_remove B) (\<lambda>_ r. r\<lparr>spis := spis r - 1\<rparr>)"
  "desc_calloc (tracked B) = counted (desc_calloc B) (\<lambda>ok r. if ok then r\<lparr>descs := descs r + 1\<rparr> else r)"
  "desc_free (tracked B) = counted (desc_free B) (\<lambda>_ r. r\<lparr>descs := descs r - 1\<rparr>)"
  by (simp_all add: tracked_def)

section \<open>Computations that acquire and release nothing\<close>

definition neutral :: "(('d \<times> resources) adin1110_desc, 'a) cm \<Rightarrow> bool" where
  "neutral m \<longleftrightarrow> (\<forall>\<sigma> r \<sigma>'. m \<sigma> = Inr (r, \<sigma>') \<longrightarrow> snd (dev \<sigma>') = snd (dev \<sigma>))"

named_theorems neutral_rules \<open>the computations that acquire and release nothing\<close>

lemma neutral_basic [neutral_rules]:
  "neutral (returnm a)" "neutral (okr b)" "neutral (errr e)" "neutral (failm f)" "neutral (getm g)"
  by (auto simp: neutral_def run_simps)

lemma neutral_bindm [neutral_rules]: "neutral m \<Longrightarrow> (\<And>a. neutral (f a)) \<Longrightarrow> neutral (bindm m f)"
  unfolding neutral_def bindm_Inr_iff by metis

lemma neutral_bindr [neutral_rules]: "neutral m \<Longrightarrow> (\<And>a. neutral (f a)) \<Longrightarrow> neutral (bindr m f)"
  unfolding bindr_def by (rule neutral_bindm) (simp_all add: neutral_basic split: sum.split)

lemma neutral_if [neutral_rules]: "neutral m \<Longrightarrow> neutral m' \<Longrightarrow> neutral (if b then m else m')"
  by simp

lemma neutral_outside [neutral_rules]: "neutral (outside (counted m (\<lambda>_ r. r)))"
  by (auto simp: neutral_def outside_def counted_def split: sum.splits)

lemma neutral_checked [neutral_rules]: "neutral m \<Longrightarrow> neutral (checked m)"
  unfolding checked_def by (intro neutral_rules)

lemma neutral_buffer [neutral_rules]:
  "neutral (buf_change i n f)" "neutral (put_be16 v i)" "neutral (put_be32 w i)" "neutral (put_byte b i)"
  "neutral (put_bytes bs i)" "neutral (buf_bytes i n)" "neutral (buf_crc i n)"
proof -
  show *: "neutral (buf_change i n f)" for i n f by (auto simp: neutral_def buf_change_def split: if_splits)
  show b: "neutral (buf_bytes i n)" by (auto simp: neutral_def buf_bytes_def split: if_splits)
  show "neutral (put_be16 v i)" "neutral (put_be32 w i)" "neutral (put_byte b i)" "neutral (put_bytes bs i)"
    by (simp_all add: put_be16_def put_be32_def put_byte_def put_bytes_def *)
  show "neutral (buf_crc i n)" unfolding buf_crc_def by (intro neutral_rules b)
qed

lemma neutral_transfer [neutral_rules]: "neutral (spi_transfer (tracked B) n rx)"
  unfolding spi_transfer_def by (intro neutral_rules) (auto split: prod.split intro!: neutral_rules)

lemma neutral_reg [neutral_rules]:
  "neutral (adin1110_reg_write (tracked B) a v)" "neutral (adin1110_reg_read (tracked B) a)"
  unfolding adin1110_reg_write_def adin1110_reg_read_def Let_def by (auto intro!: neutral_rules)

lemma neutral_update [neutral_rules]: "neutral (adin1110_reg_update (tracked B) a m v)"
  unfolding adin1110_reg_update_def Let_def by (intro neutral_rules)

lemma neutral_wait [neutral_rules]: "neutral (mdio_wait (tracked B) fuel reg)"
  by (induction fuel) (auto simp: Let_def intro!: neutral_rules)

lemma neutral_mdio [neutral_rules]:
  "neutral (adin1110_mdio_read_c45 (tracked B) fuel p d r)" "neutral (adin1110_mdio_write_c45 (tracked B) fuel p d r' v)"
  unfolding adin1110_mdio_read_c45_def adin1110_mdio_write_c45_def Let_def by (auto intro!: neutral_rules)

lemma neutral_slot [neutral_rules]: "neutral (find_filter_slot (tracked B) i n)"
  by (induction n arbitrary: i) (auto intro!: neutral_rules)

lemma neutral_set_mac [neutral_rules]: "neutral (adin1110_set_mac_addr (tracked B) mac)"
  unfolding adin1110_set_mac_addr_def Let_def by (auto intro!: neutral_rules)

lemma neutral_power_up [neutral_rules]: "neutral (power_up_loop (tracked B) polls fuel phy r)"
  by (induction fuel arbitrary: r) (auto intro!: neutral_rules)

lemma neutral_ports [neutral_rules]: "neutral (setup_ports (tracked B) fuel i n)"
  by (induction n arbitrary: i) (auto simp: Let_def intro!: neutral_rules)

lemma neutral_setup [neutral_rules]:
  "neutral (adin1110_setup_phy (tracked B) fuel)" "neutral (adin1110_setup_mac (tracked B))"
  "neutral (adin1110_check_reset (tracked B))" "neutral (adin1110_sw_reset (tracked B))"
  unfolding adin1110_setup_phy_def adin1110_setup_mac_def adin1110_check_reset_def adin1110_sw_reset_def Let_def
  by (auto intro!: neutral_rules)

section \<open>Postconditions\<close>

definition post :: "('s, 'a) cm \<Rightarrow> ('a \<Rightarrow> 's \<Rightarrow> bool) \<Rightarrow> 's \<Rightarrow> bool" where
  "post m Q \<sigma> \<longleftrightarrow> (\<forall>r \<sigma>'. m \<sigma> = Inr (r, \<sigma>') \<longrightarrow> Q r \<sigma>')"

lemma post_rules:
  "post (bindm m f) Q \<sigma> \<longleftrightarrow> post m (\<lambda>a. post (f a) Q) \<sigma>"
  "post (returnm a) Q \<sigma> \<longleftrightarrow> Q a \<sigma>" "post (errr e) R \<sigma> \<longleftrightarrow> R (Inl e) \<sigma>" "post (okr b) S \<sigma> \<longleftrightarrow> S (Inr b) \<sigma>"
  "post (getm g) G \<sigma> \<longleftrightarrow> G (g \<sigma>) \<sigma>" "post (modifym h) H \<sigma> \<longleftrightarrow> H () (h \<sigma>)"
  by (auto simp: post_def run_simps bindm_Inr_iff)

lemma post_outside:
  "(\<And>a d. Q a (\<sigma>\<lparr>dev := (d, f a (snd (dev \<sigma>)))\<rparr>)) \<Longrightarrow> post (outside (counted m f)) Q \<sigma>"
  by (auto simp: post_def outside_def counted_def split: sum.splits)

definition held :: "adin1110_chip_id \<times> u8 list \<times> bool \<times> bool \<times> u8 list \<Rightarrow> resources \<Rightarrow> ('d \<times> resources) adin1110_desc \<Rightarrow> bool" where
  "held c r \<sigma> \<longleftrightarrow> wf_desc \<sigma> \<and> config \<sigma> = c \<and> snd (dev \<sigma>) = r"

lemma post_on_error:
  assumes "held c r \<sigma>" and "neutral m" and "keeps 1530 m"
    and "\<And>e \<sigma>'. held c r \<sigma>' \<Longrightarrow> post (label e) Q \<sigma>'" and "\<And>a \<sigma>'. held c r \<sigma>' \<Longrightarrow> post (f a) Q \<sigma>'"
  shows "post (on_error m label f) Q \<sigma>"
  unfolding on_error_def post_rules
proof (unfold post_def[of m], intro allI impI)
  fix x \<sigma>' assume run: "m \<sigma> = Inr (x, \<sigma>')"
  have "held c r \<sigma>'"
    using assms(1,2) run keepsD(1,2)[OF assms(3) _ run] by (auto simp: held_def neutral_def)
  with assms(4,5) show "post (case x of Inl e \<Rightarrow> label e | Inr a \<Rightarrow> f a) Q \<sigma>'" by (cases x) auto
qed

text \<open>The labels give back what was acquired.\<close>

lemma post_free_desc:
  "held c r \<sigma> \<Longrightarrow> (\<And>\<sigma>'. snd (dev \<sigma>') = r\<lparr>descs := descs r - 1\<rparr> \<Longrightarrow> Q (Inl e) \<sigma>') \<Longrightarrow>
   post (free_desc (tracked B) e) Q \<sigma>"
  unfolding free_desc_def post_rules tracked_simps
  by (rule post_outside) (simp add: held_def)

lemma held_outside: "held c r \<sigma> \<Longrightarrow> held c r' (\<sigma>\<lparr>dev := (d, r')\<rparr>)"
  by (simp add: held_def wf_desc_def config_def)

lemma post_free_rst_gpio:
  assumes "held c r \<sigma>" and "\<And>\<sigma>'. snd (dev \<sigma>') = r\<lparr>pins := pins r - of_bool (fst (snd (snd c))), descs := descs r - 1\<rparr> \<Longrightarrow> Q (Inl e) \<sigma>'"
  shows "post (free_rst_gpio (tracked B) e) Q \<sigma>"
proof -
  have g: "fst (snd (snd c)) = reset_gpio \<sigma>" using assms(1) by (auto simp: held_def config_def)
  have s: "snd (dev \<sigma>) = r" using assms(1) by (simp add: held_def)
  show ?thesis
    unfolding free_rst_gpio_def post_rules tracked_simps
    by (rule post_outside, rule post_free_desc, rule held_outside[OF assms(1)], rule assms(2))
      (auto simp: g s)
qed

lemma post_free_spi:
  assumes "held c r \<sigma>"
    and "\<And>\<sigma>'. snd (dev \<sigma>') = r\<lparr>pins := pins r - of_bool (fst (snd (snd c))), descs := descs r - 1, spis := spis r - 1\<rparr> \<Longrightarrow> Q (Inl e) \<sigma>'"
  shows "post (free_spi (tracked B) e) Q \<sigma>"
proof -
  have s: "snd (dev \<sigma>) = r" using assms(1) by (simp add: held_def)
  show ?thesis
    unfolding free_spi_def post_rules tracked_simps
    by (rule post_outside, rule post_free_rst_gpio, rule held_outside[OF assms(1)], rule assms(2)) (simp add: s)
qed

section \<open>The initialisation\<close>

definition acquired :: "resources \<Rightarrow> bool \<Rightarrow> resources" where
  "acquired r gpio = r\<lparr>descs := descs r + 1, pins := pins r + of_bool gpio, spis := spis r + 1\<rparr>"

definition init_config :: "adin1110_init_param \<Rightarrow> bool \<Rightarrow> u8 list \<Rightarrow> adin1110_chip_id \<times> u8 list \<times> bool \<times> bool \<times> u8 list" where
  "init_config param gpio t = (p_chip_type param, p_mac_address param, gpio, p_append_crc param, t)"

definition init_post :: "adin1110_init_param \<Rightarrow> resources \<Rightarrow> u8 list \<Rightarrow> int + unit \<Rightarrow> ('d \<times> resources) adin1110_desc \<Rightarrow> bool" where
  "init_post param r t res \<sigma> \<longleftrightarrow>
     (case res of
        Inl e \<Rightarrow> snd (dev \<sigma>) = r
      | Inr _ \<Rightarrow> held (init_config param (reset_gpio \<sigma>) t) (acquired r (reset_gpio \<sigma>)) \<sigma>)"

lemma init_last_stage:
  assumes "held (init_config param gpio t) (acquired r gpio) \<sigma>"
  shows "post (on_error (if \<not> gpio then
             bindr (adin1110_sw_reset (tracked B)) (\<lambda>_. bindm (outside (mdelay (tracked B) 90)) (\<lambda>_. okr ()))
           else okr ()) (free_spi (tracked B)) (\<lambda>_.
         on_error (adin1110_setup_mac (tracked B)) (free_spi (tracked B)) (\<lambda>_.
         on_error (adin1110_setup_phy (tracked B) fuel) (free_spi (tracked B)) (\<lambda>_.
         on_error (adin1110_check_reset (tracked B)) (free_spi (tracked B)) (\<lambda>_.
         okr ()))))) (init_post param r t) \<sigma>"
proof -
  have freed: "post (free_spi (tracked B) e) (init_post param r t) \<sigma>1"
    if "held (init_config param gpio t) (acquired r gpio) \<sigma>1" for e \<sigma>1
    by (rule post_free_spi[OF that]) (simp add: init_post_def init_config_def acquired_def)
  have finished: "post (okr ()) (init_post param r t) \<sigma>1"
    if "held (init_config param gpio t) (acquired r gpio) \<sigma>1" for \<sigma>1
  proof -
    have "reset_gpio \<sigma>1 = gpio" using that by (simp add: held_def config_def init_config_def)
    with that show ?thesis by (simp add: post_rules init_post_def)
  qed
  show ?thesis
    by (rule post_on_error[OF assms _ _ freed], (auto intro!: neutral_rules keeps_rules)[2], assumption,
        rule post_on_error[OF _ _ _ freed], assumption, (auto intro!: neutral_rules keeps_rules)[2], assumption,
        rule post_on_error[OF _ _ _ freed], assumption, (auto intro!: neutral_rules keeps_rules)[2], assumption,
        rule post_on_error[OF _ _ _ freed], assumption, (auto intro!: neutral_rules keeps_rules)[2], assumption,
        rule finished, assumption)
qed

lemma length_strncpy [simp]: "length (strncpy_bytes src n) = n"
proof -
  have "length (takeWhile (\<lambda>b. b \<noteq> 0) (take n src)) \<le> n"
    using length_takeWhile_le[of _ "take n src"] by (metis length_take min.bounded_iff)
  then show ?thesis by (simp add: strncpy_bytes_def Let_def)
qed

lemma init_middle_stage:
  assumes h: "held (ADIN1110, replicate 6 0, gpio, False, t0) (r\<lparr>descs := descs r + 1, pins := pins r + of_bool gpio\<rparr>) \<sigma>"
    and len: "length (p_mac_address param) = 6" and t: "no_os_crc8_populate_msb (Some t0) 0x7 = Some t" "length t = 256"
    and last: "\<And>\<sigma>1. held (init_config param gpio t) (acquired r gpio) \<sigma>1 \<Longrightarrow> post (f ()) (init_post param r t) \<sigma>1"
  shows "post (on_error (checked (outside (spi_init (tracked B)))) (free_rst_gpio (tracked B)) (\<lambda>_.
         bindm (modifym (\<lambda>\<sigma>. \<sigma>\<lparr>crc_table := the (no_os_crc8_populate_msb (Some (crc_table \<sigma>)) 0x7)\<rparr>)) (\<lambda>_.
         bindm (modifym (\<lambda>\<sigma>. \<sigma>\<lparr>mac_address := upd_bytes (mac_address \<sigma>) 0 (strncpy_bytes (p_mac_address param) 6)\<rparr>)) (\<lambda>_.
         bindm (modifym (\<lambda>\<sigma>. \<sigma>\<lparr>mac_address := upd_bytes (mac_address \<sigma>) 0 (take ADIN1110_ETH_ALEN (p_mac_address param)),
           chip_type := p_chip_type param, append_crc := p_append_crc param\<rparr>)) f)))) (init_post param r t) \<sigma>"
  unfolding on_error_def checked_def post_rules tracked_simps
proof (rule post_outside)
  fix ret :: int and d
  let ?s = "\<sigma>\<lparr>dev := (d, if ret = 0 then snd (dev \<sigma>)\<lparr>spis := spis (snd (dev \<sigma>)) + 1\<rparr> else snd (dev \<sigma>))\<rparr>"
  have r: "snd (dev \<sigma>) = r\<lparr>descs := descs r + 1, pins := pins r + of_bool gpio\<rparr>" using h by (simp add: held_def)
  show "post (if ret = 0 then okr () else errr ret) (\<lambda>a. post (case a of Inl e \<Rightarrow> free_rst_gpio (tracked B) e
      | Inr x \<Rightarrow> bindm (modifym (\<lambda>\<sigma>. \<sigma>\<lparr>crc_table := the (no_os_crc8_populate_msb (Some (crc_table \<sigma>)) 0x7)\<rparr>)) (\<lambda>_.
         bindm (modifym (\<lambda>\<sigma>. \<sigma>\<lparr>mac_address := upd_bytes (mac_address \<sigma>) 0 (strncpy_bytes (p_mac_address param) 6)\<rparr>)) (\<lambda>_.
         bindm (modifym (\<lambda>\<sigma>. \<sigma>\<lparr>mac_address := upd_bytes (mac_address \<sigma>) 0 (take ADIN1110_ETH_ALEN (p_mac_address param)),
           chip_type := p_chip_type param, append_crc := p_append_crc param\<rparr>)) f))) (init_post param r t)) ?s"
  proof (cases "ret = 0")
    case True
    have "upd_bytes (upd_bytes (mac_address \<sigma>) 0 (strncpy_bytes (p_mac_address param) 6)) 0 (take 6 (p_mac_address param)) = p_mac_address param"
      using h len by (simp add: held_def wf_desc_def upd_bytes_def)
    moreover have "crc_table \<sigma> = t0" "reset_gpio \<sigma> = gpio" "wf_desc \<sigma>" using h by (simp_all add: held_def config_def)
    ultimately show ?thesis
      using True t len by (simp add: post_rules, intro last)
        (simp add: held_def wf_desc_def config_def init_config_def acquired_def r)
  next
    case False
    have h': "held (ADIN1110, replicate 6 0, gpio, False, t0) (snd (dev \<sigma>)) ?s"
      using held_outside[OF h, of "snd (dev \<sigma>)" d] False by simp
    show ?thesis
      using False by (simp add: post_rules)
        (rule post_free_rst_gpio[OF h'[simplified if_not_P[OF False]]], simp add: init_post_def r)
  qed
qed

lemma init_pin_stage:
  assumes h: "held (ADIN1110, replicate 6 0, present, False, t0) (r\<lparr>descs := descs r + 1, pins := pins r + of_bool present\<rparr>) \<sigma>"
    and len: "length (p_mac_address param) = 6" and t: "no_os_crc8_populate_msb (Some t0) 0x7 = Some t" "length t = 256"
    and last: "\<And>\<sigma>1. held (init_config param present t) (acquired r present) \<sigma>1 \<Longrightarrow> post (f ()) (init_post param r t) \<sigma>1"
  shows "post (on_error (if present then
             bindr (checked (outside (gpio_direction_output (tracked B) False))) (\<lambda>_.
             bindm (outside (mdelay (tracked B) 10)) (\<lambda>_.
             bindr (checked (outside (gpio_set_value (tracked B) True))) (\<lambda>_.
             bindm (outside (mdelay (tracked B) 90)) (\<lambda>_. okr ()))))
           else okr ()) (free_rst_gpio (tracked B)) (\<lambda>_.
         on_error (checked (outside (spi_init (tracked B)))) (free_rst_gpio (tracked B)) (\<lambda>_.
         bindm (modifym (\<lambda>\<sigma>. \<sigma>\<lparr>crc_table := the (no_os_crc8_populate_msb (Some (crc_table \<sigma>)) 0x7)\<rparr>)) (\<lambda>_.
         bindm (modifym (\<lambda>\<sigma>. \<sigma>\<lparr>mac_address := upd_bytes (mac_address \<sigma>) 0 (strncpy_bytes (p_mac_address param) 6)\<rparr>)) (\<lambda>_.
         bindm (modifym (\<lambda>\<sigma>. \<sigma>\<lparr>mac_address := upd_bytes (mac_address \<sigma>) 0 (take ADIN1110_ETH_ALEN (p_mac_address param)),
           chip_type := p_chip_type param, append_crc := p_append_crc param\<rparr>)) f))))) (init_post param r t) \<sigma>"
proof (rule post_on_error[OF h])
  show "post (free_rst_gpio (tracked B) e) (init_post param r t) \<sigma>'"
    if "held (ADIN1110, replicate 6 0, present, False, t0) (r\<lparr>descs := descs r + 1, pins := pins r + of_bool present\<rparr>) \<sigma>'"
    for e and \<sigma>' :: "('a \<times> resources) adin1110_desc"
    by (rule post_free_rst_gpio[OF that]) (simp add: init_post_def)
next
  fix \<sigma>' :: "('a \<times> resources) adin1110_desc"
  assume "held (ADIN1110, replicate 6 0, present, False, t0) (r\<lparr>descs := descs r + 1, pins := pins r + of_bool present\<rparr>) \<sigma>'"
  note m = init_middle_stage[OF this len t, where f = f and B = B]
  show "post (on_error (checked (outside (spi_init (tracked B)))) (free_rst_gpio (tracked B)) (\<lambda>_.
         bindm (modifym (\<lambda>\<sigma>. \<sigma>\<lparr>crc_table := the (no_os_crc8_populate_msb (Some (crc_table \<sigma>)) 0x7)\<rparr>)) (\<lambda>_.
         bindm (modifym (\<lambda>\<sigma>. \<sigma>\<lparr>mac_address := upd_bytes (mac_address \<sigma>) 0 (strncpy_bytes (p_mac_address param) 6)\<rparr>)) (\<lambda>_.
         bindm (modifym (\<lambda>\<sigma>. \<sigma>\<lparr>mac_address := upd_bytes (mac_address \<sigma>) 0 (take ADIN1110_ETH_ALEN (p_mac_address param)),
           chip_type := p_chip_type param, append_crc := p_append_crc param\<rparr>)) f)))) (init_post param r t) \<sigma>'"
    by (rule m) (rule last)
qed (auto intro!: neutral_rules keeps_rules)

lemma init_outcome:
  assumes "length (crc_table \<sigma>) = 256" and "length (p_mac_address param) = 6"
    and "adin1110_init (tracked B) fuel param \<sigma> = Inr (res, \<sigma>')"
  shows "\<exists>t. crc_table_for 7 t \<and> init_post param (snd (dev \<sigma>)) t res \<sigma>'"
proof -
  let ?r = "snd (dev \<sigma>)"
  obtain t where t: "no_os_crc8_populate_msb (Some (crc_table \<sigma>)) 0x7 = Some t" "crc_table_for 7 t"
    using populate_table[OF assms(1), of 7] by auto
  have tl: "length t = 256" using t(2) by (simp add: crc_table_for_def)
  have "post (adin1110_init (tracked B) fuel param) (init_post param ?r t) \<sigma>"
    unfolding adin1110_init_def post_rules(1) tracked_simps(9)
    apply (rule post_outside)
    subgoal for ok d
      apply (cases ok)
       apply (simp_all only: not_True_eq_False not_False_eq_True if_True if_False post_rules(1,3,6) tracked_simps(6))
       apply (rule post_outside)
      subgoal for a d1
        apply (cases a)
        apply (simp only: prod.case post_rules(1,6))
        subgoal for ret present
          apply (cases "ret = 0")
           apply (simp only: simp_thms if_True if_False not_True_eq_False)
           apply (rule init_pin_stage)
               apply (simp add: held_def wf_desc_def config_def assms(1))
              apply (rule assms(2))
             apply (simp add: t(1))
            apply (rule tl)
           apply (rule init_last_stage, assumption)
          apply (simp add: free_desc_def post_rules)
          apply (rule post_outside)
          apply (simp add: init_post_def post_rules)
          done
        done
      apply (simp add: init_post_def)
      done
    done
  with assms(3) have "init_post param ?r t res \<sigma>'" by (simp add: post_def)
  then show ?thesis using t(2) by blast
qed

text \<open>C21: Whatever the chip, the pin and the allocator do, an initialisation that returns an
  error has released everything it acquired, and one that returns 0 holds exactly one
  descriptor, one SPI device and the reset pin if there is one, and hands out a descriptor
  with the parameters of the caller and a checksum table for the polynomial of the chip.\<close>

theorem init_releases_on_error:
  assumes "length (crc_table \<sigma>) = 256" and "length (p_mac_address param) = 6"
    and "adin1110_init (tracked B) fuel param \<sigma> = Inr (res, \<sigma>')"
  shows "case res of
      Inl e \<Rightarrow> snd (dev \<sigma>') = snd (dev \<sigma>)
    | Inr _ \<Rightarrow> snd (dev \<sigma>') = acquired (snd (dev \<sigma>)) (reset_gpio \<sigma>') \<and> wf_desc \<sigma>' \<and> crc_table_for 7 (crc_table \<sigma>') \<and>
        chip_type \<sigma>' = p_chip_type param \<and> mac_address \<sigma>' = p_mac_address param \<and> append_crc \<sigma>' = p_append_crc param"
  using init_outcome[OF assms] by (auto simp: init_post_def held_def config_def init_config_def split: sum.splits)

text \<open>A bus whose SPI device cannot be set up.\<close>

definition no_spi_bus :: "(u16 \<Rightarrow> u32) bus" where
  "no_spi_bus = (test_chip False [])\<lparr>spi_init := returnm (-5)\<rparr>"

definition fresh_desc :: "((u16 \<Rightarrow> u32) \<times> resources) adin1110_desc" where
  "fresh_desc = \<lparr>chip_type = ADIN1110, mac_address = [], data_buf = [], reset_gpio = False, append_crc = False,
     crc_table = replicate 256 0, dev = (\<lambda>_. 0, \<lparr>descs = 0, pins = 0, spis = 0\<rparr>)\<rparr>"

definition test_param :: adin1110_init_param where
  "test_param = \<lparr>p_chip_type = ADIN1110, p_mac_address = [2, 0, 0, 0, 0, 1], p_append_crc = True\<rparr>"

theorem init_releases_on_error_witness:
  "\<exists>\<sigma>'. adin1110_init (tracked no_spi_bus) 1 test_param fresh_desc = Inr (Inl (-5), \<sigma>') \<and>
    snd (dev \<sigma>') = \<lparr>descs = 0, pins = 0, spis = 0\<rparr>"
proof -
  have "\<exists>\<sigma>'. adin1110_init (tracked no_spi_bus) 1 test_param fresh_desc = Inr (Inl (-5), \<sigma>')"
    by (simp add: adin1110_init_def no_spi_bus_def test_chip_def fresh_desc_def counted_def outside_def bindm_unfold
        run_simps on_error_def checked_def free_rst_gpio_def free_desc_def)
  then obtain \<sigma>' where run: "adin1110_init (tracked no_spi_bus) 1 test_param fresh_desc = Inr (Inl (-5), \<sigma>')" ..
  have "length (crc_table fresh_desc) = 256" "length (p_mac_address test_param) = 6"
    by (simp_all add: fresh_desc_def test_param_def)
  from init_releases_on_error[OF this run] run show ?thesis by (simp add: fresh_desc_def)
qed

end
