(* ===== verification/Network_If_Theorems.thy ===== *)
theory Network_If_Theorems
  imports Network_If Adin1110_Init
begin

text \<open>
  The frames that cross the network interface: what lwIP sends reaches the chip and what the
  chip received reaches lwIP, the mutex around the driver, and the state the interface is in
  after its initialisation.
\<close>

section \<open>Running the adapter\<close>

lemma mutex_wait_ok: "mutex_free \<sigma> m \<Longrightarrow> osMutexWait m \<sigma> = Inr (osOK, set_count m 0 \<sigma>)"
  by (auto simp: osMutexWait_def xSemaphoreTake_def bindm_unfold queue_of_mutex run_simps set_count_def dest: mutex_countD)

lemma mutex_wait_blocks: "mutex_taken \<sigma> m \<Longrightarrow> osMutexWait m \<sigma> = Inl Blocks"
  by (auto simp: osMutexWait_def xSemaphoreTake_def bindm_unfold queue_of_mutex run_simps dest: mutex_countD)

lemma mutex_release_ok: "mutex_taken \<sigma> m \<Longrightarrow> osMutexRelease m \<sigma> = Inr (osOK, set_count m 1 \<sigma>)"
  by (auto simp: osMutexRelease_def xSemaphoreGive_def bindm_unfold queue_of_mutex run_simps set_count_def)

lemma mutex_count_driver [simp]:
  "mutex_count (\<sigma>\<lparr>driver := d\<rparr>) m = mutex_count \<sigma> m" "mutex_count (\<sigma>\<lparr>eth_rx_buff := bs\<rparr>) m = mutex_count \<sigma> m"
  by (rule mutex_count_cong; simp)+

lemma set_count_net [simp]:
  "netifs (set_count m n \<sigma>) = netifs \<sigma>" "pbufs (set_count m n \<sigma>) = pbufs \<sigma>" "driver (set_count m n \<sigma>) = driver \<sigma>"
  "adin_present (set_count m n \<sigma>) = adin_present \<sigma>" "adinHandle (set_count m n \<sigma>) = adinHandle \<sigma>"
  "eth_rx_buff (set_count m n \<sigma>) = eth_rx_buff \<sigma>"
  by (simp_all add: set_count_def)

lemma with_desc_run: "adin_present \<sigma> \<Longrightarrow> with_desc m \<sigma> = (case m (driver \<sigma>) of Inl e \<Rightarrow> Inl e | Inr (r, d) \<Rightarrow> Inr (r, \<sigma>\<lparr>driver := d\<rparr>))"
  by (simp add: with_desc_def bindm_unfold run_simps on_driver_def)

lemma as_err_0 [simp]: "as_err 0 = 0"
  by (simp add: as_err_def)

lemma unat_ucast_u16_u32: "unat (ucast (w :: u16) :: u32) = unat w"
  using unat_u16_less[of w] by (simp add: unsigned_ucast_eq take_bit_eq_mod del: unat_u16_less)

section \<open>Sending\<close>

text \<open>What the adapter passes to the driver for the first buffer of a packet.\<close>

definition eth_of :: "'d adin1110_desc \<Rightarrow> u16 \<Rightarrow> u8 list \<Rightarrow> adin1110_eth_buff" where
  "eth_of d len bs = \<lparr>eth_len = ucast len, mac_dest = take 6 bs, mac_source = take 6 (mac_address d),
     ethertype = take 2 (drop 12 bs), payload = drop 14 bs\<rparr>"

lemma link_output_run:
  assumes "adin_present \<sigma>" and "pbufs \<sigma> q = Some pb" and "pb_payload pb = Ptr b i" and "blocks \<sigma> b = Some bs"
    and "i + 14 \<le> length bs" and "mutex_free \<sigma> (adinHandle \<sigma>)"
    and "adin1110_write_fifo B 0 (eth_of (driver \<sigma>) (pb_len pb) (drop i bs)) (driver \<sigma>) = Inr (res, d)"
  shows "adin1110if_link_output B netif (Ptr q 0) \<sigma> =
    Inr (case res of Inl e \<Rightarrow> as_err e | Inr _ \<Rightarrow> 0, set_count (adinHandle \<sigma>) 1 (\<sigma>\<lparr>driver := d\<rparr>))"
proof -
  have swap: "(set_count m k \<sigma>)\<lparr>driver := d\<rparr> = set_count m k (\<sigma>\<lparr>driver := d\<rparr>)" for m k
    by (simp add: set_count_def)
  have taken: "mutex_taken (set_count (adinHandle \<sigma>) 0 (\<sigma>\<lparr>driver := d\<rparr>)) (adinHandle \<sigma>)"
    using assms(6) by (intro mutex_count_set) simp
  show ?thesis
    using assms taken
    by (simp add: adin1110if_link_output_def bindm_unfold run_simps read_bytes_ok mutex_wait_ok with_desc_run bytes_from_def
        eth_of_def add.commute[of i] drop_drop swap mutex_release_ok flip: drop_drop)
qed

text \<open>C27: A packet whose first buffer holds \<open>n\<close> bytes, 14 to 1518, and fits the FIFO is handed to
  the chip in one transfer that carries exactly these bytes with the source address
  replaced by the address of the driver: the buffers chained behind the first are not
  sent, whatever the total length says. The mutex is held meanwhile and free afterwards,
  and the result is the code of the transfer, cut to 8 bits.\<close>

theorem link_output_sends:
  assumes net: "adin_present \<sigma>" "mutex_free \<sigma> (adinHandle \<sigma>)"
    and pb: "pbufs \<sigma> q = Some pb" "pb_payload pb = Ptr b i" "blocks \<sigma> b = Some bs"
    and n: "n = unat (pb_len pb)" "14 \<le> n" "n \<le> 1518" "i + n \<le> length bs"
    and d: "d = driver \<sigma>" "wf_desc d"
    and space: "adin1110_reg_read B ADIN1110_TX_SPACE_REG d = Inr (Inr sp, d1)" "padded_len (of_nat n) \<le> 2 * (sp - 2)"
    and size: "adin1110_reg_write B ADIN1110_TX_FSIZE_REG (padded_len (of_nat n)) d1 = Inr (Inr (), d2)"
    and frame: "frame = take 6 (drop i bs) @ mac_address d @ take (n - 12) (drop (i + 12) bs)"
    and transfer: "transfer B (fifo_header (append_crc d) (crc_table d) 0 @ frame @
        take (round_len n - 2 - n) (drop (4 + of_bool (append_crc d) + n) (data_buf d))) (dev d2) = Inr ((ret, ans), e)"
  shows "\<exists>\<sigma>'. adin1110if_link_output B netif (Ptr q 0) \<sigma> = Inr (as_err ret, \<sigma>') \<and>
    dev (driver \<sigma>') = e \<and> mutex_free \<sigma>' (adinHandle \<sigma>') \<and> blocks \<sigma>' = blocks \<sigma> \<and> pbufs \<sigma>' = pbufs \<sigma>"
proof -
  let ?eth = "eth_of d (pb_len pb) (drop i bs)"
  have len: "eth_len ?eth = of_nat n" "unat (eth_len ?eth) = n" 
    by (simp_all add: eth_of_def unat_ucast_u16_u32 n(1) unsigned_of_nat)
  have mac: "length (mac_address d) = 6" using d(2) by (simp add: wf_desc_def)
  have wf: "wf_eth ?eth" using n mac by (simp add: wf_eth_def eth_of_def)
  have n12: "n - 12 = 2 + (n - 14)" using n(2) by simp
  have split: "take (n - 12) (drop (i + 12) bs) = take 2 (drop 12 (drop i bs)) @ take (n - 14) (drop 14 (drop i bs))"
    unfolding n12 take_add by (simp add: add.commute)
  have "eth_frame ?eth = frame"
    unfolding frame split using len n mac by (simp add: eth_frame_def eth_of_def)
  moreover have port: "unat (0 :: u32) < unat (num_ports (chip_type d))" by (cases "chip_type d") (simp_all add: num_ports_def)
  moreover have room: "n - 14 \<le> length (payload ?eth)" using n by (simp add: eth_of_def)
  ultimately obtain d' where run: "adin1110_write_fifo B 0 ?eth d = Inr (if ret = 0 then Inr () else Inl ret, d')" "dev d' = e"
    using write_fifo_run[OF d(2) port wf len(2)[symmetric] n(2,3) room space(1), of d2 ret ans e] space(2) size transfer len(1)
    by auto
  have "i + 14 \<le> length bs" using n by simp
  from link_output_run[OF net(1) pb this net(2), of B _ d'] run
  show ?thesis using net(2) d(1)
    by (auto simp: d(1) split: if_splits intro!: mutex_count_set[where k = 1])
qed

section \<open>Receiving\<close>

lemma fill_pbuf_run:
  assumes pb: "pbufs \<sigma> q = Some pb" "pb_payload pb = Ptr b 0" "blocks \<sigma> b = Some bs"
    and eth: "wf_eth eth" "14 \<le> unat (eth_len eth)" "length bs = unat (eth_len eth)" "unat (eth_len eth) - 14 \<le> length (payload eth)"
  shows "fill_pbuf (Ptr q 0) eth \<sigma> = Inr ((), set_block b (eth_frame eth) \<sigma>)"
proof -
  have len: "unat (eth_len eth - 14) = unat (eth_len eth) - 14"
    using eth(2) by (subst unat_sub) (auto simp: word_le_nat_alt)
  have l: "length (mac_dest eth) = 6" "length (mac_source eth) = 6" "length (ethertype eth) = 2"
    using eth(1) by (simp_all add: wf_eth_def)
  have *: "upd_bytes (upd_bytes (upd_bytes (upd_bytes bs 0 (mac_dest eth)) 6 (mac_source eth)) 12 (ethertype eth)) 14
      (take (unat (eth_len eth) - 14) (payload eth)) = eth_frame eth"
    using eth l by (simp add: upd_bytes_def eth_frame_def)
  show ?thesis
    using pb eth l
    by (simp add: fill_pbuf_def bindm_unfold run_simps write_bytes_ok len * del: upd_bytes_upd_bytes)
qed

lemma eth_frame_received:
  assumes "length frame = n - 2" and "16 \<le> n" and "n - 16 \<le> length buf"
    and "eth = \<lparr>eth_len = len, mac_dest = take 6 frame, mac_source = take 6 (drop 6 frame),
      ethertype = take 2 (drop 12 frame), payload = upd_bytes buf 0 (drop 14 frame)\<rparr>" and "unat len = n - 2"
  shows "eth_frame eth = frame" "wf_eth eth"
proof -
  have p: "take (n - 16) (upd_bytes buf 0 (drop 14 frame)) = drop 14 frame"
    using assms(1-3) by (simp add: upd_bytes_def)
  have "frame = take 6 frame @ take 6 (drop 6 frame) @ take 2 (drop 12 frame) @ drop 14 frame"
    by (metis append_take_drop_id drop_drop numeral_plus_numeral semiring_norm(2,3,4,5,6,8,9,10))
  then show "eth_frame eth = frame"
    using assms p by (simp add: eth_frame_def)
  show "wf_eth eth" using assms(1,2) by (simp add: assms(4) wf_eth_def)
qed

text \<open>C28: When the chip announces a frame of \<open>n\<close> bytes with its header, 16 to 1520, polling reads
  it with one transfer and hands lwIP one buffer whose bytes are exactly the frame, with
  both lengths set to \<open>n - 2\<close>; when no buffer can be allocated the frame is lost and the
  result is 1. The mutex is free when lwIP is called.\<close>

theorem poll_delivers:
  assumes net: "adin_present \<sigma>" "mutex_free \<sigma> (adinHandle \<sigma>)" "length (eth_rx_buff \<sigma>) = 1530"
    and d: "d = driver \<sigma>" "wf_desc d"
    and size: "adin1110_reg_read B (fsize_reg 0) d = Inr (Inr frame_size, d1)" "n = unat frame_size" "16 \<le> n" "n \<le> 1520"
    and transfer: "transfer B (rx_request (append_crc d) (crc_table d) 0 n) (dev d1) = Inr ((0, bs), e)"
      "length bs = round4 n + 3 + of_bool (append_crc d)" "frame = take (n - 2) (drop (5 + of_bool (append_crc d)) bs)"
  shows "\<exists>\<sigma>2. dev (driver \<sigma>2) = e \<and> mutex_free \<sigma>2 (adinHandle \<sigma>2) \<and>
    (if grants \<sigma> (next_block \<sigma>) (SIZEOF_STRUCT_PBUF + (n - 2))
     then adin1110if_poll L B netif \<sigma> = ni_input L (Ptr (next_block \<sigma>) 0) netif \<sigma>2 \<and>
       blocks \<sigma>2 = (blocks \<sigma>)(next_block \<sigma> \<mapsto> frame) \<and>
       pbufs \<sigma>2 = (pbufs \<sigma>)(next_block \<sigma> \<mapsto>
         \<lparr>pb_next = NULL, pb_payload = Ptr (next_block \<sigma>) 0, pb_tot_len = of_nat (n - 2), pb_len = of_nat (n - 2)\<rparr>)
     else adin1110if_poll L B netif \<sigma> = Inr (1, \<sigma>2))"
proof -
  let ?buf = "eth_rx_buff \<sigma>" and ?q = "next_block \<sigma>"
  let ?zero = "\<lparr>eth_len = 0, mac_dest = replicate 6 0, mac_source = replicate 6 0, ethertype = [0, 0], payload = ?buf\<rparr>"
  let ?eth = "\<lparr>eth_len = frame_size - 2, mac_dest = take 6 frame, mac_source = take 6 (drop 6 frame),
      ethertype = take 2 (drop 12 frame), payload = upd_bytes ?buf 0 (drop 14 frame)\<rparr>"
  have port: "unat (0 :: u32) < unat (num_ports (chip_type d))" by (cases "chip_type d") (simp_all add: num_ports_def)
  have room: "n - 16 \<le> length (payload ?zero)" using net(3) size(4) by simp
  obtain d' where run: "adin1110_read_fifo B 0 ?zero d = Inr (Inr ?eth, d')" "dev d' = e"
    using read_fifo_run[where eth = ?zero and bs = bs and d' = e and frame = frame, OF d(2) port size room transfer] by auto
  have fl: "length frame = n - 2" using transfer(2,3) round4[of n] size(3) by simp
  have len: "unat (eth_len ?eth) = n - 2" using size(2,3) by (simp, subst unat_sub) (auto simp: word_le_nat_alt)
  have nz: "frame_size - 2 \<noteq> 0" using len size(3) by auto
  have u16: "unat (ucast (frame_size - 2) :: u16) = n - 2"
    using len size(4) by (simp add: unsigned_ucast_eq take_bit_eq_mod)
  have w16: "(ucast (frame_size - 2) :: u16) = of_nat (n - 2)"
    by (rule word_unat_eq_iff[THEN iffD2]) (use u16 size(4) in \<open>simp add: unat_of_nat take_bit_eq_mod\<close>)
  have "n - 16 \<le> length ?buf" "unat (frame_size - 2) = n - 2" using room len by simp_all
  note f = eth_frame_received[where len = "frame_size - 2" and eth = ?eth, OF fl size(3) this(1) refl this(2)] this(2)
  have small: "unat (of_nat (n - 2) :: u16) = n - 2" using u16 w16 by simp
  define \<sigma>1 where "\<sigma>1 = set_count (adinHandle \<sigma>) 1 (\<sigma>\<lparr>driver := d', eth_rx_buff := payload ?eth\<rparr>)"
  have swap: "(set_count m k \<sigma>)\<lparr>driver := x, eth_rx_buff := y\<rparr> = set_count m k (\<sigma>\<lparr>driver := x, eth_rx_buff := y\<rparr>)" for m k x y
    by (simp add: set_count_def)
  have taken: "mutex_taken (set_count (adinHandle \<sigma>) 0 (\<sigma>\<lparr>driver := d', eth_rx_buff := payload ?eth\<rparr>)) (adinHandle \<sigma>)"
    using net(2) by (intro mutex_count_set) simp
  have run1: "adin1110if_poll L B netif \<sigma> = bindm (pbuf_alloc_ram (of_nat (n - 2))) (\<lambda>p.
      if p = NULL then returnm 1 else bindm (fill_pbuf p ?eth) (\<lambda>_. ni_input L p netif)) \<sigma>1"
    using net run(1) nz taken
    by (simp add: adin1110if_poll_def bindm_unfold run_simps mutex_wait_ok with_desc_run d(1) swap mutex_release_ok w16 \<sigma>1_def
        word_gt_0)
  have \<sigma>1: "dev (driver \<sigma>1) = e" "mutex_free \<sigma>1 (adinHandle \<sigma>1)" "grants \<sigma>1 = grants \<sigma>" "next_block \<sigma>1 = next_block \<sigma>"
      "blocks \<sigma>1 = blocks \<sigma>" "pbufs \<sigma>1 = pbufs \<sigma>"
    using run(2) net(2) by (auto simp: \<sigma>1_def intro!: mutex_count_set[where k = 1])
  show ?thesis
  proof (cases "grants \<sigma> ?q (SIZEOF_STRUCT_PBUF + (n - 2))")
    case False
    then have "adin1110if_poll L B netif \<sigma> = Inr (1, \<sigma>1\<lparr>next_block := Suc ?q\<rparr>)"
      using \<sigma>1 small by (simp add: run1 pbuf_alloc_ram_def bindm_unfold new_obj_refused run_simps)
    moreover have "mutex_free (\<sigma>1\<lparr>next_block := Suc ?q\<rparr>) (adinHandle \<sigma>1)"
      using \<sigma>1(2) by (subst mutex_count_cong[of _ \<sigma>1]) simp_all
    ultimately show ?thesis using False \<sigma>1(1) by (intro exI[of _ "\<sigma>1\<lparr>next_block := Suc ?q\<rparr>"]) simp
  next
    case True
    define \<sigma>a where "\<sigma>a = \<sigma>1\<lparr>next_block := Suc ?q, blocks := (blocks \<sigma>1)(?q \<mapsto> map (junk \<sigma>1 ?q) [0..<n - 2]),
       pbufs := (pbufs \<sigma>1)(?q \<mapsto> \<lparr>pb_next = NULL, pb_payload = Ptr ?q 0, pb_tot_len = of_nat (n - 2), pb_len = of_nat (n - 2)\<rparr>)\<rparr>"
    have alloc: "pbuf_alloc_ram (of_nat (n - 2)) \<sigma>1 = Inr (Ptr ?q 0, \<sigma>a)"
      using True \<sigma>1(3,4) small by (simp add: pbuf_alloc_ram_def new_obj_ok \<sigma>a_def)
    have fill: "fill_pbuf (Ptr ?q 0) ?eth \<sigma>a = Inr ((), set_block ?q (eth_frame ?eth) \<sigma>a)"
    proof (rule fill_pbuf_run)
      show "pbufs \<sigma>a ?q = Some \<lparr>pb_next = NULL, pb_payload = Ptr ?q 0, pb_tot_len = of_nat (n - 2), pb_len = of_nat (n - 2)\<rparr>"
        "blocks \<sigma>a ?q = Some (map (junk \<sigma>1 ?q) [0..<n - 2])" by (simp_all add: \<sigma>a_def)
      show "unat (eth_len ?eth) - 14 \<le> length (payload ?eth)" using f(3) size(3,4) net(3) fl by simp
    qed (use f(2) len size(3) in simp_all)
    have "adin1110if_poll L B netif \<sigma> = ni_input L (Ptr ?q 0) netif (set_block ?q frame \<sigma>a)"
      using fill f(1) by (simp add: run1 bindm_unfold alloc)
    moreover have "mutex_free (set_block ?q frame \<sigma>a) (adinHandle \<sigma>1)"
      using \<sigma>1(2) by (subst mutex_count_cong[of _ \<sigma>1]) (simp_all add: \<sigma>a_def set_block_def)
    ultimately show ?thesis using True \<sigma>1
      by (intro exI[of _ "set_block ?q frame \<sigma>a"]) (simp add: \<sigma>a_def set_block_def)
  qed
qed

section \<open>Setting up\<close>

lemma keeps_promisc: "keeps 1530 (adin1110_set_promisc B port on)"
  unfolding adin1110_set_promisc_def Let_def by (intro keeps_rules) simp

text \<open>C29: Setting up the interface either ends with the code 0, the descriptor of the driver
  in place, and an interface whose hardware address is the one the driver filters and sends
  with, whose frames go through the adapter, and whose flags ask for ARP and broadcasts; or
  it crashes: when the driver cannot be initialised its null descriptor is used before it
  is tested, so the error code -1 is never returned.\<close>

theorem interface_set_up:
  assumes "length (crc_table (driver \<sigma>)) = 256" and "netifs \<sigma> q = Some n"
    and "adin1110_init (tracked B) fuel adin1110_ip (driver \<sigma>) = Inr (res, d)"
  shows "(\<forall>e. res = Inl e \<longrightarrow> adin1110if_init (tracked B) fuel (Ptr q 0) \<sigma> = Inl Null_Deref) \<and>
    (\<forall>ret \<sigma>'. adin1110if_init (tracked B) fuel (Ptr q 0) \<sigma> = Inr (ret, \<sigma>') \<longrightarrow>
       ret = 0 \<and> adin_present \<sigma>' \<and> wf_desc (driver \<sigma>') \<and> chip_type (driver \<sigma>') = ADIN1110 \<and>
       (\<exists>n'. netifs \<sigma>' = (netifs \<sigma>)(q \<mapsto> n') \<and> nif_hwaddr n' = mac_address (driver \<sigma>') \<and> nif_hwaddr_len n' = 6 \<and>
          nif_mtu n' = 1500 \<and> nif_output n' = Etharp_Output \<and> nif_linkoutput n' = Adin1110if_Link_Output \<and>
          nif_flags n' = nif_flags n OR 0x0A))"
proof (intro conjI allI impI)
  fix e assume "res = Inl e"
  with assms(3) show "adin1110if_init (tracked B) fuel (Ptr q 0) \<sigma> = Inl Null_Deref"
    by (simp add: adin1110if_init_def adin1110if_setup_def on_driver_def with_desc_def bindm_unfold run_simps)
next
  fix ret \<sigma>' assume run: "adin1110if_init (tracked B) fuel (Ptr q 0) \<sigma> = Inr (ret, \<sigma>')"
  obtain r d' where res: "res = Inr ()" and p: "adin1110_set_promisc (tracked B) 0 True d = Inr (r, d')"
    and \<sigma>': "ret = 0" "\<sigma>' = \<sigma>\<lparr>adin_present := True, driver := d', netifs := (netifs \<sigma>)(q \<mapsto>
         n\<lparr>nif_hwaddr_len := 6, nif_hwaddr := ADIN1110_MAC, nif_mtu := 1500, nif_name := ''en'', nif_num := 1,
           nif_state := Adin1110if_State_Changed, nif_output := Etharp_Output,
           nif_linkoutput := Adin1110if_Link_Output, nif_flags := nif_flags n OR (8 OR 2)\<rparr>)\<rparr>"
    using run assms(2,3)
    by (cases res; cases "adin1110_set_promisc (tracked B) 0 True d")
      (auto simp: adin1110if_init_def adin1110if_setup_def on_driver_def with_desc_def bindm_unfold run_simps)
  obtain t where "init_post adin1110_ip (snd (dev (driver \<sigma>))) t (Inr ()) d"
    using init_outcome[OF assms(1) _ assms(3)[unfolded res]] by (auto simp: adin1110_ip_def ADIN1110_MAC_def)
  then have d: "wf_desc d" "mac_address d = ADIN1110_MAC" "chip_type d = ADIN1110"
    by (simp_all add: init_post_def held_def config_def init_config_def adin1110_ip_def)
  have d': "wf_desc d'" "mac_address d' = ADIN1110_MAC" "chip_type d' = ADIN1110"
    using keepsD[OF keeps_promisc d(1) p] d by (simp_all add: config_def)
  show "ret = 0" "adin_present \<sigma>'" "wf_desc (driver \<sigma>')" "chip_type (driver \<sigma>') = ADIN1110"
    using \<sigma>' d' by simp_all
  show "\<exists>n'. netifs \<sigma>' = (netifs \<sigma>)(q \<mapsto> n') \<and> nif_hwaddr n' = mac_address (driver \<sigma>') \<and> nif_hwaddr_len n' = 6 \<and>
      nif_mtu n' = 1500 \<and> nif_output n' = Etharp_Output \<and> nif_linkoutput n' = Adin1110if_Link_Output \<and>
      nif_flags n' = nif_flags n OR 0x0A"
    using d'(2) by (intro exI[of _ "the (netifs \<sigma>' q)"]) (simp add: \<sigma>')
qed

section \<open>The mutex around the driver\<close>

text \<open>Computations that leave the mutex \<open>h\<close> alone, that give it back, and that may only be run
  with the mutex free and leave it free.\<close>

definition leaves :: "ptr \<Rightarrow> (('d, 'z) net_state_scheme, 'a) cm \<Rightarrow> bool" where
  "leaves h m \<longleftrightarrow> (\<forall>\<sigma> r \<sigma>'. m \<sigma> = Inr (r, \<sigma>') \<longrightarrow> mutex_count \<sigma>' h = mutex_count \<sigma> h \<and> adinHandle \<sigma>' = adinHandle \<sigma>)"

definition gives_back :: "ptr \<Rightarrow> (('d, 'z) net_state_scheme, 'a) cm \<Rightarrow> bool" where
  "gives_back h m \<longleftrightarrow> (\<forall>\<sigma> r \<sigma>'. adinHandle \<sigma> = h \<longrightarrow> mutex_taken \<sigma> h \<longrightarrow> m \<sigma> = Inr (r, \<sigma>') \<longrightarrow> mutex_free \<sigma>' h)"

definition balanced :: "ptr \<Rightarrow> (('d, 'z) net_state_scheme, 'a) cm \<Rightarrow> bool" where
  "balanced h m \<longleftrightarrow> (\<forall>\<sigma> r \<sigma>'. adinHandle \<sigma> = h \<longrightarrow> mutex_free \<sigma> h \<longrightarrow> m \<sigma> = Inr (r, \<sigma>') \<longrightarrow> mutex_free \<sigma>' h)"

named_theorems mutex_rules \<open>how the adapter uses its mutex\<close>

lemma leavesI:
  "(\<And>\<sigma> r \<sigma>'. m \<sigma> = Inr (r, \<sigma>') \<Longrightarrow> sems \<sigma>' = sems \<sigma> \<and> handle_cells \<sigma>' = handle_cells \<sigma> \<and> adinHandle \<sigma>' = adinHandle \<sigma>) \<Longrightarrow> leaves h m"
  using mutex_count_cong unfolding leaves_def by metis

lemma leaves_basic [mutex_rules]:
  "leaves h (returnm a)" "leaves h (failm e)" "leaves h (getm f)" "leaves h (CMem.deref heap p)" "leaves h (read_bytes p n)"
  "leaves h (write_bytes p bs)" "leaves h (bytes_from p)" "leaves h (modifym (\<lambda>\<sigma>. \<sigma>\<lparr>eth_rx_buff := bs\<rparr>))"
  "leaves h (with_desc dm)" "leaves h (pbuf_alloc_ram len)"
  by (rule leavesI; auto simp: run_simps deref_Inr read_bytes_def write_bytes_def set_block_def bytes_from_def with_desc_def
      on_driver_def bindm_unfold pbuf_alloc_ram_def new_obj_def Let_def split: ptr.splits option.splits sum.splits if_splits)+

lemma leaves_bindm [mutex_rules]: "leaves h m \<Longrightarrow> (\<And>a. leaves h (f a)) \<Longrightarrow> leaves h (bindm m f)"
  unfolding leaves_def bindm_Inr_iff by metis

lemma gives_back_bindm: "leaves h m \<Longrightarrow> (\<And>a. gives_back h (f a)) \<Longrightarrow> gives_back h (bindm m f)"
  unfolding leaves_def gives_back_def bindm_Inr_iff by metis

lemma balanced_bindm: "leaves h m \<Longrightarrow> (\<And>a. balanced h (f a)) \<Longrightarrow> balanced h (bindm m f)"
  unfolding leaves_def balanced_def bindm_Inr_iff by metis

lemma leaves_cases [mutex_rules]:
  "leaves h m \<Longrightarrow> leaves h m' \<Longrightarrow> leaves h (if b then m else m')"
  "(\<And>e. leaves h (f e)) \<Longrightarrow> (\<And>a. leaves h (g a)) \<Longrightarrow> leaves h (case r of Inl e \<Rightarrow> f e | Inr a \<Rightarrow> g a)"
  by (simp_all split: sum.split)

lemma leaves_balanced: "leaves h m \<Longrightarrow> balanced h m"
  unfolding leaves_def balanced_def by metis

lemma balanced_if: "balanced h m \<Longrightarrow> balanced h m' \<Longrightarrow> balanced h (if b then m else m')"
  by simp

lemma leaves_fill [mutex_rules]: "leaves h (fill_pbuf p eth)"
  unfolding fill_pbuf_def by (intro mutex_rules)

lemma release_gives_back:
  assumes "\<And>a. leaves h (f a)"
  shows "gives_back h (bindm (osMutexRelease h) f)"
  using assms mutex_release_ok unfolding gives_back_def leaves_def bindm_Inr_iff
  by (metis Inr_inject fst_conv mutex_count_set snd_conv)

lemma wait_balanced:
  assumes "gives_back h (f h osOK)"
  shows "balanced h (bindm (getm adinHandle) (\<lambda>adin. bindm (osMutexWait adin) (f adin)))"
  unfolding balanced_def
proof (intro allI impI)
  fix \<sigma> r \<sigma>'
  assume h: "adinHandle \<sigma> = h" "mutex_free \<sigma> h"
    and run: "bindm (getm adinHandle) (\<lambda>adin. bindm (osMutexWait adin) (f adin)) \<sigma> = Inr (r, \<sigma>')"
  have "f h osOK (set_count h 0 \<sigma>) = Inr (r, \<sigma>')"
    using run by (simp add: bindm_unfold run_simps h mutex_wait_ok[OF h(2)])
  moreover have "mutex_taken (set_count h 0 \<sigma>) h" by (rule mutex_count_set[OF h(2)])
  moreover have "adinHandle (set_count h 0 \<sigma>) = h" using h(1) by simp
  ultimately show "mutex_free \<sigma>' h" using assms unfolding gives_back_def by blast
qed

text \<open>C30: While another task holds the mutex, sending and polling wait before they touch the
  driver. Otherwise every path that returns has given the mutex back, provided lwIP's input
  function leaves it alone.\<close>

theorem driver_mutex:
  assumes "adin_present \<sigma>" and "\<forall>p. leaves (adinHandle \<sigma>) (ni_input L p netif)"
    and "pbufs \<sigma> q = Some pb" and "pb_payload pb = Ptr b i" and "blocks \<sigma> b = Some bs" and "i + 14 \<le> length bs"
  shows "(mutex_taken \<sigma> (adinHandle \<sigma>) \<longrightarrow>
      adin1110if_poll L B netif \<sigma> = Inl Blocks \<and> adin1110if_link_output B netif (Ptr q 0) \<sigma> = Inl Blocks) \<and>
    (mutex_free \<sigma> (adinHandle \<sigma>) \<longrightarrow>
      (\<forall>ret \<sigma>'. adin1110if_link_output B netif (Ptr q 0) \<sigma> = Inr (ret, \<sigma>') \<or> adin1110if_poll L B netif \<sigma> = Inr (ret, \<sigma>') \<longrightarrow>
         mutex_free \<sigma>' (adinHandle \<sigma>)))"
proof -
  have "balanced (adinHandle \<sigma>) (adin1110if_poll L B netif)"
    unfolding adin1110if_poll_def
    by (rule wait_balanced) (use assms(2) in \<open>auto intro!: gives_back_bindm release_gives_back mutex_rules\<close>)
  moreover have "balanced (adinHandle \<sigma>) (adin1110if_link_output B netif (Ptr q 0))"
    unfolding adin1110if_link_output_def
    by (intro balanced_bindm balanced_if mutex_rules leaves_balanced wait_balanced) (auto intro!: gives_back_bindm release_gives_back mutex_rules)
  moreover have "adin1110if_poll L B netif \<sigma> = Inl Blocks \<and> adin1110if_link_output B netif (Ptr q 0) \<sigma> = Inl Blocks"
    if "mutex_taken \<sigma> (adinHandle \<sigma>)"
    using assms that
    by (simp add: adin1110if_poll_def adin1110if_link_output_def bindm_unfold run_simps mutex_wait_blocks read_bytes_ok)
  ultimately show ?thesis by (auto simp: balanced_def)
qed

section \<open>Examples\<close>

text \<open>A packet of two buffers, the first with 20 bytes, and an interface in block 5.\<close>

definition test_netif :: netif where
  "test_netif = \<lparr>nif_ip_addr = 0, nif_netmask = 0, nif_gw = 0, nif_input = Tcpip_Input, nif_output = No_Function,
     nif_linkoutput = No_Function, nif_state = No_Function, nif_mtu = 0, nif_hwaddr_len = 0, nif_hwaddr = replicate 6 0,
     nif_flags = 0, nif_name = '''', nif_num = 0\<rparr>"

definition test_packet :: pbuf where
  "test_packet = \<lparr>pb_next = Ptr 3 0, pb_payload = Ptr 0 0, pb_tot_len = 60, pb_len = 20\<rparr>"

definition test_net :: "'d adin1110_desc \<Rightarrow> 'd net_state" where
  "test_net d = \<lparr>blocks = [0 \<mapsto> map of_nat [0..<20]], next_block = 6, grants = \<lambda>_ _. True, junk = \<lambda>_ _. 0,
     sems = [1 \<mapsto> 1], handle_cells = Map.empty, netifs = [5 \<mapsto> test_netif], pbufs = [0 \<mapsto> test_packet],
     adin1110_netif = Ptr 5 0, adin_present = True, driver = d, adinHandle = Ptr 1 0, eth_rx_buff = replicate 1530 0,
     network_init_completed = True\<rparr>"

lemma test_net_simps:
  "adin_present (test_net d)" "mutex_free (test_net d) (adinHandle (test_net d))" "pbufs (test_net d) 0 = Some test_packet"
  "pb_payload test_packet = Ptr 0 0" "blocks (test_net d) 0 = Some (map of_nat [0..<20])" "driver (test_net d) = d"
  "netifs (test_net d) 5 = Some test_netif" "length (eth_rx_buff (test_net d)) = 1530" "grants (test_net d) = (\<lambda>_ _. True)"
  "next_block (test_net d) = 6" "pb_len test_packet = 20"
  by (simp_all add: test_net_def mutex_count_def test_packet_def)

text \<open>A network stack that accepts every packet and forgets it.\<close>

definition test_lwip :: "(u16 \<Rightarrow> u32) net_state lwip" where
  "test_lwip = \<lparr>tcpip_init = returnm (), netif_add = \<lambda>n _ _ _ _. returnm n, netif_set_default = \<lambda>_. returnm (),
     netif_set_up = \<lambda>_. returnm (), netif_set_link_up = \<lambda>_. returnm (), dhcp_start = \<lambda>_. returnm (), ni_input = \<lambda>_ _. returnm 0\<rparr>"

theorem link_output_sends_witness:
  "\<exists>\<sigma>'. adin1110if_link_output test_bus NULL (Ptr 0 0) (test_net roomy_desc) = Inr (0, \<sigma>')"
proof -
  obtain d1 where d1: "adin1110_reg_read test_bus ADIN1110_TX_SPACE_REG roomy_desc = Inr (Inr 1000, d1)"
    "chip_ready test_bus id {0x30, 0x32} d1"
    using chip.rd_run[OF roomy_ready(1), of "0x32"] by (auto simp: ADIN1110_TX_SPACE_REG_def roomy_desc_def)
  obtain d2 where d2: "adin1110_reg_write test_bus ADIN1110_TX_FSIZE_REG (padded_len (of_nat 20)) d1 = Inr (Inr (), d2)"
    using chip.wr_run[OF d1(2), of "0x30"] by (auto simp: ADIN1110_TX_FSIZE_REG_def)
  have small: "padded_len (of_nat 20) \<le> 2 * (1000 - 2)" by (simp add: padded_len_def)
  have tr: "\<exists>bs d'. transfer test_bus (fifo_header False t 0 @ js) d = Inr ((0, bs), d')" for t js d
    by (simp add: test_chip_def fifo_header_def with_crc_def bit_simps)
  then obtain bs d' where "transfer test_bus (fifo_header (append_crc roomy_desc) (crc_table roomy_desc) 0 @
      (take 6 (drop 0 (map of_nat [0..<20])) @ mac_address roomy_desc @ take (20 - 12) (drop (0 + 12) (map of_nat [0..<20]))) @
        take (round_len 20 - 2 - 20) (drop (4 + of_bool (append_crc roomy_desc) + 20) (data_buf roomy_desc))) (dev d2) = Inr ((0, bs), d')"
    using roomy_ready(3) by metis
  from link_output_sends[OF test_net_simps(1-5) _ _ _ _ test_net_simps(6)[symmetric] roomy_ready(2) d1(1) small d2 refl this]
  show ?thesis by (auto simp: test_net_simps(11))
qed

theorem poll_delivers_witness:
  "\<exists>\<sigma>2. adin1110if_poll test_lwip frame_chip NULL (test_net (rx_desc 20)) = Inr (0, \<sigma>2) \<and>
     blocks \<sigma>2 6 = Some [5, 6, 7, 8, 9, 10, 11, 12, 13, 14, 15, 16, 17, 18, 19, 20, 21, 22]"
proof -
  obtain d1 where r: "adin1110_reg_read frame_chip (fsize_reg 0) (rx_desc 20) = Inr (Inr 20, d1)" "wf_desc (rx_desc 20)"
    "append_crc (rx_desc 20) = False" using rx_desc_read by blast
  have e: "(map of_nat [0..<23] :: u8 list) = [0, 1, 2, 3, 4, 5, 6, 7, 8, 9, 10, 11, 12, 13, 14, 15, 16, 17, 18, 19, 20, 21, 22]"
    by (simp add: upt_rec)
  have tr: "transfer frame_chip (rx_request (append_crc (rx_desc 20)) (crc_table (rx_desc 20)) 0 20) (dev d1) =
      Inr ((0, map of_nat [0..<23]), dev d1)"
    using rx_transfer[where n = 20] r(3) by (simp add: round4_def)
  show ?thesis
    using poll_delivers[where n = 20 and L = test_lwip and netif = NULL, OF test_net_simps(1,2,8) test_net_simps(6)[symmetric] r(2,1) _ _ _ tr _ refl]
    by (auto simp: r(3) round4_def e test_net_simps test_lwip_def returnm_def)
qed

theorem interface_set_up_witness:
  "adin1110if_init (tracked no_spi_bus) 1 (Ptr 5 0) (test_net fresh_desc) = Inl Null_Deref"
proof -
  have "\<exists>d. adin1110_init (tracked no_spi_bus) 1 adin1110_ip fresh_desc = Inr (Inl (-5), d)"
    by (simp add: adin1110_init_def no_spi_bus_def test_chip_def fresh_desc_def counted_def outside_def bindm_unfold
        run_simps on_error_def checked_def free_rst_gpio_def free_desc_def tracked_def)
  then show ?thesis
    using interface_set_up[of "test_net fresh_desc" 5 test_netif no_spi_bus 1 "Inl (-5)"]
    by (auto simp: test_net_simps fresh_desc_def)
qed

theorem driver_mutex_witness:
  "adin1110if_poll test_lwip test_bus NULL ((test_net roomy_desc)\<lparr>sems := [1 \<mapsto> 0]\<rparr>) = Inl Blocks"
proof -
  have "\<forall>p. leaves h (ni_input test_lwip p NULL)" for h by (simp add: test_lwip_def mutex_rules)
  then show ?thesis
    using driver_mutex[where \<sigma> = "(test_net roomy_desc)\<lparr>sems := [1 \<mapsto> 0]\<rparr>" and L = test_lwip and netif = NULL and q = 0
        and B = test_bus and i = 0 and b = 0 and pb = test_packet]
    by (auto simp: test_net_def mutex_count_def test_packet_def)
qed

end
