(* ===== verification/Rtos_Tasks.thy ===== *)
theory Rtos_Tasks
  imports Rtos
begin

text \<open>
  Tasks that share an object behind a lock: the steps of any number of tasks that enter,
  work and leave, in any order. The locale \<open>task_lock\<close> states what a lock promises, and
  proves mutual exclusion from it once; the no-OS mutex is an interpretation.
\<close>

section \<open>Interleaved tasks\<close>

datatype phase = Outside | Inside

text \<open>
  \<open>work t\<close> relates the states before and after something task \<open>t\<close> does while it is inside. A
  task for which \<open>acquire\<close> blocks has no step.
\<close>

inductive task_step ::
  "('s, unit) cm \<Rightarrow> ('s, unit) cm \<Rightarrow> (nat \<Rightarrow> 's \<Rightarrow> 's \<Rightarrow> bool) \<Rightarrow>
   's \<times> (nat \<Rightarrow> phase) \<Rightarrow> 's \<times> (nat \<Rightarrow> phase) \<Rightarrow> bool"
  for acquire :: "('s, unit) cm" and release :: "('s, unit) cm" and work :: "nat \<Rightarrow> 's \<Rightarrow> 's \<Rightarrow> bool" where
  enter: "ph t = Outside \<Longrightarrow> acquire s = Inr ((), s') \<Longrightarrow> task_step acquire release work (s, ph) (s', ph(t := Inside))"
| work: "ph t = Inside \<Longrightarrow> work t s s' \<Longrightarrow> task_step acquire release work (s, ph) (s', ph)"
| leave: "ph t = Inside \<Longrightarrow> release s = Inr ((), s') \<Longrightarrow> task_step acquire release work (s, ph) (s', ph(t := Outside))"

inductive_cases task_stepE: "task_step acquire release work (s, ph) (s', ph')"

section \<open>What a lock promises\<close>

locale task_lock =
  fixes acquire release :: "('s, unit) cm"
    and taken :: "'s \<Rightarrow> bool option"   \<comment> \<open>\<open>None\<close> when the lock does not exist\<close>
  assumes acquire_free: "taken s = Some False \<Longrightarrow> \<exists>s'. acquire s = Inr ((), s') \<and> taken s' = Some True"
    and acquire_taken: "taken s = Some True \<Longrightarrow> acquire s = Inl Blocks"
    and release_taken: "taken s = Some True \<Longrightarrow> \<exists>s'. release s = Inr ((), s') \<and> taken s' = Some False"
begin

text \<open>The lock exists and is taken exactly if some task, and then only one, is inside.\<close>

definition exclusive :: "'s \<times> (nat \<Rightarrow> phase) \<Rightarrow> bool" where
  "exclusive c \<longleftrightarrow>
     (if \<exists>t. snd c t = Inside then taken (fst c) = Some True else taken (fst c) = Some False) \<and>
     (\<forall>t u. snd c t = Inside \<and> snd c u = Inside \<longrightarrow> t = u)"

lemma exclusive_step:
  assumes "task_step acquire release work c c'" and "exclusive c"
    and "\<And>t s s'. work t s s' \<Longrightarrow> taken s' = taken s"
  shows "exclusive c'"
  using assms
proof (cases rule: task_step.cases)
  case (enter ph t s s')
  have "taken s = Some False"
  proof (rule ccontr)
    assume "taken s \<noteq> Some False"
    then have "taken s = Some True" using assms(2) enter by (auto simp: exclusive_def split: if_splits)
    then show False using acquire_taken enter by simp
  qed
  moreover from this have "\<forall>u. ph u = Outside"
    using assms(2) enter by (auto simp: exclusive_def split: if_splits) (metis phase.exhaust)
  moreover have "taken s' = Some True" using acquire_free[OF \<open>taken s = Some False\<close>] enter by auto
  ultimately show ?thesis using enter by (auto simp: exclusive_def split: if_splits)
next
  case (work ph t s s')
  then show ?thesis using assms(2,3) by (auto simp: exclusive_def split: if_split_asm)
next
  case (leave ph t s s')
  then have "taken s = Some True" using assms(2) by (auto simp: exclusive_def split: if_splits)
  moreover from this have "taken s' = Some False" using release_taken[of s] leave by auto
  moreover have "\<forall>u. u \<noteq> t \<longrightarrow> ph u = Outside"
    using assms(2) leave by (auto simp: exclusive_def) (metis phase.exhaust)
  ultimately show ?thesis using leave by (auto simp: exclusive_def)
qed

lemma exclusive_reachable:
  assumes "(task_step acquire release work)\<^sup>*\<^sup>* c c'" and "exclusive c"
    and "\<And>t s s'. work t s s' \<Longrightarrow> taken s' = taken s"
  shows "exclusive c'"
  using assms by (induction rule: rtranclp_induct) (blast intro: exclusive_step)+

lemma exclusive_start: "taken s = Some False \<Longrightarrow> exclusive (s, \<lambda>_. Outside)"
  by (simp add: exclusive_def)

text \<open>Nobody is locked out: whoever is inside can leave, and when nobody is inside anyone can enter.\<close>

lemma exclusive_progress:
  assumes "exclusive (s, ph)"
  shows "ph t = Inside \<Longrightarrow> \<exists>s'. release s = Inr ((), s')"
    and "\<forall>u. ph u = Outside \<Longrightarrow> \<exists>s'. acquire s = Inr ((), s')"
    and "ph t = Inside \<Longrightarrow> acquire s = Inl Blocks"
proof -
  show "ph t = Inside \<Longrightarrow> \<exists>s'. release s = Inr ((), s')"
    using assms release_taken[of s] by (auto simp: exclusive_def split: if_splits)
  show "\<forall>u. ph u = Outside \<Longrightarrow> \<exists>s'. acquire s = Inr ((), s')"
    using assms acquire_free[of s] by (auto simp: exclusive_def)
  show "ph t = Inside \<Longrightarrow> acquire s = Inl Blocks"
    using assms acquire_taken[of s] by (auto simp: exclusive_def split: if_splits)
qed

end

definition mutex_state :: "ptr \<Rightarrow> 'z rtos_scheme \<Rightarrow> bool option" where
  "mutex_state m \<sigma> = (case mutex_count \<sigma> m of Some 0 \<Rightarrow> Some True | Some (Suc 0) \<Rightarrow> Some False | _ \<Rightarrow> None)"

lemma mutex_state_iff:
  "mutex_state m \<sigma> = Some True \<longleftrightarrow> mutex_taken \<sigma> m" "mutex_state m \<sigma> = Some False \<longleftrightarrow> mutex_free \<sigma> m"
  by (auto simp: mutex_state_def split: option.splits nat.splits)

interpretation os_mutex: task_lock "no_os_mutex_lock m" "no_os_mutex_unlock m" "mutex_state m" for m
  by unfold_locales
    (auto simp: mutex_state_iff mutex_lock_ok mutex_lock_blocks mutex_unlock_ok intro!: mutex_count_set)

section \<open>Properties\<close>

text \<open>C22: From the mutex that \<open>no_os_mutex_init\<close> makes, whatever any number of tasks do
  between lock and unlock without touching the mutex itself, never two of them hold it; a
  task that asks for it while another holds it waits, the holder can always give it back,
  and when nobody holds it everyone can take it.\<close>

theorem mutex_excludes:
  assumes "fresh_rtos \<sigma>" and "no_os_mutex_init NULL \<sigma> = Inr (m, \<sigma>0)"
    and "\<And>t s s'. work t s s' \<Longrightarrow> mutex_count s' m = mutex_count s m"
    and "(task_step (no_os_mutex_lock m) (no_os_mutex_unlock m) work)\<^sup>*\<^sup>* (\<sigma>0, \<lambda>_. Outside) (\<sigma>', ph)"
  shows "(ph t = Inside \<and> ph u = Inside \<longrightarrow> t = u) \<and>
    (ph t = Inside \<longrightarrow> no_os_mutex_lock m \<sigma>' = Inl Blocks \<and> (\<exists>s. no_os_mutex_unlock m \<sigma>' = Inr ((), s))) \<and>
    ((\<forall>v. ph v = Outside) \<longrightarrow> (\<exists>s. no_os_mutex_lock m \<sigma>' = Inr ((), s)))"
proof -
  have "mutex_free \<sigma>0 m"
    using assms(1,2) mutex_init_refused[of \<sigma>] mutex_init_ok[of \<sigma>] mutex_count_after_init[of \<sigma>]
    by (cases "grants \<sigma> (Suc (next_block \<sigma>)) sizeof_Queue_t") auto
  moreover have "mutex_state m s' = mutex_state m s" if "work t s s'" for t s s'
    using assms(3)[OF that] by (simp add: mutex_state_def)
  ultimately have "os_mutex.exclusive m (\<sigma>', ph)"
    using os_mutex.exclusive_reachable[OF assms(4)] os_mutex.exclusive_start[of m \<sigma>0] by (simp add: mutex_state_iff)
  then show ?thesis using os_mutex.exclusive_progress[of m \<sigma>' ph] by (auto simp: os_mutex.exclusive_def)
qed

definition test_rtos :: "'x \<Rightarrow> 'x rtos_scheme" where
  "test_rtos x = \<lparr>blocks = \<lambda>_. None, next_block = 0, grants = \<lambda>_ _. True, junk = \<lambda>_ _. 0,
     sems = \<lambda>_. None, handle_cells = \<lambda>_. None, \<dots> = x\<rparr>"

lemma fresh_test_rtos [simp]: "fresh_rtos (test_rtos x)"
  by (simp add: fresh_rtos_def test_rtos_def)

text \<open>Task 1 takes the mutex, writes to a block, and task 2 has to wait.\<close>

theorem mutex_excludes_witness:
  "no_os_mutex_lock (Ptr 1 0) (set_count (Ptr 1 0) 0 (after_mutex_init (test_rtos ()))) = Inl Blocks"
proof -
  let ?work = "\<lambda>(t :: nat) (s :: rtos) s'. \<exists>bs. write_bytes (Ptr 7 0) bs s = Inr ((), s')"
  have init: "no_os_mutex_init NULL (test_rtos ()) = Inr (Ptr 1 0, after_mutex_init (test_rtos ()))"
    by (subst mutex_init_ok[OF fresh_test_rtos]) (simp_all add: test_rtos_def)
  have free: "mutex_free (after_mutex_init (test_rtos ())) (Ptr 1 0)"
    using mutex_count_after_init[OF fresh_test_rtos, of "()"] by (simp add: test_rtos_def)
  have work: "mutex_count s' (Ptr 1 0) = mutex_count s (Ptr 1 0)" if "?work t s s'" for t and s s' :: rtos
    using that by (auto simp: write_bytes_def mutex_count_def set_block_def split: option.splits if_splits)
  have "task_step (no_os_mutex_lock (Ptr 1 0)) (no_os_mutex_unlock (Ptr 1 0)) ?work
      (after_mutex_init (test_rtos ()), \<lambda>_. Outside)
      (set_count (Ptr 1 0) 0 (after_mutex_init (test_rtos ())), (\<lambda>_. Outside)(1 := Inside))"
    by (rule task_step.enter) (use mutex_lock_ok[OF free] in simp_all)
  from mutex_excludes[OF fresh_test_rtos init work r_into_rtranclp[of "task_step _ _ ?work", OF this], of 1 1]
  show ?thesis by simp
qed

text \<open>Every mutex leaks the handle variable that \<open>no_os_mutex_init\<close> allocates and forgets.\<close>

lemma mutex_leaks_handle:
  assumes "fresh_rtos \<sigma>" and "grants \<sigma> (next_block \<sigma>) sizeof_SemaphoreHandle_t"
    and "grants \<sigma> (Suc (next_block \<sigma>)) sizeof_Queue_t"
  shows "bindm (no_os_mutex_init NULL) no_os_mutex_remove \<sigma> =
    Inr ((), \<sigma>\<lparr>next_block := next_block \<sigma> + 2, handle_cells := (handle_cells \<sigma>)(next_block \<sigma> \<mapsto> NULL)\<rparr>)"
proof -
  have "(sems \<sigma>)(Suc (next_block \<sigma>) := None) = sems \<sigma>" using assms(1) by (auto simp: fresh_rtos_def)
  then show ?thesis
    using assms mutex_count_after_init[OF assms(1)]
    by (simp add: bindm_unfold mutex_init_ok mutex_remove_ok)
      (simp add: after_mutex_init_def Let_def)
qed

text \<open>Taking or giving a semaphore that \<open>no_os_semaphore_init\<close> made accesses the
  handle variable as if it were the semaphore: the wrapper passes the address of the
  handle to the kernel instead of the handle.\<close>

theorem semaphore_misused:
  assumes "fresh_rtos \<sigma>" and "no_os_semaphore_init NULL \<sigma> = Inr (s, \<sigma>')"
  shows "no_os_semaphore_take s \<sigma>' = Inl Out_Of_Bounds \<and> no_os_semaphore_give s \<sigma>' = Inl Out_Of_Bounds"
  using assms
  by (cases "grants \<sigma> (next_block \<sigma>) sizeof_SemaphoreHandle_t"; cases "grants \<sigma> (Suc (next_block \<sigma>)) sizeof_Queue_t")
    (auto simp: no_os_semaphore_init_def handle_calloc_def xSemaphoreCreateBinary_def bindm_unfold new_obj_ok
      new_obj_refused run_simps no_os_semaphore_take_def no_os_semaphore_give_def xSemaphoreTake_def xSemaphoreGive_def
      queue_of_def deref_def)

theorem semaphore_misused_witness:
  "\<exists>\<sigma>'. no_os_semaphore_init NULL (test_rtos ()) = Inr (Ptr 0 0, \<sigma>') \<and>
     no_os_semaphore_take (Ptr 0 0) \<sigma>' = Inl Out_Of_Bounds"
proof -
  obtain \<sigma>' where init: "no_os_semaphore_init NULL (test_rtos ()) = Inr (Ptr 0 0, \<sigma>')"
    by (auto simp: no_os_semaphore_init_def handle_calloc_def xSemaphoreCreateBinary_def bindm_unfold new_obj_def
      run_simps deref_def test_rtos_def Let_def)
  then show ?thesis using semaphore_misused[OF fresh_test_rtos init] by simp
qed

end
