(* ===== verification/NoOs_Gpio_Theorems.thy ===== *)
theory NoOs_Gpio_Theorems
  imports NoOs_Gpio
begin

text \<open>
  What the pins promise: a request for a pin either gives a configured descriptor or
  leaves nothing behind, removing it gives back all it took, and how the direction of a
  pin changes. The proofs run the functions on an arbitrary HAL and use only what they
  do to the descriptors.
\<close>

section \<open>Execution\<close>

lemma on_hw_Inr: "on_hw m \<sigma> = Inr (a, \<sigma>') \<longleftrightarrow> (\<exists>h. m (hw \<sigma>) = Inr (a, h) \<and> \<sigma>' = \<sigma>\<lparr>hw := h\<rparr>)"
  by (auto simp: on_hw_def split: sum.splits)

lemma pin_mask_Inr: "pin_mask n \<sigma> = Inr (a, \<sigma>') \<longleftrightarrow> 0 \<le> n \<and> n < 32 \<and> a = NO_OS_BIT (nat n) \<and> \<sigma>' = \<sigma>"
  by (auto simp: pin_mask_def run_simps)

lemmas outcome_iffs = bindm_Inr_iff on_hw_Inr pin_mask_Inr modifym_Inr returnm_Inr deref_Inr failm_run

text \<open>Block numbers to come are used by no pin.\<close>

definition fresh_gpio :: "('h, 'z) gpio_state_scheme \<Rightarrow> bool" where
  "fresh_gpio \<sigma> \<longleftrightarrow> (\<forall>b \<ge> next_block \<sigma>. gdescs \<sigma> b = None \<and> gextras \<sigma> b = None)"

lemma gpio_init_outcome:
  assumes "gpio_init H (Ptr b 0) pr \<sigma> = Inr (ret, \<sigma>')" and "gdescs \<sigma> b = Some d" and "gd_extra d = Ptr e 0"
  shows "\<exists>d' x. gdescs \<sigma>' = (gdescs \<sigma>)(b \<mapsto> d') \<and> gextras \<sigma>' = (gextras \<sigma>)(e \<mapsto> x) \<and> gd_extra d' = gd_extra d \<and>
    gd_platform_ops d' = gd_platform_ops d \<and> next_block \<sigma>' = next_block \<sigma> \<and> ret \<le> 0 \<and>
    (ret = 0 \<longrightarrow> gd_number d' = gp_number pr \<and> gd_port d' = gp_port pr \<and> gp_port pr \<in> {0..8} \<and> gp_number pr \<in> {0..31} \<and>
      sg_port x = nat (gp_port pr) \<and> Pin (gpio_config x) = NO_OS_BIT (nat (gp_number pr)) \<and>
      Mode (gpio_config x) = (case gp_extra pr of None \<Rightarrow> GPIO_MODE_INPUT | Some ex \<Rightarrow> gx_mode ex) \<and>
      gp_pull pr \<noteq> PULL_OTHER)"
proof -
  obtain x0 where x0: "gextras \<sigma> e = Some x0"
    using assms by (auto simp: gpio_init_def outcome_iffs)
  define mode where "mode = (case gp_extra pr of None \<Rightarrow> GPIO_MODE_INPUT | Some ex \<Rightarrow> gx_mode ex)"
  consider (port) "gp_port pr < 0 \<or> 8 < gp_port pr"
    | (mode) "gp_port pr \<in> {0..8}" "mode \<notin> {GPIO_MODE_INPUT, GPIO_MODE_OUTPUT_PP, GPIO_MODE_OUTPUT_OD, GPIO_MODE_AF_PP}"
    | (pull) "gp_port pr \<in> {0..8}" "mode \<in> {GPIO_MODE_INPUT, GPIO_MODE_OUTPUT_PP, GPIO_MODE_OUTPUT_OD, GPIO_MODE_AF_PP}"
        "gp_pull pr = PULL_OTHER"
    | (ok) "gp_port pr \<in> {0..8}" "mode \<in> {GPIO_MODE_INPUT, GPIO_MODE_OUTPUT_PP, GPIO_MODE_OUTPUT_OD, GPIO_MODE_AF_PP}"
        "gp_pull pr \<noteq> PULL_OTHER" by force
  then show ?thesis
  proof cases
    case port
    then show ?thesis using assms x0
      by (simp add: gpio_init_def outcome_iffs errno_defs) (metis fun_upd_triv)
  next
    case mode
    then show ?thesis using assms x0 unfolding gpio_init_def mode_def[symmetric] Let_def
      by (auto simp: outcome_iffs errno_defs map_upd_inject intro!: exI[of _ d])
  next
    case pull
    then show ?thesis using assms x0 unfolding gpio_init_def mode_def[symmetric] Let_def
      by (auto simp: outcome_iffs errno_defs map_upd_inject)
  next
    case ok
    then show ?thesis using assms x0 unfolding gpio_init_def mode_def[symmetric] Let_def
      by (auto simp: outcome_iffs map_upd_inject)
  qed
qed

lemma gpio_desc_malloc_outcome:
  "gpio_desc_malloc \<sigma> = Inr (p, \<sigma>') \<longleftrightarrow>
   (if grants \<sigma> (next_block \<sigma>) sizeof_gpio_desc
    then p = Ptr (next_block \<sigma>) 0 \<and> \<sigma>' = \<sigma>\<lparr>next_block := Suc (next_block \<sigma>), gdescs := (gdescs \<sigma>)(next_block \<sigma> \<mapsto>
      \<lparr>gd_port = 0, gd_number = 0, gd_pull = PULL_OTHER, gd_platform_ops = None, gd_extra = NULL\<rparr>)\<rparr>
    else p = NULL \<and> \<sigma>' = \<sigma>\<lparr>next_block := Suc (next_block \<sigma>)\<rparr>)"
  by (auto simp: gpio_desc_malloc_def new_obj_def Let_def)

lemma gpio_extra_malloc_outcome:
  "gpio_extra_malloc \<sigma> = Inr (p, \<sigma>') \<longleftrightarrow>
   (if grants \<sigma> (next_block \<sigma>) sizeof_stm32_gpio_desc
    then p = Ptr (next_block \<sigma>) 0 \<and> \<sigma>' = \<sigma>\<lparr>next_block := Suc (next_block \<sigma>), gextras := (gextras \<sigma>)(next_block \<sigma> \<mapsto>
      \<lparr>sg_port = 0, gpio_config = \<lparr>Pin = 0, Mode = 0, Pull = 0, Speed = 0,
        Alternate = ucast (junk \<sigma> (next_block \<sigma>) 20)\<rparr>\<rparr>)\<rparr>
    else p = NULL \<and> \<sigma>' = \<sigma>\<lparr>next_block := Suc (next_block \<sigma>)\<rparr>)"
  by (auto simp: gpio_extra_malloc_def new_obj_def Let_def)

lemma gpio_free_outcomes:
  "gpio_desc_free p \<sigma> = Inr (u, \<sigma>') \<longleftrightarrow>
     (if p = NULL then \<sigma>' = \<sigma> else \<exists>b d. p = Ptr b 0 \<and> gdescs \<sigma> b = Some d \<and> \<sigma>' = \<sigma>\<lparr>gdescs := (gdescs \<sigma>)(b := None)\<rparr>)"
  "gpio_extra_free p \<sigma> = Inr (u, \<sigma>') \<longleftrightarrow>
     (if p = NULL then \<sigma>' = \<sigma> else \<exists>b d. p = Ptr b 0 \<and> gextras \<sigma> b = Some d \<and> \<sigma>' = \<sigma>\<lparr>gextras := (gextras \<sigma>)(b := None)\<rparr>)"
  by (auto simp: gpio_desc_free_def gpio_extra_free_def outcome_iffs)

text \<open>The descriptor of a pin as a request for it has to make it.\<close>

definition configured :: "no_os_gpio_init_param \<Rightarrow> no_os_gpio_desc \<Rightarrow> stm32_gpio_desc \<Rightarrow> bool" where
  "configured pr d x \<longleftrightarrow> gd_number d = gp_number pr \<and> gd_port d = gp_port pr \<and> gp_port pr \<in> {0..8} \<and>
     gp_number pr \<in> {0..31} \<and> sg_port x = nat (gp_port pr) \<and> Pin (gpio_config x) = NO_OS_BIT (nat (gp_number pr)) \<and>
     Mode (gpio_config x) = (case gp_extra pr of None \<Rightarrow> GPIO_MODE_INPUT | Some ex \<Rightarrow> gx_mode ex) \<and>
     gp_pull pr \<noteq> PULL_OTHER"

lemma stm32_gpio_get_outcome:
  assumes "fresh_gpio \<sigma>" and "stm32_gpio_get H (Some old) (Some pr) \<sigma> = Inr ((ret, out), \<sigma>')"
  shows "ret \<le> 0 \<and> (ret \<noteq> 0 \<longrightarrow> out = Some old \<and> gdescs \<sigma>' = gdescs \<sigma> \<and> gextras \<sigma>' = gextras \<sigma>) \<and>
    (ret = 0 \<longrightarrow> (\<exists>b d e x. out = Some (Ptr b 0) \<and> gdescs \<sigma> b = None \<and> gextras \<sigma> e = None \<and>
      gdescs \<sigma>' = (gdescs \<sigma>)(b \<mapsto> d) \<and> gextras \<sigma>' = (gextras \<sigma>)(e \<mapsto> x) \<and> gd_extra d = Ptr e 0 \<and> configured pr d x))"
proof -
  let ?b = "next_block \<sigma>"
  have fresh: "gdescs \<sigma> ?b = None" "gdescs \<sigma> (Suc ?b) = None" "gextras \<sigma> ?b = None" "gextras \<sigma> (Suc ?b) = None"
    using assms(1) by (auto simp: fresh_gpio_def)
  show ?thesis
  proof (cases "grants \<sigma> ?b sizeof_gpio_desc \<and> grants \<sigma> (Suc ?b) sizeof_stm32_gpio_desc")
    case False
    then show ?thesis using assms(2) fresh
      by (auto simp: stm32_gpio_get_def outcome_iffs gpio_desc_malloc_outcome gpio_extra_malloc_outcome gpio_free_outcomes
          Let_def errno_defs fun_upd_idem split: if_splits)
  next
    case True
    define d0 where "d0 = \<lparr>gd_port = 0, gd_number = 0, gd_pull = PULL_OTHER, gd_platform_ops = None, gd_extra = Ptr (Suc ?b) 0\<rparr>"
    define x0 where "x0 = \<lparr>sg_port = 0, gpio_config = \<lparr>Pin = 0, Mode = 0, Pull = 0, Speed = 0,
      Alternate = ucast (junk \<sigma> (Suc ?b) 20)\<rparr>\<rparr>"
    define \<sigma>1 where "\<sigma>1 = \<sigma>\<lparr>next_block := Suc (Suc ?b), gextras := (gextras \<sigma>)(Suc ?b \<mapsto> x0), gdescs := (gdescs \<sigma>)(?b \<mapsto> d0)\<rparr>"
    have s1: "gdescs \<sigma>1 = (gdescs \<sigma>)(?b \<mapsto> d0)" "gextras \<sigma>1 = (gextras \<sigma>)(Suc ?b \<mapsto> x0)"
        "gd_extra d0 = Ptr (Suc ?b) 0" by (simp_all add: \<sigma>1_def d0_def)
    have run: "stm32_gpio_get H (Some old) (Some pr) \<sigma> = bindm (gpio_init H (Ptr ?b 0) pr) (\<lambda>c.
        if c < 0 then bindm (gpio_extra_free (Ptr (Suc ?b) 0)) (\<lambda>_.
          bindm (gpio_desc_free (Ptr ?b 0)) (\<lambda>_. returnm (c, Some old))) else returnm (0, Some (Ptr ?b 0))) \<sigma>1"
      using True by (simp add: stm32_gpio_get_def gpio_desc_malloc_def gpio_extra_malloc_def bindm_unfold new_obj_ok
          run_simps \<sigma>1_def d0_def x0_def Let_def cong: if_cong sum.case_cong)
    obtain c \<sigma>2 where init: "gpio_init H (Ptr ?b 0) pr \<sigma>1 = Inr (c, \<sigma>2)"
      and rest: "(if c < 0 then bindm (gpio_extra_free (Ptr (Suc ?b) 0)) (\<lambda>_.
                  bindm (gpio_desc_free (Ptr ?b 0)) (\<lambda>_. returnm (c, Some old))) else returnm (0, Some (Ptr ?b 0))) \<sigma>2 =
         Inr ((ret, out), \<sigma>')"
      using assms(2) unfolding run bindm_Inr_iff by blast
    from gpio_init_outcome[OF init, of d0 "Suc ?b"] s1 obtain d x where
      s2: "gdescs \<sigma>2 = (gdescs \<sigma>)(?b \<mapsto> d)" "gextras \<sigma>2 = (gextras \<sigma>)(Suc ?b \<mapsto> x)" "gd_extra d = Ptr (Suc ?b) 0"
      and c: "c \<le> 0" "c = 0 \<longrightarrow> configured pr d x" by (auto simp: configured_def)
    show ?thesis
    proof (cases "c = 0")
      case True
      then show ?thesis using rest s2 c fresh by (auto simp: outcome_iffs)
    next
      case False
      then show ?thesis using rest s2 c fresh by (auto simp: outcome_iffs gpio_free_outcomes fun_upd_idem)
    qed
  qed
qed

lemma stm32_gpio_get_refused:
  "\<not> grants \<sigma> (next_block \<sigma>) sizeof_gpio_desc \<Longrightarrow> stm32_gpio_get H (Some old) (Some pr) \<sigma> = Inl Uninitialised"
  by (simp add: stm32_gpio_get_def gpio_desc_malloc_def bindm_unfold new_obj_refused run_simps)

text \<open>Removing a pin through the interface gives back both objects.\<close>

lemma gpio_remove_ok:
  assumes "gdescs \<sigma> b = Some d" and "gextras \<sigma> e = Some x" and "gd_extra d = Ptr e 0" and "gd_platform_ops d = Some ops"
    and "T ops = stm32_gpio_ops H"
  shows "no_os_gpio_remove T (Ptr b 0) \<sigma> =
    Inr (0, \<sigma>\<lparr>gextras := (gextras \<sigma>)(e := None), gdescs := (gdescs \<sigma>)(b := None)\<rparr>)"
  using assms
  by (simp add: no_os_gpio_remove_def gpio_call_def stm32_gpio_ops_def stm32_gpio_remove_def bindm_unfold run_simps
      gpio_extra_free_def gpio_desc_free_def)

section \<open>Properties\<close>

text \<open>A request for a pin that returns has either failed with a negative code and left
  nothing allocated, or it gives a new descriptor with the port, the pin mask and the mode
  that were asked for, which are valid, and removing that gives back all that was
  allocated. When the heap refuses the descriptor itself, it frees a pointer it never set.\<close>

theorem gpio_get_outcomes:
  assumes "fresh_gpio \<sigma>" and "T ops = stm32_gpio_ops H" and "gp_platform_ops pr = Some ops"
  shows "(\<not> grants \<sigma> (next_block \<sigma>) sizeof_gpio_desc \<longrightarrow> no_os_gpio_get T (Some old) (Some pr) \<sigma> = Inl Uninitialised) \<and>
    (\<forall>ret out \<sigma>'. no_os_gpio_get T (Some old) (Some pr) \<sigma> = Inr ((ret, out), \<sigma>') \<longrightarrow>
      (ret < 0 \<and> out = Some old \<and> gdescs \<sigma>' = gdescs \<sigma> \<and> gextras \<sigma>' = gextras \<sigma>) \<or>
      (ret = 0 \<and> (\<exists>b d e x. out = Some (Ptr b 0) \<and> gdescs \<sigma> b = None \<and> gdescs \<sigma>' b = Some d \<and>
        gd_extra d = Ptr e 0 \<and> gextras \<sigma>' e = Some x \<and> configured pr d x \<and>
        no_os_gpio_remove T (Ptr b 0) \<sigma>' = Inr (0, \<sigma>'\<lparr>gdescs := gdescs \<sigma>, gextras := gextras \<sigma>\<rparr>))))"
proof (intro conjI impI allI)
  show "no_os_gpio_get T (Some old) (Some pr) \<sigma> = Inl Uninitialised" if "\<not> grants \<sigma> (next_block \<sigma>) sizeof_gpio_desc"
    using stm32_gpio_get_refused[OF that] assms
    by (simp add: no_os_gpio_get_def bindm_unfold stm32_gpio_ops_def)
next
  fix ret out \<sigma>'
  assume "no_os_gpio_get T (Some old) (Some pr) \<sigma> = Inr ((ret, out), \<sigma>')"
  then obtain c o1 \<sigma>1 where get: "stm32_gpio_get H (Some old) (Some pr) \<sigma> = Inr ((c, o1), \<sigma>1)"
    and rest: "(if c \<noteq> 0 then returnm (c, o1) else bindm (set_gpio_ops o1 (Some ops)) (\<lambda>_. returnm (0, o1))) \<sigma>1 = Inr ((ret, out), \<sigma>')"
    using assms by (auto simp: no_os_gpio_get_def bindm_Inr_iff stm32_gpio_ops_def)
  note outcome = stm32_gpio_get_outcome[OF assms(1) get]
  show "(ret < 0 \<and> out = Some old \<and> gdescs \<sigma>' = gdescs \<sigma> \<and> gextras \<sigma>' = gextras \<sigma>) \<or>
      (ret = 0 \<and> (\<exists>b d e x. out = Some (Ptr b 0) \<and> gdescs \<sigma> b = None \<and> gdescs \<sigma>' b = Some d \<and>
        gd_extra d = Ptr e 0 \<and> gextras \<sigma>' e = Some x \<and> configured pr d x \<and>
        no_os_gpio_remove T (Ptr b 0) \<sigma>' = Inr (0, \<sigma>'\<lparr>gdescs := gdescs \<sigma>, gextras := gextras \<sigma>\<rparr>)))"
  proof (cases "c = 0")
    case False
    then show ?thesis using rest outcome by (auto simp: returnm_Inr)
  next
    case True
    with outcome obtain b d e x where o: "o1 = Some (Ptr b 0)" "gdescs \<sigma> b = None" "gextras \<sigma> e = None"
      "gdescs \<sigma>1 = (gdescs \<sigma>)(b \<mapsto> d)" "gextras \<sigma>1 = (gextras \<sigma>)(e \<mapsto> x)" "gd_extra d = Ptr e 0" "configured pr d x"
      by auto
    let ?d = "d\<lparr>gd_platform_ops := Some ops\<rparr>"
    have \<sigma>': "\<sigma>' = \<sigma>1\<lparr>gdescs := (gdescs \<sigma>)(b \<mapsto> ?d)\<rparr>" "ret = 0" "out = Some (Ptr b 0)"
      using rest True o by (auto simp: set_gpio_ops_def outcome_iffs)
    have "no_os_gpio_remove T (Ptr b 0) \<sigma>' = Inr (0, \<sigma>'\<lparr>gdescs := gdescs \<sigma>, gextras := gextras \<sigma>\<rparr>)"
      by (subst gpio_remove_ok[where d = ?d and e = e and x = x and H = H and ops = ops])
        (use \<sigma>' o assms(2) in \<open>auto simp: fun_upd_idem\<close>)
    moreover have "configured pr ?d x" using o(7) by (simp add: configured_def)
    ultimately show ?thesis using \<sigma>' o by (auto intro!: exI[of _ ?d])
  qed
qed

text \<open>A HAL that records the modes it is given, and a state to run the pins on.\<close>

definition log_hal :: "(nat \<times> u32) list gpio_hal" where
  "log_hal = \<lparr>hal_clk_enable = \<lambda>_. returnm (), hal_gpio_init = \<lambda>port c. modifym (\<lambda>l. l @ [(port, Mode c)]),
     hal_write_pin = \<lambda>_ _ _. returnm (), hal_read_pin = \<lambda>_ _. returnm 1\<rparr>"

definition test_gpio :: "'x \<Rightarrow> ((nat \<times> u32) list, 'x) gpio_state_scheme" where
  "test_gpio x = \<lparr>blocks = \<lambda>_. None, next_block = 0, grants = \<lambda>_ _. True, junk = \<lambda>_ _. 0,
     sems = \<lambda>_. None, handle_cells = \<lambda>_. None, gdescs = \<lambda>_. None, gextras = \<lambda>_. None, hw = [], \<dots> = x\<rparr>"

text \<open>The reset pin of the network driver: port D, pin 7, open drain, with a pull-up.\<close>

definition reset_pin :: no_os_gpio_init_param where
  "reset_pin = \<lparr>gp_port = 3, gp_number = 7, gp_pull = NO_OS_PULL_UP, gp_platform_ops = Some 0,
     gp_extra = Some \<lparr>gx_mode = GPIO_MODE_OUTPUT_OD, gx_speed = 2, gx_alternate = 0\<rparr>\<rparr>"

theorem gpio_get_outcomes_witness:
  "\<exists>\<sigma>' d x. no_os_gpio_get (\<lambda>_. stm32_gpio_ops log_hal) (Some NULL) (Some reset_pin) (test_gpio ()) =
      Inr ((0, Some (Ptr 0 0)), \<sigma>') \<and> gdescs \<sigma>' 0 = Some d \<and> configured reset_pin d x \<and>
      no_os_gpio_remove (\<lambda>_. stm32_gpio_ops log_hal) (Ptr 0 0) \<sigma>' =
        Inr (0, \<sigma>'\<lparr>gdescs := \<lambda>_. None, gextras := \<lambda>_. None\<rparr>)"
proof -
  obtain \<sigma>' where run: "no_os_gpio_get (\<lambda>_. stm32_gpio_ops log_hal) (Some NULL) (Some reset_pin) (test_gpio ()) =
      Inr ((0, Some (Ptr 0 0)), \<sigma>')"
    by (simp add: no_os_gpio_get_def stm32_gpio_ops_def stm32_gpio_get_def gpio_desc_malloc_def gpio_extra_malloc_def
        gpio_init_def set_gpio_ops_def reset_pin_def log_hal_def test_gpio_def bindm_unfold new_obj_def deref_def
        on_hw_def pin_mask_def run_simps Let_def gpio_modes)
  have "fresh_gpio (test_gpio ())" by (simp add: fresh_gpio_def test_gpio_def)
  from gpio_get_outcomes[OF this, of "\<lambda>_. stm32_gpio_ops log_hal" 0 log_hal reset_pin NULL] run show ?thesis
    by (auto simp: reset_pin_def test_gpio_def)
qed

text \<open>
  A pin switched to input and back to output reports its direction correctly, but it comes
  back as push-pull whatever the mode it was requested with.
\<close>

lemma gpio_direction:
  assumes "gdescs \<sigma> b = Some d" and "gextras \<sigma> e = Some x" and "gd_extra d = Ptr e 0" and "gd_platform_ops d = Some ops"
    and "T ops = stm32_gpio_ops H"
    and "no_os_gpio_direction_input T (Ptr b 0) \<sigma> = Inr (r1, \<sigma>1)"
    and "no_os_gpio_direction_output T (Ptr b 0) v \<sigma>1 = Inr (r2, \<sigma>2)"
  shows "r1 = 0 \<and> r2 = 0 \<and> no_os_gpio_get_direction T (Ptr b 0) (Some old) \<sigma>1 = Inr ((0, Some 0), \<sigma>1) \<and>
    no_os_gpio_get_direction T (Ptr b 0) (Some old) \<sigma>2 = Inr ((0, Some 1), \<sigma>2) \<and>
    (\<exists>x'. gextras \<sigma>2 e = Some x' \<and> Mode (gpio_config x') = GPIO_MODE_OUTPUT_PP)"
proof -
  obtain h where s1: "\<sigma>1 = \<sigma>\<lparr>gextras := (gextras \<sigma>)(e \<mapsto> x\<lparr>gpio_config := (gpio_config x)\<lparr>Mode := GPIO_MODE_INPUT\<rparr>\<rparr>), hw := h\<rparr>"
      and r1: "r1 = 0"
    using assms by (auto simp: no_os_gpio_direction_input_def gpio_call_def stm32_gpio_ops_def
        stm32_gpio_direction_input_def with_gpio_def outcome_iffs Let_def)
  moreover obtain h' x' where s2: "gdescs \<sigma>2 = gdescs \<sigma>" "gextras \<sigma>2 = (gextras \<sigma>)(e \<mapsto> x')"
      "Mode (gpio_config x') = GPIO_MODE_OUTPUT_PP" and r2: "r2 = 0"
    using assms s1 by (auto simp: no_os_gpio_direction_output_def gpio_call_def stm32_gpio_ops_def
        stm32_gpio_direction_output_def with_gpio_def outcome_iffs Let_def)
  ultimately show ?thesis using assms
    by (simp add: no_os_gpio_get_direction_def gpio_call_def stm32_gpio_ops_def stm32_gpio_get_direction_def
        bindm_unfold run_simps gpio_modes)
qed

end
