(* ===== verification/NoOs_Spi.thy ===== *)
theory NoOs_Spi
  imports NoOs_Gpio
begin

text \<open>
  The generic SPI interface of no-OS (\<open>api/no_os_spi.c\<close>): a table of buses, created with the
  first device on them and removed with the last, each with a mutex, and the dispatch to the
  operations of a platform, which are found through a parameter \<open>T\<close> as for the pins. The
  buffers of messages are in the memory of bytes, the descriptors are typed objects.
\<close>

section \<open>State\<close>

abbreviation (input) "SPI_MAX_BUS_NUMBER \<equiv> 8 :: nat"

datatype no_os_spi_bit_order = NO_OS_SPI_BIT_ORDER_MSB_FIRST | NO_OS_SPI_BIT_ORDER_LSB_FIRST

datatype no_os_spi_lanes = NO_OS_SPI_SINGLE_LANE | NO_OS_SPI_DUAL_LANE | NO_OS_SPI_QUAD_LANE | NO_OS_SPI_OCTO_LANE

record no_os_spi_msg =
  tx_buff :: ptr
  rx_buff :: ptr
  bytes_number :: u32
  cs_change :: bool
  cs_change_delay :: u32
  cs_delay_first :: u32
  cs_delay_last :: u32

record no_os_platform_spi_delays =
  pd_cs_delay_first :: u32
  pd_cs_delay_last :: u32

record 'x no_os_spi_init_param =
  sp_device_id :: u32
  sp_max_speed_hz :: u32
  sp_chip_select :: u8
  sp_mode :: u32
  sp_bit_order :: no_os_spi_bit_order
  sp_platform_ops :: "nat option"
  sp_platform_delays :: no_os_platform_spi_delays
  sp_extra :: 'x
  sp_parent :: ptr

record no_os_spibus_desc =
  bus_mutex :: ptr
  slave_number :: u8
  bus_device_id :: u32
  bus_max_speed_hz :: u32
  bus_mode :: u32
  bus_bit_order :: no_os_spi_bit_order
  bus_platform_ops :: "nat option"

record no_os_spi_desc =
  sd_bus :: ptr
  sd_device_id :: u32
  sd_max_speed_hz :: u32
  sd_chip_select :: u8
  sd_mode :: u32
  sd_bit_order :: no_os_spi_bit_order
  sd_platform_ops :: "nat option"
  sd_platform_delays :: no_os_platform_spi_delays
  sd_extra :: ptr
  sd_parent :: ptr

record 'h spi_state = "'h gpio_state" +
  spi_table :: "ptr list"
  buses :: "nat \<Rightarrow> no_os_spibus_desc option"
  spis :: "nat \<Rightarrow> no_os_spi_desc option"

text \<open>A null array of messages is \<open>None\<close>. A callback is a function of the firmware, named by
  its address, and its context.\<close>

record ('s, 'x) spi_platform_ops =
  spi_ops_init :: "(ptr option \<Rightarrow> 'x no_os_spi_init_param \<Rightarrow> ('s, int \<times> ptr option) cm) option"
  spi_ops_write_and_read :: "(ptr \<Rightarrow> ptr \<Rightarrow> u16 \<Rightarrow> ('s, int) cm) option"
  spi_ops_transfer :: "(ptr \<Rightarrow> no_os_spi_msg list option \<Rightarrow> u32 \<Rightarrow> ('s, int) cm) option"
  spi_ops_dma_transfer_sync :: "(ptr \<Rightarrow> no_os_spi_msg list \<Rightarrow> u32 \<Rightarrow> ('s, int) cm) option"
  spi_ops_dma_transfer_async :: "(ptr \<Rightarrow> no_os_spi_msg list \<Rightarrow> u32 \<Rightarrow> nat option \<Rightarrow> ptr \<Rightarrow> ('s, int) cm) option"
  spi_ops_remove :: "(ptr \<Rightarrow> ('s, int) cm) option"

section \<open>Buses\<close>

abbreviation (input) "sizeof_spibus \<equiv> 36 :: nat"

definition spibus_calloc :: "(('h, 'z) spi_state_scheme, ptr) cm" where
  "spibus_calloc = new_obj sizeof_spibus (\<lambda>b \<sigma>. \<sigma>\<lparr>buses := (buses \<sigma>)(b \<mapsto>
     \<lparr>bus_mutex = NULL, slave_number = 0, bus_device_id = 0, bus_max_speed_hz = 0, bus_mode = 0,
       bus_bit_order = NO_OS_SPI_BIT_ORDER_MSB_FIRST, bus_platform_ops = None\<rparr>)\<rparr>)"

definition set_bus :: "ptr \<Rightarrow> no_os_spibus_desc option \<Rightarrow> (('h, 'z) spi_state_scheme, unit) cm" where
  "set_bus p bus = modifym (\<lambda>\<sigma>. \<sigma>\<lparr>buses := (buses \<sigma>)(block_of p := bus)\<rparr>)"

text \<open>\<open>spi_table[i]\<close>\<close>

definition table_get :: "u32 \<Rightarrow> (('h, 'z) spi_state_scheme, ptr) cm" where
  "table_get i = bindm (getm spi_table) (\<lambda>t. if unat i < length t then returnm (t ! unat i) else failm Out_Of_Bounds)"

definition table_set :: "u32 \<Rightarrow> ptr \<Rightarrow> (('h, 'z) spi_state_scheme, unit) cm" where
  "table_set i p = bindm (getm spi_table) (\<lambda>t.
     if unat i < length t then modifym (\<lambda>\<sigma>. \<sigma>\<lparr>spi_table := (spi_table \<sigma>)[unat i := p]\<rparr>) else failm Out_Of_Bounds)"

definition no_os_spibus_init :: "'x no_os_spi_init_param \<Rightarrow> (('h, 'z) spi_state_scheme, int) cm" where
  "no_os_spibus_init param =
     bindm spibus_calloc (\<lambda>bus.
     if bus = NULL then returnm (- ENOMEM)
     else
       bindm (no_os_mutex_init NULL) (\<lambda>mutex.
       bindm (set_bus bus (Some \<lparr>bus_mutex = mutex, slave_number = 0, bus_device_id = sp_device_id param,
         bus_max_speed_hz = sp_max_speed_hz param, bus_mode = sp_mode param, bus_bit_order = sp_bit_order param,
         bus_platform_ops = sp_platform_ops param\<rparr>)) (\<lambda>_.
       bindm (table_set (sp_device_id param) bus) (\<lambda>_. returnm 0))))"

definition no_os_spibus_remove :: "u32 \<Rightarrow> (('h, 'z) spi_state_scheme, unit) cm" where
  "no_os_spibus_remove bus_number =
     bindm (table_get bus_number) (\<lambda>bus.
     bindm (deref buses bus) (\<lambda>b.
     let b = (if slave_number b > 0 then b\<lparr>slave_number := slave_number b - 1\<rparr> else b) in
     bindm (set_bus bus (Some b)) (\<lambda>_.
     if slave_number b = 0 then
       bindm (no_os_mutex_remove (bus_mutex b)) (\<lambda>_.
       bindm (set_bus bus None) (\<lambda>_. table_set bus_number NULL))
     else returnm ())))"

section \<open>Devices\<close>

type_synonym ('h, 'z, 'x) spi_tables = "nat \<Rightarrow> (('h, 'z) spi_state_scheme, 'x) spi_platform_ops"

definition no_os_spi_init ::
  "('h, 'z, 'x) spi_tables \<Rightarrow> ptr option \<Rightarrow> 'x no_os_spi_init_param option \<Rightarrow>
   (('h, 'z) spi_state_scheme, int \<times> ptr option) cm" where
  "no_os_spi_init T desc param =
     (case param of None \<Rightarrow> returnm (- EINVAL, desc) | Some pr \<Rightarrow>
      case sp_platform_ops pr of None \<Rightarrow> returnm (- EINVAL, desc) | Some ops \<Rightarrow>
      case spi_ops_init (T ops) of None \<Rightarrow> returnm (- ENOSYS, desc) | Some init \<Rightarrow>
      if unat (sp_device_id pr) > SPI_MAX_BUS_NUMBER then returnm (- EINVAL, desc)
      else
        bindm (table_get (sp_device_id pr)) (\<lambda>entry.
        bindm (if entry = NULL then no_os_spibus_init pr else returnm 0) (\<lambda>ret.
        if ret \<noteq> 0 then returnm (ret, desc)
        else
          bindm (init desc pr) (\<lambda>(ret, desc).
          if ret \<noteq> 0 then returnm (ret, desc)
          else
            bindm (table_get (sp_device_id pr)) (\<lambda>bus.
            bindm (case desc of None \<Rightarrow> failm Null_Deref | Some p \<Rightarrow> deref spis p) (\<lambda>d.
            bindm (deref buses bus) (\<lambda>b.
            bindm (set_bus bus (Some (b\<lparr>slave_number := slave_number b + 1\<rparr>))) (\<lambda>_.
            bindm (modifym (\<lambda>\<sigma>. \<sigma>\<lparr>spis := (spis \<sigma>)(block_of (the desc) \<mapsto>
              d\<lparr>sd_bus := bus, sd_platform_ops := Some ops, sd_parent := sp_parent pr,
                sd_platform_delays := sp_platform_delays pr\<rparr>)\<rparr>)) (\<lambda>_.
            returnm (0, desc))))))))))"

text \<open>The tests for a null descriptor and a null table of operations.\<close>

definition with_spi ::
  "ptr \<Rightarrow> (no_os_spi_desc \<Rightarrow> nat \<Rightarrow> (('h, 'z) spi_state_scheme, int) cm) \<Rightarrow> (('h, 'z) spi_state_scheme, int) cm" where
  "with_spi desc k =
     (if desc = NULL then returnm (- EINVAL)
      else bindm (deref spis desc) (\<lambda>d.
        case sd_platform_ops d of None \<Rightarrow> returnm (- EINVAL) | Some ops \<Rightarrow> k d ops))"

definition no_os_spi_remove :: "('h, 'z, 'x) spi_tables \<Rightarrow> ptr \<Rightarrow> (('h, 'z) spi_state_scheme, int) cm" where
  "no_os_spi_remove T desc =
     with_spi desc (\<lambda>d ops.
       bindm (if sd_bus d \<noteq> NULL then bindm (deref buses (sd_bus d)) (\<lambda>b. no_os_spibus_remove (bus_device_id b))
              else returnm ()) (\<lambda>_.
       case spi_ops_remove (T ops) of None \<Rightarrow> returnm (- ENOSYS) | Some remove \<Rightarrow> remove desc))"

text \<open>\<open>desc->bus->mutex\<close>\<close>

definition mutex_of :: "ptr \<Rightarrow> (('h, 'z) spi_state_scheme, ptr) cm" where
  "mutex_of desc = bindm (deref spis desc) (\<lambda>d. bindm (deref buses (sd_bus d)) (\<lambda>b. returnm (bus_mutex b)))"

definition no_os_spi_write_and_read ::
  "('h, 'z, 'x) spi_tables \<Rightarrow> ptr \<Rightarrow> ptr \<Rightarrow> u16 \<Rightarrow> (('h, 'z) spi_state_scheme, int) cm" where
  "no_os_spi_write_and_read T desc data n =
     with_spi desc (\<lambda>d ops.
       case spi_ops_write_and_read (T ops) of None \<Rightarrow> returnm (- ENOSYS) | Some f \<Rightarrow>
       bindm (mutex_of desc) (\<lambda>m.
       bindm (no_os_mutex_lock m) (\<lambda>_.
       bindm (f desc data n) (\<lambda>ret.
       bindm (mutex_of desc) (\<lambda>m.
       bindm (no_os_mutex_unlock m) (\<lambda>_. returnm ret))))))"

text \<open>The loop over the messages for a platform without \<open>transfer\<close>, from message \<open>i\<close> on.\<close>

fun transfer_loop ::
  "('h, 'z, 'x) spi_tables \<Rightarrow> ptr \<Rightarrow> no_os_spi_msg list option \<Rightarrow> nat \<Rightarrow> nat \<Rightarrow> int \<Rightarrow> (('h, 'z) spi_state_scheme, int) cm" where
  "transfer_loop T desc msgs i 0 ret = returnm ret"
| "transfer_loop T desc msgs i (Suc n) ret =
     (case msgs of None \<Rightarrow> failm Null_Deref | Some ms \<Rightarrow>
      if i < length ms then
        if rx_buff (ms ! i) \<noteq> tx_buff (ms ! i) \<or> tx_buff (ms ! i) = NULL then returnm (- EINVAL)
        else
          bindm (no_os_spi_write_and_read T desc (rx_buff (ms ! i)) (ucast (bytes_number (ms ! i)))) (\<lambda>ret.
          if ret < 0 then returnm ret else transfer_loop T desc msgs (Suc i) n ret)
      else failm Out_Of_Bounds)"

definition no_os_spi_transfer ::
  "('h, 'z, 'x) spi_tables \<Rightarrow> ptr \<Rightarrow> no_os_spi_msg list option \<Rightarrow> u32 \<Rightarrow> (('h, 'z) spi_state_scheme, int) cm" where
  "no_os_spi_transfer T desc msgs len =
     with_spi desc (\<lambda>d ops.
       case spi_ops_transfer (T ops) of Some f \<Rightarrow> f desc msgs len | None \<Rightarrow>
       bindm (mutex_of desc) (\<lambda>m.
       bindm (no_os_mutex_lock m) (\<lambda>_.
       bindm (transfer_loop T desc msgs 0 (unat len) 0) (\<lambda>ret.
       bindm (mutex_of desc) (\<lambda>m.
       bindm (no_os_mutex_unlock m) (\<lambda>_. returnm ret))))))"

definition no_os_spi_transfer_dma_sync ::
  "('h, 'z, 'x) spi_tables \<Rightarrow> ptr \<Rightarrow> no_os_spi_msg list option \<Rightarrow> u32 \<Rightarrow> (('h, 'z) spi_state_scheme, int) cm" where
  "no_os_spi_transfer_dma_sync T desc msgs len =
     with_spi desc (\<lambda>d ops.
       if msgs = None \<or> len = 0 then returnm (- EINVAL)
       else case spi_ops_dma_transfer_sync (T ops) of Some f \<Rightarrow> f desc (the msgs) len | None \<Rightarrow> returnm (- ENOSYS))"

definition no_os_spi_transfer_dma_async ::
  "('h, 'z, 'x) spi_tables \<Rightarrow> ptr \<Rightarrow> no_os_spi_msg list option \<Rightarrow> u32 \<Rightarrow> nat option \<Rightarrow> ptr \<Rightarrow>
   (('h, 'z) spi_state_scheme, int) cm" where
  "no_os_spi_transfer_dma_async T desc msgs len callback ctx =
     with_spi desc (\<lambda>d ops.
       if msgs = None \<or> len = 0 then returnm (- EINVAL)
       else case spi_ops_dma_transfer_async (T ops) of
           Some f \<Rightarrow> f desc (the msgs) len callback ctx | None \<Rightarrow> returnm (- ENOSYS))"

end
