(* ===== verification/Stm32_Spi.thy ===== *)
theory Stm32_Spi
  imports NoOs_Spi
begin

text \<open>
  The SPI platform for the STM32 (\<open>stm32_spi.c\<close>, as configured for the STM32L4S5: three SPI
  peripherals, \<open>HAL_TIM_MODULE_ENABLED\<close>, transfers through the DMA functions of the HAL).
  The HAL, the delays and the DMA and PWM layers of no-OS act on the hardware state and are
  a record of operations; the chip select is a pin of the model. Busy waiting has a fuel.
\<close>

section \<open>State\<close>

record SPI_InitTypeDef =
  si_Mode :: u32
  si_Direction :: u32
  si_DataSize :: u32
  si_CLKPolarity :: u32
  si_CLKPhase :: u32
  si_NSS :: u32
  si_BaudRatePrescaler :: u32
  si_FirstBit :: u32
  si_TIMode :: u32
  si_CRCCalculation :: u32
  si_CRCPolynomial :: u32

text \<open>What a platform asks for: \<open>get_input_clock\<close> is the value the function returns.\<close>

record stm32_spi_init_param =
  chip_select_port :: u32
  get_input_clock :: "u32 option"
  si_alternate :: u32
  si_dma_init :: bool
  si_rxdma_ch :: bool
  si_txdma_ch :: bool
  si_pwm_init :: bool
  si_tx_pwm_init :: bool

text \<open>\<open>Instance\<close> is the address of the peripheral, 0 when it is not set; a DMA channel is named
  by its index. \<open>csip\<close> always points to \<open>csip_extra\<close>.\<close>

record stm32_spi_desc =
  Instance :: u32
  hspi_Init :: SPI_InitTypeDef
  input_clock :: u32
  ss_alternate :: u32
  chip_select :: ptr
  dma_desc :: ptr
  rxdma_ch :: "nat option"
  txdma_ch :: "nat option"
  csip_extra :: stm32_gpio_init_param
  csip :: no_os_gpio_init_param
  dma_done :: bool
  dma_user_cb :: "nat option"
  dma_user_ctx :: ptr
  rx_ch_xfer :: ptr
  tx_ch_xfer :: ptr
  pwm_desc :: ptr
  tx_pwm_desc :: ptr

datatype dma_end = Mem ptr | SPI_DR u32

datatype no_os_dma_xfer_type = MEM_TO_DEV | DEV_TO_MEM

text \<open>\<open>xf_cb\<close>: the completion callback is \<open>stm32_spi_dma_callback\<close>, with the descriptor.\<close>

record no_os_dma_xfer_desc =
  xf_src :: dma_end
  xf_dst :: dma_end
  xf_type :: no_os_dma_xfer_type
  xf_length :: u32
  xf_cb :: "ptr option"

record 'h stm32_state = "'h spi_state" +
  sdescs :: "nat \<Rightarrow> stm32_spi_desc option"
  xfers :: "nat \<Rightarrow> no_os_dma_xfer_desc list option"
  last_slave_id :: u64

text \<open>The operations below. HAL calls return \<open>HAL_OK\<close> (0) or another status.\<close>

record 'h spi_below =
  hal_spi_init :: "u32 \<Rightarrow> SPI_InitTypeDef \<Rightarrow> ('h, int) cm"
  hal_spi_enable :: "u32 \<Rightarrow> bool \<Rightarrow> ('h, unit) cm"
  hal_spi_deinit :: "u32 \<Rightarrow> ('h, unit) cm"
  hal_transmit_receive_dma :: "u32 \<Rightarrow> u8 list \<Rightarrow> ('h, int) cm"
  hal_transmit_dma :: "u32 \<Rightarrow> u8 list \<Rightarrow> ('h, int) cm"
  hal_receive_dma :: "u32 \<Rightarrow> nat \<Rightarrow> ('h, int) cm"
  hal_spi_ready :: "u32 \<Rightarrow> ('h, bool) cm"      \<comment> \<open>\<open>hspi.State == HAL_SPI_STATE_READY\<close>\<close>
  hal_spi_received :: "u32 \<Rightarrow> ('h, u8 list) cm" \<comment> \<open>what the DMA stored meanwhile\<close>
  set_DMAEN :: "u32 \<Rightarrow> u32 \<Rightarrow> bool \<Rightarrow> ('h, unit) cm" \<comment> \<open>bits of \<open>CR2\<close>\<close>
  read_DR :: "u32 \<Rightarrow> ('h, unit) cm"
  write_BSRR :: "nat \<Rightarrow> u32 \<Rightarrow> ('h, unit) cm"
  udelay :: "u32 \<Rightarrow> ('h, unit) cm"
  ms_delay :: "u32 \<Rightarrow> ('h, unit) cm"
  dma_init :: "('h, int \<times> ptr) cm"
  dma_bind_channel :: "ptr \<Rightarrow> nat \<Rightarrow> ('h, unit) cm"
  dma_remove :: "ptr \<Rightarrow> ('h, int) cm"
  dma_config_xfer :: "ptr \<Rightarrow> no_os_dma_xfer_desc list \<Rightarrow> u32 \<Rightarrow> nat option \<Rightarrow> ('h, int) cm"
  dma_xfer_start :: "ptr \<Rightarrow> nat option \<Rightarrow> ('h, int) cm"
  dma_xfer_abort :: "ptr \<Rightarrow> nat option \<Rightarrow> ('h, int) cm"
  pwm_init :: "('h, int \<times> ptr) cm"
  pwm_enable :: "ptr \<Rightarrow> ('h, int) cm"
  pwm_disable :: "ptr \<Rightarrow> ('h, int) cm"
  pwm_remove :: "ptr \<Rightarrow> ('h, int) cm"

abbreviation (input) "HAL_OK \<equiv> 0 :: int"
abbreviation (input) "HAL_TIMEOUT \<equiv> 3 :: int"
abbreviation (input) "STM32_GPIO_OPS \<equiv> 0 :: nat"
abbreviation (input) "NO_OS_GPIO_HIGH \<equiv> 1 :: u8"
abbreviation (input) "SPI_CR2_RXDMAEN \<equiv> 1 :: u32"
abbreviation (input) "SPI_CR2_TXDMAEN \<equiv> 2 :: u32"

definition SPI_BASE :: "u32 \<Rightarrow> u32 option" where
  "SPI_BASE device_id =
     (if device_id = 1 then Some 0x40013000 else if device_id = 2 then Some 0x40003800
      else if device_id = 3 then Some 0x40003C00 else None)"

section \<open>Configuration\<close>

text \<open>The register value for a quotient of input clock and maximal speed.\<close>

definition baud_prescaler :: "u32 \<Rightarrow> u32" where
  "baud_prescaler d =
     (if d \<le> 2 then 0x00 else if d \<le> 4 then 0x08 else if d \<le> 8 then 0x10 else if d \<le> 16 then 0x18
      else if d \<le> 32 then 0x20 else if d \<le> 64 then 0x28 else if d \<le> 128 then 0x30 else 0x38)"

definition prescaler_for :: "u32 \<Rightarrow> u32 \<Rightarrow> u32" where
  "prescaler_for clk max_speed = (if max_speed \<noteq> 0 then baud_prescaler (clk div max_speed) else 0x28)"

definition get_sdesc :: "ptr \<Rightarrow> (('h, 'z) stm32_state_scheme, stm32_spi_desc) cm" where
  "get_sdesc desc = bindm (deref spis desc) (\<lambda>d. deref sdescs (sd_extra d))"

definition set_sdesc :: "ptr \<Rightarrow> stm32_spi_desc \<Rightarrow> (('h, 'z) stm32_state_scheme, unit) cm" where
  "set_sdesc p s = modifym (\<lambda>\<sigma>. \<sigma>\<lparr>sdescs := (sdescs \<sigma>)(block_of p \<mapsto> s)\<rparr>)"

text \<open>The registers the HAL writes for a device.\<close>

definition spi_registers :: "no_os_spi_desc \<Rightarrow> u32 \<Rightarrow> SPI_InitTypeDef" where
  "spi_registers d prescaler = \<lparr>si_Mode = 0x104, si_Direction = 0, si_DataSize = 0x700,
     si_CLKPolarity = (if sd_mode d AND 0x02 \<noteq> 0 then 0x2 else 0),
     si_CLKPhase = (if sd_mode d AND 0x01 \<noteq> 0 then 0x1 else 0),
     si_NSS = 0x200, si_BaudRatePrescaler = prescaler,
     si_FirstBit = (if sd_bit_order d = NO_OS_SPI_BIT_ORDER_LSB_FIRST then 0x80 else 0),
     si_TIMode = 0, si_CRCCalculation = 0, si_CRCPolynomial = 10\<rparr>"

definition stm32_spi_config :: "'h spi_below \<Rightarrow> ptr \<Rightarrow> (('h, 'z) stm32_state_scheme, int) cm" where
  "stm32_spi_config B desc =
     bindm (deref spis desc) (\<lambda>d. bindm (deref sdescs (sd_extra d)) (\<lambda>s.
     let prescaler = prescaler_for (input_clock s) (sd_max_speed_hz d) in
     case SPI_BASE (sd_device_id d) of None \<Rightarrow> returnm (- EINVAL) | Some base \<Rightarrow>
       bindm (set_sdesc (sd_extra d) (s\<lparr>Instance := base, hspi_Init := spi_registers d prescaler\<rparr>)) (\<lambda>_.
       bindm (on_hw (hal_spi_init B base (spi_registers d prescaler))) (\<lambda>ret.
       if ret \<noteq> HAL_OK then returnm (- EIO)
       else bindm (on_hw (hal_spi_enable B base True)) (\<lambda>_. returnm 0)))))"

section \<open>Setting up and removing\<close>

abbreviation (input) "sizeof_spi_desc \<equiv> 48 :: nat"
abbreviation (input) "sizeof_stm32_spi_desc \<equiv> 200 :: nat"

definition spi_desc_calloc :: "(('h, 'z) stm32_state_scheme, ptr) cm" where
  "spi_desc_calloc = new_obj sizeof_spi_desc (\<lambda>b \<sigma>. \<sigma>\<lparr>spis := (spis \<sigma>)(b \<mapsto>
     \<lparr>sd_bus = NULL, sd_device_id = 0, sd_max_speed_hz = 0, sd_chip_select = 0, sd_mode = 0,
       sd_bit_order = NO_OS_SPI_BIT_ORDER_MSB_FIRST, sd_platform_ops = None,
       sd_platform_delays = \<lparr>pd_cs_delay_first = 0, pd_cs_delay_last = 0\<rparr>, sd_extra = NULL, sd_parent = NULL\<rparr>)\<rparr>)"

definition zero_sdesc :: stm32_spi_desc where
  "zero_sdesc = \<lparr>Instance = 0,
     hspi_Init = \<lparr>si_Mode = 0, si_Direction = 0, si_DataSize = 0, si_CLKPolarity = 0, si_CLKPhase = 0, si_NSS = 0,
       si_BaudRatePrescaler = 0, si_FirstBit = 0, si_TIMode = 0, si_CRCCalculation = 0, si_CRCPolynomial = 0\<rparr>,
     input_clock = 0, ss_alternate = 0, chip_select = NULL, dma_desc = NULL, rxdma_ch = None, txdma_ch = None,
     csip_extra = \<lparr>gx_mode = 0, gx_speed = 0, gx_alternate = 0\<rparr>,
     csip = \<lparr>gp_port = 0, gp_number = 0, gp_pull = NO_OS_PULL_NONE, gp_platform_ops = None, gp_extra = None\<rparr>,
     dma_done = False, dma_user_cb = None, dma_user_ctx = NULL, rx_ch_xfer = NULL, tx_ch_xfer = NULL,
     pwm_desc = NULL, tx_pwm_desc = NULL\<rparr>"

definition stm32_spi_desc_calloc :: "(('h, 'z) stm32_state_scheme, ptr) cm" where
  "stm32_spi_desc_calloc = new_obj sizeof_stm32_spi_desc (\<lambda>b \<sigma>. \<sigma>\<lparr>sdescs := (sdescs \<sigma>)(b \<mapsto> zero_sdesc)\<rparr>)"

definition spi_desc_free :: "ptr \<Rightarrow> (('h, 'z) stm32_state_scheme, unit) cm" where
  "spi_desc_free p =
     (if p = NULL then returnm ()
      else bindm (deref spis p) (\<lambda>_. modifym (\<lambda>\<sigma>. \<sigma>\<lparr>spis := (spis \<sigma>)(block_of p := None)\<rparr>)))"

definition stm32_spi_desc_free :: "ptr \<Rightarrow> (('h, 'z) stm32_state_scheme, unit) cm" where
  "stm32_spi_desc_free p =
     (if p = NULL then returnm ()
      else bindm (deref sdescs p) (\<lambda>_. modifym (\<lambda>\<sigma>. \<sigma>\<lparr>sdescs := (sdescs \<sigma>)(block_of p := None)\<rparr>)))"

type_synonym ('h, 'z) gpio_tables = "nat \<Rightarrow> ('h, 'z) stm32_state_scheme gpio_platform_ops"

text \<open>The parameters for the chip select pin, as the descriptor holds them.\<close>

definition csip_of :: "stm32_spi_desc \<Rightarrow> no_os_gpio_init_param" where
  "csip_of s = (csip s)\<lparr>gp_extra := Some (csip_extra s)\<rparr>"

definition get_chip_select ::
  "('h, 'z) gpio_tables \<Rightarrow> ptr \<Rightarrow> (('h, 'z) stm32_state_scheme, int) cm" where
  "get_chip_select G p =
     bindm (deref sdescs p) (\<lambda>s.
     bindm (no_os_gpio_get G (Some (chip_select s)) (Some (csip_of s))) (\<lambda>(ret, out).
     bindm (deref sdescs p) (\<lambda>s.
     bindm (set_sdesc p (s\<lparr>chip_select := the out\<rparr>)) (\<lambda>_. returnm ret))))"

text \<open>The labels at the end of \<open>stm32_spi_init\<close>.\<close>

definition spi_init_error :: "'h spi_below \<Rightarrow> ptr option \<Rightarrow> ptr \<Rightarrow> ptr \<Rightarrow> int \<Rightarrow> (('h, 'z) stm32_state_scheme, int \<times> ptr option) cm" where
  "spi_init_error B desc spi_desc sdesc ret =
     bindm (deref sdescs sdesc) (\<lambda>s.
     bindm (on_hw (dma_remove B (dma_desc s))) (\<lambda>_.
     bindm (spi_desc_free spi_desc) (\<lambda>_.
     bindm (stm32_spi_desc_free sdesc) (\<lambda>_. returnm (ret, desc)))))"

definition spi_init_error_pwm :: "'h spi_below \<Rightarrow> ptr option \<Rightarrow> ptr \<Rightarrow> ptr \<Rightarrow> int \<Rightarrow> (('h, 'z) stm32_state_scheme, int \<times> ptr option) cm" where
  "spi_init_error_pwm B desc spi_desc sdesc ret =
     bindm (deref sdescs sdesc) (\<lambda>s.
     bindm (on_hw (pwm_remove B (pwm_desc s))) (\<lambda>_.
     bindm (on_hw (pwm_remove B (tx_pwm_desc s))) (\<lambda>_.
     spi_init_error B desc spi_desc sdesc ret)))"

text \<open>The DMA controller and its channels, when the parameters ask for them.\<close>

definition spi_init_dma :: "'h spi_below \<Rightarrow> stm32_spi_init_param \<Rightarrow> ptr \<Rightarrow> (('h, 'z) stm32_state_scheme, int) cm" where
  "spi_init_dma B sinit sdesc =
     (if si_dma_init sinit then
        bindm (on_hw (dma_init B)) (\<lambda>(ret, dma).
        bindm (deref sdescs sdesc) (\<lambda>s.
        bindm (set_sdesc sdesc (s\<lparr>dma_desc := dma\<rparr>)) (\<lambda>_.
        if ret \<noteq> 0 then returnm ret
        else
          bindm (if si_rxdma_ch sinit then on_hw (dma_bind_channel B dma 0) else returnm ()) (\<lambda>_.
          bindm (if si_txdma_ch sinit then on_hw (dma_bind_channel B dma 1) else returnm ()) (\<lambda>_.
          bindm (set_sdesc sdesc (s\<lparr>dma_desc := dma, rxdma_ch := (if si_rxdma_ch sinit then Some 0 else rxdma_ch s),
            txdma_ch := (if si_txdma_ch sinit then Some 1 else txdma_ch s)\<rparr>)) (\<lambda>_. returnm 0))))))
      else returnm 0)"

text \<open>One of the two PWMs: the label to go to on an error of its \<open>init\<close> or of its \<open>disable\<close>.\<close>

datatype spi_error = Go_Error int | Go_Error_Pwm int

definition spi_init_pwm ::
  "'h spi_below \<Rightarrow> bool \<Rightarrow> ptr \<Rightarrow> (stm32_spi_desc \<Rightarrow> ptr \<Rightarrow> stm32_spi_desc) \<Rightarrow>
   (('h, 'z) stm32_state_scheme, spi_error option) cm" where
  "spi_init_pwm B wanted sdesc put =
     (if wanted then
        bindm (on_hw (pwm_init B)) (\<lambda>(ret, pwm).
        bindm (deref sdescs sdesc) (\<lambda>s.
        bindm (set_sdesc sdesc (put s pwm)) (\<lambda>_.
        if ret \<noteq> 0 then returnm (Some (Go_Error ret))
        else
          bindm (on_hw (pwm_disable B pwm)) (\<lambda>ret.
          returnm (if ret \<noteq> 0 then Some (Go_Error_Pwm ret) else None)))))
      else returnm None)"

text \<open>What is set up between the descriptor and the end, up to the first error.\<close>

definition spi_init_steps ::
  "'h spi_below \<Rightarrow> ('h, 'z) gpio_tables \<Rightarrow> stm32_spi_init_param option no_os_spi_init_param \<Rightarrow> ptr \<Rightarrow> ptr \<Rightarrow>
   (('h, 'z) stm32_state_scheme, spi_error option) cm" where
  "spi_init_steps B G param spi_desc sdesc =
     (let sinit = the (sp_extra param);
          go = (\<lambda>ret. if ret \<noteq> 0 then Some (Go_Error ret) else None);
          next = (\<lambda>e k. case e of None \<Rightarrow> k | Some _ \<Rightarrow> returnm e) in
      bindm (deref sdescs sdesc) (\<lambda>s.
      bindm (set_sdesc sdesc (case get_input_clock sinit of None \<Rightarrow> s | Some clk \<Rightarrow> s\<lparr>input_clock := clk\<rparr>)) (\<lambda>_.
      bindm (stm32_spi_config B spi_desc) (\<lambda>ret. next (go ret) (
      bindm (spi_init_dma B sinit sdesc) (\<lambda>ret. next (go ret) (
      bindm (spi_init_pwm B (si_pwm_init sinit) sdesc (\<lambda>s p. s\<lparr>pwm_desc := p\<rparr>)) (\<lambda>e. next e (
      bindm (spi_init_pwm B (si_tx_pwm_init sinit) sdesc (\<lambda>s p. s\<lparr>tx_pwm_desc := p\<rparr>)) (\<lambda>e. next e (
      bindm (deref sdescs sdesc) (\<lambda>s.
      bindm (set_sdesc sdesc (s\<lparr>csip_extra := (csip_extra s)\<lparr>gx_mode := GPIO_MODE_OUTPUT_PP, gx_speed := GPIO_SPEED_FREQ_LOW\<rparr>,
        csip := \<lparr>gp_port = sint (chip_select_port sinit), gp_number = uint (sp_chip_select param), gp_pull = NO_OS_PULL_NONE,
          gp_platform_ops = Some STM32_GPIO_OPS, gp_extra = None\<rparr>,
        ss_alternate := si_alternate sinit\<rparr>)) (\<lambda>_.
      bindm (get_chip_select G sdesc) (\<lambda>ret. next (go ret) (
      bindm (deref sdescs sdesc) (\<lambda>s.
      bindm (no_os_gpio_direction_output G (chip_select s) NO_OS_GPIO_HIGH) (\<lambda>ret. returnm (go ret))))))))))))))))))"

text \<open>Where the function goes from there.\<close>

definition spi_init_end ::
  "'h spi_below \<Rightarrow> ptr option \<Rightarrow> ptr \<Rightarrow> ptr \<Rightarrow> spi_error option \<Rightarrow> (('h, 'z) stm32_state_scheme, int \<times> ptr option) cm" where
  "spi_init_end B desc spi_desc sdesc e =
     (case e of
        None \<Rightarrow> returnm (0, Some spi_desc)
      | Some err \<Rightarrow> (case err of
          Go_Error ret \<Rightarrow> spi_init_error B desc spi_desc sdesc ret
        | Go_Error_Pwm ret \<Rightarrow> spi_init_error_pwm B desc spi_desc sdesc ret))"

text \<open>The function from the second allocation on.\<close>

definition spi_init_rest ::
  "'h spi_below \<Rightarrow> ('h, 'z) gpio_tables \<Rightarrow> ptr option \<Rightarrow> stm32_spi_init_param option no_os_spi_init_param \<Rightarrow> ptr \<Rightarrow> ptr \<Rightarrow>
   (('h, 'z) stm32_state_scheme, int \<times> ptr option) cm" where
  "spi_init_rest B G desc param spi_desc sdesc =
     bindm (deref spis spi_desc) (\<lambda>d.
     bindm (modifym (\<lambda>\<sigma>. \<sigma>\<lparr>spis := (spis \<sigma>)(block_of spi_desc \<mapsto> d\<lparr>sd_extra := sdesc,
       sd_device_id := sp_device_id param, sd_max_speed_hz := sp_max_speed_hz param, sd_mode := sp_mode param,
       sd_bit_order := sp_bit_order param, sd_chip_select := sp_chip_select param\<rparr>)\<rparr>)) (\<lambda>_.
     if sp_extra param = None then failm Null_Deref
     else bindm (spi_init_steps B G param spi_desc sdesc) (spi_init_end B desc spi_desc sdesc)))"

definition stm32_spi_init ::
  "'h spi_below \<Rightarrow> ('h, 'z) gpio_tables \<Rightarrow> ptr option \<Rightarrow> stm32_spi_init_param option no_os_spi_init_param \<Rightarrow>
   (('h, 'z) stm32_state_scheme, int \<times> ptr option) cm" where
  "stm32_spi_init B G desc param =
     (if desc = None then returnm (- EINVAL, desc)
      else
        bindm spi_desc_calloc (\<lambda>spi_desc.
        if spi_desc = NULL then returnm (- ENOMEM, desc)
        else
          bindm stm32_spi_desc_calloc (\<lambda>sdesc.
          if sdesc = NULL then spi_init_error B desc spi_desc sdesc (- ENOMEM)
          else spi_init_rest B G desc param spi_desc sdesc)))"

text \<open>What is undone, with the descriptor of the platform at hand.\<close>

definition spi_remove_rest ::
  "'h spi_below \<Rightarrow> ('h, 'z) gpio_tables \<Rightarrow> ptr \<Rightarrow> ptr \<Rightarrow> stm32_spi_desc \<Rightarrow> (('h, 'z) stm32_state_scheme, int) cm" where
  "spi_remove_rest B G desc extra s =
     bindm (on_hw (pwm_remove B (pwm_desc s))) (\<lambda>_.
     bindm (on_hw (pwm_remove B (tx_pwm_desc s))) (\<lambda>_.
     bindm (on_hw (dma_remove B (dma_desc s))) (\<lambda>_.
     bindm (on_hw (hal_spi_enable B (Instance s) False)) (\<lambda>_.
     bindm (on_hw (hal_spi_deinit B (Instance s))) (\<lambda>_.
     bindm (no_os_gpio_remove G (chip_select s)) (\<lambda>_.
     bindm (stm32_spi_desc_free extra) (\<lambda>_.
     bindm (spi_desc_free desc) (\<lambda>_. returnm 0))))))))"

definition stm32_spi_remove ::
  "'h spi_below \<Rightarrow> ('h, 'z) gpio_tables \<Rightarrow> ptr \<Rightarrow> (('h, 'z) stm32_state_scheme, int) cm" where
  "stm32_spi_remove B G desc =
     (if desc = NULL then returnm (- EINVAL)
      else
        bindm (deref spis desc) (\<lambda>d.
        if sd_extra d = NULL then returnm (- EINVAL)
        else bindm (deref sdescs (sd_extra d)) (spi_remove_rest B G desc (sd_extra d))))"

definition stm32_spi_altrnate_cs_enable ::
  "('h, 'z) gpio_tables \<Rightarrow> ptr \<Rightarrow> bool \<Rightarrow> (('h, 'z) stm32_state_scheme, int) cm" where
  "stm32_spi_altrnate_cs_enable G desc enable =
     bindm (deref spis desc) (\<lambda>d. bindm (deref sdescs (sd_extra d)) (\<lambda>s.
     bindm (no_os_gpio_remove G (chip_select s)) (\<lambda>_.
     bindm (set_sdesc (sd_extra d) (s\<lparr>chip_select := NULL,
       csip_extra := (if enable then (csip_extra s)\<lparr>gx_mode := GPIO_MODE_AF_PP, gx_alternate := ss_alternate s\<rparr>
                      else (csip_extra s)\<lparr>gx_mode := GPIO_MODE_OUTPUT_PP\<rparr>)\<rparr>)) (\<lambda>_.
     bindm (get_chip_select G (sd_extra d)) (\<lambda>ret.
     if ret \<noteq> 0 then returnm ret
     else
       bindm (deref sdescs (sd_extra d)) (\<lambda>s.
       bindm (no_os_gpio_direction_output G (chip_select s) NO_OS_GPIO_HIGH) (\<lambda>ret.
       if ret \<noteq> 0 then bindm (no_os_gpio_remove G (chip_select s)) (\<lambda>_. returnm ret)
       else returnm 0)))))))"

section \<open>Transfers\<close>

text \<open>\<open>while (sdesc->hspi.State != HAL_SPI_STATE_READY);\<close>\<close>

fun ready_wait :: "'h spi_below \<Rightarrow> nat \<Rightarrow> u32 \<Rightarrow> ('h, unit) cm" where
  "ready_wait B fuel inst =
     bindm (hal_spi_ready B inst) (\<lambda>ready.
     if ready then returnm ()
     else case fuel of 0 \<Rightarrow> failm Diverges | Suc fuel \<Rightarrow> ready_wait B fuel inst)"

declare ready_wait.simps [simp del]

text \<open>The HAL call for a message, the wait for its end, and the bytes the DMA has stored. The
  length is passed as a \<open>uint16_t\<close>.\<close>

definition spi_exchange ::
  "'h spi_below \<Rightarrow> nat \<Rightarrow> u32 \<Rightarrow> no_os_spi_msg \<Rightarrow> (('h, 'z) stm32_state_scheme, int) cm" where
  "spi_exchange B fuel inst msg =
     (let n = unat (ucast (bytes_number msg) :: u16) in
      bindm (if tx_buff msg \<noteq> NULL then read_bytes (tx_buff msg) n else returnm []) (\<lambda>tx.
      bindm (on_hw (if tx_buff msg \<noteq> NULL \<and> rx_buff msg \<noteq> NULL then hal_transmit_receive_dma B inst tx
                    else if tx_buff msg \<noteq> NULL then hal_transmit_dma B inst tx
                    else hal_receive_dma B inst n)) (\<lambda>ret.
      if ret \<noteq> HAL_OK then returnm (if ret = HAL_TIMEOUT then - ETIMEDOUT else - EIO)
      else
        bindm (on_hw (ready_wait B fuel inst)) (\<lambda>_.
        if rx_buff msg \<noteq> NULL then
          bindm (on_hw (hal_spi_received B inst)) (\<lambda>rx.
          bindm (write_bytes (rx_buff msg) (take n rx)) (\<lambda>_. returnm ret))
        else returnm ret))))"

definition delay_if :: "'h spi_below \<Rightarrow> u32 \<Rightarrow> (('h, 'z) stm32_state_scheme, unit) cm" where
  "delay_if B us = (if us \<noteq> 0 then on_hw (udelay B us) else returnm ())"

text \<open>The loop over the messages: \<open>gdesc\<close> is the pin the chip select was when it began.\<close>

fun spi_msg_loop ::
  "'h spi_below \<Rightarrow> nat \<Rightarrow> stm32_spi_desc \<Rightarrow> stm32_gpio_desc \<Rightarrow> int \<Rightarrow> no_os_spi_msg list \<Rightarrow> nat \<Rightarrow>
   (('h, 'z) stm32_state_scheme, int) cm" where
  "spi_msg_loop B fuel s gdesc number msgs 0 = returnm 0"
| "spi_msg_loop B fuel s gdesc number [] (Suc n) = failm Out_Of_Bounds"
| "spi_msg_loop B fuel s gdesc number (msg # msgs) (Suc n) =
     (if tx_buff msg = NULL \<and> rx_buff msg = NULL then returnm (- EINVAL)
      else
        bindm (pin_mask number) (\<lambda>pin.
        bindm (on_hw (write_BSRR B (sg_port gdesc) (push_bit 16 pin))) (\<lambda>_.
        bindm (delay_if B (cs_delay_first msg)) (\<lambda>_.
        bindm (spi_exchange B fuel (Instance s) msg) (\<lambda>ret.
        bindm (delay_if B (cs_delay_last msg)) (\<lambda>_.
        bindm (if cs_change msg then on_hw (write_BSRR B (sg_port gdesc) pin) else returnm ()) (\<lambda>_.
        bindm (delay_if B (cs_change_delay msg)) (\<lambda>_.
        if ret \<noteq> 0 then returnm ret else spi_msg_loop B fuel s gdesc number msgs n))))))))"

definition slave_id_of :: "u32 \<Rightarrow> int \<Rightarrow> u64" where
  "slave_id_of inst number = push_bit 32 (ucast inst) OR word_of_int number"

definition stm32_spi_transfer ::
  "'h spi_below \<Rightarrow> nat \<Rightarrow> ptr \<Rightarrow> no_os_spi_msg list option \<Rightarrow> u32 \<Rightarrow> (('h, 'z) stm32_state_scheme, int) cm" where
  "stm32_spi_transfer B fuel desc msgs len =
     (if desc = NULL then returnm (- EINVAL)
      else
        bindm (deref spis desc) (\<lambda>d.
        if sd_extra d = NULL \<or> msgs = None then returnm (- EINVAL)
        else
          bindm (deref sdescs (sd_extra d)) (\<lambda>s.
          bindm (deref gdescs (chip_select s)) (\<lambda>cs.
          let slave_id = slave_id_of (Instance s) (gd_number cs) in
          bindm (getm last_slave_id) (\<lambda>last.
          bindm (if slave_id \<noteq> last
                 then bindm (modifym (\<lambda>\<sigma>. \<sigma>\<lparr>last_slave_id := slave_id\<rparr>)) (\<lambda>_. stm32_spi_config B desc)
                 else returnm 0) (\<lambda>ret.
          if ret \<noteq> 0 then returnm ret
          else
            if len = 0 then returnm 0
            else
              bindm (deref sdescs (sd_extra d)) (\<lambda>s.
              bindm (deref gextras (gd_extra cs)) (\<lambda>gdesc.
              spi_msg_loop B fuel s gdesc (gd_number cs) (the msgs) (unat len)))))))))"

definition stm32_spi_write_and_read ::
  "'h spi_below \<Rightarrow> nat \<Rightarrow> ptr \<Rightarrow> ptr \<Rightarrow> u16 \<Rightarrow> (('h, 'z) stm32_state_scheme, int) cm" where
  "stm32_spi_write_and_read B fuel desc data n =
     (let msg = \<lparr>tx_buff = data, rx_buff = data, bytes_number = ucast n, cs_change = True, cs_change_delay = 0,
           cs_delay_first = 0, cs_delay_last = 0\<rparr> in
      if desc = NULL then returnm (- EINVAL)
      else
        bindm (deref spis desc) (\<lambda>d.
        if sd_extra d = NULL \<or> data = NULL then returnm (- EINVAL)
        else if n = 0 then returnm 0
        else stm32_spi_transfer B fuel desc (Some [msg]) 1))"

section \<open>Transfers by DMA\<close>

abbreviation (input) "sizeof_xfer_desc \<equiv> 40 :: nat"

definition zero_xfer :: no_os_dma_xfer_desc where
  "zero_xfer = \<lparr>xf_src = Mem NULL, xf_dst = Mem NULL, xf_type = MEM_TO_DEV, xf_length = 0, xf_cb = None\<rparr>"

definition xfer_calloc :: "nat \<Rightarrow> (('h, 'z) stm32_state_scheme, ptr) cm" where
  "xfer_calloc n = new_obj (n * sizeof_xfer_desc) (\<lambda>b \<sigma>. \<sigma>\<lparr>xfers := (xfers \<sigma>)(b \<mapsto> replicate n zero_xfer)\<rparr>)"

definition xfer_free :: "ptr \<Rightarrow> (('h, 'z) stm32_state_scheme, unit) cm" where
  "xfer_free p =
     (if p = NULL then returnm ()
      else bindm (deref xfers p) (\<lambda>_. modifym (\<lambda>\<sigma>. \<sigma>\<lparr>xfers := (xfers \<sigma>)(block_of p := None)\<rparr>)))"

definition tx_xfer_of :: "u32 \<Rightarrow> ptr option \<Rightarrow> no_os_spi_msg \<Rightarrow> no_os_dma_xfer_desc" where
  "tx_xfer_of inst cb msg = \<lparr>xf_src = Mem (tx_buff msg), xf_dst = SPI_DR inst, xf_type = MEM_TO_DEV,
     xf_length = bytes_number msg, xf_cb = None\<rparr>"

definition rx_xfer_of :: "u32 \<Rightarrow> ptr option \<Rightarrow> no_os_spi_msg \<Rightarrow> no_os_dma_xfer_desc" where
  "rx_xfer_of inst cb msg = \<lparr>xf_src = SPI_DR inst, xf_dst = Mem (rx_buff msg), xf_type = DEV_TO_MEM,
     xf_length = bytes_number msg, xf_cb = cb\<rparr>"

text \<open>The loop that fills both lists has an index of 8 bits, and a bound of 32 bits that it
  never reaches when there are more than 255 messages.\<close>

definition fill_xfers ::
  "u32 \<Rightarrow> ptr option \<Rightarrow> no_os_spi_msg list \<Rightarrow> nat \<Rightarrow> ptr \<Rightarrow> ptr \<Rightarrow> (('h, 'z) stm32_state_scheme, unit) cm" where
  "fill_xfers inst cb msgs n tx rx =
     (if length msgs < min n 256 then failm Out_Of_Bounds
      else if 256 \<le> n then failm Diverges
      else modifym (\<lambda>\<sigma>. \<sigma>\<lparr>xfers := (xfers \<sigma>)(block_of tx \<mapsto> map (tx_xfer_of inst cb) (take n msgs),
        block_of rx \<mapsto> map (rx_xfer_of inst cb) (take n msgs))\<rparr>))"

definition config_free ::  "ptr \<Rightarrow> ptr \<Rightarrow> int \<Rightarrow> (('h, 'z) stm32_state_scheme, int) cm" where
  "config_free tx rx ret = bindm (xfer_free tx) (\<lambda>_. bindm (xfer_free rx) (\<lambda>_. returnm ret))"

definition config_remove_dma ::
  "'h spi_below \<Rightarrow> ptr \<Rightarrow> ptr \<Rightarrow> ptr \<Rightarrow> int \<Rightarrow> (('h, 'z) stm32_state_scheme, int) cm" where
  "config_remove_dma B sdesc tx rx ret =
     bindm (deref sdescs sdesc) (\<lambda>s. bindm (on_hw (dma_remove B (dma_desc s))) (\<lambda>_. config_free tx rx ret))"

definition config_abort ::
  "'h spi_below \<Rightarrow> ptr \<Rightarrow> ptr \<Rightarrow> ptr \<Rightarrow> int \<Rightarrow> (('h, 'z) stm32_state_scheme, int) cm" where
  "config_abort B sdesc tx rx ret =
     bindm (deref sdescs sdesc) (\<lambda>s.
     bindm (on_hw (dma_xfer_abort B (dma_desc s) (txdma_ch s))) (\<lambda>_.
     bindm (on_hw (dma_xfer_abort B (dma_desc s) (rxdma_ch s))) (\<lambda>_.
     config_remove_dma B sdesc tx rx ret)))"

text \<open>When the second allocation fails the function returns \<open>ret\<close>, which has no value yet.\<close>

definition stm32_config_dma_and_start ::
  "'h spi_below \<Rightarrow> ('h, 'z) gpio_tables \<Rightarrow> ptr \<Rightarrow> no_os_spi_msg list \<Rightarrow> u32 \<Rightarrow> ptr option \<Rightarrow>
   (('h, 'z) stm32_state_scheme, int) cm" where
  "stm32_config_dma_and_start B G desc msgs len cb =
     bindm (deref spis desc) (\<lambda>d. bindm (deref sdescs (sd_extra d)) (\<lambda>s.
     let n = unat len in
     bindm (xfer_calloc n) (\<lambda>rx.
     if rx = NULL then returnm (- ENOMEM)
     else
       bindm (xfer_calloc n) (\<lambda>tx.
       if tx = NULL then bindm (xfer_free rx) (\<lambda>_. failm Uninitialised)
       else
         bindm (fill_xfers (Instance s) cb msgs n tx rx) (\<lambda>_.
         bindm (set_sdesc (sd_extra d) (s\<lparr>tx_ch_xfer := tx, rx_ch_xfer := rx\<rparr>)) (\<lambda>_.
         bindm (deref xfers rx) (\<lambda>rxs. bindm (deref xfers tx) (\<lambda>txs.
         bindm (on_hw (dma_config_xfer B (dma_desc s) rxs len (rxdma_ch s))) (\<lambda>ret.
         if ret \<noteq> 0 then config_remove_dma B (sd_extra d) tx rx ret
         else
           bindm (on_hw (dma_config_xfer B (dma_desc s) txs len (txdma_ch s))) (\<lambda>ret.
           if ret \<noteq> 0 then config_remove_dma B (sd_extra d) tx rx ret
           else
             bindm (on_hw (dma_xfer_start B (dma_desc s) (txdma_ch s))) (\<lambda>ret.
             if ret \<noteq> 0 then config_abort B (sd_extra d) tx rx ret
             else
               bindm (on_hw (dma_xfer_start B (dma_desc s) (rxdma_ch s))) (\<lambda>ret.
               if ret \<noteq> 0 then config_abort B (sd_extra d) tx rx ret
               else
                 bindm (if txdma_ch s \<noteq> None then on_hw (set_DMAEN B (Instance s) SPI_CR2_TXDMAEN True) else returnm ()) (\<lambda>_.
                 bindm (if rxdma_ch s \<noteq> None then on_hw (set_DMAEN B (Instance s) SPI_CR2_RXDMAEN True) else returnm ()) (\<lambda>_.
                 bindm (if pwm_desc s \<noteq> NULL
                        then bindm (stm32_spi_altrnate_cs_enable G desc True) (\<lambda>_. on_hw (pwm_enable B (pwm_desc s)))
                        else returnm 0) (\<lambda>ret.
                 if ret \<noteq> 0 then config_abort B (sd_extra d) tx rx ret
                 else
                   bindm (if tx_pwm_desc s \<noteq> NULL then on_hw (pwm_enable B (tx_pwm_desc s)) else returnm 0) (\<lambda>ret.
                   if ret \<noteq> 0 then config_abort B (sd_extra d) tx rx ret else returnm 0))))))))))))))))"

text \<open>The completion callback; \<open>pending\<close> says whether another transfer is pending, and \<open>user\<close> is
  what the function registered by the user does.\<close>

definition stm32_spi_dma_callback ::
  "'h spi_below \<Rightarrow> ('h, 'z) gpio_tables \<Rightarrow> (nat \<Rightarrow> ptr \<Rightarrow> (('h, 'z) stm32_state_scheme, unit) cm) \<Rightarrow> bool \<Rightarrow> ptr \<Rightarrow>
   (('h, 'z) stm32_state_scheme, unit) cm" where
  "stm32_spi_dma_callback B G user pending ctx =
     bindm (deref spis ctx) (\<lambda>d. bindm (deref sdescs (sd_extra d)) (\<lambda>s.
     if pending then returnm ()
     else
       bindm (if pwm_desc s \<noteq> NULL then on_hw (pwm_disable B (pwm_desc s)) else returnm 0) (\<lambda>_.
       bindm (if tx_pwm_desc s \<noteq> NULL then on_hw (pwm_disable B (tx_pwm_desc s)) else returnm 0) (\<lambda>_.
       bindm (on_hw (set_DMAEN B (Instance s) SPI_CR2_TXDMAEN False)) (\<lambda>_.
       bindm (on_hw (set_DMAEN B (Instance s) SPI_CR2_RXDMAEN False)) (\<lambda>_.
       bindm (on_hw (dma_xfer_abort B (dma_desc s) (txdma_ch s))) (\<lambda>_.
       bindm (on_hw (dma_xfer_abort B (dma_desc s) (rxdma_ch s))) (\<lambda>_.
       bindm (xfer_free (tx_ch_xfer s)) (\<lambda>_.
       bindm (xfer_free (rx_ch_xfer s)) (\<lambda>_.
       bindm (stm32_spi_altrnate_cs_enable G ctx False) (\<lambda>_.
       bindm (deref sdescs (sd_extra d)) (\<lambda>s.
       bindm (set_sdesc (sd_extra d) (s\<lparr>dma_done := True\<rparr>)) (\<lambda>_.
       bindm (on_hw (read_DR B (Instance s))) (\<lambda>_.
       case dma_user_cb s of None \<Rightarrow> returnm () | Some f \<Rightarrow> user f (dma_user_ctx s)))))))))))))))"

definition stm32_spi_dma_transfer_async ::
  "'h spi_below \<Rightarrow> ('h, 'z) gpio_tables \<Rightarrow> ptr \<Rightarrow> no_os_spi_msg list \<Rightarrow> u32 \<Rightarrow> nat option \<Rightarrow> ptr \<Rightarrow>
   (('h, 'z) stm32_state_scheme, int) cm" where
  "stm32_spi_dma_transfer_async B G desc msgs len callback ctx =
     bindm (deref spis desc) (\<lambda>d. bindm (deref sdescs (sd_extra d)) (\<lambda>s.
     bindm (set_sdesc (sd_extra d) (s\<lparr>dma_user_cb := callback, dma_user_ctx := ctx\<rparr>)) (\<lambda>_.
     stm32_config_dma_and_start B G desc msgs len (Some desc))))"

text \<open>The wait of the synchronous transfer, from the given value of \<open>timeout\<close> on; \<open>irq k\<close> is what
  the interrupts do in the \<open>k\<close>-th millisecond. The result is \<open>timeout\<close> after the loop.\<close>

fun sync_wait ::
  "'h spi_below \<Rightarrow> (nat \<Rightarrow> (('h, 'z) stm32_state_scheme, unit) cm) \<Rightarrow> ptr \<Rightarrow> nat \<Rightarrow> nat \<Rightarrow>
   (('h, 'z) stm32_state_scheme, u32) cm" where
  "sync_wait B irq sdesc k 0 = returnm (- 1)"
| "sync_wait B irq sdesc k (Suc timeout) =
     bindm (on_hw (ms_delay B 1)) (\<lambda>_.
     bindm (irq k) (\<lambda>_.
     bindm (deref sdescs sdesc) (\<lambda>s.
     if dma_done s then returnm (of_nat timeout) else sync_wait B irq sdesc (Suc k) timeout)))"

definition stm32_spi_dma_transfer_sync ::
  "'h spi_below \<Rightarrow> ('h, 'z) gpio_tables \<Rightarrow> (nat \<Rightarrow> (('h, 'z) stm32_state_scheme, unit) cm) \<Rightarrow>
   ptr \<Rightarrow> no_os_spi_msg list \<Rightarrow> u32 \<Rightarrow> (('h, 'z) stm32_state_scheme, int) cm" where
  "stm32_spi_dma_transfer_sync B G irq desc msgs len =
     bindm (deref spis desc) (\<lambda>d. bindm (deref sdescs (sd_extra d)) (\<lambda>s.
     bindm (set_sdesc (sd_extra d) (s\<lparr>dma_done := False\<rparr>)) (\<lambda>_.
     bindm (stm32_config_dma_and_start B G desc msgs len (Some desc)) (\<lambda>_.
     case msgs of [] \<Rightarrow> failm Out_Of_Bounds | msg # _ \<Rightarrow>
       bindm (sync_wait B irq (sd_extra d) 0 (unat (bytes_number msg))) (\<lambda>timeout.
       returnm (if timeout = 0 then - ETIME else 0))))))"

definition stm32_spi_ops ::
  "'h spi_below \<Rightarrow> ('h, 'z) gpio_tables \<Rightarrow> nat \<Rightarrow> (nat \<Rightarrow> (('h, 'z) stm32_state_scheme, unit) cm) \<Rightarrow>
   (('h, 'z) stm32_state_scheme, stm32_spi_init_param option) spi_platform_ops" where
  "stm32_spi_ops B G fuel irq =
     \<lparr>spi_ops_init = Some (stm32_spi_init B G),
      spi_ops_write_and_read = Some (stm32_spi_write_and_read B fuel),
      spi_ops_transfer = Some (stm32_spi_transfer B fuel),
      spi_ops_dma_transfer_sync = Some (stm32_spi_dma_transfer_sync B G irq),
      spi_ops_dma_transfer_async = Some (stm32_spi_dma_transfer_async B G),
      spi_ops_remove = Some (stm32_spi_remove B G)\<rparr>"

end
