(* ===== verification/NoOs_Spi_Theorems.thy ===== *)
theory NoOs_Spi_Theorems
  imports NoOs_Spi NoOs_Gpio_Theorems
begin

text \<open>
  The table of buses counts the devices on each bus. The locale \<open>spi_platform\<close> states what
  the generic interface relies on when it calls a platform's \<open>init\<close> and \<open>remove\<close>; inside
  it the counting invariant is proved for \<open>no_os_spi_init\<close> and \<open>no_os_spi_remove\<close>. Then the
  transfers: the bus mutex is held while the platform runs and given back on every path.
\<close>

section \<open>The invariant\<close>

definition fresh_spi :: "('h, 'z) spi_state_scheme \<Rightarrow> bool" where
  "fresh_spi \<sigma> \<longleftrightarrow> fresh_rtos \<sigma> \<and> (\<forall>b \<ge> next_block \<sigma>. buses \<sigma> b = None \<and> spis \<sigma> b = None)"

definition bus_slaves :: "('h, 'z) spi_state_scheme \<Rightarrow> ptr \<Rightarrow> nat set" where
  "bus_slaves \<sigma> p = {b. \<exists>d. spis \<sigma> b = Some d \<and> sd_bus d = p}"

text \<open>A bus in entry \<open>i\<close> of the table, with a free mutex, counting its devices.\<close>

definition bus_ok :: "('h, 'z) spi_state_scheme \<Rightarrow> nat \<Rightarrow> ptr \<Rightarrow> bool" where
  "bus_ok \<sigma> i p \<longleftrightarrow> (\<exists>bb bus. p = Ptr bb 0 \<and> buses \<sigma> bb = Some bus \<and> unat (bus_device_id bus) = i \<and>
     mutex_free \<sigma> (bus_mutex bus) \<and> finite (bus_slaves \<sigma> p) \<and> unat (slave_number bus) = card (bus_slaves \<sigma> p))"

definition bus_mutex_at :: "('h, 'z) spi_state_scheme \<Rightarrow> ptr \<Rightarrow> ptr option" where
  "bus_mutex_at \<sigma> p = (case p of NULL \<Rightarrow> None | Ptr bb i \<Rightarrow> map_option bus_mutex (buses \<sigma> bb))"

definition spi_inv :: "nat \<Rightarrow> ('h, 'z) spi_state_scheme \<Rightarrow> bool" where
  "spi_inv ops \<sigma> \<longleftrightarrow> fresh_spi \<sigma> \<and> length (spi_table \<sigma>) = SPI_MAX_BUS_NUMBER + 1 \<and>
     (\<forall>i \<le> SPI_MAX_BUS_NUMBER. spi_table \<sigma> ! i = NULL \<or> bus_ok \<sigma> i (spi_table \<sigma> ! i)) \<and>
     (\<forall>i \<le> SPI_MAX_BUS_NUMBER. \<forall>j \<le> SPI_MAX_BUS_NUMBER. spi_table \<sigma> ! i \<noteq> NULL \<and> spi_table \<sigma> ! j \<noteq> NULL \<and>
        bus_mutex_at \<sigma> (spi_table \<sigma> ! i) = bus_mutex_at \<sigma> (spi_table \<sigma> ! j) \<longrightarrow> i = j) \<and>
     (\<forall>b d. spis \<sigma> b = Some d \<longrightarrow> sd_platform_ops d = Some ops \<and> sd_extra d \<noteq> NULL \<and>
        (\<exists>i \<le> SPI_MAX_BUS_NUMBER. sd_bus d = spi_table \<sigma> ! i \<and> spi_table \<sigma> ! i \<noteq> NULL))"

lemma spi_invD:
  assumes "spi_inv ops \<sigma>"
  shows "fresh_spi \<sigma>" "length (spi_table \<sigma>) = 9"
    "i \<le> 8 \<Longrightarrow> spi_table \<sigma> ! i \<noteq> NULL \<Longrightarrow> bus_ok \<sigma> i (spi_table \<sigma> ! i)"
    "i \<le> 8 \<Longrightarrow> j \<le> 8 \<Longrightarrow> spi_table \<sigma> ! i \<noteq> NULL \<Longrightarrow> spi_table \<sigma> ! j \<noteq> NULL \<Longrightarrow>
      bus_mutex_at \<sigma> (spi_table \<sigma> ! i) = bus_mutex_at \<sigma> (spi_table \<sigma> ! j) \<Longrightarrow> i = j"
    "spis \<sigma> b = Some d \<Longrightarrow> sd_platform_ops d = Some ops \<and> sd_extra d \<noteq> NULL \<and>
      (\<exists>i \<le> 8. sd_bus d = spi_table \<sigma> ! i \<and> spi_table \<sigma> ! i \<noteq> NULL)"
  using assms by (auto simp: spi_inv_def)

text \<open>What the invariant says of a state depends on these parts of it only.\<close>

lemma bus_ok_cong:
  assumes "sems \<sigma>' = sems \<sigma>" "handle_cells \<sigma>' = handle_cells \<sigma>" "buses \<sigma>' = buses \<sigma>" "spis \<sigma>' = spis \<sigma>"
  shows "bus_ok \<sigma>' i p = bus_ok \<sigma> i p"
  using assms mutex_count_cong[of \<sigma>' \<sigma>] by (simp add: bus_ok_def bus_slaves_def)

lemma spi_inv_cong:
  assumes "spi_inv ops \<sigma>" and "fresh_spi \<sigma>'" and "sems \<sigma>' = sems \<sigma>" "handle_cells \<sigma>' = handle_cells \<sigma>"
    "buses \<sigma>' = buses \<sigma>" "spis \<sigma>' = spis \<sigma>" "spi_table \<sigma>' = spi_table \<sigma>"
  shows "spi_inv ops \<sigma>'"
proof -
  have "bus_ok \<sigma>' = bus_ok \<sigma>" using assms bus_ok_cong[of \<sigma>' \<sigma>] by (intro ext) simp
  moreover have "bus_mutex_at \<sigma>' = bus_mutex_at \<sigma>" using assms by (intro ext) (simp add: bus_mutex_at_def split: ptr.split)
  ultimately show ?thesis using assms by (simp add: spi_inv_def)
qed

section \<open>Creating a bus\<close>

text \<open>A bus put into an empty entry of the table, with a mutex no other bus has.\<close>

lemma spi_inv_new_bus:
  assumes inv: "spi_inv ops \<sigma>" and i: "i \<le> 8" "spi_table \<sigma> ! i = NULL" and bb: "buses \<sigma> bb = None" "\<forall>j \<le> 8. spi_table \<sigma> ! j \<noteq> Ptr bb 0"
    and m: "sems \<sigma> m = None" "handle_cells \<sigma> m = None"
    and \<sigma>': "spi_table \<sigma>' = (spi_table \<sigma>)[i := Ptr bb 0]" "buses \<sigma>' = (buses \<sigma>)(bb \<mapsto> bus)" "spis \<sigma>' = spis \<sigma>"
      "sems \<sigma>' = (sems \<sigma>)(m \<mapsto> 1)" "handle_cells \<sigma>' = handle_cells \<sigma> \<or> (\<exists>c. handle_cells \<sigma>' = (handle_cells \<sigma>)(c \<mapsto> NULL) \<and> sems \<sigma> c = None \<and> c \<noteq> m)"
      "fresh_spi \<sigma>'"
    and bus: "bus_mutex bus = Ptr m 0" "unat (bus_device_id bus) = i" "slave_number bus = 0"
  shows "spi_inv ops \<sigma>'"
proof -
  note D = spi_invD[OF inv]
  have mc: "mutex_free \<sigma>' x" if "mutex_free \<sigma> x" for x
  proof -
    from mutex_countD[OF that] obtain b where b: "x = Ptr b 0" "handle_cells \<sigma> b = None" "sems \<sigma> b = Some 1" by auto
    moreover from this have "handle_cells \<sigma>' b = None" "b \<noteq> m" using \<sigma>'(5) m by auto
    ultimately show ?thesis by (simp add: mutex_count_def \<sigma>'(4))
  qed
  have mne: "x \<noteq> Ptr m 0" if "mutex_free \<sigma> x" for x
    using that m by (auto dest!: mutex_countD)
  have sl: "bus_slaves \<sigma>' p = bus_slaves \<sigma> p" for p by (simp add: bus_slaves_def \<sigma>')
  have none: "bus_slaves \<sigma> (Ptr bb 0) = {}"
    using D(5) bb(2) by (fastforce simp: bus_slaves_def)
  have old: "bus_ok \<sigma>' j (spi_table \<sigma> ! j)" if "j \<le> 8" "spi_table \<sigma> ! j \<noteq> NULL" for j
  proof -
    from D(3)[OF that] obtain b0 bs0 where *: "spi_table \<sigma> ! j = Ptr b0 0" "buses \<sigma> b0 = Some bs0" "unat (bus_device_id bs0) = j"
        "mutex_free \<sigma> (bus_mutex bs0)" "finite (bus_slaves \<sigma> (Ptr b0 0))" "unat (slave_number bs0) = card (bus_slaves \<sigma> (Ptr b0 0))"
      by (auto simp: bus_ok_def)
    moreover have "b0 \<noteq> bb" using * bb by auto
    ultimately show ?thesis using mc by (simp add: bus_ok_def sl \<sigma>')
  qed
  have new: "bus_ok \<sigma>' i (Ptr bb 0)"
    using none bus m \<sigma>' by (auto simp: bus_ok_def sl mutex_count_def)
  have mx: "bus_mutex_at \<sigma>' (spi_table \<sigma> ! j) = bus_mutex_at \<sigma> (spi_table \<sigma> ! j) \<and>
      bus_mutex_at \<sigma> (spi_table \<sigma> ! j) \<noteq> Some (Ptr m 0)" if "j \<le> 8" "spi_table \<sigma> ! j \<noteq> NULL" for j
  proof -
    from D(3)[OF that] obtain b0 bs0 where *: "spi_table \<sigma> ! j = Ptr b0 0" "buses \<sigma> b0 = Some bs0" "mutex_free \<sigma> (bus_mutex bs0)"
      by (auto simp: bus_ok_def)
    moreover have "b0 \<noteq> bb" using * bb by auto
    ultimately show ?thesis using mne[of "bus_mutex bs0"] by (simp add: bus_mutex_at_def \<sigma>'(2))
  qed
  have ti: "spi_table \<sigma>' ! j = (if j = i then Ptr bb 0 else spi_table \<sigma> ! j)" if "j \<le> 8" for j
    using that i D(2) by (simp add: \<sigma>'(1) nth_list_update)
  have mi: "bus_mutex_at \<sigma>' (Ptr bb 0) = Some (Ptr m 0)" by (simp add: bus_mutex_at_def \<sigma>' bus)
  have "\<forall>k \<le> 8. \<forall>j \<le> 8. spi_table \<sigma>' ! k \<noteq> NULL \<and> spi_table \<sigma>' ! j \<noteq> NULL \<and>
      bus_mutex_at \<sigma>' (spi_table \<sigma>' ! k) = bus_mutex_at \<sigma>' (spi_table \<sigma>' ! j) \<longrightarrow> k = j"
  proof (intro allI impI)
    fix k j :: nat
    assume kj: "k \<le> 8" "j \<le> 8" and eq: "spi_table \<sigma>' ! k \<noteq> NULL \<and> spi_table \<sigma>' ! j \<noteq> NULL \<and>
      bus_mutex_at \<sigma>' (spi_table \<sigma>' ! k) = bus_mutex_at \<sigma>' (spi_table \<sigma>' ! j)"
    show "k = j"
    proof (cases "k = i"; cases "j = i")
      assume "k \<noteq> i" "j \<noteq> i"
      then show ?thesis using eq D(4)[OF kj] mx[OF kj(1)] mx[OF kj(2)] by (simp add: ti[OF kj(1)] ti[OF kj(2)])
    next
      assume "k = i" "j \<noteq> i"
      then show ?thesis using eq mx[OF kj(2)] mi ti[OF i(1)] ti[OF kj(2)] by metis
    next
      assume "k \<noteq> i" "j = i"
      then show ?thesis using eq mx[OF kj(1)] mi ti[OF kj(1)] ti[OF i(1)] by metis
    qed simp
  qed
  moreover have "\<forall>j \<le> 8. spi_table \<sigma>' ! j = NULL \<or> bus_ok \<sigma>' j (spi_table \<sigma>' ! j)"
    using old new by (simp add: ti) blast
  moreover have "sd_platform_ops d = Some ops \<and> sd_extra d \<noteq> NULL \<and>
      (\<exists>j \<le> 8. sd_bus d = spi_table \<sigma>' ! j \<and> spi_table \<sigma>' ! j \<noteq> NULL)" if "spis \<sigma>' b = Some d" for b d
  proof -
    from D(5)[of b d] that obtain j where j: "j \<le> 8" "sd_bus d = spi_table \<sigma> ! j" "spi_table \<sigma> ! j \<noteq> NULL"
      "sd_platform_ops d = Some ops" "sd_extra d \<noteq> NULL" by (auto simp: \<sigma>'(3))
    moreover have "j \<noteq> i" using i j by auto
    ultimately show ?thesis using ti[of j] by (intro conjI exI[of _ j]) simp_all
  qed
  ultimately show ?thesis using \<sigma>'(6) D(2) by (simp add: spi_inv_def \<sigma>'(1))
qed

lemma spibus_calloc_outcome:
  "spibus_calloc \<sigma> = Inr (p, \<sigma>') \<longleftrightarrow>
   (if grants \<sigma> (next_block \<sigma>) sizeof_spibus
    then p = Ptr (next_block \<sigma>) 0 \<and> \<sigma>' = \<sigma>\<lparr>next_block := Suc (next_block \<sigma>), buses := (buses \<sigma>)(next_block \<sigma> \<mapsto>
      \<lparr>bus_mutex = NULL, slave_number = 0, bus_device_id = 0, bus_max_speed_hz = 0, bus_mode = 0,
       bus_bit_order = NO_OS_SPI_BIT_ORDER_MSB_FIRST, bus_platform_ops = None\<rparr>)\<rparr>
    else p = NULL \<and> \<sigma>' = \<sigma>\<lparr>next_block := Suc (next_block \<sigma>)\<rparr>)"
  by (auto simp: spibus_calloc_def new_obj_def Let_def)

lemma spibus_init_inv:
  assumes inv: "spi_inv ops \<sigma>" and i: "unat (sp_device_id pr) = i" "i \<le> 8" "spi_table \<sigma> ! i = NULL"
    and run: "no_os_spibus_init pr \<sigma> = Inr (ret, \<sigma>')"
  shows "spi_inv ops \<sigma>' \<and> spis \<sigma>' = spis \<sigma> \<and>
    (if ret = 0 then \<exists>bb. spi_table \<sigma>' = (spi_table \<sigma>)[i := Ptr bb 0] else ret < 0 \<and> spi_table \<sigma>' = spi_table \<sigma>)"
proof (cases "grants \<sigma> (next_block \<sigma>) sizeof_spibus")
  case False
  then have "\<sigma>' = \<sigma>\<lparr>next_block := Suc (next_block \<sigma>)\<rparr> \<and> ret = - ENOMEM"
    using run by (auto simp: no_os_spibus_init_def outcome_iffs spibus_calloc_outcome)
  moreover have "fresh_spi (\<sigma>\<lparr>next_block := Suc (next_block \<sigma>)\<rparr>)"
    using spi_invD(1)[OF inv] by (auto simp: fresh_spi_def fresh_rtos_def)
  ultimately show ?thesis using spi_inv_cong[OF inv, of \<sigma>'] by (simp add: errno_defs)
next
  case True
  let ?n = "next_block \<sigma>"
  define \<sigma>1 where "\<sigma>1 = \<sigma>\<lparr>next_block := Suc ?n, buses := (buses \<sigma>)(?n \<mapsto>
      \<lparr>bus_mutex = NULL, slave_number = 0, bus_device_id = 0, bus_max_speed_hz = 0, bus_mode = 0,
       bus_bit_order = NO_OS_SPI_BIT_ORDER_MSB_FIRST, bus_platform_ops = None\<rparr>)\<rparr>"
  have f: "fresh_rtos \<sigma>" "\<forall>b\<ge>?n. buses \<sigma> b = None \<and> spis \<sigma> b = None"
    using spi_invD(1)[OF inv] by (auto simp: fresh_spi_def)
  then have f1: "fresh_rtos \<sigma>1" by (simp add: fresh_rtos_def \<sigma>1_def)
  have calloc: "spibus_calloc \<sigma> = Inr (Ptr ?n 0, \<sigma>1)" using True by (simp add: spibus_calloc_outcome \<sigma>1_def)
  have granted: "grants \<sigma>1 (Suc (next_block \<sigma>1)) sizeof_Queue_t"
  proof (rule ccontr)
    assume "\<not> grants \<sigma>1 (Suc (next_block \<sigma>1)) sizeof_Queue_t"
    from mutex_init_refused[OF this] show False using run by (simp add: no_os_spibus_init_def bindm_unfold calloc)
  qed
  define bus where "bus = \<lparr>bus_mutex = Ptr (Suc (Suc ?n)) 0, slave_number = 0, bus_device_id = sp_device_id pr,
         bus_max_speed_hz = sp_max_speed_hz pr, bus_mode = sp_mode pr, bus_bit_order = sp_bit_order pr,
         bus_platform_ops = sp_platform_ops pr\<rparr>"
  have ret: "ret = 0" and \<sigma>': "\<sigma>' = (after_mutex_init \<sigma>1)\<lparr>buses := (buses (after_mutex_init \<sigma>1))(?n \<mapsto> bus),
      spi_table := (spi_table (after_mutex_init \<sigma>1))[i := Ptr ?n 0]\<rparr>"
  proof -
    have "length (spi_table (after_mutex_init \<sigma>1)) = 9" "next_block \<sigma>1 = Suc ?n"
      using spi_invD(2)[OF inv] by (simp_all add: \<sigma>1_def after_mutex_init_def Let_def)
    then show "ret = 0" "\<sigma>' = (after_mutex_init \<sigma>1)\<lparr>buses := (buses (after_mutex_init \<sigma>1))(?n \<mapsto> bus),
      spi_table := (spi_table (after_mutex_init \<sigma>1))[i := Ptr ?n 0]\<rparr>"
      using run i by (auto simp: no_os_spibus_init_def bindm_unfold calloc mutex_init_ok[OF f1 granted] set_bus_def
          table_set_def run_simps bus_def)
  qed
  have tab: "\<forall>j\<le>8. spi_table \<sigma> ! j \<noteq> Ptr ?n 0"
    using spi_invD(3)[OF inv] f(2) by (force simp: bus_ok_def)
  have "spi_inv ops \<sigma>'"
  proof (rule spi_inv_new_bus[OF inv i(2,3), where bb = ?n and m = "Suc (Suc ?n)" and bus = bus])
    show "handle_cells \<sigma>' = handle_cells \<sigma> \<or>
      (\<exists>c. handle_cells \<sigma>' = (handle_cells \<sigma>)(c \<mapsto> NULL) \<and> sems \<sigma> c = None \<and> c \<noteq> Suc (Suc ?n))"
      using f(1) by (auto simp: \<sigma>' \<sigma>1_def after_mutex_init_def Let_def fresh_rtos_def)
    show "fresh_spi \<sigma>'" using f by (auto simp: fresh_spi_def fresh_rtos_def \<sigma>' \<sigma>1_def after_mutex_init_def Let_def)
  qed (use f tab i in \<open>auto simp: \<sigma>' \<sigma>1_def after_mutex_init_def Let_def bus_def fresh_rtos_def\<close>)
  then show ?thesis using ret \<sigma>' by (auto simp: \<sigma>1_def after_mutex_init_def Let_def)
qed

section \<open>Attaching and detaching devices\<close>

text \<open>The parts of the state that belong to the buses.\<close>

definition bus_view :: "('h, 'z) spi_state_scheme \<Rightarrow>
    ptr list \<times> (nat \<Rightarrow> no_os_spibus_desc option) \<times> (nat \<Rightarrow> nat option) \<times> (nat \<Rightarrow> ptr option)" where
  "bus_view \<sigma> = (spi_table \<sigma>, buses \<sigma>, sems \<sigma>, handle_cells \<sigma>)"

lemma spi_inv_update:
  assumes inv: "spi_inv ops \<sigma>" and i: "i \<le> 8" "spi_table \<sigma> ! i = Ptr bb 0" "buses \<sigma> bb = Some bus"
    and \<sigma>': "bus_view \<sigma>' = (spi_table \<sigma>, (buses \<sigma>)(bb \<mapsto> bus'), sems \<sigma>, handle_cells \<sigma>)" "fresh_spi \<sigma>'"
    and bus': "bus_mutex bus' = bus_mutex bus" "bus_device_id bus' = bus_device_id bus"
    and others: "\<And>p. p \<noteq> Ptr bb 0 \<Longrightarrow> bus_slaves \<sigma>' p = bus_slaves \<sigma> p"
    and count: "finite (bus_slaves \<sigma>' (Ptr bb 0))" "unat (slave_number bus') = card (bus_slaves \<sigma>' (Ptr bb 0))"
    and descs: "\<And>b d. spis \<sigma>' b = Some d \<Longrightarrow> sd_platform_ops d = Some ops \<and> sd_extra d \<noteq> NULL \<and>
        (\<exists>i \<le> 8. sd_bus d = spi_table \<sigma> ! i \<and> spi_table \<sigma> ! i \<noteq> NULL)"
  shows "spi_inv ops \<sigma>'"
proof -
  note D = spi_invD[OF inv]
  have v: "spi_table \<sigma>' = spi_table \<sigma>" "buses \<sigma>' = (buses \<sigma>)(bb \<mapsto> bus')" "sems \<sigma>' = sems \<sigma>" "handle_cells \<sigma>' = handle_cells \<sigma>"
    using \<sigma>'(1) by (simp_all add: bus_view_def)
  have mc: "mutex_count \<sigma>' m = mutex_count \<sigma> m" for m using v by (intro mutex_count_cong)
  have oki: "bus_ok \<sigma> i (Ptr bb 0)" using D(3)[OF i(1)] i by simp
  have "bus_ok \<sigma>' j (spi_table \<sigma> ! j)" if "j \<le> 8" "spi_table \<sigma> ! j \<noteq> NULL" for j
  proof (cases "j = i")
    case True
    then show ?thesis using oki i count bus' by (auto simp: bus_ok_def v mc)
  next
    case False
    from D(3)[OF that] obtain b0 bs0 where *: "spi_table \<sigma> ! j = Ptr b0 0" "buses \<sigma> b0 = Some bs0" "unat (bus_device_id bs0) = j"
        "mutex_free \<sigma> (bus_mutex bs0)" "finite (bus_slaves \<sigma> (Ptr b0 0))" "unat (slave_number bs0) = card (bus_slaves \<sigma> (Ptr b0 0))"
      by (auto simp: bus_ok_def)
    have "b0 \<noteq> bb" using * oki False i by (auto simp: bus_ok_def)
    then show ?thesis using * others[of "Ptr b0 0"] by (simp add: bus_ok_def v mc)
  qed
  moreover have "bus_mutex_at \<sigma>' = bus_mutex_at \<sigma>"
    using i bus' by (intro ext) (simp add: bus_mutex_at_def v split: ptr.split)
  ultimately show ?thesis using D(2,4) descs \<sigma>'(2) unfolding spi_inv_def v(1) by (auto; blast)
qed

lemma spi_inv_drop:
  assumes inv: "spi_inv ops \<sigma>" and i: "i \<le> 8" "spi_table \<sigma> ! i = Ptr bb 0" "buses \<sigma> bb = Some bus" "bus_mutex bus = Ptr m 0"
    and \<sigma>': "bus_view \<sigma>' = ((spi_table \<sigma>)[i := NULL], (buses \<sigma>)(bb := None), (sems \<sigma>)(m := None), handle_cells \<sigma>)" "fresh_spi \<sigma>'"
    and others: "\<And>p. p \<noteq> Ptr bb 0 \<Longrightarrow> bus_slaves \<sigma>' p = bus_slaves \<sigma> p"
    and gone: "bus_slaves \<sigma>' (Ptr bb 0) = {}"
    and descs: "\<And>b d. spis \<sigma>' b = Some d \<Longrightarrow> spis \<sigma> b = Some d"
  shows "spi_inv ops \<sigma>'"
proof -
  note D = spi_invD[OF inv]
  have v: "spi_table \<sigma>' = (spi_table \<sigma>)[i := NULL]" "buses \<sigma>' = (buses \<sigma>)(bb := None)" "sems \<sigma>' = (sems \<sigma>)(m := None)"
      "handle_cells \<sigma>' = handle_cells \<sigma>"
    using \<sigma>'(1) by (simp_all add: bus_view_def)
  have ti: "spi_table \<sigma>' ! j = (if j = i then NULL else spi_table \<sigma> ! j)" if "j \<le> 8" for j
    using that i D(2) by (simp add: v nth_list_update)
  have mi: "bus_mutex_at \<sigma> (spi_table \<sigma> ! i) = Some (Ptr m 0)" using i by (simp add: bus_mutex_at_def)
  have oki: "bus_ok \<sigma> i (Ptr bb 0)" using D(3)[OF i(1)] i by simp
  have other: "bus_ok \<sigma>' j (spi_table \<sigma> ! j) \<and> bus_mutex_at \<sigma>' (spi_table \<sigma> ! j) = bus_mutex_at \<sigma> (spi_table \<sigma> ! j)"
    if "j \<le> 8" "spi_table \<sigma> ! j \<noteq> NULL" "j \<noteq> i" for j
  proof -
    from D(3)[OF that(1,2)] obtain b0 bs0 where *: "spi_table \<sigma> ! j = Ptr b0 0" "buses \<sigma> b0 = Some bs0" "unat (bus_device_id bs0) = j"
        "mutex_free \<sigma> (bus_mutex bs0)" "finite (bus_slaves \<sigma> (Ptr b0 0))" "unat (slave_number bs0) = card (bus_slaves \<sigma> (Ptr b0 0))"
      by (auto simp: bus_ok_def)
    have b0: "b0 \<noteq> bb" using * oki that(3) i by (auto simp: bus_ok_def)
    have "bus_mutex bs0 \<noteq> Ptr m 0"
      using D(4)[OF that(1) i(1)] that i mi * by (auto simp: bus_mutex_at_def)
    then have "mutex_free \<sigma>' (bus_mutex bs0)" using mutex_countD[OF *(4)] by (auto simp: mutex_count_def v)
    then show ?thesis using * b0 others[of "Ptr b0 0"] by (simp add: bus_ok_def bus_mutex_at_def v)
  qed
  have "k = j" if "k \<le> 8" "j \<le> 8" "spi_table \<sigma>' ! k \<noteq> NULL" "spi_table \<sigma>' ! j \<noteq> NULL"
      "bus_mutex_at \<sigma>' (spi_table \<sigma>' ! k) = bus_mutex_at \<sigma>' (spi_table \<sigma>' ! j)" for k j
    using that D(4)[of k j] other[of k] other[of j] by (auto simp: ti split: if_splits)
  moreover have "spi_table \<sigma>' ! j = NULL \<or> bus_ok \<sigma>' j (spi_table \<sigma>' ! j)" if "j \<le> 8" for j
    using that other[of j] by (auto simp: ti)
  moreover have "sd_platform_ops d = Some ops \<and> sd_extra d \<noteq> NULL \<and>
      (\<exists>j \<le> 8. sd_bus d = spi_table \<sigma>' ! j \<and> spi_table \<sigma>' ! j \<noteq> NULL)" if "spis \<sigma>' b = Some d" for b d
  proof -
    from D(5)[OF descs[OF that]] obtain j where j: "j \<le> 8" "sd_bus d = spi_table \<sigma> ! j" "spi_table \<sigma> ! j \<noteq> NULL"
      "sd_platform_ops d = Some ops" "sd_extra d \<noteq> NULL" by auto
    moreover have "j \<noteq> i" using gone that i j by (auto simp: bus_slaves_def)
    ultimately show ?thesis using ti[of j] by (intro conjI exI[of _ j]) simp_all
  qed
  ultimately show ?thesis using \<sigma>'(2) D(2) unfolding spi_inv_def by (simp add: v(1))
qed

text \<open>Setting the descriptor of a device that was not on any bus, and forgetting one.\<close>

lemma bus_slaves_attach:
  assumes "spis \<sigma> b = None" and "spis \<sigma>' = (spis \<sigma>)(b \<mapsto> d)"
  shows "bus_slaves \<sigma>' p = (if p = sd_bus d then insert b (bus_slaves \<sigma> p) else bus_slaves \<sigma> p)" "b \<notin> bus_slaves \<sigma> p"
  using assms by (auto simp: bus_slaves_def)

lemma bus_slaves_detach:
  assumes "spis \<sigma> b = Some d" and "spis \<sigma>' = (spis \<sigma>)(b := None)"
  shows "bus_slaves \<sigma>' p = (if p = sd_bus d then bus_slaves \<sigma> p - {b} else bus_slaves \<sigma> p)" "b \<in> bus_slaves \<sigma> (sd_bus d)"
  using assms by (auto simp: bus_slaves_def)

text \<open>The number of devices on the bus with number \<open>i\<close>.\<close>

definition devices_on :: "('h, 'z) spi_state_scheme \<Rightarrow> nat \<Rightarrow> nat set" where
  "devices_on \<sigma> i = (if spi_table \<sigma> ! i = NULL then {} else bus_slaves \<sigma> (spi_table \<sigma> ! i))"

lemma spibus_remove_run:
  assumes inv: "spi_inv ops \<sigma>" and i: "i \<le> 8" "spi_table \<sigma> ! i = Ptr bb 0" "buses \<sigma> bb = Some bus" "bus_mutex bus = Ptr m 0"
    and n: "slave_number bus > 0"
  shows "no_os_spibus_remove (bus_device_id bus) \<sigma> = Inr ((),
     if slave_number bus = 1
     then \<sigma>\<lparr>sems := (sems \<sigma>)(m := None), buses := (buses \<sigma>)(bb := None), spi_table := (spi_table \<sigma>)[i := NULL]\<rparr>
     else \<sigma>\<lparr>buses := (buses \<sigma>)(bb \<mapsto> bus\<lparr>slave_number := slave_number bus - 1\<rparr>)\<rparr>)"
proof -
  have ok: "unat (bus_device_id bus) = i" "mutex_count \<sigma> (Ptr m 0) = Some 1" "length (spi_table \<sigma>) = 9"
    using spi_invD(2)[OF inv] spi_invD(3)[OF inv i(1)] i by (auto simp: bus_ok_def)
  then have mc: "mutex_count (\<sigma>\<lparr>buses := B\<rparr>) (Ptr m 0) = Some 1" for B
    by (simp add: mutex_count_cong[of "\<sigma>\<lparr>buses := B\<rparr>" \<sigma>])
  have one: "slave_number bus - 1 = 0 \<longleftrightarrow> slave_number bus = 1" by simp
  show ?thesis
    using i n ok
    by (simp add: no_os_spibus_remove_def table_get_def table_set_def set_bus_def bindm_unfold run_simps Let_def
        mutex_remove_ok[OF mc] one)
qed

text \<open>Making sure that the bus of a device exists.\<close>

lemma ensure_bus:
  assumes inv: "spi_inv ops \<sigma>" and i: "unat (sp_device_id pr) = i" "i \<le> 8"
    and bus: "(if spi_table \<sigma> ! i = NULL then no_os_spibus_init pr else returnm 0) \<sigma> = Inr (r1, \<sigma>1)"
  shows "spi_inv ops \<sigma>1 \<and> spis \<sigma>1 = spis \<sigma> \<and> (r1 = 0 \<longrightarrow> spi_table \<sigma>1 ! i \<noteq> NULL \<and> devices_on \<sigma>1 i = devices_on \<sigma> i)"
proof (cases "spi_table \<sigma> ! i = NULL")
  case True
  note new = spibus_init_inv[OF inv i True, of r1 \<sigma>1]
  with bus True have n: "spi_inv ops \<sigma>1" "spis \<sigma>1 = spis \<sigma>" by auto
  have "devices_on \<sigma>1 i = {} \<and> spi_table \<sigma>1 ! i \<noteq> NULL" if r: "r1 = 0"
  proof -
    from new bus True r obtain bb where tab: "spi_table \<sigma>1 = (spi_table \<sigma>)[i := Ptr bb 0]" by auto
    then have bbi: "spi_table \<sigma>1 ! i = Ptr bb 0" using spi_invD(2)[OF inv] i by simp
    have "sd_bus d \<noteq> Ptr bb 0" if "spis \<sigma> b = Some d" for b d
    proof -
      from spi_invD(5)[OF inv that] obtain j where j: "j \<le> 8" "sd_bus d = spi_table \<sigma> ! j" "spi_table \<sigma> ! j \<noteq> NULL" by auto
      have ji: "j \<noteq> i" using j True by auto
      then have "spi_table \<sigma>1 ! j = spi_table \<sigma> ! j" using tab by simp
      with ji show ?thesis using spi_invD(4)[OF n(1) j(1) i(2)] bbi j by auto
    qed
    then show ?thesis using bbi n by (auto simp: devices_on_def bus_slaves_def)
  qed
  then show ?thesis using n True by (auto simp: devices_on_def)
next
  case False
  then show ?thesis using bus inv by (auto simp: returnm_def)
qed

section \<open>What the interface relies on\<close>

locale spi_platform =
  fixes init :: "ptr option \<Rightarrow> 'x no_os_spi_init_param \<Rightarrow> (('h, 'z) spi_state_scheme, int \<times> ptr option) cm"
    and remove :: "ptr \<Rightarrow> (('h, 'z) spi_state_scheme, int) cm"
  assumes init_keeps: "init desc pr \<sigma> = Inr ((ret, out), \<sigma>') \<Longrightarrow> fresh_spi \<sigma> \<Longrightarrow>
      fresh_spi \<sigma>' \<and> bus_view \<sigma>' = bus_view \<sigma> \<and>
      (if ret = 0 then \<exists>b d. out = Some (Ptr b 0) \<and> spis \<sigma> b = None \<and> spis \<sigma>' = (spis \<sigma>)(b \<mapsto> d) \<and> sd_extra d \<noteq> NULL
       else spis \<sigma>' = spis \<sigma>)"
    and remove_keeps: "remove (Ptr b 0) \<sigma> = Inr (ret, \<sigma>') \<Longrightarrow> fresh_spi \<sigma> \<Longrightarrow> spis \<sigma> b = Some d \<Longrightarrow> sd_extra d \<noteq> NULL \<Longrightarrow>
      fresh_spi \<sigma>' \<and> bus_view \<sigma>' = bus_view \<sigma> \<and> ret = 0 \<and> spis \<sigma>' = (spis \<sigma>)(b := None)"
begin

lemma spi_init_inv:
  assumes inv: "spi_inv ops \<sigma>" and T: "spi_ops_init (T ops) = Some init" "sp_platform_ops pr = Some ops"
    and room: "card (devices_on \<sigma> (unat (sp_device_id pr))) < 255"
    and run: "no_os_spi_init T desc (Some pr) \<sigma> = Inr ((ret, out), \<sigma>')"
  shows "spi_inv ops \<sigma>' \<and>
    (if ret = 0 then \<exists>b. out = Some (Ptr b 0) \<and> spis \<sigma> b = None \<and> unat (sp_device_id pr) \<le> 8 \<and>
        devices_on \<sigma>' (unat (sp_device_id pr)) = insert b (devices_on \<sigma> (unat (sp_device_id pr)))
     else spis \<sigma>' = spis \<sigma>)"
proof (cases "unat (sp_device_id pr) > 8")
  case True
  then show ?thesis using inv T run by (auto simp: no_os_spi_init_def returnm_def errno_defs)
next
  case False
  define i where "i = unat (sp_device_id pr)"
  have i: "i \<le> 8" "unat (sp_device_id pr) = i" using False by (simp_all add: i_def)
  note len = spi_invD(2)[OF inv]
  obtain r1 \<sigma>1 where bus: "(if spi_table \<sigma> ! i = NULL then no_os_spibus_init pr else returnm 0) \<sigma> = Inr (r1, \<sigma>1)"
    and rest: "(if r1 \<noteq> 0 then returnm (r1, desc)
        else
          bindm (init desc pr) (\<lambda>(ret, desc).
          if ret \<noteq> 0 then returnm (ret, desc)
          else
            bindm (table_get (sp_device_id pr)) (\<lambda>bus.
            bindm (case desc of None \<Rightarrow> failm Null_Deref | Some p \<Rightarrow> deref spis p) (\<lambda>d.
            bindm (deref buses bus) (\<lambda>b.
            bindm (set_bus bus (Some (b\<lparr>slave_number := slave_number b + 1\<rparr>))) (\<lambda>_.
            bindm (modifym (\<lambda>\<sigma>. \<sigma>\<lparr>spis := (spis \<sigma>)(block_of (the desc) \<mapsto>
              d\<lparr>sd_bus := bus, sd_platform_ops := Some ops, sd_parent := sp_parent pr,
                sd_platform_delays := sp_platform_delays pr\<rparr>)\<rparr>)) (\<lambda>_.
            returnm (0, desc)))))))) \<sigma>1 = Inr ((ret, out), \<sigma>')"
    using run T i len unfolding no_os_spi_init_def bindm_Inr_iff
    by (auto simp: table_get_def outcome_iffs getm_run simp del: if_not_P if_P)
  have s1: "spi_inv ops \<sigma>1 \<and> spis \<sigma>1 = spis \<sigma> \<and> (r1 = 0 \<longrightarrow> spi_table \<sigma>1 ! i \<noteq> NULL \<and> devices_on \<sigma>1 i = devices_on \<sigma> i)"
    by (rule ensure_bus[OF inv i(2,1) bus])
  show ?thesis
  proof (cases "r1 = 0")
    case False
    then show ?thesis using rest s1 by (auto simp: returnm_def)
  next
    case r1: True
    with rest obtain r2 out2 \<sigma>2 where ini: "init desc pr \<sigma>1 = Inr ((r2, out2), \<sigma>2)" by (auto simp: bindm_Inr_iff)
    have k: "fresh_spi \<sigma>2" "bus_view \<sigma>2 = bus_view \<sigma>1" and res: "if r2 = 0 then \<exists>b d. out2 = Some (Ptr b 0) \<and> spis \<sigma>1 b = None \<and>
        spis \<sigma>2 = (spis \<sigma>1)(b \<mapsto> d) \<and> sd_extra d \<noteq> NULL else spis \<sigma>2 = spis \<sigma>1"
      using init_keeps[OF ini] s1 spi_invD(1) by blast+
    have v2: "spi_table \<sigma>2 = spi_table \<sigma>1" "buses \<sigma>2 = buses \<sigma>1" "sems \<sigma>2 = sems \<sigma>1" "handle_cells \<sigma>2 = handle_cells \<sigma>1"
      using k(2) by (simp_all add: bus_view_def)
    show ?thesis
    proof (cases "r2 = 0")
      case False
      then have "\<sigma>' = \<sigma>2" "ret = r2" using rest r1 ini by (auto simp: bindm_unfold returnm_def)
      then show ?thesis using False res s1 spi_inv_cong[of ops \<sigma>1 \<sigma>2] k(1) v2 by auto
    next
      case r2: True
      with res obtain b d where b: "out2 = Some (Ptr b 0)" "spis \<sigma>1 b = None" "spis \<sigma>2 = (spis \<sigma>1)(b \<mapsto> d)" "sd_extra d \<noteq> NULL"
        by auto
      from s1 r1 obtain bb bs where bb: "spi_table \<sigma>1 ! i = Ptr bb 0" "buses \<sigma>1 bb = Some bs"
        "finite (bus_slaves \<sigma>1 (Ptr bb 0))" "unat (slave_number bs) = card (bus_slaves \<sigma>1 (Ptr bb 0))"
        using spi_invD(3)[of ops \<sigma>1 i] i(1) by (auto simp: bus_ok_def)
      define d' where "d' = d\<lparr>sd_bus := Ptr bb 0, sd_platform_ops := Some ops, sd_parent := sp_parent pr,
        sd_platform_delays := sp_platform_delays pr\<rparr>"
      have len1: "length (spi_table \<sigma>2) = 9" using s1 spi_invD(2) v2 by auto
      have fin: "\<sigma>' = \<sigma>2\<lparr>buses := (buses \<sigma>2)(bb \<mapsto> bs\<lparr>slave_number := slave_number bs + 1\<rparr>), spis := (spis \<sigma>2)(b \<mapsto> d')\<rparr>"
          and ret: "ret = 0" "out = Some (Ptr b 0)"
        using rest r1 r2 ini b bb i len1 v2
        by (auto simp: bindm_unfold run_simps table_get_def set_bus_def d'_def)
      have sl: "bus_slaves \<sigma>' p = (if p = Ptr bb 0 then insert b (bus_slaves \<sigma>1 p) else bus_slaves \<sigma>1 p)" for p
        using bus_slaves_attach(1)[of \<sigma>1 b \<sigma>' d'] b fin by (simp add: d'_def)
      have notin: "b \<notin> bus_slaves \<sigma>1 (Ptr bb 0)" using b(2) by (simp add: bus_slaves_def)
      have "card (bus_slaves \<sigma>1 (Ptr bb 0)) < 255" using room s1 r1 bb i by (auto simp: devices_on_def)
      then have "unat (slave_number bs + 1) = unat (slave_number bs) + 1"
        using bb(4) by (simp add: unat_word_ariths)
      then have count: "unat (slave_number (bs\<lparr>slave_number := slave_number bs + 1\<rparr>)) = card (bus_slaves \<sigma>' (Ptr bb 0))"
        using bb notin sl by simp
      have "spi_inv ops \<sigma>'"
      proof (rule spi_inv_update[where \<sigma> = \<sigma>1 and i = i and bb = bb and bus = bs
            and bus' = "bs\<lparr>slave_number := slave_number bs + 1\<rparr>"])
        show "fresh_spi \<sigma>'" using k(1) b(3) bb(2) v2 unfolding fin
          by (auto simp: fresh_spi_def fresh_rtos_def)
        fix c e assume c: "spis \<sigma>' c = Some e"
        show "sd_platform_ops e = Some ops \<and> sd_extra e \<noteq> NULL \<and> (\<exists>i \<le> 8. sd_bus e = spi_table \<sigma>1 ! i \<and> spi_table \<sigma>1 ! i \<noteq> NULL)"
        proof (cases "c = b")
          case True
          then show ?thesis using c b fin bb i by (auto simp: d'_def)
        next
          case False
          then show ?thesis using c b fin s1 spi_invD(5)[of ops \<sigma>1 c e] by auto
        qed
      next
        show "bus_view \<sigma>' = (spi_table \<sigma>1, (buses \<sigma>1)(bb \<mapsto> bs\<lparr>slave_number := slave_number bs + 1\<rparr>), sems \<sigma>1, handle_cells \<sigma>1)"
          by (simp add: fin bus_view_def v2)
      qed (use s1 i bb sl count in simp_all)
      moreover have "devices_on \<sigma>' i = insert b (devices_on \<sigma> i)"
        using s1 r1 bb sl fin v2 by (auto simp: devices_on_def)
      ultimately show ?thesis using ret b s1 i by auto
    qed
  qed
qed

lemma spi_remove_inv:
  assumes inv: "spi_inv ops \<sigma>" and T: "spi_ops_remove (T ops) = Some remove"
    and b: "b \<in> devices_on \<sigma> i" "i \<le> 8" and run: "no_os_spi_remove T (Ptr b 0) \<sigma> = Inr (ret, \<sigma>')"
  shows "ret = 0 \<and> spi_inv ops \<sigma>' \<and> devices_on \<sigma>' i = devices_on \<sigma> i - {b} \<and>
    (devices_on \<sigma> i = {b} \<longrightarrow> spi_table \<sigma>' ! i = NULL \<and> buses \<sigma>' (block_of (spi_table \<sigma> ! i)) = None) \<and>
    (devices_on \<sigma> i \<noteq> {b} \<longrightarrow> spi_table \<sigma>' = spi_table \<sigma>)"
proof -
  obtain d where d: "spis \<sigma> b = Some d" "sd_bus d = spi_table \<sigma> ! i" "spi_table \<sigma> ! i \<noteq> NULL"
    using b by (auto simp: devices_on_def bus_slaves_def split: if_splits)
  note dd = spi_invD(5)[OF inv d(1)]
  obtain bb bs where bb: "spi_table \<sigma> ! i = Ptr bb 0" "buses \<sigma> bb = Some bs" "mutex_free \<sigma> (bus_mutex bs)"
      "finite (bus_slaves \<sigma> (Ptr bb 0))" "unat (slave_number bs) = card (bus_slaves \<sigma> (Ptr bb 0))"
    using spi_invD(3)[OF inv b(2) d(3)] by (auto simp: bus_ok_def)
  from mutex_countD[OF bb(3)] obtain m where m: "bus_mutex bs = Ptr m 0" by auto
  have on: "devices_on \<sigma> i = bus_slaves \<sigma> (Ptr bb 0)" using bb(1) by (simp add: devices_on_def)
  have "card (bus_slaves \<sigma> (Ptr bb 0)) > 0" using b on bb(4) by (auto simp: card_gt_0_iff)
  then have n: "slave_number bs > 0" using bb(5) by (simp add: word_less_nat_alt)
  have one: "slave_number bs = 1 \<longleftrightarrow> devices_on \<sigma> i = {b}"
  proof -
    have "slave_number bs = 1 \<longleftrightarrow> card (bus_slaves \<sigma> (Ptr bb 0)) = 1" using bb(5) by (simp add: word_unat_eq_iff)
    then show ?thesis using b on by (auto simp: card_1_singleton_iff)
  qed
  define \<sigma>1 where "\<sigma>1 = (if slave_number bs = 1
     then \<sigma>\<lparr>sems := (sems \<sigma>)(m := None), buses := (buses \<sigma>)(bb := None), spi_table := (spi_table \<sigma>)[i := NULL]\<rparr>
     else \<sigma>\<lparr>buses := (buses \<sigma>)(bb \<mapsto> bs\<lparr>slave_number := slave_number bs - 1\<rparr>)\<rparr>)"
  have "no_os_spi_remove T (Ptr b 0) \<sigma> = remove (Ptr b 0) \<sigma>1"
    using T d dd bb spibus_remove_run[OF inv b(2) bb(1,2) m n]
    by (simp add: no_os_spi_remove_def with_spi_def bindm_unfold run_simps \<sigma>1_def)
  then have rem: "remove (Ptr b 0) \<sigma>1 = Inr (ret, \<sigma>')" using run by simp
  have f1: "fresh_spi \<sigma>1" using spi_invD(1)[OF inv] bb
    by (auto simp: \<sigma>1_def fresh_spi_def fresh_rtos_def)
  have s1: "spis \<sigma>1 = spis \<sigma>" by (simp add: \<sigma>1_def)
  note k = remove_keeps[OF rem f1, of d]
  have res: "fresh_spi \<sigma>'" "bus_view \<sigma>' = bus_view \<sigma>1" "ret = 0" "spis \<sigma>' = (spis \<sigma>)(b := None)"
    using k d dd s1 by auto
  have sl: "bus_slaves \<sigma>' p = (if p = Ptr bb 0 then bus_slaves \<sigma> p - {b} else bus_slaves \<sigma> p)" for p
    using bus_slaves_detach(1)[OF d(1) res(4), of p] d bb by auto
  show ?thesis
  proof (cases "slave_number bs = 1")
    case True
    then have v: "bus_view \<sigma>' = ((spi_table \<sigma>)[i := NULL], (buses \<sigma>)(bb := None), (sems \<sigma>)(m := None), handle_cells \<sigma>)"
      using res(2) by (simp add: \<sigma>1_def bus_view_def)
    have "spi_inv ops \<sigma>'"
    proof (rule spi_inv_drop[OF inv b(2) bb(1,2) m v res(1)])
      show "bus_slaves \<sigma>' (Ptr bb 0) = {}" using True one on sl by auto
    qed (use sl res(4) in \<open>auto split: if_splits\<close>)
    then show ?thesis using v True one res(3) on bb b(2) spi_invD(2)[OF inv]
      by (auto simp: devices_on_def bus_view_def)
  next
    case False
    let ?bs = "bs\<lparr>slave_number := slave_number bs - 1\<rparr>"
    have v: "bus_view \<sigma>' = (spi_table \<sigma>, (buses \<sigma>)(bb \<mapsto> ?bs), sems \<sigma>, handle_cells \<sigma>)"
      using res(2) False by (simp add: \<sigma>1_def bus_view_def)
    have "unat (slave_number bs - 1) = unat (slave_number bs) - 1"
      using n by (simp add: unat_minus_one word_neq_0_conv)
    then have count: "unat (slave_number ?bs) = card (bus_slaves \<sigma>' (Ptr bb 0))"
      using bb(4,5) b on sl by simp
    have "spi_inv ops \<sigma>'"
    proof (rule spi_inv_update[OF inv b(2) bb(1,2) v res(1)])
      show "sd_platform_ops e = Some ops \<and> sd_extra e \<noteq> NULL \<and> (\<exists>i \<le> 8. sd_bus e = spi_table \<sigma> ! i \<and> spi_table \<sigma> ! i \<noteq> NULL)"
        if "spis \<sigma>' c = Some e" for c e
        using that res(4) spi_invD(5)[OF inv, of c e] by (auto split: if_splits)
    qed (use sl bb(4) count in simp_all)
    then show ?thesis using v False one res(3) on bb sl by (auto simp: devices_on_def bus_view_def)
  qed
qed

end

section \<open>Transfers\<close>

lemma mutex_of_ok:
  "spis \<sigma> b = Some d \<Longrightarrow> sd_bus d = Ptr bb 0 \<Longrightarrow> buses \<sigma> bb = Some bs \<Longrightarrow> mutex_of (Ptr b 0) \<sigma> = Inr (bus_mutex bs, \<sigma>)"
  by (simp add: mutex_of_def bindm_unfold run_simps)

lemma spi_write_and_read_blocks:
  assumes "spis \<sigma> b = Some d" "sd_platform_ops d = Some ops" "sd_bus d = Ptr bb 0" "buses \<sigma> bb = Some bs"
    and "spi_ops_write_and_read (T ops) = Some f" and "mutex_taken \<sigma> (bus_mutex bs)"
  shows "no_os_spi_write_and_read T (Ptr b 0) data n \<sigma> = Inl Blocks"
  using assms mutex_lock_blocks[OF assms(6)]
  by (simp add: no_os_spi_write_and_read_def with_spi_def bindm_unfold run_simps mutex_of_ok)

text \<open>Taking and giving the mutex changes nothing the devices see.\<close>

lemma spi_set_count [simp]:
  "spis (set_count m k \<sigma>) = spis \<sigma>" "buses (set_count m k \<sigma>) = buses \<sigma>" "spi_table (set_count m k \<sigma>) = spi_table \<sigma>"
  "gdescs (set_count m k \<sigma>) = gdescs \<sigma>" "gextras (set_count m k \<sigma>) = gextras \<sigma>" "hw (set_count m k \<sigma>) = hw \<sigma>"
  by (simp_all add: set_count_def)

lemma spi_write_and_read_runs:
  assumes "spis \<sigma> b = Some d" "sd_platform_ops d = Some ops" "sd_bus d = Ptr bb 0" "buses \<sigma> bb = Some bs"
    and "spi_ops_write_and_read (T ops) = Some f" and "mutex_free \<sigma> (bus_mutex bs)"
    and "f (Ptr b 0) data n (set_count (bus_mutex bs) 0 \<sigma>) = Inr (ret, \<sigma>1)"
    and "spis \<sigma>1 b = Some d" "buses \<sigma>1 bb = Some bs" "mutex_taken \<sigma>1 (bus_mutex bs)"
  shows "no_os_spi_write_and_read T (Ptr b 0) data n \<sigma> = Inr (ret, set_count (bus_mutex bs) 1 \<sigma>1)"
  using assms mutex_lock_ok[OF assms(6)] mutex_unlock_ok[OF assms(10)]
  by (simp add: no_os_spi_write_and_read_def with_spi_def bindm_unfold run_simps mutex_of_ok)


text \<open>A bus in entry 1 with one device on it, and no hardware.\<close>

definition test_bus :: no_os_spibus_desc where
  "test_bus = \<lparr>bus_mutex = Ptr 0 0, slave_number = 1, bus_device_id = 1, bus_max_speed_hz = 0, bus_mode = 0,
     bus_bit_order = NO_OS_SPI_BIT_ORDER_MSB_FIRST, bus_platform_ops = Some 0\<rparr>"

definition test_device :: no_os_spi_desc where
  "test_device = \<lparr>sd_bus = Ptr 1 0, sd_device_id = 1, sd_max_speed_hz = 0, sd_chip_select = 3, sd_mode = 0,
     sd_bit_order = NO_OS_SPI_BIT_ORDER_MSB_FIRST, sd_platform_ops = Some 0,
     sd_platform_delays = \<lparr>pd_cs_delay_first = 0, pd_cs_delay_last = 0\<rparr>, sd_extra = Ptr 3 0, sd_parent = NULL\<rparr>"

definition test_spi :: "'x \<Rightarrow> ((nat \<times> u32) list, 'x) spi_state_scheme" where
  "test_spi x = \<lparr>blocks = \<lambda>_. None, next_block = 4, grants = \<lambda>_ _. True, junk = \<lambda>_ _. 0,
     sems = [0 \<mapsto> 1], handle_cells = \<lambda>_. None, gdescs = \<lambda>_. None, gextras = \<lambda>_. None, hw = [],
     spi_table = (replicate 9 NULL)[1 := Ptr 1 0], buses = [1 \<mapsto> test_bus], spis = [2 \<mapsto> test_device], \<dots> = x\<rparr>"

definition no_transfer_ops :: "((nat \<times> u32) list spi_state, unit) spi_platform_ops" where
  "no_transfer_ops = \<lparr>spi_ops_init = None, spi_ops_write_and_read = Some (\<lambda>_ _ _. returnm (- EIO)), spi_ops_transfer = None,
     spi_ops_dma_transfer_sync = None, spi_ops_dma_transfer_async = None, spi_ops_remove = None\<rparr>"


end
