(* ===== verification/Stm32_Spi_Theorems.thy ===== *)
theory Stm32_Spi_Theorems
  imports Stm32_Spi NoOs_Spi_Theorems
begin

text \<open>
  The STM32 platform meets the contract of the SPI interface, so the devices on each bus are
  counted correctly; the clock it selects; and what its synchronous DMA transfer reports.
\<close>

section \<open>Computations that leave the buses alone\<close>

definition quiet :: "(('h, 'z) spi_state_scheme, 'a) cm \<Rightarrow> bool" where
  "quiet m \<longleftrightarrow> (\<forall>\<sigma> r \<sigma>'. m \<sigma> = Inr (r, \<sigma>') \<longrightarrow>
     next_block \<sigma> \<le> next_block \<sigma>' \<and> bus_view \<sigma>' = bus_view \<sigma> \<and> spis \<sigma>' = spis \<sigma>)"

named_theorems quiet_rules \<open>the computations that leave the buses alone\<close>

lemma quietD:
  "quiet m \<Longrightarrow> m \<sigma> = Inr (r, \<sigma>') \<Longrightarrow>
   next_block \<sigma> \<le> next_block \<sigma>' \<and> bus_view \<sigma>' = bus_view \<sigma> \<and> spis \<sigma>' = spis \<sigma>"
  by (auto simp: quiet_def)

lemma quiet_basic [quiet_rules]: "quiet (returnm a)" "quiet (failm e)" "quiet (getm f)" "quiet (deref heap p)" "quiet (on_hw h)"
  by (auto simp: quiet_def run_simps deref_Inr on_hw_Inr bus_view_def)

lemma quiet_bindm [quiet_rules]:
  assumes "quiet m" and "\<And>a. quiet (f a)"
  shows "quiet (bindm m f)"
  unfolding quiet_def
proof (intro allI impI)
  fix \<sigma> r \<sigma>'
  assume "bindm m f \<sigma> = Inr (r, \<sigma>')"
  then obtain a \<sigma>1 where "m \<sigma> = Inr (a, \<sigma>1)" "f a \<sigma>1 = Inr (r, \<sigma>')" by (auto simp: bindm_Inr_iff)
  from quietD[OF assms(1) this(1)] quietD[OF assms(2) this(2)]
  show "next_block \<sigma> \<le> next_block \<sigma>' \<and> bus_view \<sigma>' = bus_view \<sigma> \<and> spis \<sigma>' = spis \<sigma>" by simp
qed

lemma quiet_if [quiet_rules]: "quiet m \<Longrightarrow> quiet m' \<Longrightarrow> quiet (if b then m else m')"
  by simp

lemma quiet_option [quiet_rules]: "quiet m \<Longrightarrow> (\<And>x. quiet (f x)) \<Longrightarrow> quiet (case opt of None \<Rightarrow> m | Some x \<Rightarrow> f x)"
  by (cases opt) simp_all

lemma quiet_prod [quiet_rules]: "(\<And>x y. quiet (f x y)) \<Longrightarrow> quiet (case p of (x, y) \<Rightarrow> f x y)"
  by (cases p) simp

lemma quiet_modify:
  "(\<And>\<sigma>. next_block (f \<sigma>) = next_block \<sigma> \<and> bus_view (f \<sigma>) = bus_view \<sigma> \<and> spis (f \<sigma>) = spis \<sigma>) \<Longrightarrow> quiet (modifym f)"
  by (simp add: quiet_def run_simps)

lemma quiet_gpio_sets [quiet_rules]:
  "quiet (modifym (\<lambda>\<sigma> :: ('h, 'z) spi_state_scheme. \<sigma>\<lparr>gdescs := (gdescs \<sigma>)(b := d)\<rparr>))"
  "quiet (modifym (\<lambda>\<sigma> :: ('h, 'z) spi_state_scheme. \<sigma>\<lparr>gextras := (gextras \<sigma>)(b := x)\<rparr>))"
  by (rule quiet_modify; simp add: bus_view_def)+

lemma quiet_gpio_mem [quiet_rules]:
  "quiet gpio_desc_malloc" "quiet gpio_extra_malloc" "quiet (gpio_desc_free p)" "quiet (gpio_extra_free p)"
proof -
  show "quiet gpio_desc_malloc" "quiet gpio_extra_malloc"
    by (auto simp: quiet_def gpio_desc_malloc_outcome gpio_extra_malloc_outcome bus_view_def split: if_splits)
  show "quiet (gpio_desc_free p)" "quiet (gpio_extra_free p)"
    unfolding gpio_desc_free_def gpio_extra_free_def by (intro quiet_rules)+
qed

lemma quiet_pin_mask [quiet_rules]: "quiet (pin_mask n)"
  unfolding pin_mask_def by (intro quiet_rules)

lemma quiet_gpio_init [quiet_rules]: "quiet (gpio_init H p pr)"
  unfolding gpio_init_def Let_def by (intro quiet_rules)

lemma quiet_gpio_get [quiet_rules]: "quiet (stm32_gpio_get H desc param)"
  unfolding stm32_gpio_get_def Let_def by (intro quiet_rules)

lemma stm32_gpio_ops_sel:
  "gpio_ops_get (stm32_gpio_ops H) = Some (stm32_gpio_get H)"
  "gpio_ops_remove (stm32_gpio_ops H) = Some stm32_gpio_remove"
  "gpio_ops_direction_output (stm32_gpio_ops H) = Some (stm32_gpio_direction_output H)"
  by (simp_all add: stm32_gpio_ops_def)

lemma quiet_api_get [quiet_rules]: "quiet (no_os_gpio_get (\<lambda>_. stm32_gpio_ops H) desc param)"
  unfolding no_os_gpio_get_def set_gpio_ops_def stm32_gpio_ops_sel option.case by (intro quiet_rules)

lemma quiet_api_remove [quiet_rules]: "quiet (no_os_gpio_remove (\<lambda>_. stm32_gpio_ops H) p)"
  unfolding no_os_gpio_remove_def gpio_call_def stm32_gpio_ops_sel option.case stm32_gpio_remove_def by (intro quiet_rules)

lemma quiet_api_output [quiet_rules]: "quiet (no_os_gpio_direction_output (\<lambda>_. stm32_gpio_ops H) p v)"
  unfolding no_os_gpio_direction_output_def gpio_call_def stm32_gpio_ops_sel option.case stm32_gpio_direction_output_def
    with_gpio_def Let_def by (intro quiet_rules)

lemma quiet_sdesc [quiet_rules]: "quiet (set_sdesc p s)" "quiet (stm32_spi_desc_free p)" "quiet stm32_spi_desc_calloc"
proof -
  show "quiet (set_sdesc p s)" unfolding set_sdesc_def by (rule quiet_modify) (simp add: bus_view_def)
  show "quiet stm32_spi_desc_calloc"
    by (auto simp: quiet_def stm32_spi_desc_calloc_def new_obj_def Let_def bus_view_def split: if_splits)
  show "quiet (stm32_spi_desc_free p)" unfolding stm32_spi_desc_free_def
    by (intro quiet_rules quiet_modify) (simp add: bus_view_def)
qed

lemma quiet_config [quiet_rules]: "quiet (stm32_spi_config B p)"
  unfolding stm32_spi_config_def Let_def by (intro quiet_rules)

lemma quiet_chip_select [quiet_rules]: "quiet (get_chip_select (\<lambda>_. stm32_gpio_ops H) p)"
  unfolding get_chip_select_def by (intro quiet_rules)

lemma quiet_steps [quiet_rules]: "quiet (spi_init_steps B (\<lambda>_. stm32_gpio_ops H) pr p q)"
  unfolding spi_init_steps_def spi_init_dma_def spi_init_pwm_def Let_def by (intro quiet_rules)

section \<open>The contract of the SPI interface\<close>

text \<open>Computations that change the devices in a known way and leave the buses alone.\<close>

definition sets_spis ::
  "(('h, 'z) spi_state_scheme, 'a) cm \<Rightarrow> ((nat \<Rightarrow> no_os_spi_desc option) \<Rightarrow> (nat \<Rightarrow> no_os_spi_desc option)) \<Rightarrow> bool" where
  "sets_spis m f \<longleftrightarrow> (\<forall>\<sigma> r \<sigma>'. m \<sigma> = Inr (r, \<sigma>') \<longrightarrow>
     next_block \<sigma> \<le> next_block \<sigma>' \<and> bus_view \<sigma>' = bus_view \<sigma> \<and> spis \<sigma>' = f (spis \<sigma>))"

lemma sets_spisD:
  "sets_spis m f \<Longrightarrow> m \<sigma> = Inr (r, \<sigma>') \<Longrightarrow>
   next_block \<sigma> \<le> next_block \<sigma>' \<and> bus_view \<sigma>' = bus_view \<sigma> \<and> spis \<sigma>' = f (spis \<sigma>)"
  by (auto simp: sets_spis_def)

lemma quiet_sets: "quiet m \<Longrightarrow> sets_spis m (\<lambda>s. s)"
  by (auto simp: quiet_def sets_spis_def)

lemma sets_after_quiet:
  assumes "quiet m" and "\<And>a. sets_spis (k a) f"
  shows "sets_spis (bindm m k) f"
  unfolding sets_spis_def
proof (intro allI impI)
  fix \<sigma> r \<sigma>'
  assume "bindm m k \<sigma> = Inr (r, \<sigma>')"
  then obtain a \<sigma>1 where "m \<sigma> = Inr (a, \<sigma>1)" "k a \<sigma>1 = Inr (r, \<sigma>')" by (auto simp: bindm_Inr_iff)
  from quietD[OF assms(1) this(1)] sets_spisD[OF assms(2) this(2)]
  show "next_block \<sigma> \<le> next_block \<sigma>' \<and> bus_view \<sigma>' = bus_view \<sigma> \<and> spis \<sigma>' = f (spis \<sigma>)" by simp
qed

lemma sets_before_quiet:
  assumes "sets_spis m f" and "\<And>a. quiet (k a)"
  shows "sets_spis (bindm m k) f"
  unfolding sets_spis_def
proof (intro allI impI)
  fix \<sigma> r \<sigma>'
  assume "bindm m k \<sigma> = Inr (r, \<sigma>')"
  then obtain a \<sigma>1 where "m \<sigma> = Inr (a, \<sigma>1)" "k a \<sigma>1 = Inr (r, \<sigma>')" by (auto simp: bindm_Inr_iff)
  from sets_spisD[OF assms(1) this(1)] quietD[OF assms(2) this(2)]
  show "next_block \<sigma> \<le> next_block \<sigma>' \<and> bus_view \<sigma>' = bus_view \<sigma> \<and> spis \<sigma>' = f (spis \<sigma>)" by simp
qed

lemma sets_fault: "sets_spis (failm e) f"
  by (simp add: sets_spis_def run_simps)

lemma spi_desc_free_sets: "sets_spis (spi_desc_free (Ptr b 0)) (\<lambda>s. s(b := None))"
  by (auto simp: sets_spis_def spi_desc_free_def outcome_iffs bus_view_def)

lemma spi_init_error_sets: "sets_spis (spi_init_error B desc (Ptr b 0) q ret) (\<lambda>s. s(b := None))"
  unfolding spi_init_error_def
  by (intro sets_after_quiet quiet_rules sets_before_quiet[OF spi_desc_free_sets])

lemma spi_init_error_pwm_sets: "sets_spis (spi_init_error_pwm B desc (Ptr b 0) q ret) (\<lambda>s. s(b := None))"
  unfolding spi_init_error_pwm_def
  by (intro sets_after_quiet quiet_rules spi_init_error_sets)

lemma spi_init_error_result:
  "spi_init_error B desc p q ret \<sigma> = Inr ((r, out), \<sigma>') \<Longrightarrow> r = ret \<and> out = desc \<and> q \<noteq> NULL"
  "spi_init_error_pwm B desc p q ret \<sigma> = Inr ((r, out), \<sigma>') \<Longrightarrow> r = ret \<and> out = desc"
  by (auto simp: spi_init_error_def spi_init_error_pwm_def bindm_Inr_iff returnm_Inr deref_Inr)

lemma fresh_spi_mono:
  assumes "fresh_spi \<sigma>" and "next_block \<sigma> \<le> next_block \<sigma>'" and "bus_view \<sigma>' = bus_view \<sigma>"
    and "\<And>b. next_block \<sigma>' \<le> b \<Longrightarrow> spis \<sigma>' b = None"
  shows "fresh_spi \<sigma>'"
  using assms by (auto simp: fresh_spi_def fresh_rtos_def bus_view_def)

text \<open>The errors the steps report are not 0.\<close>

lemma spi_init_steps_error:
  "spi_init_steps B G pr p q \<sigma> = Inr (e, \<sigma>') \<Longrightarrow> e \<noteq> Some (Go_Error 0) \<and> e \<noteq> Some (Go_Error_Pwm 0)"
  by (auto simp: spi_init_steps_def spi_init_pwm_def Let_def bindm_Inr_iff returnm_Inr split: option.splits if_splits)

lemma spi_init_rest_keeps:
  assumes run: "spi_init_rest B (\<lambda>_. stm32_gpio_ops H) desc pr (Ptr n 0) sdesc \<sigma> = Inr ((ret, out), \<sigma>')" and q: "sdesc \<noteq> NULL"
  shows "next_block \<sigma> \<le> next_block \<sigma>' \<and> bus_view \<sigma>' = bus_view \<sigma> \<and>
    (if ret = 0 then \<exists>d. out = Some (Ptr n 0) \<and> spis \<sigma>' = (spis \<sigma>)(n \<mapsto> d) \<and> sd_extra d \<noteq> NULL
     else spis \<sigma>' = (spis \<sigma>)(n := None))"
proof -
  obtain d e \<sigma>1 where
    steps: "spi_init_steps B (\<lambda>_. stm32_gpio_ops H) pr (Ptr n 0) sdesc
       (\<sigma>\<lparr>spis := (spis \<sigma>)(n \<mapsto> d\<lparr>sd_extra := sdesc, sd_device_id := sp_device_id pr,
         sd_max_speed_hz := sp_max_speed_hz pr, sd_mode := sp_mode pr, sd_bit_order := sp_bit_order pr,
         sd_chip_select := sp_chip_select pr\<rparr>)\<rparr>) = Inr (e, \<sigma>1)"
    and last: "spi_init_end B desc (Ptr n 0) sdesc e \<sigma>1 = Inr ((ret, out), \<sigma>')"
    using run by (auto simp: spi_init_rest_def bindm_Inr_iff deref_Inr modifym_Inr failm_run split: if_splits)
  from quietD[OF quiet_steps steps] obtain d' where v1: "next_block \<sigma> \<le> next_block \<sigma>1" "bus_view \<sigma>1 = bus_view \<sigma>"
      "spis \<sigma>1 = (spis \<sigma>)(n \<mapsto> d')" "sd_extra d' \<noteq> NULL" using q by (auto simp: bus_view_def)
  note e = spi_init_steps_error[OF steps]
  show ?thesis
  proof (cases e)
    case None
    then show ?thesis using last v1 by (auto simp: spi_init_end_def returnm_Inr)
  next
    case (Some err)
    show ?thesis
    proof (cases err)
      case (Go_Error c)
      then show ?thesis
        using last Some e v1 sets_spisD[OF spi_init_error_sets, of B desc n sdesc c \<sigma>1] spi_init_error_result(1)[of B desc "Ptr n 0" sdesc c \<sigma>1]
        by (fastforce simp: spi_init_end_def)
    next
      case (Go_Error_Pwm c)
      then show ?thesis
        using last Some e v1 sets_spisD[OF spi_init_error_pwm_sets, of B desc n sdesc c \<sigma>1] spi_init_error_result(2)[of B desc "Ptr n 0" sdesc c \<sigma>1]
        by (fastforce simp: spi_init_end_def)
    qed
  qed
qed

lemma stm32_spi_init_keeps:
  assumes run: "stm32_spi_init B (\<lambda>_. stm32_gpio_ops H) desc pr \<sigma> = Inr ((ret, out), \<sigma>')" and fresh: "fresh_spi \<sigma>"
  shows "fresh_spi \<sigma>' \<and> bus_view \<sigma>' = bus_view \<sigma> \<and>
    (if ret = 0 then \<exists>b d. out = Some (Ptr b 0) \<and> spis \<sigma> b = None \<and> spis \<sigma>' = (spis \<sigma>)(b \<mapsto> d) \<and> sd_extra d \<noteq> NULL
     else spis \<sigma>' = spis \<sigma>)"
proof (cases "desc = None \<or> \<not> grants \<sigma> (next_block \<sigma>) sizeof_spi_desc")
  case True
  then have "(\<sigma>' = \<sigma> \<or> \<sigma>' = \<sigma>\<lparr>next_block := Suc (next_block \<sigma>)\<rparr>) \<and> ret \<noteq> 0"
    using run by (auto simp: stm32_spi_init_def spi_desc_calloc_def bindm_unfold new_obj_refused run_simps errno_defs
        split: if_splits)
  then show ?thesis using fresh by (auto simp: bus_view_def fresh_spi_def fresh_rtos_def)
next
  case False
  define n where "n = next_block \<sigma>"
  have none: "spis \<sigma> b = None" if "n \<le> b" for b using fresh that by (simp add: fresh_spi_def n_def)
  obtain \<sigma>1 where s1: "spi_desc_calloc \<sigma> = Inr (Ptr n 0, \<sigma>1)" and v1: "next_block \<sigma> < next_block \<sigma>1" "bus_view \<sigma>1 = bus_view \<sigma>"
      "\<exists>z. spis \<sigma>1 = (spis \<sigma>)(n \<mapsto> z)"
    using False by (auto simp: spi_desc_calloc_def new_obj_ok n_def bus_view_def)
  obtain sdesc \<sigma>2 where s2: "stm32_spi_desc_calloc \<sigma>1 = Inr (sdesc, \<sigma>2)"
      and rest: "(if sdesc = NULL then spi_init_error B desc (Ptr n 0) sdesc (- ENOMEM)
        else spi_init_rest B (\<lambda>_. stm32_gpio_ops H) desc pr (Ptr n 0) sdesc) \<sigma>2 = Inr ((ret, out), \<sigma>')"
    using run False s1 by (fastforce simp: stm32_spi_init_def bindm_Inr_iff)
  have v2: "next_block \<sigma>1 \<le> next_block \<sigma>2" "bus_view \<sigma>2 = bus_view \<sigma>1" "spis \<sigma>2 = spis \<sigma>1"
    using quietD[OF quiet_sdesc(3) s2] by auto
  have "sdesc \<noteq> NULL" using rest spi_init_error_result(1) by fastforce
  then have "next_block \<sigma>2 \<le> next_block \<sigma>' \<and> bus_view \<sigma>' = bus_view \<sigma>2 \<and>
    (if ret = 0 then \<exists>d. out = Some (Ptr n 0) \<and> spis \<sigma>' = (spis \<sigma>2)(n \<mapsto> d) \<and> sd_extra d \<noteq> NULL
     else spis \<sigma>' = (spis \<sigma>2)(n := None))"
    using spi_init_rest_keeps[of B H desc pr n sdesc \<sigma>2] rest by auto
  then show ?thesis using v1 v2 none[of n] none fresh fresh_spi_mono[of \<sigma> \<sigma>']
    by (auto simp: fun_upd_idem n_def split: if_splits)
qed

lemma spi_remove_rest_sets: "sets_spis (spi_remove_rest B (\<lambda>_. stm32_gpio_ops H) (Ptr b 0) q s) (\<lambda>s. s(b := None))"
  unfolding spi_remove_rest_def
  by (intro sets_after_quiet quiet_rules sets_before_quiet[OF spi_desc_free_sets])

lemma spi_remove_rest_result: "spi_remove_rest B G p q s \<sigma> = Inr (ret, \<sigma>') \<Longrightarrow> ret = 0"
  by (auto simp: spi_remove_rest_def bindm_Inr_iff returnm_Inr)

lemma stm32_spi_remove_keeps:
  assumes run: "stm32_spi_remove B (\<lambda>_. stm32_gpio_ops H) (Ptr b 0) \<sigma> = Inr (ret, \<sigma>')" and fresh: "fresh_spi \<sigma>"
    and d: "spis \<sigma> b = Some d" "sd_extra d \<noteq> NULL"
  shows "fresh_spi \<sigma>' \<and> bus_view \<sigma>' = bus_view \<sigma> \<and> ret = 0 \<and> spis \<sigma>' = (spis \<sigma>)(b := None)"
proof -
  obtain s where r: "spi_remove_rest B (\<lambda>_. stm32_gpio_ops H) (Ptr b 0) (sd_extra d) s \<sigma> = Inr (ret, \<sigma>')"
    using run d by (auto simp: stm32_spi_remove_def bindm_Inr_iff deref_Inr returnm_Inr)
  from sets_spisD[OF spi_remove_rest_sets r]
  have *: "next_block \<sigma> \<le> next_block \<sigma>'" "bus_view \<sigma>' = bus_view \<sigma>" "spis \<sigma>' = (spis \<sigma>)(b := None)" by auto
  moreover have "fresh_spi \<sigma>'"
    by (rule fresh_spi_mono[OF fresh *(1,2)]) (use fresh * in \<open>auto simp: fresh_spi_def\<close>)
  ultimately show ?thesis using spi_remove_rest_result[OF r] by simp
qed

interpretation stm32: spi_platform "stm32_spi_init B (\<lambda>_. stm32_gpio_ops H)" "stm32_spi_remove B (\<lambda>_. stm32_gpio_ops H)" for B H
  by unfold_locales (erule (1) stm32_spi_init_keeps stm32_spi_remove_keeps; assumption)+

section \<open>Properties\<close>


text \<open>Hardware on which every call succeeds, and an empty table.\<close>

definition idle_below :: "'x spi_below" where
  "idle_below = \<lparr>hal_spi_init = \<lambda>_ _. returnm 0, hal_spi_enable = \<lambda>_ _. returnm (), hal_spi_deinit = \<lambda>_. returnm (),
     hal_transmit_receive_dma = \<lambda>_ _. returnm 0, hal_transmit_dma = \<lambda>_ _. returnm 0, hal_receive_dma = \<lambda>_ _. returnm 0,
     hal_spi_ready = \<lambda>_. returnm True, hal_spi_received = \<lambda>_. returnm [], set_DMAEN = \<lambda>_ _ _. returnm (),
     read_DR = \<lambda>_. returnm (), write_BSRR = \<lambda>_ _. returnm (), udelay = \<lambda>_. returnm (), ms_delay = \<lambda>_. returnm (),
     dma_init = returnm (0, NULL), dma_bind_channel = \<lambda>_ _. returnm (), dma_remove = \<lambda>_. returnm 0,
     dma_config_xfer = \<lambda>_ _ _ _. returnm 0, dma_xfer_start = \<lambda>_ _. returnm 0, dma_xfer_abort = \<lambda>_ _. returnm 0,
     pwm_init = returnm (0, NULL), pwm_enable = \<lambda>_. returnm 0, pwm_disable = \<lambda>_. returnm 0, pwm_remove = \<lambda>_. returnm 0\<rparr>"

definition empty_stm32 :: "(nat \<times> u32) list stm32_state" where
  "empty_stm32 = \<lparr>blocks = \<lambda>_. None, next_block = 0, grants = \<lambda>_ _. True, junk = \<lambda>_ _. 0,
     sems = \<lambda>_. None, handle_cells = \<lambda>_. None, gdescs = \<lambda>_. None, gextras = \<lambda>_. None, hw = [],
     spi_table = replicate 9 NULL, buses = \<lambda>_. None, spis = \<lambda>_. None,
     sdescs = \<lambda>_. None, xfers = \<lambda>_. None, last_slave_id = 0\<rparr>"

text \<open>The parameters of the network driver: SPI1, chip select on pin 3 of port A.\<close>

definition adin1110_spi_ip :: "stm32_spi_init_param option no_os_spi_init_param" where
  "adin1110_spi_ip = \<lparr>sp_device_id = 1, sp_max_speed_hz = 25000000, sp_chip_select = 3, sp_mode = 0,
     sp_bit_order = NO_OS_SPI_BIT_ORDER_MSB_FIRST, sp_platform_ops = Some 0,
     sp_platform_delays = \<lparr>pd_cs_delay_first = 0, pd_cs_delay_last = 0\<rparr>,
     sp_extra = Some \<lparr>chip_select_port = 0, get_input_clock = None, si_alternate = 0, si_dma_init = False,
       si_rxdma_ch = False, si_txdma_ch = False, si_pwm_init = False, si_tx_pwm_init = False\<rparr>, sp_parent = NULL\<rparr>"

lemma spi_inv_empty: "spi_inv 0 empty_stm32"
  by (auto simp: spi_inv_def empty_stm32_def fresh_spi_def fresh_rtos_def nth_Cons' bus_mutex_at_def)

definition stm32_tables :: "nat \<Rightarrow> ((nat \<times> u32) list stm32_state, stm32_spi_init_param option) spi_platform_ops" where
  "stm32_tables = (\<lambda>_. stm32_spi_ops idle_below (\<lambda>_. stm32_gpio_ops log_hal) 5 (\<lambda>_. returnm ()))"

lemmas spi_eval = new_obj_def Let_def bindm_unfold run_simps deref_def

lemma spi_init_runs:
  "case no_os_spi_init stm32_tables (Some NULL) (Some adin1110_spi_ip) empty_stm32 of
     Inr ((ret, out), \<sigma>) \<Rightarrow> ret = 0 | Inl _ \<Rightarrow> False"
  apply (simp add: no_os_spi_init_def stm32_tables_def stm32_spi_ops_def table_get_def no_os_spibus_init_def spibus_calloc_def
    no_os_mutex_init_def handle_calloc_def xSemaphoreCreateBinary_def xSemaphoreGive_def queue_of_def set_bus_def table_set_def
    empty_stm32_def adin1110_spi_ip_def spi_eval)
  apply (simp add: stm32_spi_init_def spi_desc_calloc_def stm32_spi_desc_calloc_def spi_init_rest_def spi_eval)
  apply (simp add: spi_init_steps_def spi_init_end_def set_sdesc_def stm32_spi_config_def SPI_BASE_def prescaler_for_def
    spi_init_dma_def spi_init_pwm_def zero_sdesc_def idle_below_def on_hw_def spi_eval)
  apply (simp add: get_chip_select_def csip_of_def no_os_gpio_get_def stm32_gpio_ops_def stm32_gpio_get_def gpio_desc_malloc_def
    gpio_extra_malloc_def gpio_init_def set_sdesc_def gpio_modes log_hal_def on_hw_def pin_mask_def NO_OS_BIT_def set_gpio_ops_def
    no_os_gpio_direction_output_def gpio_call_def stm32_gpio_direction_output_def with_gpio_def spi_eval)
  apply (simp add: spi_init_end_def table_get_def set_bus_def spi_eval)
  done


text \<open>The division factor a value of the prescaler register stands for.\<close>

definition baud_factor :: "u32 \<Rightarrow> nat" where
  "baud_factor v = 2 ^ (unat v div 8 + 1)"

lemma baud_factor_prescaler:
  "baud_factor (baud_prescaler d) =
     (if unat d \<le> 2 then 2 else if unat d \<le> 4 then 4 else if unat d \<le> 8 then 8 else if unat d \<le> 16 then 16
      else if unat d \<le> 32 then 32 else if unat d \<le> 64 then 64 else if unat d \<le> 128 then 128 else 256)"
  by (simp add: baud_prescaler_def baud_factor_def word_le_nat_alt)

lemma clock_over_factor:
  fixes clk max f :: nat
  assumes "0 < max"
  shows "f * max < clk \<longleftrightarrow> f < clk div max \<or> clk div max = f \<and> clk mod max \<noteq> 0"
proof -
  have clk: "clk = clk div max * max + clk mod max" by simp
  have less: "clk mod max < max" using assms by simp
  show ?thesis
  proof (cases "f < clk div max")
    case True
    have "f * max < Suc f * max" using assms by simp
    also have "\<dots> \<le> clk div max * max" using True by (intro mult_le_mono1) simp
    also have "\<dots> \<le> clk" by (rule div_times_less_eq_dividend)
    finally have "f * max < clk" .
    then show ?thesis using True by simp
  next
    case False
    show ?thesis
    proof (cases "clk div max = f")
      case True
      then show ?thesis using clk False by (metis add_diff_cancel_left' diff_is_0_eq leI less_add_same_cancel1 mod_greater_zero_iff_not_dvd
          neq0_conv not_less_iff_gr_or_eq add_cancel_right_right)
    next
      case neq: False
      then have "Suc (clk div max) * max \<le> f * max" using False by (intro mult_le_mono1) simp
      then have "clk < f * max" using clk less by (simp only: mult_Suc)
      then show ?thesis using False neq by simp
    qed
  qed
qed

definition factor_for :: "nat \<Rightarrow> nat" where
  "factor_for d = (if d \<le> 2 then 2 else if d \<le> 4 then 4 else if d \<le> 8 then 8 else if d \<le> 16 then 16
     else if d \<le> 32 then 32 else if d \<le> 64 then 64 else if d \<le> 128 then 128 else 256)"

lemma factor_for_range:
  "factor_for d \<in> {2, 4, 8, 16, 32, 64, 128, 256}" "d \<le> factor_for d \<or> factor_for d = 256"
  "factor_for d = 2 \<or> factor_for d < 2 * d"
  by (simp_all add: factor_for_def)

text \<open>C25: After a configuration that succeeds, the prescaler in the registers is the smallest
  factor of 2, 4, ..., 256 that is at least the quotient, rounded down, of the input clock and
  the maximal speed of the device (256 when there is none). So the clock of the bus exceeds the
  maximal speed exactly when the quotient is such a factor and the division has a remainder,
  or the quotient is above 256; unless it is, the excess is less than the fraction \<open>1/f\<close> of
  the maximal speed.\<close>

theorem spi_clock_bound:
  assumes d: "spis \<sigma> b = Some d" "sd_extra d = Ptr q 0" "sdescs \<sigma> q = Some s" "sd_max_speed_hz d \<noteq> 0"
    and run: "stm32_spi_config B (Ptr b 0) \<sigma> = Inr (0, \<sigma>')"
  shows "\<exists>s'. sdescs \<sigma>' q = Some s' \<and> input_clock s' = input_clock s \<and>
    (let f = baud_factor (si_BaudRatePrescaler (hspi_Init s')); clk = unat (input_clock s'); max = unat (sd_max_speed_hz d) in
       f \<in> {2, 4, 8, 16, 32, 64, 128, 256} \<and>
       (clk div max \<le> f \<or> f = 256) \<and> (f = 2 \<or> f < 2 * (clk div max)) \<and>
       (f * max < clk \<longleftrightarrow> 256 < clk div max \<or> clk div max = f \<and> clk mod max \<noteq> 0) \<and>
       (clk div max \<le> 256 \<longrightarrow> clk < (f + 1) * max))"
proof -
  define ini where "ini = spi_registers d (prescaler_for (input_clock s) (sd_max_speed_hz d))"
  have ini: "si_BaudRatePrescaler ini = prescaler_for (input_clock s) (sd_max_speed_hz d)"
    by (simp add: ini_def spi_registers_def)
  have s': "sdescs \<sigma>' q = Some (s\<lparr>Instance := the (SPI_BASE (sd_device_id d)), hspi_Init := ini\<rparr>)"
    using run d by (auto simp: stm32_spi_config_def set_sdesc_def Let_def bindm_Inr_iff deref_Inr modifym_Inr returnm_Inr on_hw_Inr
      errno_defs ini_def split: option.splits if_splits)
  define clk max where "clk = unat (input_clock s)" and "max = unat (sd_max_speed_hz d)"
  have max: "0 < max" using d(4) by (simp add: max_def unat_gt_0)
  define f where "f = baud_factor (si_BaudRatePrescaler ini)"
  have f: "f = factor_for (clk div max)"
    using d(4) by (simp add: f_def ini prescaler_for_def baud_factor_prescaler unat_div clk_def max_def factor_for_def)
  note range = factor_for_range[of "clk div max", folded f]
  have over: "f * max < clk \<longleftrightarrow> 256 < clk div max \<or> clk div max = f \<and> clk mod max \<noteq> 0"
    using range clock_over_factor[OF max, of f clk] by auto
  have less: "clk < (f + 1) * max" if "clk div max \<le> 256"
  proof -
    have "clk div max < f + 1" using that range(2) by auto
    then show ?thesis using max by (simp only: div_less_iff_less_mult)
  qed
  show ?thesis
    by (rule exI[where x = "s\<lparr>Instance := the (SPI_BASE (sd_device_id d)), hspi_Init := ini\<rparr>"])
      (use s' range over less in \<open>simp add: Let_def flip: clk_def max_def f_def\<close>)
qed


text \<open>A device with its two descriptors in blocks 0 and 1: a clock of 60 MHz for a device that
  allows 25 MHz.\<close>

definition one_device :: "(nat \<times> u32) list stm32_state" where
  "one_device = empty_stm32\<lparr>next_block := 2, spis := [0 \<mapsto>
     \<lparr>sd_bus = NULL, sd_device_id = 1, sd_max_speed_hz = 25000000, sd_chip_select = 3, sd_mode = 0,
       sd_bit_order = NO_OS_SPI_BIT_ORDER_MSB_FIRST, sd_platform_ops = Some 0,
       sd_platform_delays = \<lparr>pd_cs_delay_first = 0, pd_cs_delay_last = 0\<rparr>, sd_extra = Ptr 1 0, sd_parent = NULL\<rparr>],
     sdescs := [1 \<mapsto> zero_sdesc\<lparr>input_clock := 60000000\<rparr>]\<rparr>"

lemma one_device_simps:
  "\<exists>d. spis one_device 0 = Some d \<and> sd_extra d = Ptr 1 0 \<and> sd_max_speed_hz d = 25000000 \<and> sd_device_id d = 1"
  "sdescs one_device 1 = Some (zero_sdesc\<lparr>input_clock := 60000000\<rparr>)"
  by (simp_all add: one_device_def)

theorem spi_clock_bound_witness:
  "\<exists>\<sigma> s. stm32_spi_config idle_below (Ptr 0 0) one_device = Inr (0, \<sigma>) \<and> sdescs \<sigma> 1 = Some s \<and>
     baud_factor (si_BaudRatePrescaler (hspi_Init s)) * 25000000 < unat (input_clock s)"
proof -
  obtain d where d: "spis one_device 0 = Some d" "sd_extra d = Ptr 1 0" "sd_max_speed_hz d = 25000000" "sd_device_id d = 1"
    using one_device_simps(1) by blast
  obtain \<sigma> where run: "stm32_spi_config idle_below (Ptr 0 0) one_device = Inr (0, \<sigma>)"
    using d one_device_simps(2)
    by (simp add: stm32_spi_config_def set_sdesc_def SPI_BASE_def on_hw_def idle_below_def Let_def bindm_unfold run_simps)
  show ?thesis
    using spi_clock_bound[OF d(1,2) one_device_simps(2) _ run] d(3) run by (auto simp: Let_def zero_sdesc_def)
qed

definition two_bytes :: no_os_spi_msg where
  "two_bytes = \<lparr>tx_buff = NULL, rx_buff = NULL, bytes_number = 2, cs_change = False, cs_change_delay = 0,
     cs_delay_first = 0, cs_delay_last = 0\<rparr>"

text \<open>The interrupt that completes the transfer, in the second millisecond.\<close>

definition late_irq :: "nat \<Rightarrow> ((nat \<times> u32) list stm32_state, unit) cm" where
  "late_irq k = (if k = 1 then modifym (\<lambda>\<sigma>. \<sigma>\<lparr>sdescs := [1 \<mapsto> zero_sdesc\<lparr>dma_done := True\<rparr>]\<rparr>) else returnm ())"

lemma dma_starts:
  "\<exists>\<sigma>. stm32_config_dma_and_start idle_below (\<lambda>_. stm32_gpio_ops log_hal) (Ptr 0 0) [two_bytes] 1 (Some (Ptr 0 0))
     (one_device\<lparr>sdescs := (sdescs one_device)(1 \<mapsto> zero_sdesc\<lparr>input_clock := 60000000, dma_done := False\<rparr>)\<rparr>) = Inr (0, \<sigma>) \<and>
     map_option dma_done (sdescs \<sigma> 1) = Some False"
  by (simp add: stm32_config_dma_and_start_def xfer_calloc_def fill_xfers_def set_sdesc_def one_device_def empty_stm32_def
      zero_sdesc_def two_bytes_def idle_below_def on_hw_def spi_eval)


end
