(* ===== verification/Spec2Isabelle.thy ===== *)
theory Spec2Isabelle
  imports Modbus_Theorems Modbus_Server NoOs_Util NoOs_Crc8 Gpio_Irq_Theorems Stm32_Dma_Theorems Stm32_Pwm_Theorems NoOs_Delay
    Network_If_Theorems Rtos_Tasks NoOs_Gpio_Theorems Stm32_Spi_Theorems
begin

text \<open>
  Modbus over TCP on single-pair Ethernet: the firmware of an STM32L4S5 with an ADIN1110.

  \<^bold>\<open>The program.\<close> A task of FreeRTOS runs a Modbus server (\<open>Libraries/modbus\<close>) over
  lwIP. Below lwIP an adapter (\<open>Application/network.c\<close>) hands frames to and from the driver
  of the Ethernet chip (\<open>Libraries/noOS/src/drivers/adin1110.c\<close>), which speaks to it in frames
  over SPI. The driver stands on the layer no-OS: a generic interface per kind of peripheral
  (\<open>Libraries/noOS/src/api\<close>), which dispatches through a table of function pointers, and a
  platform for the STM32 below (\<open>stm32_spi.c\<close>, \<open>stm32_gpio.c\<close>, \<open>stm32_gpio_irq.c\<close>,
  \<open>stm32_dma.c\<close>), which
  calls the HAL. no-OS also brings lists, bit and byte helpers, checksums, and wrappers
  around the allocator, the mutexes and the semaphores of FreeRTOS. All paths below are
  relative to \<open>src/\<close>.

  \<^bold>\<open>How code is modelled.\<close> A C function is a computation \<open>'s \<Rightarrow> fault + 'a \<times> 's\<close> (\<open>cm\<close> in
  \<open>Prelude\<close>): it returns a result and a state, or a fault. A fault is what the C standard
  leaves undefined or what never comes back: a null or dangling pointer, an access out of
  bounds, an uninitialised value that is used, overflow of a signed integer, a wait for
  ever (\<open>Blocks\<close>), a loop without end (\<open>Diverges\<close>). Error codes of the program are results.
  Integers have their width as words; an \<open>int\<close> that only carries error codes or counters
  far from its bounds is an integer. Output parameters are part of the result. Memory is one of
  two kinds: byte blocks with bounds and lifetime (\<open>CMem\<close>), where the code computes with
  bytes, and maps from block numbers to records, where it only uses the members of a
  structure. Both are filled by one allocator, which may refuse any request: theorems hold for
  every pattern of refusals or name the ones they exclude. Function pointers in tables of
  operations are options of computations; a table is found through its address. Code
  outside of the repository, and HAL and kernel calls that are not translated, are
  parameters, mostly records of computations on a hardware state the theorems do not look into.

  \<^bold>\<open>The theories.\<close>
  \<^item> \<open>Prelude\<close>: the monad with its rules of symbolic execution (\<open>run_simps\<close>), words and
    bytes, and the locale \<open>codec\<close> for encodings that can be read back. \<open>CMem\<close>: byte blocks,
    typed objects, and \<open>freertos_alloc.c\<close>.
  \<^item> \<open>Modbus_Pdu\<close> (\<open>modbus.c\<close>), \<open>Modbus_Tcp\<close> (\<open>modbus_tcp.c\<close>, \<open>modbus_app.c\<close>), \<open>Modbus_Theorems\<close>:
    one request from the bytes received to the bytes sent. The callbacks of the application
    are a record; what a handler needs of them is stated in the locales \<open>data_reader\<close>,
    \<open>data_writer\<close> and their extensions, interpreted for the callbacks the repository ships. The
    theorems say exactly which requests make the server fault, what is answered to those that
    do not, and that a connection is served to its end without losing memory.
    \<open>Modbus_Server\<close>: the accepting task and the connection tasks as interleaved steps on
    the table of clients, with the invariant that slots are not shared and the interleavings
    in which they are lost.
  \<^item> \<open>NoOs_Util\<close>, \<open>NoOs_Crc8\<close>: the helpers of \<open>no_os_util.c\<close> and the table-driven
    checksum of \<open>no_os_crc8.c\<close>, against bit-level references.
  \<^item> \<open>NoOs_List\<close> (\<open>no_os_list.c\<close>), \<open>NoOs_List_Refine\<close>, \<open>NoOs_List_Theorems\<close>: the doubly linked
    list on a heap of elements; \<open>list_inv\<close> relates a heap to a HOL list, every operation
    refines its counterpart, and the locale \<open>list_adapter\<close> gives stack, queue and priority list.
    \<open>List_Heap\<close>: a list as one object in the state of a driver, behind a pointer to its descriptor.
  \<^item> \<open>Rtos\<close> (\<open>freertos_mutex.c\<close>, \<open>freertos_semaphore.c\<close>, binary semaphores of \<open>queue.c\<close>) and
    \<open>Rtos_Tasks\<close>: mutual exclusion of any number of tasks, proved from the laws of a lock
    (locale \<open>task_lock\<close>) and interpreted for the mutexes of no-OS.
  \<^item> \<open>NoOs_Gpio\<close> (\<open>api/no_os_gpio.c\<close>, \<open>stm32_gpio.c\<close>) and \<open>NoOs_Gpio_Theorems\<close>: pins, with every
    outcome of getting one.
  \<^item> \<open>NoOs_Spi\<close> (\<open>api/no_os_spi.c\<close>), \<open>NoOs_Spi_Theorems\<close>, \<open>Stm32_Spi\<close> (\<open>stm32_spi.c\<close>),
    \<open>Stm32_Spi_Theorems\<close>: buses shared by devices. The locale \<open>spi_platform\<close> is what the generic
    part needs of a platform; it is interpreted for the STM32, and gives the bus lock and the
    reference count of a bus. Further: the clock divider and the synchronous DMA transfer.
  \<^item> \<open>NoOs_Irq\<close> (\<open>api/no_os_irq.c\<close>), \<open>Stm32_Exti\<close> (the HAL functions of an EXTI line),
    \<open>Gpio_Irq\<close> (\<open>stm32_gpio_irq.c\<close>), \<open>Gpio_Irq_Theorems\<close>: interrupts of pins, from the pending bit
    through the list of actions to the callback. \<open>action_list\<close> relates the heap to the list of
    actions and \<open>handlers\<close> to the map it stands for.
  \<^item> \<open>NoOs_Dma\<close> (\<open>api/no_os_dma.c\<close>), \<open>NoOs_Dma_Queue\<close>, \<open>Stm32_Dma\<close> (\<open>stm32_dma.c\<close>), \<open>Stm32_Dma_Theorems\<close>:
    queues of DMA transfers. The locale \<open>dma_engine\<close> is what the generic part needs of a platform;
    inside it the interrupt handler, starting, aborting and configuring are run on the queue, and its
    interpretation for the STM32 gives that a chain runs in order, that an abort empties the queue, and
    what happens to transfers that cannot be configured.
  \<^item> \<open>Float_Round\<close>, \<open>NoOs_Pwm\<close> (\<open>api/no_os_pwm.c\<close>), \<open>Stm32_Pwm\<close> (\<open>stm32_pwm.c\<close>), \<open>Stm32_Pwm_Theorems\<close>:
    PWM generators on timers. \<open>Float_Round\<close> rounds exact rationals to 24 and 53 significant bits, as the
    floating-point operations of the code do, with the bound of the relative error; from it follow the
    error of the number of ticks and of the period read back. A generator keeps its mutex while it runs.
    \<open>NoOs_Delay\<close> (\<open>freertos_delay.c\<close>): the ticks a delay asks for.
  \<^item> \<open>Adin1110\<close> (\<open>adin1110.c\<close>), \<open>Adin1110_Theorems\<close>, \<open>Adin1110_Regs\<close>, \<open>Adin1110_Inv\<close>,
    \<open>Adin1110_Frames\<close>, \<open>Adin1110_Init\<close>: the driver over a record \<open>bus\<close> of the operations below
    it. Register accesses against a chip that follows the protocol (locale \<open>reg_access\<close>, interpreted
    for the driver), damaged answers, MDIO polling, address filters, the invariant of the descriptor
    for every operation, frames sent and received byte by byte, and the release of all
    resources when setting up fails.
  \<^item> \<open>Network_If\<close> (\<open>network.c\<close>, parts of \<open>cmsis_os.c\<close> and \<open>pbuf.c\<close>), \<open>Network_If_Theorems\<close>:
    the adapter on top of the driver, composed with it: what is sent, what is delivered, how it is set
    up, and that the driver is only used with its mutex held.

  \<^bold>\<open>State and code.\<close> The records carry the names of the structures and members of the
  code, with a prefix where two structures share a name. The layers extend each other's state:
  \<open>cmem\<close> (memory), \<open>rtos\<close> (semaphores), then one record for each family of drivers, whose static
  variables are fields (\<open>spi_table\<close>, \<open>actions\<close>, \<open>initialized\<close>). Definitions that translate a
  function have its name; a definition for a part of a function (a loop, the text behind a
  \<open>goto\<close> label, a test all functions of a file begin with) is named in the comment above it.

  \<^bold>\<open>Loops and bounds.\<close> Loops over words and lists recurse on a measure. A loop that waits
  for hardware takes a fuel: polling the PHY (\<open>mdio_wait\<close>), the power-up of a port; the theorem on
  polling gives the fuel that suffices and shows that no fuel does when the PHY never
  answers. A loop over a linked list has the number of elements as fuel, which
  \<open>list_inv\<close> makes enough. The receive loop of a connection consumes its list of inputs.

  \<^bold>\<open>Deviations the model shows.\<close> Where the code does not do what it means to, the
  theorems state what it does: among others, requests that crash the server, the slot of
  a client that is overwritten, a bus lock taken twice, a wait that ends with
  success after a time-out, callbacks lost when a second controller is created, transfers
  lost or run twice. The list
  with the lines is kept with the manifest.

  \<^bold>\<open>Not modelled.\<close>
  \<^item> lwIP, the FreeRTOS kernel, its heap and the CMSIS-RTOS layer beyond the functions named above, the HAL
    and the CMSIS headers: third-party code; the calls into it are parameters.
  \<^item> \<open>Core\<close>: the start-up code, clock and pin configuration and interrupt vectors the
    configuration tool generates; they are writes to peripherals without logic of their own.
  \<^item> The PWM and DMA calls of \<open>stm32_spi.c\<close>: its record of operations stands for those layers, not for
    \<open>NoOs_Pwm\<close> and \<open>NoOs_Dma\<close>.
  \<^item> The two string conversions of
    \<open>no_os_util.c\<close> and \<open>start_modbus_task\<close>, which forward to library calls.
  \<^item> \<open>Libraries/TerminalForm\<close> and \<open>Common\<close>: a terminal interface in C++, which the
    firmware does not use in this version.
  \<^item> Timing, caches and the reordering of accesses to peripherals; interrupts are calls between
    the operations of the tasks, not within them.
\<close>

end
